(* ===== verification/Trw_Prelude.thy ===== *)
theory Trw_Prelude
  imports Main "HOL-Library.Char_ord" "HOL-Library.List_Lexorder"
begin

text \<open>
  The prelude of the development: sequencing of fallible code, rows of a table kept as a list
  (the SQLite tables of the program), and the named collections the component theories extend.

  \<^item> \<open>bindE\<close> runs a computation that may raise and passes its value on; a raised error skips the
    rest, as a Python exception does. \<open>foldE\<close> is a \<^verbatim>\<open>for\<close> loop whose body may raise.
  \<^item> \<open>find_row\<close>, \<open>put_row\<close>, \<open>drop_rows\<close> and \<open>update_rows\<close> are \<^verbatim>\<open>SELECT\<close>,
    \<^verbatim>\<open>INSERT .. ON CONFLICT DO UPDATE\<close>, \<^verbatim>\<open>DELETE\<close> and \<^verbatim>\<open>UPDATE\<close> by primary key.
  \<^item> the locale \<open>keyed_table\<close> states what a client of a table relies on; its lemmas are used for
    every loop that writes rows.
\<close>

named_theorems row_laws \<open>reading a table after a write\<close>
named_theorems wf_intros \<open>preservation of the well-formedness of the delivery store\<close>

section \<open>Computations that may raise\<close>

text \<open>
  The exceptions of the modelled code. \<open>RequestError\<close> carries the stable reason code of
  \<^verbatim>\<open>DeliveryRequestError\<close>; the message texts of the others are kept only where they name a key.
\<close>

datatype exn =
    RequestError string
  | KeyError string
  | ValueError string
  | ValidationError string
  | IntegrityError string
  | CorruptDeliveryJournalSchema string
  | UnsupportedDeliveryJournalSchema int

definition bindE :: "'e + 'a \<Rightarrow> ('a \<Rightarrow> 'e + 'b) \<Rightarrow> 'e + 'b" where
  "bindE m f = (case m of Inl e \<Rightarrow> Inl e | Inr x \<Rightarrow> f x)"

lemma bindE_simps [simp]:
  "bindE (Inl e) f = Inl e"
  "bindE (Inr x) f = f x"
  by (simp_all add: bindE_def)

lemma bindE_eq_Inr [simp]: "bindE m f = Inr y \<longleftrightarrow> (\<exists>x. m = Inr x \<and> f x = Inr y)"
  by (cases m) simp_all

lemma bindE_assoc: "bindE (bindE m f) g = bindE m (\<lambda>x. bindE (f x) g)"
  by (cases m) simp_all

fun foldE :: "('a \<Rightarrow> 's \<Rightarrow> 'e + 's) \<Rightarrow> 'a list \<Rightarrow> 's \<Rightarrow> 'e + 's" where
  "foldE f [] s = Inr s"
| "foldE f (x # xs) s = bindE (f x s) (foldE f xs)"

lemma foldE_invariant:
  assumes "foldE f xs s = Inr s'" and "I s"
    and "\<And>x s s'. x \<in> set xs \<Longrightarrow> I s \<Longrightarrow> f x s = Inr s' \<Longrightarrow> I s'"
  shows "I s'"
  using assms
proof (induction xs arbitrary: s)
  case Nil
  then show ?case by simp
next
  case (Cons x xs)
  from Cons.prems(1) obtain s1 where s1: "f x s = Inr s1" and rest: "foldE f xs s1 = Inr s'"
    by auto
  have "I s1" using Cons.prems(3) [OF _ Cons.prems(2) s1] by simp
  show ?case
  proof (rule Cons.IH)
    show "foldE f xs s1 = Inr s'" by (rule rest)
    show "I s1" by (rule \<open>I s1\<close>)
    fix y t t' assume "y \<in> set xs" "I t" "f y t = Inr t'"
    then show "I t'" using Cons.prems(3) [of y t t'] by simp
  qed
qed

lemma foldE_append: "foldE f (xs @ ys) s = bindE (foldE f xs s) (foldE f ys)"
proof (induction xs arbitrary: s)
  case (Cons x xs)
  then show ?case by (cases "f x s") simp_all
qed simp

section \<open>Rows of a table\<close>

definition find_row :: "('r \<Rightarrow> 'k) \<Rightarrow> 'k \<Rightarrow> 'r list \<Rightarrow> 'r option" where
  "find_row key k rows = find (\<lambda>r. key r = k) rows"

definition update_rows :: "('r \<Rightarrow> 'k) \<Rightarrow> 'k \<Rightarrow> ('r \<Rightarrow> 'r) \<Rightarrow> 'r list \<Rightarrow> 'r list" where
  "update_rows key k f rows = map (\<lambda>r. if key r = k then f r else r) rows"

definition drop_rows :: "('r \<Rightarrow> 'k) \<Rightarrow> 'k \<Rightarrow> 'r list \<Rightarrow> 'r list" where
  "drop_rows key k rows = filter (\<lambda>r. key r \<noteq> k) rows"

definition put_row :: "('r \<Rightarrow> 'k) \<Rightarrow> 'r \<Rightarrow> 'r list \<Rightarrow> 'r list" where
  "put_row key r rows =
     (if find_row key (key r) rows = None then rows @ [r] else update_rows key (key r) (\<lambda>_. r) rows)"

text \<open>A primary key: no two rows share it.\<close>

definition unique_key :: "('r \<Rightarrow> 'k) \<Rightarrow> 'r list \<Rightarrow> bool" where
  "unique_key key rows \<longleftrightarrow> distinct (map key rows)"

lemma find_row_simps [simp]:
  "find_row key k [] = None"
  "find_row key k (r # rows) = (if key r = k then Some r else find_row key k rows)"
  by (simp_all add: find_row_def)

lemma find_row_append:
  "find_row key k (xs @ ys) = (case find_row key k xs of None \<Rightarrow> find_row key k ys | Some r \<Rightarrow> Some r)"
  by (induction xs) auto

lemma find_row_None: "find_row key k rows = None \<longleftrightarrow> k \<notin> key ` set rows"
  by (induction rows) auto

lemma find_row_Some_D: "find_row key k rows = Some r \<Longrightarrow> r \<in> set rows \<and> key r = k"
  by (induction rows) (auto split: if_splits)

lemma find_row_mem: "unique_key key rows \<Longrightarrow> r \<in> set rows \<Longrightarrow> find_row key (key r) rows = Some r"
  by (induction rows) (auto simp: unique_key_def)

lemma find_row_exists: "r \<in> set rows \<Longrightarrow> \<exists>r'. find_row key (key r) rows = Some r'"
  by (induction rows) auto

lemma update_rows_simps [simp]:
  "update_rows key k f [] = []"
  "update_rows key k f (r # rows) = (if key r = k then f r else r) # update_rows key k f rows"
  by (simp_all add: update_rows_def)

lemma map_key_update_rows [simp]:
  "(\<And>r. key (f r) = key r) \<Longrightarrow> map key (update_rows key k f rows) = map key rows"
  by (induction rows) auto

lemma length_update_rows [simp]: "length (update_rows key k f rows) = length rows"
  by (simp add: update_rows_def)

lemma map_key_put_row_exists:
  "find_row key (key r) rows \<noteq> None \<Longrightarrow> map key (update_rows key (key r) (\<lambda>_. r) rows) = map key rows"
  by (induction rows) (auto simp: update_rows_def)

lemma find_update_rows:
  "(\<And>r. key (f r) = key r) \<Longrightarrow>
   find_row key k' (update_rows key k f rows) =
     (if k' = k then map_option f (find_row key k rows) else find_row key k' rows)"
  by (induction rows) auto

lemma find_put_row [row_laws]:
  "find_row key k (put_row key r rows) = (if k = key r then Some r else find_row key k rows)"
proof (cases "find_row key (key r) rows = None")
  case True
  then show ?thesis
    by (auto simp: put_row_def find_row_append split: option.splits)
next
  case False
  have other: "k \<noteq> key r \<Longrightarrow> find_row key k (update_rows key (key r) (\<lambda>_. r) rows) = find_row key k rows"
    by (induction rows) auto
  have "find_row key (key r) (update_rows key (key r) (\<lambda>_. r) rows) = Some r"
    using False by (induction rows) auto
  with False other show ?thesis by (auto simp: put_row_def)
qed

lemma unique_put_row: "unique_key key rows \<Longrightarrow> unique_key key (put_row key r rows)"
  using map_key_put_row_exists [of key r rows]
  by (auto simp: put_row_def unique_key_def find_row_None)

lemma set_update_rows_subset: "set (update_rows key k (\<lambda>_. r) rows) \<subseteq> insert r (set rows)"
  by (auto simp: update_rows_def)

lemma set_put_row_subset: "set (put_row key r rows) \<subseteq> insert r (set rows)"
  by (auto simp: put_row_def update_rows_def)

lemma mem_put_row: "r' \<in> set rows \<Longrightarrow> key r' \<noteq> key r \<Longrightarrow> r' \<in> set (put_row key r rows)"
  by (auto simp: put_row_def update_rows_def image_iff)

lemma find_drop_rows [row_laws]:
  "find_row key k' (drop_rows key k rows) = (if k' = k then None else find_row key k' rows)"
  by (induction rows) (auto simp: drop_rows_def)

lemma unique_drop_rows: "unique_key key rows \<Longrightarrow> unique_key key (drop_rows key k rows)"
  by (simp add: unique_key_def drop_rows_def distinct_map_filter)

lemma set_drop_rows [simp]: "set (drop_rows key k rows) = {r \<in> set rows. key r \<noteq> k}"
  by (auto simp: drop_rows_def)

text \<open>A loop that visits every row of a table once and rewrites some of them is a \<open>map\<close>.\<close>

lemma update_rows_fresh: "k \<notin> key ` set rows \<Longrightarrow> update_rows key k f rows = rows"
  by (induction rows) auto

lemma update_rows_append: "update_rows key k f (xs @ ys) = update_rows key k f xs @ update_rows key k f ys"
  by (simp add: update_rows_def)

lemma fold_update_rows:
  assumes "distinct (map key (ps @ rows))"
    and "\<And>r. key (w r) = key r" and "\<And>r h x. g r = Some h \<Longrightarrow> key (h x) = key x"
  shows "fold (\<lambda>r rows. case g r of None \<Rightarrow> rows | Some h \<Rightarrow> update_rows key (key r) h rows) (map w rows) (ps @ rows) =
     ps @ map (\<lambda>r. case g (w r) of None \<Rightarrow> r | Some h \<Rightarrow> h r) rows"
  using assms(1)
proof (induction rows arbitrary: ps)
  case Nil
  then show ?case by simp
next
  case (Cons r rows)
  have fresh: "key r \<notin> key ` set ps" "key r \<notin> key ` set rows" using Cons.prems by auto
  show ?case
  proof (cases "g (w r)")
    case None
    with Cons.IH [of "ps @ [r]"] Cons.prems show ?thesis by simp
  next
    case (Some h)
    have "distinct (map key ((ps @ [h r]) @ rows))" using Cons.prems assms(3) [OF Some] by simp
    from Cons.IH [OF this] show ?thesis
      using Some fresh assms(2) by (simp add: update_rows_append update_rows_fresh)
  qed
qed

section \<open>What a client of a table relies on\<close>

text \<open>
  A table of the store as its clients see it: a read by key, a write of one row, and what the write's
  conflict clause makes of the row that was there (\<open>merge\<close>: an upsert keeps some columns, an update of a
  missing row writes nothing). A read sees the last write of its key and nothing else.
\<close>

locale keyed_table =
  fixes lookup :: "'d \<Rightarrow> 'k \<Rightarrow> 'r option"
    and key :: "'r \<Rightarrow> 'k"
    and store :: "'r \<Rightarrow> 'd \<Rightarrow> 'd"
    and merge :: "'r option \<Rightarrow> 'r \<Rightarrow> 'r option"
  assumes lookup_store: "lookup (store r d) k = (if k = key r then merge (lookup d k) r else lookup d k)"
begin

lemma lookup_other: "k \<noteq> key r \<Longrightarrow> lookup (store r d) k = lookup d k"
  by (simp add: lookup_store)

lemma lookup_fold_other: "k \<notin> key ` set rs \<Longrightarrow> lookup (fold store rs d) k = lookup d k"
  by (induction rs arbitrary: d) (auto simp: lookup_store)

lemma lookup_fold:
  "distinct (map key rs) \<Longrightarrow> r \<in> set rs \<Longrightarrow> lookup (fold store rs d) (key r) = merge (lookup d (key r)) r"
proof (induction rs arbitrary: d)
  case Nil
  then show ?case by simp
next
  case (Cons r1 rs)
  then show ?case
    by (cases "r \<in> set rs") (auto simp: lookup_store lookup_fold_other image_iff)
qed

end

end
