(* ===== verification/Py_Text.thy ===== *)
theory Py_Text
  imports Trw_Prelude
begin

text \<open>
  The part of Python's text handling the delivery journal uses: ASCII case folding, substring
  tests, hexadecimal (\<^verbatim>\<open>bytes.hex\<close>, \<^verbatim>\<open>bytes.fromhex\<close>), the 8-4-4-4-12 text form of a UUID
  (\<^verbatim>\<open>uuid.UUID\<close>, \<^verbatim>\<open>str\<close>) and compact JSON with sorted keys (\<^verbatim>\<open>json.dumps\<close>,
  \<^verbatim>\<open>trw_mcp/models/_evidence_core.py\<close>, \<open>canonical_json\<close>).

  Texts are \<^typ>\<open>string\<close>s of single-byte characters, so a text and its UTF-8 encoding have the
  same length. Each encoder comes with its decoder and the round trip that makes it injective.
\<close>

section \<open>Characters and substrings\<close>

definition lower_char :: "char \<Rightarrow> char" where
  "lower_char c = (if 65 \<le> (of_char c :: nat) \<and> (of_char c :: nat) \<le> 90
                   then char_of ((of_char c :: nat) + 32) else c)"

definition lower :: "string \<Rightarrow> string" where
  "lower s = map lower_char s"

definition is_space :: "char \<Rightarrow> bool" where
  "is_space c \<longleftrightarrow> c \<in> {CHR '' '', CHR 0x09, CHR 0x0A, CHR 0x0B, CHR 0x0C, CHR 0x0D}"

text \<open>\<^verbatim>\<open>str.isspace\<close>, which also takes the four ASCII separators.\<close>

definition is_str_space :: "char \<Rightarrow> bool" where
  "is_str_space c \<longleftrightarrow> is_space c \<or> c \<in> {CHR 0x1C, CHR 0x1D, CHR 0x1E, CHR 0x1F}"

definition lstrip :: "(char \<Rightarrow> bool) \<Rightarrow> string \<Rightarrow> string" where
  "lstrip p s = dropWhile p s"

definition strip :: "(char \<Rightarrow> bool) \<Rightarrow> string \<Rightarrow> string" where
  "strip p s = rev (dropWhile p (rev (dropWhile p s)))"

fun contains :: "string \<Rightarrow> string \<Rightarrow> bool" where
  "contains p [] = (p = [])"
| "contains p (c # cs) = (take (length p) (c # cs) = p \<or> contains p cs)"

function remove_sub :: "string \<Rightarrow> string \<Rightarrow> string" where
  "remove_sub p [] = []"
| "remove_sub p (c # cs) =
     (if p \<noteq> [] \<and> take (length p) (c # cs) = p
      then remove_sub p (drop (length p) (c # cs)) else c # remove_sub p cs)"
  by pat_completeness auto
termination
  by (relation "measure (\<lambda>(p, s). length s)") auto

text \<open>\<^verbatim>\<open>text.split(sep)\<close> for a one-character separator.\<close>

fun split_on :: "char \<Rightarrow> string \<Rightarrow> string list" where
  "split_on sep [] = [[]]"
| "split_on sep (c # cs) =
     (if c = sep then [] # split_on sep cs
      else (case split_on sep cs of [] \<Rightarrow> [[c]] | w # ws \<Rightarrow> (c # w) # ws))"

lemma remove_sub_absent: "p \<noteq> [] \<Longrightarrow> hd p \<notin> set s \<Longrightarrow> remove_sub p s = s"
proof (induction s)
  case Nil
  then show ?case by simp
next
  case (Cons c cs)
  then have "take (length p) (c # cs) \<noteq> p" by (cases p) auto
  with Cons show ?case by simp
qed

lemma strip_absent: "(\<And>c. c \<in> set s \<Longrightarrow> \<not> p c) \<Longrightarrow> strip p s = s"
proof -
  assume none: "\<And>c. c \<in> set s \<Longrightarrow> \<not> p c"
  have keep: "dropWhile p t = t" if "set t \<subseteq> set s" for t
    using that none by (cases t) auto
  show ?thesis by (simp add: strip_def keep)
qed

lemma lower_id: "(\<And>c. c \<in> set s \<Longrightarrow> lower_char c = c) \<Longrightarrow> lower s = s"
  by (simp add: lower_def map_idI)

section \<open>Hexadecimal\<close>

definition hex_digits :: string where
  "hex_digits = ''0123456789abcdef''"

definition hex_digit :: "nat \<Rightarrow> char" where
  "hex_digit n = hex_digits ! (n mod 16)"

definition hex_val :: "char \<Rightarrow> nat option" where
  "hex_val c =
     (let n = (of_char c :: nat) in
      if 48 \<le> n \<and> n \<le> 57 then Some (n - 48)
      else if 97 \<le> n \<and> n \<le> 102 then Some (n - 87)
      else if 65 \<le> n \<and> n \<le> 70 then Some (n - 55) else None)"

lemma hex_digit_cases:
  assumes "\<And>k. k < 16 \<Longrightarrow> P (hex_digit k) k"
  shows "P (hex_digit n) (n mod 16)"
  using assms [of "n mod 16"] by (simp add: hex_digit_def)

lemma less_16_cases:
  "(n::nat) < 16 \<longleftrightarrow> n \<in> {0,1,2,3,4,5,6,7,8,9,10,11,12,13,14,15}"
  by (simp only: insert_iff empty_iff) presburger

lemma hex_val_hex_digit [simp]: "hex_val (hex_digit n) = Some (n mod 16)"
proof -
  have "hex_val (hex_digit k) = Some k" if "k < 16" for k
    using that by (auto simp: less_16_cases hex_digit_def hex_digits_def hex_val_def)
  then show ?thesis by (rule hex_digit_cases)
qed

lemma hex_digit_plain:
  "lower_char (hex_digit n) = hex_digit n" "hex_digit n \<noteq> CHR ''-''" "hex_digit n \<noteq> CHR ''u''"
  "hex_digit n \<noteq> CHR ''{''" "hex_digit n \<noteq> CHR ''}''" "hex_digit n \<noteq> CHR ''/''"
  "hex_digit n \<noteq> CHR ''.''" "hex_digit n \<noteq> CHR 0x5C" "hex_digit n \<noteq> CHR 0x00" "\<not> is_space (hex_digit n)"
proof -
  have "lower_char c = c \<and> c \<noteq> CHR ''-'' \<and> c \<noteq> CHR ''u'' \<and> c \<noteq> CHR ''{'' \<and> c \<noteq> CHR ''}'' \<and> c \<noteq> CHR ''/''
      \<and> c \<noteq> CHR ''.'' \<and> c \<noteq> CHR 0x5C \<and> c \<noteq> CHR 0x00 \<and> \<not> is_space c" if "c \<in> set hex_digits" for c
    using that by (auto simp: hex_digits_def lower_char_def is_space_def)
  moreover have "hex_digit n \<in> set hex_digits"
    by (simp add: hex_digit_def hex_digits_def nth_mem del: nth_Cons_numeral list.set)
  ultimately show "lower_char (hex_digit n) = hex_digit n" "hex_digit n \<noteq> CHR ''-''"
    "hex_digit n \<noteq> CHR ''u''" "hex_digit n \<noteq> CHR ''{''" "hex_digit n \<noteq> CHR ''}''"
    "hex_digit n \<noteq> CHR ''/''" "hex_digit n \<noteq> CHR ''.''" "hex_digit n \<noteq> CHR 0x5C"
    "hex_digit n \<noteq> CHR 0x00" "\<not> is_space (hex_digit n)" by blast+
qed

text \<open>A number as \<open>w\<close> hexadecimal digits, most significant first (\<^verbatim>\<open>'%0<w>x' % n\<close>).\<close>

fun to_hex :: "nat \<Rightarrow> nat \<Rightarrow> string" where
  "to_hex 0 n = []"
| "to_hex (Suc w) n = to_hex w (n div 16) @ [hex_digit n]"

fun of_hex :: "nat \<Rightarrow> string \<Rightarrow> nat option" where
  "of_hex acc [] = Some acc"
| "of_hex acc (c # cs) = (case hex_val c of None \<Rightarrow> None | Some v \<Rightarrow> of_hex (16 * acc + v) cs)"

lemma length_to_hex [simp]: "length (to_hex w n) = w"
  by (induction w arbitrary: n) auto

lemma set_to_hex: "c \<in> set (to_hex w n) \<Longrightarrow> \<exists>k. c = hex_digit k"
  by (induction w arbitrary: n) auto

lemma of_hex_append:
  "of_hex acc (xs @ ys) = (case of_hex acc xs of None \<Rightarrow> None | Some a \<Rightarrow> of_hex a ys)"
  by (induction xs arbitrary: acc) (auto split: option.splits)

lemma of_hex_to_hex: "n < 16 ^ w \<Longrightarrow> of_hex 0 (to_hex w n) = Some n"
proof (induction w arbitrary: n)
  case 0
  then show ?case by simp
next
  case (Suc w)
  then have "n div 16 < 16 ^ w" by (simp add: less_mult_imp_div_less)
  with Suc.IH show ?case by (simp add: of_hex_append)
qed

text \<open>\<^verbatim>\<open>bytes.hex()\<close> and \<^verbatim>\<open>bytes.fromhex(text)\<close>: two digits a byte; blanks between bytes are skipped.\<close>

definition bytes_hex :: "string \<Rightarrow> string" where
  "bytes_hex bs = concat (map (\<lambda>b. to_hex 2 (of_char b)) bs)"

fun fromhex :: "string \<Rightarrow> string option" where
  "fromhex [] = Some []"
| "fromhex [c] = (if is_space c then Some [] else None)"
| "fromhex (c # d # ds) =
     (if is_space c then fromhex (d # ds)
      else (case (hex_val c, hex_val d) of
              (Some h, Some l) \<Rightarrow> map_option (\<lambda>bs. char_of (16 * h + l) # bs) (fromhex ds)
            | _ \<Rightarrow> None))"

lemma to_hex_2: "to_hex 2 n = [hex_digit (n div 16), hex_digit n]"
  by (simp add: numeral_2_eq_2)

lemma nibbles: "(n::nat) < 256 \<Longrightarrow> 16 * (n div 16 mod 16) + n mod 16 = n"
proof -
  assume "n < 256"
  then have "n div 16 < 16" by (simp add: less_mult_imp_div_less)
  then show ?thesis by simp
qed

lemma byte_nibbles: "char_of (16 * (of_char b div 16 mod 16) + of_char b mod 16 :: nat) = (b :: char)"
  by (simp only: nibbles [OF nat_of_char_less_256] char_of_char)

lemma fromhex_digits:
  "fromhex (hex_digit m # hex_digit n # ds) =
     map_option (\<lambda>bs. char_of (16 * (m mod 16) + n mod 16) # bs) (fromhex ds)"
  by (simp add: hex_digit_plain(10))

lemma fromhex_bytes_hex: "fromhex (bytes_hex bs) = Some bs"
proof (induction bs)
  case Nil
  then show ?case by (simp add: bytes_hex_def)
next
  case (Cons b bs)
  have "bytes_hex (b # bs) = hex_digit (of_char b div 16) # hex_digit (of_char b) # bytes_hex bs"
    by (simp add: bytes_hex_def to_hex_2)
  then show ?case by (simp only: fromhex_digits Cons.IH option.map byte_nibbles)
qed

section \<open>Decimal\<close>

definition is_digit :: "char \<Rightarrow> bool" where
  "is_digit c \<longleftrightarrow> 48 \<le> (of_char c :: nat) \<and> (of_char c :: nat) \<le> 57"

text \<open>\<^verbatim>\<open>s.isascii() and s.isdecimal()\<close>.\<close>

definition is_decimal :: "string \<Rightarrow> bool" where
  "is_decimal s \<longleftrightarrow> s \<noteq> [] \<and> list_all is_digit s"

fun of_dec :: "nat \<Rightarrow> string \<Rightarrow> nat option" where
  "of_dec acc [] = Some acc"
| "of_dec acc (c # cs) = (if is_digit c then of_dec (10 * acc + (of_char c - 48)) cs else None)"

text \<open>\<^verbatim>\<open>int(text)\<close> of an optional sign and decimal digits.\<close>

definition parse_int :: "string \<Rightarrow> int option" where
  "parse_int s =
     (if is_decimal s then map_option int (of_dec 0 s)
      else if take 1 s = ''-'' \<and> is_decimal (drop 1 s) then map_option (\<lambda>n. - int n) (of_dec 0 (drop 1 s))
      else None)"

section \<open>UUIDs\<close>

text \<open>
  \<^verbatim>\<open>str(uuid.UUID(int=n))\<close>: 32 lower-case digits in groups of 8, 4, 4, 4 and 12.
  \<open>uuid_of_str\<close> is the constructor \<^verbatim>\<open>uuid.UUID(text)\<close>: it drops \<^verbatim>\<open>urn:\<close> and
  \<^verbatim>\<open>uuid:\<close>, strips braces, drops hyphens and reads exactly 32 hexadecimal digits. (\<^verbatim>\<open>int(h, 16)\<close>
  also takes signs, blanks and underscores; such a text is not its own canonical form, so the caller's
  next check gives it the same refusal.)
\<close>

definition uuid_str :: "nat \<Rightarrow> string" where
  "uuid_str n =
     (let h = to_hex 32 n in
      take 8 h @ ''-'' @ take 4 (drop 8 h) @ ''-'' @ take 4 (drop 12 h) @ ''-''
        @ take 4 (drop 16 h) @ ''-'' @ drop 20 h)"

definition uuid_of_str :: "string \<Rightarrow> nat option" where
  "uuid_of_str s =
     (let h = remove_sub ''uuid:'' (remove_sub ''urn:'' s);
          h = filter (\<lambda>c. c \<noteq> CHR ''-'') (strip (\<lambda>c. c \<in> {CHR ''{'', CHR ''}''}) h)
      in if length h = 32 then of_hex 0 h else None)"

lemma set_uuid_str: "c \<in> set (uuid_str n) \<Longrightarrow> c = CHR ''-'' \<or> (\<exists>k. c = hex_digit k)"
  by (auto simp: uuid_str_def Let_def dest!: in_set_takeD in_set_dropD dest: set_to_hex)

lemma uuid_str_plain:
  assumes "c \<in> set (uuid_str n)"
  shows "lower_char c = c" "c \<noteq> CHR ''u''" "c \<noteq> CHR ''{''" "c \<noteq> CHR ''}''" "c \<noteq> CHR ''/''"
    "c \<noteq> CHR ''.''" "c \<noteq> CHR 0x5C" "c \<noteq> CHR 0x00"
proof -
  have hyphen: "lower_char CHR ''-'' = CHR ''-''" by (simp add: lower_char_def)
  consider "c = CHR ''-''" | k where "c = hex_digit k" using set_uuid_str [OF assms] by blast
  then have "lower_char c = c \<and> c \<noteq> CHR ''u'' \<and> c \<noteq> CHR ''{'' \<and> c \<noteq> CHR ''}'' \<and> c \<noteq> CHR ''/''
      \<and> c \<noteq> CHR ''.'' \<and> c \<noteq> CHR 0x5C \<and> c \<noteq> CHR 0x00"
  proof cases
    case 1
    with hyphen show ?thesis by simp
  next
    case 2
    then show ?thesis by (simp only: hex_digit_plain not_False_eq_True simp_thms)
  qed
  then show "lower_char c = c" "c \<noteq> CHR ''u''" "c \<noteq> CHR ''{''" "c \<noteq> CHR ''}''" "c \<noteq> CHR ''/''"
    "c \<noteq> CHR ''.''" "c \<noteq> CHR 0x5C" "c \<noteq> CHR 0x00" by blast+
qed

lemma filter_uuid_str: "filter (\<lambda>c. c \<noteq> CHR ''-'') (uuid_str n) = to_hex 32 n"
proof -
  define h where "h = to_hex 32 n"
  have all: "filter (\<lambda>c. c \<noteq> CHR ''-'') t = t" if "set t \<subseteq> set h" for t
    unfolding filter_id_conv
  proof
    fix c assume "c \<in> set t"
    with that obtain k where "c = hex_digit k" using set_to_hex unfolding h_def by blast
    then show "c \<noteq> CHR ''-''" by (simp only: hex_digit_plain(2) not_False_eq_True)
  qed
  have "filter (\<lambda>c. c \<noteq> CHR ''-'') (uuid_str n)
      = take 8 h @ take 4 (drop 8 h) @ take 4 (drop 12 h) @ take 4 (drop 16 h) @ drop 20 h"
    by (simp add: uuid_str_def Let_def h_def [symmetric] all set_take_subset set_drop_subset
        subset_trans [OF set_take_subset set_drop_subset])
  also have "\<dots> = h"
  proof -
    have split: "take k (drop i h) @ drop (k + i) h = drop i h" for k i
      using append_take_drop_id [of k "drop i h"] by (simp add: drop_drop)
    show ?thesis
      using split [of 4 16] split [of 4 12] split [of 4 8] append_take_drop_id [of 8 h] by simp
  qed
  finally show ?thesis by (simp add: h_def)
qed

lemma uuid_of_str_uuid_str:
  assumes "n < 2 ^ 128"
  shows "uuid_of_str (uuid_str n) = Some n"
proof -
  have urn: "remove_sub ''urn:'' (uuid_str n) = uuid_str n"
    and uuid: "remove_sub ''uuid:'' (uuid_str n) = uuid_str n"
    using uuid_str_plain(2) by (intro remove_sub_absent; force)+
  have strp: "strip (\<lambda>c. c \<in> {CHR ''{'', CHR ''}''}) (uuid_str n) = uuid_str n"
    using uuid_str_plain(3,4) by (intro strip_absent) blast
  have "n < 16 ^ 32" using assms by simp
  then show ?thesis
    by (simp only: uuid_of_str_def Let_def urn uuid strp filter_uuid_str length_to_hex of_hex_to_hex)
      simp
qed

text \<open>\<^verbatim>\<open>UUID.version\<close>: the version nibble, only for the RFC 4122 variant.\<close>

definition uuid_version :: "nat \<Rightarrow> nat option" where
  "uuid_version n = (if (n div 2 ^ 62) mod 4 = 2 then Some ((n div 2 ^ 76) mod 16) else None)"

section \<open>Canonical JSON\<close>

datatype jval = JNull | JBool bool | JInt int | JStr string | JArr "jval list" | JObj "(string \<times> jval) list"

fun str_nat :: "nat \<Rightarrow> string" where
  "str_nat n = (if n < 10 then [hex_digit n] else str_nat (n div 10) @ [hex_digit (n mod 10)])"

declare str_nat.simps [simp del]

definition str_int :: "int \<Rightarrow> string" where
  "str_int i = (if i < 0 then ''-'' @ str_nat (nat (- i)) else str_nat (nat i))"

text \<open>One character inside a JSON string (\<^verbatim>\<open>ensure_ascii=False\<close>).\<close>

definition short_escape :: "char \<Rightarrow> char option" where
  "short_escape c =
     (if c = CHR 0x22 then Some CHR 0x22 else if c = CHR 0x5C then Some CHR 0x5C
      else if c = CHR 0x0A then Some CHR ''n'' else if c = CHR 0x0D then Some CHR ''r''
      else if c = CHR 0x09 then Some CHR ''t'' else if c = CHR 0x0C then Some CHR ''f''
      else if c = CHR 0x08 then Some CHR ''b'' else None)"

definition unescape :: "char \<Rightarrow> char" where
  "unescape e =
     (if e = CHR ''n'' then CHR 0x0A else if e = CHR ''r'' then CHR 0x0D else if e = CHR ''t'' then CHR 0x09
      else if e = CHR ''f'' then CHR 0x0C else if e = CHR ''b'' then CHR 0x08 else e)"

definition json_char :: "char \<Rightarrow> string" where
  "json_char c =
     (case short_escape c of
        Some e \<Rightarrow> [CHR 0x5C, e]
      | None \<Rightarrow>
          if (of_char c :: nat) < 32 then [CHR 0x5C, CHR ''u'', CHR ''0'', CHR ''0''] @ to_hex 2 (of_char c)
          else [c])"

lemma short_escape_Some: "short_escape c = Some e \<Longrightarrow> e \<noteq> CHR ''u'' \<and> unescape e = c"
  by (auto simp: short_escape_def unescape_def split: if_splits)

lemma short_escape_None: "short_escape c = None \<Longrightarrow> c \<noteq> CHR 0x22 \<and> c \<noteq> CHR 0x5C"
  by (auto simp: short_escape_def split: if_splits)

definition json_str :: "string \<Rightarrow> string" where
  "json_str s = [CHR 0x22] @ concat (map json_char s) @ [CHR 0x22]"

fun join :: "string \<Rightarrow> string list \<Rightarrow> string" where
  "join sep [] = []"
| "join sep [w] = w"
| "join sep (w # ws) = w @ sep @ join sep ws"

primrec dumps :: "jval \<Rightarrow> string" where
  "dumps JNull = ''null''"
| "dumps (JBool b) = (if b then ''true'' else ''false'')"
| "dumps (JInt i) = str_int i"
| "dumps (JStr s) = json_str s"
| "dumps (JArr xs) = ''['' @ join '','' (map dumps xs) @ '']''"
| "dumps (JObj kvs) =
     ''{'' @ join '','' (map (\<lambda>(k, v). json_str k @ '':'' @ v) (map (map_prod id dumps) kvs)) @ ''}''"

primrec sort_keys :: "jval \<Rightarrow> jval" where
  "sort_keys JNull = JNull"
| "sort_keys (JBool b) = JBool b"
| "sort_keys (JInt i) = JInt i"
| "sort_keys (JStr s) = JStr s"
| "sort_keys (JArr xs) = JArr (map sort_keys xs)"
| "sort_keys (JObj kvs) = JObj (sort_key fst (map (map_prod id sort_keys) kvs))"

definition canonical_json :: "jval \<Rightarrow> string" where
  "canonical_json v = dumps (sort_keys v)"

text \<open>\<^verbatim>\<open>domain_digest\<close>: SHA-256 (\<open>H\<close>, hexadecimal) over a domain prefix and the canonical JSON.\<close>

definition domain_digest :: "(string \<Rightarrow> string) \<Rightarrow> string \<Rightarrow> jval \<Rightarrow> string" where
  "domain_digest H domain payload =
     H (''trw.core205.'' @ domain @ ''.v1'' @ [CHR 0x00] @ canonical_json payload)"

text \<open>Reading a JSON string back: the text up to the closing quote, and what follows it.\<close>

fun json_scan :: "string \<Rightarrow> (string \<times> string) option" where
  "json_scan [] = None"
| "json_scan (c # cs) =
     (if c = CHR 0x22 then Some ([], cs)
      else if c = CHR 0x5C then
        (case cs of
           [] \<Rightarrow> None
         | e # es \<Rightarrow>
             if e = CHR ''u'' then
               (case es of
                  _ # _ # h # l # rest \<Rightarrow>
                    (case (hex_val h, hex_val l, json_scan rest) of
                       (Some x, Some y, Some (s, r)) \<Rightarrow> Some (char_of (16 * x + y) # s, r)
                     | _ \<Rightarrow> None)
                | _ \<Rightarrow> None)
             else
               (case json_scan es of
                  None \<Rightarrow> None
                | Some (s, r) \<Rightarrow> Some (unescape e # s, r)))
      else (case json_scan cs of None \<Rightarrow> None | Some (s, r) \<Rightarrow> Some (c # s, r)))"

declare json_scan.simps [simp del]

lemma json_scan_plain:
  "c \<noteq> CHR 0x22 \<Longrightarrow> c \<noteq> CHR 0x5C \<Longrightarrow> json_scan rest = Some (s, r) \<Longrightarrow>
   json_scan (c # rest) = Some (c # s, r)"
  by (simp add: json_scan.simps(2))

lemma json_scan_escape:
  "e \<noteq> CHR ''u'' \<Longrightarrow> json_scan rest = Some (s, r) \<Longrightarrow>
   json_scan (CHR 0x5C # e # rest) = Some (unescape e # s, r)"
  by (simp add: json_scan.simps(2))

lemma json_scan_hex:
  "json_scan rest = Some (s, r) \<Longrightarrow>
   json_scan ([CHR 0x5C, CHR ''u'', CHR ''0'', CHR ''0''] @ to_hex 2 (of_char c) @ rest) = Some (c # s, r)"
  by (simp add: json_scan.simps(2) to_hex_2 byte_nibbles)

lemma json_scan_char:
  assumes "json_scan rest = Some (s, r)"
  shows "json_scan (json_char c @ rest) = Some (c # s, r)"
proof (cases "short_escape c")
  case None
  then show ?thesis
    using json_scan_plain [OF _ _ assms, of c] json_scan_hex [OF assms, of c] short_escape_None [OF None]
    by (simp add: json_char_def)
next
  case (Some e)
  then show ?thesis
    using json_scan_escape [OF _ assms, of e] short_escape_Some [OF Some] by (simp add: json_char_def)
qed

lemma json_scan_str: "json_scan (tl (json_str s) @ rest) = Some (s, rest)"
proof -
  have "json_scan (concat (map json_char s) @ CHR 0x22 # rest) = Some (s, rest)"
  proof (induction s)
    case Nil
    show ?case by (simp add: json_scan.simps(2) [of "CHR 0x22"])
  next
    case (Cons c cs)
    then show ?case using json_scan_char [OF Cons.IH, of c]
      by (simp only: list.map concat.simps append_assoc)
  qed
  then show ?thesis by (simp add: json_str_def)
qed

text \<open>Hence an encoded string followed by anything determines both.\<close>

lemma json_str_append_inj: "json_str s @ r = json_str t @ r' \<Longrightarrow> s = t \<and> r = r'"
proof -
  assume eq: "json_str s @ r = json_str t @ r'"
  then have "tl (json_str s) @ r = tl (json_str t) @ r'"
    by (simp add: json_str_def)
  then have "Some (s, r) = Some (t, r')" by (metis json_scan_str)
  then show ?thesis by simp
qed

lemma json_str_inj [simp]: "json_str s = json_str t \<longleftrightarrow> s = t"
  using json_str_append_inj [of s "[]" t "[]"] by auto

text \<open>The decimal text of a number, and a number followed by a separator.\<close>

lemma of_dec_append:
  "of_dec acc (xs @ ys) = (case of_dec acc xs of None \<Rightarrow> None | Some a \<Rightarrow> of_dec a ys)"
  by (induction xs arbitrary: acc) (auto split: option.splits)

lemma of_dec_str_nat: "of_dec 0 (str_nat n) = Some n"
proof (induction n rule: str_nat.induct)
  case (1 n)
  have digit: "is_digit (hex_digit k) \<and> of_char (hex_digit k) - 48 = k" if "k < 10" for k
  proof -
    have "k \<in> {0,1,2,3,4,5,6,7,8,9}" using that by (simp only: insert_iff empty_iff) presburger
    then show ?thesis by (auto simp: hex_digit_def hex_digits_def is_digit_def)
  qed
  from 1 show ?case
    by (subst str_nat.simps) (auto simp: of_dec_append digit)
qed

lemma set_str_nat: "c \<in> set (str_nat n) \<Longrightarrow> \<exists>k. c = hex_digit k"
proof (induction n rule: str_nat.induct)
  case (1 n)
  then show ?case by (subst (asm) (2) str_nat.simps) (auto split: if_splits)
qed

lemma str_int_inj: "str_int i = str_int j \<Longrightarrow> i = j"
proof -
  assume eq: "str_int i = str_int j"
  have no_minus: "''-'' @ t \<noteq> str_nat n" for t n
    using set_str_nat [of "CHR ''-''" n] hex_digit_plain(2) by (metis append_Cons list.set_intros(1))
  have nat: "str_nat m = str_nat n \<Longrightarrow> m = n" for m n
    by (metis of_dec_str_nat option.inject)
  show ?thesis
    using eq no_minus no_minus [symmetric] nat [of "nat (- i)" "nat (- j)"] nat [of "nat i" "nat j"]
    by (auto simp: str_int_def split: if_splits)
qed

lemma comma_notin_str_int: "CHR '','' \<notin> set (str_int i)"
proof -
  have "hex_digit k \<noteq> CHR '',''" for k
    by (rule hex_digit_cases [where P = "\<lambda>c _. c \<noteq> CHR '',''"])
      (auto simp: less_16_cases hex_digit_def hex_digits_def)
  then have "CHR '','' \<notin> set (str_nat n)" for n using set_str_nat by metis
  then show ?thesis by (simp add: str_int_def)
qed

lemma append_sep_inj:
  "a \<notin> set xs \<Longrightarrow> a \<notin> set ys \<Longrightarrow> xs @ a # r = ys @ a # r' \<Longrightarrow> xs = ys \<and> r = r'"
proof (induction xs arbitrary: ys)
  case Nil
  then show ?case by (cases ys) auto
next
  case (Cons x xs)
  then show ?case by (cases ys) auto
qed

lemma str_int_append_inj: "str_int i @ CHR '','' # r = str_int j @ CHR '','' # r' \<Longrightarrow> i = j \<and> r = r'"
  using append_sep_inj [OF comma_notin_str_int comma_notin_str_int] str_int_inj by blast

lemma bool_text_inj:
  "(if a then ''true'' else ''false'') @ r = (if b then ''true'' else ''false'') @ r' \<Longrightarrow> (a = b) \<and> r = r'"
  by (cases a; cases b) simp_all

end
