(* ===== verification/Delivery_Request.thy ===== *)
theory Delivery_Request
  imports Py_Text
begin

text \<open>
  The canonical identity of a delivery request (\<^verbatim>\<open>trw_mcp/tools/_delivery_request.py\<close>): validation
  of the caller's UUIDv7, the project scope, the request digest and the salted capability hash.

  SHA-256 (hexadecimal) is the argument \<open>H\<close> and \<^verbatim>\<open>os.urandom\<close> the argument \<open>fresh\<close>; a
  \<^verbatim>\<open>uuid.UUID\<close> is its 128-bit integer.
\<close>

section \<open>Limits\<close>

definition UUID_VERSION :: nat where "UUID_VERSION = 7"
definition FUTURE_SKEW_MS :: int where "FUTURE_SKEW_MS = 5 * 60 * 1000"
definition ACCEPTANCE_HORIZON_MS :: int where "ACCEPTANCE_HORIZON_MS = 180 * 24 * 60 * 60 * 1000"
definition TERMINAL_FULL_RETENTION_MS :: int where "TERMINAL_FULL_RETENTION_MS = 30 * 24 * 60 * 60 * 1000"
definition UNRESOLVED_FULL_RETENTION_MS :: int where "UNRESOLVED_FULL_RETENTION_MS = 90 * 24 * 60 * 60 * 1000"
definition TOMBSTONE_TTL_MS :: int where "TOMBSTONE_TTL_MS = ACCEPTANCE_HORIZON_MS"
definition STORE_MAX_BYTES :: int where "STORE_MAX_BYTES = 64 * 1024 * 1024"
definition STORE_MAX_ROWS :: int where "STORE_MAX_ROWS = 20000"
definition QUEUE_DEPTH_MAX :: int where "QUEUE_DEPTH_MAX = 128"
definition MAX_RECORD_BYTES :: nat where "MAX_RECORD_BYTES = 128 * 1024"
definition MAX_REASON_CHARS :: nat where "MAX_REASON_CHARS = 500"
definition MAX_EVIDENCE_REF_CHARS :: nat where "MAX_EVIDENCE_REF_CHARS = 1024"
definition MIN_CAPABILITY_BYTES :: nat where "MIN_CAPABILITY_BYTES = 16"
definition CAPABILITY_SALT_BYTES :: nat where "CAPABILITY_SALT_BYTES = 16"
definition SCHEMA_VERSION :: int where "SCHEMA_VERSION = 1"

section \<open>The canonical request\<close>

record CanonicalRequest =
  rq_schema_version :: int
  rq_project_scope :: string
  rq_run_identity :: string
  rq_skip_reflect :: bool
  rq_skip_index_sync :: bool
  rq_allow_unverified :: bool
  rq_acceptable_failure_digest :: string

definition canonical_obj :: "CanonicalRequest \<Rightarrow> jval" where
  "canonical_obj r = JObj
     [(''schema_version'', JInt (rq_schema_version r)),
      (''project_scope'', JStr (rq_project_scope r)),
      (''run_identity'', JStr (rq_run_identity r)),
      (''skip_reflect'', JBool (rq_skip_reflect r)),
      (''skip_index_sync'', JBool (rq_skip_index_sync r)),
      (''allow_unverified'', JBool (rq_allow_unverified r)),
      (''acceptable_failure_digest'', JStr (rq_acceptable_failure_digest r))]"

definition digest :: "(string \<Rightarrow> string) \<Rightarrow> CanonicalRequest \<Rightarrow> string" where
  "digest H r = domain_digest H ''core208.request'' (canonical_obj r)"

definition canonical_bytes :: "CanonicalRequest \<Rightarrow> string" where
  "canonical_bytes r = canonical_json (canonical_obj r)"

definition compute_project_scope :: "(string \<Rightarrow> string) \<Rightarrow> string \<Rightarrow> exn + string" where
  "compute_project_scope H installation_identity =
     (if installation_identity = [] then Inl (RequestError ''empty_project_identity'')
      else Inr (H (''trw.core208.project_scope.v1'' @ [CHR 0x00] @ installation_identity)))"

section \<open>The delivery identifier\<close>

definition uuid7_timestamp_ms :: "nat \<Rightarrow> int" where
  "uuid7_timestamp_ms value = int (value div 2 ^ 80)"

definition validate_delivery_id :: "string \<Rightarrow> int \<Rightarrow> exn + nat" where
  "validate_delivery_id delivery_id effective_now_ms =
     (if delivery_id = [] \<or> CHR 0x00 \<in> set delivery_id then Inl (RequestError ''malformed_id'')
      else if CHR ''/'' \<in> set delivery_id \<or> CHR 0x5C \<in> set delivery_id \<or> contains ''..'' delivery_id
      then Inl (RequestError ''malformed_id'')
      else (case uuid_of_str delivery_id of
              None \<Rightarrow> Inl (RequestError ''malformed_id'')
            | Some parsed \<Rightarrow>
                if uuid_str parsed \<noteq> lower delivery_id then Inl (RequestError ''malformed_id'')
                else if uuid_version parsed \<noteq> Some UUID_VERSION
                then Inl (RequestError ''wrong_uuid_version'')
                else (let ts_ms = uuid7_timestamp_ms parsed in
                  if ts_ms - effective_now_ms > FUTURE_SKEW_MS then Inl (RequestError ''future_skew'')
                  else if effective_now_ms - ts_ms > ACCEPTANCE_HORIZON_MS
                  then Inl (RequestError ''expired_id'')
                  else Inr parsed)))"

section \<open>The recovery capability\<close>

definition validate_capability_strength :: "string \<Rightarrow> exn + unit" where
  "validate_capability_strength capability_token =
     (if length capability_token < MIN_CAPABILITY_BYTES then Inl (RequestError ''weak_capability'') else Inr ())"

definition salted_hash :: "(string \<Rightarrow> string) \<Rightarrow> string \<Rightarrow> string \<Rightarrow> string" where
  "salted_hash H capability_token salt_bytes = H (salt_bytes @ capability_token)"

definition hash_capability ::
  "(string \<Rightarrow> string) \<Rightarrow> string \<Rightarrow> string \<Rightarrow> string option \<Rightarrow> exn + (string \<times> string)" where
  "hash_capability H fresh capability_token salt =
     bindE (validate_capability_strength capability_token) (\<lambda>_.
       let salt_bytes = (case salt of Some s \<Rightarrow> s | None \<Rightarrow> fresh)
       in Inr (bytes_hex salt_bytes, salted_hash H capability_token salt_bytes))"

definition verify_capability :: "(string \<Rightarrow> string) \<Rightarrow> string \<Rightarrow> string \<Rightarrow> string \<Rightarrow> bool" where
  "verify_capability H capability_token salt_hex expected_hash =
     (case fromhex salt_hex of
        None \<Rightarrow> False
      | Some salt_bytes \<Rightarrow> salted_hash H capability_token salt_bytes = expected_hash)"

section \<open>Assembling a request\<close>

definition normalize_run_identity :: "string option \<Rightarrow> exn + string" where
  "normalize_run_identity run_identity =
     (case run_identity of
        None \<Rightarrow> Inr []
      | Some [] \<Rightarrow> Inr []
      | Some text \<Rightarrow>
          let normalized = strip is_str_space (map (\<lambda>c. if c = CHR 0x5C then CHR ''/'' else c) text) in
          if take 1 normalized = ''/'' \<or> ''..'' \<in> set (split_on CHR ''/'' normalized)
          then Inl (RequestError ''bad_run_identity'')
          else Inr normalized)"

definition build_canonical_request ::
  "string \<Rightarrow> string option \<Rightarrow> bool \<Rightarrow> bool \<Rightarrow> bool \<Rightarrow> string \<Rightarrow> exn + CanonicalRequest" where
  "build_canonical_request scope run_id reflect index_sync unverified failure_digest =
     bindE (normalize_run_identity run_id) (\<lambda>run_id.
       let request = \<lparr> rq_schema_version = SCHEMA_VERSION, rq_project_scope = scope, rq_run_identity = run_id,
             rq_skip_reflect = reflect, rq_skip_index_sync = index_sync, rq_allow_unverified = unverified,
             rq_acceptable_failure_digest = failure_digest \<rparr>
       in if length (canonical_bytes request) > MAX_RECORD_BYTES then Inl (RequestError ''oversize_request'')
          else Inr request)"

section \<open>Lemmas\<close>

lemma canonical_bytes_expand:
  "canonical_bytes r =
     ''{'' @ json_str ''acceptable_failure_digest'' @ '':'' @ json_str (rq_acceptable_failure_digest r) @ '',''
     @ json_str ''allow_unverified'' @ '':'' @ (if rq_allow_unverified r then ''true'' else ''false'') @ '',''
     @ json_str ''project_scope'' @ '':'' @ json_str (rq_project_scope r) @ '',''
     @ json_str ''run_identity'' @ '':'' @ json_str (rq_run_identity r) @ '',''
     @ json_str ''schema_version'' @ '':'' @ str_int (rq_schema_version r) @ '',''
     @ json_str ''skip_index_sync'' @ '':'' @ (if rq_skip_index_sync r then ''true'' else ''false'') @ '',''
     @ json_str ''skip_reflect'' @ '':'' @ (if rq_skip_reflect r then ''true'' else ''false'') @ ''}''"
  by (simp add: canonical_bytes_def canonical_json_def canonical_obj_def less_char_def)

lemma contains_subset: "contains p s \<Longrightarrow> set p \<subseteq> set s"
proof (induction s)
  case Nil
  then show ?case by simp
next
  case (Cons c cs)
  then show ?case using set_take_subset [of "length p" "c # cs"] by auto
qed

lemma hex_val_lower [simp]: "hex_val (lower_char c) = hex_val c"
  by (auto simp: lower_char_def hex_val_def Let_def)

lemma lower_char_hyphen [simp]: "lower_char c = CHR ''-'' \<longleftrightarrow> c = CHR ''-''"
proof
  assume eq: "lower_char c = CHR ''-''"
  show "c = CHR ''-''"
  proof (cases "65 \<le> (of_char c :: nat) \<and> (of_char c :: nat) \<le> 90")
    case True
    then have "of_char (lower_char c) = (of_char c :: nat) + 32" by (simp add: lower_char_def)
    with eq True show ?thesis by simp
  next
    case False
    with eq show ?thesis by (auto simp: lower_char_def split: if_splits)
  qed
next
  assume "c = CHR ''-''"
  then show "lower_char c = CHR ''-''" by (simp add: lower_char_def)
qed

lemma hex_char_plain:
  assumes "hex_val c \<noteq> None"
  shows "c \<noteq> CHR ''u'' \<and> c \<noteq> CHR ''{'' \<and> c \<noteq> CHR ''}'' \<and> c \<noteq> CHR ''/'' \<and> c \<noteq> CHR ''.''
    \<and> c \<noteq> CHR 0x5C \<and> c \<noteq> CHR 0x00"
  using assms by (auto simp: hex_val_def Let_def split: if_splits)

lemma lower_uuid_chars:
  assumes "lower d = uuid_str n" and "c \<in> set d"
  shows "c = CHR ''-'' \<or> hex_val c \<noteq> None"
proof -
  have "lower_char c \<in> set (uuid_str n)" using assms by (metis image_eqI list.set_map lower_def)
  then consider "lower_char c = CHR ''-''" | k where "lower_char c = hex_digit k"
    using set_uuid_str by blast
  then show ?thesis by cases (simp, metis hex_val_lower hex_val_hex_digit option.distinct(1))
qed

lemma of_hex_lower: "of_hex acc (map lower_char h) = of_hex acc h"
  by (induction h arbitrary: acc) (auto split: option.splits)

lemma uuid_chars_plain:
  assumes "lower d = uuid_str n" and "c \<in> set d"
  shows "c \<noteq> CHR ''u'' \<and> c \<noteq> CHR ''{'' \<and> c \<noteq> CHR ''}'' \<and> c \<noteq> CHR ''/'' \<and> c \<noteq> CHR ''.''
    \<and> c \<noteq> CHR 0x5C \<and> c \<noteq> CHR 0x00"
  using lower_uuid_chars [OF assms] hex_char_plain [of c] by auto

lemma uuid_of_str_lower:
  assumes low: "lower d = uuid_str n" and n: "n < 2 ^ 128"
  shows "uuid_of_str d = Some n"
proof -
  note plain = uuid_chars_plain [OF low]
  have urn: "remove_sub ''urn:'' d = d" and uuid: "remove_sub ''uuid:'' d = d"
    using plain by (intro remove_sub_absent; force)+
  have strp: "strip (\<lambda>c. c \<in> {CHR ''{'', CHR ''}''}) d = d"
    using plain by (intro strip_absent) blast
  have "map lower_char (filter (\<lambda>c. c \<noteq> CHR ''-'') d) = filter (\<lambda>c. c \<noteq> CHR ''-'') (lower d)"
    by (simp add: lower_def filter_map o_def)
  then have f: "map lower_char (filter (\<lambda>c. c \<noteq> CHR ''-'') d) = to_hex 32 n"
    by (simp only: low filter_uuid_str)
  then have "length (filter (\<lambda>c. c \<noteq> CHR ''-'') d) = 32"
    by (metis length_map length_to_hex)
  moreover have "of_hex 0 (filter (\<lambda>c. c \<noteq> CHR ''-'') d) = Some n"
    using of_hex_lower [of 0 "filter (\<lambda>c. c \<noteq> CHR ''-'') d"] f of_hex_to_hex [of n 32] n by simp
  ultimately show ?thesis
    by (simp only: uuid_of_str_def Let_def urn uuid strp) simp
qed

lemma of_hex_bound: "of_hex acc h = Some n \<Longrightarrow> n < (acc + 1) * 16 ^ length h"
proof (induction h arbitrary: acc)
  case Nil
  then show ?case by simp
next
  case (Cons c cs)
  then obtain v where v: "hex_val c = Some v" and rest: "of_hex (16 * acc + v) cs = Some n"
    by (auto split: option.splits)
  from v have "v < 16" by (auto simp: hex_val_def Let_def split: if_splits)
  then have "16 * acc + v + 1 \<le> (acc + 1) * 16" by simp
  then have "(16 * acc + v + 1) * 16 ^ length cs \<le> (acc + 1) * 16 * 16 ^ length cs"
    by (rule mult_le_mono1)
  from less_le_trans [OF Cons.IH [OF rest] this] show ?case
    by (simp only: length_Cons power_Suc mult.assoc)
qed

lemma uuid_of_str_bound: "uuid_of_str d = Some n \<Longrightarrow> n < 2 ^ 128"
  by (auto simp: uuid_of_str_def Let_def split: if_splits dest!: of_hex_bound)

lemma json_str_append_iff [simp]: "json_str s @ r = json_str t @ r' \<longleftrightarrow> s = t \<and> r = r'"
  by (rule iffI, erule json_str_append_inj, elim conjE, simp only:)

lemma bool_text_iff:
  "(if a then ''true'' else ''false'') @ r = (if b then ''true'' else ''false'') @ r' \<longleftrightarrow> a = b \<and> r = r'"
  by (rule iffI, erule bool_text_inj, elim conjE, simp only:)

lemma str_int_append_iff: "str_int i @ CHR '','' # r = str_int j @ CHR '','' # r' \<longleftrightarrow> i = j \<and> r = r'"
  by (rule iffI, erule str_int_append_inj, elim conjE, simp only:)

lemma canonical_bytes_eq_D:
  fixes r s :: CanonicalRequest
  assumes "canonical_bytes r = canonical_bytes s"
  shows "r = s"
  using assms unfolding canonical_bytes_expand
  using bool_text_iff [of "rq_skip_reflect r" "[]" "rq_skip_reflect s" "[]"]
  by (cases r; cases s) (simp add: bool_text_iff str_int_append_iff del: if_split)

lemma salted_hash_collision:
  "salted_hash H t s = salted_hash H t' s \<longleftrightarrow> H (s @ t) = H (s @ t')"
  by (simp add: salted_hash_def)

lemma validate_delivery_id_accepts:
  assumes "lower d = uuid_str n" "n < 2 ^ 128" "uuid_version n = Some 7"
    and "uuid7_timestamp_ms n - now \<le> 300000" "now - uuid7_timestamp_ms n \<le> 15552000000"
  shows "validate_delivery_id d now = Inr n"
proof -
  note plain = uuid_chars_plain [OF assms(1)]
  have "d \<noteq> []" using assms(1) by (auto simp: lower_def uuid_str_def Let_def)
  moreover have "CHR 0x00 \<notin> set d" "CHR ''/'' \<notin> set d" "CHR 0x5C \<notin> set d" using plain by blast+
  moreover have "\<not> contains ''..'' d" using plain contains_subset [of "''..''" d] by auto
  moreover have "uuid_of_str d = Some n" using assms(1,2) uuid_of_str_lower by blast
  ultimately show ?thesis
    using assms by (simp add: validate_delivery_id_def UUID_VERSION_def FUTURE_SKEW_MS_def ACCEPTANCE_HORIZON_MS_def)
qed

lemma lower_uuid_str: "lower (uuid_str n) = uuid_str n"
  by (rule lower_id) (rule uuid_str_plain(1))

section \<open>Properties\<close>

text \<open>\<open>validate_delivery_id\<close> accepts a text exactly when its lower-case form is the canonical
  8-4-4-4-12 spelling of a 128-bit RFC 4122 version-7 UUID whose embedded timestamp is at most five
  minutes ahead of, and at most 180 days behind, the effective clock; the value returned is that UUID.
  Every other text (braced, \<^verbatim>\<open>urn:\<close>, a path, a wrong version) is refused.\<close>

theorem validate_delivery_id_iff:
  "validate_delivery_id d now = Inr n \<longleftrightarrow>
     lower d = uuid_str n \<and> n < 2 ^ 128 \<and> uuid_version n = Some 7 \<and>
     uuid7_timestamp_ms n - now \<le> 300000 \<and> now - uuid7_timestamp_ms n \<le> 15552000000"
proof
  assume "validate_delivery_id d now = Inr n"
  then show "lower d = uuid_str n \<and> n < 2 ^ 128 \<and> uuid_version n = Some 7 \<and>
     uuid7_timestamp_ms n - now \<le> 300000 \<and> now - uuid7_timestamp_ms n \<le> 15552000000"
    by (auto simp: validate_delivery_id_def Let_def UUID_VERSION_def FUTURE_SKEW_MS_def
        ACCEPTANCE_HORIZON_MS_def split: if_splits option.splits dest: uuid_of_str_bound)
next
  assume r: "lower d = uuid_str n \<and> n < 2 ^ 128 \<and> uuid_version n = Some 7 \<and>
     uuid7_timestamp_ms n - now \<le> 300000 \<and> now - uuid7_timestamp_ms n \<le> 15552000000"
  then show "validate_delivery_id d now = Inr n" using validate_delivery_id_accepts by blast
qed

text \<open>Two requests have the same canonical bytes only if they are the same request in every
  replay-relevant field; hence two different requests share a digest only on a collision of the hash.\<close>

theorem canonical_bytes_inj:
  fixes r s :: CanonicalRequest
  shows "(canonical_bytes r = canonical_bytes s) = (r = s) \<and>
   (digest H r = digest H s) =
     (r = s \<or> r \<noteq> s \<and> H (''trw.core205.core208.request.v1'' @ [CHR 0x00] @ canonical_bytes r)
                     = H (''trw.core205.core208.request.v1'' @ [CHR 0x00] @ canonical_bytes s))"
  using canonical_bytes_eq_D [of r s]
  by (auto simp: digest_def domain_digest_def canonical_bytes_def)

text \<open>A recovery capability of fewer than 16 bytes is refused; otherwise what
  \<open>hash_capability\<close> stores is accepted by \<open>verify_capability\<close> for exactly the tokens whose salted
  hash is the same, in particular for the token itself, whatever the salt bytes.\<close>

theorem capability_roundtrip:
  "hash_capability H fresh tok salt =
     (if length tok < 16 then Inl (RequestError ''weak_capability'')
      else Inr (bytes_hex (case salt of Some s \<Rightarrow> s | None \<Rightarrow> fresh),
                H ((case salt of Some s \<Rightarrow> s | None \<Rightarrow> fresh) @ tok))) \<and>
   verify_capability H tok' (bytes_hex bs) (H (bs @ tok)) = (H (bs @ tok') = H (bs @ tok))"
  by (simp add: hash_capability_def validate_capability_strength_def MIN_CAPABILITY_BYTES_def
      verify_capability_def fromhex_bytes_hex salted_hash_def Let_def)

end
