(* ===== verification/Effect_Registry.thy ===== *)
theory Effect_Registry
  imports Trw_Prelude
begin

text \<open>
  The delivery side-effect registry (\<^verbatim>\<open>trw_mcp/tools/_delivery_effect_registry.py\<close> and
  \<^verbatim>\<open>_delivery_effect_boundaries.py\<close>): the census of delivery effects, each with its impact on the
  operation, the class that says whether a started effect may be replayed, and its crash boundary.

  A dict in insertion order is an association list. The label columns of the census that no code reads
  (\<^verbatim>\<open>mutation\<close>, \<^verbatim>\<open>owner_call_point\<close>, \<^verbatim>\<open>proof_contract\<close>, \<^verbatim>\<open>redaction_policy\<close> and the
  boundaries' \<^verbatim>\<open>rationale\<close>) are left out.
\<close>

section \<open>Classes and descriptors\<close>

datatype ReplayClass =
    TRANSACTIONAL | KEYED_IDEMPOTENT | POSTCONDITION_PROVABLE | NON_REPLAYABLE | DIAGNOSTIC | COORDINATION

definition NON_AUTO_REPLAY_CLASSES :: "ReplayClass list" where
  "NON_AUTO_REPLAY_CLASSES = [NON_REPLAYABLE]"

datatype OperationStateImpact = REQUIRED | OPTIONAL

datatype BoundaryKind = OWN | SHARED_WITH | UNJOURNALED

record EffectBoundary =
  bd_kind :: BoundaryKind
  bd_host_effect_id :: string

record EffectDescriptor =
  ed_effect_id :: string
  ed_impact :: OperationStateImpact
  ed_replay_class :: ReplayClass
  ed_boundary :: EffectBoundary

definition own_boundary :: EffectBoundary where
  "own_boundary = \<lparr> bd_kind = OWN, bd_host_effect_id = [] \<rparr>"

definition shared_boundary :: "string \<Rightarrow> EffectBoundary" where
  "shared_boundary host = \<lparr> bd_kind = SHARED_WITH, bd_host_effect_id = host \<rparr>"

definition unjournaled_boundary :: EffectBoundary where
  "unjournaled_boundary = \<lparr> bd_kind = UNJOURNALED, bd_host_effect_id = [] \<rparr>"

section \<open>The census and the declared boundaries\<close>

definition CENSUS :: "(string \<times> OperationStateImpact \<times> ReplayClass) list" where
  "CENSUS = [
      (''S01'', REQUIRED, POSTCONDITION_PROVABLE), (''S02'', REQUIRED, POSTCONDITION_PROVABLE),
      (''S03'', OPTIONAL, KEYED_IDEMPOTENT), (''S04'', OPTIONAL, NON_REPLAYABLE),
      (''S05'', REQUIRED, POSTCONDITION_PROVABLE), (''S06'', REQUIRED, POSTCONDITION_PROVABLE),
      (''S07'', OPTIONAL, KEYED_IDEMPOTENT), (''S08'', OPTIONAL, NON_REPLAYABLE),
      (''S09'', OPTIONAL, KEYED_IDEMPOTENT), (''S10'', OPTIONAL, NON_REPLAYABLE),
      (''S11'', OPTIONAL, KEYED_IDEMPOTENT), (''S12'', OPTIONAL, KEYED_IDEMPOTENT),
      (''S13'', OPTIONAL, DIAGNOSTIC), (''S14'', REQUIRED, POSTCONDITION_PROVABLE),
      (''S15'', OPTIONAL, POSTCONDITION_PROVABLE), (''S16'', OPTIONAL, NON_REPLAYABLE),
      (''S17'', OPTIONAL, POSTCONDITION_PROVABLE), (''S18'', REQUIRED, POSTCONDITION_PROVABLE),
      (''S19'', OPTIONAL, POSTCONDITION_PROVABLE), (''S20'', REQUIRED, KEYED_IDEMPOTENT),
      (''S22'', OPTIONAL, POSTCONDITION_PROVABLE), (''S21'', OPTIONAL, DIAGNOSTIC),
      (''S23'', OPTIONAL, POSTCONDITION_PROVABLE), (''S23b'', OPTIONAL, POSTCONDITION_PROVABLE),
      (''D00'', OPTIONAL, COORDINATION), (''D01'', OPTIONAL, NON_REPLAYABLE),
      (''D04'', OPTIONAL, POSTCONDITION_PROVABLE), (''D05'', OPTIONAL, POSTCONDITION_PROVABLE),
      (''D06'', OPTIONAL, POSTCONDITION_PROVABLE), (''D07'', OPTIONAL, NON_REPLAYABLE),
      (''D08'', OPTIONAL, POSTCONDITION_PROVABLE), (''D11'', OPTIONAL, COORDINATION),
      (''D12'', OPTIONAL, NON_REPLAYABLE), (''D13'', OPTIONAL, KEYED_IDEMPOTENT),
      (''D14'', OPTIONAL, NON_REPLAYABLE), (''D15'', OPTIONAL, POSTCONDITION_PROVABLE),
      (''D16'', REQUIRED, NON_REPLAYABLE), (''D17'', OPTIONAL, NON_REPLAYABLE),
      (''D18'', OPTIONAL, KEYED_IDEMPOTENT), (''D19'', OPTIONAL, KEYED_IDEMPOTENT),
      (''D20'', OPTIONAL, POSTCONDITION_PROVABLE), (''D21'', OPTIONAL, KEYED_IDEMPOTENT),
      (''D22'', OPTIONAL, POSTCONDITION_PROVABLE), (''D23'', OPTIONAL, POSTCONDITION_PROVABLE),
      (''D24'', OPTIONAL, KEYED_IDEMPOTENT), (''D25'', OPTIONAL, NON_REPLAYABLE)]"

definition EFFECT_BOUNDARIES :: "(string \<times> EffectBoundary) list" where
  "EFFECT_BOUNDARIES = [
      (''S01'', own_boundary), (''S02'', own_boundary), (''S03'', shared_boundary ''S01''),
      (''S04'', shared_boundary ''S01''), (''S05'', own_boundary), (''S06'', own_boundary),
      (''S07'', own_boundary), (''S08'', own_boundary), (''S09'', shared_boundary ''S08''),
      (''S10'', shared_boundary ''S08''), (''S11'', own_boundary), (''S12'', shared_boundary ''S11''),
      (''S13'', unjournaled_boundary), (''S14'', own_boundary), (''S15'', own_boundary),
      (''S16'', shared_boundary ''S15''), (''S17'', own_boundary), (''S18'', own_boundary),
      (''S19'', own_boundary), (''S20'', own_boundary), (''S21'', unjournaled_boundary),
      (''S22'', own_boundary), (''S23'', own_boundary), (''S23b'', own_boundary),
      (''D00'', unjournaled_boundary), (''D01'', own_boundary), (''D04'', own_boundary),
      (''D05'', shared_boundary ''D04''), (''D06'', own_boundary), (''D07'', own_boundary),
      (''D08'', shared_boundary ''D07''), (''D11'', unjournaled_boundary), (''D12'', own_boundary),
      (''D13'', shared_boundary ''D12''), (''D14'', own_boundary), (''D15'', shared_boundary ''D14''),
      (''D16'', own_boundary), (''D17'', shared_boundary ''D16''), (''D18'', own_boundary),
      (''D19'', shared_boundary ''D18''), (''D20'', shared_boundary ''D18''), (''D21'', shared_boundary ''D18''),
      (''D22'', own_boundary), (''D23'', own_boundary), (''D24'', own_boundary),
      (''D25'', own_boundary)]"

section \<open>Building the registry\<close>

definition UNJOURNALABLE_CLASSES :: "ReplayClass list" where
  "UNJOURNALABLE_CLASSES = [DIAGNOSTIC, COORDINATION]"

definition validate_boundary :: "(string \<times> EffectDescriptor) list \<Rightarrow> string \<times> EffectDescriptor \<Rightarrow> exn + unit" where
  "validate_boundary registry item =
     (let effect_id = fst item; descriptor = snd item; boundary = ed_boundary descriptor in
      case bd_kind boundary of
        UNJOURNALED \<Rightarrow>
          if ed_replay_class descriptor \<notin> set UNJOURNALABLE_CLASSES then Inl (ValueError effect_id)
          else if bd_host_effect_id boundary \<noteq> [] then Inl (ValueError effect_id)
          else Inr ()
      | SHARED_WITH \<Rightarrow>
          (case map_of registry (bd_host_effect_id boundary) of
             None \<Rightarrow> Inl (ValueError effect_id)
           | Some host \<Rightarrow>
               if ed_effect_id host = effect_id then Inl (ValueError effect_id)
               else if bd_kind (ed_boundary host) \<noteq> OWN then Inl (ValueError effect_id)
               else Inr ())
      | OWN \<Rightarrow> if bd_host_effect_id boundary \<noteq> [] then Inl (ValueError effect_id) else Inr ())"

definition validate_boundaries :: "(string \<times> EffectDescriptor) list \<Rightarrow> exn + unit" where
  "validate_boundaries registry = foldE (\<lambda>item _. validate_boundary registry item) registry ()"

definition register_row ::
  "(string \<times> EffectBoundary) list \<Rightarrow> string \<times> OperationStateImpact \<times> ReplayClass
     \<Rightarrow> (string \<times> EffectDescriptor) list \<Rightarrow> exn + (string \<times> EffectDescriptor) list" where
  "register_row boundaries row registry =
     (case row of (effect_id, impact, replay_class) \<Rightarrow>
        if effect_id \<in> set (map fst registry) then Inl (ValueError effect_id)
        else (case map_of boundaries effect_id of
                None \<Rightarrow> Inl (ValueError effect_id)
              | Some boundary \<Rightarrow>
                  Inr (registry @ [(effect_id,
                    \<lparr> ed_effect_id = effect_id, ed_impact = impact, ed_replay_class = replay_class,
                      ed_boundary = boundary \<rparr>)])))"

definition build_registry ::
  "(string \<times> OperationStateImpact \<times> ReplayClass) list \<Rightarrow> (string \<times> EffectBoundary) list
     \<Rightarrow> exn + (string \<times> EffectDescriptor) list" where
  "build_registry census boundaries =
     bindE (foldE (register_row boundaries) census []) (\<lambda>registry.
       if filter (\<lambda>e. e \<notin> set (map fst registry)) (map fst boundaries) \<noteq> []
       then Inl (ValueError ''boundary declared for unregistered effect(s)'')
       else bindE (validate_boundaries registry) (\<lambda>_. Inr registry))"

definition DELIVERY_EFFECT_REGISTRY :: "(string \<times> EffectDescriptor) list" where
  "DELIVERY_EFFECT_REGISTRY =
     (case build_registry CENSUS EFFECT_BOUNDARIES of Inl _ \<Rightarrow> [] | Inr registry \<Rightarrow> registry)"

section \<open>Queries\<close>

definition ALWAYS_REEVALUATE_EFFECTS :: "string list" where
  "ALWAYS_REEVALUATE_EFFECTS = [''S06'', ''S07'', ''S23'', ''S23b'']"

definition DEFERRED_ROSTER_IDS :: "string list" where
  "DEFERRED_ROSTER_IDS =
     filter (\<lambda>e. take 1 e = ''D'') (map (ed_effect_id \<circ> snd) DELIVERY_EFFECT_REGISTRY)"

definition get_descriptor :: "string \<Rightarrow> exn + EffectDescriptor" where
  "get_descriptor effect_id =
     (case map_of DELIVERY_EFFECT_REGISTRY effect_id of
        None \<Rightarrow> Inl (KeyError effect_id) | Some d \<Rightarrow> Inr d)"

definition all_effect_ids :: "string list" where
  "all_effect_ids = map fst DELIVERY_EFFECT_REGISTRY"

definition required_effect_ids :: "string list" where
  "required_effect_ids =
     map ed_effect_id (filter (\<lambda>d. ed_impact d = REQUIRED) (map snd DELIVERY_EFFECT_REGISTRY))"

definition effects_by_replay_class :: "ReplayClass \<Rightarrow> EffectDescriptor list" where
  "effects_by_replay_class replay_class =
     sort_key ed_effect_id
       (filter (\<lambda>d. ed_replay_class d = replay_class) (map snd DELIVERY_EFFECT_REGISTRY))"

definition is_auto_replayable_after_started :: "string \<Rightarrow> exn + bool" where
  "is_auto_replayable_after_started effect_id =
     bindE (get_descriptor effect_id) (\<lambda>d. Inr (ed_replay_class d \<notin> set NON_AUTO_REPLAY_CLASSES))"

definition unjournaled_effect_ids :: "string list" where
  "unjournaled_effect_ids =
     map ed_effect_id (filter (\<lambda>d. bd_kind (ed_boundary d) = UNJOURNALED) (map snd DELIVERY_EFFECT_REGISTRY))"

definition boundary_host :: "string \<Rightarrow> exn + string" where
  "boundary_host effect_id =
     bindE (get_descriptor effect_id) (\<lambda>d.
       let boundary = ed_boundary d in
       if bd_kind boundary = OWN then Inr effect_id
       else if bd_kind boundary = SHARED_WITH then Inr (bd_host_effect_id boundary)
       else Inr [])"

definition reconcile_static_roster :: "string list \<Rightarrow> string list \<times> string list \<times> string list" where
  "reconcile_static_roster observed =
     (let registered = all_effect_ids;
          missing = sort (filter (\<lambda>e. e \<notin> set observed) registered);
          orphan = sort (filter (\<lambda>e. e \<notin> set registered) (remdups observed))
      in (missing, orphan, orphan))"

section \<open>Lemmas\<close>

text \<open>The registry as import time leaves it, computed once.\<close>

lemma build_registry_ok: "build_registry CENSUS EFFECT_BOUNDARIES = Inr DELIVERY_EFFECT_REGISTRY"
  by code_simp

definition entry_of :: "(string \<times> EffectBoundary) list \<Rightarrow> string \<times> OperationStateImpact \<times> ReplayClass
    \<Rightarrow> string \<times> EffectDescriptor" where
  "entry_of boundaries row =
     (fst row, \<lparr> ed_effect_id = fst row, ed_impact = fst (snd row), ed_replay_class = snd (snd row),
                 ed_boundary = the (map_of boundaries (fst row)) \<rparr>)"

lemma fst_entry_of [simp]: "fst (entry_of boundaries row) = fst row"
  by (simp add: entry_of_def)

lemma register_rows:
  "foldE (register_row boundaries) rows registry = Inr registry' \<Longrightarrow> distinct (map fst registry) \<Longrightarrow>
   registry' = registry @ map (entry_of boundaries) rows \<and> distinct (map fst registry') \<and>
   (\<forall>row\<in>set rows. map_of boundaries (fst row) \<noteq> None)"
proof (induction rows arbitrary: registry)
  case Nil
  then show ?case by simp
next
  case (Cons row rows)
  from Cons.prems(1) obtain registry1
    where one: "register_row boundaries row registry = Inr registry1"
      and rest: "foldE (register_row boundaries) rows registry1 = Inr registry'" by auto
  from one have r1: "registry1 = registry @ [entry_of boundaries row]"
    and new: "fst row \<notin> set (map fst registry)" and b: "map_of boundaries (fst row) \<noteq> None"
    by (auto simp: register_row_def entry_of_def split: prod.splits if_splits option.splits)
  with Cons.prems(2) have "distinct (map fst registry1)" by simp
  note ih = Cons.IH [OF rest this]
  have "registry' = registry @ map (entry_of boundaries) (row # rows)" using ih r1 by auto
  moreover have "distinct (map fst registry')" using ih by blast
  moreover have "\<forall>r\<in>set (row # rows). map_of boundaries (fst r) \<noteq> None" using ih b by auto
  ultimately show ?case by blast
qed

lemma foldE_unit: "foldE (\<lambda>x _. f x) xs u = Inr () \<Longrightarrow> x \<in> set xs \<Longrightarrow> f x = Inr ()"
  by (induction xs arbitrary: u) auto

text \<open>What \<^verbatim>\<open>_validate_boundaries\<close> establishes of one entry.\<close>

definition boundary_honest :: "(string \<times> EffectDescriptor) list \<Rightarrow> string \<times> EffectDescriptor \<Rightarrow> bool" where
  "boundary_honest registry item =
     (let d = snd item; b = ed_boundary d in
      case bd_kind b of
        OWN \<Rightarrow> bd_host_effect_id b = []
      | UNJOURNALED \<Rightarrow> ed_replay_class d \<in> {DIAGNOSTIC, COORDINATION} \<and> bd_host_effect_id b = []
      | SHARED_WITH \<Rightarrow>
          (case map_of registry (bd_host_effect_id b) of
             None \<Rightarrow> False
           | Some host \<Rightarrow> ed_effect_id host \<noteq> fst item \<and> bd_kind (ed_boundary host) = OWN))"

lemma validate_boundary_honest: "validate_boundary registry item = Inr () \<Longrightarrow> boundary_honest registry item"
  by (auto simp: validate_boundary_def boundary_honest_def UNJOURNALABLE_CLASSES_def Let_def
      split: BoundaryKind.splits if_splits option.splits)

lemma build_registry_D:
  assumes "build_registry census boundaries = Inr registry"
  shows "registry = map (entry_of boundaries) census" and "distinct (map fst registry)"
    and "list_all (boundary_honest registry) registry"
    and "set (map fst boundaries) \<subseteq> set (map fst registry)"
    and "row \<in> set census \<Longrightarrow> map_of boundaries (fst row) \<noteq> None"
proof -
  from assms obtain u where rows: "foldE (register_row boundaries) census [] = Inr registry"
    and orphans: "filter (\<lambda>e. e \<notin> set (map fst registry)) (map fst boundaries) = []"
    and valid: "validate_boundaries registry = Inr u"
    by (auto simp: build_registry_def split: if_splits)
  have "distinct (map fst ([] :: (string \<times> EffectDescriptor) list))" by simp
  note r = register_rows [OF rows this]
  show "registry = map (entry_of boundaries) census" using r by auto
  show "distinct (map fst registry)" using r by blast
  show "row \<in> set census \<Longrightarrow> map_of boundaries (fst row) \<noteq> None" using r by blast
  show "list_all (boundary_honest registry) registry"
    using valid foldE_unit validate_boundary_honest unfolding validate_boundaries_def list_all_iff
    by (metis old.unit.exhaust)
  show "set (map fst boundaries) \<subseteq> set (map fst registry)"
    using orphans by (auto simp: filter_empty_conv)
qed

lemmas registry_facts = build_registry_D [OF build_registry_ok]

lemma map_of_entries:
  "map_of (map (entry_of boundaries) rows) e =
     map_option (\<lambda>r. snd (entry_of boundaries (e, r))) (map_of rows e)"
  by (induction rows) (auto simp: entry_of_def)

text \<open>A lookup without building the registry.\<close>

lemma get_descriptor_eq:
  "get_descriptor e =
     (case map_of CENSUS e of
        None \<Rightarrow> Inl (KeyError e)
      | Some (i, c) \<Rightarrow> Inr \<lparr> ed_effect_id = e, ed_impact = i, ed_replay_class = c,
          ed_boundary = the (map_of EFFECT_BOUNDARIES e) \<rparr>)"
  unfolding get_descriptor_def registry_facts(1) map_of_entries
  by (auto simp: entry_of_def split: option.splits)

lemma get_descriptor_id: "get_descriptor e = Inr d \<Longrightarrow> ed_effect_id d = e"
  by (auto simp: get_descriptor_eq split: option.splits)

lemma auto_replayable_descriptor:
  "get_descriptor e = Inr d \<Longrightarrow>
   is_auto_replayable_after_started e = Inr (ed_replay_class d \<noteq> NON_REPLAYABLE)"
  by (simp add: is_auto_replayable_after_started_def NON_AUTO_REPLAY_CLASSES_def)

lemma boundary_honest_registered:
  assumes "get_descriptor e = Inr d"
  shows "boundary_honest DELIVERY_EFFECT_REGISTRY (e, d)"
proof -
  have "(e, d) \<in> set DELIVERY_EFFECT_REGISTRY"
    using assms map_of_SomeD by (fastforce simp: get_descriptor_def split: option.splits)
  then show ?thesis using registry_facts(3) by (auto simp: list_all_iff)
qed

section \<open>Properties\<close>

text \<open>Building the registry from any census and any boundary table either raises or yields one
  descriptor per census row, in order and under distinct ids, covering every declared boundary, in which
  an unjournaled effect is diagnostic or coordination and a shared effect names another registered effect
  that owns its boundary.\<close>

theorem build_registry_sound:
  assumes "build_registry census boundaries = Inr registry"
  shows "map fst registry = map fst census \<and> distinct (map fst registry) \<and>
    set (map fst boundaries) \<subseteq> set (map fst registry) \<and>
    list_all (\<lambda>(e, d). ed_effect_id d = e \<and> map_of boundaries e = Some (ed_boundary d) \<and>
      (case bd_kind (ed_boundary d) of
         OWN \<Rightarrow> bd_host_effect_id (ed_boundary d) = []
       | UNJOURNALED \<Rightarrow> ed_replay_class d \<in> {DIAGNOSTIC, COORDINATION} \<and> bd_host_effect_id (ed_boundary d) = []
       | SHARED_WITH \<Rightarrow>
           (case map_of registry (bd_host_effect_id (ed_boundary d)) of
              None \<Rightarrow> False
            | Some host \<Rightarrow> ed_effect_id host \<noteq> e \<and> bd_kind (ed_boundary host) = OWN))) registry"
proof -
  note facts = build_registry_D [OF assms]
  have "ed_effect_id d = e \<and> map_of boundaries e = Some (ed_boundary d)" if "(e, d) \<in> set registry" for e d
    using that facts(1,5) by (fastforce simp: entry_of_def)
  moreover have "boundary_honest registry (e, d)" if "(e, d) \<in> set registry" for e d
    using that facts(3) by (auto simp: list_all_iff)
  ultimately have entries: "ed_effect_id d = e \<and> map_of boundaries e = Some (ed_boundary d) \<and>
      boundary_honest registry (e, d)" if "(e, d) \<in> set registry" for e d
    using that by blast
  have "map fst registry = map fst census" by (subst facts(1)) simp
  with facts(2,4) show ?thesis
  proof (intro conjI)
    show "list_all (\<lambda>(e, d). ed_effect_id d = e \<and> map_of boundaries e = Some (ed_boundary d) \<and>
      (case bd_kind (ed_boundary d) of
         OWN \<Rightarrow> bd_host_effect_id (ed_boundary d) = []
       | UNJOURNALED \<Rightarrow> ed_replay_class d \<in> {DIAGNOSTIC, COORDINATION} \<and> bd_host_effect_id (ed_boundary d) = []
       | SHARED_WITH \<Rightarrow>
           (case map_of registry (bd_host_effect_id (ed_boundary d)) of
              None \<Rightarrow> False
            | Some host \<Rightarrow> ed_effect_id host \<noteq> e \<and> bd_kind (ed_boundary host) = OWN))) registry"
      unfolding list_all_iff
      using entries unfolding boundary_honest_def Let_def fst_conv snd_conv by blast
  qed
qed

theorem build_registry_sound_witness:
  "distinct (map fst DELIVERY_EFFECT_REGISTRY) \<and> map fst DELIVERY_EFFECT_REGISTRY = map fst CENSUS"
  using build_registry_sound [OF build_registry_ok] by blast

text \<open>The crash evidence of a registered effect resolves in one step: \<open>boundary_host\<close> of an effect
  is either the empty text, exactly for a diagnostic or coordination effect that is unjournaled, or an
  effect that is its own host; and every required effect of the shipped census owns its boundary.\<close>

theorem boundary_host_resolves:
  "(case get_descriptor e of
      Inl err \<Rightarrow> boundary_host e = Inl err
    | Inr d \<Rightarrow>
        if bd_kind (ed_boundary d) = UNJOURNALED
        then boundary_host e = Inr [] \<and> ed_replay_class d \<in> {DIAGNOSTIC, COORDINATION}
        else (\<exists>h. boundary_host e = Inr h \<and> boundary_host h = Inr h)) \<and>
   list_all (\<lambda>r. boundary_host r = Inr r) required_effect_ids"
proof (rule conjI)
  show "list_all (\<lambda>r. boundary_host r = Inr r) required_effect_ids" by code_simp
  have own: "boundary_host x = Inr x" if "get_descriptor x = Inr d" "bd_kind (ed_boundary d) = OWN" for x d
    using that by (simp add: boundary_host_def)
  show "case get_descriptor e of
      Inl err \<Rightarrow> boundary_host e = Inl err
    | Inr d \<Rightarrow>
        if bd_kind (ed_boundary d) = UNJOURNALED
        then boundary_host e = Inr [] \<and> ed_replay_class d \<in> {DIAGNOSTIC, COORDINATION}
        else (\<exists>h. boundary_host e = Inr h \<and> boundary_host h = Inr h)"
  proof (cases "get_descriptor e")
    case (Inl err)
    then show ?thesis by (simp add: boundary_host_def)
  next
    case (Inr d)
    note honest = boundary_honest_registered [OF Inr]
    show ?thesis
    proof (cases "bd_kind (ed_boundary d)")
      case OWN
      then show ?thesis using Inr own [OF Inr] by simp
    next
      case UNJOURNALED
      then show ?thesis using Inr honest by (simp add: boundary_host_def boundary_honest_def)
    next
      case SHARED_WITH
      then obtain host where "get_descriptor (bd_host_effect_id (ed_boundary d)) = Inr host"
        and "bd_kind (ed_boundary host) = OWN"
        using honest by (auto simp: boundary_honest_def get_descriptor_def split: option.splits)
      then show ?thesis using Inr SHARED_WITH own by (simp add: boundary_host_def)
    qed
  qed
qed

end
