(* ===== verification/Delivery_Models.thy ===== *)
theory Delivery_Models
  imports Delivery_Request Effect_Registry
begin

text \<open>
  The data of the delivery journal (\<^verbatim>\<open>trw_mcp/tools/_delivery_models.py\<close>): the closed state domains,
  the rows of the five tables, the results of the API, and the mapping between a record and the row the
  store keeps of it (\<^verbatim>\<open>_delivery_rowmap.py\<close>, the column lists of \<^verbatim>\<open>_delivery_journal_store.py\<close>).

  A string enum is a datatype with its \<^verbatim>\<open>.value\<close>; constructing it from a text that is no value raises
  \<^verbatim>\<open>ValueError\<close>. The \<^verbatim>\<open>Field\<close> constraints of a Pydantic record are its \<open>valid_\<close> predicate,
  checked where a row becomes a record again.
\<close>

section \<open>Closed domains\<close>

definition enum_of :: "('a \<Rightarrow> string) \<Rightarrow> 'a list \<Rightarrow> string \<Rightarrow> exn + 'a" where
  "enum_of value members s =
     (case find (\<lambda>x. value x = s) members of None \<Rightarrow> Inl (ValueError s) | Some x \<Rightarrow> Inr x)"

datatype OperationState =
    Op_PENDING | Op_RUNNING | Op_CRITICAL_COMPLETE | Op_DEFERRED_QUEUED | Op_DEFERRED_RUNNING
    | Op_BLOCKED | Op_FAILED | Op_CANCEL_REQUESTED | Op_CANCELLED | Op_INDETERMINATE
    | Op_SUCCEEDED

primrec OperationState_value :: "OperationState \<Rightarrow> string" where
  "OperationState_value Op_PENDING = ''pending''"
| "OperationState_value Op_RUNNING = ''running''"
| "OperationState_value Op_CRITICAL_COMPLETE = ''critical_complete''"
| "OperationState_value Op_DEFERRED_QUEUED = ''deferred_queued''"
| "OperationState_value Op_DEFERRED_RUNNING = ''deferred_running''"
| "OperationState_value Op_BLOCKED = ''blocked''"
| "OperationState_value Op_FAILED = ''failed''"
| "OperationState_value Op_CANCEL_REQUESTED = ''cancel_requested''"
| "OperationState_value Op_CANCELLED = ''cancelled''"
| "OperationState_value Op_INDETERMINATE = ''indeterminate''"
| "OperationState_value Op_SUCCEEDED = ''succeeded''"

definition OperationState_of_value :: "string \<Rightarrow> exn + OperationState" where
  "OperationState_of_value s = enum_of OperationState_value
     [Op_PENDING, Op_RUNNING, Op_CRITICAL_COMPLETE, Op_DEFERRED_QUEUED, Op_DEFERRED_RUNNING
     , Op_BLOCKED, Op_FAILED, Op_CANCEL_REQUESTED, Op_CANCELLED, Op_INDETERMINATE, Op_SUCCEEDED] s"

datatype StepState =
    St_NOT_STARTED | St_STARTED | St_SUCCEEDED | St_FAILED | St_INDETERMINATE

primrec StepState_value :: "StepState \<Rightarrow> string" where
  "StepState_value St_NOT_STARTED = ''not_started''"
| "StepState_value St_STARTED = ''started''"
| "StepState_value St_SUCCEEDED = ''succeeded''"
| "StepState_value St_FAILED = ''failed''"
| "StepState_value St_INDETERMINATE = ''indeterminate''"

definition StepState_of_value :: "string \<Rightarrow> exn + StepState" where
  "StepState_of_value s = enum_of StepState_value
     [St_NOT_STARTED, St_STARTED, St_SUCCEEDED, St_FAILED, St_INDETERMINATE] s"

datatype StepDisposition =
    Dp_NONE | Dp_SKIPPED_BY_REQUEST | Dp_SKIPPED_NO_WORK | Dp_ATTACHED | Dp_QUEUED | Dp_BLOCKED

primrec StepDisposition_value :: "StepDisposition \<Rightarrow> string" where
  "StepDisposition_value Dp_NONE = ''none''"
| "StepDisposition_value Dp_SKIPPED_BY_REQUEST = ''skipped_by_request''"
| "StepDisposition_value Dp_SKIPPED_NO_WORK = ''skipped_no_work''"
| "StepDisposition_value Dp_ATTACHED = ''attached''"
| "StepDisposition_value Dp_QUEUED = ''queued''"
| "StepDisposition_value Dp_BLOCKED = ''blocked''"

definition StepDisposition_of_value :: "string \<Rightarrow> exn + StepDisposition" where
  "StepDisposition_of_value s = enum_of StepDisposition_value
     [Dp_NONE, Dp_SKIPPED_BY_REQUEST, Dp_SKIPPED_NO_WORK, Dp_ATTACHED, Dp_QUEUED, Dp_BLOCKED] s"

datatype QueueState =
    Qu_QUEUED | Qu_ATTACHED | Qu_RUNNING | Qu_DONE | Qu_CANCELLED

primrec QueueState_value :: "QueueState \<Rightarrow> string" where
  "QueueState_value Qu_QUEUED = ''queued''"
| "QueueState_value Qu_ATTACHED = ''attached''"
| "QueueState_value Qu_RUNNING = ''running''"
| "QueueState_value Qu_DONE = ''done''"
| "QueueState_value Qu_CANCELLED = ''cancelled''"

definition QueueState_of_value :: "string \<Rightarrow> exn + QueueState" where
  "QueueState_of_value s = enum_of QueueState_value
     [Qu_QUEUED, Qu_ATTACHED, Qu_RUNNING, Qu_DONE, Qu_CANCELLED] s"

datatype RecoveryAction =
    Ra_TAKEOVER_PENDING | Ra_RESUME | Ra_RECONCILE_APPLIED | Ra_RECONCILE_NOT_APPLIED
    | Ra_REQUEST_CANCEL

primrec RecoveryAction_value :: "RecoveryAction \<Rightarrow> string" where
  "RecoveryAction_value Ra_TAKEOVER_PENDING = ''takeover_pending''"
| "RecoveryAction_value Ra_RESUME = ''resume''"
| "RecoveryAction_value Ra_RECONCILE_APPLIED = ''reconcile_applied''"
| "RecoveryAction_value Ra_RECONCILE_NOT_APPLIED = ''reconcile_not_applied''"
| "RecoveryAction_value Ra_REQUEST_CANCEL = ''request_cancel''"

definition RecoveryAction_of_value :: "string \<Rightarrow> exn + RecoveryAction" where
  "RecoveryAction_of_value s = enum_of RecoveryAction_value
     [Ra_TAKEOVER_PENDING, Ra_RESUME, Ra_RECONCILE_APPLIED, Ra_RECONCILE_NOT_APPLIED
     , Ra_REQUEST_CANCEL] s"

datatype ClaimStatus =
    Cl_CLAIMED | Cl_EXISTING | Cl_CONFLICT | Cl_STORE_FULL | Cl_REJECTED

primrec ClaimStatus_value :: "ClaimStatus \<Rightarrow> string" where
  "ClaimStatus_value Cl_CLAIMED = ''claimed''"
| "ClaimStatus_value Cl_EXISTING = ''existing''"
| "ClaimStatus_value Cl_CONFLICT = ''delivery_request_conflict''"
| "ClaimStatus_value Cl_STORE_FULL = ''delivery_store_full''"
| "ClaimStatus_value Cl_REJECTED = ''rejected''"

datatype RecoverStatus =
    Rc_OK | Rc_UNAUTHORIZED | Rc_NOT_STALE | Rc_CONFLICT | Rc_STALE_REVISION | Rc_LIVE_OWNER
    | Rc_NOT_FOUND | Rc_REJECTED

primrec RecoverStatus_value :: "RecoverStatus \<Rightarrow> string" where
  "RecoverStatus_value Rc_OK = ''ok''"
| "RecoverStatus_value Rc_UNAUTHORIZED = ''unauthorized''"
| "RecoverStatus_value Rc_NOT_STALE = ''lease_not_stale''"
| "RecoverStatus_value Rc_CONFLICT = ''request_conflict''"
| "RecoverStatus_value Rc_STALE_REVISION = ''stale_revision''"
| "RecoverStatus_value Rc_LIVE_OWNER = ''live_owner''"
| "RecoverStatus_value Rc_NOT_FOUND = ''not_found''"
| "RecoverStatus_value Rc_REJECTED = ''rejected''"

definition TERMINAL_OPERATION_STATES :: "OperationState list" where
  "TERMINAL_OPERATION_STATES = [Op_SUCCEEDED, Op_FAILED, Op_CANCELLED]"

definition DELIVERY_JOURNAL_OWNER :: string where
  "DELIVERY_JOURNAL_OWNER = ''trw_deliver''"

primrec ReplayClass_value :: "ReplayClass \<Rightarrow> string" where
  "ReplayClass_value TRANSACTIONAL = ''transactional''"
| "ReplayClass_value KEYED_IDEMPOTENT = ''keyed_idempotent''"
| "ReplayClass_value POSTCONDITION_PROVABLE = ''postcondition_provable''"
| "ReplayClass_value NON_REPLAYABLE = ''non_replayable''"
| "ReplayClass_value DIAGNOSTIC = ''diagnostic''"
| "ReplayClass_value COORDINATION = ''coordination''"

definition ReplayClass_of_value :: "string \<Rightarrow> exn + ReplayClass" where
  "ReplayClass_of_value s = enum_of ReplayClass_value
     [TRANSACTIONAL, KEYED_IDEMPOTENT, POSTCONDITION_PROVABLE, NON_REPLAYABLE, DIAGNOSTIC, COORDINATION] s"

section \<open>Persisted records\<close>

record StepRecord =
  st_effect_id :: string
  st_state :: StepState
  st_disposition :: StepDisposition
  st_replay_class :: ReplayClass
  st_attempt :: int
  st_proof_ref :: string
  st_proof_digest :: string
  st_finding_code :: string
  st_updated_utc_ms :: int

record OperationRecord =
  op_operation_id :: string
  op_project_scope :: string
  op_run_identity :: string
  op_request_digest :: string
  op_capability_salt :: string
  op_capability_hash :: string
  op_state :: OperationState
  op_revision :: int
  op_created_utc_ms :: int
  op_updated_utc_ms :: int
  op_expiry_utc_ms :: int
  op_lease_owner :: string
  op_lease_pid :: int
  op_lease_expiry_utc_ms :: int
  op_attached_to_operation_id :: string
  op_terminal_utc_ms :: int
  op_caller_recoverable :: bool

record QueueLink =
  ql_operation_id :: string
  ql_deferred_digest :: string
  ql_state :: QueueState
  ql_enqueued_utc_ms :: int
  ql_position :: int

record RecoveryEvent =
  ev_operation_id :: string
  ev_action :: RecoveryAction
  ev_reason :: string
  ev_evidence_ref :: string
  ev_effect_id :: string
  ev_decided_utc_ms :: int

record Tombstone =
  tb_operation_id :: string
  tb_project_scope :: string
  tb_request_digest :: string
  tb_terminal_state :: string
  tb_findings :: string
  tb_created_utc_ms :: int
  tb_expiry_utc_ms :: int

text \<open>The field constraints.\<close>

definition valid_step :: "StepRecord \<Rightarrow> bool" where
  "valid_step s \<longleftrightarrow> 0 \<le> st_attempt s \<and> length (st_proof_ref s) \<le> MAX_EVIDENCE_REF_CHARS \<and> 0 \<le> st_updated_utc_ms s"

definition valid_operation :: "OperationRecord \<Rightarrow> bool" where
  "valid_operation op \<longleftrightarrow> 1 \<le> op_revision op \<and> 0 \<le> op_created_utc_ms op \<and> 0 \<le> op_updated_utc_ms op \<and>
     0 \<le> op_expiry_utc_ms op"

definition valid_queue_link :: "QueueLink \<Rightarrow> bool" where
  "valid_queue_link l \<longleftrightarrow> 0 \<le> ql_enqueued_utc_ms l \<and> 0 \<le> ql_position l"

definition valid_recovery_event :: "RecoveryEvent \<Rightarrow> bool" where
  "valid_recovery_event e \<longleftrightarrow> length (ev_reason e) \<le> MAX_REASON_CHARS \<and>
     length (ev_evidence_ref e) \<le> MAX_EVIDENCE_REF_CHARS \<and> 0 \<le> ev_decided_utc_ms e"

definition valid_tombstone :: "Tombstone \<Rightarrow> bool" where
  "valid_tombstone t \<longleftrightarrow> 0 \<le> tb_created_utc_ms t \<and> 0 \<le> tb_expiry_utc_ms t"

section \<open>Results of the API\<close>

record ClaimResult =
  cr_status :: ClaimStatus
  cr_reason_code :: string
  cr_operation_id :: string
  cr_revision :: int
  cr_state :: OperationState
  cr_effect_calls :: int

record RecoverResult =
  rr_status :: RecoverStatus
  rr_reason_code :: string
  rr_operation_id :: string
  rr_revision :: int
  rr_lease_owner :: string
  rr_state :: OperationState
  rr_replayed_effect_ids :: "string list"
  rr_indeterminate_effect_ids :: "string list"

end
