(* ===== verification/Journal_Rows.thy ===== *)
theory Journal_Rows
  imports Delivery_Models
begin

text \<open>
  Rows and records (\<^verbatim>\<open>trw_mcp/tools/_delivery_rowmap.py\<close>; the column lists the inserts of
  \<^verbatim>\<open>_delivery_journal_store.py\<close> bind). A SQLite row is an association list of column values. Reading
  a row back gives the record that was stored, so the store theories keep the records themselves.
\<close>

datatype sqlval = SText string | SInt int | SNull

type_synonym sqlrow = "(string \<times> sqlval) list"

section \<open>Columns\<close>

text \<open>\<^verbatim>\<open>row[name]\<close>, \<^verbatim>\<open>str(row[name])\<close>, \<^verbatim>\<open>int(row[name])\<close>, \<^verbatim>\<open>Enum(str(row[name]))\<close> and
  \<^verbatim>\<open>bool(row[name])\<close>.\<close>

definition col :: "string \<Rightarrow> sqlrow \<Rightarrow> exn + sqlval" where
  "col name row = (case map_of row name of None \<Rightarrow> Inl (KeyError name) | Some v \<Rightarrow> Inr v)"

definition str_of :: "sqlval \<Rightarrow> string" where
  "str_of v = (case v of SText s \<Rightarrow> s | SInt i \<Rightarrow> str_int i | SNull \<Rightarrow> ''None'')"

definition str_col :: "string \<Rightarrow> sqlrow \<Rightarrow> exn + string" where
  "str_col name row = bindE (col name row) (\<lambda>v. Inr (str_of v))"

definition int_col :: "string \<Rightarrow> sqlrow \<Rightarrow> exn + int" where
  "int_col name row = bindE (col name row) (\<lambda>v.
     case v of
       SInt i \<Rightarrow> Inr i
     | SText s \<Rightarrow> (case parse_int s of None \<Rightarrow> Inl (ValueError s) | Some i \<Rightarrow> Inr i)
     | SNull \<Rightarrow> Inl (ValueError ''None''))"

definition enum_col :: "(string \<Rightarrow> exn + 'a) \<Rightarrow> string \<Rightarrow> sqlrow \<Rightarrow> exn + 'a" where
  "enum_col of_value name row = bindE (str_col name row) of_value"

definition bool_col :: "string \<Rightarrow> sqlrow \<Rightarrow> exn + bool" where
  "bool_col name row = bindE (col name row) (\<lambda>v.
     Inr (case v of SInt i \<Rightarrow> i \<noteq> 0 | SText s \<Rightarrow> s \<noteq> [] | SNull \<Rightarrow> False))"

text \<open>A Pydantic constructor: the record, or \<^verbatim>\<open>ValidationError\<close>.\<close>

definition checked :: "('r \<Rightarrow> bool) \<Rightarrow> 'r \<Rightarrow> exn + 'r" where
  "checked valid r = (if valid r then Inr r else Inl (ValidationError []))"

section \<open>Rows as the inserts bind them\<close>

definition operation_row :: "OperationRecord \<Rightarrow> sqlrow" where
  "operation_row r =
     [(''operation_id'', SText (op_operation_id r)),
      (''project_scope'', SText (op_project_scope r)),
      (''run_identity'', SText (op_run_identity r)),
      (''request_digest'', SText (op_request_digest r)),
      (''capability_salt'', SText (op_capability_salt r)),
      (''capability_hash'', SText (op_capability_hash r)),
      (''state'', SText (OperationState_value (op_state r))),
      (''revision'', SInt (op_revision r)),
      (''created_utc_ms'', SInt (op_created_utc_ms r)),
      (''updated_utc_ms'', SInt (op_updated_utc_ms r)),
      (''expiry_utc_ms'', SInt (op_expiry_utc_ms r)),
      (''lease_owner'', SText (op_lease_owner r)),
      (''lease_pid'', SInt (op_lease_pid r)),
      (''lease_expiry_utc_ms'', SInt (op_lease_expiry_utc_ms r)),
      (''attached_to_operation_id'', SText (op_attached_to_operation_id r)),
      (''terminal_utc_ms'', SInt (op_terminal_utc_ms r)),
      (''caller_recoverable'', SInt (if op_caller_recoverable r then 1 else 0))]"

definition step_row :: "string \<Rightarrow> StepRecord \<Rightarrow> sqlrow" where
  "step_row k r =
     [(''operation_id'', SText k),
      (''effect_id'', SText (st_effect_id r)),
      (''state'', SText (StepState_value (st_state r))),
      (''disposition'', SText (StepDisposition_value (st_disposition r))),
      (''replay_class'', SText (ReplayClass_value (st_replay_class r))),
      (''attempt'', SInt (st_attempt r)),
      (''proof_ref'', SText (st_proof_ref r)),
      (''proof_digest'', SText (st_proof_digest r)),
      (''finding_code'', SText (st_finding_code r)),
      (''updated_utc_ms'', SInt (st_updated_utc_ms r))]"

definition queue_link_row :: "int \<Rightarrow> QueueLink \<Rightarrow> sqlrow" where
  "queue_link_row k r =
     [(''seq'', SInt k),
      (''operation_id'', SText (ql_operation_id r)),
      (''deferred_digest'', SText (ql_deferred_digest r)),
      (''state'', SText (QueueState_value (ql_state r))),
      (''enqueued_utc_ms'', SInt (ql_enqueued_utc_ms r))]"

definition recovery_event_row :: "int \<Rightarrow> RecoveryEvent \<Rightarrow> sqlrow" where
  "recovery_event_row k r =
     [(''id'', SInt k),
      (''operation_id'', SText (ev_operation_id r)),
      (''action'', SText (RecoveryAction_value (ev_action r))),
      (''reason'', SText (ev_reason r)),
      (''evidence_ref'', SText (ev_evidence_ref r)),
      (''effect_id'', SText (ev_effect_id r)),
      (''decided_utc_ms'', SInt (ev_decided_utc_ms r))]"

definition tombstone_row :: "Tombstone \<Rightarrow> sqlrow" where
  "tombstone_row r =
     [(''operation_id'', SText (tb_operation_id r)),
      (''project_scope'', SText (tb_project_scope r)),
      (''request_digest'', SText (tb_request_digest r)),
      (''terminal_state'', SText (tb_terminal_state r)),
      (''findings'', SText (tb_findings r)),
      (''created_utc_ms'', SInt (tb_created_utc_ms r)),
      (''expiry_utc_ms'', SInt (tb_expiry_utc_ms r))]"

section \<open>Records as a row gives them\<close>

definition row_to_operation :: "sqlrow \<Rightarrow> exn + OperationRecord" where
  "row_to_operation row =
     bindE (str_col ''operation_id'' row) (\<lambda>c0.
     bindE (str_col ''project_scope'' row) (\<lambda>c1.
     bindE (str_col ''run_identity'' row) (\<lambda>c2.
     bindE (str_col ''request_digest'' row) (\<lambda>c3.
     bindE (str_col ''capability_salt'' row) (\<lambda>c4.
     bindE (str_col ''capability_hash'' row) (\<lambda>c5.
     bindE (enum_col OperationState_of_value ''state'' row) (\<lambda>c6.
     bindE (int_col ''revision'' row) (\<lambda>c7.
     bindE (int_col ''created_utc_ms'' row) (\<lambda>c8.
     bindE (int_col ''updated_utc_ms'' row) (\<lambda>c9.
     bindE (int_col ''expiry_utc_ms'' row) (\<lambda>c10.
     bindE (str_col ''lease_owner'' row) (\<lambda>c11.
     bindE (int_col ''lease_pid'' row) (\<lambda>c12.
     bindE (int_col ''lease_expiry_utc_ms'' row) (\<lambda>c13.
     bindE (str_col ''attached_to_operation_id'' row) (\<lambda>c14.
     bindE (int_col ''terminal_utc_ms'' row) (\<lambda>c15.
     bindE (bool_col ''caller_recoverable'' row) (\<lambda>c16.
       checked valid_operation
       \<lparr> op_operation_id = c0, op_project_scope = c1, op_run_identity = c2,
         op_request_digest = c3, op_capability_salt = c4, op_capability_hash = c5,
         op_state = c6, op_revision = c7, op_created_utc_ms = c8, op_updated_utc_ms =
         c9, op_expiry_utc_ms = c10, op_lease_owner = c11, op_lease_pid = c12,
         op_lease_expiry_utc_ms = c13, op_attached_to_operation_id = c14,
         op_terminal_utc_ms = c15, op_caller_recoverable = c16 \<rparr>)))))))))))))))))"

definition row_to_step :: "sqlrow \<Rightarrow> exn + StepRecord" where
  "row_to_step row =
     bindE (str_col ''effect_id'' row) (\<lambda>c0.
     bindE (enum_col StepState_of_value ''state'' row) (\<lambda>c1.
     bindE (enum_col StepDisposition_of_value ''disposition'' row) (\<lambda>c2.
     bindE (enum_col ReplayClass_of_value ''replay_class'' row) (\<lambda>c3.
     bindE (int_col ''attempt'' row) (\<lambda>c4.
     bindE (str_col ''proof_ref'' row) (\<lambda>c5.
     bindE (str_col ''proof_digest'' row) (\<lambda>c6.
     bindE (str_col ''finding_code'' row) (\<lambda>c7.
     bindE (int_col ''updated_utc_ms'' row) (\<lambda>c8.
       checked valid_step
       \<lparr> st_effect_id = c0, st_state = c1, st_disposition = c2, st_replay_class =
         c3, st_attempt = c4, st_proof_ref = c5, st_proof_digest = c6, st_finding_code =
         c7, st_updated_utc_ms = c8 \<rparr>)))))))))"

definition row_to_queue_link :: "sqlrow \<Rightarrow> int \<Rightarrow> exn + QueueLink" where
  "row_to_queue_link row position =
     bindE (str_col ''operation_id'' row) (\<lambda>c0.
     bindE (str_col ''deferred_digest'' row) (\<lambda>c1.
     bindE (enum_col QueueState_of_value ''state'' row) (\<lambda>c2.
     bindE (int_col ''enqueued_utc_ms'' row) (\<lambda>c3.
       checked valid_queue_link
       \<lparr> ql_operation_id = c0, ql_deferred_digest = c1, ql_state = c2,
         ql_enqueued_utc_ms = c3, ql_position = position \<rparr>))))"

definition row_to_recovery_event :: "sqlrow \<Rightarrow> exn + RecoveryEvent" where
  "row_to_recovery_event row =
     bindE (str_col ''operation_id'' row) (\<lambda>c0.
     bindE (enum_col RecoveryAction_of_value ''action'' row) (\<lambda>c1.
     bindE (str_col ''reason'' row) (\<lambda>c2.
     bindE (str_col ''evidence_ref'' row) (\<lambda>c3.
     bindE (str_col ''effect_id'' row) (\<lambda>c4.
     bindE (int_col ''decided_utc_ms'' row) (\<lambda>c5.
       checked valid_recovery_event
       \<lparr> ev_operation_id = c0, ev_action = c1, ev_reason = c2, ev_evidence_ref =
         c3, ev_effect_id = c4, ev_decided_utc_ms = c5 \<rparr>))))))"

definition row_to_tombstone :: "sqlrow \<Rightarrow> exn + Tombstone" where
  "row_to_tombstone row =
     bindE (str_col ''operation_id'' row) (\<lambda>c0.
     bindE (str_col ''project_scope'' row) (\<lambda>c1.
     bindE (str_col ''request_digest'' row) (\<lambda>c2.
     bindE (str_col ''terminal_state'' row) (\<lambda>c3.
     bindE (str_col ''findings'' row) (\<lambda>c4.
     bindE (int_col ''created_utc_ms'' row) (\<lambda>c5.
     bindE (int_col ''expiry_utc_ms'' row) (\<lambda>c6.
       checked valid_tombstone
       \<lparr> tb_operation_id = c0, tb_project_scope = c1, tb_request_digest = c2,
         tb_terminal_state = c3, tb_findings = c4, tb_created_utc_ms = c5,
         tb_expiry_utc_ms = c6 \<rparr>)))))))"

section \<open>Lemmas\<close>

lemma enum_roundtrip [simp]:
  "OperationState_of_value (OperationState_value s1) = Inr s1"
  "StepState_of_value (StepState_value s2) = Inr s2"
  "StepDisposition_of_value (StepDisposition_value s3) = Inr s3"
  "QueueState_of_value (QueueState_value s4) = Inr s4"
  "RecoveryAction_of_value (RecoveryAction_value s5) = Inr s5"
  "ReplayClass_of_value (ReplayClass_value s6) = Inr s6"
proof -
  show "OperationState_of_value (OperationState_value s1) = Inr s1"
    by (cases s1) (simp_all add: OperationState_of_value_def enum_of_def)
  show "StepState_of_value (StepState_value s2) = Inr s2"
    by (cases s2) (simp_all add: StepState_of_value_def enum_of_def)
  show "StepDisposition_of_value (StepDisposition_value s3) = Inr s3"
    by (cases s3) (simp_all add: StepDisposition_of_value_def enum_of_def)
  show "QueueState_of_value (QueueState_value s4) = Inr s4"
    by (cases s4) (simp_all add: QueueState_of_value_def enum_of_def)
  show "RecoveryAction_of_value (RecoveryAction_value s5) = Inr s5"
    by (cases s5) (simp_all add: RecoveryAction_of_value_def enum_of_def)
  show "ReplayClass_of_value (ReplayClass_value s6) = Inr s6"
    by (cases s6) (simp_all add: ReplayClass_of_value_def enum_of_def)
qed

lemma col_simps [simp]:
  "col name [] = Inl (KeyError name)"
  "col name ((c, v) # row) = (if name = c then Inr v else col name row)"
  by (simp_all add: col_def)

lemmas row_simps =
  operation_row_def row_to_operation_def step_row_def row_to_step_def queue_link_row_def
  row_to_queue_link_def recovery_event_row_def row_to_recovery_event_def tombstone_row_def
  row_to_tombstone_def str_col_def str_of_def int_col_def enum_col_def bool_col_def checked_def

section \<open>Properties\<close>

text \<open>What the store inserts of a record is read back as that record, for each of the five tables:
  every string enum is recovered from its value and the flag from its integer. The only failure is a record
  that already violates its field constraints, which raises \<^verbatim>\<open>ValidationError\<close>; a queue link comes
  back with the position the query enumerates.\<close>

theorem rows_roundtrip:
  fixes op :: OperationRecord and s :: StepRecord and l :: QueueLink and e :: RecoveryEvent and t :: Tombstone
  shows "row_to_operation (operation_row op) = (if valid_operation op then Inr op else Inl (ValidationError [])) \<and>
    row_to_step (step_row k s) = (if valid_step s then Inr s else Inl (ValidationError [])) \<and>
    row_to_queue_link (queue_link_row seq l) pos =
      (if valid_queue_link (l\<lparr>ql_position := pos\<rparr>) then Inr (l\<lparr>ql_position := pos\<rparr>) else Inl (ValidationError [])) \<and>
    row_to_recovery_event (recovery_event_row seq e) =
      (if valid_recovery_event e then Inr e else Inl (ValidationError [])) \<and>
    row_to_tombstone (tombstone_row t) = (if valid_tombstone t then Inr t else Inl (ValidationError []))"
  by (cases op; cases s; cases l; cases e; cases t) (intro conjI; simp add: row_simps)

end
