(* ===== verification/Journal_Store.thy ===== *)
theory Journal_Store
  imports Journal_Rows
begin

text \<open>
  The SQLite store of the delivery journal (\<^verbatim>\<open>trw_mcp/tools/_delivery_journal_store.py\<close>,
  \<^verbatim>\<open>_delivery_journal_schema.py\<close>): the five tables with their keys and foreign keys, the schema
  check on opening, transactions, and one definition per query or statement.

  A table is the list of its rows in insertion order; a violated primary key, \<^verbatim>\<open>UNIQUE\<close> or foreign key
  raises \<^verbatim>\<open>IntegrityError\<close>. A transaction body returns the new database or raises;
  \<open>immediate\<close> commits or rolls back. Rows of equal creation time are enumerated in insertion order. The
  connection settings (pragmas, permissions, busy timeout) are not modelled.
\<close>

section \<open>The database\<close>

record journal_db =
  db_tables :: "string list"
  db_schema_version :: "string option"
  db_high_water :: "int option"
  db_operations :: "OperationRecord list"
  db_steps :: "(string \<times> StepRecord) list"
  db_queue :: "QueueLink list"
  db_events :: "RecoveryEvent list"
  db_tombstones :: "Tombstone list"

definition empty_db :: journal_db where
  "empty_db = \<lparr> db_tables = [], db_schema_version = None, db_high_water = None, db_operations = [],
     db_steps = [], db_queue = [], db_events = [], db_tombstones = [] \<rparr>"

type_synonym 'a tx = "journal_db \<Rightarrow> exn + ('a \<times> journal_db)"
type_synonym 'a api = "journal_db \<Rightarrow> (exn + 'a) \<times> journal_db"

definition step_key :: "string \<times> StepRecord \<Rightarrow> string \<times> string" where
  "step_key r = (fst r, st_effect_id (snd r))"

section \<open>Opening the store\<close>

definition SCHEMA_tables :: "string list" where
  "SCHEMA_tables =
     [''meta'', ''operations'', ''steps'', ''queue_links'', ''recovery_events'', ''tombstones'']"

definition read_schema_version :: "journal_db \<Rightarrow> exn + int" where
  "read_schema_version db =
     (case db_schema_version db of
        None \<Rightarrow> Inl (CorruptDeliveryJournalSchema ''schema_version_missing'')
      | Some raw \<Rightarrow>
          if \<not> is_decimal raw \<or> length raw > 9
          then Inl (CorruptDeliveryJournalSchema ''schema_version_malformed'')
          else (case parse_int raw of
                  None \<Rightarrow> Inl (ValueError raw) | Some v \<Rightarrow> Inr v))"

definition initialize_schema_locked :: "bool tx" where
  "initialize_schema_locked db =
     (let tables = filter (\<lambda>t. take 7 t \<noteq> ''sqlite_'') (db_tables db);
          created = (tables = []);
          create = (\<lambda>db. db\<lparr>db_tables := db_tables db @ filter (\<lambda>t. t \<notin> set (db_tables db)) SCHEMA_tables\<rparr>)
      in if created then Inr (True, (create db)\<lparr>db_schema_version := Some (str_int SCHEMA_VERSION)\<rparr>)
         else if ''meta'' \<notin> set tables
         then Inl (CorruptDeliveryJournalSchema ''schema_version_unreadable'')
         else bindE (read_schema_version db) (\<lambda>version.
           if version \<noteq> SCHEMA_VERSION then Inl (UnsupportedDeliveryJournalSchema version)
           else Inr (False, create db)))"

definition with_connection :: "'a api \<Rightarrow> 'a api" where
  "with_connection body db =
     (case initialize_schema_locked db of Inl e \<Rightarrow> (Inl e, db) | Inr (created, db1) \<Rightarrow> body db1)"

text \<open>\<^verbatim>\<open>BEGIN IMMEDIATE\<close>: commit on success, rollback on error.\<close>

definition immediate :: "'a tx \<Rightarrow> 'a api" where
  "immediate body db = (case body db of Inl e \<Rightarrow> (Inl e, db) | Inr (x, db') \<Rightarrow> (Inr x, db'))"

text \<open>One operation of the API after another on the same connection; an exception ends both.\<close>

definition then_api :: "'a api \<Rightarrow> ('a \<Rightarrow> 'b api) \<Rightarrow> 'b api" where
  "then_api m f db = (case m db of (Inl e, db') \<Rightarrow> (Inl e, db') | (Inr x, db') \<Rightarrow> f x db')"

section \<open>The high-water mark\<close>

definition get_high_water :: "journal_db \<Rightarrow> int" where
  "get_high_water db = (case db_high_water db of None \<Rightarrow> 0 | Some v \<Rightarrow> v)"

definition advance_high_water :: "int \<Rightarrow> journal_db \<Rightarrow> journal_db" where
  "advance_high_water now_ms db =
     (let current = get_high_water db; high = max current now_ms in db\<lparr>db_high_water := Some high\<rparr>)"

section \<open>Operations\<close>

definition op_ids :: "journal_db \<Rightarrow> string set" where
  "op_ids db = op_operation_id ` set (db_operations db)"

definition get_operation :: "journal_db \<Rightarrow> string \<Rightarrow> OperationRecord option" where
  "get_operation db operation_id = find_row op_operation_id operation_id (db_operations db)"

definition insert_operation :: "OperationRecord \<Rightarrow> journal_db \<Rightarrow> exn + journal_db" where
  "insert_operation op db =
     (if get_operation db (op_operation_id op) \<noteq> None then Inl (IntegrityError ''operations.operation_id'')
      else Inr (db\<lparr>db_operations := db_operations db @ [op]\<rparr>))"

definition replaced_columns :: "OperationRecord \<Rightarrow> OperationRecord \<Rightarrow> OperationRecord" where
  "replaced_columns op row = row\<lparr>op_state := op_state op, op_revision := op_revision op,
     op_updated_utc_ms := op_updated_utc_ms op, op_lease_owner := op_lease_owner op,
     op_lease_pid := op_lease_pid op, op_lease_expiry_utc_ms := op_lease_expiry_utc_ms op,
     op_attached_to_operation_id := op_attached_to_operation_id op,
     op_terminal_utc_ms := op_terminal_utc_ms op, op_caller_recoverable := op_caller_recoverable op\<rparr>"

definition replace_operation :: "OperationRecord \<Rightarrow> journal_db \<Rightarrow> journal_db" where
  "replace_operation op db =
     db\<lparr>db_operations := update_rows op_operation_id (op_operation_id op) (replaced_columns op) (db_operations db)\<rparr>"

section \<open>Steps\<close>

definition get_steps :: "journal_db \<Rightarrow> string \<Rightarrow> StepRecord list" where
  "get_steps db operation_id =
     sort_key st_effect_id (map snd (filter (\<lambda>r. fst r = operation_id) (db_steps db)))"

definition get_step :: "journal_db \<Rightarrow> string \<Rightarrow> string \<Rightarrow> StepRecord option" where
  "get_step db operation_id effect_id =
     map_option snd (find_row step_key (operation_id, effect_id) (db_steps db))"

text \<open>The conflict clause updates every column but \<^verbatim>\<open>replay_class\<close>.\<close>

definition excluded_columns :: "string \<times> StepRecord \<Rightarrow> string \<times> StepRecord \<Rightarrow> string \<times> StepRecord" where
  "excluded_columns new row = (fst row, (snd new)\<lparr>st_replay_class := st_replay_class (snd row)\<rparr>)"

definition write_step :: "string \<times> StepRecord \<Rightarrow> journal_db \<Rightarrow> journal_db" where
  "write_step r db =
     db\<lparr>db_steps :=
       (if find_row step_key (step_key r) (db_steps db) = None then db_steps db @ [r]
        else update_rows step_key (step_key r) (excluded_columns r) (db_steps db))\<rparr>"

definition upsert_step :: "string \<Rightarrow> StepRecord \<Rightarrow> journal_db \<Rightarrow> exn + journal_db" where
  "upsert_step operation_id step db =
     (if get_operation db operation_id = None then Inl (IntegrityError ''steps.operation_id'')
      else Inr (write_step (operation_id, step) db))"

section \<open>Queue links\<close>

definition insert_queue_link :: "QueueLink \<Rightarrow> journal_db \<Rightarrow> exn + journal_db" where
  "insert_queue_link link db =
     (if find_row ql_operation_id (ql_operation_id link) (db_queue db) \<noteq> None \<or>
         get_operation db (ql_operation_id link) = None
      then Inl (IntegrityError ''queue_links.operation_id'')
      else Inr (db\<lparr>db_queue := db_queue db @ [link]\<rparr>))"

definition get_queue :: "journal_db \<Rightarrow> QueueLink list" where
  "get_queue db = map (\<lambda>(pos, link). link\<lparr>ql_position := int pos\<rparr>) (enumerate 0 (db_queue db))"

definition count_queue :: "journal_db \<Rightarrow> QueueState list \<Rightarrow> int" where
  "count_queue db states = int (length (filter (\<lambda>l. ql_state l \<in> set states) (db_queue db)))"

definition update_queue_state :: "string \<Rightarrow> QueueState \<Rightarrow> journal_db \<Rightarrow> journal_db" where
  "update_queue_state operation_id state db =
     db\<lparr>db_queue := update_rows ql_operation_id operation_id (\<lambda>l. l\<lparr>ql_state := state\<rparr>) (db_queue db)\<rparr>"

section \<open>Recovery events and tombstones\<close>

definition insert_recovery_event :: "RecoveryEvent \<Rightarrow> journal_db \<Rightarrow> exn + journal_db" where
  "insert_recovery_event event db =
     (if get_operation db (ev_operation_id event) = None then Inl (IntegrityError ''recovery_events.operation_id'')
      else Inr (db\<lparr>db_events := db_events db @ [event]\<rparr>))"

definition get_recovery_events :: "journal_db \<Rightarrow> string \<Rightarrow> RecoveryEvent list" where
  "get_recovery_events db operation_id = filter (\<lambda>e. ev_operation_id e = operation_id) (db_events db)"

definition insert_tombstone :: "Tombstone \<Rightarrow> journal_db \<Rightarrow> journal_db" where
  "insert_tombstone tombstone db =
     db\<lparr>db_tombstones := drop_rows tb_operation_id (tb_operation_id tombstone) (db_tombstones db) @ [tombstone]\<rparr>"

definition get_tombstone :: "journal_db \<Rightarrow> string \<Rightarrow> Tombstone option" where
  "get_tombstone db operation_id = find_row tb_operation_id operation_id (db_tombstones db)"

text \<open>Deleting an operation cascades to its steps, queue link and recovery events.\<close>

definition delete_operation :: "string \<Rightarrow> journal_db \<Rightarrow> journal_db" where
  "delete_operation operation_id db =
     db\<lparr>db_operations := drop_rows op_operation_id operation_id (db_operations db),
        db_steps := drop_rows fst operation_id (db_steps db),
        db_queue := drop_rows ql_operation_id operation_id (db_queue db),
        db_events := drop_rows ev_operation_id operation_id (db_events db)\<rparr>"

definition delete_tombstone :: "string \<Rightarrow> journal_db \<Rightarrow> journal_db" where
  "delete_tombstone operation_id db =
     db\<lparr>db_tombstones := drop_rows tb_operation_id operation_id (db_tombstones db)\<rparr>"

section \<open>Accounting\<close>

definition count_rows :: "journal_db \<Rightarrow> int" where
  "count_rows db = int (length (db_operations db)) + int (length (db_steps db)) + int (length (db_events db))"

definition iter_operations :: "journal_db \<Rightarrow> OperationRecord list" where
  "iter_operations db = sort_key op_created_utc_ms (db_operations db)"

definition iter_tombstones :: "journal_db \<Rightarrow> Tombstone list" where
  "iter_tombstones db = sort_key tb_created_utc_ms (db_tombstones db)"

section \<open>Well-formedness\<close>

text \<open>The constraints of the schema: keys, foreign keys, and no identifier both live and tombstoned.\<close>

definition keys_ok :: "journal_db \<Rightarrow> bool" where
  "keys_ok db \<longleftrightarrow>
     unique_key op_operation_id (db_operations db) \<and> unique_key step_key (db_steps db) \<and>
     unique_key ql_operation_id (db_queue db) \<and> unique_key tb_operation_id (db_tombstones db) \<and>
     list_all (\<lambda>r. fst r \<in> op_ids db) (db_steps db) \<and>
     list_all (\<lambda>l. ql_operation_id l \<in> op_ids db) (db_queue db) \<and>
     list_all (\<lambda>e. ev_operation_id e \<in> op_ids db) (db_events db)"

definition no_reopened :: "journal_db \<Rightarrow> bool" where
  "no_reopened db \<longleftrightarrow> list_all (\<lambda>t. tb_operation_id t \<notin> op_ids db) (db_tombstones db)"

text \<open>A step is of a registered effect and carries the class of its descriptor.\<close>

definition registered_step :: "StepRecord \<Rightarrow> bool" where
  "registered_step s \<longleftrightarrow>
     (case get_descriptor (st_effect_id s) of Inl _ \<Rightarrow> False | Inr d \<Rightarrow> ed_replay_class d = st_replay_class s)"

lemma registered_step_iff:
  "registered_step s \<longleftrightarrow> (\<exists>d. get_descriptor (st_effect_id s) = Inr d \<and> ed_replay_class d = st_replay_class s)"
  by (auto simp: registered_step_def split: sum.splits)

definition records_ok :: "journal_db \<Rightarrow> bool" where
  "records_ok db \<longleftrightarrow>
     list_all valid_operation (db_operations db) \<and>
     list_all (\<lambda>r. valid_step (snd r) \<and> registered_step (snd r)) (db_steps db) \<and>
     list_all valid_recovery_event (db_events db) \<and> list_all valid_tombstone (db_tombstones db) \<and>
     list_all valid_queue_link (db_queue db)"

definition wf_db :: "journal_db \<Rightarrow> bool" where
  "wf_db db \<longleftrightarrow> keys_ok db \<and> no_reopened db \<and> records_ok db"

section \<open>Reads after writes\<close>

lemma get_operation_id: "get_operation db k = Some op \<Longrightarrow> op_operation_id op = k"
  by (auto simp: get_operation_def dest: find_row_Some_D)

lemma get_operation_op_ids: "k \<in> op_ids db \<longleftrightarrow> get_operation db k \<noteq> None"
  unfolding op_ids_def get_operation_def find_row_None by simp

lemma op_ids_frames [simp]:
  "op_ids (db\<lparr>db_steps := a\<rparr>) = op_ids db" "op_ids (db\<lparr>db_queue := b\<rparr>) = op_ids db"
  "op_ids (db\<lparr>db_events := c\<rparr>) = op_ids db" "op_ids (db\<lparr>db_tombstones := d\<rparr>) = op_ids db"
  "op_ids (db\<lparr>db_high_water := h\<rparr>) = op_ids db"
  "op_ids (db\<lparr>db_operations := db_operations db @ [op]\<rparr>) = insert (op_operation_id op) (op_ids db)"
  by (auto simp: op_ids_def)

lemma op_ids_delete [simp]: "op_ids (delete_operation k db) = op_ids db - {k}"
  by (auto simp: op_ids_def delete_operation_def)

lemma op_ids_write [simp]: "op_ids (write_step r db) = op_ids db"
  "op_ids (update_queue_state k q db) = op_ids db" "op_ids (insert_tombstone t db) = op_ids db"
  "op_ids (delete_tombstone k db) = op_ids db" "op_ids (advance_high_water n db) = op_ids db"
  by (simp_all add: write_step_def update_queue_state_def insert_tombstone_def delete_tombstone_def
      advance_high_water_def Let_def)

lemma get_operation_mem:
  "get_operation db k = Some op \<Longrightarrow> op \<in> set (db_operations db) \<and> op_operation_id op = k"
  by (auto simp: get_operation_def dest: find_row_Some_D)

lemma op_ids_replace [simp]: "op_ids (replace_operation op db) = op_ids db"
proof -
  have "map op_operation_id (update_rows op_operation_id k (replaced_columns op) rows) = map op_operation_id rows" for k rows
    by (rule map_key_update_rows) (simp add: replaced_columns_def)
  then show ?thesis
    unfolding op_ids_def replace_operation_def list.set_map [symmetric] by simp
qed

lemma get_replace_operation [row_laws]:
  "get_operation (replace_operation op db) k =
     (if k = op_operation_id op then map_option (replaced_columns op) (get_operation db k) else get_operation db k)"
  by (simp add: get_operation_def replace_operation_def find_update_rows replaced_columns_def)

lemma get_insert_operation:
  "insert_operation op db = Inr db' \<Longrightarrow>
   get_operation db' k = (if k = op_operation_id op then Some op else get_operation db k) \<and>
   db' = db\<lparr>db_operations := db_operations db @ [op]\<rparr>"
  by (auto simp: insert_operation_def get_operation_def find_row_append split: if_splits option.splits)

lemma get_write_step [row_laws]:
  "get_step (write_step (k, s) db) k' e =
     (if k' = k \<and> e = st_effect_id s
      then Some (case get_step db k e of None \<Rightarrow> s | Some old \<Rightarrow> s\<lparr>st_replay_class := st_replay_class old\<rparr>)
      else get_step db k' e)"
proof (cases "find_row step_key (step_key (k, s)) (db_steps db)")
  case None
  then show ?thesis
    by (auto simp: write_step_def get_step_def find_row_append step_key_def split: option.splits)
next
  case (Some old)
  have key: "step_key (excluded_columns (k, s) r) = step_key r" if "step_key r = step_key (k, s)" for r
    using that by (auto simp: step_key_def excluded_columns_def)
  have upd: "find_row step_key k' (update_rows step_key (step_key (k, s)) (excluded_columns (k, s)) rows) =
      (if k' = step_key (k, s) then map_option (excluded_columns (k, s)) (find_row step_key k' rows)
       else find_row step_key k' rows)" for k' rows
    by (induction rows) (auto simp: key)
  have sk: "step_key (k, s) = (k, st_effect_id s)" by (simp add: step_key_def)
  obtain s0 where "old = (k, s0)" using find_row_Some_D [OF Some] by (cases old) (simp add: step_key_def)
  then show ?thesis
    using Some by (simp add: write_step_def get_step_def upd [unfolded sk] sk excluded_columns_def)
qed

lemma get_insert_tombstone [row_laws]:
  "get_tombstone (insert_tombstone t db) k = (if k = tb_operation_id t then Some t else get_tombstone db k)"
  by (auto simp: get_tombstone_def insert_tombstone_def find_row_append find_drop_rows split: option.splits)

lemma get_delete_operation [row_laws]:
  "get_operation (delete_operation k db) k' = (if k' = k then None else get_operation db k')"
  by (simp add: get_operation_def delete_operation_def find_drop_rows)

lemma get_delete_tombstone [row_laws]:
  "get_tombstone (delete_tombstone k db) k' = (if k' = k then None else get_tombstone db k')"
  by (simp add: get_tombstone_def delete_tombstone_def find_drop_rows)

text \<open>The statements touch one table each.\<close>

lemma table_frames [row_laws]:
  "get_operation (write_step r db) k = get_operation db k"
  "get_operation (update_queue_state i q db) k = get_operation db k"
  "get_operation (insert_tombstone t db) k = get_operation db k"
  "get_operation (delete_tombstone i db) k = get_operation db k"
  "get_operation (advance_high_water n db) k = get_operation db k"
  "get_step (replace_operation op db) k e = get_step db k e"
  "get_step (update_queue_state i q db) k e = get_step db k e"
  "get_tombstone (replace_operation op db) k = get_tombstone db k"
  "get_tombstone (write_step r db) k = get_tombstone db k"
  "get_tombstone (delete_operation i db) k = get_tombstone db k"
  "get_tombstone (update_queue_state i q db) k = get_tombstone db k"
  "get_tombstone (advance_high_water n db) k = get_tombstone db k"
  "get_steps (replace_operation op db) k = get_steps db k"
  "get_steps (update_queue_state i q db) k = get_steps db k"
  by (simp_all add: get_operation_def get_step_def get_steps_def get_tombstone_def write_step_def
      update_queue_state_def insert_tombstone_def delete_tombstone_def advance_high_water_def
      replace_operation_def delete_operation_def Let_def)

lemma upsert_step_D:
  "upsert_step k s db = Inr db' \<Longrightarrow> db' = write_step (k, s) db \<and> get_operation db k \<noteq> None"
  by (auto simp: upsert_step_def split: if_splits)

lemma insert_event_D:
  "insert_recovery_event e db = Inr db' \<Longrightarrow>
   db' = db\<lparr>db_events := db_events db @ [e]\<rparr> \<and> get_operation db (ev_operation_id e) \<noteq> None"
  by (auto simp: insert_recovery_event_def split: if_splits)

lemma events_frames [row_laws]:
  "get_operation (db\<lparr>db_events := es\<rparr>) k = get_operation db k"
  "get_step (db\<lparr>db_events := es\<rparr>) k e = get_step db k e"
  "get_steps (db\<lparr>db_events := es\<rparr>) k = get_steps db k"
  "get_tombstone (db\<lparr>db_events := es\<rparr>) k = get_tombstone db k"
  by (simp_all add: get_operation_def get_step_def get_steps_def get_tombstone_def)

lemma set_get_steps: "set (get_steps db k) = {s. (k, s) \<in> set (db_steps db)}"
  by (auto simp: get_steps_def image_iff)

lemma get_step_mem: "get_step db k e = Some s \<Longrightarrow> (k, s) \<in> set (db_steps db) \<and> st_effect_id s = e"
  by (auto simp: get_step_def step_key_def dest!: find_row_Some_D)

lemma mem_get_step: "keys_ok db \<Longrightarrow> (k, s) \<in> set (db_steps db) \<Longrightarrow> get_step db k (st_effect_id s) = Some s"
  using find_row_mem [of step_key "db_steps db" "(k, s)"]
  by (simp add: get_step_def step_key_def keys_ok_def)

lemma mem_get_steps: "keys_ok db \<Longrightarrow> s \<in> set (get_steps db k) \<longleftrightarrow> get_step db k (st_effect_id s) = Some s"
  using mem_get_step get_step_mem by (auto simp: set_get_steps)

lemma distinct_step_ids:
  assumes "keys_ok db"
  shows "distinct (map st_effect_id (get_steps db k))"
proof -
  have "distinct (map step_key (filter (\<lambda>r. fst r = k) (db_steps db)))"
    using assms by (simp add: keys_ok_def unique_key_def distinct_map_filter)
  then have "inj_on step_key {r \<in> set (db_steps db). fst r = k}" and d: "distinct (filter (\<lambda>r. fst r = k) (db_steps db))"
    by (auto simp: distinct_map)
  then have "inj_on (st_effect_id \<circ> snd) {r \<in> set (db_steps db). fst r = k}"
    by (auto simp: inj_on_def step_key_def)
  with d have "distinct (map (st_effect_id \<circ> snd) (filter (\<lambda>r. fst r = k) (db_steps db)))"
    by (simp add: distinct_map)
  then have "distinct (map st_effect_id (map snd (filter (\<lambda>r. fst r = k) (db_steps db))))" by simp
  then show ?thesis
    unfolding get_steps_def distinct_map [of st_effect_id] distinct_sort set_sort .
qed

section \<open>Well-formedness is preserved\<close>

lemmas wf_defs = wf_db_def keys_ok_def no_reopened_def records_ok_def

lemma wf_advance_high_water [wf_intros]: "wf_db db \<Longrightarrow> wf_db (advance_high_water n db)"
  by (simp add: wf_defs) (simp add: advance_high_water_def Let_def)

lemma tombstone_ids: "get_tombstone db k = None \<longleftrightarrow> list_all (\<lambda>t. tb_operation_id t \<noteq> k) (db_tombstones db)"
  by (auto simp: get_tombstone_def find_row_None list_all_iff)

lemma wf_insert_operation:
  assumes "insert_operation op db = Inr db'" "wf_db db" "valid_operation op"
    and "get_tombstone db (op_operation_id op) = None"
  shows "wf_db db'"
proof -
  have "op_operation_id op \<notin> op_operation_id ` set (db_operations db)"
    and db': "db' = db\<lparr>db_operations := db_operations db @ [op]\<rparr>"
    using assms(1) by (auto simp: insert_operation_def get_operation_def find_row_None split: if_splits)
  then show ?thesis
    using assms(2-4) by (simp add: wf_defs unique_key_def tombstone_ids list_all_iff)
qed

lemma wf_replace_operation [wf_intros]:
  assumes "wf_db db" "valid_operation op"
  shows "wf_db (replace_operation op db)"
proof -
  have "map op_operation_id (update_rows op_operation_id k (replaced_columns op) rows) = map op_operation_id rows" for k rows
    by (rule map_key_update_rows) (simp add: replaced_columns_def)
  moreover have "list_all valid_operation (update_rows op_operation_id k (replaced_columns op) rows)"
    if "list_all valid_operation rows" for k rows
    using that assms(2) by (induction rows) (auto simp: valid_operation_def replaced_columns_def)
  ultimately show ?thesis
    using assms(1) unfolding wf_defs op_ids_replace
    by (simp add: unique_key_def replace_operation_def)
qed

lemma step_key_write: "map step_key (db_steps (write_step r db)) =
   (if find_row step_key (step_key r) (db_steps db) = None then map step_key (db_steps db) @ [step_key r]
    else map step_key (db_steps db))"
proof -
  have "step_key (excluded_columns r r') = step_key r'" if "step_key r' = step_key r" for r'
    using that by (auto simp: step_key_def excluded_columns_def)
  then have "map step_key (update_rows step_key (step_key r) (excluded_columns r) rows) = map step_key rows" for rows
    by (induction rows) auto
  then show ?thesis by (simp add: write_step_def)
qed

lemma set_write_step:
  "r' \<in> set (db_steps (write_step r db)) \<Longrightarrow>
   r' \<in> set (db_steps db) \<or> r' = r \<or>
   (\<exists>old\<in>set (db_steps db). step_key old = step_key r \<and> r' = excluded_columns r old)"
  by (auto simp: write_step_def update_rows_def split: if_splits)

lemma wf_write_step [wf_intros]:
  assumes wf: "wf_db db" and k: "get_operation db k \<noteq> None"
    and s: "valid_step s" "registered_step s"
  shows "wf_db (write_step (k, s) db)"
proof -
  have rows: "fst r' \<in> op_ids db \<and> valid_step (snd r') \<and> registered_step (snd r')"
    if "r' \<in> set (db_steps (write_step (k, s) db))" for r'
    using set_write_step [OF that]
  proof (elim disjE bexE conjE)
    assume "r' \<in> set (db_steps db)"
    then show ?thesis using wf by (auto simp: wf_defs list_all_iff)
  next
    assume "r' = (k, s)"
    then show ?thesis using k s by (simp add: get_operation_op_ids)
  next
    fix old assume old: "old \<in> set (db_steps db)" "step_key old = step_key (k, s)" "r' = excluded_columns (k, s) old"
    then have "fst old \<in> op_ids db" "registered_step (snd old)"
      using wf by (auto simp: wf_defs list_all_iff)
    moreover have "registered_step (s\<lparr>st_replay_class := st_replay_class (snd old)\<rparr>)"
      using \<open>registered_step (snd old)\<close> old(2)
      by (auto simp: registered_step_def step_key_def split: sum.splits)
    ultimately show ?thesis using old(3) s by (simp add: excluded_columns_def valid_step_def)
  qed
  have "unique_key step_key (db_steps (write_step (k, s) db))"
    using wf by (auto simp: wf_db_def keys_ok_def unique_key_def step_key_write find_row_None)
  moreover have "db_operations (write_step (k, s) db) = db_operations db"
    "db_queue (write_step (k, s) db) = db_queue db" "db_events (write_step (k, s) db) = db_events db"
    "db_tombstones (write_step (k, s) db) = db_tombstones db"
    by (simp_all add: write_step_def)
  ultimately show ?thesis using wf rows by (simp add: wf_defs list_all_iff)
qed

lemma wf_insert_event [wf_intros]:
  assumes "wf_db db" "get_operation db (ev_operation_id e) \<noteq> None" "valid_recovery_event e"
  shows "wf_db (db\<lparr>db_events := db_events db @ [e]\<rparr>)"
  using assms by (simp add: wf_defs get_operation_op_ids)

lemma wf_update_queue_state [wf_intros]:
  assumes "wf_db db"
  shows "wf_db (update_queue_state k q db)"
proof -
  have "map ql_operation_id (update_rows ql_operation_id k (\<lambda>l. l\<lparr>ql_state := q\<rparr>) rows) = map ql_operation_id rows" for rows
    by (rule map_key_update_rows) simp
  moreover have "list_all (\<lambda>l. ql_operation_id l \<in> A) rows \<Longrightarrow>
      list_all (\<lambda>l. ql_operation_id l \<in> A) (update_rows ql_operation_id k (\<lambda>l. l\<lparr>ql_state := q\<rparr>) rows)"
    "list_all valid_queue_link rows \<Longrightarrow>
      list_all valid_queue_link (update_rows ql_operation_id k (\<lambda>l. l\<lparr>ql_state := q\<rparr>) rows)" for rows A
    by (induction rows) (auto simp: valid_queue_link_def)
  ultimately show ?thesis
    using assms by (simp add: wf_defs) (simp add: update_queue_state_def unique_key_def)
qed

lemma wf_insert_queue_link:
  assumes "insert_queue_link l db = Inr db'" "wf_db db" "valid_queue_link l"
  shows "wf_db db'"
proof -
  have "ql_operation_id l \<notin> ql_operation_id ` set (db_queue db)" "ql_operation_id l \<in> op_ids db"
    and "db' = db\<lparr>db_queue := db_queue db @ [l]\<rparr>"
    using assms(1) by (auto simp: insert_queue_link_def find_row_None get_operation_op_ids split: if_splits)
  then show ?thesis using assms(2,3) by (simp add: wf_defs unique_key_def)
qed

text \<open>Compacting an operation: its tombstone goes in, its rows go out.\<close>

lemma distinct_drop_rows: "distinct (map f rows) \<Longrightarrow> distinct (map f (drop_rows key k rows))"
  by (simp add: drop_rows_def distinct_map_filter)

lemma wf_tombstone_operation [wf_intros]:
  assumes "wf_db db" "valid_tombstone t"
  shows "wf_db (delete_operation (tb_operation_id t) (insert_tombstone t db))"
  using assms unfolding wf_defs op_ids_delete op_ids_write
  by (auto simp: delete_operation_def insert_tombstone_def unique_key_def distinct_drop_rows list_all_iff)

lemma wf_delete_tombstone [wf_intros]: "wf_db db \<Longrightarrow> wf_db (delete_tombstone k db)"
  unfolding wf_defs op_ids_write
  by (simp add: delete_tombstone_def unique_key_def distinct_drop_rows list_all_iff)

lemma wf_empty: "wf_db empty_db"
  by (simp add: wf_defs unique_key_def empty_db_def)

text \<open>Opening the store changes no row.\<close>

lemma initialize_schema_D:
  assumes "initialize_schema_locked db = Inr (c, db')"
  shows "db_operations db' = db_operations db" "db_steps db' = db_steps db" "db_queue db' = db_queue db"
    "db_events db' = db_events db" "db_tombstones db' = db_tombstones db" "db_high_water db' = db_high_water db"
  using assms by (auto simp: initialize_schema_locked_def Let_def split: if_splits)

lemma wf_initialize: "initialize_schema_locked db = Inr (c, db') \<Longrightarrow> wf_db db' \<longleftrightarrow> wf_db db"
  by (simp add: initialize_schema_D wf_defs op_ids_def)

lemma wf_with_connection:
  assumes "wf_db db" and "\<And>db1. wf_db db1 \<Longrightarrow> wf_db (snd (body db1))"
  shows "wf_db (snd (with_connection body db))"
  using assms by (auto simp: with_connection_def wf_initialize split: sum.splits)

lemma wf_immediate:
  assumes "wf_db db" and "\<And>x db'. body db = Inr (x, db') \<Longrightarrow> wf_db db'"
  shows "wf_db (snd (immediate body db))"
  using assms by (auto simp: immediate_def split: sum.splits)

lemma wf_then_api:
  assumes "wf_db (snd (m db))" and "\<And>x db'. wf_db db' \<Longrightarrow> wf_db (snd (f x db'))"
  shows "wf_db (snd (then_api m f db))"
  using assms by (auto simp: then_api_def split: prod.splits sum.splits)

section \<open>The tables as keyed tables\<close>

interpretation operations: keyed_table
  get_operation op_operation_id replace_operation "\<lambda>old op. map_option (replaced_columns op) old"
  by unfold_locales (simp add: get_replace_operation)

text \<open>A step row of one operation, and what the conflict clause keeps of the row before it.\<close>

definition kept_class :: "(string \<times> StepRecord) option \<Rightarrow> string \<times> StepRecord \<Rightarrow> (string \<times> StepRecord) option" where
  "kept_class old r = Some (case old of None \<Rightarrow> r | Some o' \<Rightarrow> excluded_columns r o')"

interpretation steps: keyed_table
  "\<lambda>db key. map_option (Pair (fst key)) (get_step db (fst key) (snd key))" step_key write_step kept_class
proof
  fix r :: "string \<times> StepRecord" and db key
  obtain k s where r: "r = (k, s)" by (cases r)
  show "map_option (Pair (fst key)) (get_step (write_step r db) (fst key) (snd key)) =
      (if key = step_key r then kept_class (map_option (Pair (fst key)) (get_step db (fst key) (snd key))) r
       else map_option (Pair (fst key)) (get_step db (fst key) (snd key)))"
    by (cases key) (auto simp: r row_laws step_key_def kept_class_def excluded_columns_def split: option.splits)
qed

interpretation tombstones: keyed_table
  get_tombstone tb_operation_id insert_tombstone "\<lambda>_. Some"
  by unfold_locales (simp add: get_insert_tombstone)

end
