(* ===== verification/Delivery_Recovery.thy ===== *)
theory Delivery_Recovery
  imports Journal_Store
begin

text \<open>
  Crash recovery, stale takeover and retention (\<^verbatim>\<open>trw_mcp/tools/_delivery_recovery.py\<close>). Every
  definition works inside the caller's transaction; \<open>run_maintenance\<close> opens its own.

  What the code reads of its host is the record \<open>delivery_env\<close>: SHA-256, the outcome of
  \<^verbatim>\<open>os.kill(pid, 0)\<close>, the own process id and the configuration. Clock readings, the file sizes of
  the store and random bytes are arguments. Log lines are left out.
\<close>

section \<open>The host\<close>

datatype kill_outcome = Kill_delivered | ProcessLookupError | PermissionError | Kill_OSError

record delivery_env =
  env_sha256 :: "string \<Rightarrow> string"
  env_kill :: "int \<Rightarrow> kill_outcome"
  env_pid :: int
  env_stale_lease_minutes :: int
  env_queue_depth_max :: int
  env_mode :: string
  env_project_scope :: string

definition process_alive :: "delivery_env \<Rightarrow> int \<Rightarrow> bool" where
  "process_alive E pid =
     (if pid \<le> 0 then False
      else (case env_kill E pid of
              ProcessLookupError \<Rightarrow> False
            | PermissionError \<Rightarrow> True
            | Kill_OSError \<Rightarrow> False
            | Kill_delivered \<Rightarrow> True))"

section \<open>Crash recovery\<close>

datatype restart_decision = Indeterminate | Prove_then_replay | Replay_safe

definition classify_restart :: "StepRecord \<Rightarrow> exn + restart_decision" where
  "classify_restart step =
     bindE (is_auto_replayable_after_started (st_effect_id step)) (\<lambda>auto.
       if \<not> auto then Inr Indeterminate
       else if st_replay_class step = POSTCONDITION_PROVABLE then Inr Prove_then_replay
       else Inr Replay_safe)"

text \<open>A result with the defaults of \<^verbatim>\<open>RecoverResult\<close>, and the refusal projection.\<close>

definition recover_result :: "RecoverStatus \<Rightarrow> string \<Rightarrow> RecoverResult" where
  "recover_result status reason_code =
     \<lparr> rr_status = status, rr_reason_code = reason_code, rr_operation_id = [], rr_revision = 0,
       rr_lease_owner = [], rr_state = Op_PENDING, rr_replayed_effect_ids = [],
       rr_indeterminate_effect_ids = [] \<rparr>"

definition fail_recovery :: "RecoverStatus \<Rightarrow> string \<Rightarrow> OperationRecord \<Rightarrow> RecoverResult" where
  "fail_recovery status code operation =
     (recover_result status code)\<lparr>rr_operation_id := op_operation_id operation,
        rr_revision := op_revision operation, rr_lease_owner := op_lease_owner operation,
        rr_state := op_state operation\<rparr>"

definition crashed_step :: "int \<Rightarrow> StepRecord \<Rightarrow> StepRecord" where
  "crashed_step now_ms step = step\<lparr>st_state := St_INDETERMINATE,
     st_finding_code := ''crash_nonreplayable'', st_updated_utc_ms := now_ms\<rparr>"

definition recover_step ::
  "string \<Rightarrow> int \<Rightarrow> StepRecord \<Rightarrow> journal_db \<times> string list \<times> string list
     \<Rightarrow> exn + (journal_db \<times> string list \<times> string list)" where
  "recover_step operation_id now_ms step acc =
     (case acc of (db, indeterminate, replay_safe) \<Rightarrow>
        if st_state step \<noteq> St_STARTED then Inr (db, indeterminate, replay_safe)
        else bindE (classify_restart step) (\<lambda>decision.
          if decision = Indeterminate
          then bindE (upsert_step operation_id (crashed_step now_ms step) db) (\<lambda>db.
            Inr (db, indeterminate @ [st_effect_id step], replay_safe))
          else Inr (db, indeterminate, replay_safe @ [st_effect_id step])))"

definition apply_crash_recovery_locked :: "OperationRecord \<Rightarrow> int \<Rightarrow> RecoverResult tx" where
  "apply_crash_recovery_locked operation now_ms db =
     (let steps = get_steps db (op_operation_id operation) in
      bindE (foldE (recover_step (op_operation_id operation) now_ms) steps (db, [], []))
        (\<lambda>(db, indeterminate, replay_safe).
          let new_state = (if indeterminate \<noteq> [] then Op_INDETERMINATE else op_state operation);
              updated = operation\<lparr>op_state := new_state, op_revision := op_revision operation + 1,
                op_updated_utc_ms := now_ms, op_lease_owner := [], op_lease_pid := 0,
                op_lease_expiry_utc_ms := 0\<rparr>;
              event = \<lparr> ev_operation_id = op_operation_id operation, ev_action = Ra_RECONCILE_NOT_APPLIED,
                ev_reason = ''crash_recovery_evaluated'', ev_evidence_ref = [], ev_effect_id = [],
                ev_decided_utc_ms = now_ms \<rparr>
          in bindE (insert_recovery_event event (replace_operation updated db)) (\<lambda>db.
               Inr ((recover_result Rc_OK ''crash_recovered'')\<lparr>rr_operation_id := op_operation_id operation,
                   rr_revision := op_revision updated, rr_state := op_state updated,
                   rr_replayed_effect_ids := sort replay_safe,
                   rr_indeterminate_effect_ids := sort indeterminate\<rparr>, db))))"

section \<open>Takeover\<close>

definition lease_takeover_refusal ::
  "delivery_env \<Rightarrow> OperationRecord \<Rightarrow> int \<Rightarrow> int \<Rightarrow> bool option \<Rightarrow> int \<Rightarrow> RecoverResult option" where
  "lease_takeover_refusal E operation now_ms stale_lease_ms owner_alive self_owned_pid =
     (let expiry = op_lease_expiry_utc_ms operation in
      if expiry \<noteq> 0 \<and> now_ms < expiry
      then Some (fail_recovery Rc_NOT_STALE ''lease_still_fresh'' operation)
      else (let lease_age = (if expiry \<noteq> 0 then now_ms - expiry else now_ms) in
        if lease_age < stale_lease_ms
        then Some (fail_recovery Rc_NOT_STALE ''lease_not_stale_enough'' operation)
        else (let alive = (case owner_alive of
                    None \<Rightarrow> op_lease_pid operation \<noteq> 0 \<and> op_lease_pid operation \<noteq> self_owned_pid \<and>
                            process_alive E (op_lease_pid operation)
                  | Some a \<Rightarrow> a)
              in if alive then Some (fail_recovery Rc_LIVE_OWNER ''owner_process_alive'' operation)
                 else None)))"

definition authorize_takeover_locked ::
  "delivery_env \<Rightarrow> OperationRecord \<Rightarrow> string \<Rightarrow> int \<Rightarrow> string \<Rightarrow> string \<Rightarrow> int \<Rightarrow> int \<Rightarrow> int \<Rightarrow> bool option
     \<Rightarrow> RecoverResult tx" where
  "authorize_takeover_locked E operation capability_token expected_revision reason new_owner new_pid
       now_ms stale_lease_ms owner_alive db =
     (if reason = [] \<or> length reason > MAX_REASON_CHARS
      then Inr (fail_recovery Rc_REJECTED ''invalid_reason'' operation, db)
      else if \<not> verify_capability (env_sha256 E) capability_token (op_capability_salt operation)
                 (op_capability_hash operation)
      then Inr (fail_recovery Rc_UNAUTHORIZED ''capability_mismatch'' operation, db)
      else if expected_revision \<noteq> op_revision operation
      then Inr (fail_recovery Rc_STALE_REVISION ''revision_mismatch'' operation, db)
      else (case lease_takeover_refusal E operation now_ms stale_lease_ms owner_alive 0 of
              Some refusal \<Rightarrow> Inr (refusal, db)
            | None \<Rightarrow>
                (let updated = operation\<lparr>op_revision := op_revision operation + 1,
                       op_updated_utc_ms := now_ms, op_lease_owner := new_owner, op_lease_pid := new_pid,
                       op_lease_expiry_utc_ms := now_ms + stale_lease_ms\<rparr>;
                     event = \<lparr> ev_operation_id = op_operation_id operation, ev_action = Ra_TAKEOVER_PENDING,
                       ev_reason = reason, ev_evidence_ref = [], ev_effect_id = [], ev_decided_utc_ms = now_ms \<rparr>
                 in bindE (insert_recovery_event event (replace_operation updated db)) (\<lambda>db.
                      Inr ((recover_result Rc_OK ''takeover_granted'')\<lparr>
                          rr_operation_id := op_operation_id updated, rr_revision := op_revision updated,
                          rr_lease_owner := new_owner, rr_state := op_state updated\<rparr>, db)))))"

section \<open>Retention\<close>

definition terminal_queue_state :: "OperationState \<Rightarrow> QueueState" where
  "terminal_queue_state state = (if state = Op_CANCELLED then Qu_CANCELLED else Qu_DONE)"

definition reap_link ::
  "delivery_env \<Rightarrow> int \<Rightarrow> int \<Rightarrow> QueueLink \<Rightarrow> journal_db \<times> int \<times> int \<Rightarrow> journal_db \<times> int \<times> int" where
  "reap_link E now_ms stale_lease_ms link acc =
     (case acc of (db, terminal_reaped, stale_reaped) \<Rightarrow>
        if ql_state link \<noteq> Qu_QUEUED then acc
        else (case get_operation db (ql_operation_id link) of
                None \<Rightarrow>
                  (update_queue_state (ql_operation_id link) Qu_CANCELLED db, terminal_reaped + 1, stale_reaped)
              | Some op \<Rightarrow>
                  if op_state op \<notin> set TERMINAL_OPERATION_STATES
                  then (let live_lease = (op_lease_expiry_utc_ms op \<noteq> 0 \<and> now_ms < op_lease_expiry_utc_ms op \<and>
                              process_alive E (op_lease_pid op))
                        in if live_lease \<or> now_ms - ql_enqueued_utc_ms link < stale_lease_ms then acc
                           else (update_queue_state (ql_operation_id link) Qu_CANCELLED db,
                                 terminal_reaped, stale_reaped + 1))
                  else (update_queue_state (ql_operation_id link) (terminal_queue_state (op_state op)) db,
                        terminal_reaped + 1, stale_reaped)))"

definition reap_orphaned_queue_links :: "delivery_env \<Rightarrow> int \<Rightarrow> int \<Rightarrow> journal_db \<Rightarrow> int \<times> journal_db" where
  "reap_orphaned_queue_links E now_ms stale_lease_ms db =
     (case fold (reap_link E now_ms stale_lease_ms) (get_queue db) (db, 0, 0) of
        (db, terminal_reaped, stale_reaped) \<Rightarrow> (terminal_reaped + stale_reaped, db))"

definition acceptance_expiry :: "OperationRecord \<Rightarrow> int" where
  "acceptance_expiry op = op_created_utc_ms op + TOMBSTONE_TTL_MS"

definition compact :: "OperationRecord \<Rightarrow> string \<Rightarrow> int \<Rightarrow> journal_db \<Rightarrow> journal_db" where
  "compact op terminal_state expiry_utc_ms db =
     (let findings = join '';'' (map (\<lambda>s. st_effect_id s @ '':'' @ StepState_value (st_state s))
            (filter (\<lambda>s. st_finding_code s \<noteq> []) (get_steps db (op_operation_id op))));
          tombstone = \<lparr> tb_operation_id = op_operation_id op, tb_project_scope = op_project_scope op,
            tb_request_digest = op_request_digest op, tb_terminal_state = terminal_state,
            tb_findings = take MAX_EVIDENCE_REF_CHARS findings, tb_created_utc_ms = op_created_utc_ms op,
            tb_expiry_utc_ms = expiry_utc_ms \<rparr>
      in delete_operation (op_operation_id op) (insert_tombstone tombstone db))"

record maintenance_counts =
  compacted_terminal :: int
  tombstoned_unresolved :: int
  expired_tombstones :: int
  reaped_queue_links :: int

definition maintain_operation ::
  "int \<Rightarrow> OperationRecord \<Rightarrow> journal_db \<times> int \<times> int \<Rightarrow> journal_db \<times> int \<times> int" where
  "maintain_operation now_ms op acc =
     (case acc of (db, compacted, unresolved) \<Rightarrow>
        let horizon = acceptance_expiry op in
        if op_state op \<in> set [Op_SUCCEEDED, Op_FAILED, Op_CANCELLED]
        then (if op_terminal_utc_ms op \<noteq> 0 \<and> now_ms - op_terminal_utc_ms op \<ge> TERMINAL_FULL_RETENTION_MS
              then (compact op (OperationState_value (op_state op)) horizon db, compacted + 1, unresolved)
              else acc)
        else if now_ms - op_created_utc_ms op \<ge> UNRESOLVED_FULL_RETENTION_MS
        then (compact op ''expired_indeterminate'' horizon db, compacted, unresolved + 1)
        else acc)"

definition expire_tombstone :: "int \<Rightarrow> Tombstone \<Rightarrow> journal_db \<times> int \<Rightarrow> journal_db \<times> int" where
  "expire_tombstone now_ms tombstone acc =
     (case acc of (db, expired) \<Rightarrow>
        if now_ms \<ge> tb_expiry_utc_ms tombstone
        then (delete_tombstone (tb_operation_id tombstone) db, expired + 1) else acc)"

definition maintenance_body :: "delivery_env \<Rightarrow> int \<Rightarrow> int \<Rightarrow> maintenance_counts tx" where
  "maintenance_body E now_ms stale_lease_ms db =
     (case fold (maintain_operation now_ms) (iter_operations db) (db, 0, 0) of
        (db, compacted, unresolved) \<Rightarrow>
          (case fold (expire_tombstone now_ms) (iter_tombstones db) (db, 0) of
             (db, expired) \<Rightarrow>
               (case reap_orphaned_queue_links E now_ms stale_lease_ms db of
                  (reaped, db) \<Rightarrow>
                    Inr (\<lparr> compacted_terminal = compacted, tombstoned_unresolved = unresolved,
                       expired_tombstones = expired, reaped_queue_links = reaped \<rparr>, db))))"

definition run_maintenance :: "delivery_env \<Rightarrow> int \<Rightarrow> int \<Rightarrow> maintenance_counts api" where
  "run_maintenance E now_ms stale_lease_ms = immediate (maintenance_body E now_ms stale_lease_ms)"

definition over_hard_caps :: "int \<Rightarrow> journal_db \<Rightarrow> bool" where
  "over_hard_caps store_bytes db \<longleftrightarrow> store_bytes > STORE_MAX_BYTES \<or> count_rows db \<ge> STORE_MAX_ROWS"

definition enforce_reason_bounds :: "string \<Rightarrow> string \<Rightarrow> exn + unit" where
  "enforce_reason_bounds reason evidence_ref =
     (if length reason > MAX_REASON_CHARS then Inl (RequestError ''oversize_reason'')
      else if length evidence_ref > MAX_EVIDENCE_REF_CHARS then Inl (RequestError ''oversize_evidence'')
      else Inr ())"

section \<open>Crash recovery: what it does to the steps\<close>

text \<open>A crashed step that must not be replayed.\<close>

definition crashing :: "StepRecord \<Rightarrow> bool" where
  "crashing s \<longleftrightarrow> st_state s = St_STARTED \<and> st_replay_class s = NON_REPLAYABLE"

definition recovered_db :: "string \<Rightarrow> int \<Rightarrow> journal_db \<Rightarrow> journal_db" where
  "recovered_db k now db =
     fold write_step (map (\<lambda>s. (k, crashed_step now s)) (filter crashing (get_steps db k))) db"

lemma classify_registered:
  "registered_step s \<Longrightarrow>
   classify_restart s =
     Inr (if st_replay_class s = NON_REPLAYABLE then Indeterminate
          else if st_replay_class s = POSTCONDITION_PROVABLE then Prove_then_replay else Replay_safe)"
  by (auto simp: registered_step_def classify_restart_def auto_replayable_descriptor split: sum.splits)

lemma get_operation_fold_write [simp]: "get_operation (fold write_step rs db) k = get_operation db k"
  by (induction rs arbitrary: db) (simp_all add: row_laws)

lemma foldE_recover_step:
  "list_all registered_step steps \<Longrightarrow> get_operation db k \<noteq> None \<Longrightarrow>
   foldE (recover_step k now) steps (db, ind, safe) =
     Inr (fold write_step (map (\<lambda>s. (k, crashed_step now s)) (filter crashing steps)) db,
          ind @ map st_effect_id (filter crashing steps),
          safe @ map st_effect_id (filter (\<lambda>s. st_state s = St_STARTED \<and> \<not> crashing s) steps))"
proof (induction steps arbitrary: db ind safe)
  case Nil
  then show ?case by simp
next
  case (Cons s steps)
  show ?case
  proof (cases "st_state s = St_STARTED")
    case False
    with Cons show ?thesis by (simp add: recover_step_def crashing_def)
  next
    case True
    with Cons show ?thesis
      by (auto simp: recover_step_def crashing_def classify_registered upsert_step_def row_laws)
  qed
qed

lemma wf_registered: "wf_db db \<Longrightarrow> s \<in> set (get_steps db k) \<Longrightarrow> registered_step s \<and> valid_step s"
  by (auto simp: wf_defs set_get_steps list_all_iff)

lemma wf_keys: "wf_db db \<Longrightarrow> keys_ok db"
  by (simp add: wf_db_def)

lemma wf_operation: "wf_db db \<Longrightarrow> get_operation db k = Some op \<Longrightarrow> valid_operation op"
  using get_operation_mem by (fastforce simp: wf_defs list_all_iff)

lemma get_step_recovered:
  assumes "keys_ok db"
  shows "get_step (recovered_db k now db) k' e =
    (if k' = k then map_option (\<lambda>s. if crashing s then crashed_step now s else s) (get_step db k e)
     else get_step db k' e)"
proof -
  let ?rs = "map (\<lambda>s. (k, crashed_step now s)) (filter crashing (get_steps db k))"
  have ids: "map step_key ?rs = map (\<lambda>s. (k, st_effect_id s)) (filter crashing (get_steps db k))"
    by (simp add: step_key_def crashed_step_def)
  have dist: "distinct (map step_key ?rs)"
  proof -
    have "distinct (map st_effect_id (filter crashing (get_steps db k)))"
      using distinct_step_ids [OF assms] by (rule distinct_map_filter)
    then show ?thesis unfolding ids by (auto simp: distinct_map inj_on_def)
  qed
  show ?thesis
  proof (cases "k' = k \<and> (\<exists>s. get_step db k e = Some s \<and> crashing s)")
    case True
    then obtain s where s: "get_step db k e = Some s" "crashing s" "st_effect_id s = e" "k' = k"
      using get_step_mem by blast
    then have "(k, crashed_step now s) \<in> set ?rs"
      using mem_get_steps [OF assms, of s k] by auto
    from steps.lookup_fold [OF dist this, of db]
    have "get_step (recovered_db k now db) k e = Some (crashed_step now s)"
      using s by (auto simp: step_key_def crashed_step_def kept_class_def excluded_columns_def recovered_db_def)
    then show ?thesis using s by simp
  next
    case False
    then have "(k', e) \<notin> step_key ` set ?rs"
      using mem_get_steps [OF assms, of _ k] by (auto simp: step_key_def crashed_step_def)
    from steps.lookup_fold_other [OF this, of db]
    have "get_step (recovered_db k now db) k' e = get_step db k' e"
      by (cases "get_step db k' e"; cases "get_step (recovered_db k now db) k' e")
        (auto simp: recovered_db_def)
    then show ?thesis using False by (cases "get_step db k e") auto
  qed
qed

lemma wf_fold_write:
  "wf_db db \<Longrightarrow> get_operation db k \<noteq> None \<Longrightarrow> list_all (\<lambda>s. valid_step s \<and> registered_step s) ss \<Longrightarrow>
   wf_db (fold write_step (map (Pair k) ss) db)"
  by (induction ss arbitrary: db) (simp_all add: wf_write_step row_laws)

lemma wf_recovered:
  assumes "wf_db db" "get_operation db k \<noteq> None" "0 \<le> now"
  shows "wf_db (recovered_db k now db)"
proof -
  let ?ss = "map (crashed_step now) (filter crashing (get_steps db k))"
  have "list_all (\<lambda>s. valid_step s \<and> registered_step s) ?ss"
    using wf_registered [OF assms(1)] assms(3)
    by (auto simp: list_all_iff crashed_step_def valid_step_def registered_step_iff)
  from wf_fold_write [OF assms(1,2) this] show ?thesis
    by (simp add: recovered_db_def comp_def)
qed

definition recovered_operation :: "string list \<Rightarrow> int \<Rightarrow> OperationRecord \<Rightarrow> OperationRecord" where
  "recovered_operation ind now op =
     op\<lparr>op_state := (if ind \<noteq> [] then Op_INDETERMINATE else op_state op), op_revision := op_revision op + 1,
        op_updated_utc_ms := now, op_lease_owner := [], op_lease_pid := 0, op_lease_expiry_utc_ms := 0\<rparr>"

lemma recovered_operation_id [simp]: "op_operation_id (recovered_operation ind now op) = op_operation_id op"
  by (simp add: recovered_operation_def)

definition crash_recovered_db :: "OperationRecord \<Rightarrow> int \<Rightarrow> RecoveryEvent \<Rightarrow> journal_db \<Rightarrow> journal_db" where
  "crash_recovered_db op now event db =
     (let k = op_operation_id op;
          db1 = replace_operation (recovered_operation (map st_effect_id (filter crashing (get_steps db k))) now op)
                  (recovered_db k now db)
      in db1\<lparr>db_events := db_events db1 @ [event]\<rparr>)"

definition crash_recovered_result :: "OperationRecord \<Rightarrow> journal_db \<Rightarrow> RecoverResult" where
  "crash_recovered_result op db =
     (let steps = get_steps db (op_operation_id op); ind = map st_effect_id (filter crashing steps) in
      (recover_result Rc_OK ''crash_recovered'')\<lparr>rr_operation_id := op_operation_id op,
        rr_revision := op_revision op + 1,
        rr_state := (if ind \<noteq> [] then Op_INDETERMINATE else op_state op),
        rr_replayed_effect_ids :=
          sort (map st_effect_id (filter (\<lambda>s. st_state s = St_STARTED \<and> \<not> crashing s) steps)),
        rr_indeterminate_effect_ids := sort ind\<rparr>)"

definition crash_event :: "OperationRecord \<Rightarrow> int \<Rightarrow> RecoveryEvent" where
  "crash_event op now = \<lparr> ev_operation_id = op_operation_id op, ev_action = Ra_RECONCILE_NOT_APPLIED,
     ev_reason = ''crash_recovery_evaluated'', ev_evidence_ref = [], ev_effect_id = [], ev_decided_utc_ms = now \<rparr>"

lemma valid_crash_event: "0 \<le> now \<Longrightarrow> valid_recovery_event (crash_event op now)"
  by (simp add: crash_event_def valid_recovery_event_def MAX_REASON_CHARS_def MAX_EVIDENCE_REF_CHARS_def)

lemma apply_crash_recovery_eq:
  assumes "wf_db db" and "get_operation db k = Some op"
  shows "apply_crash_recovery_locked op now db =
    Inr (crash_recovered_result op db, crash_recovered_db op now (crash_event op now) db)"
proof -
  have id: "op_operation_id op = k" using assms(2) by (rule get_operation_id)
  have reg: "list_all registered_step (get_steps db k)"
    using wf_registered [OF assms(1)] by (auto simp: list_all_iff)
  have "get_operation db k \<noteq> None" using assms(2) by simp
  then show ?thesis
    unfolding apply_crash_recovery_locked_def id Let_def foldE_recover_step [OF reg \<open>get_operation db k \<noteq> None\<close>]
    using assms(2)
    by (simp add: recovered_db_def recovered_operation_def insert_recovery_event_def row_laws id
        crash_recovered_db_def crash_recovered_result_def crash_event_def Let_def)
qed

lemma crash_recovered_reads:
  assumes "keys_ok db" and "get_operation db k = Some op"
    and db'_def: "db' = crash_recovered_db op now event db"
  shows "get_step db' k' e =
      (if k' = k then map_option (\<lambda>s. if crashing s then crashed_step now s else s) (get_step db k e)
       else get_step db k' e)"
    and "get_operation db' k' =
      (if k' = k then Some (recovered_operation (map st_effect_id (filter crashing (get_steps db k))) now op)
       else get_operation db k')"
    and "get_tombstone db' k' = get_tombstone db k'"
proof -
  have id: "op_operation_id op = k" using assms(2) by (rule get_operation_id)
  have tomb: "get_tombstone (fold write_step rs db) k' = get_tombstone db k'" for rs
    by (induction rs arbitrary: db) (simp_all add: row_laws)
  show "get_step db' k' e =
      (if k' = k then map_option (\<lambda>s. if crashing s then crashed_step now s else s) (get_step db k e)
       else get_step db k' e)"
    by (simp add: db'_def crash_recovered_db_def Let_def row_laws id get_step_recovered [OF assms(1)])
  show "get_operation db' k' =
      (if k' = k then Some (recovered_operation (map st_effect_id (filter crashing (get_steps db k))) now op)
       else get_operation db k')"
    using assms(2)
    by (simp add: db'_def crash_recovered_db_def Let_def row_laws id recovered_db_def recovered_operation_def
        replaced_columns_def)
  show "get_tombstone db' k' = get_tombstone db k'"
    by (simp add: db'_def crash_recovered_db_def Let_def row_laws recovered_db_def tomb)
qed

lemma crashing_ids:
  assumes "keys_ok db"
  shows "set (map st_effect_id (filter crashing (get_steps db k))) =
    {e. \<exists>s. get_step db k e = Some s \<and> st_state s = St_STARTED \<and> st_replay_class s = NON_REPLAYABLE}"
proof (rule set_eqI)
  fix e
  have "e \<in> set (map st_effect_id (filter crashing (get_steps db k))) \<longleftrightarrow>
      (\<exists>s. s \<in> set (get_steps db k) \<and> crashing s \<and> st_effect_id s = e)" by auto
  also have "\<dots> \<longleftrightarrow> (\<exists>s. get_step db k e = Some s \<and> crashing s)"
    using mem_get_steps [OF assms, of _ k] get_step_mem [of db k e] by blast
  finally show "e \<in> set (map st_effect_id (filter crashing (get_steps db k))) \<longleftrightarrow>
      e \<in> {e. \<exists>s. get_step db k e = Some s \<and> st_state s = St_STARTED \<and> st_replay_class s = NON_REPLAYABLE}"
    by (simp add: crashing_def)
qed

lemma wf_crash_recovered:
  assumes "wf_db db" "get_operation db k = Some op" "0 \<le> now"
  shows "wf_db (crash_recovered_db op now (crash_event op now) db)"
proof -
  have id: "op_operation_id op = k" using assms(2) by (rule get_operation_id)
  have "valid_operation (recovered_operation ind now op)" for ind
    using wf_operation [OF assms(1,2)] assms(3) by (simp add: valid_operation_def recovered_operation_def)
  then show ?thesis
    unfolding crash_recovered_db_def Let_def id
    using assms by (intro wf_insert_event wf_replace_operation wf_recovered valid_crash_event)
      (simp_all add: row_laws recovered_db_def crash_event_def id)
qed

section \<open>Reaping and retention\<close>

text \<open>What becomes of one queue link: retired when its operation is gone or terminal, or when it is older
  than the stale window and its operation holds no live lease.\<close>

definition retire_to :: "delivery_env \<Rightarrow> int \<Rightarrow> int \<Rightarrow> journal_db \<Rightarrow> QueueLink \<Rightarrow> QueueState option" where
  "retire_to E now stale db link =
     (if ql_state link \<noteq> Qu_QUEUED then None
      else (case get_operation db (ql_operation_id link) of
              None \<Rightarrow> Some Qu_CANCELLED
            | Some op \<Rightarrow>
                if op_state op \<in> set TERMINAL_OPERATION_STATES then Some (terminal_queue_state (op_state op))
                else if op_lease_expiry_utc_ms op \<noteq> 0 \<and> now < op_lease_expiry_utc_ms op \<and>
                        process_alive E (op_lease_pid op) \<or> now - ql_enqueued_utc_ms link < stale
                then None else Some Qu_CANCELLED))"

definition set_state :: "QueueState option \<Rightarrow> QueueLink \<Rightarrow> QueueLink" where
  "set_state q l = (case q of None \<Rightarrow> l | Some q \<Rightarrow> l\<lparr>ql_state := q\<rparr>)"

lemma retire_to_frames [simp]:
  "retire_to E now stale (db\<lparr>db_queue := qs\<rparr>) l = retire_to E now stale db l"
  "retire_to E now stale db (l\<lparr>ql_position := p\<rparr>) = retire_to E now stale db l"
  by (auto simp: retire_to_def get_operation_def split: option.splits)

lemma reap_link_eq:
  "reap_link E now stale l (db, t, s) =
     (case retire_to E now stale db l of
        None \<Rightarrow> (db, t, s)
      | Some q \<Rightarrow>
          (db\<lparr>db_queue := update_rows ql_operation_id (ql_operation_id l) (\<lambda>l. l\<lparr>ql_state := q\<rparr>) (db_queue db)\<rparr>,
           if (case get_operation db (ql_operation_id l) of
                 None \<Rightarrow> True | Some op \<Rightarrow> op_state op \<in> set TERMINAL_OPERATION_STATES)
           then (t + 1, s) else (t, s + 1)))"
  by (auto simp: reap_link_def retire_to_def update_queue_state_def Let_def split: option.splits)

lemma fold_reap:
  "\<exists>t' s'. fold (reap_link E now stale) links (db\<lparr>db_queue := qs\<rparr>, t, s) =
     (db\<lparr>db_queue := fold (\<lambda>l rows. case map_option (\<lambda>q l. l\<lparr>ql_state := q\<rparr>) (retire_to E now stale db l) of
           None \<Rightarrow> rows | Some h \<Rightarrow> update_rows ql_operation_id (ql_operation_id l) h rows) links qs\<rparr>, t', s') \<and>
     t' + s' = t + s + int (length (filter (\<lambda>l. retire_to E now stale db l \<noteq> None) links))"
proof (induction links arbitrary: qs t s)
  case Nil
  then show ?case by simp
next
  case (Cons l links)
  have frame: "get_operation (db\<lparr>db_queue := q\<rparr>) k = get_operation db k" for q k
    by (simp add: get_operation_def)
  show ?case
  proof (cases "retire_to E now stale db l")
    case None
    then show ?thesis using Cons.IH [of qs t s] by (simp add: reap_link_eq)
  next
    case (Some q)
    let ?qs = "update_rows ql_operation_id (ql_operation_id l) (\<lambda>l. l\<lparr>ql_state := q\<rparr>) qs"
    show ?thesis
      using Some Cons.IH [of ?qs "t + 1" s] Cons.IH [of ?qs t "s + 1"]
      by (auto simp: reap_link_eq frame algebra_simps split: if_splits)
  qed
qed

lemma get_queue_map: "\<exists>ps. length ps = length (db_queue db) \<and>
    get_queue db = map2 (\<lambda>l p. l\<lparr>ql_position := p\<rparr>) (db_queue db) ps"
  by (intro exI [of _ "map int [0..<length (db_queue db)]"])
    (auto simp: get_queue_def intro!: nth_equalityI simp: nth_enumerate_eq)

lemma fold_update_positions:
  assumes "distinct (map ql_operation_id (ps @ rows))" "length ns = length rows"
    and "\<And>l p. g (l\<lparr>ql_position := p\<rparr>) = g l"
  shows "fold (\<lambda>l rows. case map_option (\<lambda>q l. l\<lparr>ql_state := q\<rparr>) (g l) of
           None \<Rightarrow> rows | Some h \<Rightarrow> update_rows ql_operation_id (ql_operation_id l) h rows)
         (map2 (\<lambda>l p. l\<lparr>ql_position := p\<rparr>) rows ns) (ps @ rows) = ps @ map (\<lambda>l. set_state (g l) l) rows"
  using assms(1,2)
proof (induction rows arbitrary: ps ns)
  case Nil
  then show ?case by simp
next
  case (Cons r rows)
  then obtain n ns' where ns: "ns = n # ns'" "length ns' = length rows" by (cases ns) auto
  have fresh: "ql_operation_id r \<notin> ql_operation_id ` set ps" "ql_operation_id r \<notin> ql_operation_id ` set rows"
    using Cons.prems(1) by auto
  have "distinct (map ql_operation_id ((ps @ [set_state (g r) r]) @ rows))"
    using Cons.prems(1) by (simp add: set_state_def split: option.splits)
  from Cons.IH [OF this ns(2)] show ?case
    using fresh by (cases "g r") (simp_all add: ns assms(3) update_rows_append update_rows_fresh set_state_def)
qed

lemma length_filter_positions:
  assumes "\<And>l p. P (l\<lparr>ql_position := p\<rparr>) = P l"
  shows "length ns = length qs \<Longrightarrow>
    length (filter P (map2 (\<lambda>l p. l\<lparr>ql_position := p\<rparr>) qs ns)) = length (filter P qs)"
  using assms by (induction qs arbitrary: ns) (auto simp: length_Suc_conv)

lemma reap_eq:
  assumes "keys_ok db"
  shows "reap_orphaned_queue_links E now stale db =
    (int (length (filter (\<lambda>l. retire_to E now stale db l \<noteq> None) (db_queue db))),
     db\<lparr>db_queue := map (\<lambda>l. set_state (retire_to E now stale db l) l) (db_queue db)\<rparr>)"
proof -
  obtain ns where ns: "length ns = length (db_queue db)"
    and q: "get_queue db = map2 (\<lambda>l p. l\<lparr>ql_position := p\<rparr>) (db_queue db) ns"
    using get_queue_map by blast
  have "distinct (map ql_operation_id ([] @ db_queue db))"
    using assms by (simp add: keys_ok_def unique_key_def)
  note step = fold_update_positions [OF this ns, where g = "retire_to E now stale db"]
  from fold_reap [where E = E and now = now and stale = stale and links = "get_queue db" and db = db
      and qs = "db_queue db" and t = 0 and s = 0]
  show ?thesis
    using step length_filter_positions [OF _ ns, where P = "\<lambda>l. retire_to E now stale db l \<noteq> None"]
    by (auto simp: reap_orphaned_queue_links_def q)
qed

lemma wf_reap:
  assumes "wf_db db"
  shows "wf_db (snd (reap_orphaned_queue_links E now stale db))"
proof -
  let ?f = "\<lambda>l. set_state (retire_to E now stale db l) l"
  have "ql_operation_id (?f l) = ql_operation_id l" "valid_queue_link (?f l) = valid_queue_link l" for l
    by (auto simp: set_state_def valid_queue_link_def split: option.splits)
  then show ?thesis
    using assms unfolding reap_eq [OF wf_keys [OF assms]]
    by (simp add: wf_defs unique_key_def list_all_iff comp_def)
qed

text \<open>An operation is due for compaction.\<close>

definition due :: "int \<Rightarrow> OperationRecord \<Rightarrow> bool" where
  "due now op \<longleftrightarrow>
     (if op_state op \<in> set TERMINAL_OPERATION_STATES
      then op_terminal_utc_ms op \<noteq> 0 \<and> now - op_terminal_utc_ms op \<ge> TERMINAL_FULL_RETENTION_MS
      else now - op_created_utc_ms op \<ge> UNRESOLVED_FULL_RETENTION_MS)"

definition retention_label :: "OperationRecord \<Rightarrow> string" where
  "retention_label op = (if op_state op \<in> set TERMINAL_OPERATION_STATES then OperationState_value (op_state op)
     else ''expired_indeterminate'')"

definition tombstone_of :: "journal_db \<Rightarrow> OperationRecord \<Rightarrow> Tombstone" where
  "tombstone_of db op =
     \<lparr> tb_operation_id = op_operation_id op, tb_project_scope = op_project_scope op,
       tb_request_digest = op_request_digest op, tb_terminal_state = retention_label op,
       tb_findings = take MAX_EVIDENCE_REF_CHARS
         (join '';'' (map (\<lambda>s. st_effect_id s @ '':'' @ StepState_value (st_state s))
            (filter (\<lambda>s. st_finding_code s \<noteq> []) (get_steps db (op_operation_id op))))),
       tb_created_utc_ms = op_created_utc_ms op, tb_expiry_utc_ms = op_created_utc_ms op + TOMBSTONE_TTL_MS \<rparr>"

lemma maintain_operation_eq:
  "maintain_operation now op (db, c, u) =
     (if due now op
      then (delete_operation (op_operation_id op) (insert_tombstone (tombstone_of db op) db),
            if op_state op \<in> set TERMINAL_OPERATION_STATES then (c + 1, u) else (c, u + 1))
      else (db, c, u))"
  by (auto simp: maintain_operation_def due_def Let_def TERMINAL_OPERATION_STATES_def compact_def
      tombstone_of_def retention_label_def acceptance_expiry_def)

lemma get_steps_delete [row_laws]:
  "get_steps (delete_operation k db) k' = (if k' = k then [] else get_steps db k')"
proof -
  have "filter (\<lambda>r. fst r = k') (drop_rows fst k (db_steps db)) =
      (if k' = k then [] else filter (\<lambda>r. fst r = k') (db_steps db))"
    by (auto simp: drop_rows_def filter_empty_conv intro: filter_cong)
  then show ?thesis by (simp add: get_steps_def delete_operation_def)
qed

lemma get_steps_tombstones [row_laws]:
  "get_steps (insert_tombstone t db) k = get_steps db k" "get_steps (delete_tombstone i db) k = get_steps db k"
  by (simp_all add: get_steps_def insert_tombstone_def delete_tombstone_def)

lemma tombstone_of_id [simp]: "tb_operation_id (tombstone_of db op) = op_operation_id op"
  by (simp add: tombstone_of_def)

lemma tombstone_of_cong:
  "get_steps db (op_operation_id op) = get_steps db' (op_operation_id op) \<Longrightarrow> tombstone_of db op = tombstone_of db' op"
  by (simp add: tombstone_of_def)

lemma fold_maintain:
  assumes "fold (maintain_operation now) ops (db, c, u) = (db', c', u')"
    and "distinct (map op_operation_id ops)" and "wf_db db"
    and "\<And>op. op \<in> set ops \<Longrightarrow> get_operation db (op_operation_id op) = Some op"
  shows "wf_db db' \<and>
    (\<forall>k. get_operation db' k =
       (case get_operation db k of None \<Rightarrow> None | Some op \<Rightarrow> if op \<in> set ops \<and> due now op then None else Some op) \<and>
     get_tombstone db' k =
       (case get_operation db k of
          None \<Rightarrow> get_tombstone db k
        | Some op \<Rightarrow> if op \<in> set ops \<and> due now op then Some (tombstone_of db op) else get_tombstone db k) \<and>
     (get_operation db' k \<noteq> None \<longrightarrow> get_steps db' k = get_steps db k))"
  using assms
proof (induction ops arbitrary: db c u)
  case Nil
  then show ?case by (auto split: option.splits)
next
  case (Cons op ops)
  let ?k = "op_operation_id op"
  have op: "get_operation db ?k = Some op" and ids: "?k \<notin> op_operation_id ` set ops" "distinct (map op_operation_id ops)"
    using Cons.prems(2,4) by auto
  have key: "x \<in> set ops \<Longrightarrow> op_operation_id x \<noteq> ?k" for x using ids(1) by (metis image_eqI)
  show ?case
  proof (cases "due now op")
    case False
    with Cons.prems(1) have rest: "fold (maintain_operation now) ops (db, c, u) = (db', c', u')"
      by (simp add: maintain_operation_eq)
    have "op \<in> set ops \<or> x = op \<longleftrightarrow> x = op" if "due now x" for x using key by blast
    with Cons.IH [OF rest ids(2) Cons.prems(3)] Cons.prems(4) False show ?thesis
      by (auto split: option.splits if_splits)
  next
    case True
    let ?db = "delete_operation ?k (insert_tombstone (tombstone_of db op) db)"
    from True Cons.prems(1) obtain c1 u1 where rest: "fold (maintain_operation now) ops (?db, c1, u1) = (db', c', u')"
      by (auto simp: maintain_operation_eq split: if_splits)
    have "valid_tombstone (tombstone_of db op)"
      using wf_operation [OF Cons.prems(3) op]
      by (simp add: valid_tombstone_def tombstone_of_def valid_operation_def TOMBSTONE_TTL_MS_def
          ACCEPTANCE_HORIZON_MS_def)
    then have wf: "wf_db ?db" using wf_tombstone_operation [OF Cons.prems(3), of "tombstone_of db op"] by simp
    have gets: "get_operation ?db (op_operation_id x) = Some x" if "x \<in> set ops" for x
      using Cons.prems(4) [of x] key [OF that] that by (simp add: row_laws)
    have tomb: "tombstone_of ?db x = tombstone_of db x" if "op_operation_id x \<noteq> ?k" for x
      using that by (intro tombstone_of_cong) (simp add: row_laws)
    have ih: "get_operation db' k =
         (case get_operation ?db k of None \<Rightarrow> None | Some op \<Rightarrow> if op \<in> set ops \<and> due now op then None else Some op) \<and>
       get_tombstone db' k =
         (case get_operation ?db k of
            None \<Rightarrow> get_tombstone ?db k
          | Some op \<Rightarrow> if op \<in> set ops \<and> due now op then Some (tombstone_of ?db op) else get_tombstone ?db k) \<and>
       (get_operation db' k \<noteq> None \<longrightarrow> get_steps db' k = get_steps ?db k)" for k
      using Cons.IH [OF rest ids(2) wf gets] by blast
    show ?thesis
    proof (intro conjI allI impI)
      show "wf_db db'" using Cons.IH [OF rest ids(2) wf gets] by blast
      fix k
      show "get_operation db' k = (case get_operation db k of None \<Rightarrow> None
          | Some x \<Rightarrow> if x \<in> set (op # ops) \<and> due now x then None else Some x)"
      proof (cases "k = ?k")
        case True
        then show ?thesis using ih [of k] op \<open>due now op\<close> by (simp add: row_laws)
      next
        case False
        then have "x \<noteq> op" if "get_operation db k = Some x" for x using get_operation_id [OF that] by auto
        then show ?thesis using ih [of k] False by (auto simp: row_laws split: option.splits)
      qed
      show "get_tombstone db' k = (case get_operation db k of None \<Rightarrow> get_tombstone db k
          | Some x \<Rightarrow> if x \<in> set (op # ops) \<and> due now x then Some (tombstone_of db x) else get_tombstone db k)"
      proof (cases "k = ?k")
        case True
        then show ?thesis using ih [of k] op \<open>due now op\<close> by (simp add: row_laws)
      next
        case False
        then have "x \<noteq> op \<and> tombstone_of ?db x = tombstone_of db x" if "get_operation db k = Some x" for x
          using get_operation_id [OF that] tomb by auto
        then show ?thesis using ih [of k] False by (auto simp: row_laws split: option.splits)
      qed
      show "get_steps db' k = get_steps db k" if "get_operation db' k \<noteq> None"
        using ih [of k] that op by (auto simp: row_laws split: if_splits)
    qed
  qed
qed

lemma fold_expire:
  "\<exists>n'. fold (expire_tombstone now) ts (db, n) =
    (fold delete_tombstone (map tb_operation_id (filter (\<lambda>t. tb_expiry_utc_ms t \<le> now) ts)) db, n')"
  by (induction ts arbitrary: db n) (auto simp: expire_tombstone_def)

lemma fold_delete_tombstone:
  "get_operation (fold delete_tombstone ks db) k = get_operation db k"
  "get_steps (fold delete_tombstone ks db) k = get_steps db k"
  "get_tombstone (fold delete_tombstone ks db) k = (if k \<in> set ks then None else get_tombstone db k)"
  "wf_db db \<Longrightarrow> wf_db (fold delete_tombstone ks db)"
  by (induction ks arbitrary: db) (auto simp: row_laws wf_delete_tombstone)

lemma mem_get_tombstone:
  "keys_ok db \<Longrightarrow> t \<in> set (db_tombstones db) \<longleftrightarrow> get_tombstone db (tb_operation_id t) = Some t"
  using find_row_mem [of tb_operation_id "db_tombstones db" t] find_row_Some_D [of tb_operation_id _ "db_tombstones db" t]
  by (auto simp: get_tombstone_def keys_ok_def)

lemma mem_get_operation:
  "keys_ok db \<Longrightarrow> op \<in> set (db_operations db) \<longleftrightarrow> get_operation db (op_operation_id op) = Some op"
  using find_row_mem [of op_operation_id "db_operations db" op] find_row_Some_D [of op_operation_id _ "db_operations db" op]
  by (auto simp: get_operation_def keys_ok_def)

lemma high_water_frames [simp]:
  "db_high_water (write_step r db) = db_high_water db" "db_high_water (replace_operation op db) = db_high_water db"
  "db_high_water (delete_operation k db) = db_high_water db" "db_high_water (insert_tombstone t db) = db_high_water db"
  "db_high_water (delete_tombstone k db) = db_high_water db" "db_high_water (update_queue_state k q db) = db_high_water db"
  by (simp_all add: write_step_def replace_operation_def delete_operation_def insert_tombstone_def
      delete_tombstone_def update_queue_state_def)

lemma high_water_folds:
  "db_high_water (fst (fold (maintain_operation now) ops acc)) = db_high_water (fst acc)"
  "db_high_water (fold delete_tombstone ks db) = db_high_water db"
  "db_high_water (fold write_step rs db) = db_high_water db"
proof -
  have "db_high_water (fst (maintain_operation now op acc)) = db_high_water (fst acc)" for op acc
    by (cases acc) (simp add: maintain_operation_eq)
  then show "db_high_water (fst (fold (maintain_operation now) ops acc)) = db_high_water (fst acc)"
    by (induction ops arbitrary: acc) simp_all
  show "db_high_water (fold delete_tombstone ks db) = db_high_water db"
    by (induction ks arbitrary: db) simp_all
  show "db_high_water (fold write_step rs db) = db_high_water db"
    by (induction rs arbitrary: db) simp_all
qed

definition tombstone_after :: "int \<Rightarrow> journal_db \<Rightarrow> string \<Rightarrow> Tombstone option" where
  "tombstone_after now db k =
     (case (case get_operation db k of
              Some op \<Rightarrow> if due now op then Some (tombstone_of db op) else get_tombstone db k
            | None \<Rightarrow> get_tombstone db k) of
        None \<Rightarrow> None | Some t \<Rightarrow> if tb_expiry_utc_ms t \<le> now then None else Some t)"

lemma maintenance_body_spec:
  assumes wf: "wf_db db"
  shows "\<exists>counts db'. maintenance_body E now stale db = Inr (counts, db') \<and> wf_db db' \<and>
    db_high_water db' = db_high_water db \<and>
    (\<forall>k. get_operation db' k =
       (case get_operation db k of None \<Rightarrow> None | Some op \<Rightarrow> if due now op then None else Some op) \<and>
     get_tombstone db' k = tombstone_after now db k \<and>
     (get_operation db' k \<noteq> None \<longrightarrow> get_steps db' k = get_steps db k))"
proof -
  note keys = wf_keys [OF wf]
  have set_it: "set (iter_operations db) = set (db_operations db)" by (simp add: iter_operations_def)
  have dist: "distinct (map op_operation_id (iter_operations db))"
    using keys by (simp add: keys_ok_def unique_key_def iter_operations_def distinct_map)
  obtain db1 c u where f1: "fold (maintain_operation now) (iter_operations db) (db, 0, 0) = (db1, c, u)"
    by (cases "fold (maintain_operation now) (iter_operations db) (db, 0, 0)")
  have gets: "\<And>op. op \<in> set (iter_operations db) \<Longrightarrow> get_operation db (op_operation_id op) = Some op"
    using mem_get_operation [OF keys] set_it by blast
  note one = fold_maintain [OF f1 dist wf gets]
  have wf1: "wf_db db1" using one by blast
  let ?ts = "map tb_operation_id (filter (\<lambda>t. tb_expiry_utc_ms t \<le> now) (iter_tombstones db1))"
  obtain n where f2: "fold (expire_tombstone now) (iter_tombstones db1) (db1, 0) = (fold delete_tombstone ?ts db1, n)"
    using fold_expire by blast
  let ?db2 = "fold delete_tombstone ?ts db1"
  have wf2: "wf_db ?db2" by (rule fold_delete_tombstone(4) [OF wf1])
  let ?r = "reap_orphaned_queue_links E now stale ?db2"
  have ops: "get_operation (snd ?r) k = get_operation db1 k" "get_steps (snd ?r) k = get_steps db1 k"
    "get_tombstone (snd ?r) k = get_tombstone ?db2 k" for k
    unfolding reap_eq [OF wf_keys [OF wf2]] fold_delete_tombstone(1,2) [of ?ts db1 k, symmetric]
    by (simp_all add: get_operation_def get_steps_def get_tombstone_def)
  have mem: "k \<in> set ?ts \<longleftrightarrow> (\<exists>t. get_tombstone db1 k = Some t \<and> tb_expiry_utc_ms t \<le> now)" for k
    using mem_get_tombstone [OF wf_keys [OF wf1]] find_row_Some_D [of tb_operation_id k "db_tombstones db1"]
    by (auto simp: iter_tombstones_def image_iff get_tombstone_def)
  have here: "op \<in> set (iter_operations db)" if "get_operation db k = Some op" for k op
    using that mem_get_operation [OF keys, of op] get_operation_id [OF that] set_it by simp
  have tomb: "get_tombstone (snd ?r) k = tombstone_after now db k" for k
    unfolding ops fold_delete_tombstone(3) mem tombstone_after_def using one here
    by (auto split: option.splits)
  have hw: "db_high_water (snd ?r) = db_high_water db"
    unfolding reap_eq [OF wf_keys [OF wf2]]
    using high_water_folds(1) [of now "iter_operations db" "(db, 0, 0)"] f1 by (simp add: high_water_folds)
  show ?thesis
  proof (intro exI conjI allI)
    show "maintenance_body E now stale db = Inr (\<lparr> compacted_terminal = c, tombstoned_unresolved = u,
        expired_tombstones = n, reaped_queue_links = fst ?r \<rparr>, snd ?r)"
      by (simp add: maintenance_body_def f1 f2 split: prod.split)
    show "wf_db (snd ?r)" by (rule wf_reap [OF wf2])
    show "db_high_water (snd ?r) = db_high_water db" by (rule hw)
    fix k
    show "get_tombstone (snd ?r) k = tombstone_after now db k" by (rule tomb)
    show "get_operation (snd ?r) k = (case get_operation db k of None \<Rightarrow> None
        | Some op \<Rightarrow> if due now op then None else Some op)"
      unfolding ops using one here by (auto split: option.splits)
    show "get_operation (snd ?r) k \<noteq> None \<longrightarrow> get_steps (snd ?r) k = get_steps db k"
      unfolding ops using one by blast
  qed
qed

section \<open>Takeover\<close>

lemma replace_tables [simp]:
  "db_steps (replace_operation op db) = db_steps db" "db_queue (replace_operation op db) = db_queue db"
  "db_events (replace_operation op db) = db_events db" "db_tombstones (replace_operation op db) = db_tombstones db"
  by (simp_all add: replace_operation_def)

text \<open>What the guard shared by \<^verbatim>\<open>takeover\<close> and \<^verbatim>\<open>resume\<close> lets through.\<close>

definition lease_takeable :: "delivery_env \<Rightarrow> OperationRecord \<Rightarrow> int \<Rightarrow> int \<Rightarrow> bool option \<Rightarrow> int \<Rightarrow> bool" where
  "lease_takeable E op now stale owner_alive self_pid \<longleftrightarrow>
     (if op_lease_expiry_utc_ms op = 0 then stale \<le> now
      else op_lease_expiry_utc_ms op \<le> now \<and> op_lease_expiry_utc_ms op + stale \<le> now) \<and>
     (case owner_alive of
        Some a \<Rightarrow> \<not> a
      | None \<Rightarrow> op_lease_pid op = 0 \<or> op_lease_pid op = self_pid \<or> \<not> process_alive E (op_lease_pid op))"

lemma lease_takeover_refusal_None:
  "lease_takeover_refusal E op now stale owner_alive self_pid = None \<longleftrightarrow>
   lease_takeable E op now stale owner_alive self_pid"
  by (auto simp: lease_takeover_refusal_def lease_takeable_def Let_def split: option.splits)

lemma lease_takeover_refusal_Some:
  "lease_takeover_refusal E op now stale owner_alive self_pid = Some r \<Longrightarrow> rr_status r \<noteq> Rc_OK"
  by (auto simp: lease_takeover_refusal_def fail_recovery_def recover_result_def Let_def split: if_splits)

definition leased :: "OperationRecord \<Rightarrow> string \<Rightarrow> int \<Rightarrow> int \<Rightarrow> int \<Rightarrow> OperationRecord" where
  "leased op owner pid now stale =
     op\<lparr>op_revision := op_revision op + 1, op_updated_utc_ms := now, op_lease_owner := owner,
        op_lease_pid := pid, op_lease_expiry_utc_ms := now + stale\<rparr>"

lemma leased_id [simp]: "op_operation_id (leased op owner pid now stale) = op_operation_id op"
  by (simp add: leased_def)

lemma replaced_leased [simp]: "replaced_columns (leased op owner pid now stale) op = leased op owner pid now stale"
  by (simp add: replaced_columns_def leased_def)

lemma authorize_takeover_cases:
  assumes "get_operation db k = Some op"
  shows "\<exists>r. authorize_takeover_locked E op tok erev reason owner pid now stale alive db =
    Inr (r, if reason \<noteq> [] \<and> length reason \<le> MAX_REASON_CHARS \<and>
               verify_capability (env_sha256 E) tok (op_capability_salt op) (op_capability_hash op) \<and>
               erev = op_revision op \<and> lease_takeable E op now stale alive 0
            then (let db1 = replace_operation (leased op owner pid now stale) db in
              db1\<lparr>db_events := db_events db1 @ [\<lparr> ev_operation_id = k, ev_action = Ra_TAKEOVER_PENDING,
                ev_reason = reason, ev_evidence_ref = [], ev_effect_id = [], ev_decided_utc_ms = now \<rparr>]\<rparr>)
            else db) \<and>
    (rr_status r = Rc_OK \<longleftrightarrow> reason \<noteq> [] \<and> length reason \<le> MAX_REASON_CHARS \<and>
       verify_capability (env_sha256 E) tok (op_capability_salt op) (op_capability_hash op) \<and>
       erev = op_revision op \<and> lease_takeable E op now stale alive 0)"
proof -
  have id: "op_operation_id op = k" using assms by (rule get_operation_id)
  show ?thesis
  proof (cases "lease_takeover_refusal E op now stale alive 0")
    case None
    then show ?thesis
      using assms lease_takeover_refusal_None [of E op now stale alive 0]
      by (auto simp: authorize_takeover_locked_def insert_recovery_event_def row_laws id leased_def
          fail_recovery_def recover_result_def Let_def)
  next
    case (Some r)
    then show ?thesis
      using lease_takeover_refusal_None [of E op now stale alive 0] lease_takeover_refusal_Some [OF Some]
      by (auto simp: authorize_takeover_locked_def fail_recovery_def recover_result_def Let_def)
  qed
qed

section \<open>Properties\<close>

text \<open>C3: Crash recovery of a stored operation always completes; it turns exactly the started
  non-replayable steps of that operation \<open>indeterminate\<close> and leaves every other step, of this and of
  every other operation, as it was; it clears the lease, raises the revision, and the operation becomes
  \<open>indeterminate\<close> exactly when such a step was found. No non-replayable step is left started.\<close>

theorem crash_recovery_classifies:
  assumes "wf_db db" and "get_operation db k = Some op"
  shows "\<exists>r db'. apply_crash_recovery_locked op now db = Inr (r, db') \<and>
    (\<forall>k' e. get_step db' k' e =
       (case get_step db k' e of
          None \<Rightarrow> None
        | Some s \<Rightarrow> Some (if k' = k \<and> st_state s = St_STARTED \<and> st_replay_class s = NON_REPLAYABLE
                          then s\<lparr>st_state := St_INDETERMINATE, st_finding_code := ''crash_nonreplayable'',
                                 st_updated_utc_ms := now\<rparr> else s))) \<and>
    get_operation db' k = Some (op\<lparr>
       op_state := (if \<exists>e s. get_step db k e = Some s \<and> st_state s = St_STARTED \<and>
                            st_replay_class s = NON_REPLAYABLE then Op_INDETERMINATE else op_state op),
       op_revision := op_revision op + 1, op_updated_utc_ms := now, op_lease_owner := [],
       op_lease_pid := 0, op_lease_expiry_utc_ms := 0\<rparr>) \<and>
    rr_status r = Rc_OK \<and> rr_revision r = op_revision op + 1 \<and>
    set (rr_indeterminate_effect_ids r) =
      {e. \<exists>s. get_step db k e = Some s \<and> st_state s = St_STARTED \<and> st_replay_class s = NON_REPLAYABLE}"
proof -
  note keys = wf_keys [OF assms(1)]
  note reads = crash_recovered_reads [OF keys assms(2) refl, where now = now and event = "crash_event op now"]
  have any: "(\<exists>e s. get_step db k e = Some s \<and> st_state s = St_STARTED \<and> st_replay_class s = NON_REPLAYABLE) \<longleftrightarrow>
      map st_effect_id (filter crashing (get_steps db k)) \<noteq> []"
    unfolding set_empty [symmetric] crashing_ids [OF keys] by blast
  have id: "op_operation_id op = k" using assms(2) by (rule get_operation_id)
  show ?thesis
  proof (intro exI [of _ "crash_recovered_result op db"] exI [of _ "crash_recovered_db op now (crash_event op now) db"]
      conjI allI)
    show "apply_crash_recovery_locked op now db =
      Inr (crash_recovered_result op db, crash_recovered_db op now (crash_event op now) db)"
      by (rule apply_crash_recovery_eq [OF assms])
    show "set (rr_indeterminate_effect_ids (crash_recovered_result op db)) =
      {e. \<exists>s. get_step db k e = Some s \<and> st_state s = St_STARTED \<and> st_replay_class s = NON_REPLAYABLE}"
      unfolding crashing_ids [OF keys, symmetric] by (simp add: crash_recovered_result_def Let_def id)
    show "get_operation (crash_recovered_db op now (crash_event op now) db) k = Some (op\<lparr>
       op_state := (if \<exists>e s. get_step db k e = Some s \<and> st_state s = St_STARTED \<and>
                            st_replay_class s = NON_REPLAYABLE then Op_INDETERMINATE else op_state op),
       op_revision := op_revision op + 1, op_updated_utc_ms := now, op_lease_owner := [],
       op_lease_pid := 0, op_lease_expiry_utc_ms := 0\<rparr>)"
      unfolding any reads by (simp only: recovered_operation_def if_True refl)
  qed (auto simp: reads crashing_def crashed_step_def recovered_operation_def any crash_recovered_result_def
      recover_result_def Let_def split: option.splits)
qed


text \<open>C4: A takeover is granted exactly when the reason is non-empty and bounded, the capability verifies,
  the expected revision is the stored one, the lease has been expired for the stale window and its owner is
  dead or unknown. A granted takeover raises the revision and installs the new owner with a fresh lease; a
  refused one changes nothing at all.\<close>

theorem takeover_authorized:
  assumes "get_operation db k = Some op"
  shows "\<exists>r db'. authorize_takeover_locked E op tok erev reason owner pid now stale alive db = Inr (r, db') \<and>
    (rr_status r = Rc_OK \<longleftrightarrow>
       reason \<noteq> [] \<and> length reason \<le> 500 \<and>
       verify_capability (env_sha256 E) tok (op_capability_salt op) (op_capability_hash op) \<and>
       erev = op_revision op \<and>
       (if op_lease_expiry_utc_ms op = 0 then stale \<le> now
        else op_lease_expiry_utc_ms op \<le> now \<and> op_lease_expiry_utc_ms op + stale \<le> now) \<and>
       (case alive of
          Some a \<Rightarrow> \<not> a
        | None \<Rightarrow> op_lease_pid op = 0 \<or> \<not> process_alive E (op_lease_pid op))) \<and>
    (if rr_status r = Rc_OK
     then get_operation db' k = Some (op\<lparr>op_revision := op_revision op + 1, op_updated_utc_ms := now,
            op_lease_owner := owner, op_lease_pid := pid, op_lease_expiry_utc_ms := now + stale\<rparr>) \<and>
          db_steps db' = db_steps db \<and> db_queue db' = db_queue db
     else db' = db)"
proof -
  have id: "op_operation_id op = k" using assms by (rule get_operation_id)
  obtain r where r: "authorize_takeover_locked E op tok erev reason owner pid now stale alive db =
    Inr (r, if reason \<noteq> [] \<and> length reason \<le> MAX_REASON_CHARS \<and>
               verify_capability (env_sha256 E) tok (op_capability_salt op) (op_capability_hash op) \<and>
               erev = op_revision op \<and> lease_takeable E op now stale alive 0
            then (let db1 = replace_operation (leased op owner pid now stale) db in
              db1\<lparr>db_events := db_events db1 @ [\<lparr> ev_operation_id = k, ev_action = Ra_TAKEOVER_PENDING,
                ev_reason = reason, ev_evidence_ref = [], ev_effect_id = [], ev_decided_utc_ms = now \<rparr>]\<rparr>)
            else db)"
    and ok: "rr_status r = Rc_OK \<longleftrightarrow> reason \<noteq> [] \<and> length reason \<le> MAX_REASON_CHARS \<and>
       verify_capability (env_sha256 E) tok (op_capability_salt op) (op_capability_hash op) \<and>
       erev = op_revision op \<and> lease_takeable E op now stale alive 0"
    using authorize_takeover_cases [OF assms] by blast
  show ?thesis
    unfolding r prod.inject sum.inject
  proof (intro exI conjI, rule refl, rule refl)
    show "(rr_status r = Rc_OK) =
      (reason \<noteq> [] \<and> length reason \<le> 500 \<and>
       verify_capability (env_sha256 E) tok (op_capability_salt op) (op_capability_hash op) \<and>
       erev = op_revision op \<and>
       (if op_lease_expiry_utc_ms op = 0 then stale \<le> now
        else op_lease_expiry_utc_ms op \<le> now \<and> op_lease_expiry_utc_ms op + stale \<le> now) \<and>
       (case alive of
          Some a \<Rightarrow> \<not> a
        | None \<Rightarrow> op_lease_pid op = 0 \<or> \<not> process_alive E (op_lease_pid op)))"
      unfolding ok lease_takeable_def MAX_REASON_CHARS_def by (auto split: option.splits)
  qed (use assms ok in \<open>simp add: Let_def row_laws id leased_def replaced_columns_def\<close>)
qed

text \<open>Retention never fails and never loses an identifier before its horizon. An operation is compacted
  exactly when it has been terminal for 30 days or unresolved for 90; a compacted operation leaves a tombstone
  with its own request digest, unless 180 days have already passed since it was claimed, and every other
  operation stays as it was, with all its steps. A tombstone goes exactly at its expiry.\<close>

theorem retention_keeps_identifiers:
  assumes "wf_db db"
  shows "\<exists>counts db'. run_maintenance E now stale db = (Inr counts, db') \<and> wf_db db' \<and>
    (\<forall>k op. get_operation db k = Some op \<longrightarrow>
       (if (if op_state op \<in> {Op_SUCCEEDED, Op_FAILED, Op_CANCELLED}
            then op_terminal_utc_ms op \<noteq> 0 \<and> op_terminal_utc_ms op + 2592000000 \<le> now
            else op_created_utc_ms op + 7776000000 \<le> now)
        then get_operation db' k = None \<and>
             (if op_created_utc_ms op + 15552000000 \<le> now then get_tombstone db' k = None
              else \<exists>t. get_tombstone db' k = Some t \<and> tb_request_digest t = op_request_digest op \<and>
                     tb_expiry_utc_ms t = op_created_utc_ms op + 15552000000)
        else get_operation db' k = Some op \<and> get_steps db' k = get_steps db k)) \<and>
    (\<forall>k. get_operation db k = None \<longrightarrow> get_operation db' k = None \<and>
       get_tombstone db' k =
         (case get_tombstone db k of None \<Rightarrow> None | Some t \<Rightarrow> if tb_expiry_utc_ms t \<le> now then None else Some t))"
proof -
  from maintenance_body_spec [OF assms, of E now stale] obtain counts db'
    where body: "maintenance_body E now stale db = Inr (counts, db')" and wf: "wf_db db'"
      and spec: "\<And>k. get_operation db' k =
         (case get_operation db k of None \<Rightarrow> None | Some op \<Rightarrow> if due now op then None else Some op)"
        "\<And>k. get_tombstone db' k = tombstone_after now db k"
        "\<And>k. get_operation db' k \<noteq> None \<Longrightarrow> get_steps db' k = get_steps db k"
    by blast
  have due: "due now op \<longleftrightarrow>
      (if op_state op \<in> {Op_SUCCEEDED, Op_FAILED, Op_CANCELLED}
       then op_terminal_utc_ms op \<noteq> 0 \<and> op_terminal_utc_ms op + 2592000000 \<le> now
       else op_created_utc_ms op + 7776000000 \<le> now)" for op
    by (auto simp: due_def TERMINAL_OPERATION_STATES_def TERMINAL_FULL_RETENTION_MS_def UNRESOLVED_FULL_RETENTION_MS_def)
  have stone: "tb_request_digest (tombstone_of db op) = op_request_digest op"
    "tb_expiry_utc_ms (tombstone_of db op) = op_created_utc_ms op + 15552000000" for op
    by (simp_all add: tombstone_of_def TOMBSTONE_TTL_MS_def ACCEPTANCE_HORIZON_MS_def)
  show ?thesis
  proof (intro exI conjI allI impI)
    show "run_maintenance E now stale db = (Inr counts, db')"
      by (simp add: run_maintenance_def immediate_def body)
    show "wf_db db'" by (rule wf)
    fix k op assume op: "get_operation db k = Some op"
    show "if (if op_state op \<in> {Op_SUCCEEDED, Op_FAILED, Op_CANCELLED}
            then op_terminal_utc_ms op \<noteq> 0 \<and> op_terminal_utc_ms op + 2592000000 \<le> now
            else op_created_utc_ms op + 7776000000 \<le> now)
        then get_operation db' k = None \<and>
             (if op_created_utc_ms op + 15552000000 \<le> now then get_tombstone db' k = None
              else \<exists>t. get_tombstone db' k = Some t \<and> tb_request_digest t = op_request_digest op \<and>
                     tb_expiry_utc_ms t = op_created_utc_ms op + 15552000000)
        else get_operation db' k = Some op \<and> get_steps db' k = get_steps db k"
      unfolding due [symmetric]
      using spec(1,2,3) [of k] op by (auto simp: tombstone_after_def stone)
  next
    fix k assume none: "get_operation db k = None"
    show "get_operation db' k = None" using spec(1) none by simp
    show "get_tombstone db' k = (case get_tombstone db k of None \<Rightarrow> None
        | Some t \<Rightarrow> if tb_expiry_utc_ms t \<le> now then None else Some t)"
      using spec(2) none by (simp add: tombstone_after_def)
  qed
qed

text \<open>Reaping the deferred queue touches only queue links, keeps their order and number, and changes the
  state of a link only if it is queued and its operation is gone or terminal, or the link is older than the
  stale window and its operation holds no live lease: live deferred work is never dropped. The count returned
  is the number of links retired.\<close>

theorem reap_spares_live_work:
  assumes "keys_ok db"
  shows "\<exists>f. reap_orphaned_queue_links E now stale db =
      (int (length (filter (\<lambda>l. f l \<noteq> l) (db_queue db))), db\<lparr>db_queue := map f (db_queue db)\<rparr>) \<and>
    (\<forall>l. f l = l\<lparr>ql_state := ql_state (f l)\<rparr> \<and>
      (ql_state (f l) \<noteq> ql_state l \<longleftrightarrow> ql_state l = Qu_QUEUED \<and>
         (case get_operation db (ql_operation_id l) of
            None \<Rightarrow> True
          | Some op \<Rightarrow>
              op_state op \<in> {Op_SUCCEEDED, Op_FAILED, Op_CANCELLED} \<or>
              stale \<le> now - ql_enqueued_utc_ms l \<and>
              \<not> (op_lease_expiry_utc_ms op \<noteq> 0 \<and> now < op_lease_expiry_utc_ms op \<and>
                 process_alive E (op_lease_pid op)))))"
proof -
  let ?f = "\<lambda>l. set_state (retire_to E now stale db l) l"
  have same: "?f l = l\<lparr>ql_state := ql_state (?f l)\<rparr>" for l
    by (simp add: set_state_def split: option.split)
  have state: "ql_state (?f l) \<noteq> ql_state l \<longleftrightarrow> retire_to E now stale db l \<noteq> None" for l
    by (auto simp: set_state_def retire_to_def terminal_queue_state_def split: option.splits if_splits)
  then have "?f l \<noteq> l \<longleftrightarrow> retire_to E now stale db l \<noteq> None" for l
    using same by (metis option.simps(4) set_state_def)
  then have "reap_orphaned_queue_links E now stale db =
      (int (length (filter (\<lambda>l. ?f l \<noteq> l) (db_queue db))), db\<lparr>db_queue := map ?f (db_queue db)\<rparr>)"
    by (simp add: reap_eq [OF assms])
  moreover have "retire_to E now stale db l \<noteq> None \<longleftrightarrow> ql_state l = Qu_QUEUED \<and>
         (case get_operation db (ql_operation_id l) of
            None \<Rightarrow> True
          | Some op \<Rightarrow>
              op_state op \<in> {Op_SUCCEEDED, Op_FAILED, Op_CANCELLED} \<or>
              stale \<le> now - ql_enqueued_utc_ms l \<and>
              \<not> (op_lease_expiry_utc_ms op \<noteq> 0 \<and> now < op_lease_expiry_utc_ms op \<and>
                 process_alive E (op_lease_pid op)))" for l
    by (auto simp: retire_to_def TERMINAL_OPERATION_STATES_def split: option.splits)
  ultimately show ?thesis using same state by (intro exI [of _ ?f] conjI allI) simp_all
qed


section \<open>A concrete store\<close>

text \<open>One operation whose process died while the trust increment (\<^verbatim>\<open>D16\<close>, non-replayable) and the
  phase write (\<^verbatim>\<open>S01\<close>) were running, with a queued deferred batch.\<close>

definition example_env :: delivery_env where
  "example_env = \<lparr> env_sha256 = (\<lambda>s. s), env_kill = (\<lambda>_. ProcessLookupError), env_pid = 7,
     env_stale_lease_minutes = 15, env_queue_depth_max = 128, env_mode = ''enforce'',
     env_project_scope = ''scope'' \<rparr>"

definition example_operation :: OperationRecord where
  "example_operation = \<lparr> op_operation_id = ''op'', op_project_scope = ''scope'', op_run_identity = [],
     op_request_digest = ''digest'', op_capability_salt = [], op_capability_hash = ''secret'',
     op_state = Op_RUNNING, op_revision = 3, op_created_utc_ms = 1000, op_updated_utc_ms = 1000,
     op_expiry_utc_ms = 15552001000, op_lease_owner = ''trw_deliver'', op_lease_pid = 41,
     op_lease_expiry_utc_ms = 901000, op_attached_to_operation_id = [], op_terminal_utc_ms = 0,
     op_caller_recoverable = True \<rparr>"

definition example_step :: "string \<Rightarrow> ReplayClass \<Rightarrow> StepState \<Rightarrow> StepRecord" where
  "example_step e c s = \<lparr> st_effect_id = e, st_state = s, st_disposition = Dp_NONE, st_replay_class = c,
     st_attempt = 1, st_proof_ref = [], st_proof_digest = [], st_finding_code = [], st_updated_utc_ms = 1000 \<rparr>"

definition example_link :: QueueLink where
  "example_link = \<lparr> ql_operation_id = ''op'', ql_deferred_digest = ''d'', ql_state = Qu_QUEUED,
     ql_enqueued_utc_ms = 1000, ql_position = 0 \<rparr>"

definition example_db :: journal_db where
  "example_db = \<lparr> db_tables = SCHEMA_tables, db_schema_version = Some ''1'', db_high_water = Some 1000,
     db_operations = [example_operation],
     db_steps = [(''op'', example_step ''S01'' POSTCONDITION_PROVABLE St_STARTED),
                 (''op'', example_step ''D16'' NON_REPLAYABLE St_STARTED)],
     db_queue = [example_link], db_events = [], db_tombstones = [] \<rparr>"

lemma example_get: "get_operation example_db ''op'' = Some example_operation"
  by (simp add: get_operation_def example_db_def example_operation_def)

lemma example_registered:
  "registered_step (example_step ''S01'' POSTCONDITION_PROVABLE s)"
  "registered_step (example_step ''D16'' NON_REPLAYABLE s)"
  by (simp_all add: registered_step_def get_descriptor_eq CENSUS_def example_step_def)

lemma example_valid: "valid_step (example_step e c s)"
  by (simp add: valid_step_def example_step_def)

lemma example_tables:
  "db_operations example_db = [example_operation]" "db_queue example_db = [example_link]"
  "db_events example_db = []" "db_tombstones example_db = []"
  "db_steps example_db = [(''op'', example_step ''S01'' POSTCONDITION_PROVABLE St_STARTED),
                          (''op'', example_step ''D16'' NON_REPLAYABLE St_STARTED)]"
  by (simp_all add: example_db_def)

lemma example_ids: "op_operation_id example_operation = ''op''" "ql_operation_id example_link = ''op''"
    "st_effect_id (example_step e c s) = e"
  by (simp_all add: example_operation_def example_link_def example_step_def)

lemma example_wf: "wf_db example_db"
proof -
  have "valid_operation example_operation" "valid_queue_link example_link"
    by (simp_all add: example_operation_def example_link_def valid_operation_def valid_queue_link_def)
  then show ?thesis
    by (simp add: wf_defs unique_key_def op_ids_def example_tables example_ids example_registered example_valid
        step_key_def)
qed

theorem crash_recovery_classifies_witness:
  "\<exists>r db'. apply_crash_recovery_locked example_operation 2000 example_db = Inr (r, db') \<and>
     map_option st_state (get_step db' ''op'' ''D16'') = Some St_INDETERMINATE \<and>
     map_option st_state (get_step db' ''op'' ''S01'') = Some St_STARTED"
proof -
  have "get_step example_db ''op'' ''D16'' = Some (example_step ''D16'' NON_REPLAYABLE St_STARTED)"
    "get_step example_db ''op'' ''S01'' = Some (example_step ''S01'' POSTCONDITION_PROVABLE St_STARTED)"
    by (simp_all add: get_step_def example_db_def step_key_def example_step_def)
  then show ?thesis
    using crash_recovery_classifies [OF example_wf example_get, of 2000]
    by (elim exE conjE) (intro exI conjI, assumption, simp_all add: example_step_def)
qed

theorem takeover_authorized_witness:
  "\<exists>r db'. authorize_takeover_locked example_env example_operation ''secret'' 3 ''crashed'' ''me'' 9 2000000 900000
       None example_db = Inr (r, db') \<and> rr_status r = Rc_OK"
  using takeover_authorized [OF example_get, of example_env "''secret''" 3 "''crashed''" "''me''" 9 2000000 900000 None]
  by (elim exE conjE) (intro exI conjI, assumption,
      simp add: example_operation_def example_env_def verify_capability_def salted_hash_def process_alive_def)

theorem retention_keeps_identifiers_witness:
  "\<exists>counts db'. run_maintenance example_env 7776001000 900000 example_db = (Inr counts, db') \<and>
     get_operation db' ''op'' = None \<and> get_tombstone db' ''op'' \<noteq> None"
proof -
  obtain counts db' where run: "run_maintenance example_env 7776001000 900000 example_db = (Inr counts, db')"
    and spec: "\<And>k op. get_operation example_db k = Some op \<longrightarrow>
       (if (if op_state op \<in> {Op_SUCCEEDED, Op_FAILED, Op_CANCELLED}
            then op_terminal_utc_ms op \<noteq> 0 \<and> op_terminal_utc_ms op + 2592000000 \<le> 7776001000
            else op_created_utc_ms op + 7776000000 \<le> 7776001000)
        then get_operation db' k = None \<and>
             (if op_created_utc_ms op + 15552000000 \<le> 7776001000 then get_tombstone db' k = None
              else \<exists>t. get_tombstone db' k = Some t \<and> tb_request_digest t = op_request_digest op \<and>
                     tb_expiry_utc_ms t = op_created_utc_ms op + 15552000000)
        else get_operation db' k = Some op \<and> get_steps db' k = get_steps example_db k)"
    using retention_keeps_identifiers [OF example_wf, of example_env 7776001000 900000] by blast
  have "op_state example_operation = Op_RUNNING" "op_created_utc_ms example_operation = 1000"
    by (simp_all add: example_operation_def)
  then show ?thesis using run spec [of "''op''" example_operation] example_get by auto
qed

theorem reap_spares_live_work_witness:
  "\<exists>f. reap_orphaned_queue_links example_env 2000 900000 example_db =
      (int (length (filter (\<lambda>l. f l \<noteq> l) (db_queue example_db))), example_db\<lparr>db_queue := map f (db_queue example_db)\<rparr>) \<and>
     ql_state (f example_link) = Qu_QUEUED"
proof -
  have "keys_ok example_db" using example_wf by (rule wf_keys)
  from reap_spares_live_work [OF this, of example_env 2000 900000] obtain f where
    "reap_orphaned_queue_links example_env 2000 900000 example_db =
      (int (length (filter (\<lambda>l. f l \<noteq> l) (db_queue example_db))), example_db\<lparr>db_queue := map f (db_queue example_db)\<rparr>)"
    and f: "\<And>l. f l = l\<lparr>ql_state := ql_state (f l)\<rparr> \<and>
      (ql_state (f l) \<noteq> ql_state l \<longleftrightarrow> ql_state l = Qu_QUEUED \<and>
         (case get_operation example_db (ql_operation_id l) of
            None \<Rightarrow> True
          | Some op \<Rightarrow>
              op_state op \<in> {Op_SUCCEEDED, Op_FAILED, Op_CANCELLED} \<or>
              900000 \<le> 2000 - ql_enqueued_utc_ms l \<and>
              \<not> (op_lease_expiry_utc_ms op \<noteq> 0 \<and> 2000 < op_lease_expiry_utc_ms op \<and>
                 process_alive example_env (op_lease_pid op))))" by blast
  moreover have "ql_state example_link = Qu_QUEUED" "op_state example_operation = Op_RUNNING"
    "ql_enqueued_utc_ms example_link = 1000"
    by (simp_all add: example_link_def example_operation_def)
  then have "ql_state (f example_link) = ql_state example_link"
    using f [of example_link] example_get by (simp add: example_ids)
  ultimately show ?thesis using \<open>ql_state example_link = Qu_QUEUED\<close> by auto
qed

end
