(* ===== verification/Delivery_Claim.thy ===== *)
theory Delivery_Claim
  imports Delivery_Recovery
begin

text \<open>
  The claim (\<^verbatim>\<open>trw_mcp/tools/_delivery_claim.py\<close>, \<^verbatim>\<open>DeliveryCoordinator.claim\<close> of
  \<^verbatim>\<open>_delivery_operations.py\<close>): one delivery identifier is bound to one canonical request before any
  effect. Retention runs first, in a transaction of its own.
\<close>

definition stale_lease_ms :: "delivery_env \<Rightarrow> int" where
  "stale_lease_ms E = env_stale_lease_minutes E * 60 * 1000"

definition lease_valid :: "delivery_env \<Rightarrow> OperationRecord \<Rightarrow> int \<Rightarrow> bool" where
  "lease_valid E op now_ms \<longleftrightarrow>
     op_lease_expiry_utc_ms op \<noteq> 0 \<and> now_ms < op_lease_expiry_utc_ms op \<and> process_alive E (op_lease_pid op)"

definition claim_result :: "ClaimStatus \<Rightarrow> string \<Rightarrow> ClaimResult" where
  "claim_result status reason_code =
     \<lparr> cr_status = status, cr_reason_code = reason_code, cr_operation_id = [], cr_revision = 0,
       cr_state = Op_PENDING, cr_effect_calls = 0 \<rparr>"

definition commit_claim ::
  "delivery_env \<Rightarrow> string \<Rightarrow> string \<Rightarrow> string \<Rightarrow> string \<Rightarrow> string \<Rightarrow> int \<Rightarrow> int \<Rightarrow> int \<Rightarrow> string
     \<Rightarrow> ClaimResult tx" where
  "commit_claim E delivery_id capability_token request_digest run_id owner pid effective_now
       store_bytes fresh db0 =
     (let db = advance_high_water effective_now db0 in
      case get_operation db delivery_id of
        Some existing \<Rightarrow>
          if op_request_digest existing = request_digest \<and>
             verify_capability (env_sha256 E) capability_token (op_capability_salt existing)
               (op_capability_hash existing)
          then Inr ((claim_result Cl_EXISTING ''idempotent_same_request'')\<lparr>
                 cr_operation_id := op_operation_id existing, cr_revision := op_revision existing,
                 cr_state := op_state existing\<rparr>, db)
          else Inr (claim_result Cl_CONFLICT ''delivery_request_conflict'', db)
      | None \<Rightarrow>
          (case get_tombstone db delivery_id of
             Some tombstone \<Rightarrow>
               (let same = (tb_request_digest tombstone = request_digest) in
                Inr ((claim_result (if same then Cl_EXISTING else Cl_CONFLICT)
                       (if same then ''tombstoned_terminal'' else ''delivery_request_conflict''))\<lparr>
                     cr_operation_id := delivery_id\<rparr>, db))
           | None \<Rightarrow>
               if over_hard_caps store_bytes db
               then Inr (claim_result Cl_STORE_FULL ''delivery_store_full'', db)
               else bindE (hash_capability (env_sha256 E) fresh capability_token None) (\<lambda>(salt, cap_hash).
                 let op = \<lparr> op_operation_id = delivery_id, op_project_scope = env_project_scope E,
                       op_run_identity = run_id, op_request_digest = request_digest,
                       op_capability_salt = salt, op_capability_hash = cap_hash, op_state = Op_PENDING,
                       op_revision = 1, op_created_utc_ms = effective_now,
                       op_updated_utc_ms = effective_now,
                       op_expiry_utc_ms = effective_now + TOMBSTONE_TTL_MS, op_lease_owner = owner,
                       op_lease_pid = pid,
                       op_lease_expiry_utc_ms = (if owner \<noteq> [] then effective_now + stale_lease_ms E else 0),
                       op_attached_to_operation_id = [], op_terminal_utc_ms = 0,
                       op_caller_recoverable = True \<rparr>
                 in bindE (insert_operation op db) (\<lambda>db.
                      Inr ((claim_result Cl_CLAIMED ''claimed'')\<lparr>cr_operation_id := delivery_id,
                          cr_revision := 1, cr_state := Op_PENDING\<rparr>, db)))))"

text \<open>The bound request of a claim, and the whole claim.\<close>

record claim_request =
  cl_delivery_id :: string
  cl_capability_token :: string
  cl_run_identity :: "string option"
  cl_skip_reflect :: bool
  cl_skip_index_sync :: bool
  cl_allow_unverified :: bool
  cl_acceptable_failure_digest :: string
  cl_owner :: string
  cl_pid :: int

definition checked_request :: "delivery_env \<Rightarrow> claim_request \<Rightarrow> int \<Rightarrow> exn + CanonicalRequest" where
  "checked_request E c effective_now =
     bindE (validate_delivery_id (cl_delivery_id c) effective_now) (\<lambda>_.
     bindE (validate_capability_strength (cl_capability_token c)) (\<lambda>_.
       build_canonical_request (env_project_scope E) (cl_run_identity c) (cl_skip_reflect c)
         (cl_skip_index_sync c) (cl_allow_unverified c) (cl_acceptable_failure_digest c)))"

definition claim :: "delivery_env \<Rightarrow> claim_request \<Rightarrow> int \<Rightarrow> int \<Rightarrow> string \<Rightarrow> ClaimResult api" where
  "claim E c now store_bytes fresh = with_connection (\<lambda>db.
     let effective_now = max now (get_high_water db) in
     case checked_request E c effective_now of
       Inl (RequestError code) \<Rightarrow> (Inr (claim_result Cl_REJECTED code), db)
     | Inl e \<Rightarrow> (Inl e, db)
     | Inr request \<Rightarrow>
         then_api (run_maintenance E effective_now (stale_lease_ms E)) (\<lambda>_.
           immediate (commit_claim E (cl_delivery_id c) (cl_capability_token c)
             (digest (env_sha256 E) request) (rq_run_identity request) (cl_owner c) (cl_pid c)
             effective_now store_bytes fresh)) db)"

section \<open>Lemmas\<close>

lemma high_water_advance [simp]: "db_high_water (advance_high_water n db) = Some (max (get_high_water db) n)"
  by (simp add: advance_high_water_def Let_def)

lemma advance_high_water_tables [simp]:
  "db_operations (advance_high_water n db) = db_operations db" "db_steps (advance_high_water n db) = db_steps db"
  "db_queue (advance_high_water n db) = db_queue db" "db_events (advance_high_water n db) = db_events db"
  "db_tombstones (advance_high_water n db) = db_tombstones db"
  by (simp_all add: advance_high_water_def Let_def)

text \<open>The row a claim inserts.\<close>

definition claimed_operation ::
  "delivery_env \<Rightarrow> string \<Rightarrow> string \<Rightarrow> string \<Rightarrow> string \<Rightarrow> string \<Rightarrow> int \<Rightarrow> int \<Rightarrow> string \<Rightarrow> OperationRecord" where
  "claimed_operation E delivery_id capability_token request_digest run_id owner pid now fresh =
     \<lparr> op_operation_id = delivery_id, op_project_scope = env_project_scope E, op_run_identity = run_id,
       op_request_digest = request_digest, op_capability_salt = bytes_hex fresh,
       op_capability_hash = env_sha256 E (fresh @ capability_token), op_state = Op_PENDING, op_revision = 1,
       op_created_utc_ms = now, op_updated_utc_ms = now, op_expiry_utc_ms = now + TOMBSTONE_TTL_MS,
       op_lease_owner = owner, op_lease_pid = pid,
       op_lease_expiry_utc_ms = (if owner \<noteq> [] then now + stale_lease_ms E else 0),
       op_attached_to_operation_id = [], op_terminal_utc_ms = 0, op_caller_recoverable = True \<rparr>"

lemma commit_claim_cases:
  "commit_claim E k tok d rid owner pid now sb fresh db =
     (let db1 = advance_high_water now db in
      case get_operation db k of
        Some op \<Rightarrow>
          if op_request_digest op = d \<and>
             verify_capability (env_sha256 E) tok (op_capability_salt op) (op_capability_hash op)
          then Inr ((claim_result Cl_EXISTING ''idempotent_same_request'')\<lparr>cr_operation_id := k,
                 cr_revision := op_revision op, cr_state := op_state op\<rparr>, db1)
          else Inr (claim_result Cl_CONFLICT ''delivery_request_conflict'', db1)
      | None \<Rightarrow>
          (case get_tombstone db k of
             Some t \<Rightarrow>
               if tb_request_digest t = d
               then Inr ((claim_result Cl_EXISTING ''tombstoned_terminal'')\<lparr>cr_operation_id := k\<rparr>, db1)
               else Inr ((claim_result Cl_CONFLICT ''delivery_request_conflict'')\<lparr>cr_operation_id := k\<rparr>, db1)
           | None \<Rightarrow>
               if over_hard_caps sb db1 then Inr (claim_result Cl_STORE_FULL ''delivery_store_full'', db1)
               else if length tok < 16 then Inl (RequestError ''weak_capability'')
               else Inr ((claim_result Cl_CLAIMED ''claimed'')\<lparr>cr_operation_id := k, cr_revision := 1\<rparr>,
                      db1\<lparr>db_operations :=
                        db_operations db1 @ [claimed_operation E k tok d rid owner pid now fresh]\<rparr>)))"
proof (cases "get_operation db k")
  case (Some op)
  then show ?thesis
    using get_operation_id [OF Some] by (simp add: commit_claim_def Let_def row_laws)
next
  case None
  show ?thesis
  proof (cases "get_tombstone db k")
    case None
    then show ?thesis
      using \<open>get_operation db k = None\<close>
      by (simp add: commit_claim_def Let_def row_laws hash_capability_def validate_capability_strength_def
          MIN_CAPABILITY_BYTES_def insert_operation_def claimed_operation_def salted_hash_def claim_result_def)
  next
    case (Some t)
    then show ?thesis
      using \<open>get_operation db k = None\<close> by (simp add: commit_claim_def Let_def row_laws)
  qed
qed

lemma valid_claimed_operation: "0 \<le> now \<Longrightarrow> valid_operation (claimed_operation E k tok d rid owner pid now fresh)"
  by (simp add: valid_operation_def claimed_operation_def TOMBSTONE_TTL_MS_def ACCEPTANCE_HORIZON_MS_def)

lemma claimed_operation_id [simp]: "op_operation_id (claimed_operation E k tok d rid owner pid now fresh) = k"
  by (simp add: claimed_operation_def)

lemma wf_commit_claim:
  assumes "commit_claim E k tok d rid owner pid now sb fresh db = Inr (r, db')" "wf_db db" "0 \<le> now"
  shows "wf_db db'"
proof -
  let ?op = "claimed_operation E k tok d rid owner pid now fresh"
  have wf1: "wf_db (advance_high_water now db)" by (rule wf_advance_high_water [OF assms(2)])
  have "wf_db ((advance_high_water now db)\<lparr>db_operations := db_operations (advance_high_water now db) @ [?op]\<rparr>)"
    if "get_operation db k = None" "get_tombstone db k = None"
    using that wf1 valid_claimed_operation [OF assms(3)]
    by - (rule wf_insert_operation [of ?op "advance_high_water now db"],
      simp_all add: insert_operation_def row_laws)
  with assms(1) wf1 show ?thesis
    unfolding commit_claim_cases by (auto simp: Let_def split: option.splits if_splits)
qed

text \<open>What a claim sees once retention has run.\<close>

definition after_retention :: "int \<Rightarrow> journal_db \<Rightarrow> string \<Rightarrow> OperationRecord option" where
  "after_retention now db k =
     (case get_operation db k of None \<Rightarrow> None | Some op \<Rightarrow> if due now op then None else Some op)"

lemma run_maintenance_spec:
  assumes "wf_db db"
  obtains counts db1 where "run_maintenance E now stale db = (Inr counts, db1)" "wf_db db1"
    "db_high_water db1 = db_high_water db"
    "\<And>k. get_operation db1 k = after_retention now db k" "\<And>k. get_tombstone db1 k = tombstone_after now db k"
proof -
  from maintenance_body_spec [OF assms, of E now stale] obtain counts db1
    where body: "maintenance_body E now stale db = Inr (counts, db1)" and wf: "wf_db db1"
      and hw: "db_high_water db1 = db_high_water db"
      and spec: "\<And>k. get_operation db1 k = after_retention now db k"
        "\<And>k. get_tombstone db1 k = tombstone_after now db k"
    unfolding after_retention_def by blast
  show ?thesis
    by (rule that [OF _ wf hw spec]) (simp add: run_maintenance_def immediate_def body)
qed

lemma checked_request_error:
  "checked_request E c now = Inl e \<Longrightarrow> \<exists>code. e = RequestError code"
proof -
  have v: "validate_delivery_id d n = Inl x \<Longrightarrow> \<exists>code. x = RequestError code" for d n x
    by (auto simp: validate_delivery_id_def Let_def split: if_splits option.splits)
  have s: "validate_capability_strength u = Inl x \<Longrightarrow> \<exists>code. x = RequestError code" for u x
    by (auto simp: validate_capability_strength_def split: if_splits)
  have r: "normalize_run_identity i = Inl x \<Longrightarrow> \<exists>code. x = RequestError code" for i x
    by (auto simp: normalize_run_identity_def Let_def split: if_splits option.splits list.splits)
  have b: "build_canonical_request a1 a2 a3 a4 a5 a6 = Inl x \<Longrightarrow> \<exists>code. x = RequestError code" for a1 a2 a3 a4 a5 a6 x
    using r by (cases "normalize_run_identity a2") (auto simp: build_canonical_request_def Let_def split: if_splits)
  assume err: "checked_request E c now = Inl e"
  show ?thesis
  proof (cases "validate_delivery_id (cl_delivery_id c) now")
    case (Inl x)
    then show ?thesis using err v by (simp add: checked_request_def)
  next
    case (Inr n)
    then show ?thesis
      using err s b by (cases "validate_capability_strength (cl_capability_token c)") (simp_all add: checked_request_def)
  qed
qed

lemma checked_request_strong: "checked_request E c now = Inr request \<Longrightarrow> 16 \<le> length (cl_capability_token c)"
  by (auto simp: checked_request_def validate_capability_strength_def MIN_CAPABILITY_BYTES_def split: if_splits)

text \<open>A claim on an open store, step by step.\<close>

lemma claim_unfold:
  assumes "initialize_schema_locked db = Inr (created, db0)" "wf_db db0"
  shows "claim E c now sb fresh db =
    (case checked_request E c (max now (get_high_water db0)) of
       Inl (RequestError code) \<Rightarrow> (Inr (claim_result Cl_REJECTED code), db0)
     | Inl e \<Rightarrow> (Inl e, db0)
     | Inr request \<Rightarrow>
         immediate (commit_claim E (cl_delivery_id c) (cl_capability_token c) (digest (env_sha256 E) request)
             (rq_run_identity request) (cl_owner c) (cl_pid c) (max now (get_high_water db0)) sb fresh)
           (snd (run_maintenance E (max now (get_high_water db0)) (stale_lease_ms E) db0)))"
proof -
  obtain counts db1 where m: "run_maintenance E (max now (get_high_water db0)) (stale_lease_ms E) db0 = (Inr counts, db1)"
    using run_maintenance_spec [OF assms(2)] by metis
  then show ?thesis
    using assms(1) by (auto simp: claim_def with_connection_def Let_def then_api_def split: sum.splits exn.splits)
qed

lemma wf_claim:
  assumes "wf_db db" "0 \<le> now"
  shows "wf_db (snd (claim E c now sb fresh db))"
proof (cases "initialize_schema_locked db")
  case (Inl e)
  with assms show ?thesis by (simp add: claim_def with_connection_def)
next
  case (Inr r)
  then obtain created db0 where init: "initialize_schema_locked db = Inr (created, db0)" by (cases r) auto
  have wf0: "wf_db db0" using wf_initialize [OF init] assms(1) by simp
  obtain counts db1 where m: "run_maintenance E (max now (get_high_water db0)) (stale_lease_ms E) db0 = (Inr counts, db1)"
    and wf1: "wf_db db1" using run_maintenance_spec [OF wf0] by metis
  have "wf_db (snd (immediate (commit_claim E k tok d rid owner pid (max now (get_high_water db0)) sb fresh) db1))"
    for k tok d rid owner pid
    using wf1 assms(2) by (intro wf_immediate) (auto dest: wf_commit_claim)
  then show ?thesis
    unfolding claim_unfold [OF init wf0] using wf0 by (simp add: m split: sum.split exn.split)
qed

section \<open>Properties\<close>

text \<open>Once an identifier is claimed, every later claim of it performs no effect and writes nothing but
  the high-water mark: it follows the existing operation exactly when it carries the same request digest and a
  token with the same salted hash, and is a conflict otherwise.\<close>

theorem claim_binds_request:
  assumes "commit_claim E k tok d rid owner pid now sb fresh db = Inr (r, db1)" and "cr_status r = Cl_CLAIMED"
  shows "\<exists>r'. commit_claim E k tok' d' rid' owner' pid' now' sb' fresh' db1 = Inr (r', advance_high_water now' db1) \<and>
    cr_effect_calls r' = 0 \<and>
    cr_status r' = (if d' = d \<and> env_sha256 E (fresh @ tok') = env_sha256 E (fresh @ tok)
                    then Cl_EXISTING else Cl_CONFLICT) \<and>
    (cr_status r' = Cl_EXISTING \<longrightarrow> cr_operation_id r' = k \<and> cr_revision r' = 1 \<and> cr_state r' = Op_PENDING)"
proof -
  let ?op = "claimed_operation E k tok d rid owner pid now fresh"
  from assms have none: "get_operation db k = None"
    and db1: "db1 = (advance_high_water now db)\<lparr>db_operations :=
        db_operations (advance_high_water now db) @ [?op]\<rparr>"
    unfolding commit_claim_cases by (auto simp: Let_def claim_result_def split: option.splits if_splits)
  have "get_operation db1 k = Some ?op"
    using none by (simp add: db1 get_operation_def find_row_append)
  then show ?thesis
    by (auto simp: commit_claim_cases Let_def claimed_operation_def verify_capability_def fromhex_bytes_hex
        salted_hash_def claim_result_def)
qed

text \<open>A claim on a well-formed store either inserts exactly one operation (status \<open>claimed\<close>: pending,
  revision 1, bound to the digest of the validated request, stored under the salted hash and never the token),
  which happens only if no operation and no tombstone of that identifier is left by retention and the store is
  under its caps, or inserts none. Every other operation is as retention leaves it, and no claim ever reports
  an effect.\<close>

theorem claim_inserts_once:
  assumes "wf_db db" and "initialize_schema_locked db = Inr (created, db0)"
  shows "let k = cl_delivery_id c; eff = max now (get_high_water db); d = digest (env_sha256 E) in
    case claim E c now sb fresh db of
      (Inl e, db') \<Rightarrow> False
    | (Inr r, db') \<Rightarrow> cr_effect_calls r = 0 \<and>
      (if cr_status r = Cl_CLAIMED
       then (\<exists>request. checked_request E c eff = Inr request \<and>
              after_retention eff db k = None \<and> tombstone_after eff db k = None \<and> sb \<le> STORE_MAX_BYTES \<and>
              (\<forall>k'. get_operation db' k' =
                 (if k' = k
                  then Some (claimed_operation E k (cl_capability_token c) (d request)
                         (rq_run_identity request) (cl_owner c) (cl_pid c) eff fresh)
                  else after_retention eff db k')))
       else \<forall>k'. get_operation db' k' =
              (if cr_status r = Cl_REJECTED then get_operation db k' else after_retention eff db k'))"
proof -
  have wf0: "wf_db db0" using wf_initialize [OF assms(2)] assms(1) by simp
  note init = initialize_schema_D [OF assms(2)]
  have frame: "get_operation db0 = get_operation db" "get_tombstone db0 = get_tombstone db"
    "get_high_water db0 = get_high_water db" "get_steps db0 = get_steps db"
    using init by (simp_all add: fun_eq_iff get_operation_def get_tombstone_def get_high_water_def get_steps_def)
  let ?eff = "max now (get_high_water db)"
  have ar: "after_retention ?eff db0 k' = after_retention ?eff db k'" for k' by (simp add: after_retention_def frame)
  have ta: "tombstone_after ?eff db0 k' = tombstone_after ?eff db k'" for k'
  proof -
    have tof: "tombstone_of db0 = tombstone_of db" by (rule ext, rule tombstone_of_cong) (simp add: frame)
    show ?thesis unfolding tombstone_after_def frame tof ..
  qed
  obtain counts db1 where m: "run_maintenance E ?eff (stale_lease_ms E) db0 = (Inr counts, db1)"
    and ops: "\<And>k. get_operation db1 k = after_retention ?eff db0 k"
    and tomb: "\<And>k. get_tombstone db1 k = tombstone_after ?eff db0 k"
    using run_maintenance_spec [OF wf0] by metis
  have ins: "get_operation ((advance_high_water n db1)\<lparr>db_operations := db_operations db1 @ [x]\<rparr>) k' =
      (case get_operation db1 k' of Some y \<Rightarrow> Some y
       | None \<Rightarrow> if op_operation_id x = k' then Some x else None)" for n x k'
    by (simp add: get_operation_def find_row_append split: option.split)
  show ?thesis
  proof (cases "checked_request E c ?eff")
    case (Inl e)
    from checked_request_error [OF this] obtain code where e: "e = RequestError code" by blast
    show ?thesis
      unfolding claim_unfold [OF assms(2) wf0] frame Inl e by (simp add: claim_result_def frame)
  next
    case (Inr request)
    have strong: "\<not> length (cl_capability_token c) < 16" using checked_request_strong [OF Inr] by simp
    show ?thesis
      unfolding claim_unfold [OF assms(2) wf0] frame
      using strong
      by (simp add: Inr m immediate_def commit_claim_cases Let_def claim_result_def ops tomb ar ta
          over_hard_caps_def row_laws ins split: option.split)
  qed
qed

text \<open>A tombstone does not keep its identifier for as long as the identifier is accepted. It expires
  180 days after the claim, and the next claim deletes it; but an identifier is refused only when it is more
  than 180 days behind the clock, and its timestamp may be up to five minutes ahead of the claim. In that
  window a claim under the old identifier, even for a different request, starts a new operation.\<close>

theorem tombstoned_identifier_reclaimed:
  assumes "wf_db db" and "initialize_schema_locked db = Inr (created, db)"
    and "get_tombstone db (cl_delivery_id c) = Some t" and "tb_expiry_utc_ms t \<le> now"
    and "get_high_water db \<le> now" and "checked_request E c now = Inr request"
    and "\<not> over_hard_caps sb (snd (run_maintenance E now (stale_lease_ms E) db))"
  shows "\<exists>r db'. claim E c now sb fresh db = (Inr r, db') \<and> cr_status r = Cl_CLAIMED \<and>
    (\<exists>op. get_operation db' (cl_delivery_id c) = Some op \<and> op_state op = Op_PENDING \<and>
       op_request_digest op = digest (env_sha256 E) request)"
proof -
  let ?k = "cl_delivery_id c"
  have eff: "max now (get_high_water db) = now" using assms(5) by simp
  have gone: "get_operation db ?k = None"
    using assms(1,3) get_operation_op_ids [of ?k db] find_row_Some_D [of tb_operation_id ?k "db_tombstones db" t]
    by (auto simp: wf_defs list_all_iff get_tombstone_def)
  obtain counts db1 where m: "run_maintenance E now (stale_lease_ms E) db = (Inr counts, db1)"
    and ops: "get_operation db1 ?k = after_retention now db ?k"
    and tomb: "get_tombstone db1 ?k = tombstone_after now db ?k"
    using run_maintenance_spec [OF assms(1)] by metis
  have free: "get_operation db1 ?k = None" "get_tombstone db1 ?k = None"
    using gone assms(3,4) by (simp_all add: ops tomb after_retention_def tombstone_after_def)
  have caps: "\<not> over_hard_caps sb (advance_high_water now db1)"
    using assms(7) by (simp add: m over_hard_caps_def count_rows_def)
  have strong: "\<not> length (cl_capability_token c) < 16" using checked_request_strong [OF assms(6)] by simp
  show ?thesis
    unfolding claim_unfold [OF assms(2,1)] eff assms(6) m
    using free caps strong
    by (simp add: immediate_def commit_claim_cases Let_def claim_result_def)
      (simp add: get_operation_def find_row_append claimed_operation_def)
qed

section \<open>A concrete claim\<close>

text \<open>An identifier stamped five minutes ahead of the clock that claims it.\<close>

definition example_uuid :: nat where
  "example_uuid = 1300000 * 2 ^ 80 + 7 * 2 ^ 76 + 2 * 2 ^ 62"

definition example_claim :: claim_request where
  "example_claim = \<lparr> cl_delivery_id = uuid_str example_uuid, cl_capability_token = ''0123456789abcdef'',
     cl_run_identity = None, cl_skip_reflect = False, cl_skip_index_sync = False, cl_allow_unverified = False,
     cl_acceptable_failure_digest = [], cl_owner = ''trw_deliver'', cl_pid = 41 \<rparr>"

definition example_request :: CanonicalRequest where
  "example_request = \<lparr> rq_schema_version = SCHEMA_VERSION, rq_project_scope = ''scope'', rq_run_identity = [],
     rq_skip_reflect = False, rq_skip_index_sync = False, rq_allow_unverified = False,
     rq_acceptable_failure_digest = [] \<rparr>"

definition fresh_db :: journal_db where
  "fresh_db = empty_db\<lparr>db_tables := SCHEMA_tables, db_schema_version := Some ''1''\<rparr>"

definition tombstoned_db :: journal_db where
  "tombstoned_db = fresh_db\<lparr>db_tombstones := [\<lparr> tb_operation_id = uuid_str example_uuid,
     tb_project_scope = ''scope'', tb_request_digest = ''digest'', tb_terminal_state = ''succeeded'',
     tb_findings = [], tb_created_utc_ms = 1000000, tb_expiry_utc_ms = 15553000000 \<rparr>]\<rparr>"

lemma example_uuid_facts:
  "uuid7_timestamp_ms example_uuid = 1300000" "example_uuid < 2 ^ 128" "uuid_version example_uuid = Some 7"
  by (simp_all add: uuid7_timestamp_ms_def example_uuid_def uuid_version_def)

lemma example_validated:
  "1000000 \<le> now \<Longrightarrow> now \<le> 15553300000 \<Longrightarrow> validate_delivery_id (uuid_str example_uuid) now = Inr example_uuid"
  using example_uuid_facts by (intro validate_delivery_id_accepts [OF lower_uuid_str]) simp_all

lemma example_built:
  "build_canonical_request ''scope'' None False False False [] = Inr example_request"
proof -
  have size: "\<not> length (canonical_bytes example_request) > MAX_RECORD_BYTES"
    by (simp add: canonical_bytes_expand example_request_def json_str_def json_char_def short_escape_def
        SCHEMA_VERSION_def str_int_def str_nat.simps MAX_RECORD_BYTES_def)
  show ?thesis
    using size
    by (simp only: build_canonical_request_def normalize_run_identity_def option.case bindE_simps Let_def
        example_request_def [symmetric] if_False)
qed

lemma example_checked:
  "1000000 \<le> now \<Longrightarrow> now \<le> 15553300000 \<Longrightarrow> checked_request example_env example_claim now = Inr example_request"
  using example_validated example_built
  by (simp add: checked_request_def example_claim_def example_env_def validate_capability_strength_def
      MIN_CAPABILITY_BYTES_def)

lemma fresh_db_open: "initialize_schema_locked fresh_db = Inr (False, fresh_db)"
  by code_simp

lemma tombstoned_db_open: "initialize_schema_locked tombstoned_db = Inr (False, tombstoned_db)"
  by (simp add: tombstoned_db_def fresh_db_def empty_db_def initialize_schema_locked_def SCHEMA_tables_def
      read_schema_version_def SCHEMA_VERSION_def is_decimal_def is_digit_def parse_int_def)

lemma fresh_db_wf: "wf_db fresh_db" "wf_db tombstoned_db"
  by (simp_all add: wf_defs unique_key_def fresh_db_def tombstoned_db_def empty_db_def op_ids_def valid_tombstone_def)

theorem claim_binds_request_witness:
  "\<exists>r db1 r'. commit_claim example_env ''id'' ''0123456789abcdef'' ''d'' [] ''o'' 1 5 0 ''salt'' fresh_db = Inr (r, db1) \<and>
     commit_claim example_env ''id'' ''0123456789abcdef'' ''other'' [] ''o'' 1 9 0 ''salt'' db1 = Inr (r', advance_high_water 9 db1) \<and>
     cr_status r' = Cl_CONFLICT"
proof -
  let ?r = "(claim_result Cl_CLAIMED ''claimed'')\<lparr>cr_operation_id := ''id'', cr_revision := 1\<rparr>"
  obtain db1 where c: "commit_claim example_env ''id'' ''0123456789abcdef'' ''d'' [] ''o'' 1 5 0 ''salt'' fresh_db = Inr (?r, db1)"
    by (simp add: commit_claim_cases fresh_db_def empty_db_def get_operation_def get_tombstone_def over_hard_caps_def
        STORE_MAX_BYTES_def STORE_MAX_ROWS_def count_rows_def Let_def)
  moreover have "cr_status ?r = Cl_CLAIMED" by (simp add: claim_result_def)
  from claim_binds_request [OF c this, of "''0123456789abcdef''" "''other''" "[]" "''o''" 1 9 0 "''salt''"]
  obtain r' where "commit_claim example_env ''id'' ''0123456789abcdef'' ''other'' [] ''o'' 1 9 0 ''salt'' db1
      = Inr (r', advance_high_water 9 db1)" "cr_status r' = Cl_CONFLICT" by auto
  ultimately show ?thesis by blast
qed

theorem claim_inserts_once_witness:
  "case claim example_env example_claim 1000000 0 ''salt'' fresh_db of
     (Inl e, db') \<Rightarrow> False | (Inr r, db') \<Rightarrow> cr_effect_calls r = 0"
  using claim_inserts_once [OF fresh_db_wf(1) fresh_db_open, where E = example_env and c = example_claim and now = 1000000
      and sb = 0 and fresh = "''salt''"]
  by (auto simp: Let_def split: prod.splits sum.splits)

theorem tombstoned_identifier_reclaimed_witness:
  "\<exists>r db'. claim example_env example_claim 15553000000 0 ''salt'' tombstoned_db = (Inr r, db') \<and>
     cr_status r = Cl_CLAIMED \<and> digest (env_sha256 example_env) example_request \<noteq> ''digest''"
proof -
  have t: "get_tombstone tombstoned_db (cl_delivery_id example_claim) = Some \<lparr> tb_operation_id = uuid_str example_uuid,
     tb_project_scope = ''scope'', tb_request_digest = ''digest'', tb_terminal_state = ''succeeded'',
     tb_findings = [], tb_created_utc_ms = 1000000, tb_expiry_utc_ms = 15553000000 \<rparr>"
    by (simp add: get_tombstone_def tombstoned_db_def example_claim_def)
  have hw: "get_high_water tombstoned_db = 0"
    by (simp add: get_high_water_def tombstoned_db_def fresh_db_def empty_db_def)
  have caps: "\<not> over_hard_caps 0 (snd (run_maintenance example_env 15553000000 (stale_lease_ms example_env) tombstoned_db))"
    by (simp add: run_maintenance_def immediate_def maintenance_body_def tombstoned_db_def fresh_db_def empty_db_def
        iter_operations_def iter_tombstones_def expire_tombstone_def reap_orphaned_queue_links_def get_queue_def
        delete_tombstone_def over_hard_caps_def count_rows_def STORE_MAX_BYTES_def STORE_MAX_ROWS_def)
  have "digest (env_sha256 example_env) example_request \<noteq> ''digest''"
    by (simp add: digest_def domain_digest_def example_env_def)
  then show ?thesis
    using tombstoned_identifier_reclaimed [OF fresh_db_wf(2) tombstoned_db_open t _ _ example_checked caps, of "''salt''"]
    by (simp add: hw) blast
qed

end
