(* ===== verification/Delivery_Steps.thy ===== *)
theory Delivery_Steps
  imports Delivery_Claim
begin

text \<open>
  The step state machine, the deferred queue and the entry points of crash recovery, takeover and
  retention (\<^verbatim>\<open>DeliveryCoordinator\<close> of \<^verbatim>\<open>trw_mcp/tools/_delivery_operations.py\<close>). Each operation
  opens the store and runs one immediate transaction; \<open>now\<close> is its clock reading.
\<close>

section \<open>Steps\<close>

definition begin_step_body ::
  "delivery_env \<Rightarrow> string \<Rightarrow> EffectDescriptor \<Rightarrow> string \<Rightarrow> int \<Rightarrow> int \<Rightarrow> StepRecord tx" where
  "begin_step_body E operation_id descriptor owner pid now db =
     (case get_operation db operation_id of
        None \<Rightarrow> Inl (RequestError ''unknown_operation'')
      | Some op \<Rightarrow>
          if op_state op \<in> set TERMINAL_OPERATION_STATES then Inl (RequestError ''illegal_transition'')
          else if op_state op = Op_CANCEL_REQUESTED then Inl (RequestError ''cancel_requested'')
          else (let effect_id = ed_effect_id descriptor;
                    prior = get_step db operation_id effect_id;
                    step = \<lparr> st_effect_id = effect_id, st_state = St_STARTED, st_disposition = Dp_NONE,
                      st_replay_class = ed_replay_class descriptor,
                      st_attempt = (case prior of None \<Rightarrow> 0 | Some p \<Rightarrow> st_attempt p) + 1,
                      st_proof_ref = [], st_proof_digest = [], st_finding_code = [],
                      st_updated_utc_ms = now \<rparr>
                in bindE (upsert_step operation_id step db) (\<lambda>db.
                     Inr (step, replace_operation
                       (op\<lparr>op_state := (if op_state op = Op_PENDING then Op_RUNNING else op_state op),
                           op_revision := op_revision op + 1, op_updated_utc_ms := now,
                           op_lease_owner := (if owner \<noteq> [] then owner else op_lease_owner op),
                           op_lease_pid := (if pid \<noteq> 0 then pid else op_lease_pid op),
                           op_lease_expiry_utc_ms := now + stale_lease_ms E\<rparr>) db))))"

definition begin_step :: "delivery_env \<Rightarrow> string \<Rightarrow> string \<Rightarrow> string \<Rightarrow> int \<Rightarrow> int \<Rightarrow> StepRecord api" where
  "begin_step E operation_id effect_id owner pid now db =
     (case get_descriptor effect_id of
        Inl e \<Rightarrow> (Inl e, db)
      | Inr descriptor \<Rightarrow>
          with_connection (immediate (begin_step_body E operation_id descriptor owner pid now)) db)"

definition finalize_step_body ::
  "string \<Rightarrow> string \<Rightarrow> StepState \<Rightarrow> StepDisposition \<Rightarrow> string \<Rightarrow> int \<Rightarrow> StepRecord tx" where
  "finalize_step_body operation_id effect_id state disposition finding_code now db =
     (case get_operation db operation_id of
        None \<Rightarrow> Inl (RequestError ''unknown_operation'')
      | Some op \<Rightarrow>
          (let prior = get_step db operation_id effect_id in
           bindE (get_descriptor effect_id) (\<lambda>descriptor.
             let step = \<lparr> st_effect_id = effect_id, st_state = state, st_disposition = disposition,
                   st_replay_class = ed_replay_class descriptor,
                   st_attempt = (case prior of None \<Rightarrow> 1 | Some p \<Rightarrow> st_attempt p),
                   st_proof_ref = (case prior of None \<Rightarrow> [] | Some p \<Rightarrow> st_proof_ref p),
                   st_proof_digest = (case prior of None \<Rightarrow> [] | Some p \<Rightarrow> st_proof_digest p),
                   st_finding_code = finding_code, st_updated_utc_ms = now \<rparr>
             in bindE (upsert_step operation_id step db) (\<lambda>db.
                  let remaining_started = list_ex (\<lambda>c. st_effect_id c \<noteq> effect_id \<and> st_state c = St_STARTED)
                        (get_steps db operation_id);
                      cancelled = (op_state op = Op_CANCEL_REQUESTED \<and> \<not> remaining_started);
                      db = replace_operation
                        (op\<lparr>op_state := (if cancelled then Op_CANCELLED else op_state op),
                            op_revision := op_revision op + 1, op_updated_utc_ms := now,
                            op_terminal_utc_ms := (if cancelled then now else op_terminal_utc_ms op)\<rparr>) db
                  in Inr (step, if cancelled then update_queue_state operation_id Qu_CANCELLED db else db)))))"

definition finalize_step ::
  "string \<Rightarrow> string \<Rightarrow> StepState \<Rightarrow> StepDisposition \<Rightarrow> string \<Rightarrow> int \<Rightarrow> StepRecord api" where
  "finalize_step operation_id effect_id state disposition finding_code now db =
     (if state = St_STARTED \<or> state = St_NOT_STARTED
      then (Inl (RequestError ''illegal_transition''), db)
      else with_connection
        (immediate (finalize_step_body operation_id effect_id state disposition finding_code now)) db)"

definition mark_operation_state_body :: "string \<Rightarrow> OperationState \<Rightarrow> int \<Rightarrow> OperationRecord tx" where
  "mark_operation_state_body operation_id state now db =
     (case get_operation db operation_id of
        None \<Rightarrow> Inl (RequestError ''unknown_operation'')
      | Some op \<Rightarrow>
          (let terminal = (state \<in> set TERMINAL_OPERATION_STATES);
               updated = op\<lparr>op_state := state, op_revision := op_revision op + 1, op_updated_utc_ms := now,
                 op_terminal_utc_ms := (if terminal then now else op_terminal_utc_ms op)\<rparr>;
               db = replace_operation updated db
           in Inr (updated,
                if terminal then update_queue_state operation_id (terminal_queue_state state) db else db)))"

definition mark_operation_state :: "string \<Rightarrow> OperationState \<Rightarrow> int \<Rightarrow> OperationRecord api" where
  "mark_operation_state operation_id state now =
     with_connection (immediate (mark_operation_state_body operation_id state now))"

section \<open>The deferred queue\<close>

definition enqueue_deferred_body :: "delivery_env \<Rightarrow> string \<Rightarrow> string \<Rightarrow> int \<Rightarrow> QueueLink tx" where
  "enqueue_deferred_body E operation_id deferred_digest now db0 =
     (let db = snd (reap_orphaned_queue_links E now (stale_lease_ms E) db0);
          active = filter (\<lambda>l. ql_state l \<in> {Qu_RUNNING, Qu_ATTACHED}) (get_queue db);
          match = find (\<lambda>l. ql_deferred_digest l = deferred_digest) active;
          state = (if match \<noteq> None then Qu_ATTACHED else Qu_QUEUED)
      in if state = Qu_QUEUED \<and> count_queue db [Qu_QUEUED] \<ge> env_queue_depth_max E
         then Inl (RequestError ''deferred_queue_full'')
         else (let link = \<lparr> ql_operation_id = operation_id, ql_deferred_digest = deferred_digest,
                     ql_state = state, ql_enqueued_utc_ms = now, ql_position = 0 \<rparr>
               in bindE (insert_queue_link link db) (\<lambda>db.
                    Inr (link,
                      case match of
                        None \<Rightarrow> db
                      | Some m \<Rightarrow>
                          (case get_operation db operation_id of
                             None \<Rightarrow> db
                           | Some attached_op \<Rightarrow>
                               replace_operation (attached_op\<lparr>op_attached_to_operation_id := ql_operation_id m,
                                 op_updated_utc_ms := now\<rparr>) db)))))"

definition enqueue_deferred :: "delivery_env \<Rightarrow> string \<Rightarrow> string \<Rightarrow> int \<Rightarrow> QueueLink api" where
  "enqueue_deferred E operation_id deferred_digest now =
     with_connection (immediate (enqueue_deferred_body E operation_id deferred_digest now))"

section \<open>Recovery entry points\<close>

definition recover_locked :: "delivery_env \<Rightarrow> string \<Rightarrow> int \<Rightarrow> RecoverResult tx" where
  "recover_locked E operation_id now db =
     (case get_operation db operation_id of
        None \<Rightarrow> Inr (recover_result Rc_NOT_FOUND ''unknown_operation'', db)
      | Some op \<Rightarrow>
          if lease_valid E op now
          then Inr ((recover_result Rc_LIVE_OWNER ''lease_still_live'')\<lparr>rr_operation_id := operation_id,
                  rr_revision := op_revision op, rr_state := op_state op\<rparr>, db)
          else apply_crash_recovery_locked op now db)"

definition recover_after_crash :: "delivery_env \<Rightarrow> string \<Rightarrow> int \<Rightarrow> RecoverResult api" where
  "recover_after_crash E operation_id now = with_connection (immediate (recover_locked E operation_id now))"

definition takeover_body ::
  "delivery_env \<Rightarrow> string \<Rightarrow> string \<Rightarrow> int \<Rightarrow> string \<Rightarrow> string \<Rightarrow> int \<Rightarrow> bool option \<Rightarrow> int \<Rightarrow> RecoverResult tx" where
  "takeover_body E operation_id capability_token expected_revision reason new_owner new_pid owner_alive now db =
     (case get_operation db operation_id of
        None \<Rightarrow> Inr (recover_result Rc_NOT_FOUND ''unknown_operation'', db)
      | Some op \<Rightarrow>
          authorize_takeover_locked E op capability_token expected_revision reason new_owner new_pid now
            (stale_lease_ms E) owner_alive db)"

definition takeover ::
  "delivery_env \<Rightarrow> string \<Rightarrow> string \<Rightarrow> int \<Rightarrow> string \<Rightarrow> string \<Rightarrow> int \<Rightarrow> bool option \<Rightarrow> int \<Rightarrow> RecoverResult api" where
  "takeover E operation_id capability_token expected_revision reason new_owner new_pid owner_alive now =
     with_connection (immediate
       (takeover_body E operation_id capability_token expected_revision reason new_owner new_pid owner_alive now))"

definition coordinator_maintenance :: "delivery_env \<Rightarrow> int \<Rightarrow> maintenance_counts api" where
  "coordinator_maintenance E now = with_connection (\<lambda>db.
     run_maintenance E (max now (get_high_water db)) (stale_lease_ms E) db)"

section \<open>How an operation evolves\<close>

text \<open>The columns a claim binds, and what a later write may do to an operation: it keeps them, never lowers
  the revision, and raises it whenever it changes the state, the lease or the terminal time.\<close>

definition same_binding :: "OperationRecord \<Rightarrow> OperationRecord \<Rightarrow> bool" where
  "same_binding op op' \<longleftrightarrow>
     op_operation_id op' = op_operation_id op \<and> op_project_scope op' = op_project_scope op \<and>
     op_run_identity op' = op_run_identity op \<and> op_request_digest op' = op_request_digest op \<and>
     op_capability_salt op' = op_capability_salt op \<and> op_capability_hash op' = op_capability_hash op \<and>
     op_created_utc_ms op' = op_created_utc_ms op \<and> op_expiry_utc_ms op' = op_expiry_utc_ms op"

definition op_evolves :: "OperationRecord \<Rightarrow> OperationRecord \<Rightarrow> bool" where
  "op_evolves op op' \<longleftrightarrow> same_binding op op' \<and>
     (op_revision op < op_revision op' \<or>
      op_revision op' = op_revision op \<and> op_state op' = op_state op \<and>
      op_lease_owner op' = op_lease_owner op \<and> op_lease_pid op' = op_lease_pid op \<and>
      op_lease_expiry_utc_ms op' = op_lease_expiry_utc_ms op \<and> op_terminal_utc_ms op' = op_terminal_utc_ms op)"

definition keeps_operations :: "journal_db \<Rightarrow> journal_db \<Rightarrow> bool" where
  "keeps_operations db db' \<longleftrightarrow>
     (\<forall>k. case get_operation db k of
            None \<Rightarrow> get_operation db' k = None
          | Some op \<Rightarrow> (case get_operation db' k of None \<Rightarrow> False | Some op' \<Rightarrow> op_evolves op op'))"

lemma op_evolves_refl: "op_evolves op op"
  by (simp add: op_evolves_def same_binding_def)

lemma op_evolves_trans: "op_evolves a b \<Longrightarrow> op_evolves b c \<Longrightarrow> op_evolves a c"
  by (auto simp: op_evolves_def same_binding_def)

lemma keeps_refl: "keeps_operations db db"
  by (auto simp: keeps_operations_def op_evolves_refl split: option.splits)

lemma keeps_frame: "(\<And>k. get_operation db' k = get_operation db k) \<Longrightarrow> keeps_operations db db'"
  by (auto simp: keeps_operations_def op_evolves_refl split: option.splits)

lemma keeps_trans:
  assumes "keeps_operations a b" "keeps_operations b c"
  shows "keeps_operations a c"
  unfolding keeps_operations_def
proof
  fix k
  show "case get_operation a k of None \<Rightarrow> get_operation c k = None
      | Some op \<Rightarrow> (case get_operation c k of None \<Rightarrow> False | Some op' \<Rightarrow> op_evolves op op')"
    using assms [unfolded keeps_operations_def, THEN spec [of _ k]]
    by (auto split: option.splits intro: op_evolves_trans)
qed

lemma keeps_replace:
  assumes "get_operation db k = Some op" "op_operation_id new = k"
    and "op_evolves op (replaced_columns new op)"
  shows "keeps_operations db (replace_operation new db)"
  using assms by (auto simp: keeps_operations_def row_laws op_evolves_refl split: option.splits)

lemma keeps_then: "keeps_operations db db1 \<Longrightarrow> (\<And>k. get_operation db' k = get_operation db1 k) \<Longrightarrow> keeps_operations db db'"
  using keeps_trans [OF _ keeps_frame] by blast

lemmas evolves_simps = op_evolves_def same_binding_def replaced_columns_def

lemma keeps_immediate:
  assumes "\<And>x db'. body db = Inr (x, db') \<Longrightarrow> keeps_operations db db'"
  shows "keeps_operations db (snd (immediate body db))"
  using assms by (auto simp: immediate_def keeps_refl split: sum.splits)

lemma keeps_with_connection:
  assumes "\<And>db1. keeps_operations db1 (snd (body db1))"
  shows "keeps_operations db (snd (with_connection body db))"
proof (cases "initialize_schema_locked db")
  case (Inl e)
  then show ?thesis by (simp add: with_connection_def keeps_refl)
next
  case (Inr r)
  then obtain c db1 where r: "r = (c, db1)" by (cases r)
  have "get_operation db1 k = get_operation db k" for k
    using initialize_schema_D(1) [OF Inr [unfolded r]] by (simp add: get_operation_def)
  then show ?thesis
    using keeps_trans [OF keeps_frame assms] by (simp add: with_connection_def Inr r)
qed

section \<open>Lemmas\<close>

lemma begin_step_body_cases:
  assumes "get_operation db k = Some op"
  shows "begin_step_body E k d owner pid now db =
    (if op_state op \<in> set TERMINAL_OPERATION_STATES then Inl (RequestError ''illegal_transition'')
     else if op_state op = Op_CANCEL_REQUESTED then Inl (RequestError ''cancel_requested'')
     else let step = \<lparr> st_effect_id = ed_effect_id d, st_state = St_STARTED, st_disposition = Dp_NONE,
                st_replay_class = ed_replay_class d,
                st_attempt = (case get_step db k (ed_effect_id d) of None \<Rightarrow> 0 | Some p \<Rightarrow> st_attempt p) + 1,
                st_proof_ref = [], st_proof_digest = [], st_finding_code = [], st_updated_utc_ms = now \<rparr>
          in Inr (step, replace_operation
               (op\<lparr>op_state := (if op_state op = Op_PENDING then Op_RUNNING else op_state op),
                   op_revision := op_revision op + 1, op_updated_utc_ms := now,
                   op_lease_owner := (if owner \<noteq> [] then owner else op_lease_owner op),
                   op_lease_pid := (if pid \<noteq> 0 then pid else op_lease_pid op),
                   op_lease_expiry_utc_ms := now + stale_lease_ms E\<rparr>) (write_step (k, step) db)))"
  using assms by (simp add: begin_step_body_def upsert_step_def Let_def)

lemma valid_revision: "valid_operation op \<Longrightarrow> 0 \<le> now \<Longrightarrow>
    op_revision op' = op_revision op + 1 \<Longrightarrow> op_updated_utc_ms op' = now \<Longrightarrow>
    op_created_utc_ms op' = op_created_utc_ms op \<Longrightarrow> op_expiry_utc_ms op' = op_expiry_utc_ms op \<Longrightarrow> valid_operation op'"
  by (simp add: valid_operation_def)

lemma wf_prior_attempt:
  "wf_db db \<Longrightarrow> get_step db k e = Some s \<Longrightarrow> 0 \<le> st_attempt s \<and> length (st_proof_ref s) \<le> MAX_EVIDENCE_REF_CHARS"
  using get_step_mem [of db k e s] by (fastforce simp: wf_defs list_all_iff valid_step_def)

lemma begin_step_body_wf:
  assumes "begin_step_body E k d owner pid now db = Inr (s, db')" "wf_db db" "0 \<le> now" "get_descriptor e = Inr d"
  shows "wf_db db' \<and> keeps_operations db db'"
proof -
  obtain op where op: "get_operation db k = Some op"
    using assms(1) by (cases "get_operation db k") (simp_all add: begin_step_body_def)
  have id: "op_operation_id op = k" by (rule get_operation_id [OF op])
  let ?s = "\<lparr> st_effect_id = ed_effect_id d, st_state = St_STARTED, st_disposition = Dp_NONE,
                st_replay_class = ed_replay_class d,
                st_attempt = (case get_step db k (ed_effect_id d) of None \<Rightarrow> 0 | Some p \<Rightarrow> st_attempt p) + 1,
                st_proof_ref = [], st_proof_digest = [], st_finding_code = [], st_updated_utc_ms = now \<rparr>"
  let ?op = "op\<lparr>op_state := (if op_state op = Op_PENDING then Op_RUNNING else op_state op),
                   op_revision := op_revision op + 1, op_updated_utc_ms := now,
                   op_lease_owner := (if owner \<noteq> [] then owner else op_lease_owner op),
                   op_lease_pid := (if pid \<noteq> 0 then pid else op_lease_pid op),
                   op_lease_expiry_utc_ms := now + stale_lease_ms E\<rparr>"
  have db': "db' = replace_operation ?op (write_step (k, ?s) db)"
    using assms(1) by (auto simp: begin_step_body_cases [OF op] Let_def split: if_splits)
  have "valid_step ?s"
    using wf_prior_attempt [OF assms(2)] assms(3) by (auto simp: valid_step_def split: option.split)
  moreover have "registered_step ?s" using assms(4) get_descriptor_id [OF assms(4)] by (simp add: registered_step_iff)
  ultimately have "wf_db (write_step (k, ?s) db)" using assms(2) op by (intro wf_write_step) simp_all
  moreover have "valid_operation ?op" by (rule valid_revision [OF wf_operation [OF assms(2) op] assms(3)]) simp_all
  ultimately have "wf_db db'" unfolding db' by (rule wf_replace_operation)
  moreover have "keeps_operations (write_step (k, ?s) db) db'"
    unfolding db' using op id by (intro keeps_replace [where op = op]) (simp_all add: row_laws evolves_simps)
  then have "keeps_operations db db'"
    by (rule keeps_trans [OF keeps_frame, rotated]) (simp add: row_laws)
  ultimately show ?thesis ..
qed

lemma retire_after:
  assumes "wf_db d" "keeps_operations db d"
  shows "wf_db (if c then update_queue_state k q d else d) \<and>
    keeps_operations db (if c then update_queue_state k q d else d)"
  using wf_update_queue_state [OF assms(1), of k q] assms keeps_then [OF assms(2), of "update_queue_state k q d"]
  by (simp add: row_laws)

lemma finalize_step_body_cases:
  assumes "get_operation db k = Some op" and "get_descriptor e = Inr d"
  shows "finalize_step_body k e state disposition code now db =
    (let prior = get_step db k e;
         step = \<lparr> st_effect_id = e, st_state = state, st_disposition = disposition,
           st_replay_class = ed_replay_class d, st_attempt = (case prior of None \<Rightarrow> 1 | Some p \<Rightarrow> st_attempt p),
           st_proof_ref = (case prior of None \<Rightarrow> [] | Some p \<Rightarrow> st_proof_ref p),
           st_proof_digest = (case prior of None \<Rightarrow> [] | Some p \<Rightarrow> st_proof_digest p),
           st_finding_code = code, st_updated_utc_ms = now \<rparr>;
         db1 = write_step (k, step) db;
         cancelled = (op_state op = Op_CANCEL_REQUESTED \<and>
           \<not> list_ex (\<lambda>c. st_effect_id c \<noteq> e \<and> st_state c = St_STARTED) (get_steps db1 k));
         db2 = replace_operation
           (op\<lparr>op_state := (if cancelled then Op_CANCELLED else op_state op),
               op_revision := op_revision op + 1, op_updated_utc_ms := now,
               op_terminal_utc_ms := (if cancelled then now else op_terminal_utc_ms op)\<rparr>) db1
     in Inr (step, if cancelled then update_queue_state k Qu_CANCELLED db2 else db2))"
  using assms by (simp add: finalize_step_body_def upsert_step_def Let_def)

lemma finalize_step_body_wf:
  assumes "finalize_step_body k e state disposition code now db = Inr (s, db')" "wf_db db" "0 \<le> now"
  shows "wf_db db' \<and> keeps_operations db db'"
proof -
  obtain op where op: "get_operation db k = Some op"
    using assms(1) by (cases "get_operation db k") (simp_all add: finalize_step_body_def)
  obtain d where d: "get_descriptor e = Inr d"
    using assms(1) op by (auto simp: finalize_step_body_def Let_def)
  have id: "op_operation_id op = k" by (rule get_operation_id [OF op])
  let ?prior = "get_step db k e"
  let ?s = "\<lparr> st_effect_id = e, st_state = state, st_disposition = disposition,
           st_replay_class = ed_replay_class d, st_attempt = (case ?prior of None \<Rightarrow> 1 | Some p \<Rightarrow> st_attempt p),
           st_proof_ref = (case ?prior of None \<Rightarrow> [] | Some p \<Rightarrow> st_proof_ref p),
           st_proof_digest = (case ?prior of None \<Rightarrow> [] | Some p \<Rightarrow> st_proof_digest p),
           st_finding_code = code, st_updated_utc_ms = now \<rparr>"
  let ?db1 = "write_step (k, ?s) db"
  let ?op = "\<lambda>c. op\<lparr>op_state := (if c then Op_CANCELLED else op_state op),
               op_revision := op_revision op + 1, op_updated_utc_ms := now,
               op_terminal_utc_ms := (if c then now else op_terminal_utc_ms op)\<rparr>"
  obtain c where db': "db' = (if c then update_queue_state k Qu_CANCELLED (replace_operation (?op c) ?db1)
      else replace_operation (?op c) ?db1)"
    using assms(1) unfolding finalize_step_body_cases [OF op d] Let_def by blast
  have "valid_step ?s"
    using wf_prior_attempt [OF assms(2)] assms(3) by (auto simp: valid_step_def split: option.split)
  moreover have "registered_step ?s" using d by (simp add: registered_step_iff)
  ultimately have wf1: "wf_db ?db1" using assms(2) op by (intro wf_write_step) simp_all
  have "valid_operation (?op c)" by (rule valid_revision [OF wf_operation [OF assms(2) op] assms(3)]) simp_all
  then have wf2: "wf_db (replace_operation (?op c) ?db1)" by (rule wf_replace_operation [OF wf1])
  have "keeps_operations ?db1 (replace_operation (?op c) ?db1)"
    using op id by (intro keeps_replace [where op = op]) (simp_all add: row_laws evolves_simps)
  then have keeps: "keeps_operations db (replace_operation (?op c) ?db1)"
    by (rule keeps_trans [OF keeps_frame, rotated]) (simp add: row_laws)
  show ?thesis unfolding db' by (rule retire_after [OF wf2 keeps])
qed

lemma mark_operation_state_body_wf:
  assumes "mark_operation_state_body k state now db = Inr (s, db')" "wf_db db" "0 \<le> now"
  shows "wf_db db' \<and> keeps_operations db db'"
proof -
  obtain op where op: "get_operation db k = Some op"
    using assms(1) by (cases "get_operation db k") (simp_all add: mark_operation_state_body_def)
  have id: "op_operation_id op = k" by (rule get_operation_id [OF op])
  let ?op = "op\<lparr>op_state := state, op_revision := op_revision op + 1, op_updated_utc_ms := now,
      op_terminal_utc_ms := (if state \<in> set TERMINAL_OPERATION_STATES then now else op_terminal_utc_ms op)\<rparr>"
  obtain c q where db': "db' = (if c then update_queue_state k q (replace_operation ?op db) else replace_operation ?op db)"
    using assms(1) op by (auto simp: mark_operation_state_body_def Let_def)
  have "valid_operation ?op" by (rule valid_revision [OF wf_operation [OF assms(2) op] assms(3)]) simp_all
  then have wf: "wf_db (replace_operation ?op db)" by (rule wf_replace_operation [OF assms(2)])
  have keeps: "keeps_operations db (replace_operation ?op db)"
    using op id by (intro keeps_replace [where op = op]) (simp_all add: evolves_simps)
  show ?thesis unfolding db' by (rule retire_after [OF wf keeps])
qed

lemma enqueue_deferred_body_wf:
  assumes "enqueue_deferred_body E k dg now db = Inr (l, db')" "wf_db db" "0 \<le> now"
  shows "wf_db db' \<and> keeps_operations db db'"
proof -
  let ?db0 = "snd (reap_orphaned_queue_links E now (stale_lease_ms E) db)"
  have wf0: "wf_db ?db0" by (rule wf_reap [OF assms(2)])
  have ops0: "get_operation ?db0 k' = get_operation db k'" for k'
    unfolding reap_eq [OF wf_keys [OF assms(2)]] by (simp add: get_operation_def)
  obtain match link db1 where ins: "insert_queue_link link ?db0 = Inr db1" and l: "valid_queue_link link"
    and db': "db' = (case match of None \<Rightarrow> db1 | Some m \<Rightarrow>
        (case get_operation db1 k of None \<Rightarrow> db1
         | Some op \<Rightarrow> replace_operation (op\<lparr>op_attached_to_operation_id := m, op_updated_utc_ms := now\<rparr>) db1))"
  proof -
    let ?match = "find (\<lambda>l. ql_deferred_digest l = dg) (filter (\<lambda>l. ql_state l \<in> {Qu_RUNNING, Qu_ATTACHED}) (get_queue ?db0))"
    let ?link = "\<lparr> ql_operation_id = k, ql_deferred_digest = dg,
        ql_state = (if ?match \<noteq> None then Qu_ATTACHED else Qu_QUEUED), ql_enqueued_utc_ms = now, ql_position = 0 \<rparr>"
    obtain db1 where "insert_queue_link ?link ?db0 = Inr db1"
      "db' = (case map_option ql_operation_id ?match of None \<Rightarrow> db1 | Some m \<Rightarrow>
        (case get_operation db1 k of None \<Rightarrow> db1
         | Some op \<Rightarrow> replace_operation (op\<lparr>op_attached_to_operation_id := m, op_updated_utc_ms := now\<rparr>) db1))"
      using assms(1) unfolding enqueue_deferred_body_def Let_def
      by (cases ?match) (auto split: if_splits)
    moreover have "valid_queue_link ?link" using assms(3) by (simp add: valid_queue_link_def)
    ultimately show ?thesis using that [of ?link db1 "map_option ql_operation_id ?match"] by blast
  qed
  have wf1: "wf_db db1" by (rule wf_insert_queue_link [OF ins wf0 l])
  have ops1: "get_operation db1 k' = get_operation db k'" for k'
    using ins by (auto simp: insert_queue_link_def get_operation_def ops0 [unfolded get_operation_def] split: if_splits)
  show ?thesis
  proof (cases "match = None \<or> get_operation db1 k = None")
    case True
    then have "db' = db1" by (auto simp: db' split: option.splits)
    then show ?thesis using wf1 keeps_frame [OF ops1] by simp
  next
    case False
    then obtain m op where op: "match = Some m" "get_operation db1 k = Some op" by auto
    have id: "op_operation_id op = k" by (rule get_operation_id [OF op(2)])
    let ?op = "op\<lparr>op_attached_to_operation_id := m, op_updated_utc_ms := now\<rparr>"
    have "valid_operation ?op" using wf_operation [OF wf1 op(2)] assms(3) by (simp add: valid_operation_def)
    then have "wf_db (replace_operation ?op db1)" by (rule wf_replace_operation [OF wf1])
    moreover have "keeps_operations db1 (replace_operation ?op db1)"
      using op id by (intro keeps_replace [where op = op]) (simp_all add: evolves_simps)
    ultimately show ?thesis using op keeps_trans [OF keeps_frame [OF ops1]] by (simp add: db')
  qed
qed

lemma recover_locked_wf:
  assumes "wf_db db"
  shows "\<exists>r db'. recover_locked E k now db = Inr (r, db') \<and> keeps_operations db db' \<and>
    (0 \<le> now \<longrightarrow> wf_db db') \<and> (rr_status r \<noteq> Rc_OK \<longrightarrow> db' = db)"
proof (cases "get_operation db k")
  case None
  then show ?thesis using assms by (simp add: recover_locked_def keeps_refl)
next
  case (Some op)
  have id: "op_operation_id op = k" by (rule get_operation_id [OF Some])
  show ?thesis
  proof (cases "lease_valid E op now")
    case True
    then show ?thesis using assms Some by (simp add: recover_locked_def keeps_refl)
  next
    case False
    let ?db = "crash_recovered_db op now (crash_event op now) db"
    have "keeps_operations db ?db"
      using Some crash_recovered_reads(2) [OF wf_keys [OF assms] Some refl, where now = now and event = "crash_event op now"]
      by (auto simp: keeps_operations_def op_evolves_refl evolves_simps recovered_operation_def split: option.splits)
    then show ?thesis
      using False Some apply_crash_recovery_eq [OF assms Some] wf_crash_recovered [OF assms Some]
      by (simp add: recover_locked_def crash_recovered_result_def recover_result_def Let_def)
  qed
qed

lemma takeover_body_cases:
  assumes "get_operation db k = Some op"
  shows "takeover_body E k tok erev reason owner pid alive now db =
    authorize_takeover_locked E op tok erev reason owner pid now (stale_lease_ms E) alive db"
  using assms by (simp add: takeover_body_def)

lemma valid_leased: "valid_operation op \<Longrightarrow> 0 \<le> now \<Longrightarrow> valid_operation (leased op owner pid now stale)"
  by (rule valid_revision [of op now]) (simp_all add: leased_def)

lemma evolves_leased: "op_evolves op (replaced_columns (leased op owner pid now stale) op)"
  by (simp add: evolves_simps leased_def)

lemma takeover_body_wf:
  assumes "takeover_body E k tok erev reason owner pid alive now db = Inr (r, db')"
  shows "keeps_operations db db' \<and> (rr_status r \<noteq> Rc_OK \<longrightarrow> db' = db) \<and> (wf_db db \<longrightarrow> 0 \<le> now \<longrightarrow> wf_db db')"
proof (cases "get_operation db k")
  case None
  then show ?thesis using assms by (auto simp: takeover_body_def keeps_refl)
next
  case (Some op)
  let ?G = "reason \<noteq> [] \<and> length reason \<le> MAX_REASON_CHARS \<and>
     verify_capability (env_sha256 E) tok (op_capability_salt op) (op_capability_hash op) \<and>
     erev = op_revision op \<and> lease_takeable E op now (stale_lease_ms E) alive 0"
  let ?ev = "\<lparr> ev_operation_id = k, ev_action = Ra_TAKEOVER_PENDING, ev_reason = reason, ev_evidence_ref = [],
      ev_effect_id = [], ev_decided_utc_ms = now \<rparr>"
  let ?db1 = "replace_operation (leased op owner pid now (stale_lease_ms E)) db"
  obtain r' where body: "takeover_body E k tok erev reason owner pid alive now db =
      Inr (r', if ?G then (let db1 = ?db1 in db1\<lparr>db_events := db_events db1 @ [?ev]\<rparr>) else db)"
    and ok: "rr_status r' = Rc_OK \<longleftrightarrow> ?G"
    using authorize_takeover_cases [OF Some] unfolding takeover_body_cases [OF Some] by blast
  have id: "op_operation_id op = k" by (rule get_operation_id [OF Some])
  have keeps: "keeps_operations db ?db1"
    using Some id evolves_leased by (intro keeps_replace [where op = op]) (simp_all del: replaced_leased)
  show ?thesis
  proof (cases ?G)
    case False
    have "db' = db" using assms unfolding body if_not_P [OF False] by simp
    then show ?thesis by (simp add: keeps_refl)
  next
    case True
    have "r = r'" and db': "db' = ?db1\<lparr>db_events := db_events ?db1 @ [?ev]\<rparr>"
      using assms unfolding body if_P [OF True] Let_def by simp_all
    then have "rr_status r = Rc_OK" using ok True by simp
    moreover have "keeps_operations db db'" unfolding db' by (rule keeps_then [OF keeps]) (simp add: row_laws)
    moreover have "wf_db db'" if "wf_db db" "0 \<le> now"
      unfolding db' using that Some True id wf_operation [OF that(1) Some]
      by (intro wf_insert_event wf_replace_operation valid_leased)
        (simp_all add: row_laws valid_recovery_event_def MAX_EVIDENCE_REF_CHARS_def)
    ultimately show ?thesis by simp
  qed
qed

lemma api_body:
  assumes "initialize_schema_locked db = Inr (c, db)"
  shows "with_connection (immediate body) db =
    (case body db of Inl e \<Rightarrow> (Inl e, db) | Inr (x, db') \<Rightarrow> (Inr x, db'))"
  using assms by (simp add: with_connection_def immediate_def)

lemma wf_keeps_api:
  assumes "wf_db db" and "\<And>db1 x db'. wf_db db1 \<Longrightarrow> body db1 = Inr (x, db') \<Longrightarrow> wf_db db' \<and> keeps_operations db1 db'"
  shows "wf_db (snd (with_connection (immediate body) db)) \<and> keeps_operations db (snd (with_connection (immediate body) db))"
proof (cases "initialize_schema_locked db")
  case (Inl e)
  then show ?thesis using assms(1) by (simp add: with_connection_def keeps_refl)
next
  case (Inr r)
  then obtain c db1 where r: "r = (c, db1)" by (cases r)
  have wf1: "wf_db db1" using wf_initialize [OF Inr [unfolded r]] assms(1) by simp
  have "keeps_operations db db1"
    using initialize_schema_D(1) [OF Inr [unfolded r]] by (intro keeps_frame) (simp add: get_operation_def)
  then show ?thesis
    using assms(2) [OF wf1] wf1 keeps_trans
    by (auto simp: with_connection_def immediate_def Inr r split: sum.split)
qed

lemma begin_step_wf:
  "wf_db db \<Longrightarrow> 0 \<le> now \<Longrightarrow> wf_db (snd (begin_step E k e owner pid now db)) \<and>
     keeps_operations db (snd (begin_step E k e owner pid now db))"
proof (cases "get_descriptor e")
  case (Inl x)
  assume "wf_db db"
  then show ?thesis by (simp add: begin_step_def Inl keeps_refl)
next
  case (Inr d)
  assume "wf_db db" "0 \<le> now"
  then show ?thesis
    unfolding begin_step_def Inr sum.case by (intro wf_keeps_api begin_step_body_wf [OF _ _ _ Inr])
qed

lemma finalize_step_wf:
  "wf_db db \<Longrightarrow> 0 \<le> now \<Longrightarrow> wf_db (snd (finalize_step k e s d code now db)) \<and>
     keeps_operations db (snd (finalize_step k e s d code now db))"
  unfolding finalize_step_def
  by (cases "s = St_STARTED \<or> s = St_NOT_STARTED")
    (simp_all add: keeps_refl wf_keeps_api finalize_step_body_wf del: de_Morgan_disj)

lemma mark_operation_state_wf:
  "wf_db db \<Longrightarrow> 0 \<le> now \<Longrightarrow> wf_db (snd (mark_operation_state k s now db)) \<and>
     keeps_operations db (snd (mark_operation_state k s now db))"
  unfolding mark_operation_state_def by (rule wf_keeps_api) (auto dest: mark_operation_state_body_wf)

lemma enqueue_deferred_wf:
  "wf_db db \<Longrightarrow> 0 \<le> now \<Longrightarrow> wf_db (snd (enqueue_deferred E k dg now db)) \<and>
     keeps_operations db (snd (enqueue_deferred E k dg now db))"
  unfolding enqueue_deferred_def by (rule wf_keeps_api) (auto dest: enqueue_deferred_body_wf)

lemma recover_after_crash_wf:
  "wf_db db \<Longrightarrow> 0 \<le> now \<Longrightarrow> wf_db (snd (recover_after_crash E k now db)) \<and>
     keeps_operations db (snd (recover_after_crash E k now db))"
  unfolding recover_after_crash_def
proof (rule wf_keeps_api)
  fix db1 x db' assume "wf_db db1" "recover_locked E k now db1 = Inr (x, db')" "0 \<le> now"
  then show "wf_db db' \<and> keeps_operations db1 db'" using recover_locked_wf [of db1 E k now] by auto
qed

lemma takeover_wf:
  "wf_db db \<Longrightarrow> 0 \<le> now \<Longrightarrow> wf_db (snd (takeover E k tok erev reason owner pid alive now db)) \<and>
     keeps_operations db (snd (takeover E k tok erev reason owner pid alive now db))"
  unfolding takeover_def by (rule wf_keeps_api) (auto dest: takeover_body_wf)

lemma coordinator_maintenance_wf:
  assumes "wf_db db"
  shows "wf_db (snd (coordinator_maintenance E now db))"
  unfolding coordinator_maintenance_def
proof (rule wf_with_connection [OF assms])
  fix db1 assume "wf_db db1"
  then obtain counts db2 where "run_maintenance E (max now (get_high_water db1)) (stale_lease_ms E) db1 = (Inr counts, db2)"
    "wf_db db2" using run_maintenance_spec by metis
  then show "wf_db (snd (run_maintenance E (max now (get_high_water db1)) (stale_lease_ms E) db1))" by simp
qed

section \<open>Properties\<close>

text \<open>Beginning a step of a live operation durably marks it started before the effect runs, with the
  attempt counter one higher and no proof, moves a pending operation to running and refreshes the lease; no
  other step changes. A terminal operation and one whose cancellation is requested refuse, and nothing is
  written.\<close>

theorem begin_step_marks_started:
  assumes "initialize_schema_locked db = Inr (c, db)" and "get_operation db k = Some op"
    and "get_descriptor e = Inr d"
  shows "case begin_step E k e owner pid now db of (res, db') \<Rightarrow>
    if op_state op \<in> {Op_SUCCEEDED, Op_FAILED, Op_CANCELLED}
    then res = Inl (RequestError ''illegal_transition'') \<and> db' = db
    else if op_state op = Op_CANCEL_REQUESTED
    then res = Inl (RequestError ''cancel_requested'') \<and> db' = db
    else (\<exists>s s'. res = Inr s \<and> get_step db' k e = Some s' \<and> st_state s' = St_STARTED \<and>
        st_attempt s' = (case get_step db k e of None \<Rightarrow> 0 | Some p \<Rightarrow> st_attempt p) + 1 \<and> st_proof_ref s' = []) \<and>
      (\<forall>k' e'. (k', e') \<noteq> (k, e) \<longrightarrow> get_step db' k' e' = get_step db k' e') \<and>
      (\<exists>op'. get_operation db' k = Some op' \<and> op_revision op' = op_revision op + 1 \<and>
        op_state op' = (if op_state op = Op_PENDING then Op_RUNNING else op_state op) \<and>
        op_lease_expiry_utc_ms op' = now + stale_lease_ms E)"
proof -
  have id: "op_operation_id op = k" and eid: "ed_effect_id d = e"
    using get_operation_id [OF assms(2)] get_descriptor_id [OF assms(3)] .
  show ?thesis
    unfolding begin_step_def assms(3) sum.case api_body [OF assms(1)] begin_step_body_cases [OF assms(2)]
    using assms(2)
    by (auto simp: TERMINAL_OPERATION_STATES_def Let_def row_laws id eid replaced_columns_def split: option.splits)
qed

text \<open>Finalizing a step never erases proof: the reference and digest already recorded for it are carried
  forward, whatever the outcome. When the operation is being cancelled and no other step is still started, the
  operation becomes cancelled in the same transaction and its deferred link is retired; otherwise its state
  stays.\<close>

theorem finalize_step_carries_proof:
  assumes "initialize_schema_locked db = Inr (c, db)" and "get_operation db k = Some op"
    and "get_descriptor e = Inr d" and "state \<notin> {St_STARTED, St_NOT_STARTED}" and "keys_ok db"
  shows "case finalize_step k e state disposition code now db of (res, db') \<Rightarrow>
    (\<exists>s s'. res = Inr s \<and> get_step db' k e = Some s' \<and> st_state s' = state \<and> st_finding_code s' = code \<and>
       st_proof_ref s' = (case get_step db k e of None \<Rightarrow> [] | Some p \<Rightarrow> st_proof_ref p) \<and>
       st_proof_digest s' = (case get_step db k e of None \<Rightarrow> [] | Some p \<Rightarrow> st_proof_digest p)) \<and>
    (let last = (\<forall>e'. e' \<noteq> e \<longrightarrow> map_option st_state (get_step db k e') \<noteq> Some St_STARTED) in
     if op_state op = Op_CANCEL_REQUESTED \<and> last
     then map_option op_state (get_operation db' k) = Some Op_CANCELLED \<and>
          map_option op_terminal_utc_ms (get_operation db' k) = Some now \<and>
          list_all (\<lambda>l. ql_operation_id l = k \<longrightarrow> ql_state l = Qu_CANCELLED) (db_queue db')
     else map_option op_state (get_operation db' k) = Some (op_state op) \<and> db_queue db' = db_queue db)"
proof -
  have id: "op_operation_id op = k" by (rule get_operation_id [OF assms(2)])
  let ?prior = "get_step db k e"
  let ?s = "\<lparr> st_effect_id = e, st_state = state, st_disposition = disposition,
           st_replay_class = ed_replay_class d, st_attempt = (case ?prior of None \<Rightarrow> 1 | Some p \<Rightarrow> st_attempt p),
           st_proof_ref = (case ?prior of None \<Rightarrow> [] | Some p \<Rightarrow> st_proof_ref p),
           st_proof_digest = (case ?prior of None \<Rightarrow> [] | Some p \<Rightarrow> st_proof_digest p),
           st_finding_code = code, st_updated_utc_ms = now \<rparr>"
  let ?db1 = "write_step (k, ?s) db"
  have keys1: "keys_ok ?db1"
  proof -
    have "list_all (\<lambda>r. fst r \<in> op_ids db) (db_steps ?db1)"
      using assms(2,5) set_write_step [of _ "(k, ?s)" db] get_operation_op_ids [of k db]
      by (fastforce simp: list_all_iff keys_ok_def excluded_columns_def)
    moreover have "unique_key step_key (db_steps ?db1)"
      using assms(5) by (simp add: keys_ok_def unique_key_def step_key_write find_row_None)
    moreover have "db_operations ?db1 = db_operations db" "db_queue ?db1 = db_queue db" "db_events ?db1 = db_events db"
      "db_tombstones ?db1 = db_tombstones db" by (simp_all add: write_step_def)
    ultimately show ?thesis using assms(5) by (simp add: keys_ok_def)
  qed
  have started: "list_ex (\<lambda>c. st_effect_id c \<noteq> e \<and> st_state c = St_STARTED) (get_steps ?db1 k) \<longleftrightarrow>
      (\<exists>e'. e' \<noteq> e \<and> map_option st_state (get_step db k e') = Some St_STARTED)"
  proof -
    have "list_ex (\<lambda>c. st_effect_id c \<noteq> e \<and> st_state c = St_STARTED) (get_steps ?db1 k) \<longleftrightarrow>
        (\<exists>s. get_step ?db1 k (st_effect_id s) = Some s \<and> st_effect_id s \<noteq> e \<and> st_state s = St_STARTED)"
      using mem_get_steps [OF keys1, of _ k] by (auto simp: list_ex_iff)
    also have "\<dots> \<longleftrightarrow> (\<exists>s. get_step db k (st_effect_id s) = Some s \<and> st_effect_id s \<noteq> e \<and> st_state s = St_STARTED)"
      by (auto simp: row_laws)
    also have "\<dots> \<longleftrightarrow> (\<exists>e'. e' \<noteq> e \<and> map_option st_state (get_step db k e') = Some St_STARTED)"
    proof
      assume "\<exists>s. get_step db k (st_effect_id s) = Some s \<and> st_effect_id s \<noteq> e \<and> st_state s = St_STARTED"
      then obtain s where "get_step db k (st_effect_id s) = Some s" "st_effect_id s \<noteq> e" "st_state s = St_STARTED"
        by blast
      then show "\<exists>e'. e' \<noteq> e \<and> map_option st_state (get_step db k e') = Some St_STARTED"
        by (intro exI [of _ "st_effect_id s"]) simp
    next
      assume "\<exists>e'. e' \<noteq> e \<and> map_option st_state (get_step db k e') = Some St_STARTED"
      then obtain e' s where s: "e' \<noteq> e" "get_step db k e' = Some s" "st_state s = St_STARTED" by auto
      moreover have "st_effect_id s = e'" using get_step_mem [OF s(2)] by simp
      ultimately show "\<exists>s. get_step db k (st_effect_id s) = Some s \<and> st_effect_id s \<noteq> e \<and> st_state s = St_STARTED"
        by blast
    qed
    finally show ?thesis .
  qed
  have retired: "list_all (\<lambda>l. ql_operation_id l = k \<longrightarrow> ql_state l = Qu_CANCELLED)
      (update_rows ql_operation_id k (\<lambda>l. l\<lparr>ql_state := Qu_CANCELLED\<rparr>) rows)" for rows
    by (induction rows) simp_all
  have queue: "db_queue (write_step r db) = db_queue db"
      "db_queue (update_queue_state i q b) = update_rows ql_operation_id i (\<lambda>l. l\<lparr>ql_state := q\<rparr>) (db_queue b)"
    for r i q b by (simp_all add: write_step_def update_queue_state_def)
  have not_open: "(state = St_STARTED \<or> state = St_NOT_STARTED) = False" using assms(4) by simp
  show ?thesis
    unfolding finalize_step_def not_open if_False api_body [OF assms(1)] finalize_step_body_cases [OF assms(2,3)]
      Let_def started
    using assms(2)
    by (auto simp: row_laws id replaced_columns_def retired queue split: option.splits)
qed

text \<open>Enqueueing deferred work never drops a link and never exceeds the configured depth: it appends one
  link for the operation, attached exactly when a running or attached link has the same digest and queued
  otherwise, keeps every other link in place, and a queued link is added only while fewer than the configured
  number are queued. When the queue is full, or the operation is unknown or already has a link, nothing is
  written.\<close>

theorem enqueue_bounded:
  assumes "initialize_schema_locked db = Inr (c, db)" and "keys_ok db"
  shows "case enqueue_deferred E k dg now db of
      (Inl err, db') \<Rightarrow> db' = db \<and>
        (err = RequestError ''deferred_queue_full'' \<and> env_queue_depth_max E \<le> count_queue db [Qu_QUEUED] \<or>
         err = IntegrityError ''queue_links.operation_id'' \<and>
           (get_operation db k = None \<or> k \<in> ql_operation_id ` set (db_queue db)))
    | (Inr l, db') \<Rightarrow>
        (ql_state l = Qu_ATTACHED \<longleftrightarrow>
           list_ex (\<lambda>m. ql_state m \<in> {Qu_RUNNING, Qu_ATTACHED} \<and> ql_deferred_digest m = dg) (db_queue db)) \<and>
        (ql_state l = Qu_ATTACHED \<or> ql_state l = Qu_QUEUED) \<and>
        map ql_operation_id (db_queue db') = map ql_operation_id (db_queue db) @ [k] \<and>
        last (db_queue db') = l \<and>
        count_queue db' [Qu_QUEUED] \<le> max (count_queue db [Qu_QUEUED]) (env_queue_depth_max E)"
proof -
  let ?f = "\<lambda>l. set_state (retire_to E now (stale_lease_ms E) db l) l"
  let ?db0 = "snd (reap_orphaned_queue_links E now (stale_lease_ms E) db)"
  have db0: "?db0 = db\<lparr>db_queue := map ?f (db_queue db)\<rparr>" by (simp add: reap_eq [OF assms(2)])
  have op0: "get_operation ?db0 k = get_operation db k" by (simp add: db0 get_operation_def)
  have f_id: "ql_operation_id (?f l) = ql_operation_id l" "ql_deferred_digest (?f l) = ql_deferred_digest l" for l
    by (simp_all add: set_state_def split: option.split)
  have f_queued: "ql_state (?f l) = Qu_QUEUED \<Longrightarrow> ql_state l = Qu_QUEUED" for l
    by (auto simp: set_state_def retire_to_def terminal_queue_state_def split: option.splits if_splits)
  have f_active: "ql_state (?f l) \<in> {Qu_RUNNING, Qu_ATTACHED} \<longleftrightarrow> ql_state l \<in> {Qu_RUNNING, Qu_ATTACHED}" for l
    by (auto simp: set_state_def retire_to_def terminal_queue_state_def split: option.splits if_splits)
  have depth: "count_queue ?db0 [Qu_QUEUED] \<le> count_queue db [Qu_QUEUED]"
  proof -
    have "length (filter (\<lambda>l. ql_state (?f l) = Qu_QUEUED) ls) \<le> length (filter (\<lambda>l. ql_state l = Qu_QUEUED) ls)" for ls
      by (induction ls) (auto dest: f_queued)
    then show ?thesis by (simp add: count_queue_def db0 filter_map comp_def)
  qed
  let ?match = "find (\<lambda>l. ql_deferred_digest l = dg) (filter (\<lambda>l. ql_state l \<in> {Qu_RUNNING, Qu_ATTACHED}) (get_queue ?db0))"
  have match: "?match \<noteq> None \<longleftrightarrow>
      list_ex (\<lambda>m. ql_state m \<in> {Qu_RUNNING, Qu_ATTACHED} \<and> ql_deferred_digest m = dg) (db_queue db)"
  proof -
    obtain ns where ns: "length ns = length (db_queue ?db0)"
      and q: "get_queue ?db0 = map2 (\<lambda>l p. l\<lparr>ql_position := p\<rparr>) (db_queue ?db0) ns"
      using get_queue_map by blast
    have "list_ex (\<lambda>m. ql_state m \<in> {Qu_RUNNING, Qu_ATTACHED} \<and> ql_deferred_digest m = dg)
        (map2 (\<lambda>l p. l\<lparr>ql_position := p\<rparr>) qs ns) \<longleftrightarrow>
      list_ex (\<lambda>m. ql_state m \<in> {Qu_RUNNING, Qu_ATTACHED} \<and> ql_deferred_digest m = dg) qs"
      if "length ns = length qs" for qs ns
      using that by (induction qs arbitrary: ns) (auto simp: length_Suc_conv)
    from this [OF ns] have "?match \<noteq> None \<longleftrightarrow>
        list_ex (\<lambda>m. ql_state m \<in> {Qu_RUNNING, Qu_ATTACHED} \<and> ql_deferred_digest m = dg) (db_queue ?db0)"
      by (simp add: q find_None_iff list_ex_iff)
    also have "\<dots> \<longleftrightarrow> list_ex (\<lambda>m. ql_state m \<in> {Qu_RUNNING, Qu_ATTACHED} \<and> ql_deferred_digest m = dg) (db_queue db)"
      using f_active by (simp add: db0 list_ex_iff f_id)
    finally show ?thesis .
  qed
  define mt where "mt = ?match"
  let ?link = "\<lparr> ql_operation_id = k, ql_deferred_digest = dg,
      ql_state = (if mt \<noteq> None then Qu_ATTACHED else Qu_QUEUED), ql_enqueued_utc_ms = now, ql_position = 0 \<rparr>"
  let ?full = "mt = None \<and> env_queue_depth_max E \<le> count_queue ?db0 [Qu_QUEUED]"
  have clash: "find_row ql_operation_id k (db_queue ?db0) \<noteq> None \<longleftrightarrow> k \<in> ql_operation_id ` set (db_queue db)"
    by (simp add: find_row_None db0 image_image f_id)
  define g :: "journal_db \<Rightarrow> journal_db" where "g = (\<lambda>db. case mt of None \<Rightarrow> db | Some m \<Rightarrow>
        (case get_operation db k of None \<Rightarrow> db
         | Some op \<Rightarrow> replace_operation (op\<lparr>op_attached_to_operation_id := ql_operation_id m, op_updated_utc_ms := now\<rparr>) db))"
  have g: "db_queue (g d) = db_queue d" for d by (simp add: g_def split: option.split)
  have body: "enqueue_deferred_body E k dg now db =
      (if ?full then Inl (RequestError ''deferred_queue_full'')
       else bindE (insert_queue_link ?link ?db0) (\<lambda>db. Inr (?link, g db)))"
    by (auto simp: enqueue_deferred_body_def Let_def g_def mt_def)
  show ?thesis
  proof (cases ?full)
    case True
    then show ?thesis
      using depth unfolding enqueue_deferred_def api_body [OF assms(1)] body if_P [OF True] by simp
  next
    case False
    show ?thesis
    proof (cases "get_operation db k = None \<or> k \<in> ql_operation_id ` set (db_queue db)")
      case True
      then have "insert_queue_link ?link ?db0 = Inl (IntegrityError ''queue_links.operation_id'')"
        using clash op0 by (auto simp: insert_queue_link_def)
      then show ?thesis
        using True unfolding enqueue_deferred_def api_body [OF assms(1)] body if_not_P [OF False] by simp
    next
      case fresh: False
      let ?db1 = "?db0\<lparr>db_queue := db_queue ?db0 @ [?link]\<rparr>"
      have insert: "insert_queue_link ?link ?db0 = Inr ?db1"
        using fresh clash op0 by (simp add: insert_queue_link_def)
      have out: "enqueue_deferred E k dg now db = (Inr ?link, g ?db1)"
        unfolding enqueue_deferred_def api_body [OF assms(1)] body if_not_P [OF False] insert by simp
      have rows: "db_queue (g ?db1) = db_queue ?db0 @ [?link]" by (simp add: g)
      have ids: "map ql_operation_id (db_queue ?db0) = map ql_operation_id (db_queue db)" by (simp add: db0 f_id)
      have count: "count_queue (g ?db1) [Qu_QUEUED] = count_queue ?db0 [Qu_QUEUED] + (if mt = None then 1 else 0)"
        unfolding count_queue_def rows by simp
      have attached: "ql_state ?link = Qu_ATTACHED \<longleftrightarrow>
          list_ex (\<lambda>m. ql_state m \<in> {Qu_RUNNING, Qu_ATTACHED} \<and> ql_deferred_digest m = dg) (db_queue db)"
        using match by (auto simp: mt_def)
      have bound: "count_queue (g ?db1) [Qu_QUEUED] \<le> max (count_queue db [Qu_QUEUED]) (env_queue_depth_max E)"
        using False depth count by (auto split: if_splits)
      show ?thesis
        unfolding out prod.case sum.case rows map_append ids
        using bound attached by (auto split: if_splits)
    qed
  qed
qed

text \<open>Every one of these operations keeps the store well-formed and every operation with its binding.\<close>

lemmas coordinator_wf = begin_step_wf finalize_step_wf mark_operation_state_wf enqueue_deferred_wf
  recover_after_crash_wf takeover_wf

section \<open>Witnesses\<close>

lemma example_open: "initialize_schema_locked example_db = Inr (False, example_db)"
  by (simp add: example_db_def initialize_schema_locked_def SCHEMA_tables_def
      read_schema_version_def SCHEMA_VERSION_def is_decimal_def is_digit_def parse_int_def)

lemma example_descriptor:
  "get_descriptor ''S01'' = Inr \<lparr> ed_effect_id = ''S01'', ed_impact = REQUIRED,
     ed_replay_class = POSTCONDITION_PROVABLE, ed_boundary = own_boundary \<rparr>"
  by (simp add: get_descriptor_eq CENSUS_def EFFECT_BOUNDARIES_def)

theorem begin_step_marks_started_witness:
  "case begin_step example_env ''op'' ''S01'' ''trw_deliver'' 41 2000 example_db of (res, db') \<Rightarrow>
     map_option st_attempt (get_step db' ''op'' ''S01'') = Some 2"
proof -
  have "op_state example_operation = Op_RUNNING" by (simp add: example_operation_def)
  moreover have "get_step example_db ''op'' ''S01'' = Some (example_step ''S01'' POSTCONDITION_PROVABLE St_STARTED)"
    by (simp add: get_step_def example_db_def step_key_def example_step_def)
  moreover have "st_attempt (example_step ''S01'' POSTCONDITION_PROVABLE St_STARTED) = 1" by (simp add: example_step_def)
  ultimately show ?thesis
    using begin_step_marks_started [OF example_open example_get example_descriptor, where E = example_env and owner = "''trw_deliver''"
        and pid = 41 and now = 2000]
    by (auto split: prod.splits)
qed

theorem finalize_step_carries_proof_witness:
  "case finalize_step ''op'' ''S01'' St_SUCCEEDED Dp_NONE [] 2000 example_db of (res, db') \<Rightarrow>
     map_option st_state (get_step db' ''op'' ''S01'') = Some St_SUCCEEDED \<and>
     map_option op_state (get_operation db' ''op'') = Some Op_RUNNING"
proof -
  have "op_state example_operation = Op_RUNNING" by (simp add: example_operation_def)
  then show ?thesis
    using finalize_step_carries_proof [OF example_open example_get example_descriptor _ wf_keys [OF example_wf],
        where state = St_SUCCEEDED and disposition = Dp_NONE and code = "[]" and now = 2000]
    by (auto split: prod.splits)
qed

theorem enqueue_bounded_witness:
  "case enqueue_deferred example_env ''op'' ''d'' 2000 example_db of (res, db') \<Rightarrow> \<exists>e. res = Inl e \<and> db' = example_db"
proof -
  have "map ql_operation_id (db_queue example_db) = [''op'']" by (simp add: example_tables example_ids)
  have "\<not> (map ql_operation_id (db_queue db') = [''op''] @ [''op''] \<and> wf_db db')" for db'
    by (auto simp: wf_defs unique_key_def)
  moreover have "wf_db (snd (enqueue_deferred example_env ''op'' ''d'' 2000 example_db))"
    using enqueue_deferred_wf [OF example_wf] by simp
  ultimately show ?thesis
    using enqueue_bounded [OF example_open wf_keys [OF example_wf], of example_env "''op''" "''d''" 2000]
    by (auto simp: example_tables example_ids split: prod.splits sum.splits)
qed

end
