(* ===== verification/Delivery_Actions.thy ===== *)
theory Delivery_Actions
  imports Delivery_Steps
begin

text \<open>
  The operator's recovery actions (\<^verbatim>\<open>trw_mcp/tools/_delivery_reconcile_actions.py\<close>,
  \<^verbatim>\<open>_delivery_resume_action.py\<close>) and their dispatch (\<^verbatim>\<open>delivery_recover\<close> of
  \<^verbatim>\<open>delivery_ops.py\<close>). Every action checks capability, expected revision and reason first.
\<close>

section \<open>The common gate\<close>

text \<open>\<open>reason.strip()\<close> is empty exactly when the reason is all blanks.\<close>

definition action_result :: "RecoverStatus \<Rightarrow> string \<Rightarrow> OperationRecord \<Rightarrow> RecoverResult" where
  "action_result status code op =
     (recover_result status code)\<lparr>rr_operation_id := op_operation_id op, rr_revision := op_revision op,
       rr_state := op_state op\<rparr>"

definition authorize_recovery ::
  "delivery_env \<Rightarrow> OperationRecord \<Rightarrow> string \<Rightarrow> int \<Rightarrow> string \<Rightarrow> string \<Rightarrow> RecoverResult option" where
  "authorize_recovery E operation capability_token expected_revision reason evidence_ref =
     (if strip is_str_space reason = [] then Some (action_result Rc_REJECTED ''empty_reason'' operation)
      else (case enforce_reason_bounds reason evidence_ref of
              Inl (RequestError code) \<Rightarrow> Some (action_result Rc_REJECTED code operation)
            | _ \<Rightarrow>
                if \<not> verify_capability (env_sha256 E) capability_token (op_capability_salt operation)
                     (op_capability_hash operation)
                then Some (action_result Rc_UNAUTHORIZED ''capability_mismatch'' operation)
                else if expected_revision \<noteq> op_revision operation
                then Some (action_result Rc_STALE_REVISION ''stale_revision'' operation)
                else None))"

section \<open>Reconciliation and cancellation\<close>

definition reconcile_effect_body ::
  "delivery_env \<Rightarrow> string \<Rightarrow> string \<Rightarrow> bool \<Rightarrow> string \<Rightarrow> int \<Rightarrow> string \<Rightarrow> string \<Rightarrow> int \<Rightarrow> RecoverResult tx" where
  "reconcile_effect_body E operation_id effect_id applied capability_token expected_revision reason
       evidence_ref now db =
     (case get_operation db operation_id of
        None \<Rightarrow> Inr (recover_result Rc_NOT_FOUND ''unknown_operation'', db)
      | Some op \<Rightarrow>
          (case authorize_recovery E op capability_token expected_revision reason evidence_ref of
             Some rejected \<Rightarrow> Inr (rejected, db)
           | None \<Rightarrow>
               (case get_descriptor effect_id of
                  Inl _ \<Rightarrow> Inr (action_result Rc_REJECTED ''unregistered_effect'' op, db)
                | Inr descriptor \<Rightarrow>
                    (case get_step db operation_id effect_id of
                       None \<Rightarrow> Inr (action_result Rc_REJECTED ''effect_not_reconcilable'' op, db)
                     | Some step \<Rightarrow>
                         if st_state step \<notin> {St_STARTED, St_INDETERMINATE}
                         then Inr (action_result Rc_REJECTED ''effect_not_reconcilable'' op, db)
                         else (let code = (if applied then ''confirmed_applied'' else ''confirmed_not_applied'');
                             new_step = step\<lparr>st_state := (if applied then St_SUCCEEDED else St_FAILED),
                               st_proof_ref := evidence_ref, st_proof_digest := env_sha256 E evidence_ref,
                               st_finding_code := code, st_updated_utc_ms := now\<rparr>;
                             event = \<lparr> ev_operation_id = operation_id,
                               ev_action = (if applied then Ra_RECONCILE_APPLIED else Ra_RECONCILE_NOT_APPLIED),
                               ev_reason = reason, ev_evidence_ref = evidence_ref,
                               ev_effect_id = ed_effect_id descriptor, ev_decided_utc_ms = now \<rparr>;
                             updated = op\<lparr>op_state := Op_RUNNING, op_revision := op_revision op + 1,
                               op_updated_utc_ms := now\<rparr>
                           in bindE (upsert_step operation_id new_step db) (\<lambda>db.
                              bindE (insert_recovery_event event db) (\<lambda>db.
                                Inr (action_result Rc_OK code updated, replace_operation updated db))))))))"

definition reconcile_effect ::
  "delivery_env \<Rightarrow> string \<Rightarrow> string \<Rightarrow> bool \<Rightarrow> string \<Rightarrow> int \<Rightarrow> string \<Rightarrow> string \<Rightarrow> int \<Rightarrow> RecoverResult api" where
  "reconcile_effect E operation_id effect_id applied capability_token expected_revision reason evidence_ref now =
     with_connection (immediate (reconcile_effect_body E operation_id effect_id applied capability_token
       expected_revision reason evidence_ref now))"

definition request_cancel_body ::
  "delivery_env \<Rightarrow> string \<Rightarrow> string \<Rightarrow> int \<Rightarrow> string \<Rightarrow> int \<Rightarrow> RecoverResult tx" where
  "request_cancel_body E operation_id capability_token expected_revision reason now db =
     (case get_operation db operation_id of
        None \<Rightarrow> Inr (recover_result Rc_NOT_FOUND ''unknown_operation'', db)
      | Some op \<Rightarrow>
          (case authorize_recovery E op capability_token expected_revision reason [] of
             Some rejected \<Rightarrow> Inr (rejected, db)
           | None \<Rightarrow>
               if op_state op \<in> set TERMINAL_OPERATION_STATES
               then Inr (action_result Rc_REJECTED ''operation_terminal'' op, db)
               else (let has_started = list_ex (\<lambda>s. st_state s = St_STARTED) (get_steps db operation_id);
                         state = (if has_started then Op_CANCEL_REQUESTED else Op_CANCELLED);
                         updated = op\<lparr>op_state := state, op_revision := op_revision op + 1,
                           op_updated_utc_ms := now,
                           op_terminal_utc_ms := (if state = Op_CANCELLED then now else 0)\<rparr>;
                         event = \<lparr> ev_operation_id = operation_id, ev_action = Ra_REQUEST_CANCEL,
                           ev_reason = reason, ev_evidence_ref = [], ev_effect_id = [],
                           ev_decided_utc_ms = now \<rparr>;
                         db = update_queue_state operation_id Qu_CANCELLED (replace_operation updated db)
                     in bindE (insert_recovery_event event db) (\<lambda>db.
                          Inr (action_result Rc_OK (OperationState_value state) updated, db)))))"

definition request_cancel :: "delivery_env \<Rightarrow> string \<Rightarrow> string \<Rightarrow> int \<Rightarrow> string \<Rightarrow> int \<Rightarrow> RecoverResult api" where
  "request_cancel E operation_id capability_token expected_revision reason now =
     with_connection (immediate (request_cancel_body E operation_id capability_token expected_revision reason now))"

section \<open>Resume\<close>

definition state_refusal :: "OperationRecord \<Rightarrow> RecoverResult option" where
  "state_refusal op =
     (if op_state op \<in> set TERMINAL_OPERATION_STATES
      then Some (fail_recovery Rc_REJECTED ''operation_terminal'' op)
      else if op_state op = Op_CANCEL_REQUESTED then Some (fail_recovery Rc_REJECTED ''cancel_requested'' op)
      else None)"

definition still_started :: "journal_db \<Rightarrow> string \<Rightarrow> string list" where
  "still_started db operation_id =
     sort (map st_effect_id (filter (\<lambda>s. st_state s = St_STARTED) (get_steps db operation_id)))"

definition grant_locked ::
  "string \<Rightarrow> string \<Rightarrow> int \<Rightarrow> string \<Rightarrow> int \<Rightarrow> int \<Rightarrow> RecoverResult tx" where
  "grant_locked operation_id owner pid reason now stale_ms db =
     (case get_operation db operation_id of
        None \<Rightarrow> Inr (recover_result Rc_NOT_FOUND ''unknown_operation'', db)
      | Some op \<Rightarrow>
          (let updated = op\<lparr>op_revision := op_revision op + 1, op_updated_utc_ms := now,
                 op_lease_owner := owner, op_lease_pid := pid, op_lease_expiry_utc_ms := now + stale_ms\<rparr>;
               event = \<lparr> ev_operation_id = operation_id, ev_action = Ra_RESUME, ev_reason = reason,
                 ev_evidence_ref = [], ev_effect_id = [], ev_decided_utc_ms = now \<rparr>
           in bindE (insert_recovery_event event (replace_operation updated db)) (\<lambda>db.
                Inr ((recover_result Rc_OK ''resume_granted'')\<lparr>rr_operation_id := operation_id,
                    rr_revision := op_revision updated, rr_lease_owner := owner,
                    rr_state := op_state updated\<rparr>, db))))"

definition resume_body ::
  "delivery_env \<Rightarrow> string \<Rightarrow> string \<Rightarrow> int \<Rightarrow> string \<Rightarrow> string \<Rightarrow> int \<Rightarrow> bool option \<Rightarrow> int \<Rightarrow> int
     \<Rightarrow> RecoverResult tx" where
  "resume_body E operation_id capability_token expected_revision reason owner pid owner_alive now now2 db =
     (case get_operation db operation_id of
        None \<Rightarrow> Inr (recover_result Rc_NOT_FOUND ''unknown_operation'', db)
      | Some op \<Rightarrow>
          (case authorize_recovery E op capability_token expected_revision reason [] of
             Some refusal \<Rightarrow> Inr (refusal, db)
           | None \<Rightarrow>
               (case state_refusal op of
                  Some refusal \<Rightarrow> Inr (refusal, db)
                | None \<Rightarrow>
                    (case lease_takeover_refusal E op now (stale_lease_ms E) owner_alive pid of
                       Some refusal \<Rightarrow> Inr (refusal, db)
                     | None \<Rightarrow>
                         bindE (recover_locked E operation_id now2 db) (\<lambda>(classified, db).
                           let unsettled = rr_indeterminate_effect_ids classified @ still_started db operation_id
                           in if unsettled \<noteq> []
                              then Inr (classified\<lparr>rr_status := Rc_REJECTED,
                                     rr_reason_code := ''reconciliation_required'',
                                     rr_indeterminate_effect_ids := sort (remdups unsettled)\<rparr>, db)
                              else grant_locked operation_id owner pid reason now (stale_lease_ms E) db)))))"

definition resume ::
  "delivery_env \<Rightarrow> string \<Rightarrow> string \<Rightarrow> int \<Rightarrow> string \<Rightarrow> string \<Rightarrow> int \<Rightarrow> bool option \<Rightarrow> int \<Rightarrow> int
     \<Rightarrow> RecoverResult api" where
  "resume E operation_id capability_token expected_revision reason new_owner new_pid owner_alive now now2 =
     with_connection (immediate (resume_body E operation_id capability_token expected_revision reason
       (if new_owner \<noteq> [] then new_owner else DELIVERY_JOURNAL_OWNER)
       (if new_pid > 0 then new_pid else env_pid E) owner_alive now now2))"

definition latest_resume_grant :: "journal_db \<Rightarrow> string \<Rightarrow> RecoveryEvent option" where
  "latest_resume_grant db operation_id =
     (let events = get_recovery_events db operation_id in
      if events = [] then None
      else if ev_action (last events) = Ra_RESUME then Some (last events) else None)"

section \<open>Dispatch\<close>

record recover_request =
  rc_delivery_id :: string
  rc_action :: string
  rc_capability_token :: string
  rc_expected_revision :: int
  rc_reason :: string
  rc_new_owner :: string
  rc_new_pid :: int
  rc_effect_id :: string
  rc_evidence_ref :: string

datatype recover_reply =
    Unsupported_action string "string list"
  | Invalid_request string
  | Recover_error string
  | Recovered RecoverResult

definition SUPPORTED_ACTIONS :: "string list" where
  "SUPPORTED_ACTIONS =
     [''takeover_pending'', ''resume'', ''reconcile_applied'', ''reconcile_not_applied'', ''request_cancel'']"

definition recover_call :: "delivery_env \<Rightarrow> recover_request \<Rightarrow> int \<Rightarrow> int \<Rightarrow> RecoverResult api" where
  "recover_call E q now now2 =
     (if rc_action q = ''takeover_pending''
      then takeover E (rc_delivery_id q) (rc_capability_token q) (rc_expected_revision q) (rc_reason q)
             (rc_new_owner q) (rc_new_pid q) None now
      else if rc_action q \<in> {''reconcile_applied'', ''reconcile_not_applied''}
      then reconcile_effect E (rc_delivery_id q) (rc_effect_id q) (rc_action q = ''reconcile_applied'')
             (rc_capability_token q) (rc_expected_revision q) (rc_reason q) (rc_evidence_ref q) now
      else if rc_action q = ''resume''
      then resume E (rc_delivery_id q) (rc_capability_token q) (rc_expected_revision q) (rc_reason q)
             (if rc_new_owner q \<noteq> [] then rc_new_owner q else DELIVERY_JOURNAL_OWNER) (rc_new_pid q) None now now2
      else request_cancel E (rc_delivery_id q) (rc_capability_token q) (rc_expected_revision q) (rc_reason q) now)"

definition delivery_recover ::
  "delivery_env \<Rightarrow> recover_request \<Rightarrow> int \<Rightarrow> int \<Rightarrow> journal_db \<Rightarrow> recover_reply \<times> journal_db" where
  "delivery_recover E q now now2 db =
     (if rc_action q \<notin> set SUPPORTED_ACTIONS
      then (Unsupported_action (rc_action q) SUPPORTED_ACTIONS, db)
      else if rc_action q = ''resume'' \<and> rc_new_pid q \<le> 0
      then (Invalid_request ''resume_needs_server_pid'', db)
      else (case enforce_reason_bounds (rc_reason q) (rc_evidence_ref q) of
              Inl (RequestError code) \<Rightarrow> (Invalid_request code, db)
            | _ \<Rightarrow>
                (case recover_call E q now now2 db of
                   (Inl _, db') \<Rightarrow> (Recover_error ''recover_unavailable'', db')
                 | (Inr r, db') \<Rightarrow> (Recovered r, db'))))"

section \<open>The gate\<close>

definition authorized_for :: "delivery_env \<Rightarrow> OperationRecord \<Rightarrow> string \<Rightarrow> int \<Rightarrow> string \<Rightarrow> string \<Rightarrow> bool" where
  "authorized_for E op tok erev reason ref \<longleftrightarrow>
     strip is_str_space reason \<noteq> [] \<and> length reason \<le> MAX_REASON_CHARS \<and> length ref \<le> MAX_EVIDENCE_REF_CHARS \<and>
     verify_capability (env_sha256 E) tok (op_capability_salt op) (op_capability_hash op) \<and> erev = op_revision op"

lemma authorize_recovery_None:
  "authorize_recovery E op tok erev reason ref = None \<longleftrightarrow> authorized_for E op tok erev reason ref"
  by (auto simp: authorize_recovery_def authorized_for_def enforce_reason_bounds_def)

lemma authorize_recovery_Some:
  "authorize_recovery E op tok erev reason ref = Some r \<Longrightarrow>
     rr_status r \<noteq> Rc_OK \<and> \<not> authorized_for E op tok erev reason ref"
  by (auto simp: authorize_recovery_def authorized_for_def enforce_reason_bounds_def action_result_def
      recover_result_def split: if_splits)

lemma result_status [simp]:
  "rr_status (recover_result s c) = s" "rr_status (action_result s c op) = s" "rr_status (fail_recovery s c op) = s"
  by (simp_all add: recover_result_def action_result_def fail_recovery_def)

section \<open>What an action does\<close>

definition reconciled_step :: "bool \<Rightarrow> delivery_env \<Rightarrow> string \<Rightarrow> int \<Rightarrow> StepRecord \<Rightarrow> StepRecord" where
  "reconciled_step applied E ref now step =
     step\<lparr>st_state := (if applied then St_SUCCEEDED else St_FAILED), st_proof_ref := ref,
       st_proof_digest := env_sha256 E ref,
       st_finding_code := (if applied then ''confirmed_applied'' else ''confirmed_not_applied''),
       st_updated_utc_ms := now\<rparr>"

definition reconcilable :: "journal_db \<Rightarrow> string \<Rightarrow> string \<Rightarrow> StepRecord option" where
  "reconcilable db k e =
     (case get_descriptor e of Inl _ \<Rightarrow> None
      | Inr _ \<Rightarrow> (case get_step db k e of None \<Rightarrow> None
          | Some s \<Rightarrow> if st_state s \<in> {St_STARTED, St_INDETERMINATE} then Some s else None))"

definition running_again :: "int \<Rightarrow> OperationRecord \<Rightarrow> OperationRecord" where
  "running_again now op = op\<lparr>op_state := Op_RUNNING, op_revision := op_revision op + 1, op_updated_utc_ms := now\<rparr>"

lemma reconcile_cases:
  assumes "get_operation db k = Some op"
  shows "\<exists>r. reconcile_effect_body E k e applied tok erev reason ref now db =
    Inr (r, case reconcilable db k e of
       None \<Rightarrow> db
     | Some s \<Rightarrow>
         if authorized_for E op tok erev reason ref
         then (let db1 = replace_operation (running_again now op) (write_step (k, reconciled_step applied E ref now s) db)
           in db1\<lparr>db_events := db_events db @ [\<lparr> ev_operation_id = k,
             ev_action = (if applied then Ra_RECONCILE_APPLIED else Ra_RECONCILE_NOT_APPLIED), ev_reason = reason,
             ev_evidence_ref = ref, ev_effect_id = e, ev_decided_utc_ms = now \<rparr>]\<rparr>)
         else db) \<and>
    (rr_status r = Rc_OK \<longleftrightarrow> authorized_for E op tok erev reason ref \<and> reconcilable db k e \<noteq> None)"
proof (cases "authorize_recovery E op tok erev reason ref")
  case (Some r)
  then show ?thesis
    using assms authorize_recovery_Some [OF Some] by (auto simp: reconcile_effect_body_def split: option.split)
next
  case None
  then have ok: "authorized_for E op tok erev reason ref" by (simp add: authorize_recovery_None)
  show ?thesis
  proof (cases "reconcilable db k e")
    case not: None
    then show ?thesis
      using assms None
      by (auto simp: reconcile_effect_body_def reconcilable_def split: sum.splits option.splits)
  next
    case (Some s)
    then obtain d where d: "get_descriptor e = Inr d" and s: "get_step db k e = Some s"
      and st: "st_state s \<in> {St_STARTED, St_INDETERMINATE}"
      by (auto simp: reconcilable_def split: sum.splits option.splits if_splits)
    have id: "ed_effect_id d = e" by (rule get_descriptor_id [OF d])
    have "db_events (write_step x db) = db_events db" for x by (simp add: write_step_def)
    moreover have "replace_operation op' (b\<lparr>db_events := es\<rparr>) = (replace_operation op' b)\<lparr>db_events := es\<rparr>" for op' b es
      by (simp add: replace_operation_def)
    ultimately show ?thesis
      using assms None ok st
      by (simp add: reconcile_effect_body_def Some d s id upsert_step_def insert_recovery_event_def row_laws
          reconciled_step_def running_again_def Let_def)
  qed
qed

definition cancelled_operation :: "journal_db \<Rightarrow> string \<Rightarrow> int \<Rightarrow> OperationRecord \<Rightarrow> OperationRecord" where
  "cancelled_operation db k now op =
     (let started = list_ex (\<lambda>s. st_state s = St_STARTED) (get_steps db k) in
      op\<lparr>op_state := (if started then Op_CANCEL_REQUESTED else Op_CANCELLED), op_revision := op_revision op + 1,
        op_updated_utc_ms := now, op_terminal_utc_ms := (if started then 0 else now)\<rparr>)"

lemma cancel_cases:
  assumes "get_operation db k = Some op"
  shows "\<exists>r. request_cancel_body E k tok erev reason now db =
    Inr (r, if authorized_for E op tok erev reason [] \<and> op_state op \<notin> set TERMINAL_OPERATION_STATES
       then (let db1 = update_queue_state k Qu_CANCELLED (replace_operation (cancelled_operation db k now op) db)
         in db1\<lparr>db_events := db_events db @ [\<lparr> ev_operation_id = k, ev_action = Ra_REQUEST_CANCEL,
           ev_reason = reason, ev_evidence_ref = [], ev_effect_id = [], ev_decided_utc_ms = now \<rparr>]\<rparr>)
       else db) \<and>
    (rr_status r = Rc_OK \<longleftrightarrow>
       authorized_for E op tok erev reason [] \<and> op_state op \<notin> set TERMINAL_OPERATION_STATES)"
proof (cases "authorize_recovery E op tok erev reason []")
  case (Some r)
  then show ?thesis
    using assms authorize_recovery_Some [OF Some] by (auto simp: request_cancel_body_def)
next
  case None
  then have ok: "authorized_for E op tok erev reason []" by (simp add: authorize_recovery_None)
  have id: "op_operation_id op = k" by (rule get_operation_id [OF assms])
  have "db_events (update_queue_state i q b) = db_events b" for i q b by (simp add: update_queue_state_def)
  then show ?thesis
    using assms None ok id
    by (auto simp: request_cancel_body_def insert_recovery_event_def row_laws cancelled_operation_def Let_def)
qed

section \<open>Guarded actions\<close>

text \<open>What every recovery action promises its caller: a refusal leaves the store as it was, a granted action
  keeps every operation's binding and the well-formedness of the store.\<close>

locale guarded_action =
  fixes body :: "RecoverResult tx" and now :: int
  assumes refused: "body db = Inr (r, db') \<Longrightarrow> rr_status r \<noteq> Rc_OK \<Longrightarrow> db' = db"
    and total: "\<exists>r db'. body db = Inr (r, db')"
    and keeps: "body db = Inr (r, db') \<Longrightarrow> keeps_operations db db'"
    and sound: "wf_db db \<Longrightarrow> 0 \<le> now \<Longrightarrow> body db = Inr (r, db') \<Longrightarrow> wf_db db'"
begin

lemma run:
  assumes "initialize_schema_locked db = Inr (c, db)"
  shows "\<exists>r db'. body db = Inr (r, db') \<and> with_connection (immediate body) db = (Inr r, db')"
  using total [of db] by (auto simp: api_body [OF assms])

lemma refusal_changes_nothing:
  assumes "initialize_schema_locked db = Inr (c, db)"
  shows "case with_connection (immediate body) db of (res, db') \<Rightarrow>
    \<exists>r. res = Inr r \<and> (rr_status r = Rc_OK \<or> db' = db) \<and> keeps_operations db db'"
  using run [OF assms] refused keeps by fastforce

lemma run_wf:
  assumes "wf_db db" "0 \<le> now"
  shows "wf_db (snd (with_connection (immediate body) db)) \<and> keeps_operations db (snd (with_connection (immediate body) db))"
  by (rule wf_keeps_api [OF assms(1)]) (use sound [OF _ assms(2)] keeps in blast)

end

lemma valid_reason: "authorized_for E op tok erev reason ref \<Longrightarrow>
    length reason \<le> MAX_REASON_CHARS \<and> length ref \<le> MAX_EVIDENCE_REF_CHARS"
  by (simp add: authorized_for_def)

lemma reconcilable_D:
  "reconcilable db k e = Some s \<Longrightarrow> get_step db k e = Some s \<and> st_effect_id s = e"
  by (auto simp: reconcilable_def dest: get_step_mem split: sum.splits option.splits if_splits)

text \<open>Writing an operation back together with its audit row.\<close>

lemma audited:
  assumes op: "get_operation db k = Some op" and "op_operation_id op' = k"
    and "op_evolves op (replaced_columns op' op)" and "ev_operation_id ev = k"
  shows "keeps_operations db ((replace_operation op' db)\<lparr>db_events := db_events db @ [ev]\<rparr>)"
    and "wf_db db \<Longrightarrow> valid_operation op' \<Longrightarrow> valid_recovery_event ev \<Longrightarrow>
      wf_db ((replace_operation op' db)\<lparr>db_events := db_events db @ [ev]\<rparr>)"
proof -
  have "keeps_operations db (replace_operation op' db)"
    using assms get_operation_id [OF op] by (intro keeps_replace [where op = op]) simp_all
  then show "keeps_operations db ((replace_operation op' db)\<lparr>db_events := db_events db @ [ev]\<rparr>)"
    by (rule keeps_then) (simp add: row_laws)
  assume "wf_db db" "valid_operation op'" "valid_recovery_event ev"
  moreover from this have "wf_db (replace_operation op' db)" by (intro wf_replace_operation)
  ultimately show "wf_db ((replace_operation op' db)\<lparr>db_events := db_events db @ [ev]\<rparr>)"
    using wf_insert_event [of "replace_operation op' db" ev] assms by (simp add: row_laws)
qed

definition reconcile_event :: "string \<Rightarrow> string \<Rightarrow> bool \<Rightarrow> string \<Rightarrow> string \<Rightarrow> int \<Rightarrow> RecoveryEvent" where
  "reconcile_event k e applied reason ref now =
     \<lparr> ev_operation_id = k, ev_action = (if applied then Ra_RECONCILE_APPLIED else Ra_RECONCILE_NOT_APPLIED),
       ev_reason = reason, ev_evidence_ref = ref, ev_effect_id = e, ev_decided_utc_ms = now \<rparr>"

definition reconciled_db ::
  "delivery_env \<Rightarrow> string \<Rightarrow> string \<Rightarrow> bool \<Rightarrow> string \<Rightarrow> string \<Rightarrow> int \<Rightarrow> OperationRecord \<Rightarrow> StepRecord \<Rightarrow> journal_db \<Rightarrow> journal_db" where
  "reconciled_db E k e applied reason ref now op s db =
     (replace_operation (running_again now op) (write_step (k, reconciled_step applied E ref now s) db))
       \<lparr>db_events := db_events db @ [reconcile_event k e applied reason ref now]\<rparr>"

lemma reconciled_db_ok:
  assumes op: "get_operation db k = Some op" and s: "reconcilable db k e = Some s"
    and ok: "authorized_for E op tok erev reason ref"
  shows "keeps_operations db (reconciled_db E k e applied reason ref now op s db)"
    and "wf_db db \<Longrightarrow> 0 \<le> now \<Longrightarrow> wf_db (reconciled_db E k e applied reason ref now op s db)"
proof -
  let ?w = "write_step (k, reconciled_step applied E ref now s) db"
  have id: "op_operation_id op = k" by (rule get_operation_id [OF op])
  have w: "get_operation ?w k = Some op" "db_events ?w = db_events db" by (simp_all add: row_laws op) (simp add: write_step_def)
  have ev: "op_evolves op (replaced_columns (running_again now op) op)"
    by (simp add: evolves_simps running_again_def)
  note aud = audited [OF w(1) _ ev, of "reconcile_event k e applied reason ref now", unfolded w(2)]
  have "keeps_operations ?w (reconciled_db E k e applied reason ref now op s db)"
    unfolding reconciled_db_def by (rule aud(1)) (simp_all add: id running_again_def reconcile_event_def)
  then show "keeps_operations db (reconciled_db E k e applied reason ref now op s db)"
    by (rule keeps_trans [OF keeps_frame, rotated]) (simp add: row_laws)
  assume wf: "wf_db db" and now: "0 \<le> now"
  have "valid_step s \<and> registered_step s"
    using wf get_step_mem [of db k e s] reconcilable_D [OF s] by (fastforce simp: wf_defs list_all_iff)
  then have "valid_step (reconciled_step applied E ref now s)" "registered_step (reconciled_step applied E ref now s)"
    using now valid_reason [OF ok] by (auto simp: valid_step_def registered_step_iff reconciled_step_def)
  then have "wf_db ?w" using wf op by (intro wf_write_step) simp_all
  moreover have "valid_operation (running_again now op)"
    by (rule valid_revision [OF wf_operation [OF wf op] now]) (simp_all add: running_again_def)
  ultimately show "wf_db (reconciled_db E k e applied reason ref now op s db)"
    unfolding reconciled_db_def using now valid_reason [OF ok]
    by (intro aud(2)) (simp_all add: id running_again_def reconcile_event_def valid_recovery_event_def)
qed

lemma reconcile_result:
  "\<exists>r db'. reconcile_effect_body E k e applied tok erev reason ref now db = Inr (r, db') \<and>
     (case get_operation db k of
        None \<Rightarrow> db' = db \<and> rr_status r = Rc_NOT_FOUND
      | Some op \<Rightarrow>
          (case reconcilable db k e of
             None \<Rightarrow> db' = db \<and> rr_status r \<noteq> Rc_OK
           | Some s \<Rightarrow>
               if authorized_for E op tok erev reason ref
               then db' = reconciled_db E k e applied reason ref now op s db \<and> rr_status r = Rc_OK
               else db' = db \<and> rr_status r \<noteq> Rc_OK))"
proof (cases "get_operation db k")
  case None
  then show ?thesis by (simp add: reconcile_effect_body_def)
next
  case (Some op)
  from reconcile_cases [OF this, of E e applied tok erev reason ref now] show ?thesis
    using Some by (auto simp: reconciled_db_def reconcile_event_def Let_def split: option.splits)
qed

interpretation reconcile: guarded_action "reconcile_effect_body E k e applied tok erev reason ref now" now
  for E k e applied tok erev reason ref now
proof unfold_locales
  fix db r db'
  note spec = reconcile_result [of E k e applied tok erev reason ref now db]
  show "\<exists>r db'. reconcile_effect_body E k e applied tok erev reason ref now db = Inr (r, db')"
    using spec by blast
  assume run: "reconcile_effect_body E k e applied tok erev reason ref now db = Inr (r, db')"
  show "db' = db" if "rr_status r \<noteq> Rc_OK"
    using spec that run by (auto split: option.splits if_splits)
  show "keeps_operations db db'"
    using spec run reconciled_db_ok(1) by (auto simp: keeps_refl split: option.splits if_splits)
  show "wf_db db'" if "wf_db db" "0 \<le> now"
    using spec run reconciled_db_ok(2) that by (auto split: option.splits if_splits)
qed

definition cancel_event :: "string \<Rightarrow> string \<Rightarrow> int \<Rightarrow> RecoveryEvent" where
  "cancel_event k reason now = \<lparr> ev_operation_id = k, ev_action = Ra_REQUEST_CANCEL, ev_reason = reason,
     ev_evidence_ref = [], ev_effect_id = [], ev_decided_utc_ms = now \<rparr>"

definition cancelled_db :: "string \<Rightarrow> string \<Rightarrow> int \<Rightarrow> OperationRecord \<Rightarrow> journal_db \<Rightarrow> journal_db" where
  "cancelled_db k reason now op db =
     (let db0 = update_queue_state k Qu_CANCELLED db in
      (replace_operation (cancelled_operation db k now op) db0)\<lparr>db_events := db_events db0 @ [cancel_event k reason now]\<rparr>)"

lemma cancelled_db_ok:
  assumes op: "get_operation db k = Some op" and ok: "authorized_for E op tok erev reason []"
  shows "keeps_operations db (cancelled_db k reason now op db)"
    and "wf_db db \<Longrightarrow> 0 \<le> now \<Longrightarrow> wf_db (cancelled_db k reason now op db)"
proof -
  let ?q = "update_queue_state k Qu_CANCELLED db"
  have id: "op_operation_id op = k" by (rule get_operation_id [OF op])
  have q: "get_operation ?q k = Some op" by (simp add: row_laws op)
  have ev: "op_evolves op (replaced_columns (cancelled_operation db k now op) op)"
    by (simp add: evolves_simps cancelled_operation_def Let_def)
  note aud = audited [OF q _ ev, of "cancel_event k reason now"]
  have "keeps_operations ?q (cancelled_db k reason now op db)"
    unfolding cancelled_db_def Let_def
    by (rule aud(1)) (simp_all add: id cancelled_operation_def cancel_event_def Let_def)
  then show "keeps_operations db (cancelled_db k reason now op db)"
    by (rule keeps_trans [OF keeps_frame, rotated]) (simp add: row_laws)
  assume wf: "wf_db db" and now: "0 \<le> now"
  have "valid_operation (cancelled_operation db k now op)"
    by (rule valid_revision [OF wf_operation [OF wf op] now]) (simp_all add: cancelled_operation_def Let_def)
  then show "wf_db (cancelled_db k reason now op db)"
    unfolding cancelled_db_def Let_def using now valid_reason [OF ok] wf
    by (intro aud(2) wf_update_queue_state)
      (simp_all add: id cancelled_operation_def cancel_event_def valid_recovery_event_def Let_def)
qed

lemma cancel_result:
  "\<exists>r db'. request_cancel_body E k tok erev reason now db = Inr (r, db') \<and>
     (case get_operation db k of
        None \<Rightarrow> db' = db \<and> rr_status r = Rc_NOT_FOUND
      | Some op \<Rightarrow>
          if authorized_for E op tok erev reason [] \<and> op_state op \<notin> set TERMINAL_OPERATION_STATES
          then db' = cancelled_db k reason now op db \<and> rr_status r = Rc_OK
          else db' = db \<and> rr_status r \<noteq> Rc_OK)"
proof (cases "get_operation db k")
  case None
  then show ?thesis by (simp add: request_cancel_body_def)
next
  case (Some op)
  have "update_queue_state k Qu_CANCELLED (replace_operation o' db) = replace_operation o' (update_queue_state k Qu_CANCELLED db)"
    "db_events (update_queue_state k Qu_CANCELLED db) = db_events db" for o'
    by (simp_all add: update_queue_state_def replace_operation_def)
  then show ?thesis
    using Some cancel_cases [OF Some, of E tok erev reason now]
    by (auto simp: cancelled_db_def cancel_event_def Let_def)
qed

interpretation cancel: guarded_action "request_cancel_body E k tok erev reason now" now
  for E k tok erev reason now
proof unfold_locales
  fix db r db'
  note spec = cancel_result [of E k tok erev reason now db]
  show "\<exists>r db'. request_cancel_body E k tok erev reason now db = Inr (r, db')"
    using spec by blast
  assume run: "request_cancel_body E k tok erev reason now db = Inr (r, db')"
  show "db' = db" if "rr_status r \<noteq> Rc_OK"
    using spec that run by (auto split: option.splits if_splits)
  show "keeps_operations db db'"
    using spec run cancelled_db_ok(1) by (auto simp: keeps_refl split: option.splits if_splits)
  show "wf_db db'" if "wf_db db" "0 \<le> now"
    using spec run cancelled_db_ok(2) that by (auto split: option.splits if_splits)
qed

lemma takeover_total: "\<exists>r db'. takeover_body E k tok erev reason owner pid alive now db = Inr (r, db')"
  using authorize_takeover_cases [of db k _ E tok erev reason owner pid now "stale_lease_ms E" alive]
  by (cases "get_operation db k") (auto simp: takeover_body_def)

interpretation takeover: guarded_action "takeover_body E k tok erev reason owner pid alive now" now
  for E k tok erev reason owner pid alive now
  by unfold_locales (auto intro: takeover_total dest: takeover_body_wf)

section \<open>Resume, step by step\<close>

lemma state_refusal_simps:
  "state_refusal op = None \<longleftrightarrow> op_state op \<notin> {Op_SUCCEEDED, Op_FAILED, Op_CANCELLED, Op_CANCEL_REQUESTED}"
  "state_refusal op = Some r \<Longrightarrow> rr_status r \<noteq> Rc_OK"
  by (auto simp: state_refusal_def TERMINAL_OPERATION_STATES_def split: if_splits)

definition resumable :: "delivery_env \<Rightarrow> OperationRecord \<Rightarrow> string \<Rightarrow> int \<Rightarrow> string \<Rightarrow> int \<Rightarrow> int \<Rightarrow> bool option \<Rightarrow> bool" where
  "resumable E op tok erev reason pid now alive \<longleftrightarrow>
     authorized_for E op tok erev reason [] \<and>
     op_state op \<notin> {Op_SUCCEEDED, Op_FAILED, Op_CANCELLED, Op_CANCEL_REQUESTED} \<and>
     lease_takeable E op now (stale_lease_ms E) alive pid"

lemma resume_refused:
  assumes "get_operation db k = Some op" and "\<not> resumable E op tok erev reason pid now alive"
  shows "\<exists>r. resume_body E k tok erev reason owner pid alive now now2 db = Inr (r, db) \<and> rr_status r \<noteq> Rc_OK"
  using assms authorize_recovery_None [of E op tok erev reason "[]"] authorize_recovery_Some [of E op tok erev reason "[]"]
    state_refusal_simps [of op] lease_takeover_refusal_None [of E op now "stale_lease_ms E" alive pid]
    lease_takeover_refusal_Some [of E op now "stale_lease_ms E" alive pid]
  by (auto simp: resume_body_def resumable_def split: option.split)

definition any_started :: "journal_db \<Rightarrow> string \<Rightarrow> bool" where
  "any_started db k \<longleftrightarrow> list_ex (\<lambda>s. st_state s = St_STARTED) (get_steps db k)"

lemma any_started_iff:
  assumes "keys_ok db"
  shows "any_started db k \<longleftrightarrow> (\<exists>e s. get_step db k e = Some s \<and> st_state s = St_STARTED)"
proof -
  have "any_started db k \<longleftrightarrow> (\<exists>s. get_step db k (st_effect_id s) = Some s \<and> st_state s = St_STARTED)"
    using mem_get_steps [OF assms, of _ k] by (auto simp: any_started_def list_ex_iff)
  also have "\<dots> \<longleftrightarrow> (\<exists>e s. get_step db k e = Some s \<and> st_state s = St_STARTED)"
    using get_step_mem [of db k] by blast
  finally show ?thesis .
qed

lemma sort_empty [simp]: "sort xs = [] \<longleftrightarrow> xs = []"
  by (metis length_0_conv length_sort)

lemma still_started_empty: "still_started db k = [] \<longleftrightarrow> \<not> any_started db k"
  by (simp add: still_started_def any_started_def list_ex_iff filter_empty_conv)

text \<open>The store a granted resume leaves: the classifier's row and the fresh lease, two audit rows.\<close>

definition granted_db :: "delivery_env \<Rightarrow> string \<Rightarrow> string \<Rightarrow> int \<Rightarrow> string \<Rightarrow> int \<Rightarrow> int \<Rightarrow> OperationRecord \<Rightarrow> journal_db \<Rightarrow> journal_db" where
  "granted_db E k owner pid reason now now2 op db =
     (let db1 = crash_recovered_db op now2 (crash_event op now2) db;
          op1 = recovered_operation (map st_effect_id (filter crashing (get_steps db k))) now2 op
      in (replace_operation (leased op1 owner pid now (stale_lease_ms E)) db1)\<lparr>db_events := db_events db1 @
           [\<lparr> ev_operation_id = k, ev_action = Ra_RESUME, ev_reason = reason, ev_evidence_ref = [],
              ev_effect_id = [], ev_decided_utc_ms = now \<rparr>]\<rparr>)"

lemma grant_locked_eq:
  assumes "get_operation db k = Some op"
  shows "\<exists>r. grant_locked k owner pid reason now stale db =
    Inr (r, (replace_operation (leased op owner pid now stale) db)\<lparr>db_events := db_events db @
           [\<lparr> ev_operation_id = k, ev_action = Ra_RESUME, ev_reason = reason, ev_evidence_ref = [],
              ev_effect_id = [], ev_decided_utc_ms = now \<rparr>]\<rparr>) \<and>
      rr_status r = Rc_OK \<and> rr_revision r = op_revision op + 1"
  using assms get_operation_id [OF assms]
  by (auto simp: grant_locked_def insert_recovery_event_def row_laws leased_def Let_def recover_result_def)

lemma unsettled_empty:
  assumes wf: "wf_db db" "0 \<le> now" and op: "get_operation db k = Some op"
  shows "rr_indeterminate_effect_ids (crash_recovered_result op db) @
      still_started (crash_recovered_db op now (crash_event op now) db) k = [] \<longleftrightarrow> \<not> any_started db k"
proof -
  let ?db1 = "crash_recovered_db op now (crash_event op now) db"
  have id: "op_operation_id op = k" by (rule get_operation_id [OF op])
  have keys: "keys_ok db" by (rule wf_keys [OF wf(1)])
  have keys1: "keys_ok ?db1" by (rule wf_keys [OF wf_crash_recovered [OF wf(1) op wf(2)]])
  note step1 = crash_recovered_reads(1) [OF keys op refl, where now = now and event = "crash_event op now"]
  have "map st_effect_id (filter crashing (get_steps db k)) = [] \<longleftrightarrow>
      \<not> (\<exists>e s. get_step db k e = Some s \<and> st_state s = St_STARTED \<and> st_replay_class s = NON_REPLAYABLE)"
    unfolding set_empty [symmetric] crashing_ids [OF keys] by blast
  then have ind: "rr_indeterminate_effect_ids (crash_recovered_result op db) = [] \<longleftrightarrow>
      \<not> (\<exists>e s. get_step db k e = Some s \<and> st_state s = St_STARTED \<and> st_replay_class s = NON_REPLAYABLE)"
    by (simp add: crash_recovered_result_def Let_def id)
  define f where "f s = (if crashing s then crashed_step now s else s)" for s
  have f: "st_state (f s) = St_STARTED \<longleftrightarrow> st_state s = St_STARTED \<and> st_replay_class s \<noteq> NON_REPLAYABLE" for s
    by (auto simp add: f_def crashing_def crashed_step_def)
  have "get_step ?db1 k e = map_option f (get_step db k e)" for e by (simp add: step1 f_def [abs_def])
  then have "any_started ?db1 k \<longleftrightarrow>
      (\<exists>e s. get_step db k e = Some s \<and> st_state s = St_STARTED \<and> st_replay_class s \<noteq> NON_REPLAYABLE)"
    unfolding any_started_iff [OF keys1] f [symmetric] by (simp only: map_option_eq_Some) blast
  then show ?thesis
    unfolding append_is_Nil_conv ind still_started_empty any_started_iff [OF keys] by blast
qed

lemma resume_admitted:
  assumes wf: "wf_db db" "0 \<le> now2" and op: "get_operation db k = Some op" and clock: "now \<le> now2"
    and ok: "resumable E op tok erev reason pid now alive"
  shows "\<exists>r. resume_body E k tok erev reason owner pid alive now now2 db =
      Inr (r, if any_started db k then crash_recovered_db op now2 (crash_event op now2) db
              else granted_db E k owner pid reason now now2 op db) \<and>
    (rr_status r = Rc_OK \<longleftrightarrow> \<not> any_started db k) \<and>
    (any_started db k \<longrightarrow> rr_status r = Rc_REJECTED \<and> rr_reason_code r = ''reconciliation_required'')"
proof -
  let ?db1 = "crash_recovered_db op now2 (crash_event op now2) db"
  have "\<not> lease_valid E op now2"
    using ok clock by (auto simp: resumable_def lease_takeable_def lease_valid_def split: if_splits)
  then have rec: "recover_locked E k now2 db = Inr (crash_recovered_result op db, ?db1)"
    using op apply_crash_recovery_eq [OF wf(1) op] by (simp add: recover_locked_def)
  have gates: "authorize_recovery E op tok erev reason [] = None" "state_refusal op = None"
    "lease_takeover_refusal E op now (stale_lease_ms E) alive pid = None"
    using ok by (simp_all add: resumable_def authorize_recovery_None state_refusal_simps lease_takeover_refusal_None)
  have get1: "get_operation ?db1 k =
      Some (recovered_operation (map st_effect_id (filter crashing (get_steps db k))) now2 op)"
    using crash_recovered_reads(2) [OF wf_keys [OF wf(1)] op refl] by simp
  show ?thesis
    using grant_locked_eq [OF get1, of owner pid reason now "stale_lease_ms E"] unsettled_empty [OF wf op]
    by (cases "any_started db k")
      (auto simp: resume_body_def op gates rec granted_db_def Let_def simp del: append_is_Nil_conv)
qed

lemma granted_db_reads:
  assumes wf: "wf_db db" and op: "get_operation db k = Some op" and none: "\<not> any_started db k"
  shows "get_step (granted_db E k owner pid reason now now2 op db) k' e = get_step db k' e"
    and "get_operation (granted_db E k owner pid reason now now2 op db) k' =
      (if k' = k then Some (op\<lparr>op_revision := op_revision op + 2, op_updated_utc_ms := now, op_lease_owner := owner,
           op_lease_pid := pid, op_lease_expiry_utc_ms := now + stale_lease_ms E\<rparr>)
       else get_operation db k')"
    and "last (get_recovery_events (granted_db E k owner pid reason now now2 op db) k) =
      \<lparr> ev_operation_id = k, ev_action = Ra_RESUME, ev_reason = reason, ev_evidence_ref = [], ev_effect_id = [],
        ev_decided_utc_ms = now \<rparr>"
    and "get_recovery_events (granted_db E k owner pid reason now now2 op db) k \<noteq> []"
proof -
  let ?db1 = "crash_recovered_db op now2 (crash_event op now2) db"
  have id: "op_operation_id op = k" by (rule get_operation_id [OF op])
  have keys: "keys_ok db" by (rule wf_keys [OF wf])
  note reads = crash_recovered_reads [OF keys op refl, where now = now2 and event = "crash_event op now2"]
  have settled: "\<not> crashing s" if "get_step db k e = Some s" for e s
    using none that unfolding any_started_iff [OF keys] crashing_def by blast
  have no_ind: "filter crashing (get_steps db k) = []"
    using mem_get_steps [OF keys, of _ k] settled by (auto simp: filter_empty_conv)
  show "get_step (granted_db E k owner pid reason now now2 op db) k' e = get_step db k' e"
    using settled by (cases "get_step db k e") (auto simp: granted_db_def Let_def row_laws reads)
  show "get_operation (granted_db E k owner pid reason now now2 op db) k' =
      (if k' = k then Some (op\<lparr>op_revision := op_revision op + 2, op_updated_utc_ms := now, op_lease_owner := owner,
           op_lease_pid := pid, op_lease_expiry_utc_ms := now + stale_lease_ms E\<rparr>)
       else get_operation db k')"
    by (simp add: granted_db_def Let_def row_laws reads no_ind id recovered_operation_def leased_def replaced_columns_def)
  show "last (get_recovery_events (granted_db E k owner pid reason now now2 op db) k) =
      \<lparr> ev_operation_id = k, ev_action = Ra_RESUME, ev_reason = reason, ev_evidence_ref = [], ev_effect_id = [],
        ev_decided_utc_ms = now \<rparr>" "get_recovery_events (granted_db E k owner pid reason now now2 op db) k \<noteq> []"
    by (simp_all add: granted_db_def Let_def get_recovery_events_def)
qed

lemma crash_recovered_keeps:
  assumes "wf_db db" "get_operation db k = Some op"
  shows "keeps_operations db (crash_recovered_db op now (crash_event op now) db)"
  using assms(2) crash_recovered_reads(2) [OF wf_keys [OF assms(1)] assms(2) refl, where now = now and event = "crash_event op now"]
  by (auto simp: keeps_operations_def op_evolves_refl evolves_simps recovered_operation_def split: option.splits)

lemma resume_body_wf:
  assumes "resume_body E k tok erev reason owner pid alive now now2 db = Inr (r, db')"
    and wf: "wf_db db" and now: "0 \<le> now" "now \<le> now2"
  shows "wf_db db' \<and> keeps_operations db db'"
proof (cases "get_operation db k")
  case None
  then show ?thesis using assms by (auto simp: resume_body_def keeps_refl)
next
  case (Some op)
  let ?db1 = "crash_recovered_db op now2 (crash_event op now2) db"
  let ?op1 = "recovered_operation (map st_effect_id (filter crashing (get_steps db k))) now2 op"
  have id: "op_operation_id op = k" by (rule get_operation_id [OF Some])
  have now2: "0 \<le> now2" using now by simp
  show ?thesis
  proof (cases "resumable E op tok erev reason pid now alive")
    case False
    then show ?thesis using resume_refused [OF Some, of E tok erev reason pid now alive owner now2] assms
      by (auto simp: keeps_refl)
  next
    case True
    have wf1: "wf_db ?db1" "keeps_operations db ?db1"
      using wf_crash_recovered [OF wf Some now2] crash_recovered_keeps [OF wf Some] by simp_all
    have get1: "get_operation ?db1 k = Some ?op1"
      using crash_recovered_reads(2) [OF wf_keys [OF wf] Some refl] by simp
    have reason: "length reason \<le> MAX_REASON_CHARS" using True by (simp add: resumable_def authorized_for_def)
    have "keeps_operations ?db1 (granted_db E k owner pid reason now now2 op db)"
      "wf_db (granted_db E k owner pid reason now now2 op db)"
      unfolding granted_db_def Let_def using reason now
      by (intro audited [OF get1] wf1(1) valid_leased wf_operation [OF wf1(1) get1] evolves_leased;
          simp add: id valid_recovery_event_def MAX_EVIDENCE_REF_CHARS_def)+
    then show ?thesis
      using resume_admitted [OF wf now2 Some now(2) True, of owner] assms(1) wf1 keeps_trans
      by (auto split: if_splits)
  qed
qed

section \<open>Properties\<close>

text \<open>An open store stays open when its tables and its version are untouched.\<close>

lemma init_frame:
  assumes "initialize_schema_locked db = Inr (c, db)"
    and same: "db_tables db' = db_tables db" "db_schema_version db' = db_schema_version db"
  shows "initialize_schema_locked db' = Inr (c, db')"
proof -
  let ?T = "db_tables db @ filter (\<lambda>t. t \<notin> set (db_tables db)) SCHEMA_tables"
  have version: "read_schema_version db' = read_schema_version db" by (simp add: read_schema_version_def same)
  have "db\<lparr>db_tables := ?T, db_schema_version := Some (str_int SCHEMA_VERSION)\<rparr> = db \<or> db\<lparr>db_tables := ?T\<rparr> = db"
    using assms(1) by (auto simp: initialize_schema_locked_def Let_def split: if_splits)
  then have "db_tables db = ?T" by (elim disjE) (drule arg_cong [of _ _ db_tables], simp)+
  then have fill: "filter (\<lambda>t. t \<notin> set (db_tables db)) SCHEMA_tables = []" by (simp del: filter_False)
  have "''meta'' \<in> set SCHEMA_tables" by (simp add: SCHEMA_tables_def)
  with fill have meta: "''meta'' \<in> set (db_tables db)" by (auto simp: filter_empty_conv)
  then have "''meta'' \<in> set (filter (\<lambda>t. take 7 t \<noteq> ''sqlite_'') (db_tables db))" by simp
  then have user: "filter (\<lambda>t. take 7 t \<noteq> ''sqlite_'') (db_tables db) \<noteq> []" by (metis emptyE empty_set)
  from assms(1) have "\<not> c \<and> read_schema_version db = Inr SCHEMA_VERSION"
    using user by (auto simp: initialize_schema_locked_def Let_def simp del: filter_set set_filter split: if_splits)
  moreover have "db'\<lparr>db_tables := db_tables db'\<rparr> = db'" by simp
  ultimately show ?thesis
    using version meta user unfolding initialize_schema_locked_def Let_def same fill by simp
qed

lemma crash_recovered_frame:
  "db_tables (crash_recovered_db op now ev db) = db_tables db"
  "db_schema_version (crash_recovered_db op now ev db) = db_schema_version db"
proof -
  have "db_tables (fold write_step rs db) = db_tables db \<and>
      db_schema_version (fold write_step rs db) = db_schema_version db" for rs
    by (induction rs arbitrary: db) (simp_all add: write_step_def)
  then show "db_tables (crash_recovered_db op now ev db) = db_tables db"
    "db_schema_version (crash_recovered_db op now ev db) = db_schema_version db"
    by (simp_all add: crash_recovered_db_def Let_def recovered_db_def replace_operation_def)
qed

text \<open>C2: A resume is granted exactly when the reason is bounded and not blank, the capability verifies, the
  expected revision is the stored one, the operation is neither terminal nor cancelling, its lease is stale
  and its owner dead, and no step is still started. The grant runs no effect: every step keeps its row, the
  operation keeps its state and gets the fresh lease, and the last audit row is the grant. Every refusal
  but \<open>reconciliation_required\<close> changes nothing.\<close>

theorem resume_granted_iff:
  assumes "initialize_schema_locked db = Inr (c, db)" and "wf_db db" and "get_operation db k = Some op"
    and "0 \<le> now" and "now \<le> later"
  shows "case resume E k tok erev reason owner pid alive now later db of (res, db') \<Rightarrow> \<exists>r. res = Inr r \<and>
    (rr_status r = Rc_OK \<longleftrightarrow>
       authorized_for E op tok erev reason [] \<and>
       op_state op \<notin> {Op_SUCCEEDED, Op_FAILED, Op_CANCELLED, Op_CANCEL_REQUESTED} \<and>
       lease_takeable E op now (stale_lease_ms E) alive (if pid > 0 then pid else env_pid E) \<and>
       \<not> (\<exists>e s. get_step db k e = Some s \<and> st_state s = St_STARTED)) \<and>
    (if rr_status r = Rc_OK
     then (\<forall>k' e. get_step db' k' e = get_step db k' e) \<and>
       get_operation db' k = Some (op\<lparr>op_revision := op_revision op + 2, op_updated_utc_ms := now,
         op_lease_owner := (if owner \<noteq> [] then owner else DELIVERY_JOURNAL_OWNER),
         op_lease_pid := (if pid > 0 then pid else env_pid E),
         op_lease_expiry_utc_ms := now + stale_lease_ms E\<rparr>) \<and>
       latest_resume_grant db' k \<noteq> None
     else db' = db \<or> rr_reason_code r = ''reconciliation_required'')"
proof -
  let ?owner = "if owner \<noteq> [] then owner else DELIVERY_JOURNAL_OWNER"
  let ?pid = "if pid > 0 then pid else env_pid E"
  note started = any_started_iff [OF wf_keys [OF assms(2)], of k, symmetric]
  have later: "0 \<le> later" using assms(4,5) by simp
  show ?thesis
  proof (cases "resumable E op tok erev reason ?pid now alive")
    case False
    then obtain r where body: "resume_body E k tok erev reason ?owner ?pid alive now later db = Inr (r, db)"
      and r: "rr_status r \<noteq> Rc_OK"
      using resume_refused [OF assms(3)] by blast
    show ?thesis
      unfolding resume_def api_body [OF assms(1)] started body sum.case prod.case
      using False r unfolding resumable_def by (intro exI [of _ r] conjI refl) (blast, simp)
  next
    case True
    note reads = granted_db_reads [OF assms(2,3)]
    have latest: "latest_resume_grant d k \<noteq> None"
      if "get_recovery_events d k \<noteq> []" "ev_action (last (get_recovery_events d k)) = Ra_RESUME" for d
      using that by (simp add: latest_resume_grant_def)
    have gates: "authorized_for E op tok erev reason []"
       "op_state op \<notin> {Op_SUCCEEDED, Op_FAILED, Op_CANCELLED, Op_CANCEL_REQUESTED}"
       "lease_takeable E op now (stale_lease_ms E) alive ?pid"
      using True unfolding resumable_def by blast+
    obtain r where body: "resume_body E k tok erev reason ?owner ?pid alive now later db =
        Inr (r, if any_started db k then crash_recovered_db op later (crash_event op later) db
              else granted_db E k ?owner ?pid reason now later op db)"
      and r: "rr_status r = Rc_OK \<longleftrightarrow> \<not> any_started db k"
        "any_started db k \<longrightarrow> rr_status r = Rc_REJECTED \<and> rr_reason_code r = ''reconciliation_required''"
      using resume_admitted [OF assms(2) later assms(3,5) True, of ?owner] by blast
    show ?thesis
      unfolding resume_def api_body [OF assms(1)] started body sum.case prod.case
      using gates r reads [of E ?owner ?pid reason now later] latest
      by (cases "any_started db k") auto
  qed
qed

text \<open>C1: Reconciliation can be skipped by asking twice. When the steps a crash left started are all
  non-replayable, a resume that passes the gate is refused with \<open>reconciliation_required\<close>; the same
  request with the next revision is then granted, although nobody has settled the step, which is still
  \<open>indeterminate\<close>.\<close>

theorem second_resume_unreconciled:
  assumes "initialize_schema_locked db = Inr (c, db)" and "wf_db db" and "get_operation db k = Some op"
    and "0 \<le> now" and "now \<le> later" and "0 \<le> now'" and "now' \<le> later'" and "stale_lease_ms E \<le> now'"
    and "authorized_for E op tok (op_revision op) reason []" and "0 < pid"
    and "op_state op \<notin> {Op_SUCCEEDED, Op_FAILED, Op_CANCELLED, Op_CANCEL_REQUESTED}"
    and "lease_takeable E op now (stale_lease_ms E) None pid"
    and "get_step db k e = Some s" and "st_state s = St_STARTED"
    and "\<forall>e' s'. get_step db k e' = Some s' \<and> st_state s' = St_STARTED \<longrightarrow> st_replay_class s' = NON_REPLAYABLE"
  shows "case resume E k tok (op_revision op) reason owner pid None now later db of (res, db1) \<Rightarrow> \<exists>r. res = Inr r \<and>
    rr_status r = Rc_REJECTED \<and> rr_reason_code r = ''reconciliation_required'' \<and>
    (case resume E k tok (op_revision op + 1) reason owner pid None now' later' db1 of (res2, db2) \<Rightarrow> \<exists>r2. res2 = Inr r2 \<and>
       rr_status r2 = Rc_OK \<and> map_option st_state (get_step db2 k e) = Some St_INDETERMINATE)"
proof -
  let ?owner = "if owner \<noteq> [] then owner else DELIVERY_JOURNAL_OWNER"
  let ?db1 = "crash_recovered_db op later (crash_event op later) db"
  let ?op1 = "recovered_operation (map st_effect_id (filter crashing (get_steps db k))) later op"
  note keys = wf_keys [OF assms(2)]
  have later: "0 \<le> later" and later': "0 \<le> later'" using assms(4-7) by simp_all
  note reads = crash_recovered_reads [OF keys assms(3) refl, where now = later and event = "crash_event op later"]
  have first: "resumable E op tok (op_revision op) reason pid now None"
    using assms(9,11,12) by (simp add: resumable_def)
  have started: "any_started db k" unfolding any_started_iff [OF keys] using assms(13,14) by blast
  have wf1: "wf_db ?db1" by (rule wf_crash_recovered [OF assms(2,3) later])
  have get1: "get_operation ?db1 k = Some ?op1" using reads(2) by simp
  have "\<not> any_started ?db1 k"
    using assms(15) unfolding any_started_iff [OF wf_keys [OF wf1]] reads(1)
    by (auto simp: crashing_def crashed_step_def split: if_splits)
  moreover have second: "resumable E ?op1 tok (op_revision op + 1) reason pid now' None"
    using assms(8,9,11) by (auto simp: resumable_def authorized_for_def recovered_operation_def lease_takeable_def)
  ultimately obtain r2 where r2: "resume_body E k tok (op_revision op + 1) reason ?owner pid None now' later' ?db1 =
      Inr (r2, granted_db E k ?owner pid reason now' later' ?op1 ?db1)" "rr_status r2 = Rc_OK"
    using resume_admitted [OF wf1 later' get1 assms(7) second, of ?owner] by auto
  have "get_step (granted_db E k ?owner pid reason now' later' ?op1 ?db1) k e = get_step ?db1 k e"
    by (rule granted_db_reads(1) [OF wf1 get1 \<open>\<not> any_started ?db1 k\<close>])
  also have "\<dots> = Some (crashed_step later s)" using assms(13-15) by (simp add: reads(1) crashing_def)
  finally have ind: "map_option st_state (get_step (granted_db E k ?owner pid reason now' later' ?op1 ?db1) k e) =
      Some St_INDETERMINATE" by (simp add: crashed_step_def)
  obtain r where r: "resume_body E k tok (op_revision op) reason ?owner pid None now later db = Inr (r, ?db1)"
    "rr_status r = Rc_REJECTED" "rr_reason_code r = ''reconciliation_required''"
    using resume_admitted [OF assms(2) later assms(3,5) first, of ?owner] started by auto
  note init1 = init_frame [OF assms(1) crash_recovered_frame, of op later "crash_event op later"]
  show ?thesis
    using assms(10) r r2(2) ind
    by (simp add: resume_def api_body [OF assms(1)] api_body [OF init1] r2(1))
qed

text \<open>Cancelling an authorised, unfinished operation waits for running effects: it becomes \<open>cancelled\<close>,
  with its terminal time set, exactly when none of its steps is started, and otherwise
  \<open>cancel_requested\<close>; its queue link is retired and no step changes. Without authority, or on a
  terminal operation, nothing changes.\<close>

theorem cancel_waits_for_started:
  assumes "initialize_schema_locked db = Inr (c, db)" and "keys_ok db" and "get_operation db k = Some op"
  shows "case request_cancel E k tok erev reason now db of (res, db') \<Rightarrow>
    if authorized_for E op tok erev reason [] \<and> op_state op \<notin> {Op_SUCCEEDED, Op_FAILED, Op_CANCELLED}
    then (\<exists>r. res = Inr r \<and> rr_status r = Rc_OK) \<and>
      get_operation db' k = Some (op\<lparr>
        op_state := (if \<exists>e s. get_step db k e = Some s \<and> st_state s = St_STARTED then Op_CANCEL_REQUESTED
                     else Op_CANCELLED),
        op_revision := op_revision op + 1, op_updated_utc_ms := now,
        op_terminal_utc_ms := (if \<exists>e s. get_step db k e = Some s \<and> st_state s = St_STARTED then 0 else now)\<rparr>) \<and>
      (\<forall>k' e. get_step db' k' e = get_step db k' e) \<and>
      (\<forall>l \<in> set (db_queue db'). ql_operation_id l = k \<longrightarrow> ql_state l = Qu_CANCELLED)
    else (\<exists>r. res = Inr r \<and> rr_status r \<noteq> Rc_OK) \<and> db' = db"
proof -
  have id: "op_operation_id op = k" by (rule get_operation_id [OF assms(3)])
  have "list_all (\<lambda>l. ql_operation_id l = k \<longrightarrow> ql_state l = Qu_CANCELLED)
      (update_rows ql_operation_id k (\<lambda>l. l\<lparr>ql_state := Qu_CANCELLED\<rparr>) rows)" for rows
    by (induction rows) simp_all
  then have queue: "\<forall>l \<in> set (update_rows ql_operation_id k (\<lambda>l. l\<lparr>ql_state := Qu_CANCELLED\<rparr>) rows).
      ql_operation_id l = k \<longrightarrow> ql_state l = Qu_CANCELLED" for rows
    by (simp add: list_all_iff)
  obtain r db' where body: "request_cancel_body E k tok erev reason now db = Inr (r, db')"
    and spec: "if authorized_for E op tok erev reason [] \<and> op_state op \<notin> set TERMINAL_OPERATION_STATES
      then db' = cancelled_db k reason now op db \<and> rr_status r = Rc_OK else db' = db \<and> rr_status r \<noteq> Rc_OK"
    using cancel_result [of E k tok erev reason now db] assms(3) by auto
  let ?ok = "authorized_for E op tok erev reason [] \<and> op_state op \<notin> {Op_SUCCEEDED, Op_FAILED, Op_CANCELLED}"
  have run: "request_cancel E k tok erev reason now db = (Inr r, db')"
    by (simp add: request_cancel_def api_body [OF assms(1)] body)
  have spec: "if ?ok then db' = cancelled_db k reason now op db \<and> rr_status r = Rc_OK else db' = db \<and> rr_status r \<noteq> Rc_OK"
    using spec by (simp add: TERMINAL_OPERATION_STATES_def)
  have reads: "get_operation (cancelled_db k reason now op db) k = Some (cancelled_operation db k now op)"
    "get_step (cancelled_db k reason now op db) k' e = get_step db k' e"
    "db_queue (cancelled_db k reason now op db) =
       update_rows ql_operation_id k (\<lambda>l. l\<lparr>ql_state := Qu_CANCELLED\<rparr>) (db_queue db)" for k' e
    using assms(3) by (simp_all add: cancelled_db_def Let_def row_laws cancelled_operation_def replaced_columns_def id)
      (simp_all add: update_queue_state_def)
  show ?thesis
  proof (cases ?ok)
    case True
    then show ?thesis
      using spec queue unfolding run any_started_iff [OF assms(2), symmetric]
      by (simp add: reads cancelled_operation_def any_started_def Let_def)
  next
    case False
    show ?thesis using spec unfolding run prod.case if_not_P [OF False] by simp
  qed
qed

lemma reconciled_reads:
  assumes "get_operation db k = Some op" "reconcilable db k e = Some s"
  shows "get_operation (reconciled_db E k e applied reason ref now op s db) k = Some (running_again now op)"
    and "get_step (reconciled_db E k e applied reason ref now op s db) k' e' =
      (if k' = k \<and> e' = e then Some (reconciled_step applied E ref now s) else get_step db k' e')"
  using assms reconcilable_D [OF assms(2)] get_operation_id [OF assms(1)]
  by (simp_all add: reconciled_db_def row_laws running_again_def replaced_columns_def reconciled_step_def)

lemma reconcilable_iff:
  "(\<exists>s. reconcilable db k e = Some s) \<longleftrightarrow>
    (\<exists>d. get_descriptor e = Inr d) \<and> (\<exists>s. get_step db k e = Some s \<and> st_state s \<in> {St_STARTED, St_INDETERMINATE})"
  by (auto simp: reconcilable_def split: sum.splits option.splits)

text \<open>An authorised reconciliation settles exactly the named step, which must be of a registered effect and
  started or \<open>indeterminate\<close>: it becomes succeeded or failed as the operator says, with the evidence and its
  digest as proof. The operation is \<open>running\<close> afterwards whatever its state was. Any other request is refused
  and changes nothing.\<close>

theorem reconcile_settles_step:
  assumes "initialize_schema_locked db = Inr (c, db)" and "get_operation db k = Some op"
  shows "case reconcile_effect E k e applied tok erev reason ref now db of (res, db') \<Rightarrow>
    if authorized_for E op tok erev reason ref \<and> (\<exists>d. get_descriptor e = Inr d) \<and>
       (\<exists>s. get_step db k e = Some s \<and> st_state s \<in> {St_STARTED, St_INDETERMINATE})
    then (\<exists>r. res = Inr r \<and> rr_status r = Rc_OK) \<and>
      get_step db' k e = map_option (\<lambda>s. s\<lparr>st_state := (if applied then St_SUCCEEDED else St_FAILED),
         st_proof_ref := ref, st_proof_digest := env_sha256 E ref,
         st_finding_code := (if applied then ''confirmed_applied'' else ''confirmed_not_applied''),
         st_updated_utc_ms := now\<rparr>) (get_step db k e) \<and>
      (\<forall>k' e'. (k', e') \<noteq> (k, e) \<longrightarrow> get_step db' k' e' = get_step db k' e') \<and>
      get_operation db' k =
        Some (op\<lparr>op_state := Op_RUNNING, op_revision := op_revision op + 1, op_updated_utc_ms := now\<rparr>)
    else (\<exists>r. res = Inr r \<and> rr_status r \<noteq> Rc_OK) \<and> db' = db"
proof -
  obtain r db' where body: "reconcile_effect_body E k e applied tok erev reason ref now db = Inr (r, db')"
    and spec: "case reconcilable db k e of None \<Rightarrow> db' = db \<and> rr_status r \<noteq> Rc_OK
      | Some s \<Rightarrow> if authorized_for E op tok erev reason ref
          then db' = reconciled_db E k e applied reason ref now op s db \<and> rr_status r = Rc_OK
          else db' = db \<and> rr_status r \<noteq> Rc_OK"
    using reconcile_result [of E k e applied tok erev reason ref now db] assms(2) by auto
  have run: "reconcile_effect E k e applied tok erev reason ref now db = (Inr r, db')"
    by (simp add: reconcile_effect_def api_body [OF assms(1)] body)
  show ?thesis
  proof (cases "reconcilable db k e")
    case None
    then show ?thesis using spec unfolding run prod.case reconcilable_iff [symmetric] by simp
  next
    case (Some s)
    note reads = reconciled_reads [OF assms(2) Some]
    show ?thesis
      using spec reconcilable_D [OF Some] Some unfolding run prod.case reconcilable_iff [symmetric]
      by (auto simp: reads reconciled_step_def running_again_def)
  qed
qed

text \<open>C5: Reconciling the step a cancellation is waiting for forgets the cancellation: the operation whose
  cancel was accepted with \<open>cancel_requested\<close> is \<open>running\<close> again.\<close>

theorem reconcile_forgets_cancel:
  assumes "initialize_schema_locked db = Inr (c, db)" and "wf_db db" and "get_operation db k = Some op"
    and "op_state op = Op_RUNNING" and "get_step db k e = Some s" and "st_state s = St_STARTED"
    and "authorized_for E op tok (op_revision op) reason []" and "length ref \<le> MAX_EVIDENCE_REF_CHARS"
  shows "case request_cancel E k tok (op_revision op) reason now db of (_, db1) \<Rightarrow>
    map_option op_state (get_operation db1 k) = Some Op_CANCEL_REQUESTED \<and>
    (case reconcile_effect E k e applied tok (op_revision op + 1) reason ref later db1 of (_, db2) \<Rightarrow>
      map_option op_state (get_operation db2 k) = Some Op_RUNNING)"
proof -
  let ?op1 = "cancelled_operation db k now op"
  let ?db1 = "cancelled_db k reason now op db"
  have id: "op_operation_id op = k" by (rule get_operation_id [OF assms(3)])
  have started: "list_ex (\<lambda>s. st_state s = St_STARTED) (get_steps db k)"
    using any_started_iff [OF wf_keys [OF assms(2)], of k] assms(5,6) by (auto simp: any_started_def)
  obtain r where "request_cancel_body E k tok (op_revision op) reason now db = Inr (r, ?db1)"
    using cancel_result [of E k tok "op_revision op" reason now db] assms(3,4,7)
    by (auto simp: TERMINAL_OPERATION_STATES_def)
  then have cancel: "request_cancel E k tok (op_revision op) reason now db = (Inr r, ?db1)"
    by (simp add: request_cancel_def api_body [OF assms(1)])
  have init1: "initialize_schema_locked ?db1 = Inr (c, ?db1)"
    by (rule init_frame [OF assms(1)]) (simp_all add: cancelled_db_def replace_operation_def update_queue_state_def)
  have get1: "get_operation ?db1 k = Some ?op1" "get_step ?db1 k e = Some s"
    using assms(3,5) by (simp_all add: cancelled_db_def Let_def row_laws cancelled_operation_def replaced_columns_def id)
  have auth1: "authorized_for E ?op1 tok (op_revision op + 1) reason ref"
    using assms(7,8) by (simp add: authorized_for_def cancelled_operation_def Let_def)
  have "registered_step s" "st_effect_id s = e"
    using wf_registered [OF assms(2), of s k] get_step_mem [OF assms(5)] by (auto simp: set_get_steps)
  then obtain s' where rec: "reconcilable ?db1 k e = Some s'"
    using get1(2) assms(6) reconcilable_iff [of ?db1 k e] by (auto simp: registered_step_iff)
  obtain r2 where "reconcile_effect_body E k e applied tok (op_revision op + 1) reason ref later ?db1 =
      Inr (r2, reconciled_db E k e applied reason ref later ?op1 s' ?db1)"
    using reconcile_result [of E k e applied tok "op_revision op + 1" reason ref later ?db1] get1 rec auth1 by auto
  then show ?thesis
    using started get1(1) reconciled_reads(1) [OF get1(1) rec]
    by (simp add: cancel reconcile_effect_def api_body [OF init1] cancelled_operation_def running_again_def)
qed

text \<open>The recovery command fails closed. Every reply that is not a granted action leaves the store exactly
  as it was, except a resume that stops at \<open>reconciliation_required\<close>, which keeps its classification.\<close>

theorem delivery_recover_fails_closed:
  assumes "initialize_schema_locked db = Inr (c, db)" and "wf_db db" and "0 \<le> now" and "now \<le> now2"
  shows "case delivery_recover E q now now2 db of (reply, db') \<Rightarrow>
    (case reply of
       Recovered r \<Rightarrow> rr_status r = Rc_OK \<or> rr_reason_code r = ''reconciliation_required'' \<or> db' = db
     | _ \<Rightarrow> db' = db)"
proof -
  have takeover: "case takeover E k tok erev reason owner pid alive now db of (res, db') \<Rightarrow>
      \<exists>r. res = Inr r \<and> (rr_status r = Rc_OK \<or> db' = db)" for k tok erev reason owner pid alive
    using takeover.refusal_changes_nothing [OF assms(1)] unfolding takeover_def by (fastforce split: prod.splits)
  have reconcile: "case reconcile_effect E k e applied tok erev reason ref now db of (res, db') \<Rightarrow>
      \<exists>r. res = Inr r \<and> (rr_status r = Rc_OK \<or> db' = db)" for k e applied tok erev reason ref
    using reconcile.refusal_changes_nothing [OF assms(1)] unfolding reconcile_effect_def by (fastforce split: prod.splits)
  have cancel: "case request_cancel E k tok erev reason now db of (res, db') \<Rightarrow>
      \<exists>r. res = Inr r \<and> (rr_status r = Rc_OK \<or> db' = db)" for k tok erev reason
    using cancel.refusal_changes_nothing [OF assms(1)] unfolding request_cancel_def by (fastforce split: prod.splits)
  have resume_body: "\<exists>r db'. resume_body E k tok erev reason owner pid alive now now2 db = Inr (r, db') \<and>
      (rr_status r = Rc_OK \<or> rr_reason_code r = ''reconciliation_required'' \<or> db' = db)" for k tok erev reason owner pid alive
  proof (cases "get_operation db k")
    case None
    then show ?thesis by (simp add: resume_body_def)
  next
    case (Some op)
    have "0 \<le> now2" using assms(3,4) by simp
    then show ?thesis
      using resume_refused [OF Some, of E tok erev reason pid now alive owner now2]
        resume_admitted [OF assms(2) _ Some assms(4), of E tok erev reason pid alive owner]
      by (cases "resumable E op tok erev reason pid now alive") fastforce+
  qed
  have resume: "case resume E k tok erev reason owner pid alive now now2 db of (res, db') \<Rightarrow>
      \<exists>r. res = Inr r \<and> (rr_status r = Rc_OK \<or> rr_reason_code r = ''reconciliation_required'' \<or> db' = db)"
    for k tok erev reason owner pid alive
    using resume_body [of k tok erev reason "if owner \<noteq> [] then owner else DELIVERY_JOURNAL_OWNER"
        "if pid > 0 then pid else env_pid E" alive]
    unfolding resume_def api_body [OF assms(1)] by auto
  have "case recover_call E q now now2 db of (res, db') \<Rightarrow>
      \<exists>r. res = Inr r \<and> (rr_status r = Rc_OK \<or> rr_reason_code r = ''reconciliation_required'' \<or> db' = db)"
    unfolding recover_call_def
    using takeover [of "rc_delivery_id q" "rc_capability_token q" "rc_expected_revision q" "rc_reason q" "rc_new_owner q" "rc_new_pid q" None]
      reconcile [of "rc_delivery_id q" "rc_effect_id q" "rc_action q = ''reconcile_applied''" "rc_capability_token q"
        "rc_expected_revision q" "rc_reason q" "rc_evidence_ref q"]
      resume [of "rc_delivery_id q" "rc_capability_token q" "rc_expected_revision q" "rc_reason q"
        "if rc_new_owner q \<noteq> [] then rc_new_owner q else DELIVERY_JOURNAL_OWNER" "rc_new_pid q" None]
      cancel [of "rc_delivery_id q" "rc_capability_token q" "rc_expected_revision q" "rc_reason q"]
    by (auto split: prod.splits if_splits)
  then show ?thesis
    by (auto simp: delivery_recover_def enforce_reason_bounds_def split: prod.splits)
qed

section \<open>Witnesses\<close>

text \<open>The example operation with no step, and with the trust increment alone left started.\<close>

definition idle_db :: journal_db where
  "idle_db = example_db\<lparr>db_steps := []\<rparr>"

definition crashed_db :: journal_db where
  "crashed_db = example_db\<lparr>db_steps := [(''op'', example_step ''D16'' NON_REPLAYABLE St_STARTED)]\<rparr>"

lemma sub_example_tables:
  "db_tables idle_db = db_tables example_db" "db_schema_version idle_db = db_schema_version example_db"
  "db_tables crashed_db = db_tables example_db" "db_schema_version crashed_db = db_schema_version example_db"
  by (simp_all add: idle_db_def crashed_db_def)

lemma sub_example_open:
  "initialize_schema_locked idle_db = Inr (False, idle_db)"
  "initialize_schema_locked crashed_db = Inr (False, crashed_db)"
  by (rule init_frame [OF example_open]; simp add: sub_example_tables)+

lemma sub_example_get:
  "get_operation idle_db ''op'' = Some example_operation" "get_operation crashed_db ''op'' = Some example_operation"
  using example_get by (simp_all add: idle_db_def crashed_db_def get_operation_def)

lemma sub_example_step:
  "get_step idle_db k e = None"
  "get_step crashed_db k e =
     (if k = ''op'' \<and> e = ''D16'' then Some (example_step ''D16'' NON_REPLAYABLE St_STARTED) else None)"
  by (auto simp: get_step_def idle_db_def crashed_db_def step_key_def example_step_def)

lemma sub_example_wf: "wf_db idle_db" "wf_db crashed_db"
  using example_wf
  by (simp_all add: idle_db_def crashed_db_def wf_defs example_tables unique_key_def op_ids_def step_key_def)

lemma example_authorized: "length ref \<le> 500 \<Longrightarrow> authorized_for example_env example_operation ''secret'' 3 ''crashed'' ref"
  by (simp add: authorized_for_def example_env_def example_operation_def verify_capability_def salted_hash_def
      strip_def is_str_space_def is_space_def MAX_REASON_CHARS_def MAX_EVIDENCE_REF_CHARS_def)

lemma example_takeable: "lease_takeable example_env example_operation 2000000 (stale_lease_ms example_env) None pid"
  by (simp add: lease_takeable_def example_env_def example_operation_def stale_lease_ms_def process_alive_def)

lemma example_running: "op_state example_operation = Op_RUNNING" "op_revision example_operation = 3"
    "op_operation_id example_operation = ''op''"
  by (simp_all add: example_operation_def)

theorem resume_granted_iff_witness:
  "case resume example_env ''op'' ''secret'' 3 ''crashed'' [] 9 None 2000000 2000000 idle_db of (res, db') \<Rightarrow>
     \<exists>r. res = Inr r \<and> rr_status r = Rc_OK \<and> latest_resume_grant db' ''op'' \<noteq> None"
  using resume_granted_iff [OF sub_example_open(1) sub_example_wf(1) sub_example_get(1), where now = 2000000 and
      later = 2000000 and E = example_env and tok = "''secret''" and erev = 3 and reason = "''crashed''" and owner = "[]" and pid = 9
      and alive = None]
    example_authorized [of "[]"] example_takeable [of 9]
  by (auto simp: sub_example_step example_running split: prod.splits)

theorem second_resume_unreconciled_witness:
  "case resume example_env ''op'' ''secret'' 3 ''crashed'' [] 9 None 2000000 2000000 crashed_db of (res, db1) \<Rightarrow>
    (case resume example_env ''op'' ''secret'' 4 ''crashed'' [] 9 None 2000001 2000001 db1 of (res2, db2) \<Rightarrow>
       \<exists>r2. res2 = Inr r2 \<and> rr_status r2 = Rc_OK \<and>
         map_option st_state (get_step db2 ''op'' ''D16'') = Some St_INDETERMINATE)"
proof -
  let ?s = "example_step ''D16'' NON_REPLAYABLE St_STARTED"
  have step: "get_step crashed_db ''op'' ''D16'' = Some ?s" by (simp add: sub_example_step)
  have state: "st_state ?s = St_STARTED" by (simp add: example_step_def)
  have only: "\<forall>e' s'. get_step crashed_db ''op'' e' = Some s' \<and> st_state s' = St_STARTED \<longrightarrow>
      st_replay_class s' = NON_REPLAYABLE"
    by (auto simp: sub_example_step example_step_def split: if_splits)
  have stale: "stale_lease_ms example_env \<le> 2000001" by (simp add: stale_lease_ms_def example_env_def)
  note fact = second_resume_unreconciled [OF sub_example_open(2) sub_example_wf(2) sub_example_get(2) _ _ _ _ stale
      _ _ _ example_takeable step state only, where later = 2000000 and later' = 2000001 and owner = "[]" and
        tok = "''secret''" and reason = "''crashed''" and pid = 9]
  show ?thesis
    using fact example_authorized [of "[]"] by (auto simp: example_running split: prod.splits)
qed

theorem cancel_waits_for_started_witness:
  "case request_cancel example_env ''op'' ''secret'' 3 ''crashed'' 2000 idle_db of (res, db') \<Rightarrow>
     map_option op_state (get_operation db' ''op'') = Some Op_CANCELLED"
  using cancel_waits_for_started [OF sub_example_open(1) wf_keys [OF sub_example_wf(1)] sub_example_get(1),
      of example_env "''secret''" 3 "''crashed''" 2000] example_authorized [of "[]"]
  by (auto simp: sub_example_step example_running split: prod.splits)

theorem reconcile_settles_step_witness:
  "case reconcile_effect example_env ''op'' ''D16'' True ''secret'' 3 ''crashed'' ''log'' 2000 crashed_db of (res, db') \<Rightarrow>
     map_option st_state (get_step db' ''op'' ''D16'') = Some St_SUCCEEDED"
proof -
  have "\<exists>d. get_descriptor ''D16'' = Inr d" by (simp add: get_descriptor_eq CENSUS_def)
  then show ?thesis
    using reconcile_settles_step [OF sub_example_open(2) sub_example_get(2),
        where E = example_env and e = "''D16''" and applied = True
          and tok = "''secret''" and erev = 3 and reason = "''crashed''" and ref = "''log''" and now = 2000] example_authorized [of "''log''"]
    by (auto simp: sub_example_step example_step_def split: prod.splits)
qed

theorem reconcile_forgets_cancel_witness:
  "case request_cancel example_env ''op'' ''secret'' 3 ''crashed'' 2000 crashed_db of (_, db1) \<Rightarrow>
    map_option op_state (get_operation db1 ''op'') = Some Op_CANCEL_REQUESTED \<and>
    (case reconcile_effect example_env ''op'' ''D16'' True ''secret'' 4 ''crashed'' ''log'' 2001 db1 of (_, db2) \<Rightarrow>
      map_option op_state (get_operation db2 ''op'') = Some Op_RUNNING)"
  using reconcile_forgets_cancel [OF sub_example_open(2) sub_example_wf(2) sub_example_get(2),
      where E = example_env and e = "''D16''" and s = "example_step ''D16'' NON_REPLAYABLE St_STARTED"
        and tok = "''secret''" and reason = "''crashed''" and ref = "''log''" and now = 2000 and later = 2001
        and applied = True] example_authorized [of "[]"]
  by (simp add: sub_example_step example_running example_step_def MAX_EVIDENCE_REF_CHARS_def)

definition example_recover :: recover_request where
  "example_recover = \<lparr> rc_delivery_id = ''op'', rc_action = ''request_cancel'', rc_capability_token = ''wrong'',
     rc_expected_revision = 3, rc_reason = ''stop'', rc_new_owner = [], rc_new_pid = 0, rc_effect_id = [],
     rc_evidence_ref = [] \<rparr>"

theorem delivery_recover_fails_closed_witness:
  "case delivery_recover example_env example_recover 2000 2000 crashed_db of (reply, db') \<Rightarrow>
    (case reply of
       Recovered r \<Rightarrow> rr_status r = Rc_OK \<or> rr_reason_code r = ''reconciliation_required'' \<or> db' = crashed_db
     | _ \<Rightarrow> db' = crashed_db)"
  using delivery_recover_fails_closed [OF sub_example_open(2) sub_example_wf(2), of 2000 2000 example_env example_recover]
  by simp

end
