(* ===== verification/Delivery_Status.thy ===== *)
theory Delivery_Status
  imports Delivery_Actions
begin

text \<open>
  The read-only projections of the delivery journal (\<^verbatim>\<open>trw_mcp/tools/_delivery_status.py\<close>): the status of
  one operation, and the evidence pack of one run. Opening the file read-only is outside the model; what it
  can give (\<^verbatim>\<open>JournalStore.connect_ro\<close>) is an argument. A dictionary of the source is a JSON object with
  its keys in insertion order.
\<close>

section \<open>Opening\<close>

datatype ro_open =
    FileNotFoundError
  | LegacyDeliveryJournalMigrationRequired
  | DeliveryJournalReadCapacityExceeded
  | Ro_sqlite_error exn
  | Ro_connection journal_db

definition REQUEST_DIGEST_PREFIX_LEN :: nat where
  "REQUEST_DIGEST_PREFIX_LEN = 12"

definition CRITICAL_MILESTONE_STATES :: "OperationState list" where
  "CRITICAL_MILESTONE_STATES = [Op_CRITICAL_COMPLETE, Op_DEFERRED_QUEUED, Op_DEFERRED_RUNNING, Op_SUCCEEDED]"

definition result_only :: "string \<Rightarrow> jval" where
  "result_only code = JObj [(''result'', JStr code), (''schema_version'', JInt SCHEMA_VERSION)]"

section \<open>One operation\<close>

definition verbose_step :: "StepRecord \<Rightarrow> string \<times> jval" where
  "verbose_step s = (st_effect_id s, JObj
     [(''state'', JStr (StepState_value (st_state s))),
      (''disposition'', JStr (StepDisposition_value (st_disposition s))),
      (''replay_class'', JStr (ReplayClass_value (st_replay_class s)))])"

definition compact_step :: "StepRecord \<Rightarrow> string \<times> jval" where
  "compact_step s = (st_effect_id s, JObj
     [(''state'', JStr (StepState_value (st_state s))),
      (''disposition'', JStr (StepDisposition_value (st_disposition s)))])"

definition unstarted_step :: "string \<times> EffectDescriptor \<Rightarrow> string \<times> jval" where
  "unstarted_step row = (fst row, JObj
     [(''state'', JStr (StepState_value St_NOT_STARTED)),
      (''disposition'', JStr (StepDisposition_value Dp_NONE)),
      (''replay_class'', JStr (ReplayClass_value (ed_replay_class (snd row))))])"

text \<open>The census: the rows of the operation, then a default for every registered effect without one.\<close>

definition build_step_view :: "StepRecord list \<Rightarrow> bool \<Rightarrow> (string \<times> jval) list" where
  "build_step_view steps verbose =
     (if verbose
      then map verbose_step steps @
        map unstarted_step (filter (\<lambda>row. fst row \<notin> set (map st_effect_id steps)) DELIVERY_EFFECT_REGISTRY)
      else map compact_step (filter (\<lambda>s. st_state s \<noteq> St_NOT_STARTED) steps))"

definition lease_current :: "OperationRecord \<Rightarrow> int \<Rightarrow> bool" where
  "lease_current op now_ms \<longleftrightarrow> op_lease_expiry_utc_ms op \<noteq> 0 \<and> now_ms < op_lease_expiry_utc_ms op"

definition project_operation :: "journal_db \<Rightarrow> OperationRecord \<Rightarrow> int \<Rightarrow> bool \<Rightarrow> jval" where
  "project_operation db op now_ms verbose =
     (let steps = get_steps db (op_operation_id op);
          my_link = find (\<lambda>l. ql_operation_id l = op_operation_id op) (get_queue db)
      in JObj
       [(''result'', JStr ''ok''),
        (''schema_version'', JInt SCHEMA_VERSION),
        (''operation_id'', JStr (op_operation_id op)),
        (''request_digest_prefix'', JStr (take REQUEST_DIGEST_PREFIX_LEN (op_request_digest op))),
        (''state'', JStr (OperationState_value (op_state op))),
        (''revision'', JInt (op_revision op)),
        (''created_utc_ms'', JInt (op_created_utc_ms op)),
        (''updated_utc_ms'', JInt (op_updated_utc_ms op)),
        (''expiry_utc_ms'', JInt (op_expiry_utc_ms op)),
        (''run_identity'', JStr (op_run_identity op)),
        (''lease_current'', JBool (lease_current op now_ms)),
        (''caller_recoverable'', JBool (op_caller_recoverable op)),
        (''attached_to_operation_id'', JStr (op_attached_to_operation_id op)),
        (''critical_complete'', JBool (op_state op \<in> set CRITICAL_MILESTONE_STATES)),
        (''aggregate_success'', JBool (op_state op = Op_SUCCEEDED)),
        (''queue_disposition'', JStr (case my_link of None \<Rightarrow> ''none'' | Some l \<Rightarrow> QueueState_value (ql_state l))),
        (''queue_position'', JInt (case my_link of None \<Rightarrow> -1 | Some l \<Rightarrow> ql_position l)),
        (''steps'', JObj (build_step_view steps verbose)),
        (''steps_total'', JInt (int (length DELIVERY_EFFECT_REGISTRY))),
        (''steps_started'', JInt (int (length (filter (\<lambda>s. st_state s \<noteq> St_NOT_STARTED) steps)))),
        (''steps_succeeded'', JInt (int (length (filter (\<lambda>s. st_state s = St_SUCCEEDED) steps)))),
        (''recovery_eligible'', JBool (\<not> lease_current op now_ms \<and> op_state op \<notin> set TERMINAL_OPERATION_STATES))])"

definition status_of :: "journal_db \<Rightarrow> string \<Rightarrow> int \<Rightarrow> bool \<Rightarrow> exn + jval" where
  "status_of db delivery_id effective_now verbose =
     (case validate_delivery_id delivery_id effective_now of
        Inl (RequestError code) \<Rightarrow> Inr (JObj [(''result'', JStr ''invalid_id''), (''reason_code'', JStr code)])
      | Inl e \<Rightarrow> Inl e
      | Inr _ \<Rightarrow>
          (case get_operation db delivery_id of
             Some op \<Rightarrow> Inr (project_operation db op effective_now verbose)
           | None \<Rightarrow>
               (case get_tombstone db delivery_id of
                  Some tombstone \<Rightarrow> Inr (JObj
                    [(''result'', JStr ''tombstone''), (''operation_id'', JStr delivery_id),
                     (''terminal_state'', JStr (tb_terminal_state tombstone)),
                     (''request_digest_prefix'', JStr (take REQUEST_DIGEST_PREFIX_LEN (tb_request_digest tombstone))),
                     (''schema_version'', JInt SCHEMA_VERSION)])
                | None \<Rightarrow> Inr (JObj [(''result'', JStr ''not_found_id''), (''operation_id'', JStr delivery_id)]))))"

definition build_status_projection :: "ro_open \<Rightarrow> string \<Rightarrow> int \<Rightarrow> bool \<Rightarrow> exn + jval" where
  "build_status_projection opened delivery_id now_ms verbose =
     (case opened of
        FileNotFoundError \<Rightarrow> Inr (result_only ''not_found_store'')
      | LegacyDeliveryJournalMigrationRequired \<Rightarrow> Inr (result_only ''legacy_wal_migration_required'')
      | DeliveryJournalReadCapacityExceeded \<Rightarrow> Inr (result_only ''read_capacity_exceeded'')
      | Ro_sqlite_error e \<Rightarrow> Inl e
      | Ro_connection db \<Rightarrow>
          (case read_schema_version db of
             Inl (CorruptDeliveryJournalSchema _) \<Rightarrow> Inr (result_only ''corrupt_store'')
           | Inl e \<Rightarrow> Inl e
           | Inr version \<Rightarrow>
               if version \<noteq> SCHEMA_VERSION
               then Inr (JObj [(''result'', JStr ''unsupported_schema''), (''store_schema_version'', JInt version),
                   (''supported_schema_version'', JInt SCHEMA_VERSION)])
               else status_of db delivery_id (max now_ms (get_high_water db)) verbose))"

definition project_status :: "ro_open \<Rightarrow> string \<Rightarrow> bool \<Rightarrow> int \<Rightarrow> exn + jval" where
  "project_status opened delivery_id verbose now = build_status_projection opened delivery_id now verbose"

text \<open>\<^verbatim>\<open>delivery_status\<close>: the projection, or an error in its place, with the pid a resume must name. The
  envelope that wraps it is \<^verbatim>\<open>_operation_owner_adapter.py\<close>'s, a parameter.\<close>

definition delivery_status ::
  "delivery_env \<Rightarrow> (jval \<Rightarrow> string \<Rightarrow> jval) \<Rightarrow> ro_open \<Rightarrow> string \<Rightarrow> bool \<Rightarrow> int \<Rightarrow> (string \<times> jval) list" where
  "delivery_status E status_envelope opened delivery_id verbose now =
     (let projection = (case project_status opened delivery_id verbose now of
            Inr (JObj kvs) \<Rightarrow> kvs
          | _ \<Rightarrow> [(''result'', JStr ''error''), (''reason_code'', JStr ''status_unavailable'')]);
          projection = projection @ [(''resume_pid'', JInt (env_pid E))]
      in projection @ [(''envelope'', status_envelope (JObj projection) delivery_id)])"

section \<open>The evidence pack\<close>

definition pack_step :: "StepRecord \<Rightarrow> jval" where
  "pack_step s = JObj
     [(''effect_id'', JStr (st_effect_id s)), (''state'', JStr (StepState_value (st_state s))),
      (''disposition'', JStr (StepDisposition_value (st_disposition s))), (''attempt'', JInt (st_attempt s)),
      (''proof_ref'', JStr (st_proof_ref s)), (''finding_code'', JStr (st_finding_code s)),
      (''updated_utc_ms'', JInt (st_updated_utc_ms s))]"

definition pack_operation :: "journal_db \<Rightarrow> OperationRecord \<Rightarrow> jval" where
  "pack_operation db op = JObj
     [(''operation_id'', JStr (op_operation_id op)), (''state'', JStr (OperationState_value (op_state op))),
      (''revision'', JInt (op_revision op)), (''created_utc_ms'', JInt (op_created_utc_ms op)),
      (''updated_utc_ms'', JInt (op_updated_utc_ms op)), (''terminal_utc_ms'', JInt (op_terminal_utc_ms op)),
      (''steps'', JArr (map pack_step (get_steps db (op_operation_id op))))]"

text \<open>Python slices \<open>matching[:n]\<close>: a negative bound counts from the end.\<close>

definition py_prefix :: "int \<Rightarrow> 'a list \<Rightarrow> 'a list" where
  "py_prefix n xs = (if 0 \<le> n then take (nat n) xs else take (length xs - nat (- n)) xs)"

definition matching_operations :: "journal_db \<Rightarrow> string \<Rightarrow> OperationRecord list" where
  "matching_operations db run_identity =
     sort_key (\<lambda>op. op_created_utc_ms op) (sort_key op_operation_id
       (filter (\<lambda>op. op_run_identity op = run_identity) (iter_operations db)))"

definition pack_operation_projection :: "ro_open \<Rightarrow> string \<Rightarrow> int \<Rightarrow> int option \<Rightarrow> exn + jval" where
  "pack_operation_projection opened run_identity max_operations since_utc_ms =
     (case opened of
        FileNotFoundError \<Rightarrow> Inr (JObj [(''result'', JStr ''no_journal'')])
      | LegacyDeliveryJournalMigrationRequired \<Rightarrow> Inr (JObj [(''result'', JStr ''journal_migration_required'')])
      | DeliveryJournalReadCapacityExceeded \<Rightarrow> Inr (JObj [(''result'', JStr ''read_capacity_exceeded'')])
      | Ro_sqlite_error _ \<Rightarrow> Inr (JObj [(''result'', JStr ''corrupt_store'')])
      | Ro_connection db \<Rightarrow>
          (case read_schema_version db of
             Inl (CorruptDeliveryJournalSchema _) \<Rightarrow> Inr (JObj [(''result'', JStr ''corrupt_store'')])
           | Inl e \<Rightarrow> Inl e
           | Inr version \<Rightarrow>
               if version \<noteq> SCHEMA_VERSION
               then Inr (JObj [(''result'', JStr ''unsupported_schema''), (''store_schema_version'', JInt version)])
               else (let matching = matching_operations db run_identity;
                         kept = py_prefix max_operations matching;
                         tombstones = filter (\<lambda>t. case since_utc_ms of None \<Rightarrow> True | Some since \<Rightarrow> since \<le> tb_created_utc_ms t)
                           (iter_tombstones db)
                     in Inr (JObj
                       [(''result'', JStr ''ok''), (''operations'', JArr (map (pack_operation db) kept)),
                        (''total'', JInt (int (length matching))), (''kept'', JInt (int (length kept))),
                        (''tombstones_since_run_start'', JInt (int (length tombstones)))]))))"

section \<open>What a reader can learn\<close>

text \<open>A store with everything blanked that the status projection must not depend on.\<close>

definition blank_operation :: "OperationRecord \<Rightarrow> OperationRecord" where
  "blank_operation op = op\<lparr>op_capability_salt := [], op_capability_hash := [], op_lease_owner := [],
     op_lease_pid := 0, op_request_digest := take REQUEST_DIGEST_PREFIX_LEN (op_request_digest op)\<rparr>"

definition blank_step :: "StepRecord \<Rightarrow> StepRecord" where
  "blank_step s = s\<lparr>st_proof_digest := []\<rparr>"

definition blank_tombstone :: "Tombstone \<Rightarrow> Tombstone" where
  "blank_tombstone t = t\<lparr>tb_findings := [], tb_request_digest := take REQUEST_DIGEST_PREFIX_LEN (tb_request_digest t)\<rparr>"

definition blank_db :: "journal_db \<Rightarrow> journal_db" where
  "blank_db db = db\<lparr>db_operations := map blank_operation (db_operations db),
     db_steps := map (map_prod id blank_step) (db_steps db),
     db_tombstones := map blank_tombstone (db_tombstones db), db_events := []\<rparr>"

lemma blank_operation_simps [simp]:
  "op_operation_id (blank_operation op) = op_operation_id op" "op_run_identity (blank_operation op) = op_run_identity op"
  "op_state (blank_operation op) = op_state op" "op_revision (blank_operation op) = op_revision op"
  "op_created_utc_ms (blank_operation op) = op_created_utc_ms op" "op_updated_utc_ms (blank_operation op) = op_updated_utc_ms op"
  "op_expiry_utc_ms (blank_operation op) = op_expiry_utc_ms op" "op_terminal_utc_ms (blank_operation op) = op_terminal_utc_ms op"
  "op_lease_expiry_utc_ms (blank_operation op) = op_lease_expiry_utc_ms op"
  "op_attached_to_operation_id (blank_operation op) = op_attached_to_operation_id op"
  "op_caller_recoverable (blank_operation op) = op_caller_recoverable op"
  "take REQUEST_DIGEST_PREFIX_LEN (op_request_digest (blank_operation op)) = take REQUEST_DIGEST_PREFIX_LEN (op_request_digest op)"
  by (simp_all add: blank_operation_def)

lemma blank_step_simps [simp]:
  "st_effect_id (blank_step s) = st_effect_id s" "st_state (blank_step s) = st_state s"
  "st_disposition (blank_step s) = st_disposition s" "st_replay_class (blank_step s) = st_replay_class s"
  "st_attempt (blank_step s) = st_attempt s" "st_proof_ref (blank_step s) = st_proof_ref s"
  "st_finding_code (blank_step s) = st_finding_code s" "st_updated_utc_ms (blank_step s) = st_updated_utc_ms s"
  by (simp_all add: blank_step_def)

lemma blank_tombstone_simps [simp]:
  "tb_operation_id (blank_tombstone t) = tb_operation_id t" "tb_terminal_state (blank_tombstone t) = tb_terminal_state t"
  "tb_created_utc_ms (blank_tombstone t) = tb_created_utc_ms t"
  by (simp_all add: blank_tombstone_def)

lemma sort_key_map: "(\<And>x. f (g x) = f x) \<Longrightarrow> sort_key f (map g xs) = map g (sort_key f xs)"
proof (induction xs)
  case (Cons x xs)
  have "insort_key f (g x) (map g ys) = map g (insort_key f x ys)" for ys
    by (induction ys) (simp_all add: Cons.prems)
  with Cons show ?case by simp
qed simp

lemma find_row_map: "(\<And>r. key (g r) = key r) \<Longrightarrow> find_row key k (map g rows) = map_option g (find_row key k rows)"
  by (induction rows) (simp_all add: find_row_def)

lemma blank_reads:
  "get_operation (blank_db db) k = map_option blank_operation (get_operation db k)"
  "get_steps (blank_db db) k = map blank_step (get_steps db k)"
  "get_tombstone (blank_db db) k = map_option blank_tombstone (get_tombstone db k)"
  "get_queue (blank_db db) = get_queue db" "get_high_water (blank_db db) = get_high_water db"
  "read_schema_version (blank_db db) = read_schema_version db"
  "iter_operations (blank_db db) = map blank_operation (iter_operations db)"
  "iter_tombstones (blank_db db) = map blank_tombstone (iter_tombstones db)"
proof -
  have "map snd (filter (\<lambda>r. fst r = k) (map (map_prod id blank_step) rows)) =
      map blank_step (map snd (filter (\<lambda>r. fst r = k) rows))" for rows :: "(string \<times> StepRecord) list"
    by (induction rows) auto
  moreover have "db_steps (blank_db db) = map (map_prod id blank_step) (db_steps db)" by (simp add: blank_db_def)
  ultimately have steps: "map snd (filter (\<lambda>r. fst r = k) (db_steps (blank_db db))) =
      map blank_step (map snd (filter (\<lambda>r. fst r = k) (db_steps db)))" by (simp only:)
  show "get_steps (blank_db db) k = map blank_step (get_steps db k)"
    unfolding get_steps_def steps by (rule sort_key_map) simp
qed (simp_all add: blank_db_def get_operation_def get_tombstone_def find_row_map get_queue_def get_high_water_def
    read_schema_version_def iter_operations_def iter_tombstones_def sort_key_map blank_tombstone_def)

lemma blank_views [simp]:
  "verbose_step (blank_step s) = verbose_step s" "compact_step (blank_step s) = compact_step s"
  "pack_step (blank_step s) = pack_step s"
  by (simp_all add: verbose_step_def compact_step_def pack_step_def)

lemma build_step_view_blank: "build_step_view (map blank_step steps) verbose = build_step_view steps verbose"
  by (simp add: build_step_view_def comp_def filter_map)

lemma project_operation_blank:
  "project_operation (blank_db db) (blank_operation op) now verbose = project_operation db op now verbose"
  by (simp add: project_operation_def Let_def blank_reads build_step_view_blank lease_current_def filter_map comp_def)

text \<open>The status projection reveals neither the capability, its salt, the lease owner and process, the
  recovery events, a proof digest nor more than twelve characters of a request digest: blanking all of them
  in the store does not change any projection of any identifier.\<close>

theorem status_hides_secrets:
  "build_status_projection (Ro_connection (blank_db db)) delivery_id now_ms verbose =
   build_status_projection (Ro_connection db) delivery_id now_ms verbose"
  by (simp add: build_status_projection_def status_of_def blank_reads project_operation_blank blank_tombstone_def
      split: sum.split exn.split option.split)

lemma pack_operation_blank: "pack_operation (blank_db db) (blank_operation op) = pack_operation db op"
  by (simp add: pack_operation_def blank_reads)

lemma py_prefix_map: "py_prefix n (map f xs) = map f (py_prefix n xs)"
  by (simp add: py_prefix_def take_map)

lemma matching_blank: "matching_operations (blank_db db) run = map blank_operation (matching_operations db run)"
  by (simp add: matching_operations_def blank_reads filter_map comp_def sort_key_map)

text \<open>The evidence pack reveals nothing of those columns either, and it never carries more operations than
  it was asked for, all of them of the named run.\<close>

theorem pack_hides_secrets:
  "pack_operation_projection (Ro_connection (blank_db db)) run_identity max_operations since =
   pack_operation_projection (Ro_connection db) run_identity max_operations since \<and>
   (0 \<le> max_operations \<longrightarrow>
      int (length (py_prefix max_operations (matching_operations db run_identity))) \<le> max_operations) \<and>
   set (matching_operations db run_identity) = {op \<in> set (db_operations db). op_run_identity op = run_identity}"
proof -
  have "pack_operation_projection (Ro_connection (blank_db db)) run_identity max_operations since =
      pack_operation_projection (Ro_connection db) run_identity max_operations since"
    by (cases since) (simp_all add: pack_operation_projection_def blank_reads matching_blank py_prefix_map
        pack_operation_blank Let_def comp_def filter_map split: sum.split exn.split)
  then show ?thesis by (auto simp: py_prefix_def matching_operations_def iter_operations_def)
qed

section \<open>The census and the resume action\<close>

lemma view_ids:
  "map fst (build_step_view steps True) =
     map st_effect_id steps @ filter (\<lambda>e. e \<notin> set (map st_effect_id steps)) all_effect_ids"
  "map fst (build_step_view steps False) = map st_effect_id (filter (\<lambda>s. st_state s \<noteq> St_NOT_STARTED) steps)"
  by (simp_all add: build_step_view_def verbose_step_def compact_step_def unstarted_step_def all_effect_ids_def
      comp_def filter_map)

text \<open>The verbose census of a stored operation lists every registered effect exactly once and nothing else;
  the compact one lists exactly the steps that have run, each once.\<close>

theorem census_complete:
  assumes "wf_db db"
  shows "distinct (map fst (build_step_view (get_steps db k) True)) \<and>
    set (map fst (build_step_view (get_steps db k) True)) = set all_effect_ids \<and>
    distinct (map fst (build_step_view (get_steps db k) False)) \<and>
    set (map fst (build_step_view (get_steps db k) False)) =
      {e. \<exists>s. get_step db k e = Some s \<and> st_state s \<noteq> St_NOT_STARTED}"
proof -
  note keys = wf_keys [OF assms]
  have dist: "distinct (map st_effect_id (get_steps db k))" by (rule distinct_step_ids [OF keys])
  have "st_effect_id s \<in> set all_effect_ids" if "s \<in> set (get_steps db k)" for s
    using wf_registered [OF assms that]
    by (auto simp: registered_step_iff get_descriptor_def all_effect_ids_def split: option.splits
        dest!: map_of_SomeD intro: rev_image_eqI)
  then have "set (map st_effect_id (get_steps db k)) \<subseteq> set all_effect_ids" by auto
  moreover have "distinct all_effect_ids" using registry_facts(2) by (simp add: all_effect_ids_def)
  moreover have "set (map st_effect_id (filter (\<lambda>s. st_state s \<noteq> St_NOT_STARTED) (get_steps db k))) =
      {e. \<exists>s. get_step db k e = Some s \<and> st_state s \<noteq> St_NOT_STARTED}"
  proof (rule set_eqI)
    fix e
    have "e \<in> set (map st_effect_id (filter (\<lambda>s. st_state s \<noteq> St_NOT_STARTED) (get_steps db k))) \<longleftrightarrow>
        (\<exists>s. s \<in> set (get_steps db k) \<and> st_state s \<noteq> St_NOT_STARTED \<and> st_effect_id s = e)" by auto
    also have "\<dots> \<longleftrightarrow> (\<exists>s. get_step db k e = Some s \<and> st_state s \<noteq> St_NOT_STARTED)"
      using mem_get_steps [OF keys, of _ k] get_step_mem [of db k e] by blast
    finally show "e \<in> set (map st_effect_id (filter (\<lambda>s. st_state s \<noteq> St_NOT_STARTED) (get_steps db k))) \<longleftrightarrow>
        e \<in> {e. \<exists>s. get_step db k e = Some s \<and> st_state s \<noteq> St_NOT_STARTED}" by simp
  qed
  ultimately show ?thesis
    unfolding view_ids using dist distinct_map_filter [OF dist] by auto
qed

text \<open>What resume grants, status announces: whenever a resume at a time not behind the high-water mark is
  granted, the status of the same store at the same time says the operation is eligible for recovery.\<close>

theorem resume_implies_eligible:
  assumes "initialize_schema_locked db = Inr (c, db)" and "wf_db db" and "get_operation db k = Some op"
    and "read_schema_version db = Inr 1" and "validate_delivery_id k now = Inr v"
    and "0 \<le> now" and "now \<le> later" and "get_high_water db \<le> now"
    and "resume E k tok erev reason owner pid alive now later db = (Inr r, db')" and "rr_status r = Rc_OK"
  shows "case project_status (Ro_connection db) k verbose now of
      Inr (JObj kvs) \<Rightarrow> map_of kvs ''recovery_eligible'' = Some (JBool True)
    | _ \<Rightarrow> False"
proof -
  let ?owner = "if owner \<noteq> [] then owner else DELIVERY_JOURNAL_OWNER"
  let ?pid = "if pid > 0 then pid else env_pid E"
  have body: "resume_body E k tok erev reason ?owner ?pid alive now later db = Inr (r, db')"
    using assms(9) unfolding resume_def api_body [OF assms(1)] by (cases "resume_body E k tok erev reason ?owner ?pid alive now later db")
      (auto split del: if_split split: prod.splits)
  have "resumable E op tok erev reason ?pid now alive"
  proof (rule ccontr)
    assume "\<not> resumable E op tok erev reason ?pid now alive"
    from resume_refused [OF assms(3) this, of ?owner later] show False
      using assms(10) unfolding body by auto
  qed
  then have "\<not> lease_current op now" "op_state op \<notin> set TERMINAL_OPERATION_STATES"
    by (auto simp: resumable_def lease_takeable_def lease_current_def TERMINAL_OPERATION_STATES_def split: if_splits)
  moreover have "max now (get_high_water db) = now" using assms(8) by simp
  ultimately show ?thesis
    using assms(3-5)
    by (simp add: project_status_def build_status_projection_def status_of_def project_operation_def Let_def
        SCHEMA_VERSION_def)
qed

section \<open>Witnesses\<close>

theorem census_complete_witness: "set (map fst (build_step_view (get_steps example_db ''op'') True)) = set all_effect_ids"
  using census_complete [OF example_wf, of "''op''"] by simp

text \<open>The idle example under an identifier that validates.\<close>

definition named_db :: journal_db where
  "named_db = idle_db\<lparr>db_operations := [example_operation\<lparr>op_operation_id := uuid_str example_uuid\<rparr>], db_queue := []\<rparr>"

lemma named_db_facts:
  "initialize_schema_locked named_db = Inr (False, named_db)" "wf_db named_db"
  "get_operation named_db (uuid_str example_uuid) = Some (example_operation\<lparr>op_operation_id := uuid_str example_uuid\<rparr>)"
  "read_schema_version named_db = Inr 1" "get_high_water named_db = 1000" "get_step named_db k e = None"
proof -
  show "initialize_schema_locked named_db = Inr (False, named_db)"
    by (rule init_frame [OF sub_example_open(1)]) (simp_all add: named_db_def)
  show "wf_db named_db"
    using example_wf
    by (simp add: named_db_def idle_db_def wf_defs example_tables unique_key_def op_ids_def valid_operation_def)
qed (simp_all add: named_db_def idle_db_def get_operation_def example_db_def read_schema_version_def is_decimal_def
    is_digit_def parse_int_def get_high_water_def get_step_def)

theorem resume_implies_eligible_witness:
  "case project_status (Ro_connection named_db) (uuid_str example_uuid) False 2000000 of
      Inr (JObj kvs) \<Rightarrow> map_of kvs ''recovery_eligible'' = Some (JBool True)
    | _ \<Rightarrow> False"
proof -
  let ?op = "example_operation\<lparr>op_operation_id := uuid_str example_uuid\<rparr>"
  have now: "(0::int) \<le> 2000000" "(2000000::int) \<le> 2000000" by simp_all
  have auth: "authorized_for example_env ?op ''secret'' 3 ''crashed'' []" "lease_takeable example_env ?op 2000000 (stale_lease_ms example_env) None 9"
    using example_authorized [of "[]"] example_takeable [of 9] by (simp_all add: authorized_for_def lease_takeable_def)
  then have ok: "resumable example_env ?op ''secret'' 3 ''crashed'' 9 2000000 None"
    by (simp add: resumable_def example_running)
  have none: "\<not> any_started named_db (uuid_str example_uuid)"
    unfolding any_started_iff [OF wf_keys [OF named_db_facts(2)]] by (simp add: named_db_facts)
  obtain r db' where body: "resume_body example_env (uuid_str example_uuid) ''secret'' 3 ''crashed'' DELIVERY_JOURNAL_OWNER 9
      None 2000000 2000000 named_db = Inr (r, db')" "rr_status r = Rc_OK"
    using resume_admitted [OF named_db_facts(2) now(1) named_db_facts(3) now(2) ok, of DELIVERY_JOURNAL_OWNER] none by auto
  then have run: "resume example_env (uuid_str example_uuid) ''secret'' 3 ''crashed'' [] 9 None 2000000 2000000 named_db = (Inr r, db')"
    by (simp add: resume_def api_body [OF named_db_facts(1)])
  show ?thesis
    by (rule resume_implies_eligible [OF named_db_facts(1-4) _ now _ run body(2)])
      (simp_all add: example_validated named_db_facts)
qed

end
