(* ===== verification/Delivery_Journal.thy ===== *)
theory Delivery_Journal
  imports Delivery_Status "HOL-Library.Word" "HOL-Library.AList"
begin

unbundle bit_operations_syntax

text \<open>
  The journal a delivery runs its effects through (\<^verbatim>\<open>trw_mcp/tools/_delivery_journal_wiring.py\<close>) and the
  boundary it keeps per thread (\<^verbatim>\<open>trw_mcp/_delivery_boundary.py\<close>). The state of a delivery is the store, the
  journal handle and the context variables; an effect is a function on that state that returns or raises.
  The constructor of the coordinator may fail: whether it does is an argument, as are the clock readings, the
  random bits and the time stamp of a reply.
\<close>

section \<open>Identifiers\<close>

definition gen_uuid7 :: "int \<Rightarrow> int \<Rightarrow> int \<Rightarrow> string" where
  "gen_uuid7 now_ms rand_a rand_b =
     (let ts = now_ms AND (push_bit 48 1 - 1);
          v = push_bit 80 ts OR push_bit 76 0x7 OR push_bit 64 rand_a OR push_bit 62 2 OR rand_b
      in uuid_str (nat v))"

definition compute_deferred_digest :: "(string \<Rightarrow> string) \<Rightarrow> string \<Rightarrow> bool \<Rightarrow> string list \<Rightarrow> string" where
  "compute_deferred_digest H run_identity skip_index_sync deferred_steps =
     domain_digest H ''core208.deferred''
       (JObj [(''run_identity'', JStr run_identity), (''skip_index_sync'', JBool skip_index_sync),
              (''steps'', JArr (map JStr deferred_steps))])"

section \<open>The handle and the boundary\<close>

record DeliverJournal =
  dj_coordinator :: bool
  dj_operation_id :: string
  dj_caller_recoverable :: bool
  dj_mode :: string
  dj_journaled_effects :: "string list"
  dj_skipped_effects :: "string list"
  dj_resume_steps :: "(string \<times> StepRecord) list"
  dj_resume_mode :: bool

definition new_journal ::
  "bool \<Rightarrow> string \<Rightarrow> bool \<Rightarrow> string \<Rightarrow> (string \<times> StepRecord) list option \<Rightarrow> DeliverJournal" where
  "new_journal coordinator operation_id caller_recoverable mode resume_steps =
     \<lparr> dj_coordinator = coordinator, dj_operation_id = operation_id, dj_caller_recoverable = caller_recoverable,
       dj_mode = mode, dj_journaled_effects = [], dj_skipped_effects = [],
       dj_resume_steps = (case resume_steps of None \<Rightarrow> [] | Some rows \<Rightarrow> rows),
       dj_resume_mode = (resume_steps \<noteq> None) \<rparr>"

definition disabled_journal :: "string \<Rightarrow> DeliverJournal" where
  "disabled_journal mode = new_journal False [] True mode None"

definition enabled :: "DeliverJournal \<Rightarrow> bool" where
  "enabled j \<longleftrightarrow> dj_coordinator j \<and> dj_operation_id j \<noteq> []"

record delivery_world =
  dw_db :: journal_db
  dw_journal :: DeliverJournal
  dw_bound :: bool
  dw_open :: "string list"
  dw_refusals :: "(string \<times> string) list"

type_synonym 'a effect = "delivery_world \<Rightarrow> (exn + 'a) \<times> delivery_world"

definition refuse_boundary :: "string \<Rightarrow> delivery_world \<Rightarrow> delivery_world" where
  "refuse_boundary finding_code w =
     (if dw_open w = [] then w
      else w\<lparr>dw_refusals := AList.update (last (dw_open w)) finding_code (dw_refusals w)\<rparr>)"

definition take_refusal :: "string \<Rightarrow> delivery_world \<Rightarrow> string \<times> delivery_world" where
  "take_refusal effect_id w =
     (let code = (case map_of (dw_refusals w) effect_id of None \<Rightarrow> [] | Some c \<Rightarrow> c) in
      if code \<noteq> [] then (code, w\<lparr>dw_refusals := filter (\<lambda>kv. fst kv \<noteq> effect_id) (dw_refusals w)\<rparr>)
      else (code, w))"

definition open_boundary :: "string \<Rightarrow> 'a effect \<Rightarrow> 'a effect" where
  "open_boundary effect_id body w =
     (case body (w\<lparr>dw_open := dw_open w @ [effect_id]\<rparr>) of (res, w') \<Rightarrow> (res, w'\<lparr>dw_open := dw_open w\<rparr>))"

definition bind_journal :: "'a effect \<Rightarrow> 'a effect" where
  "bind_journal body w =
     (case body (w\<lparr>dw_bound := True\<rparr>) of (res, w') \<Rightarrow> (res, w'\<lparr>dw_bound := dw_bound w\<rparr>))"

section \<open>One step\<close>

text \<open>A coordinator call whose failure is logged, and raised only in enforce mode.\<close>

definition guarded_call :: "string \<Rightarrow> 'a api \<Rightarrow> 'b \<Rightarrow> 'b \<Rightarrow> delivery_world \<Rightarrow> (exn + 'b) \<times> delivery_world" where
  "guarded_call mode call ok failed w =
     (case call (dw_db w) of
        (Inr _, db) \<Rightarrow> (Inr ok, w\<lparr>dw_db := db\<rparr>)
      | (Inl e, db) \<Rightarrow> (if mode = ''enforce'' then Inl e else Inr failed, w\<lparr>dw_db := db\<rparr>))"

definition skip_completed :: "string \<Rightarrow> int \<Rightarrow> delivery_world \<Rightarrow> (exn + bool) \<times> delivery_world" where
  "skip_completed effect_id now w =
     (let j = dw_journal w in
      if effect_id \<in> set ALWAYS_REEVALUATE_EFFECTS then (Inr False, w)
      else (case map_of (dj_resume_steps j) effect_id of
              None \<Rightarrow> (Inr False, w)
            | Some prior \<Rightarrow>
                if \<not> dj_coordinator j then (Inr False, w)
                else if st_state prior = St_FAILED
                then (Inr (st_finding_code prior \<noteq> ''confirmed_not_applied''), w)
                else if st_state prior \<noteq> St_SUCCEEDED then (Inr False, w)
                else guarded_call (dj_mode j)
                  (finalize_step (dj_operation_id j) effect_id St_SUCCEEDED Dp_SKIPPED_NO_WORK
                    (st_finding_code prior) now) True True
                  (w\<lparr>dw_journal := j\<lparr>dj_skipped_effects := List.insert effect_id (dj_skipped_effects j)\<rparr>\<rparr>)))"

definition journal_begin :: "delivery_env \<Rightarrow> string \<Rightarrow> int \<Rightarrow> delivery_world \<Rightarrow> (exn + bool) \<times> delivery_world" where
  "journal_begin E effect_id now w =
     (let j = dw_journal w in
      if \<not> enabled j then (Inr False, w)
      else (case guarded_call (dj_mode j)
                (begin_step E (dj_operation_id j) effect_id DELIVERY_JOURNAL_OWNER (env_pid E) now) True False w of
              (Inr True, w') \<Rightarrow>
                (Inr True, w'\<lparr>dw_journal := (dw_journal w')\<lparr>dj_journaled_effects :=
                   List.insert effect_id (dj_journaled_effects (dw_journal w'))\<rparr>\<rparr>)
            | other \<Rightarrow> other))"

definition journal_finalize ::
  "string \<Rightarrow> StepState \<Rightarrow> string \<Rightarrow> int \<Rightarrow> delivery_world \<Rightarrow> (exn + unit) \<times> delivery_world" where
  "journal_finalize effect_id state finding_code now w =
     (if \<not> dj_coordinator (dw_journal w) then (Inr (), w)
      else guarded_call (dj_mode (dw_journal w))
        (finalize_step (dj_operation_id (dw_journal w)) effect_id state Dp_NONE finding_code now) () () w)"

text \<open>The \<^verbatim>\<open>with\<close> statement: the body gets the run flag; an exception of the final write replaces the body's.\<close>

definition journal_step_on ::
  "delivery_env \<Rightarrow> string \<Rightarrow> int \<Rightarrow> int \<Rightarrow> int \<Rightarrow> (bool \<Rightarrow> 'a effect) \<Rightarrow> 'a effect" where
  "journal_step_on E effect_id t1 t2 t3 body w =
     (if effect_id = [] then body True w
      else (case skip_completed effect_id t1 w of
              (Inl e, w1) \<Rightarrow> (Inl e, w1)
            | (Inr True, w1) \<Rightarrow> body False w1
            | (Inr False, w1) \<Rightarrow>
                (case journal_begin E effect_id t2 w1 of
                   (Inl e, w2) \<Rightarrow> (Inl e, w2)
                 | (Inr started, w2) \<Rightarrow>
                     (case open_boundary effect_id (body True) w2 of
                        (res, w3) \<Rightarrow>
                          (case take_refusal effect_id w3 of
                             (refusal, w4) \<Rightarrow>
                               if started
                               then (case journal_finalize effect_id
                                         (if (\<exists>e. res = Inl e) \<or> refusal \<noteq> [] then St_FAILED else St_SUCCEEDED)
                                         refusal t3 w4 of
                                       (Inl e, w5) \<Rightarrow> (Inl e, w5)
                                     | (Inr _, w5) \<Rightarrow> (res, w5))
                               else (res, w4))))))"

definition journal_step :: "delivery_env \<Rightarrow> string \<Rightarrow> int \<Rightarrow> int \<Rightarrow> int \<Rightarrow> (bool \<Rightarrow> 'a effect) \<Rightarrow> 'a effect" where
  "journal_step E effect_id t1 t2 t3 body w =
     (if \<not> dw_bound w then body True w else journal_step_on E effect_id t1 t2 t3 body w)"

definition journal_mark_state :: "OperationState \<Rightarrow> int \<Rightarrow> delivery_world \<Rightarrow> (exn + unit) \<times> delivery_world" where
  "journal_mark_state state now w =
     (if \<not> enabled (dw_journal w) then (Inr (), w)
      else guarded_call (dj_mode (dw_journal w)) (mark_operation_state (dj_operation_id (dw_journal w)) state now) () () w)"

definition journal_enqueue_deferred :: "delivery_env \<Rightarrow> string \<Rightarrow> int \<Rightarrow> delivery_world \<Rightarrow> (exn + unit) \<times> delivery_world" where
  "journal_enqueue_deferred E dg now w =
     (if \<not> enabled (dw_journal w) then (Inr (), w)
      else guarded_call (dj_mode (dw_journal w)) (enqueue_deferred E (dj_operation_id (dw_journal w)) dg now) () () w)"

definition summary :: "DeliverJournal \<Rightarrow> jval" where
  "summary j = JObj
     [(''operation_id'', JStr (dj_operation_id j)), (''caller_recoverable'', JBool (dj_caller_recoverable j)),
      (''mode'', JStr (dj_mode j)), (''enabled'', JBool (enabled j)),
      (''journaled_effect_count'', JInt (int (length (dj_journaled_effects j)))),
      (''resume_mode'', JBool (dj_resume_mode j)),
      (''skipped_effect_count'', JInt (int (length (dj_skipped_effects j))))]"

section \<open>Waiting for a step\<close>

definition step_terminal :: "string \<Rightarrow> jval \<Rightarrow> bool" where
  "step_terminal effect_id status =
     (case status of
        JObj kvs \<Rightarrow>
          (case map_of kvs ''steps'' of
             Some (JObj steps) \<Rightarrow>
               (case map_of steps effect_id of
                  Some (JObj row) \<Rightarrow>
                    (case map_of row ''state'' of
                       None \<Rightarrow> False
                     | Some state \<Rightarrow> state \<noteq> JStr (StepState_value St_NOT_STARTED) \<and> state \<noteq> JStr (StepState_value St_STARTED))
                | _ \<Rightarrow> False)
           | _ \<Rightarrow> False)
      | _ \<Rightarrow> False)"

text \<open>The polls of one wait: the monotonic clock at the loop test, what the store opens as, and the wall clock.\<close>

fun wait_polls :: "string \<Rightarrow> string \<Rightarrow> int \<Rightarrow> (int \<times> ro_open \<times> int) list \<Rightarrow> exn + bool" where
  "wait_polls operation_id effect_id deadline [] = Inr False"
| "wait_polls operation_id effect_id deadline ((t, opened, now) # polls) =
     (if \<not> t < deadline then Inr False
      else bindE (project_status opened operation_id False now) (\<lambda>status.
        if step_terminal effect_id status then Inr True else wait_polls operation_id effect_id deadline polls))"

definition wait_for_step_terminal ::
  "DeliverJournal \<Rightarrow> string \<Rightarrow> int \<Rightarrow> (int \<times> ro_open \<times> int) list \<Rightarrow> exn + bool" where
  "wait_for_step_terminal j effect_id deadline polls =
     (if \<not> enabled j then Inr True else wait_polls (dj_operation_id j) effect_id deadline polls)"


section \<open>Opening the journal of a delivery\<close>

record delivery_request =
  dr_run_identity :: string
  dr_skip_reflect :: bool
  dr_skip_index_sync :: bool
  dr_allow_unverified :: bool
  dr_acceptable_failure_digest :: string
  dr_delivery_id :: string
  dr_capability_token :: string

definition operation_reply :: "string \<Rightarrow> string \<Rightarrow> string \<Rightarrow> (string \<times> jval) list \<Rightarrow> jval" where
  "operation_reply operation_id status reason_code extra =
     JObj ([(''operation_id'', JStr operation_id), (''status'', JStr status), (''reason_code'', JStr reason_code)] @
       extra @ [(''effect_calls'', JInt 0), (''caller_recoverable'', JBool True)])"

definition blocked_result :: "string \<Rightarrow> string \<Rightarrow> string \<Rightarrow> string \<Rightarrow> string \<Rightarrow> jval" where
  "blocked_result timestamp delivery_id blocked_code reason_code status =
     (let message = blocked_code @ '': '' @ reason_code in
      JObj [(''timestamp'', JStr timestamp), (''success'', JBool False), (''delivery_blocked'', JStr message),
            (''errors'', JArr [JStr message]),
            (''delivery_operation'', operation_reply delivery_id status reason_code [])])"

definition conflict_result :: "string \<Rightarrow> ClaimResult \<Rightarrow> string \<Rightarrow> jval" where
  "conflict_result timestamp result delivery_id =
     blocked_result timestamp delivery_id (ClaimStatus_value (cr_status result)) (cr_reason_code result)
       (ClaimStatus_value (cr_status result))"

definition resume_hint :: string where
  "resume_hint =
     ''delivery operation already exists and this process holds no resume grant; query '' @
     ''trw_status(delivery=...), then run `trw-mcp delivery recover --action resume` with its '' @
     ''resume_pid as --new-pid to finish it under the same delivery_id instead of replaying effects''"

definition existing_operation_refusal :: "string \<Rightarrow> ClaimResult \<Rightarrow> string \<Rightarrow> jval" where
  "existing_operation_refusal timestamp result delivery_id =
     (let terminal_success = (cr_state result = Op_SUCCEEDED) in
      JObj ([(''timestamp'', JStr timestamp), (''success'', JBool terminal_success),
             (''delivery_operation'', operation_reply delivery_id ''existing''
                (if terminal_success then ''already_succeeded'' else ''operation_already_claimed'')
                [(''state'', JStr (OperationState_value (cr_state result))), (''revision'', JInt (cr_revision result))])] @
            (if terminal_success then []
             else [(''delivery_blocked'', JStr resume_hint), (''errors'', JArr [JStr resume_hint])])))"

definition read_grant_body :: "delivery_env \<Rightarrow> string \<Rightarrow> int \<Rightarrow> (string \<times> StepRecord) list option tx" where
  "read_grant_body E operation_id now db =
     Inr (case get_operation db operation_id of
            None \<Rightarrow> None
          | Some op \<Rightarrow>
              if op_state op \<in> set TERMINAL_OPERATION_STATES then None
              else if latest_resume_grant db operation_id = None then None
              else if op_lease_owner op \<noteq> DELIVERY_JOURNAL_OWNER \<or> op_lease_pid op \<noteq> env_pid E then None
              else if op_lease_expiry_utc_ms op = 0 \<or> op_lease_expiry_utc_ms op \<le> now then None
              else Some (map (\<lambda>s. (st_effect_id s, s)) (get_steps db operation_id)), db)"

definition read_resume_grant ::
  "delivery_env \<Rightarrow> string \<Rightarrow> int \<Rightarrow> journal_db \<Rightarrow> (string \<times> StepRecord) list option \<times> journal_db" where
  "read_resume_grant E operation_id now db =
     (case with_connection (immediate (read_grant_body E operation_id now)) db of
        (Inl _, db') \<Rightarrow> (None, db') | (Inr grant, db') \<Rightarrow> (grant, db'))"

definition opened_result ::
  "delivery_env \<Rightarrow> string \<Rightarrow> ClaimResult \<Rightarrow> string \<Rightarrow> bool \<Rightarrow> int \<Rightarrow> journal_db
     \<Rightarrow> (DeliverJournal \<times> jval option) \<times> journal_db" where
  "opened_result E timestamp result delivery_id explicit now db =
     (let mode = env_mode E;
          resuming = (cr_status result = Cl_EXISTING \<and> mode = ''enforce'');
          (resume_steps, db') = (if resuming then read_resume_grant E (cr_operation_id result) now db else (None, db))
      in if resuming \<and> resume_steps = None
         then ((disabled_journal mode, Some (existing_operation_refusal timestamp result delivery_id)), db')
         else if cr_status result = Cl_CLAIMED \<or> cr_status result = Cl_EXISTING
         then ((new_journal True (cr_operation_id result) explicit mode resume_steps, None), db')
         else if explicit \<or> mode = ''enforce''
         then ((disabled_journal mode, Some (conflict_result timestamp result delivery_id)), db')
         else ((disabled_journal mode, None), db'))"

definition open_delivery_journal ::
  "delivery_env \<Rightarrow> bool \<Rightarrow> delivery_request \<Rightarrow> string \<Rightarrow> string \<Rightarrow> string \<Rightarrow> int \<Rightarrow> int \<Rightarrow> int \<Rightarrow> string
     \<Rightarrow> journal_db \<Rightarrow> (DeliverJournal \<times> jval option) \<times> journal_db" where
  "open_delivery_journal E coordinator_opens q server_id server_token timestamp now now2 store_bytes fresh db =
     (let mode = env_mode E; explicit = (dr_delivery_id q \<noteq> []) in
      if mode = ''off'' then ((disabled_journal ''off'', None), db)
      else if \<not> coordinator_opens
      then (if mode = ''enforce''
            then ((disabled_journal mode, Some (blocked_result timestamp (dr_delivery_id q) ''delivery_journal_error''
                    ''delivery journal unavailable'' ''rejected'')), db)
            else ((disabled_journal mode, None), db))
      else (let delivery_id = (if explicit then dr_delivery_id q else server_id);
                capability = (if explicit then dr_capability_token q else server_token);
                c = \<lparr> cl_delivery_id = delivery_id, cl_capability_token = capability,
                  cl_run_identity = Some (dr_run_identity q), cl_skip_reflect = dr_skip_reflect q,
                  cl_skip_index_sync = dr_skip_index_sync q, cl_allow_unverified = dr_allow_unverified q,
                  cl_acceptable_failure_digest = dr_acceptable_failure_digest q,
                  cl_owner = DELIVERY_JOURNAL_OWNER, cl_pid = env_pid E \<rparr>
            in case claim E c now store_bytes fresh db of
                 (Inl _, db') \<Rightarrow>
                   (if explicit
                    then ((disabled_journal mode, Some (blocked_result timestamp delivery_id ''delivery_journal_error''
                            ''delivery journal claim failed'' ''rejected'')), db')
                    else ((disabled_journal mode, None), db'))
               | (Inr result, db') \<Rightarrow> opened_result E timestamp result delivery_id explicit now2 db'))"

text \<open>The handle of the background batch. The constructor's exception is \<open>error\<close>.\<close>

definition open_deferred_journal ::
  "delivery_env \<Rightarrow> exn option \<Rightarrow> string \<Rightarrow> int \<Rightarrow> journal_db \<Rightarrow> (exn + DeliverJournal) \<times> journal_db" where
  "open_deferred_journal E failure operation_id now db =
     (let mode = env_mode E in
      if operation_id = [] \<or> mode = ''off'' then (Inr (disabled_journal mode), db)
      else (case failure of
              Some e \<Rightarrow> (if mode = ''enforce'' then Inl e else Inr (disabled_journal mode), db)
            | None \<Rightarrow>
                (case read_resume_grant E operation_id now db of
                   (grant, db') \<Rightarrow> (Inr (new_journal True operation_id False mode grant), db'))))"

section \<open>Server-made identifiers validate\<close>

lemma or_shifted:
  fixes y :: int
  assumes "0 \<le> y" "y < 2 ^ n"
  shows "push_bit n x OR y = push_bit n x + y"
proof -
  have "push_bit n x AND y = 0"
  proof (rule bit_eqI)
    fix m
    have "\<not> bit y m" if "n \<le> m"
    proof -
      have "take_bit n y = y" using assms by (simp add: take_bit_int_eq_self)
      then show ?thesis using that bit_take_bit_iff [of n y m] by simp
    qed
    then show "bit (push_bit n x AND y) m = bit 0 m" by (auto simp: bit_and_iff bit_push_bit_iff)
  qed
  then show ?thesis by (simp add: disjunctive_add_eq_or)
qed

definition uuid7_value :: "int \<Rightarrow> int \<Rightarrow> int \<Rightarrow> int" where
  "uuid7_value ts a b = (((ts * 16 + 7) * 4096 + a) * 4 + 2) * 2 ^ 62 + b"

lemma gen_uuid7_value:
  assumes "0 \<le> now" "now < 2 ^ 48" "0 \<le> a" "a < 2 ^ 12" "0 \<le> b" "b < 2 ^ 62"
  shows "gen_uuid7 now a b = uuid_str (nat (uuid7_value now a b))"
proof -
  have mask: "push_bit 48 1 - 1 = (mask 48 :: int)" by (simp add: mask_eq_exp_minus_1 push_bit_eq_mult)
  have now: "now AND (push_bit 48 1 - 1) = now"
    using assms(1,2) unfolding mask take_bit_eq_mask [symmetric] by (simp add: take_bit_int_eq_self)
  have b: "push_bit 62 2 OR b = push_bit 62 2 + b" by (rule or_shifted) (use assms in simp_all)
  have a: "push_bit 64 a OR (push_bit 62 2 + b) = push_bit 64 a + (push_bit 62 2 + b)"
    by (rule or_shifted) (use assms in \<open>simp_all add: push_bit_eq_mult\<close>)
  have v: "push_bit 76 7 OR (push_bit 64 a + (push_bit 62 2 + b)) = push_bit 76 7 + (push_bit 64 a + (push_bit 62 2 + b))"
    by (rule or_shifted) (use assms in \<open>simp_all add: push_bit_eq_mult\<close>)
  have t: "push_bit 80 now OR (push_bit 76 7 + (push_bit 64 a + (push_bit 62 2 + b))) =
      push_bit 80 now + (push_bit 76 7 + (push_bit 64 a + (push_bit 62 2 + b)))"
    by (rule or_shifted) (use assms in \<open>simp_all add: push_bit_eq_mult\<close>)
  show ?thesis
    unfolding gen_uuid7_def Let_def now b a v t uuid7_value_def by (simp add: push_bit_eq_mult algebra_simps)
qed

lemma uuid7_value_fields:
  assumes "0 \<le> now" "now < 2 ^ 48" "0 \<le> a" "a < 2 ^ 12" "0 \<le> b" "b < 2 ^ 62"
  shows "nat (uuid7_value now a b) < 2 ^ 128" "uuid7_timestamp_ms (nat (uuid7_value now a b)) = now"
    "uuid_version (nat (uuid7_value now a b)) = Some 7"
proof -
  define v where "v = uuid7_value now a b"
  have bounds: "0 \<le> v" "v < 2 ^ 128" using assms by (simp_all add: v_def uuid7_value_def)
  have d62: "v div 2 ^ 62 = ((now * 16 + 7) * 4096 + a) * 4 + 2"
    using assms by (simp add: v_def uuid7_value_def)
  have "v div 2 ^ 64 = (v div 2 ^ 62) div 4" by (simp add: zdiv_zmult2_eq [symmetric])
  also have "\<dots> = (now * 16 + 7) * 4096 + a" unfolding d62 by simp
  finally have d64: "v div 2 ^ 64 = (now * 16 + 7) * 4096 + a" .
  have "v div 2 ^ 76 = (v div 2 ^ 64) div 4096" by (simp add: zdiv_zmult2_eq [symmetric])
  also have "\<dots> = now * 16 + 7" unfolding d64 using assms by simp
  finally have d76: "v div 2 ^ 76 = now * 16 + 7" .
  have "v div 2 ^ 80 = (v div 2 ^ 76) div 16" by (simp add: zdiv_zmult2_eq [symmetric])
  also have "\<dots> = now" unfolding d76 by simp
  finally have d80: "v div 2 ^ 80 = now" .
  have nat_div: "nat v div 2 ^ k = nat (v div 2 ^ k)" for k using bounds(1) by (simp add: nat_div_distrib nat_power_eq)
  show "nat v < 2 ^ 128" using bounds by simp
  show "uuid7_timestamp_ms (nat v) = now" unfolding uuid7_timestamp_ms_def nat_div d80 using assms(1) by simp
  have "nat v div 2 ^ 62 mod 4 = 2"
  proof -
    have "nat (((now * 16 + 7) * 4096 + a) * 4 + 2) = nat ((now * 16 + 7) * 4096 + a) * 4 + 2"
      using assms by (simp add: nat_add_distrib nat_mult_distrib)
    moreover have "(x * 4 + 2) mod 4 = (2::nat)" for x by presburger
    ultimately show ?thesis unfolding nat_div d62 by (simp only:)
  qed
  moreover have "nat v div 2 ^ 76 mod 16 = 7"
  proof -
    have "nat (now * 16 + 7) = nat now * 16 + 7" using assms by (simp add: nat_add_distrib nat_mult_distrib)
    then show ?thesis unfolding nat_div d76 by simp
  qed
  ultimately show "uuid_version (nat v) = Some 7" by (simp add: uuid_version_def)
qed

text \<open>An identifier the server makes for a caller without one is accepted for as long as it is young enough:
  it is a canonical UUIDv7 that carries the millisecond it was made in, whatever the random bits are.\<close>

theorem gen_uuid7_valid:
  assumes "0 \<le> now" "now < 2 ^ 48" "0 \<le> a" "a < 2 ^ 12" "0 \<le> b" "b < 2 ^ 62"
    and "now - later \<le> 300000" "later - now \<le> 15552000000"
  shows "\<exists>v. validate_delivery_id (gen_uuid7 now a b) later = Inr v \<and> uuid7_timestamp_ms v = now"
proof -
  note fields = uuid7_value_fields [OF assms(1-6)]
  have "validate_delivery_id (uuid_str (nat (uuid7_value now a b))) later = Inr (nat (uuid7_value now a b))"
    using fields assms(7,8) by (intro validate_delivery_id_accepts [OF lower_uuid_str]) simp_all
  then show ?thesis unfolding gen_uuid7_value [OF assms(1-6)] using fields(2) by blast
qed

theorem gen_uuid7_valid_witness:
  "\<exists>v. validate_delivery_id (gen_uuid7 1700000000000 5 9) 1700000000100 = Inr v \<and> uuid7_timestamp_ms v = 1700000000000"
  by (rule gen_uuid7_valid) simp_all

section \<open>Running a step\<close>

definition store_open :: "journal_db \<Rightarrow> bool" where
  "store_open db \<longleftrightarrow> initialize_schema_locked db = Inr (False, db)"

lemma same_frame: "store_open db \<Longrightarrow> db_tables db' = db_tables db \<Longrightarrow> db_schema_version db' = db_schema_version db \<Longrightarrow> store_open db'"
  unfolding store_open_def by (rule init_frame)

lemma write_frames [simp]:
  "db_tables (write_step r db) = db_tables db" "db_schema_version (write_step r db) = db_schema_version db"
  "db_tables (replace_operation op db) = db_tables db" "db_schema_version (replace_operation op db) = db_schema_version db"
  "db_tables (update_queue_state k q db) = db_tables db" "db_schema_version (update_queue_state k q db) = db_schema_version db"
  by (simp_all add: write_step_def replace_operation_def update_queue_state_def)

text \<open>A live operation begins a step; any stored operation finalizes one.\<close>

lemma begin_step_run:
  assumes "store_open db" "get_operation db k = Some op" "get_descriptor e = Inr d"
    and "op_state op \<notin> {Op_SUCCEEDED, Op_FAILED, Op_CANCELLED, Op_CANCEL_REQUESTED}"
  obtains s db' op' s' where "begin_step E k e owner pid now db = (Inr s, db')" "store_open db'"
    and "get_operation db' k = Some op'" "get_step db' k e = Some s'" "st_state s' = St_STARTED"
    and "st_attempt s' = (case get_step db k e of None \<Rightarrow> 0 | Some p \<Rightarrow> st_attempt p) + 1"
proof -
  have id: "op_operation_id op = k" by (rule get_operation_id [OF assms(2)])
  have eid: "ed_effect_id d = e" by (rule get_descriptor_id [OF assms(3)])
  let ?s = "\<lparr> st_effect_id = ed_effect_id d, st_state = St_STARTED, st_disposition = Dp_NONE,
      st_replay_class = ed_replay_class d,
      st_attempt = (case get_step db k (ed_effect_id d) of None \<Rightarrow> 0 | Some p \<Rightarrow> st_attempt p) + 1,
      st_proof_ref = [], st_proof_digest = [], st_finding_code = [], st_updated_utc_ms = now \<rparr>"
  let ?op = "op\<lparr>op_state := (if op_state op = Op_PENDING then Op_RUNNING else op_state op),
      op_revision := op_revision op + 1, op_updated_utc_ms := now,
      op_lease_owner := (if owner \<noteq> [] then owner else op_lease_owner op),
      op_lease_pid := (if pid \<noteq> 0 then pid else op_lease_pid op), op_lease_expiry_utc_ms := now + stale_lease_ms E\<rparr>"
  let ?db' = "replace_operation ?op (write_step (k, ?s) db)"
  have run: "begin_step E k e owner pid now db = (Inr ?s, ?db')"
    unfolding begin_step_def assms(3) sum.case api_body [OF assms(1) [unfolded store_open_def]]
      begin_step_body_cases [OF assms(2)] Let_def
    using assms(4) by (simp add: TERMINAL_OPERATION_STATES_def)
  have "store_open ?db'" by (rule same_frame [OF assms(1)]) simp_all
  moreover have "get_operation ?db' k = Some (replaced_columns ?op op)"
    using assms(2) by (simp add: row_laws id)
  moreover obtain s' where "get_step ?db' k e = Some s'" "st_state s' = St_STARTED"
    "st_attempt s' = (case get_step db k e of None \<Rightarrow> 0 | Some p \<Rightarrow> st_attempt p) + 1"
    by (cases "get_step db k e") (simp_all add: row_laws eid)
  ultimately show ?thesis by (rule that [OF run])
qed

lemma finalize_step_run:
  assumes "store_open db" "get_operation db k = Some op" "get_descriptor e = Inr d"
    and "state \<noteq> St_STARTED" "state \<noteq> St_NOT_STARTED"
  obtains s db' s' where "finalize_step k e state disp code now db = (Inr s, db')" "store_open db'"
    and "get_step db' k e = Some s'" "st_state s' = state" "st_finding_code s' = code"
    and "st_attempt s' = (case get_step db k e of None \<Rightarrow> 1 | Some p \<Rightarrow> st_attempt p)"
proof -
  have open_eq: "initialize_schema_locked db = Inr (False, db)" using assms(1) by (simp add: store_open_def)
  obtain s db' where body: "finalize_step_body k e state disp code now db = Inr (s, db')"
    and frames: "db_tables db' = db_tables db" "db_schema_version db' = db_schema_version db"
    and step: "get_step db' k e = Some (case get_step db k e of None \<Rightarrow> s
        | Some old \<Rightarrow> s\<lparr>st_replay_class := st_replay_class old\<rparr>)"
    and s: "st_state s = state" "st_finding_code s = code"
        "st_attempt s = (case get_step db k e of None \<Rightarrow> 1 | Some p \<Rightarrow> st_attempt p)"
    by (simp add: finalize_step_body_cases [OF assms(2,3)] Let_def row_laws)
  have "finalize_step k e state disp code now db = (Inr s, db')"
    using assms(4,5) by (simp add: finalize_step_def api_body [OF open_eq] body)
  moreover have "store_open db'" by (rule same_frame [OF assms(1) frames])
  ultimately show ?thesis
    by (rule that [OF _ _ step]) (auto simp: s split: option.split)
qed

lemma skip_none:
  "e \<in> set ALWAYS_REEVALUATE_EFFECTS \<or> map_of (dj_resume_steps (dw_journal w)) e = None \<or>
     (\<exists>s. map_of (dj_resume_steps (dw_journal w)) e = Some s \<and> st_state s \<notin> {St_SUCCEEDED, St_FAILED}) \<Longrightarrow>
   skip_completed e now w = (Inr False, w)"
  by (auto simp: skip_completed_def Let_def)

lemma begin_ran:
  assumes "enabled (dw_journal w)" "store_open (dw_db w)" "get_descriptor e = Inr d"
    and "get_operation (dw_db w) (dj_operation_id (dw_journal w)) = Some op"
    and "op_state op \<notin> {Op_SUCCEEDED, Op_FAILED, Op_CANCELLED, Op_CANCEL_REQUESTED}"
  obtains wb s' op' where "journal_begin E e now w = (Inr True, wb)" "store_open (dw_db wb)"
    and "get_operation (dw_db wb) (dj_operation_id (dw_journal w)) = Some op'"
    and "get_step (dw_db wb) (dj_operation_id (dw_journal w)) e = Some s'" "st_state s' = St_STARTED"
    and "st_attempt s' = (case get_step (dw_db w) (dj_operation_id (dw_journal w)) e of None \<Rightarrow> 0 | Some p \<Rightarrow> st_attempt p) + 1"
    and "dw_open wb = dw_open w" "dw_refusals wb = dw_refusals w" "dj_coordinator (dw_journal wb)"
    and "dj_operation_id (dw_journal wb) = dj_operation_id (dw_journal w)" "dj_mode (dw_journal wb) = dj_mode (dw_journal w)"
proof -
  obtain s db' op' s' where run: "begin_step E (dj_operation_id (dw_journal w)) e DELIVERY_JOURNAL_OWNER (env_pid E) now (dw_db w) = (Inr s, db')"
    and rest: "store_open db'" "get_operation db' (dj_operation_id (dw_journal w)) = Some op'"
      "get_step db' (dj_operation_id (dw_journal w)) e = Some s'" "st_state s' = St_STARTED"
      "st_attempt s' = (case get_step (dw_db w) (dj_operation_id (dw_journal w)) e of None \<Rightarrow> 0 | Some p \<Rightarrow> st_attempt p) + 1"
    using begin_step_run [OF assms(2,4,3,5)] by metis
  have dj: "dj_coordinator (dw_journal w)" using assms(1) by (simp add: enabled_def)
  show ?thesis
    by (rule that [where wb = "w\<lparr>dw_db := db', dw_journal := (dw_journal w)\<lparr>dj_journaled_effects :=
        List.insert e (dj_journaled_effects (dw_journal w))\<rparr>\<rparr>"])
      (use assms(1) dj run rest in \<open>simp_all add: journal_begin_def guarded_call_def Let_def\<close>)
qed

definition refusal_of :: "delivery_world \<Rightarrow> string \<Rightarrow> string" where
  "refusal_of w e = (case map_of (dw_refusals w) e of None \<Rightarrow> [] | Some c \<Rightarrow> c)"

lemma take_refusal_eq:
  "fst (take_refusal e w) = refusal_of w e"
  "dw_db (snd (take_refusal e w)) = dw_db w" "dw_journal (snd (take_refusal e w)) = dw_journal w"
  "dw_open (snd (take_refusal e w)) = dw_open w" "dw_bound (snd (take_refusal e w)) = dw_bound w"
  by (simp_all add: take_refusal_def refusal_of_def Let_def)

text \<open>An effect with no journaled step of its own.\<close>

definition store_silent :: "'a effect \<Rightarrow> bool" where
  "store_silent body \<longleftrightarrow> (\<forall>w. dw_db (snd (body w)) = dw_db w \<and> dw_journal (snd (body w)) = dw_journal w)"

lemma step_ran:
  assumes "e \<noteq> []" and "enabled (dw_journal w)" and "store_open (dw_db w)" and "get_descriptor e = Inr d"
    and "get_operation (dw_db w) (dj_operation_id (dw_journal w)) = Some op"
    and "op_state op \<notin> {Op_SUCCEEDED, Op_FAILED, Op_CANCELLED, Op_CANCEL_REQUESTED}"
    and skip: "skip_completed e t1 w = (Inr False, w)"
    and effect: "store_silent (body True)"
  shows "\<exists>w2 s2. get_step (dw_db w2) (dj_operation_id (dw_journal w)) e = Some s2 \<and> st_state s2 = St_STARTED \<and>
    st_attempt s2 = (case get_step (dw_db w) (dj_operation_id (dw_journal w)) e of None \<Rightarrow> 0 | Some p \<Rightarrow> st_attempt p) + 1 \<and>
    dw_open w2 = dw_open w @ [e] \<and> dw_refusals w2 = dw_refusals w \<and>
    (case journal_step_on E e t1 t2 t3 body w of (res, w') \<Rightarrow>
       res = fst (body True w2) \<and> dw_open w' = dw_open w \<and>
       (\<exists>s'. get_step (dw_db w') (dj_operation_id (dw_journal w)) e = Some s' \<and>
          st_state s' = (if (\<exists>x. res = Inl x) \<or> refusal_of (snd (body True w2)) e \<noteq> [] then St_FAILED else St_SUCCEEDED) \<and>
          st_finding_code s' = refusal_of (snd (body True w2)) e))"
proof -
  let ?k = "dj_operation_id (dw_journal w)"
  obtain w2 s2 op2 where w2: "journal_begin E e t2 w = (Inr True, w2)" "store_open (dw_db w2)"
    "get_operation (dw_db w2) ?k = Some op2" "get_step (dw_db w2) ?k e = Some s2" "st_state s2 = St_STARTED"
    "st_attempt s2 = (case get_step (dw_db w) ?k e of None \<Rightarrow> 0 | Some p \<Rightarrow> st_attempt p) + 1"
    "dw_open w2 = dw_open w" "dw_refusals w2 = dw_refusals w" "dj_coordinator (dw_journal w2)"
    "dj_operation_id (dw_journal w2) = ?k" "dj_mode (dw_journal w2) = dj_mode (dw_journal w)"
    by (rule begin_ran [OF assms(2-6)])
  define w3 where "w3 = w2\<lparr>dw_open := dw_open w2 @ [e]\<rparr>"
  obtain res w4 where body: "body True w3 = (res, w4)" by fastforce
  have w4: "dw_db w4 = dw_db w2" "dw_journal w4 = dw_journal w2"
    using effect [unfolded store_silent_def, rule_format, of w3] by (simp_all add: body) (simp_all add: w3_def)
  define w5 where "w5 = w4\<lparr>dw_open := dw_open w2\<rparr>"
  obtain refusal w6 where take: "take_refusal e w5 = (refusal, w6)" by fastforce
  have w6: "refusal = refusal_of w4 e" "dw_db w6 = dw_db w2" "dw_journal w6 = dw_journal w2" "dw_open w6 = dw_open w"
    using take_refusal_eq [of e w5] w4 w2(7) by (simp_all add: take) (simp_all add: w5_def refusal_of_def)
  define outcome where "outcome = (if (\<exists>x. res = Inl x) \<or> refusal \<noteq> [] then St_FAILED else St_SUCCEEDED)"
  have live: "outcome \<noteq> St_STARTED" "outcome \<noteq> St_NOT_STARTED" by (simp_all add: outcome_def)
  obtain s db' s' where fin: "finalize_step ?k e outcome Dp_NONE refusal t3 (dw_db w2) = (Inr s, db')"
    "get_step db' ?k e = Some s'" "st_state s' = outcome" "st_finding_code s' = refusal"
    using finalize_step_run [OF w2(2,3) assms(4) live] by metis
  have run: "journal_step_on E e t1 t2 t3 body w = (res, w6\<lparr>dw_db := db'\<rparr>)"
    using assms(1) w2(9,10) fin(1)
    by (simp add: journal_step_on_def skip w2(1) open_boundary_def body take journal_finalize_def guarded_call_def
        w6(2,3) flip: w3_def w5_def outcome_def)
  show ?thesis
    by (intro exI [of _ w3] exI [of _ s2]) (use w2 in \<open>simp add: run body fin w6 outcome_def; simp add: w3_def\<close>)
qed

text \<open>The effect of a journaled step runs behind a durable \<open>started\<close> row of the next attempt, inside its
  own boundary, and its outcome is recorded: the row is \<open>failed\<close> exactly when the effect raised or refused,
  \<open>succeeded\<close> otherwise, the refusal being the finding, and the result of the effect is passed on.\<close>

theorem step_outcome_recorded:
  assumes "e \<noteq> []" and "enabled (dw_journal w)" and "store_open (dw_db w)" and "get_descriptor e = Inr d"
    and "get_operation (dw_db w) (dj_operation_id (dw_journal w)) = Some op"
    and "op_state op \<notin> {Op_SUCCEEDED, Op_FAILED, Op_CANCELLED, Op_CANCEL_REQUESTED}"
    and "map_of (dj_resume_steps (dw_journal w)) e = None"
    and effect: "store_silent (body True)"
  shows "\<exists>w2 s2. get_step (dw_db w2) (dj_operation_id (dw_journal w)) e = Some s2 \<and> st_state s2 = St_STARTED \<and>
    st_attempt s2 = (case get_step (dw_db w) (dj_operation_id (dw_journal w)) e of None \<Rightarrow> 0 | Some p \<Rightarrow> st_attempt p) + 1 \<and>
    dw_open w2 = dw_open w @ [e] \<and> dw_refusals w2 = dw_refusals w \<and>
    (case journal_step_on E e t1 t2 t3 body w of (res, w') \<Rightarrow>
       res = fst (body True w2) \<and> dw_open w' = dw_open w \<and>
       (\<exists>s'. get_step (dw_db w') (dj_operation_id (dw_journal w)) e = Some s' \<and>
          st_state s' = (if (\<exists>x. res = Inl x) \<or> refusal_of (snd (body True w2)) e \<noteq> [] then St_FAILED else St_SUCCEEDED) \<and>
          st_finding_code s' = refusal_of (snd (body True w2)) e))"
proof -
  have skip: "skip_completed e t1 w = (Inr False, w)" by (rule skip_none) (simp add: assms(7))
  show ?thesis by (rule step_ran [where body = body, OF assms(1-6) skip effect])
qed

text \<open>A resumed delivery does not repeat what has succeeded: a step whose row at the grant was succeeded, and
  whose effect is not one that is always decided anew, runs its body with the run flag off, keeps its attempt
  counter and is recorded as skipped.\<close>

theorem completed_step_skipped:
  assumes "e \<noteq> []" and "e \<notin> set ALWAYS_REEVALUATE_EFFECTS" and "enabled (dw_journal w)" and "store_open (dw_db w)"
    and "get_descriptor e = Inr d" and "get_operation (dw_db w) (dj_operation_id (dw_journal w)) = Some op"
    and "map_of (dj_resume_steps (dw_journal w)) e = Some prior" and "st_state prior = St_SUCCEEDED"
    and "get_step (dw_db w) (dj_operation_id (dw_journal w)) e = Some s"
  shows "\<exists>w1 s1. journal_step_on E e t1 t2 t3 body w = body False w1 \<and>
    get_step (dw_db w1) (dj_operation_id (dw_journal w)) e = Some s1 \<and> st_state s1 = St_SUCCEEDED \<and>
    st_attempt s1 = st_attempt s \<and> e \<in> set (dj_skipped_effects (dw_journal w1))"
proof -
  let ?j = "dw_journal w"
  let ?w = "w\<lparr>dw_journal := ?j\<lparr>dj_skipped_effects := List.insert e (dj_skipped_effects ?j)\<rparr>\<rparr>"
  obtain r db' s' where fin: "finalize_step (dj_operation_id ?j) e St_SUCCEEDED Dp_SKIPPED_NO_WORK (st_finding_code prior) t1 (dw_db w) = (Inr r, db')"
    "get_step db' (dj_operation_id ?j) e = Some s'" "st_state s' = St_SUCCEEDED"
    "st_attempt s' = (case get_step (dw_db w) (dj_operation_id ?j) e of None \<Rightarrow> 1 | Some p \<Rightarrow> st_attempt p)"
    using finalize_step_run [OF assms(4,6,5), of St_SUCCEEDED] by (metis StepState.distinct)
  have "dj_coordinator ?j" using assms(3) by (simp add: enabled_def)
  then have "skip_completed e t1 w = (Inr True, ?w\<lparr>dw_db := db'\<rparr>)"
    using assms(2,7,8) fin(1) by (simp add: skip_completed_def guarded_call_def Let_def)
  then have "journal_step_on E e t1 t2 t3 body w = body False (?w\<lparr>dw_db := db'\<rparr>)"
    using assms(1) by (simp add: journal_step_on_def)
  then show ?thesis
    using fin assms(9) by (intro exI [of _ "?w\<lparr>dw_db := db'\<rparr>"] exI [of _ s']) simp
qed

text \<open>C12: A granted resume hands the journal the step rows of the store as they are; a step that is
  \<open>indeterminate\<close> in them is neither settled nor skipped: its effect, non-replayable or not, runs again as the
  next attempt, and the row ends as if nothing had been in doubt.\<close>

theorem indeterminate_step_rerun:
  assumes "e \<noteq> []" and "store_open db" and "keys_ok db" and "get_operation db k = Some op" and "k \<noteq> []"
    and "op_state op \<notin> {Op_SUCCEEDED, Op_FAILED, Op_CANCELLED, Op_CANCEL_REQUESTED}"
    and "get_descriptor e = Inr d" and "get_step db k e = Some s" and "st_state s = St_INDETERMINATE"
    and "read_resume_grant E k now db = (Some rows, db)"
    and "dw_db w = db" and "dw_journal w = new_journal True k True ''enforce'' (Some rows)"
    and effect: "store_silent (body True)"
  shows "\<exists>w2 s2. get_step (dw_db w2) k e = Some s2 \<and> st_state s2 = St_STARTED \<and> st_attempt s2 = st_attempt s + 1 \<and>
    dw_refusals w2 = dw_refusals w \<and>
    (case journal_step_on E e t1 t2 t3 body w of (res, w') \<Rightarrow>
       res = fst (body True w2) \<and>
       (\<exists>s'. get_step (dw_db w') k e = Some s' \<and>
          st_state s' = (if (\<exists>x. res = Inl x) \<or> refusal_of (snd (body True w2)) e \<noteq> [] then St_FAILED else St_SUCCEEDED)))"
proof -
  have rows: "rows = map (\<lambda>s. (st_effect_id s, s)) (get_steps db k)"
    using assms(10) api_body [OF assms(2) [unfolded store_open_def], of "read_grant_body E k now"]
    by (auto simp: read_resume_grant_def read_grant_body_def split: option.splits if_splits)
  have "distinct (map fst rows)" using distinct_step_ids [OF assms(3), of k] by (simp add: rows comp_def)
  moreover have "s \<in> set (get_steps db k)" "st_effect_id s = e"
    using mem_get_steps [OF assms(3), of s k] get_step_mem [OF assms(8)] assms(8) by auto
  then have "(e, s) \<in> set rows" by (auto simp: rows)
  ultimately have row: "map_of (dj_resume_steps (dw_journal w)) e = Some s" by (simp add: assms(12) new_journal_def)
  have skip: "skip_completed e t1 w = (Inr False, w)" by (rule skip_none) (simp add: row assms(9))
  have j: "enabled (dw_journal w)" "dj_operation_id (dw_journal w) = k"
    using assms(5) by (simp_all add: assms(12) new_journal_def enabled_def)
  from step_ran [where body = body and w = w, OF assms(1) j(1) _ assms(7) _ assms(6) skip effect, of E t2 t3] assms(2,4,8)
  show ?thesis unfolding j(2) assms(11) by fastforce
qed

section \<open>Opening\<close>

lemma grant_conditions:
  assumes "store_open db" and "read_resume_grant E k now db = (Some rows, db')"
  shows "db' = db" and "rows = map (\<lambda>s. (st_effect_id s, s)) (get_steps db k)"
    and "\<exists>op. get_operation db k = Some op \<and> op_state op \<notin> {Op_SUCCEEDED, Op_FAILED, Op_CANCELLED} \<and>
      latest_resume_grant db k \<noteq> None \<and> op_lease_owner op = DELIVERY_JOURNAL_OWNER \<and> op_lease_pid op = env_pid E \<and>
      now < op_lease_expiry_utc_ms op"
  using assms(2) api_body [OF assms(1) [unfolded store_open_def], of "read_grant_body E k now"]
  by (auto simp: read_resume_grant_def read_grant_body_def TERMINAL_OPERATION_STATES_def split: option.splits if_splits)

text \<open>An already claimed operation is reopened only under a resume grant: when the journal of a delivery
  comes back in resume mode, the operation is stored and not terminal, its last audit row is a granted resume,
  its lease is this server's, held by this very process and unexpired, and the journal has its steps' rows.\<close>

theorem resume_mode_needs_grant:
  assumes "opened_result E ts result delivery_id explicit now db = ((j, block), db')"
    and "store_open db" and "dj_resume_mode j"
  shows "block = None \<and> db' = db \<and> env_mode E = ''enforce'' \<and> cr_status result = Cl_EXISTING \<and>
    (\<exists>op. get_operation db (cr_operation_id result) = Some op \<and>
      op_state op \<notin> {Op_SUCCEEDED, Op_FAILED, Op_CANCELLED} \<and>
      latest_resume_grant db (cr_operation_id result) \<noteq> None \<and>
      op_lease_owner op = DELIVERY_JOURNAL_OWNER \<and> op_lease_pid op = env_pid E \<and> now < op_lease_expiry_utc_ms op) \<and>
    dj_resume_steps j = map (\<lambda>s. (st_effect_id s, s)) (get_steps db (cr_operation_id result))"
proof -
  obtain grant db1 where read: "read_resume_grant E (cr_operation_id result) now db = (grant, db1)" by fastforce
  have resuming: "cr_status result = Cl_EXISTING" "env_mode E = ''enforce''"
    using assms(1,3) by (auto simp: opened_result_def Let_def disabled_journal_def new_journal_def split: if_splits prod.splits)
  with assms(1,3) read obtain rows where "grant = Some rows" "j = new_journal True (cr_operation_id result) explicit (env_mode E) (Some rows)"
    "block = None" "db' = db1"
    by (auto simp: opened_result_def Let_def disabled_journal_def new_journal_def split: if_splits)
  then show ?thesis
    using grant_conditions [OF assms(2), of E "cr_operation_id result" now rows db1] read resuming
    by (simp add: new_journal_def)
qed

text \<open>What a claim says of the identifier.\<close>

lemma commit_claim_id:
  "commit_claim E k tok dg rid owner pid now sb fresh db = Inr (r, db') \<Longrightarrow>
   cr_status r = Cl_CLAIMED \<or> cr_status r = Cl_EXISTING \<Longrightarrow> cr_operation_id r = k"
  by (auto simp: commit_claim_cases claim_result_def Let_def split: option.splits if_splits)

lemma claim_id:
  assumes "claim E c now sb fresh db = (Inr r, db')" and "cr_status r = Cl_CLAIMED \<or> cr_status r = Cl_EXISTING"
  shows "cr_operation_id r = cl_delivery_id c"
proof -
  note [split] = sum.splits exn.splits prod.splits
  show ?thesis
    using assms commit_claim_id
    by (auto simp: claim_def with_connection_def then_api_def immediate_def Let_def claim_result_def)
qed

text \<open>In enforce mode a delivery with an identifier of its own either gets an enabled journal over that very
  operation or is refused; it never runs unjournaled.\<close>

theorem enforce_journals_or_refuses:
  assumes "env_mode E = ''enforce''" and "dr_delivery_id q \<noteq> []"
  shows "case open_delivery_journal E coordinator_opens q sid stok ts now now2 sb fresh db of ((j, block), db') \<Rightarrow>
    (block = None \<longleftrightarrow> enabled j) \<and> (enabled j \<longrightarrow> dj_operation_id j = dr_delivery_id q)"
proof -
  let ?c = "\<lparr> cl_delivery_id = dr_delivery_id q, cl_capability_token = dr_capability_token q,
    cl_run_identity = Some (dr_run_identity q), cl_skip_reflect = dr_skip_reflect q,
    cl_skip_index_sync = dr_skip_index_sync q, cl_allow_unverified = dr_allow_unverified q,
    cl_acceptable_failure_digest = dr_acceptable_failure_digest q, cl_owner = DELIVERY_JOURNAL_OWNER, cl_pid = env_pid E \<rparr>"
  have off: "\<not> enabled (disabled_journal m)" for m by (simp add: enabled_def disabled_journal_def new_journal_def)
  have opened: "case opened_result E ts r (dr_delivery_id q) True now2 db' of ((j, block), db'') \<Rightarrow>
      (block = None \<longleftrightarrow> enabled j) \<and> (enabled j \<longrightarrow> dj_operation_id j = dr_delivery_id q)"
    if "cr_status r = Cl_CLAIMED \<or> cr_status r = Cl_EXISTING \<Longrightarrow> cr_operation_id r = dr_delivery_id q" for r db'
    using that assms off
    by (auto simp: opened_result_def Let_def new_journal_def enabled_def split: prod.splits)
  show ?thesis
  proof (cases "claim E ?c now sb fresh db")
    case (Pair res db')
    show ?thesis
    proof (cases res)
      case (Inl e)
      then show ?thesis using assms off Pair by (simp add: open_delivery_journal_def Let_def)
    next
      case (Inr r)
      then show ?thesis
        using assms off Pair opened [of r db'] claim_id [of E ?c now sb fresh db r db']
        by (simp add: open_delivery_journal_def Let_def)
    qed
  qed
qed

text \<open>Without an identifier of its own the same delivery is not protected: in enforce mode, when the claim
  fails (here, on a store whose schema cannot be opened), no refusal is returned and the journal is a disabled
  one, through which every step runs its effect and records nothing.\<close>

theorem enforce_claim_failure_unjournaled:
  assumes "env_mode E = ''enforce''" and "dr_delivery_id q = []" and "initialize_schema_locked db = Inl err"
  shows "open_delivery_journal E True q sid stok ts now now2 sb fresh db = ((disabled_journal ''enforce'', None), db) \<and>
    (\<forall>e t1 t2 t3 body w. dw_journal w = disabled_journal ''enforce'' \<and> e \<noteq> [] \<longrightarrow>
       fst (journal_step_on E e t1 t2 t3 body w) = fst (body True (w\<lparr>dw_open := dw_open w @ [e]\<rparr>)))"
proof (intro conjI allI impI)
  show "open_delivery_journal E True q sid stok ts now now2 sb fresh db = ((disabled_journal ''enforce'', None), db)"
    using assms by (simp add: open_delivery_journal_def claim_def with_connection_def Let_def)
  fix e :: string and t1 t2 t3 and w :: delivery_world and body :: "bool \<Rightarrow> 'a effect"
  assume w: "dw_journal w = disabled_journal ''enforce'' \<and> e \<noteq> []"
  then have "skip_completed e t1 w = (Inr False, w)"
    by (intro skip_none) (simp add: disabled_journal_def new_journal_def)
  moreover have "journal_begin E e t2 w = (Inr False, w)"
    using w by (simp add: journal_begin_def enabled_def disabled_journal_def new_journal_def Let_def)
  ultimately show "fst (journal_step_on E e t1 t2 t3 body w) = fst (body True (w\<lparr>dw_open := dw_open w @ [e]\<rparr>))"
    using w by (simp add: journal_step_on_def open_boundary_def split: prod.split)
qed

section \<open>Nested steps\<close>

text \<open>What an effect owes the delivery around it: the store stays well-formed, every operation keeps its
  binding, and the boundaries and the binding of the thread are restored.\<close>

definition well_behaved :: "'a effect \<Rightarrow> bool" where
  "well_behaved body \<longleftrightarrow> (\<forall>w. wf_db (dw_db w) \<longrightarrow>
     wf_db (dw_db (snd (body w))) \<and> keeps_operations (dw_db w) (dw_db (snd (body w))) \<and>
     dw_open (snd (body w)) = dw_open w \<and> dw_bound (snd (body w)) = dw_bound w)"

lemma guarded_call_behaves:
  assumes "\<And>db. wf_db db \<Longrightarrow> wf_db (snd (call db)) \<and> keeps_operations db (snd (call db))"
  shows "well_behaved (guarded_call mode call ok failed)"
  using assms by (auto simp: well_behaved_def guarded_call_def split: prod.splits sum.splits) force+

lemma well_behaved_D:
  assumes "well_behaved f" "f w = (res, w')" "wf_db (dw_db w)"
  shows "wf_db (dw_db w')" "keeps_operations (dw_db w) (dw_db w')" "dw_open w' = dw_open w" "dw_bound w' = dw_bound w"
  using assms(1)[unfolded well_behaved_def, rule_format, OF assms(3)] by (simp_all add: assms(2))

lemma skip_behaves:
  assumes "0 \<le> now"
  shows "well_behaved (skip_completed e now)"
proof -
  have call: "well_behaved (guarded_call mode (finalize_step k e St_SUCCEEDED Dp_SKIPPED_NO_WORK code now) True True)" for mode k code
    by (rule guarded_call_behaves) (rule finalize_step_wf [OF _ assms])
  show ?thesis
    unfolding well_behaved_def
  proof (intro allI impI)
    fix w :: delivery_world assume wf: "wf_db (dw_db w)"
    let ?w = "w\<lparr>dw_journal := (dw_journal w)\<lparr>dj_skipped_effects := List.insert e (dj_skipped_effects (dw_journal w))\<rparr>\<rparr>"
    have "wf_db (dw_db ?w)" using wf by simp
    from call [unfolded well_behaved_def, rule_format, OF this] wf
    show "wf_db (dw_db (snd (skip_completed e now w))) \<and> keeps_operations (dw_db w) (dw_db (snd (skip_completed e now w))) \<and>
        dw_open (snd (skip_completed e now w)) = dw_open w \<and> dw_bound (snd (skip_completed e now w)) = dw_bound w"
      by (simp add: skip_completed_def Let_def keeps_refl split: option.split)
  qed
qed

lemma begin_behaves:
  assumes "0 \<le> now"
  shows "well_behaved (journal_begin E e now)"
proof -
  have call: "well_behaved (guarded_call mode (begin_step E k e owner pid now) True False)" for mode k owner pid
    by (rule guarded_call_behaves) (rule begin_step_wf [OF _ assms])
  show ?thesis
    unfolding well_behaved_def
  proof (intro allI impI)
    fix w :: delivery_world assume wf: "wf_db (dw_db w)"
    let ?j = "dw_journal w"
    obtain r w' where run: "guarded_call (dj_mode ?j) (begin_step E (dj_operation_id ?j) e DELIVERY_JOURNAL_OWNER (env_pid E) now)
        True False w = (r, w')" by fastforce
    have "journal_begin E e now w = (if \<not> enabled ?j then (Inr False, w)
        else (r, if r = Inr True then w'\<lparr>dw_journal := (dw_journal w')\<lparr>dj_journaled_effects :=
                   List.insert e (dj_journaled_effects (dw_journal w'))\<rparr>\<rparr> else w'))"
      by (simp add: journal_begin_def Let_def run split: sum.split bool.split)
    then show "wf_db (dw_db (snd (journal_begin E e now w))) \<and> keeps_operations (dw_db w) (dw_db (snd (journal_begin E e now w))) \<and>
        dw_open (snd (journal_begin E e now w)) = dw_open w \<and> dw_bound (snd (journal_begin E e now w)) = dw_bound w"
      using well_behaved_D [OF call run wf] wf by (simp add: keeps_refl)
  qed
qed

lemma finalize_behaves:
  assumes "0 \<le> now"
  shows "well_behaved (journal_finalize e state code now)"
proof -
  have "well_behaved (guarded_call mode (finalize_step k e state Dp_NONE code now) () ())" for mode k
    by (rule guarded_call_behaves) (rule finalize_step_wf [OF _ assms])
  then show ?thesis by (auto simp: well_behaved_def journal_finalize_def keeps_refl)
qed

text \<open>Steps compose: a journaled step around a well-behaved effect is a well-behaved effect, whatever the
  effect returns or raises and whether the journal calls fail or not; so is every nest of steps, and the store
  is well-formed at every moment of a delivery.\<close>

theorem steps_compose:
  assumes "\<And>run. well_behaved (body run)" and "0 \<le> t1" "0 \<le> t2" "0 \<le> t3"
  shows "well_behaved (journal_step E e t1 t2 t3 body)"
  unfolding well_behaved_def
proof (intro allI impI)
  fix w :: delivery_world assume wf: "wf_db (dw_db w)"
  let ?G = "\<lambda>w'. wf_db (dw_db w') \<and> keeps_operations (dw_db w) (dw_db w') \<and> dw_open w' = dw_open w \<and> dw_bound w' = dw_bound w"
  have body: "?G (snd (body run w'))" if "?G w'" for run w'
    using assms(1) [of run, unfolded well_behaved_def, rule_format, of w'] that keeps_trans by auto
  have G: "?G w" using wf by (simp add: keeps_refl)
  obtain skip w1 where w1: "skip_completed e t1 w = (skip, w1)" by fastforce
  have G1: "?G w1" using well_behaved_D [OF skip_behaves [OF assms(2)] w1 wf] by simp
  obtain started w2 where w2: "journal_begin E e t2 w1 = (started, w2)" by fastforce
  have G2: "?G w2" using well_behaved_D [OF begin_behaves [OF assms(3)] w2] G1 keeps_trans by auto
  obtain res w3 where w3: "body True (w2\<lparr>dw_open := dw_open w2 @ [e]\<rparr>) = (res, w3)" by fastforce
  have G3: "?G (w3\<lparr>dw_open := dw_open w2\<rparr>)"
    using well_behaved_D [OF assms(1) w3] G2 keeps_trans by auto
  obtain refusal w4 where w4: "take_refusal e (w3\<lparr>dw_open := dw_open w2\<rparr>) = (refusal, w4)" by fastforce
  have G4: "?G w4" using G3 take_refusal_eq(2-5) [of e "w3\<lparr>dw_open := dw_open w2\<rparr>", unfolded w4] by simp
  define state where "state = (if (\<exists>x. res = Inl x) \<or> refusal \<noteq> [] then St_FAILED else St_SUCCEEDED)"
  obtain r5 w5 where w5: "journal_finalize e state refusal t3 w4 = (r5, w5)" by fastforce
  have G5: "?G w5" using well_behaved_D [OF finalize_behaves [OF assms(4)] w5] G4 keeps_trans by auto
  have "journal_step_on E e t1 t2 t3 body w =
      (if e = [] then body True w
       else case skip of Inl x \<Rightarrow> (Inl x, w1) | Inr True \<Rightarrow> body False w1
         | Inr False \<Rightarrow> (case started of Inl x \<Rightarrow> (Inl x, w2)
             | Inr b \<Rightarrow> if b then (case r5 of Inl x \<Rightarrow> (Inl x, w5) | Inr _ \<Rightarrow> (res, w5)) else (res, w4)))"
    by (simp only: journal_step_on_def w1 w2 w3 w4 w5 open_boundary_def prod.case flip: state_def)
  then have "snd (journal_step E e t1 t2 t3 body w) \<in> {snd (body True w), w1, snd (body False w1), w2, w4, w5}"
    unfolding journal_step_def by (simp split: sum.split bool.split)
  then show "?G (snd (journal_step E e t1 t2 t3 body w))"
    using body [OF G, of True] body [OF G1, of False] G1 G2 G4 G5
    by (elim insertE emptyE) (simp_all only:)
qed

section \<open>Witnesses\<close>

text \<open>The example operation under a resume grant of process 7: the phase write succeeded, the trust increment is
  in doubt.\<close>

definition granted_example :: journal_db where
  "granted_example = example_db\<lparr>
     db_operations := [example_operation\<lparr>op_lease_pid := 7, op_lease_expiry_utc_ms := 3000000\<rparr>],
     db_steps := [(''op'', example_step ''S01'' POSTCONDITION_PROVABLE St_SUCCEEDED),
                  (''op'', example_step ''D16'' NON_REPLAYABLE St_INDETERMINATE)],
     db_events := [\<lparr> ev_operation_id = ''op'', ev_action = Ra_RESUME, ev_reason = ''crashed'', ev_evidence_ref = [],
       ev_effect_id = [], ev_decided_utc_ms = 2000000 \<rparr>]\<rparr>"

definition example_world :: "journal_db \<Rightarrow> DeliverJournal \<Rightarrow> delivery_world" where
  "example_world db j = \<lparr> dw_db = db, dw_journal = j, dw_bound = True, dw_open = [], dw_refusals = [] \<rparr>"

definition quiet :: "bool \<Rightarrow> unit effect" where
  "quiet run w = (Inr (), w)"

lemma quiet_silent: "store_silent (quiet b)" and quiet_behaved: "well_behaved (quiet b)"
  by (simp_all add: store_silent_def well_behaved_def quiet_def keeps_refl)

lemma granted_example_facts:
  "store_open granted_example" "keys_ok granted_example"
  "get_operation granted_example ''op'' = Some (example_operation\<lparr>op_lease_pid := 7, op_lease_expiry_utc_ms := 3000000\<rparr>)"
  "get_step granted_example ''op'' ''S01'' = Some (example_step ''S01'' POSTCONDITION_PROVABLE St_SUCCEEDED)"
  "get_step granted_example ''op'' ''D16'' = Some (example_step ''D16'' NON_REPLAYABLE St_INDETERMINATE)"
  "latest_resume_grant granted_example ''op'' \<noteq> None"
proof -
  show "store_open granted_example"
    by (rule same_frame [of example_db]) (simp_all add: store_open_def example_open granted_example_def)
  show "keys_ok granted_example"
    using wf_keys [OF example_wf]
    by (simp add: keys_ok_def granted_example_def example_tables example_ids unique_key_def op_ids_def step_key_def)
qed (simp_all add: granted_example_def get_operation_def example_ids get_step_def step_key_def example_step_def
    latest_resume_grant_def get_recovery_events_def)

lemma granted_example_read:
  "read_resume_grant example_env ''op'' 2000000 granted_example =
     (Some (map (\<lambda>s. (st_effect_id s, s)) (get_steps granted_example ''op'')), granted_example)"
  using granted_example_facts
  by (simp add: read_resume_grant_def api_body [OF granted_example_facts(1) [unfolded store_open_def]] read_grant_body_def
      example_running TERMINAL_OPERATION_STATES_def example_operation_def DELIVERY_JOURNAL_OWNER_def example_env_def)

lemma example_descriptors:
  "\<exists>d. get_descriptor ''S01'' = Inr d" "\<exists>d. get_descriptor ''D16'' = Inr d"
  by (simp_all add: get_descriptor_eq CENSUS_def)

theorem step_outcome_recorded_witness:
  "case journal_step_on example_env ''S01'' 2000 2001 2002 quiet
      (example_world example_db (new_journal True ''op'' True ''enforce'' None)) of (res, w') \<Rightarrow>
     map_option st_state (get_step (dw_db w') ''op'' ''S01'') = Some St_SUCCEEDED"
proof -
  obtain d where d: "get_descriptor ''S01'' = Inr d" using example_descriptors by blast
  let ?w = "example_world example_db (new_journal True ''op'' True ''enforce'' None)"
  have "store_open (dw_db ?w)" "get_operation (dw_db ?w) (dj_operation_id (dw_journal ?w)) = Some example_operation"
    "enabled (dw_journal ?w)" "map_of (dj_resume_steps (dw_journal ?w)) ''S01'' = None"
    by (simp_all add: example_world_def store_open_def example_open example_get new_journal_def enabled_def)
  from step_outcome_recorded [where body = quiet and w = ?w, OF _ this(3,1) d this(2) _ this(4) quiet_silent, of example_env 2000 2001 2002]
  show ?thesis
    by (auto simp: example_running example_world_def new_journal_def quiet_def refusal_of_def split: prod.splits)
qed

theorem completed_step_skipped_witness:
  "\<exists>w1. journal_step_on example_env ''S01'' 2000 2001 2002 quiet (example_world granted_example
      (new_journal True ''op'' True ''enforce'' (Some [(''S01'', example_step ''S01'' POSTCONDITION_PROVABLE St_SUCCEEDED)])))
     = quiet False w1"
proof -
  let ?s = "example_step ''S01'' POSTCONDITION_PROVABLE St_SUCCEEDED"
  let ?w = "example_world granted_example (new_journal True ''op'' True ''enforce'' (Some [(''S01'', ?s)]))"
  obtain d where d: "get_descriptor ''S01'' = Inr d" using example_descriptors by blast
  have "store_open (dw_db ?w)" "enabled (dw_journal ?w)" "map_of (dj_resume_steps (dw_journal ?w)) ''S01'' = Some ?s"
    "get_step (dw_db ?w) (dj_operation_id (dw_journal ?w)) ''S01'' = Some ?s" "st_state ?s = St_SUCCEEDED"
    "get_operation (dw_db ?w) (dj_operation_id (dw_journal ?w)) =
      Some (example_operation\<lparr>op_lease_pid := 7, op_lease_expiry_utc_ms := 3000000\<rparr>)"
    using granted_example_facts by (simp_all add: example_world_def new_journal_def enabled_def) (simp add: example_step_def)
  from completed_step_skipped [where body = quiet and w = ?w, OF _ _ this(2,1) d this(6,3,5,4), of example_env 2000 2001 2002]
  show ?thesis by (auto simp: ALWAYS_REEVALUATE_EFFECTS_def)
qed

theorem indeterminate_step_rerun_witness:
  "case journal_step_on example_env ''D16'' 2000000 2000001 2000002 quiet (example_world granted_example
      (new_journal True ''op'' True ''enforce'' (Some (map (\<lambda>s. (st_effect_id s, s)) (get_steps granted_example ''op''))))) of
    (res, w') \<Rightarrow> map_option st_state (get_step (dw_db w') ''op'' ''D16'') = Some St_SUCCEEDED"
proof -
  let ?w = "example_world granted_example
      (new_journal True ''op'' True ''enforce'' (Some (map (\<lambda>s. (st_effect_id s, s)) (get_steps granted_example ''op''))))"
  obtain d where d: "get_descriptor ''D16'' = Inr d" using example_descriptors by blast
  have w: "dw_db ?w = granted_example" "dw_journal ?w = new_journal True ''op'' True ''enforce''
      (Some (map (\<lambda>s. (st_effect_id s, s)) (get_steps granted_example ''op'')))" by (simp_all add: example_world_def)
  have "st_state (example_step ''D16'' NON_REPLAYABLE St_INDETERMINATE) = St_INDETERMINATE" by (simp add: example_step_def)
  from indeterminate_step_rerun [where body = quiet, OF _ granted_example_facts(1-3) _ _ d granted_example_facts(5) this
      granted_example_read w quiet_silent, of 2000000 2000001 2000002]
  show ?thesis
    by (auto simp: example_running example_world_def new_journal_def quiet_def refusal_of_def split: prod.splits)
qed

theorem resume_mode_needs_grant_witness:
  "\<exists>j. opened_result example_env ''ts'' ((claim_result Cl_EXISTING ''idempotent_same_request'')\<lparr>cr_operation_id := ''op''\<rparr>)
      ''op'' True 2000000 granted_example = ((j, None), granted_example) \<and>
    dj_resume_steps j = map (\<lambda>s. (st_effect_id s, s)) (get_steps granted_example ''op'')"
proof -
  let ?r = "(claim_result Cl_EXISTING ''idempotent_same_request'')\<lparr>cr_operation_id := ''op''\<rparr>"
  let ?j = "new_journal True ''op'' True ''enforce'' (Some (map (\<lambda>s. (st_effect_id s, s)) (get_steps granted_example ''op'')))"
  have run: "opened_result example_env ''ts'' ?r ''op'' True 2000000 granted_example = ((?j, None), granted_example)"
    by (simp add: opened_result_def granted_example_read claim_result_def example_env_def [THEN arg_cong, of env_mode] Let_def)
  have "dj_resume_mode ?j" by (simp add: new_journal_def)
  from resume_mode_needs_grant [OF run granted_example_facts(1) this] run show ?thesis by (auto simp: claim_result_def)
qed

definition example_delivery :: "string \<Rightarrow> delivery_request" where
  "example_delivery k = \<lparr> dr_run_identity = [], dr_skip_reflect = False, dr_skip_index_sync = False,
     dr_allow_unverified = False, dr_acceptable_failure_digest = [], dr_delivery_id = k,
     dr_capability_token = ''0123456789abcdef'' \<rparr>"

theorem enforce_journals_or_refuses_witness:
  "case open_delivery_journal example_env False (example_delivery ''op'') [] [] ''ts'' 0 0 0 [] example_db of
     ((j, block), db') \<Rightarrow> block \<noteq> None \<and> \<not> enabled j"
proof -
  have "env_mode example_env = ''enforce''" "dr_delivery_id (example_delivery ''op'') \<noteq> []"
    by (simp_all add: example_env_def example_delivery_def)
  note fact = enforce_journals_or_refuses [OF this, of False "[]" "[]" "''ts''" 0 0 0 "[]" example_db]
  have "\<not> enabled (fst (fst (open_delivery_journal example_env False (example_delivery ''op'') [] [] ''ts'' 0 0 0 [] example_db)))"
    by (simp add: open_delivery_journal_def Let_def enabled_def disabled_journal_def new_journal_def)
  with fact show ?thesis by (auto split: prod.splits)
qed

theorem enforce_claim_failure_unjournaled_witness:
  "open_delivery_journal example_env True (example_delivery []) ''id'' ''token'' ''ts'' 0 0 0 []
     (example_db\<lparr>db_schema_version := Some ''2''\<rparr>) =
   ((disabled_journal ''enforce'', None), example_db\<lparr>db_schema_version := Some ''2''\<rparr>)"
proof -
  have "initialize_schema_locked (example_db\<lparr>db_schema_version := Some ''2''\<rparr>) = Inl (UnsupportedDeliveryJournalSchema 2)"
    by (simp add: example_db_def initialize_schema_locked_def SCHEMA_tables_def read_schema_version_def
        SCHEMA_VERSION_def is_decimal_def is_digit_def parse_int_def)
  moreover have "env_mode example_env = ''enforce''" "dr_delivery_id (example_delivery []) = []"
    by (simp_all add: example_env_def example_delivery_def)
  ultimately show ?thesis by (intro conjunct1 [OF enforce_claim_failure_unjournaled])
qed

theorem steps_compose_witness:
  "wf_db (dw_db (snd (journal_step example_env ''S01'' 1 2 3 (\<lambda>_. journal_step example_env ''S02'' 4 5 6 quiet)
     (example_world example_db (new_journal True ''op'' True ''enforce'' None)))))"
proof -
  have "well_behaved (journal_step example_env ''S02'' 4 5 6 quiet)" by (rule steps_compose) (simp_all add: quiet_behaved)
  then have "well_behaved (journal_step example_env ''S01'' 1 2 3 (\<lambda>_. journal_step example_env ''S02'' 4 5 6 quiet))"
    by (rule steps_compose) simp_all
  moreover have "wf_db (dw_db (example_world example_db (new_journal True ''op'' True ''enforce'' None)))"
    using example_wf by (simp add: example_world_def)
  ultimately show ?thesis unfolding well_behaved_def by blast
qed

end
