(* ===== verification/Delivery_Protocol.thy ===== *)
theory Delivery_Protocol
  imports Delivery_Journal
begin

text \<open>
  The delivery journal as a whole: every call of the coordinator as a step on the store, what is reachable from
  an empty store, and what no sequence of calls, interleaved in any order by any processes, can do. Each call is
  one transaction of the source (a claim and the maintenance before it are two, in one call), so sequences of
  calls are its interleavings.
\<close>

section \<open>Calls\<close>

datatype delivery_call =
    Claim claim_request int int string
  | Begin string string string int int
  | Finalize string string StepState StepDisposition string int
  | Mark string OperationState int
  | Enqueue string string int
  | Recover string int
  | Takeover string string int string string int "bool option" int
  | Reconcile string string bool string int string string int
  | Cancel string string int string int
  | Resume string string int string string int "bool option" int int
  | Maintain int

primrec call_times :: "delivery_call \<Rightarrow> int list" where
  "call_times (Claim c now sb fresh) = [now]"
| "call_times (Begin k e owner pid now) = [now]"
| "call_times (Finalize k e s d code now) = [now]"
| "call_times (Mark k s now) = [now]"
| "call_times (Enqueue k dg now) = [now]"
| "call_times (Recover k now) = [now]"
| "call_times (Takeover k tok erev reason owner pid alive now) = [now]"
| "call_times (Reconcile k e applied tok erev reason ref now) = [now]"
| "call_times (Cancel k tok erev reason now) = [now]"
| "call_times (Resume k tok erev reason owner pid alive now later) = [now, later]"
| "call_times (Maintain now) = [now]"

primrec perform :: "delivery_env \<Rightarrow> delivery_call \<Rightarrow> journal_db \<Rightarrow> journal_db" where
  "perform E (Claim c now sb fresh) db = snd (claim E c now sb fresh db)"
| "perform E (Begin k e owner pid now) db = snd (begin_step E k e owner pid now db)"
| "perform E (Finalize k e s d code now) db = snd (finalize_step k e s d code now db)"
| "perform E (Mark k s now) db = snd (mark_operation_state k s now db)"
| "perform E (Enqueue k dg now) db = snd (enqueue_deferred E k dg now db)"
| "perform E (Recover k now) db = snd (recover_after_crash E k now db)"
| "perform E (Takeover k tok erev reason owner pid alive now) db =
     snd (takeover E k tok erev reason owner pid alive now db)"
| "perform E (Reconcile k e applied tok erev reason ref now) db =
     snd (reconcile_effect E k e applied tok erev reason ref now db)"
| "perform E (Cancel k tok erev reason now) db = snd (request_cancel E k tok erev reason now db)"
| "perform E (Resume k tok erev reason owner pid alive now later) db =
     snd (resume E k tok erev reason owner pid alive now later db)"
| "perform E (Maintain now) db = snd (coordinator_maintenance E now db)"

text \<open>The clock of a call is not negative and does not run backwards within it.\<close>

inductive delivery_step :: "delivery_env \<Rightarrow> journal_db \<Rightarrow> delivery_call \<Rightarrow> journal_db \<Rightarrow> bool" for E where
  call: "sorted (0 # call_times c) \<Longrightarrow> delivery_step E db c (perform E c db)"

inductive_cases delivery_stepE: "delivery_step E db c db'"

inductive_simps delivery_step_iff: "delivery_step E db c db'"

inductive delivery_steps :: "delivery_env \<Rightarrow> journal_db \<Rightarrow> delivery_call list \<Rightarrow> journal_db \<Rightarrow> bool" for E where
  none: "delivery_steps E db [] db"
| more: "delivery_step E db c db1 \<Longrightarrow> delivery_steps E db1 cs db2 \<Longrightarrow> delivery_steps E db (c # cs) db2"

section \<open>One call\<close>

text \<open>What a call may do to one identifier that it does not claim: the operation stays away, goes away, or
  evolves.\<close>

definition evolves_at :: "string \<Rightarrow> journal_db \<Rightarrow> journal_db \<Rightarrow> bool" where
  "evolves_at k db db' \<longleftrightarrow> get_operation db' k = None \<or>
     (\<exists>op op'. get_operation db k = Some op \<and> get_operation db' k = Some op' \<and> op_evolves op op')"

lemma evolves_at_refl: "evolves_at k db db"
  by (cases "get_operation db k") (simp_all add: evolves_at_def op_evolves_refl)

lemma evolves_at_trans: "evolves_at k a b \<Longrightarrow> evolves_at k b c \<Longrightarrow> evolves_at k a c"
  using op_evolves_trans by (fastforce simp: evolves_at_def)

lemma keeps_evolves: "keeps_operations db db' \<Longrightarrow> evolves_at k db db'"
  unfolding keeps_operations_def evolves_at_def by (drule spec [of _ k]) (auto split: option.splits)

lemma retained_evolves:
  "get_operation db0 k = get_operation db k \<Longrightarrow> get_operation db' k = after_retention now db0 k \<Longrightarrow> evolves_at k db db'"
  by (auto simp: evolves_at_def after_retention_def op_evolves_refl split: option.splits if_splits)

lemma commit_claim_other:
  "commit_claim E k tok dg rid owner pid now sb fresh db = Inr (r, db') \<Longrightarrow> k' \<noteq> k \<Longrightarrow>
   get_operation db' k' = get_operation db k'"
  by (auto simp: commit_claim_cases Let_def advance_high_water_def get_operation_def find_row_append claimed_operation_def
      split: option.splits if_splits)

lemma claim_evolves:
  assumes wf: "wf_db db" and "cl_delivery_id c \<noteq> k"
  shows "evolves_at k db (snd (claim E c now sb fresh db))"
proof (cases "initialize_schema_locked db")
  case (Inl e)
  then show ?thesis by (simp add: claim_def with_connection_def evolves_at_refl)
next
  case (Inr x)
  then obtain created db0 where init: "initialize_schema_locked db = Inr (created, db0)" by (cases x) auto
  have wf0: "wf_db db0" using wf_initialize [OF init] wf by simp
  have frame: "get_operation db0 k = get_operation db k" using initialize_schema_D(1) [OF init] by (simp add: get_operation_def)
  obtain counts db1 where m: "run_maintenance E (max now (get_high_water db0)) (stale_lease_ms E) db0 = (Inr counts, db1)"
    and ops: "get_operation db1 k = after_retention (max now (get_high_water db0)) db0 k"
    using run_maintenance_spec [OF wf0] by metis
  have same: "evolves_at k db db0" using frame by (cases "get_operation db k") (simp_all add: evolves_at_def op_evolves_refl)
  have "evolves_at k db (snd (immediate (commit_claim E (cl_delivery_id c) tok dg rid owner pid n sb fresh) db1))" for tok dg rid owner pid n
    using commit_claim_other [of E "cl_delivery_id c" tok dg rid owner pid n sb fresh db1] assms(2) ops
      retained_evolves [OF frame] by (auto simp: immediate_def split: sum.split)
  then show ?thesis
    unfolding claim_unfold [OF init wf0] m snd_conv using same by (auto split: sum.split exn.split)
qed

lemma maintenance_evolves:
  assumes "wf_db db"
  shows "evolves_at k db (snd (coordinator_maintenance E now db))"
proof (cases "initialize_schema_locked db")
  case (Inl e)
  then show ?thesis by (simp add: coordinator_maintenance_def with_connection_def evolves_at_refl)
next
  case (Inr x)
  then obtain created db0 where init: "initialize_schema_locked db = Inr (created, db0)" by (cases x) auto
  have wf0: "wf_db db0" using wf_initialize [OF init] assms by simp
  have frame: "get_operation db0 k = get_operation db k" using initialize_schema_D(1) [OF init] by (simp add: get_operation_def)
  obtain counts db1 where "run_maintenance E (max now (get_high_water db0)) (stale_lease_ms E) db0 = (Inr counts, db1)"
    "get_operation db1 k = after_retention (max now (get_high_water db0)) db0 k"
    using run_maintenance_spec [OF wf0] by metis
  then show ?thesis using retained_evolves [OF frame] by (simp add: coordinator_maintenance_def with_connection_def init)
qed

lemma resume_wf:
  assumes "wf_db db" "0 \<le> now" "now \<le> later"
  shows "wf_db (snd (resume E k tok erev reason owner pid alive now later db)) \<and>
    keeps_operations db (snd (resume E k tok erev reason owner pid alive now later db))"
  unfolding resume_def by (rule wf_keeps_api [OF assms(1)]) (use resume_body_wf assms(2,3) in blast)

definition claims :: "delivery_call \<Rightarrow> string \<Rightarrow> bool" where
  "claims call k \<longleftrightarrow> (case call of Claim c _ _ _ \<Rightarrow> cl_delivery_id c = k | _ \<Rightarrow> False)"

lemma perform_safe:
  assumes "wf_db db" "sorted (0 # call_times c)"
  shows "wf_db (perform E c db)" and "\<not> claims c k \<Longrightarrow> evolves_at k db (perform E c db)"
proof -
  have "wf_db (perform E c db) \<and> (\<not> claims c k \<longrightarrow> evolves_at k db (perform E c db))" for k
    using assms(2)
    by (cases c)
      (simp_all add: assms(1) wf_claim claim_evolves claims_def coordinator_maintenance_wf maintenance_evolves keeps_evolves
        begin_step_wf finalize_step_wf mark_operation_state_wf enqueue_deferred_wf recover_after_crash_wf takeover_wf resume_wf
        reconcile_effect_def reconcile.run_wf request_cancel_def cancel.run_wf)
  then show "wf_db (perform E c db)" "\<not> claims c k \<Longrightarrow> evolves_at k db (perform E c db)" by blast+
qed

section \<open>Sequences of calls\<close>

text \<open>C13: No sequence of calls leaves the store malformed: from a well-formed store, in particular an empty one, every
  reachable store has unique keys and intact references, no identifier both live and tombstoned, and only
  records that satisfy their models, with every step of a registered effect.\<close>

theorem reachable_well_formed:
  assumes "delivery_steps E db cs db'" and "wf_db db"
  shows "wf_db db'"
  using assms
proof (induction rule: delivery_steps.induct)
  case (more db c db1 cs db2)
  then show ?case using perform_safe(1) [of db c E] by (auto elim: delivery_stepE)
qed simp

lemma steps_evolve:
  assumes "delivery_steps E db cs db'" and "wf_db db" and "list_all (\<lambda>c. \<not> claims c k) cs"
  shows "wf_db db' \<and> evolves_at k db db'"
  using assms
proof (induction rule: delivery_steps.induct)
  case (none db)
  then show ?case by (simp add: evolves_at_refl)
next
  case (more db c db1 cs db2)
  have "wf_db db1" "evolves_at k db db1"
    using more.hyps(1) more.prems perform_safe by (auto elim!: delivery_stepE)
  then show ?case using more evolves_at_trans by auto
qed

text \<open>The binding of an identifier outlives everything but its retention: however other calls are interleaved,
  as long as nobody claims the identifier again, an operation that is still stored has the request digest, the
  capability, the scope, the run and the creation time it had before, a deleted one does not come back, and one
  that was not there does not appear.\<close>

theorem binding_is_stable:
  assumes "delivery_steps E db cs db'" and "wf_db db" and "list_all (\<lambda>c. \<not> claims c k) cs"
  shows "case get_operation db' k of
      None \<Rightarrow> True
    | Some op' \<Rightarrow> (case get_operation db k of None \<Rightarrow> False | Some op \<Rightarrow>
        op_request_digest op' = op_request_digest op \<and> op_capability_salt op' = op_capability_salt op \<and>
        op_capability_hash op' = op_capability_hash op \<and> op_project_scope op' = op_project_scope op \<and>
        op_run_identity op' = op_run_identity op \<and> op_created_utc_ms op' = op_created_utc_ms op \<and>
        op_revision op \<le> op_revision op')"
  using steps_evolve [OF assms] by (auto simp: evolves_at_def op_evolves_def same_binding_def)

text \<open>The revision is a sound guard: when a caller's expected revision still matches after any interleaving, the
  operation has the state, the lease and the terminal time the caller saw.\<close>

theorem revision_guards_state:
  assumes "delivery_steps E db cs db'" and "wf_db db" and "list_all (\<lambda>c. \<not> claims c k) cs"
    and "get_operation db k = Some op" and "get_operation db' k = Some op'" and "op_revision op' = op_revision op"
  shows "op_state op' = op_state op \<and> op_lease_owner op' = op_lease_owner op \<and> op_lease_pid op' = op_lease_pid op \<and>
    op_lease_expiry_utc_ms op' = op_lease_expiry_utc_ms op \<and> op_terminal_utc_ms op' = op_terminal_utc_ms op"
  using steps_evolve [OF assms(1-3)] assms(4-6) by (auto simp: evolves_at_def op_evolves_def)

section \<open>Witnesses\<close>

text \<open>The crashed example, cancelled and swept.\<close>

definition example_calls :: "delivery_call list" where
  "example_calls = [Cancel ''op'' ''secret'' 3 ''crashed'' 2000, Maintain 2001]"

lemma example_run: "delivery_steps example_env idle_db example_calls
    (perform example_env (Maintain 2001) (perform example_env (Cancel ''op'' ''secret'' 3 ''crashed'' 2000) idle_db))"
  unfolding example_calls_def
  by (rule delivery_steps.more [OF delivery_step.call delivery_steps.more [OF delivery_step.call delivery_steps.none]]) simp_all

lemma example_calls_claim_nothing: "list_all (\<lambda>c. \<not> claims c k) example_calls"
  by (simp add: example_calls_def claims_def)

theorem reachable_well_formed_witness:
  "wf_db (perform example_env (Maintain 2001) (perform example_env (Cancel ''op'' ''secret'' 3 ''crashed'' 2000) idle_db))"
  by (rule reachable_well_formed [OF example_run sub_example_wf(1)])

theorem binding_is_stable_witness:
  "case get_operation (perform example_env (Maintain 2001)
      (perform example_env (Cancel ''op'' ''secret'' 3 ''crashed'' 2000) idle_db)) ''op'' of
     None \<Rightarrow> True | Some op \<Rightarrow> op_capability_hash op = ''secret''"
  using binding_is_stable [OF example_run sub_example_wf(1) example_calls_claim_nothing, of "''op''"]
  by (auto simp: sub_example_get example_operation_def split: option.splits)

text \<open>A cancel with a stale revision is refused, and the caller's revision still guards what it saw.\<close>

lemma stale_cancel: "delivery_steps example_env idle_db [Cancel ''op'' ''secret'' 2 ''crashed'' 2000] idle_db"
proof -
  have "\<not> authorized_for example_env example_operation ''secret'' 2 ''crashed'' []"
    by (simp add: authorized_for_def example_running)
  then obtain r where "request_cancel_body example_env ''op'' ''secret'' 2 ''crashed'' 2000 idle_db = Inr (r, idle_db)"
    using cancel_result [of example_env "''op''" "''secret''" 2 "''crashed''" 2000 idle_db] by (auto simp: sub_example_get)
  then have "perform example_env (Cancel ''op'' ''secret'' 2 ''crashed'' 2000) idle_db = idle_db"
    by (simp add: request_cancel_def api_body [OF sub_example_open(1)])
  then show ?thesis
    using delivery_steps.more [OF delivery_step.call delivery_steps.none,
        of "Cancel ''op'' ''secret'' 2 ''crashed'' 2000" example_env idle_db] by simp
qed

theorem revision_guards_state_witness: "op_state example_operation = Op_RUNNING"
proof -
  have none: "list_all (\<lambda>c. \<not> claims c ''op'') [Cancel ''op'' ''secret'' 2 ''crashed'' 2000]" by (simp add: claims_def)
  from revision_guards_state [OF stale_cancel sub_example_wf(1) none sub_example_get(1) sub_example_get(1) refl]
  show ?thesis by (simp add: example_running)
qed

end
