(* ===== verification/Ahr_Documents.thy ===== *)
theory Ahr_Documents
  imports Py_Text
begin

text \<open>
  The documents of the Agent Handoff Record (\<^verbatim>\<open>src/trw_mcp/data/ahr/ahr.schema.json\<close>): the hand-off its
  sender writes, the read-back its receiver writes, and the lifecycle event the store appends.

  \<^item> A JSON object that has the members the schema requires is a record of its kind; members no modelled
    rule reads are kept as one text (\<open>ho_rest\<close> and its like), so that equal records are equal objects.
  \<^item> Any other JSON object is an \<open>Odd\<close> document, with the few members the code reads before it validates.
  \<^item> Timestamps and digests stay texts, as in the source; \<open>ahr_env\<close> holds what reads them.
\<close>

section \<open>Principals and pointers\<close>

datatype principal_kind = Agent | Human | Service

primrec principal_kind_value :: "principal_kind \<Rightarrow> string" where
  "principal_kind_value Agent = ''agent''"
| "principal_kind_value Human = ''human''"
| "principal_kind_value Service = ''service''"

record principal =
  pr_id :: string
  pr_kind :: principal_kind
  pr_rest :: string

datatype recipient = Named principal | Unaddressed string "principal option"

record ref =
  ref_uri :: string
  ref_digest :: "string option"
  ref_media_type :: "string option"

record evidence =
  evd_procedure :: string
  evd_scope :: string
  evd_at :: string
  evd_producer :: "string option"
  evd_raw :: "ref option"

section \<open>The hand-off\<close>

datatype tier = Minimal | Standard | Critical

datatype claim_label = Observed | Verified | Inferred | Unknown_label

record claim_entry =
  cl_id :: string
  cl_text :: string
  cl_label :: claim_label
  cl_basis :: "string option"
  cl_evidence :: "evidence list"

text \<open>A list, or the statement that there is none together with what was checked.\<close>

datatype 'a or_none = Listed "'a list" | None_known string

datatype severity = Low | Medium | High

record risk =
  rk_id :: string
  rk_text :: string
  rk_severity :: severity

datatype restriction = Plain_constraint string | Sourced_constraint string bool "ref option"

record action =
  ac_id :: string
  ac_action :: string
  ac_depends_on :: "string list"
  ac_rollback :: "string option"

record next_read =
  nr_uri :: string
  nr_kind :: "string option"
  nr_digest :: "string option"

record listing =
  ls_handoff_id :: string
  ls_digest :: string

record readback_plan =
  rp_required :: bool
  rp_reverify :: "string list"
  rp_verifier :: "principal option"

record integrity =
  in_digest :: string
  in_signature :: "ref option"

record handoff =
  ho_id :: string
  ho_subject :: string
  ho_tier :: tier
  ho_from :: principal
  ho_to :: recipient
  ho_created_at :: string
  ho_expires_at :: "string option"
  ho_as_of :: string
  ho_supersedes :: "listing list"
  ho_goal :: string
  ho_done_when :: "string list"
  ho_constraints :: "restriction or_none option"
  ho_claims :: "claim_entry list"
  ho_not_done :: "string or_none"
  ho_risks :: "risk or_none"
  ho_unknowns :: "string or_none"
  ho_next_actions :: "action list"
  ho_next_read :: "next_read list"
  ho_readback :: "readback_plan option"
  ho_integrity :: "integrity option"
  ho_rest :: string

section \<open>The read-back\<close>

datatype reverify_result = Confirmed | Contradicted | Not_checked | Not_checkable

record reverified =
  rv_claim :: string
  rv_result :: reverify_result
  rv_evidence :: "evidence option"

record discrepancy =
  dc_claim :: "string option"
  dc_pointer :: "nat option"
  dc_text :: string

datatype pointer_status = Match string | Drift string | Missing | No_digest | Not_accessed

record pointer_check =
  pc_index :: nat
  pc_status :: pointer_status

datatype disposition = Ready | Questions

record readback =
  rb_id :: string
  rb_handoff_id :: string
  rb_handoff_digest :: string
  rb_by :: principal
  rb_at :: string
  rb_goal :: string
  rb_first_action :: string
  rb_first_restated :: string
  rb_top_risk :: "string option"
  rb_risk_restated :: string
  rb_done_when :: "string option"
  rb_constraints :: "(nat \<times> string) list"
  rb_reverified :: "reverified list"
  rb_discrepancies :: "discrepancy list"
  rb_disposition :: disposition
  rb_pointer_checks :: "pointer_check list"
  rb_integrity :: "integrity option"
  rb_rest :: string

section \<open>The lifecycle event\<close>

datatype verdict_outcome = Pass | Pass_with_flags | Fail

datatype verdict_method = Deterministic | Judge | By_human

record verification =
  ve_outcome :: verdict_outcome
  ve_verifier :: principal
  ve_method :: verdict_method
  ve_confidence :: "severity option"
  ve_rationale :: string
  ve_readback_digest :: string

datatype report_outcome = Met | Returned | Escalated

text \<open>What happened, with the members the schema requires for it.\<close>

datatype event_kind =
    Offered
  | Read_back ref
  | Answered ref
  | Readback_verified verification
  | Accepted string
  | Declined string
  | Reported report_outcome ref
  | Completed
  | Withdrawn string
  | Superseded ref
  | Expired

primrec event_kind_value :: "event_kind \<Rightarrow> string" where
  "event_kind_value Offered = ''offered''"
| "event_kind_value (Read_back r) = ''read_back''"
| "event_kind_value (Answered r) = ''answered''"
| "event_kind_value (Readback_verified v) = ''readback_verified''"
| "event_kind_value (Accepted at) = ''accepted''"
| "event_kind_value (Declined reason) = ''declined''"
| "event_kind_value (Reported oc r) = ''reported''"
| "event_kind_value Completed = ''completed''"
| "event_kind_value (Withdrawn reason) = ''withdrawn''"
| "event_kind_value (Superseded r) = ''superseded''"
| "event_kind_value Expired = ''expired''"

text \<open>\<open>ev_ref\<close> is the optional \<^verbatim>\<open>ref\<close> of the kinds that do not require one.\<close>

record event =
  ev_id :: string
  ev_handoff_id :: string
  ev_seq :: int
  ev_kind :: event_kind
  ev_actor :: principal
  ev_at :: string
  ev_record_digest :: string
  ev_prev_digest :: "string option"
  ev_ref :: "ref option"
  ev_rest :: string

definition ref_of :: "event \<Rightarrow> ref option" where
  "ref_of ev =
     (case ev_kind ev of
        Read_back r \<Rightarrow> Some r | Answered r \<Rightarrow> Some r | Reported oc r \<Rightarrow> Some r | Superseded r \<Rightarrow> Some r
      | _ \<Rightarrow> ev_ref ev)"

section \<open>Documents\<close>

record odd_document =
  od_type :: "string option"
  od_tier :: "string option"
  od_by :: "string option \<times> string option"
  od_to_kind :: "string option option"
  od_ahr :: bool
  od_handoff_id :: string
  od_tag :: string
  od_text :: string

datatype document = Handoff handoff | Readback readback | Event event | Odd odd_document

primrec document_type :: "document \<Rightarrow> string option" where
  "document_type (Handoff h) = Some ''handoff''"
| "document_type (Readback r) = Some ''readback''"
| "document_type (Event e) = Some ''event''"
| "document_type (Odd d) = od_type d"

primrec without_integrity :: "document \<Rightarrow> document" where
  "without_integrity (Handoff h) = Handoff (h\<lparr>ho_integrity := None\<rparr>)"
| "without_integrity (Readback r) = Readback (r\<lparr>rb_integrity := None\<rparr>)"
| "without_integrity (Event e) = Event e"
| "without_integrity (Odd d) = Odd d"

text \<open>The errors of the hand-off code that are not findings.\<close>

datatype ahr_error =
    AhrInputError string
  | JcsError string
  | MissingMember string
  | AdmissionError string
  | StoreError string
  | ConstraintError string
  | EndpointError string
  | IdentityError string
  | PageError string
  | UncountedRefusal string

record Finding =
  fd_rule :: string
  fd_path :: string
  fd_message :: string

text \<open>
  What the model takes as given: the SHA-256 of the canonical bytes and their size
  (\<^verbatim>\<open>hashlib\<close>, RFC 8785), the parser and printer of timestamps (\<^verbatim>\<open>datetime.fromisoformat\<close>, \<^verbatim>\<open>strftime\<close>, microseconds), the
  Unicode tables behind \<open>norm\<close> and \<open>visible\<close>, the JSON-schema validator, and the walks over the raw JSON
  that look for sentinels, control characters, impossible dates and URI schemes.
\<close>

record ahr_env =
  sha256_jcs :: "document \<Rightarrow> string"
  jcs_size :: "document \<Rightarrow> string + nat"
  instant :: "string \<Rightarrow> int"
  iso :: "int \<Rightarrow> string"
  norm :: "string \<Rightarrow> string"
  visible :: "string \<Rightarrow> bool"
  placeholder_findings :: "document \<Rightarrow> Finding list"
  schema_findings :: "document \<Rightarrow> string list \<Rightarrow> Finding list"
  token_errors :: "document \<Rightarrow> Finding list"
  time_errors :: "document \<Rightarrow> Finding list"
  uri_findings :: "document \<Rightarrow> Finding list"
  names_claim :: "string \<Rightarrow> string \<Rightarrow> bool"
  looks_ahr :: "string \<Rightarrow> bool"

text \<open>\<^verbatim>\<open>digest\<close>: over the bytes of the document without its \<^verbatim>\<open>integrity\<close> (R-INT-1).\<close>

definition doc_digest :: "ahr_env \<Rightarrow> document \<Rightarrow> string" where
  "doc_digest env d = ''sha256:'' @ sha256_jcs env (without_integrity d)"

text \<open>\<^verbatim>\<open>seal\<close> of a hand-off: an existing signature is kept.\<close>

definition sealed_integrity :: "ahr_env \<Rightarrow> document \<Rightarrow> integrity option \<Rightarrow> integrity" where
  "sealed_integrity env d old =
     \<lparr>in_digest = doc_digest env d,
      in_signature = (case old of None \<Rightarrow> None | Some i \<Rightarrow> in_signature i)\<rparr>"

definition seal_handoff :: "ahr_env \<Rightarrow> handoff \<Rightarrow> handoff" where
  "seal_handoff env h = h\<lparr>ho_integrity := Some (sealed_integrity env (Handoff h) (ho_integrity h))\<rparr>"

text \<open>
  \<^verbatim>\<open>digest\<close> of a document nobody has validated yet: a number outside the integers or a lone surrogate has
  no canonical form, and \<^verbatim>\<open>jcs\<close> raises.
\<close>

definition digest_of :: "ahr_env \<Rightarrow> document \<Rightarrow> ahr_error + string" where
  "digest_of env d =
     (case jcs_size env (without_integrity d) of
        Inl e \<Rightarrow> Inl (JcsError e) | Inr n \<Rightarrow> Inr (doc_digest env d))"

lemma digest_unsealed [simp]:
  "doc_digest env (Handoff (h\<lparr>ho_integrity := i\<rparr>)) = doc_digest env (Handoff h)"
  "doc_digest env (Readback (r\<lparr>rb_integrity := i\<rparr>)) = doc_digest env (Readback r)"
  by (simp_all add: doc_digest_def)

end
