(* ===== verification/Comms_Tables.thy ===== *)
theory Comms_Tables
  imports Ahr_Documents
begin

text \<open>
  The tables of a comms mailbox (\<^verbatim>\<open>src/trw_mcp/comms/_schema.py\<close>, schema v7) and the vocabulary of their text
  columns (\<^verbatim>\<open>_envelope.py\<close>). One \<open>comms_db\<close> is the content of one mailbox file.

  \<^item> A row is a record, a table the list of its rows in insertion order; nothing is ever deleted, so a \<^verbatim>\<open>rowid\<close>
    is one more than the largest. Text columns hold what the source stores, so that the verifier's membership
    tests mean something.
  \<^item> \<^verbatim>\<open>REAL\<close> times are integers in microseconds.
  \<^item> A statement that would break a \<^verbatim>\<open>PRIMARY KEY\<close> or \<^verbatim>\<open>UNIQUE\<close> raises \<open>ConstraintError\<close>.
\<close>

record group_row =
  gr_id :: string
  gr_formation :: string
  gr_manifest :: string
  gr_created :: int
  gr_time :: int
  gr_closed :: int
  gr_group_limit :: int
  gr_body_limit :: int
  gr_outstanding_limit :: int
  gr_rate_limit :: int
  gr_charge :: int
  gr_body_budget :: int

record endpoint_row =
  en_group :: string
  en_member :: string
  en_incarnation :: string
  en_session :: string
  en_run :: string
  en_enrolled :: int
  en_seen :: int
  en_lease :: int
  en_generation :: int
  en_protocol :: int

record admission =
  ad_rowid :: int
  ad_group :: string
  ad_sender :: string
  ad_key :: string
  ad_recipient :: string
  ad_kind :: string
  ad_class :: string
  ad_body :: string
  ad_message :: string
  ad_incarnation :: string
  ad_admitted_at :: int
  ad_state :: string
  ad_expires_at :: int
  ad_delivery_count :: int
  ad_sha256 :: string
  ad_traceparent :: "string option"

record milestone =
  ms_message :: string
  ms_fact :: string
  ms_at :: int

record refusal_count =
  rc_group :: string
  rc_reason :: string
  rc_count :: int

record handoff_report =
  hr_message :: string
  hr_next_read :: string
  hr_reported_at :: int

record ahr_row =
  ar_handoff_id :: string
  ar_seq :: int
  ar_message :: string
  ar_event_id :: string
  ar_event :: string
  ar_actor :: string
  ar_at :: string
  ar_subject :: string
  ar_event_digest :: string
  ar_event_doc :: event
  ar_record :: "document option"

record comms_db =
  ahr_events :: "ahr_row list"
  admissions :: "admission list"
  groups :: "group_row list"
  endpoints :: "endpoint_row list"
  milestones :: "milestone list"
  refusal_counts :: "refusal_count list"
  handoff_reports :: "handoff_report list"

section \<open>The vocabulary of the text columns\<close>

definition PENDING :: string where
  "PENDING = ''pending''"

definition ACKED :: string where
  "ACKED = ''acked''"

definition EXPIRED :: string where
  "EXPIRED = ''expired''"

lemmas message_states = PENDING_def ACKED_def EXPIRED_def

definition MESSAGE_STATES :: "string list" where
  "MESSAGE_STATES = [PENDING, ACKED, EXPIRED]"

definition TERMINAL_MESSAGE_STATES :: "string list" where
  "TERMINAL_MESSAGE_STATES = [ACKED, EXPIRED]"

definition HANDOFF_FACTS :: "string list" where
  "HANDOFF_FACTS = [''accepted'', ''reported'', ''completed'']"

definition MILESTONE_FACTS :: "string list" where
  "MILESTONE_FACTS = [''admitted'', ''fetch_prepared'', ACKED, EXPIRED] @ HANDOFF_FACTS"

definition KINDS :: "string list" where
  "KINDS = [''request'', ''reply'', ''status'']"

definition DELIVERY_CLASSES :: "string list" where
  "DELIVERY_CLASSES = [''on_demand'', ''interrupt'', ''on_idle'']"

definition MAX_COUNTER :: int where
  "MAX_COUNTER = 9223372036854775807"

definition NEVER_PREPARED :: string where
  "NEVER_PREPARED = replicate 32 CHR ''0''"

definition ENDPOINT_PROTOCOL :: int where
  "ENDPOINT_PROTOCOL = 4"

definition SECOND :: int where
  "SECOND = 1000000"

text \<open>\<^verbatim>\<open>MEMBER_ID\<close>: \<^verbatim>\<open>[A-Za-z0-9][A-Za-z0-9._-]{0,63}\<close>.\<close>

definition is_alnum :: "char \<Rightarrow> bool" where
  "is_alnum c \<longleftrightarrow> (CHR ''0'' \<le> c \<and> c \<le> CHR ''9'') \<or> (CHR ''A'' \<le> c \<and> c \<le> CHR ''Z'') \<or> (CHR ''a'' \<le> c \<and> c \<le> CHR ''z'')"

definition is_member_id :: "string \<Rightarrow> bool" where
  "is_member_id s \<longleftrightarrow>
     (case s of
        [] \<Rightarrow> False
      | c # cs \<Rightarrow> is_alnum c \<and> length cs \<le> 63 \<and>
          list_all (\<lambda>x. is_alnum x \<or> x \<in> {CHR ''.'', CHR ''_'', CHR ''-''}) cs)"

definition is_hex :: "nat \<Rightarrow> string \<Rightarrow> bool" where
  "is_hex n s \<longleftrightarrow> length s = n \<and> list_all (\<lambda>c. c \<in> set hex_digits) s"

lemma never_prepared_hex [simp]: "is_hex 32 NEVER_PREPARED"
  by (simp add: is_hex_def NEVER_PREPARED_def list_all_iff hex_digits_def)

section \<open>Reading the tables\<close>

definition group_of :: "comms_db \<Rightarrow> string \<Rightarrow> group_row option" where
  "group_of db gid = find_row gr_id gid (groups db)"

definition message_row :: "comms_db \<Rightarrow> string \<Rightarrow> admission option" where
  "message_row db m = find_row ad_message m (admissions db)"

definition endpoint_of :: "comms_db \<Rightarrow> string \<Rightarrow> string \<Rightarrow> endpoint_row option" where
  "endpoint_of db gid member = find_row (\<lambda>e. (en_group e, en_member e)) (gid, member) (endpoints db)"

definition fact_at :: "comms_db \<Rightarrow> string \<Rightarrow> string \<Rightarrow> int option" where
  "fact_at db m f = map_option ms_at (find_row (\<lambda>r. (ms_message r, ms_fact r)) (m, f) (milestones db))"

definition report_of :: "comms_db \<Rightarrow> string \<Rightarrow> handoff_report option" where
  "report_of db m = find_row hr_message m (handoff_reports db)"

section \<open>Writing them\<close>

definition next_rowid :: "comms_db \<Rightarrow> int" where
  "next_rowid db = fold (\<lambda>a n. max (ad_rowid a) n) (admissions db) 0 + 1"

definition insert_milestone :: "string \<Rightarrow> string \<Rightarrow> int \<Rightarrow> comms_db \<Rightarrow> ahr_error + comms_db" where
  "insert_milestone m f at db =
     (if fact_at db m f \<noteq> None then Inl (ConstraintError ''milestones'')
      else Inr (db\<lparr>milestones := milestones db @ [\<lparr>ms_message = m, ms_fact = f, ms_at = at\<rparr>]\<rparr>))"

text \<open>\<^verbatim>\<open>INSERT OR IGNORE\<close>.\<close>

definition add_milestone :: "string \<Rightarrow> string \<Rightarrow> int \<Rightarrow> comms_db \<Rightarrow> comms_db" where
  "add_milestone m f at db =
     (if fact_at db m f \<noteq> None then db
      else db\<lparr>milestones := milestones db @ [\<lparr>ms_message = m, ms_fact = f, ms_at = at\<rparr>]\<rparr>)"

definition update_message :: "string \<Rightarrow> (admission \<Rightarrow> admission) \<Rightarrow> comms_db \<Rightarrow> comms_db" where
  "update_message m f db = db\<lparr>admissions := update_rows ad_message m f (admissions db)\<rparr>"

definition update_group :: "string \<Rightarrow> (group_row \<Rightarrow> group_row) \<Rightarrow> comms_db \<Rightarrow> comms_db" where
  "update_group gid f db = db\<lparr>groups := update_rows gr_id gid f (groups db)\<rparr>"

end
