(* ===== verification/Comms_Verify.thy ===== *)
theory Comms_Verify
  imports Comms_Tables
begin

text \<open>
  The verifier every operation runs before it touches a mailbox (\<^verbatim>\<open>verify\<close> of \<^verbatim>\<open>src/trw_mcp/comms/_schema.py\<close>,
  schema v7): a list of checks in the order the source makes them, the first that fails names the corruption.

  \<open>mailbox_ok\<close> states row by row what the checks amount to; \<open>verify_ok\<close> shows the two agree, so that preserving
  \<open>mailbox_ok\<close> is preserving the verifier's verdict. SQLite's own integrity check and the comparison of the schema text are
  not modelled; nor is the verifier's deadline.
\<close>

text \<open>
  What the mailbox takes as given: SHA-256 (hexadecimal), the Unicode categories C*, Zl and Zp, NFC
  normalisation, and the resolution of a path by the file system.
\<close>

record comms_env =
  ce_sha256 :: "string \<Rightarrow> string"
  ce_unprintable :: "char \<Rightarrow> bool"
  ce_nfc :: "string \<Rightarrow> string"
  ce_resolve :: "string \<Rightarrow> string"

definition NEXT_READ_MAX_BYTES :: nat where
  "NEXT_READ_MAX_BYTES = 512"

definition valid_next_read :: "comms_env \<Rightarrow> string \<Rightarrow> bool" where
  "valid_next_read env s \<longleftrightarrow> s \<noteq> [] \<and> \<not> list_ex (ce_unprintable env) s \<and> length s \<le> NEXT_READ_MAX_BYTES"

text \<open>\<^verbatim>\<open>TRACEPARENT_RE\<close>, with non-zero ids; \<^verbatim>\<open>$\<close> also matches before a final newline.\<close>

definition valid_traceparent :: "string \<Rightarrow> bool" where
  "valid_traceparent s \<longleftrightarrow>
     (let t = (if s \<noteq> [] \<and> last s = CHR 0x0A then butlast s else s);
          trace = take 32 (drop 3 t); span = take 16 (drop 36 t)
      in length t = 55 \<and> take 3 t = ''00-'' \<and> is_hex 32 trace \<and> t ! 35 = CHR ''-'' \<and> is_hex 16 span \<and> t ! 52 = CHR ''-'' \<and>
         is_hex 2 (drop 53 t) \<and> set trace \<noteq> {CHR ''0''} \<and> set span \<noteq> {CHR ''0''})"

fun ordered_times :: "int list \<Rightarrow> bool" where
  "ordered_times [] = True"
| "ordered_times [t] = (0 \<le> t)"
| "ordered_times (s # t # ts) = (0 \<le> s \<and> s \<le> t \<and> ordered_times (t # ts))"

definition absolute :: "string \<Rightarrow> bool" where
  "absolute path \<longleftrightarrow> path \<noteq> [] \<and> hd path = CHR ''/''"

type_synonym checks = "(bool \<times> string) list"

section \<open>The refusal vocabulary of the counters (\<^verbatim>\<open>_policy.py\<close>)\<close>

definition REFUSALS :: "string list" where
  "REFUSALS =
     [''group_closed'', ''invalid_recipient'', ''invalid_message_enum'', ''invalid_utf8'', ''invalid_request_key'',
      ''idempotency_conflict'', ''body_too_large'', ''group_admission_limit'', ''recipient_outstanding_limit'',
      ''sender_rate_limit'', ''recipient_not_eligible'', ''recipient_unavailable'', ''recipient_binding_mismatch'',
      ''live_endpoint_held_by_other_incarnation'', ''endpoint_replaced_by_newer_incarnation'', ''no_endpoint_for_member'',
      ''invalid_cursor'', ''response_too_small'', ''receiver_lease_expired'', ''invalid_inbox_arguments'', ''invalid_ack_ids'',
      ''ack_not_authorized'', ''response_body_policy_incompatible'', ''invalid_scope'', ''ambiguous_addressing'',
      ''scope_too_broad'', ''scope_matches_no_peer'', ''group_storage_budget'', ''not_a_handoff'', ''handoff_not_authorized'',
      ''handoff_not_accepted'', ''handoff_not_reported'', ''handoff_already_reported'', ''invalid_next_read'', ''ahr_invalid'',
      ''ahr_body_conflict'', ''ahr_tier_not_supported'', ''ahr_unaddressed_not_supported'', ''ahr_party_mismatch'',
      ''ahr_readback_required'', ''ahr_lifecycle_refused'', ''ahr_not_offered'', ''ahr_event_conflict'', ''ahr_ref_not_local'',
      ''ahr_ref_unverified'', ''ahr_expiry_exceeds_ttl'']"

section \<open>The checks\<close>

definition group_checks :: "group_row \<Rightarrow> checks" where
  "group_checks g =
     [(is_hex 32 (gr_id g) \<and> is_member_id (gr_formation g) \<and> gr_manifest g \<noteq> [], ''invalid group identity''),
      (absolute (gr_manifest g), ''nonabsolute group path''),
      (ordered_times [gr_created g, gr_time g], ''invalid group clock''),
      (0 \<le> gr_closed g \<and> gr_closed g \<le> 1, ''invalid group policy/accounting''),
      (1 \<le> gr_group_limit g \<and> gr_group_limit g \<le> 4096, ''invalid group policy/accounting''),
      (1 \<le> gr_body_limit g \<and> gr_body_limit g \<le> 65536, ''invalid group policy/accounting''),
      (1 \<le> gr_outstanding_limit g \<and> gr_outstanding_limit g \<le> 256, ''invalid group policy/accounting''),
      (1 \<le> gr_rate_limit g \<and> gr_rate_limit g \<le> 256, ''invalid group policy/accounting''),
      (0 \<le> gr_charge g \<and> gr_charge g \<le> gr_group_limit g, ''invalid group policy/accounting''),
      (65536 \<le> gr_body_budget g \<and> gr_body_budget g \<le> 16777216, ''invalid group body budget'')]"

definition endpoint_checks :: "comms_db \<Rightarrow> endpoint_row \<Rightarrow> checks" where
  "endpoint_checks db e =
     [(group_of db (en_group e) \<noteq> None \<and> is_member_id (en_member e), ''orphan/invalid endpoint''),
      (is_hex 32 (en_incarnation e) \<and> en_session e \<noteq> [] \<and> en_run e \<noteq> [], ''invalid endpoint identity''),
      (absolute (en_run e), ''nonabsolute endpoint path''),
      (ordered_times [en_enrolled e, en_seen e, en_lease e], ''invalid endpoint clock''),
      (case group_of db (en_group e) of None \<Rightarrow> False | Some g \<Rightarrow> en_seen e \<le> gr_time g, ''endpoint ahead of persisted clock''),
      (1 \<le> en_generation e \<and> en_generation e \<le> MAX_COUNTER, ''invalid endpoint generation''),
      (en_protocol e = 3 \<or> en_protocol e = ENDPOINT_PROTOCOL, ''invalid endpoint protocol'')]"

definition outstanding :: "string \<Rightarrow> string \<Rightarrow> admission list \<Rightarrow> int" where
  "outstanding gid member rows =
     int (length (filter (\<lambda>a. ad_group a = gid \<and> ad_recipient a = member \<and> ad_state a = PENDING) rows))"

text \<open>The rows before \<open>a\<close> count towards its recipient's outstanding messages.\<close>

definition admission_row_checks :: "comms_db \<Rightarrow> admission list \<Rightarrow> admission \<Rightarrow> checks" where
  "admission_row_checks db seen a =
     (case group_of db (ad_group a) of
        None \<Rightarrow> [(False, ''orphan/invalid admission'')]
      | Some g \<Rightarrow>
          [(1 \<le> ad_rowid a \<and> ad_rowid a \<le> MAX_COUNTER, ''invalid append order''),
           (is_hex 32 (ad_message a), ''orphan/invalid admission''),
           (is_member_id (ad_sender a) \<and> is_member_id (ad_recipient a), ''invalid admission member''),
           (ad_kind a \<in> set KINDS \<and> ad_class a \<in> set DELIVERY_CLASSES, ''invalid admission enum''),
           (1 \<le> length (ad_key a) \<and> length (ad_key a) \<le> 128, ''invalid retained key''),
           (int (length (ad_body a)) \<le> gr_body_limit g, ''invalid retained body''),
           (is_hex 32 (ad_incarnation a), ''invalid recipient incarnation''),
           (ordered_times [gr_created g, ad_admitted_at a, gr_time g], ''invalid admission time''),
           (ad_state a \<in> set MESSAGE_STATES, ''invalid admission state''),
           (ordered_times [ad_admitted_at a, ad_expires_at a], ''invalid admission expiry''),
           (0 \<le> ad_delivery_count a \<and> ad_delivery_count a \<le> MAX_COUNTER, ''invalid delivery count''),
           (is_hex 64 (ad_sha256 a), ''invalid canonical digest''),
           (case ad_traceparent a of None \<Rightarrow> True | Some t \<Rightarrow> valid_traceparent t, ''invalid traceparent''),
           (ad_state a = PENDING \<longrightarrow> outstanding (ad_group a) (ad_recipient a) (seen @ [a]) \<le> gr_outstanding_limit g,
            ''outstanding limit inconsistent'')])"

fun admission_checks :: "comms_db \<Rightarrow> admission list \<Rightarrow> admission list \<Rightarrow> checks" where
  "admission_checks db seen [] = []"
| "admission_checks db seen (a # rest) = admission_row_checks db seen a @ admission_checks db (seen @ [a]) rest"

text \<open>The sliding window over a sender's sorted times: \<open>live\<close> are those less than a minute old.\<close>

fun window_ok :: "int \<Rightarrow> int list \<Rightarrow> int list \<Rightarrow> bool" where
  "window_ok limit live [] = True"
| "window_ok limit live (t # ts) =
     (let live' = dropWhile (\<lambda>s. 60 * SECOND \<le> t - s) (live @ [t])
      in int (length live') \<le> limit \<and> window_ok limit live' ts)"

definition sender_times :: "comms_db \<Rightarrow> string \<Rightarrow> string \<Rightarrow> int list" where
  "sender_times db gid sender =
     map ad_admitted_at (filter (\<lambda>a. ad_group a = gid \<and> ad_sender a = sender) (admissions db))"

definition rate_checks :: "comms_db \<Rightarrow> checks" where
  "rate_checks db =
     map (\<lambda>(gid, sender). (case group_of db gid of None \<Rightarrow> False
         | Some g \<Rightarrow> window_ok (gr_rate_limit g) [] (sort (sender_times db gid sender)),
         ''historical sender rate exceeds immutable policy''))
       (remdups (map (\<lambda>a. (ad_group a, ad_sender a)) (admissions db)))"

definition charge_of :: "comms_db \<Rightarrow> string \<Rightarrow> int" where
  "charge_of db gid = int (length (filter (\<lambda>a. ad_group a = gid) (admissions db)))"

definition charge_checks :: "comms_db \<Rightarrow> checks" where
  "charge_checks db =
     map (\<lambda>g. (charge_of db (gr_id g) = gr_charge g, ''lifetime charge differs from retained admissions'')) (groups db)"

definition milestone_row_checks :: "comms_db \<Rightarrow> milestone \<Rightarrow> checks" where
  "milestone_row_checks db r =
     [(message_row db (ms_message r) \<noteq> None, ''orphan milestone''),
      (ms_fact r \<in> set MILESTONE_FACTS, ''unknown milestone''),
      (case message_row db (ms_message r) of None \<Rightarrow> False | Some a \<Rightarrow>
         (case group_of db (ad_group a) of None \<Rightarrow> False | Some g \<Rightarrow> ordered_times [ad_admitted_at a, ms_at r, gr_time g]),
       ''invalid milestone time'')]"

definition terminal_facts :: "comms_db \<Rightarrow> string \<Rightarrow> string list" where
  "terminal_facts db m = filter (\<lambda>f. fact_at db m f \<noteq> None) TERMINAL_MESSAGE_STATES"

definition message_checks :: "comms_db \<Rightarrow> admission \<Rightarrow> checks" where
  "message_checks db a =
     (let m = ad_message a; terminals = terminal_facts db m in
      [(fact_at db m ''admitted'' = Some (ad_admitted_at a), ''missing or mismatched admitted fact''),
       (terminals = (if ad_state a = PENDING then [] else [ad_state a]), ''terminal status/milestone disagreement''),
       (case (fact_at db m ''fetch_prepared'', terminals) of
          (Some t, f # fs) \<Rightarrow> (case fact_at db m f of None \<Rightarrow> False | Some u \<Rightarrow> t \<le> u)
        | _ \<Rightarrow> True, ''fetch fact after termination'')])"

definition chained_facts :: "comms_db \<Rightarrow> string \<Rightarrow> string \<Rightarrow> string \<Rightarrow> checks" where
  "chained_facts db m before after =
     (case fact_at db m after of
        None \<Rightarrow> []
      | Some u \<Rightarrow>
          [(fact_at db m before \<noteq> None, after @ '' fact without '' @ before),
           (case fact_at db m before of None \<Rightarrow> False | Some t \<Rightarrow> t \<le> u, after @ '' fact before '' @ before)])"

definition handoff_checks :: "comms_db \<Rightarrow> string \<Rightarrow> checks" where
  "handoff_checks db m =
     (if list_all (\<lambda>f. fact_at db m f = None) HANDOFF_FACTS then []
      else (case message_row db m of None \<Rightarrow> False | Some a \<Rightarrow> ad_kind a = ''request'', ''handoff fact on a non-request message'') #
        chained_facts db m ACKED ''accepted'' @ chained_facts db m ''accepted'' ''reported'' @
        chained_facts db m ''reported'' ''completed'')"

definition report_checks :: "comms_env \<Rightarrow> comms_db \<Rightarrow> handoff_report \<Rightarrow> checks" where
  "report_checks env db r =
     [(message_row db (hr_message r) \<noteq> None, ''orphan handoff report''),
      (valid_next_read env (hr_next_read r), ''invalid handoff next_read''),
      (fact_at db (hr_message r) ''reported'' \<noteq> None, ''handoff report without a reported fact''),
      (fact_at db (hr_message r) ''reported'' = Some (hr_reported_at r), ''handoff report time differs from its reported fact'')]"

definition reported_checks :: "comms_db \<Rightarrow> string \<Rightarrow> checks" where
  "reported_checks db m =
     [(fact_at db m ''reported'' = None \<or> report_of db m \<noteq> None, ''reported fact without its handoff report'')]"

definition refusal_checks :: "comms_db \<Rightarrow> refusal_count \<Rightarrow> checks" where
  "refusal_checks db r =
     [(group_of db (rc_group r) \<noteq> None \<and> rc_reason r \<in> set REFUSALS, ''invalid refusal category or group''),
      (1 \<le> rc_count r \<and> rc_count r \<le> MAX_COUNTER, ''invalid refusal counter'')]"

definition verify_checks :: "comms_env \<Rightarrow> comms_db \<Rightarrow> checks" where
  "verify_checks env db =
     concat (map group_checks (groups db)) @ concat (map (endpoint_checks db) (endpoints db)) @
     admission_checks db [] (admissions db) @ rate_checks db @ charge_checks db @
     concat (map (milestone_row_checks db) (milestones db)) @ concat (map (message_checks db) (admissions db)) @
     concat (map (\<lambda>r. handoff_checks db (ms_message r)) (milestones db)) @
     concat (map (report_checks env db) (handoff_reports db)) @
     concat (map (\<lambda>r. reported_checks db (ms_message r)) (milestones db)) @
     concat (map (refusal_checks db) (refusal_counts db))"

text \<open>The first check that fails raises \<^verbatim>\<open>ValueError\<close> with its detail; \<^verbatim>\<open>_verify_schema\<close> reports the store corrupt.\<close>

definition verify :: "comms_env \<Rightarrow> comms_db \<Rightarrow> string + unit" where
  "verify env db = (case find (\<lambda>c. \<not> fst c) (verify_checks env db) of None \<Rightarrow> Inr () | Some c \<Rightarrow> Inl (snd c))"

definition verify_schema :: "comms_env \<Rightarrow> comms_db \<Rightarrow> ahr_error + unit" where
  "verify_schema env db = (case verify env db of Inr u \<Rightarrow> Inr u | Inl detail \<Rightarrow> Inl (StoreError ''storage_corrupt''))"

section \<open>What the checks amount to\<close>

definition all_ok :: "checks \<Rightarrow> bool" where
  "all_ok cs \<longleftrightarrow> (\<forall>c \<in> set cs. fst c)"

lemma all_ok_simps [simp]:
  "all_ok []" "all_ok (c # cs) \<longleftrightarrow> fst c \<and> all_ok cs" "all_ok (cs @ ds) \<longleftrightarrow> all_ok cs \<and> all_ok ds"
  "all_ok (concat css) \<longleftrightarrow> (\<forall>cs \<in> set css. all_ok cs)"
  by (auto simp: all_ok_def)

lemma verify_all_ok: "verify env db = Inr () \<longleftrightarrow> all_ok (verify_checks env db)"
  by (auto simp: verify_def all_ok_def find_None_iff split: option.split) (metis find_None_iff option.distinct(1))

text \<open>The declared keys, which SQLite enforces.\<close>

definition keys_ok :: "comms_db \<Rightarrow> bool" where
  "keys_ok db \<longleftrightarrow>
     unique_key gr_id (groups db) \<and> unique_key (\<lambda>e. (en_group e, en_member e)) (endpoints db) \<and>
     unique_key ad_message (admissions db) \<and> unique_key (\<lambda>a. (ad_group a, ad_sender a, ad_key a)) (admissions db) \<and>
     unique_key (\<lambda>r. (ms_message r, ms_fact r)) (milestones db) \<and> unique_key (\<lambda>r. (rc_group r, rc_reason r)) (refusal_counts db) \<and>
     unique_key hr_message (handoff_reports db)"

definition group_ok :: "group_row \<Rightarrow> bool" where
  "group_ok g \<longleftrightarrow> all_ok (group_checks g)"

definition endpoint_ok :: "group_row \<Rightarrow> endpoint_row \<Rightarrow> bool" where
  "endpoint_ok g e \<longleftrightarrow>
     is_member_id (en_member e) \<and> is_hex 32 (en_incarnation e) \<and> en_session e \<noteq> [] \<and> absolute (en_run e) \<and>
     0 \<le> en_enrolled e \<and> en_enrolled e \<le> en_seen e \<and> en_seen e \<le> en_lease e \<and> en_seen e \<le> gr_time g \<and>
     1 \<le> en_generation e \<and> en_generation e \<le> MAX_COUNTER \<and> (en_protocol e = 3 \<or> en_protocol e = ENDPOINT_PROTOCOL)"

definition admission_ok :: "group_row \<Rightarrow> admission \<Rightarrow> bool" where
  "admission_ok g a \<longleftrightarrow>
     1 \<le> ad_rowid a \<and> ad_rowid a \<le> MAX_COUNTER \<and> is_hex 32 (ad_message a) \<and> is_member_id (ad_sender a) \<and>
     is_member_id (ad_recipient a) \<and> ad_kind a \<in> set KINDS \<and> ad_class a \<in> set DELIVERY_CLASSES \<and>
     1 \<le> length (ad_key a) \<and> length (ad_key a) \<le> 128 \<and> int (length (ad_body a)) \<le> gr_body_limit g \<and>
     is_hex 32 (ad_incarnation a) \<and> 0 \<le> gr_created g \<and> gr_created g \<le> ad_admitted_at a \<and> ad_admitted_at a \<le> gr_time g \<and>
     ad_state a \<in> set MESSAGE_STATES \<and> ad_admitted_at a \<le> ad_expires_at a \<and> 0 \<le> ad_delivery_count a \<and>
     ad_delivery_count a \<le> MAX_COUNTER \<and> is_hex 64 (ad_sha256 a) \<and>
     (\<forall>t. ad_traceparent a = Some t \<longrightarrow> valid_traceparent t)"

text \<open>One message: its facts \<open>F\<close> and its report \<open>R\<close> agree with its row.\<close>

definition message_ok :: "comms_env \<Rightarrow> group_row \<Rightarrow> admission \<Rightarrow> (string \<rightharpoonup> int) \<Rightarrow> handoff_report option \<Rightarrow> bool" where
  "message_ok env g a F R \<longleftrightarrow>
     F ''admitted'' = Some (ad_admitted_at a) \<and> dom F \<subseteq> set MILESTONE_FACTS \<and>
     (\<forall>f t. F f = Some t \<longrightarrow> ad_admitted_at a \<le> t \<and> t \<le> gr_time g) \<and>
     (\<forall>f \<in> set TERMINAL_MESSAGE_STATES. F f \<noteq> None \<longleftrightarrow> ad_state a = f) \<and>
     (\<forall>t u. F ''fetch_prepared'' = Some t \<and> ad_state a \<noteq> PENDING \<and> F (ad_state a) = Some u \<longrightarrow> t \<le> u) \<and>
     ((\<exists>f \<in> set HANDOFF_FACTS. F f \<noteq> None) \<longrightarrow> ad_kind a = ''request'') \<and>
     (\<forall>(before, after) \<in> {(ACKED, ''accepted''), (''accepted'', ''reported''), (''reported'', ''completed'')}.
        \<forall>u. F after = Some u \<longrightarrow> (\<exists>t. F before = Some t \<and> t \<le> u)) \<and>
     (case R of None \<Rightarrow> F ''reported'' = None
      | Some r \<Rightarrow> F ''reported'' = Some (hr_reported_at r) \<and> valid_next_read env (hr_next_read r))"

definition row_ok :: "comms_env \<Rightarrow> comms_db \<Rightarrow> admission \<Rightarrow> bool" where
  "row_ok env db a \<longleftrightarrow> (\<exists>g. group_of db (ad_group a) = Some g \<and> admission_ok g a \<and>
     message_ok env g a (fact_at db (ad_message a)) (report_of db (ad_message a)))"

definition rate_ok :: "int \<Rightarrow> int list \<Rightarrow> bool" where
  "rate_ok limit ts \<longleftrightarrow> window_ok limit [] (sort ts)"

definition mailbox_ok :: "comms_env \<Rightarrow> comms_db \<Rightarrow> bool" where
  "mailbox_ok env db \<longleftrightarrow>
     keys_ok db \<and> (\<forall>g \<in> set (groups db). group_ok g \<and> charge_of db (gr_id g) = gr_charge g) \<and>
     (\<forall>e \<in> set (endpoints db). \<exists>g. group_of db (en_group e) = Some g \<and> endpoint_ok g e) \<and>
     (\<forall>a \<in> set (admissions db). row_ok env db a) \<and>
     (\<forall>a \<in> set (admissions db). \<forall>g. group_of db (ad_group a) = Some g \<longrightarrow>
        rate_ok (gr_rate_limit g) (sender_times db (ad_group a) (ad_sender a)) \<and>
        (ad_state a = PENDING \<longrightarrow> outstanding (ad_group a) (ad_recipient a) (admissions db) \<le> gr_outstanding_limit g)) \<and>
     ms_message ` set (milestones db) \<subseteq> ad_message ` set (admissions db) \<and>
     hr_message ` set (handoff_reports db) \<subseteq> ad_message ` set (admissions db) \<and>
     (\<forall>r \<in> set (refusal_counts db). group_of db (rc_group r) \<noteq> None \<and> rc_reason r \<in> set REFUSALS \<and>
        1 \<le> rc_count r \<and> rc_count r \<le> MAX_COUNTER)"

end
