(* ===== verification/Comms_Verify_Laws.thy ===== *)
theory Comms_Verify_Laws
  imports Comms_Verify
begin

text \<open>
  The verifier's verdict and the row-by-row invariant \<open>mailbox_ok\<close> agree on every mailbox whose declared keys hold.
\<close>

section \<open>Reading by key\<close>

lemma find_row_iff: "unique_key key rows \<Longrightarrow> find_row key k rows = Some r \<longleftrightarrow> r \<in> set rows \<and> key r = k"
  using find_row_mem find_row_Some_D by fastforce

lemma keys_lookups:
  assumes "keys_ok db"
  shows "group_of db gid = Some g \<longleftrightarrow> g \<in> set (groups db) \<and> gr_id g = gid"
    and "message_row db m = Some a \<longleftrightarrow> a \<in> set (admissions db) \<and> ad_message a = m"
    and "fact_at db m f = Some t \<longleftrightarrow> (\<exists>r \<in> set (milestones db). ms_message r = m \<and> ms_fact r = f \<and> ms_at r = t)"
    and "report_of db m = Some h \<longleftrightarrow> h \<in> set (handoff_reports db) \<and> hr_message h = m"
  using assms
  by (auto simp: keys_ok_def group_of_def message_row_def fact_at_def report_of_def find_row_iff)

lemma fact_at_None: "fact_at db m f = None \<longleftrightarrow> (\<forall>r \<in> set (milestones db). \<not> (ms_message r = m \<and> ms_fact r = f))"
  by (auto simp: fact_at_def find_row_None)

section \<open>Admissions\<close>

definition outstanding_limit :: "comms_db \<Rightarrow> string \<Rightarrow> int" where
  "outstanding_limit db gid = (case group_of db gid of None \<Rightarrow> 0 | Some g \<Rightarrow> gr_outstanding_limit g)"

lemma outstanding_append [simp]: "outstanding gid m (xs @ ys) = outstanding gid m xs + outstanding gid m ys"
  by (simp add: outstanding_def)

lemma outstanding_nonneg [simp]: "0 \<le> outstanding gid m xs"
  by (simp add: outstanding_def)

lemma outstanding_single: "outstanding gid m [a] = (if ad_group a = gid \<and> ad_recipient a = m \<and> ad_state a = PENDING then 1 else 0)"
  by (simp add: outstanding_def)

lemma outstanding_zero:
  "outstanding gid m xs = 0 \<longleftrightarrow> (\<forall>a \<in> set xs. \<not> (ad_group a = gid \<and> ad_recipient a = m \<and> ad_state a = PENDING))"
  by (auto simp: outstanding_def filter_empty_conv)

definition row_checks_ok :: "comms_db \<Rightarrow> admission \<Rightarrow> bool" where
  "row_checks_ok db a \<longleftrightarrow> (\<exists>g. group_of db (ad_group a) = Some g \<and> admission_ok g a)"

lemma admission_row_ok:
  "all_ok (admission_row_checks db seen a) \<longleftrightarrow>
   row_checks_ok db a \<and> (ad_state a = PENDING \<longrightarrow> outstanding (ad_group a) (ad_recipient a) (seen @ [a]) \<le> outstanding_limit db (ad_group a))"
  by (auto simp: admission_row_checks_def row_checks_ok_def admission_ok_def outstanding_limit_def split: option.splits)

lemma admission_checks_ok:
  "all_ok (admission_checks db seen rows) \<longleftrightarrow>
   (\<forall>a \<in> set rows. row_checks_ok db a) \<and>
   (\<forall>a \<in> set rows. ad_state a = PENDING \<longrightarrow>
      outstanding (ad_group a) (ad_recipient a) (seen @ rows) \<le> outstanding_limit db (ad_group a))"
proof (induction rows arbitrary: seen)
  case Nil
  then show ?case by simp
next
  case (Cons a rest)
  define full where "full (b :: admission) = outstanding (ad_group b) (ad_recipient b) (seen @ a # rest)" for b
  have split_full: "full b = outstanding (ad_group b) (ad_recipient b) (seen @ [a]) + outstanding (ad_group b) (ad_recipient b) rest" for b
    using outstanding_append [of _ _ "seen @ [a]" rest] by (simp add: full_def)
  have head: "(outstanding (ad_group a) (ad_recipient a) (seen @ [a]) \<le> outstanding_limit db (ad_group a)) \<longleftrightarrow>
      full a \<le> outstanding_limit db (ad_group a)"
    if rest: "\<forall>b \<in> set rest. ad_state b = PENDING \<longrightarrow> full b \<le> outstanding_limit db (ad_group b)"
  proof (cases "outstanding (ad_group a) (ad_recipient a) rest = 0")
    case True
    then show ?thesis by (simp add: split_full)
  next
    case False
    then obtain b where b: "b \<in> set rest" "ad_group b = ad_group a" "ad_recipient b = ad_recipient a" "ad_state b = PENDING"
      by (auto simp: outstanding_zero)
    then have "full a = full b" "full a \<le> outstanding_limit db (ad_group a)"
      using rest by (auto simp: full_def)
    moreover have "outstanding (ad_group a) (ad_recipient a) (seen @ [a]) \<le> full a"
      by (simp add: split_full)
    ultimately show ?thesis by simp
  qed
  have "all_ok (admission_checks db seen (a # rest)) \<longleftrightarrow>
      row_checks_ok db a \<and> (ad_state a = PENDING \<longrightarrow> outstanding (ad_group a) (ad_recipient a) (seen @ [a]) \<le> outstanding_limit db (ad_group a)) \<and>
      (\<forall>b \<in> set rest. row_checks_ok db b) \<and>
      (\<forall>b \<in> set rest. ad_state b = PENDING \<longrightarrow> full b \<le> outstanding_limit db (ad_group b))"
    using Cons.IH [of "seen @ [a]"] by (auto simp: admission_row_ok full_def)
  also have "\<dots> \<longleftrightarrow> (\<forall>b \<in> set (a # rest). row_checks_ok db b) \<and>
      (\<forall>b \<in> set (a # rest). ad_state b = PENDING \<longrightarrow> full b \<le> outstanding_limit db (ad_group b))"
    using head by auto
  finally show ?case by (simp add: full_def)
qed

section \<open>Messages\<close>

definition message_part :: "comms_env \<Rightarrow> comms_db \<Rightarrow> bool" where
  "message_part env db \<longleftrightarrow>
     (\<forall>r \<in> set (milestones db). all_ok (milestone_row_checks db r)) \<and>
     (\<forall>a \<in> set (admissions db). all_ok (message_checks db a)) \<and>
     (\<forall>r \<in> set (milestones db). all_ok (handoff_checks db (ms_message r))) \<and>
     (\<forall>h \<in> set (handoff_reports db). all_ok (report_checks env db h)) \<and>
     (\<forall>r \<in> set (milestones db). all_ok (reported_checks db (ms_message r)))"

lemma terminal_facts_cases:
  "terminal_facts db m = (if fact_at db m ACKED \<noteq> None then [ACKED] else []) @ (if fact_at db m EXPIRED \<noteq> None then [EXPIRED] else [])"
  by (simp add: terminal_facts_def TERMINAL_MESSAGE_STATES_def)

lemma terminals_iff:
  assumes "st \<in> set MESSAGE_STATES"
  shows "terminal_facts db m = (if st = PENDING then [] else [st]) \<longleftrightarrow>
    (\<forall>f \<in> set TERMINAL_MESSAGE_STATES. fact_at db m f \<noteq> None \<longleftrightarrow> st = f)"
  using assms by (auto simp: terminal_facts_cases MESSAGE_STATES_def TERMINAL_MESSAGE_STATES_def message_states)

lemma message_checks_ok:
  assumes "ad_state a \<in> set MESSAGE_STATES"
  shows "all_ok (message_checks db a) \<longleftrightarrow>
    (let F = fact_at db (ad_message a) in
      F ''admitted'' = Some (ad_admitted_at a) \<and> (\<forall>f \<in> set TERMINAL_MESSAGE_STATES. F f \<noteq> None \<longleftrightarrow> ad_state a = f) \<and>
      (\<forall>t u. F ''fetch_prepared'' = Some t \<and> ad_state a \<noteq> PENDING \<and> F (ad_state a) = Some u \<longrightarrow> t \<le> u))"
  using terminals_iff [OF assms, of db "ad_message a"] assms
  by (cases "ad_state a = PENDING")
    (auto simp: message_checks_def Let_def MESSAGE_STATES_def TERMINAL_MESSAGE_STATES_def split: option.splits)

lemma chained_facts_ok:
  "all_ok (chained_facts db m before after) \<longleftrightarrow>
   (\<forall>u. fact_at db m after = Some u \<longrightarrow> (\<exists>t. fact_at db m before = Some t \<and> t \<le> u))"
  by (auto simp: chained_facts_def split: option.splits)

lemma handoff_checks_ok:
  assumes "message_row db m = Some a"
  shows "all_ok (handoff_checks db m) \<longleftrightarrow>
    ((\<exists>f \<in> set HANDOFF_FACTS. fact_at db m f \<noteq> None) \<longrightarrow> ad_kind a = ''request'') \<and>
    (\<forall>(before, after) \<in> {(ACKED, ''accepted''), (''accepted'', ''reported''), (''reported'', ''completed'')}.
        \<forall>u. fact_at db m after = Some u \<longrightarrow> (\<exists>t. fact_at db m before = Some t \<and> t \<le> u))"
  using assms
  by (cases "list_all (\<lambda>f. fact_at db m f = None) HANDOFF_FACTS")
    (auto simp: handoff_checks_def chained_facts_ok HANDOFF_FACTS_def)

lemma ordered3: "ordered_times [x, y, z] \<longleftrightarrow> 0 \<le> x \<and> x \<le> y \<and> y \<le> z"
  by auto

lemma milestone_rows_ok:
  assumes "keys_ok db" "a \<in> set (admissions db)" "group_of db (ad_group a) = Some g" "0 \<le> ad_admitted_at a"
  shows "(\<forall>r \<in> set (milestones db). ms_message r = ad_message a \<longrightarrow> all_ok (milestone_row_checks db r)) \<longleftrightarrow>
    dom (fact_at db (ad_message a)) \<subseteq> set MILESTONE_FACTS \<and>
    (\<forall>f t. fact_at db (ad_message a) f = Some t \<longrightarrow> ad_admitted_at a \<le> t \<and> t \<le> gr_time g)"
proof -
  have row: "message_row db (ad_message a) = Some a" using assms(2) by (simp add: keys_lookups(2) [OF assms(1)])
  show ?thesis
    using row assms(3,4)
    by (auto simp: milestone_row_checks_def ordered3 dom_def keys_lookups(3) [OF assms(1)] simp del: ordered_times.simps)
qed

lemma message_part_iff:
  assumes keys: "keys_ok db" and rows: "\<forall>a \<in> set (admissions db). row_checks_ok db a"
  shows "message_part env db \<longleftrightarrow>
    (\<forall>a \<in> set (admissions db). row_ok env db a) \<and>
    ms_message ` set (milestones db) \<subseteq> ad_message ` set (admissions db) \<and>
    hr_message ` set (handoff_reports db) \<subseteq> ad_message ` set (admissions db)"
  (is "_ \<longleftrightarrow> ?rows \<and> ?facts \<and> ?reports")
proof -
  note look = keys_lookups [OF keys]
  have facts: ?facts if "message_part env db"
  proof
    fix m assume "m \<in> ms_message ` set (milestones db)"
    then obtain r where r: "r \<in> set (milestones db)" "m = ms_message r" by blast
    with that have "all_ok (milestone_row_checks db r)" by (simp add: message_part_def)
    then obtain a where "message_row db (ms_message r) = Some a" by (auto simp: milestone_row_checks_def)
    then have "a \<in> set (admissions db)" "m = ad_message a" using r(2) by (simp_all add: look(2))
    then show "m \<in> ad_message ` set (admissions db)" by blast
  qed
  have reports: ?reports if "message_part env db"
  proof
    fix m assume "m \<in> hr_message ` set (handoff_reports db)"
    then obtain h where h: "h \<in> set (handoff_reports db)" "m = hr_message h" by blast
    with that have "all_ok (report_checks env db h)" by (simp add: message_part_def)
    then obtain a where "message_row db (hr_message h) = Some a" by (auto simp: report_checks_def)
    then have "a \<in> set (admissions db)" "m = ad_message a" using h(2) by (simp_all add: look(2))
    then show "m \<in> ad_message ` set (admissions db)" by blast
  qed
  have one: "row_ok env db a \<longleftrightarrow>
      (\<forall>r \<in> set (milestones db). ms_message r = ad_message a \<longrightarrow> all_ok (milestone_row_checks db r)) \<and>
      all_ok (message_checks db a) \<and> all_ok (handoff_checks db (ad_message a)) \<and>
      (\<forall>h \<in> set (handoff_reports db). hr_message h = ad_message a \<longrightarrow> all_ok (report_checks env db h)) \<and>
      all_ok (reported_checks db (ad_message a))" if a: "a \<in> set (admissions db)" for a
  proof -
    obtain g where g: "group_of db (ad_group a) = Some g" "admission_ok g a"
      using rows a by (auto simp: row_checks_ok_def)
    have state: "ad_state a \<in> set MESSAGE_STATES" and time: "0 \<le> ad_admitted_at a"
      using g(2) by (auto simp: admission_ok_def)
    have row: "message_row db (ad_message a) = Some a" using a by (simp add: look(2))
    have report: "(\<forall>h \<in> set (handoff_reports db). hr_message h = ad_message a \<longrightarrow> all_ok (report_checks env db h)) \<and>
        all_ok (reported_checks db (ad_message a)) \<longleftrightarrow>
      (case report_of db (ad_message a) of None \<Rightarrow> fact_at db (ad_message a) ''reported'' = None
        | Some r \<Rightarrow> fact_at db (ad_message a) ''reported'' = Some (hr_reported_at r) \<and> valid_next_read env (hr_next_read r))"
    proof (cases "report_of db (ad_message a)")
      case None
      then have "\<forall>h \<in> set (handoff_reports db). hr_message h \<noteq> ad_message a"
        by (metis find_row_None imageI report_of_def)
      then show ?thesis using None by (auto simp: reported_checks_def)
    next
      case (Some r)
      have same: "r' = r" if "r' \<in> set (handoff_reports db)" "hr_message r' = ad_message a" for r'
        using Some that by (metis look(4) option.inject)
      have r: "r \<in> set (handoff_reports db)" "hr_message r = ad_message a" using Some by (auto simp: look(4))
      show ?thesis
      proof
        assume "(\<forall>h \<in> set (handoff_reports db). hr_message h = ad_message a \<longrightarrow> all_ok (report_checks env db h)) \<and>
          all_ok (reported_checks db (ad_message a))"
        with r have "all_ok (report_checks env db r)" by blast
        with Some r show "case report_of db (ad_message a) of None \<Rightarrow> fact_at db (ad_message a) ''reported'' = None
          | Some r \<Rightarrow> fact_at db (ad_message a) ''reported'' = Some (hr_reported_at r) \<and> valid_next_read env (hr_next_read r)"
          by (simp add: report_checks_def)
      next
        assume "case report_of db (ad_message a) of None \<Rightarrow> fact_at db (ad_message a) ''reported'' = None
          | Some r \<Rightarrow> fact_at db (ad_message a) ''reported'' = Some (hr_reported_at r) \<and> valid_next_read env (hr_next_read r)"
        with Some row have "all_ok (report_checks env db r)" "all_ok (reported_checks db (ad_message a))"
          by (simp_all add: report_checks_def reported_checks_def r(2))
        with same show "(\<forall>h \<in> set (handoff_reports db). hr_message h = ad_message a \<longrightarrow> all_ok (report_checks env db h)) \<and>
          all_ok (reported_checks db (ad_message a))" by blast
      qed
    qed
    show ?thesis
      using milestone_rows_ok [OF keys a g(1) time] message_checks_ok [OF state] handoff_checks_ok [OF row] report g
      unfolding row_ok_def message_ok_def Let_def by auto
  qed
  show ?thesis
  proof
    assume part: "message_part env db"
    have "row_ok env db a" if a: "a \<in> set (admissions db)" for a
    proof -
      have "all_ok (message_checks db a)" using part a by (simp add: message_part_def)
      then have "fact_at db (ad_message a) ''admitted'' \<noteq> None" by (simp add: message_checks_def Let_def)
      then obtain r where "r \<in> set (milestones db)" "ms_message r = ad_message a" by (auto simp: look(3))
      with part a show ?thesis unfolding one [OF a] by (auto simp: message_part_def)
    qed
    with facts [OF part] reports [OF part] show "?rows \<and> ?facts \<and> ?reports" by blast
  next
    assume all: "?rows \<and> ?facts \<and> ?reports"
    have of_fact: "\<exists>a \<in> set (admissions db). ms_message r = ad_message a \<and> row_ok env db a" if "r \<in> set (milestones db)" for r
      using all that by auto
    have of_report: "\<exists>a \<in> set (admissions db). hr_message h = ad_message a \<and> row_ok env db a" if "h \<in> set (handoff_reports db)" for h
      using all that by auto
    show "message_part env db"
      unfolding message_part_def
    proof (intro conjI ballI)
      fix r assume "r \<in> set (milestones db)"
      then show "all_ok (milestone_row_checks db r)" "all_ok (handoff_checks db (ms_message r))"
        "all_ok (reported_checks db (ms_message r))"
        using of_fact one by metis+
    next
      fix a assume "a \<in> set (admissions db)"
      then show "all_ok (message_checks db a)" using all one by blast
    next
      fix h assume "h \<in> set (handoff_reports db)"
      then show "all_ok (report_checks env db h)" using of_report one by metis
    qed
  qed
qed

section \<open>The verdict\<close>

lemma endpoint_checks_ok:
  "all_ok (endpoint_checks db e) \<longleftrightarrow> (\<exists>g. group_of db (en_group e) = Some g \<and> endpoint_ok g e)"
  by (auto simp: endpoint_checks_def endpoint_ok_def absolute_def split: option.splits)

lemma rate_checks_ok:
  "all_ok (rate_checks db) \<longleftrightarrow>
   (\<forall>a \<in> set (admissions db). \<exists>g. group_of db (ad_group a) = Some g \<and>
      rate_ok (gr_rate_limit g) (sender_times db (ad_group a) (ad_sender a)))"
  by (auto simp: rate_checks_def all_ok_def rate_ok_def split: option.splits)

lemma charge_checks_ok: "all_ok (charge_checks db) \<longleftrightarrow> (\<forall>g \<in> set (groups db). charge_of db (gr_id g) = gr_charge g)"
  by (auto simp: charge_checks_def all_ok_def)

lemma verify_ok:
  assumes keys: "keys_ok db"
  shows "verify env db = Inr () \<longleftrightarrow> mailbox_ok env db"
proof -
  have "verify env db = Inr () \<longleftrightarrow>
      (\<forall>g \<in> set (groups db). group_ok g) \<and> (\<forall>e \<in> set (endpoints db). all_ok (endpoint_checks db e)) \<and>
      all_ok (admission_checks db [] (admissions db)) \<and> all_ok (rate_checks db) \<and> all_ok (charge_checks db) \<and>
      message_part env db \<and> (\<forall>r \<in> set (refusal_counts db). all_ok (refusal_checks db r))"
    by (auto simp: verify_all_ok verify_checks_def group_ok_def message_part_def)
  also have "\<dots> \<longleftrightarrow> mailbox_ok env db"
  proof (cases "\<forall>a \<in> set (admissions db). row_checks_ok db a")
    case True
    then have grouped: "\<exists>g. group_of db (ad_group a) = Some g" if "a \<in> set (admissions db)" for a
      using that by (auto simp: row_checks_ok_def)
    show ?thesis
      using keys grouped True
      unfolding mailbox_ok_def message_part_iff [OF keys True] admission_checks_ok rate_checks_ok charge_checks_ok
        endpoint_checks_ok refusal_checks_def outstanding_limit_def
      by fastforce
  next
    case False
    then have "\<not> (\<forall>a \<in> set (admissions db). row_ok env db a)" by (auto simp: row_ok_def row_checks_ok_def)
    with False show ?thesis unfolding mailbox_ok_def admission_checks_ok by blast
  qed
  finally show ?thesis .
qed

end
