(* ===== verification/Comms_Envelope.thy ===== *)
theory Comms_Envelope
  imports Comms_Verify
begin

text \<open>
  The untrusted envelope of a message (\<^verbatim>\<open>src/trw_mcp/comms/_envelope.py\<close>), the keys a scoped notify derives
  (\<^verbatim>\<open>_scope.py\<close>) and the caller's trusted binding (\<^verbatim>\<open>_identity.py\<close>), as the later parts use them.
\<close>

section \<open>The caller\<close>

record CallerBinding =
  cb_group :: string
  cb_formation :: string
  cb_member :: string
  cb_session :: string
  cb_run :: string
  cb_manifest :: string
  cb_orchestrator :: bool

record RecipientSnapshot =
  rs_member :: string
  rs_eligible :: bool
  rs_run :: "string option"
  rs_pin :: "string option"
  rs_owned :: "string list"
  rs_terminal :: bool

record CallerSnapshot =
  cs_binding :: CallerBinding
  cs_status :: string
  cs_all_terminal :: bool
  cs_recipients :: "RecipientSnapshot list"

definition ELIGIBLE_STATUSES :: "string list" where
  "ELIGIBLE_STATUSES = [''joined'', ''active'']"

definition assert_eligible :: "CallerSnapshot \<Rightarrow> ahr_error + unit" where
  "assert_eligible s = (if cs_status s \<in> set ELIGIBLE_STATUSES then Inr () else Inl (IdentityError ''member_not_eligible''))"

section \<open>Derived request keys\<close>

definition SHARD :: char where
  "SHARD = CHR 0x1F"

definition is_shard_key :: "string \<Rightarrow> bool" where
  "is_shard_key s \<longleftrightarrow>
     52 < length s \<and> s ! 0 = SHARD \<and> s ! 1 = CHR ''n'' \<and> is_hex 32 (take 32 (drop 2 s)) \<and> s ! 34 = SHARD \<and>
     is_hex 16 (take 16 (drop 35 s)) \<and> s ! 51 = SHARD \<and> is_member_id (drop 52 s)"

definition has_control_characters :: "string \<Rightarrow> bool" where
  "has_control_characters s \<longleftrightarrow> list_ex (\<lambda>c. c < CHR 0x20 \<or> (CHR 0x7F \<le> c \<and> c \<le> CHR 0x9F)) s"

definition short_digest :: "comms_env \<Rightarrow> string \<Rightarrow> nat \<Rightarrow> string" where
  "short_digest env value n = take n (ce_sha256 env value)"

definition shard_prefix :: "comms_env \<Rightarrow> string \<Rightarrow> string" where
  "shard_prefix env request_key = [SHARD, CHR ''n''] @ short_digest env request_key 32 @ [SHARD]"

definition shard_key :: "comms_env \<Rightarrow> string \<Rightarrow> string \<Rightarrow> string \<Rightarrow> string" where
  "shard_key env request_key scope member = shard_prefix env request_key @ short_digest env scope 16 @ [SHARD] @ member"

definition scope_digest :: "comms_env \<Rightarrow> string \<Rightarrow> string" where
  "scope_digest env scope = short_digest env scope 16"

text \<open>The third field of a derived key.\<close>

definition scope_digest_of :: "string \<Rightarrow> string option" where
  "scope_digest_of key = (if is_shard_key key then Some (split_on SHARD key ! 2) else None)"

section \<open>The envelope\<close>

record Envelope =
  nv_recipient :: string
  nv_key :: string
  nv_body :: string
  nv_kind :: string
  nv_class :: string
  nv_derived :: bool

definition blank :: "string \<Rightarrow> bool" where
  "blank s \<longleftrightarrow> strip is_str_space s = []"

definition envelope_refusal :: "Envelope \<Rightarrow> string option" where
  "envelope_refusal e =
     (if \<not> is_member_id (nv_recipient e) then Some ''invalid_recipient''
      else if nv_kind e \<notin> set KINDS \<or> nv_class e \<notin> set DELIVERY_CLASSES then Some ''invalid_message_enum''
      else if nv_key e = [] \<or> 128 < length (nv_key e) \<or> blank (nv_key e) then Some ''invalid_request_key''
      else if blank (nv_body e) then Some ''invalid_message_body''
      else if (if nv_derived e then \<not> is_shard_key (nv_key e) else has_control_characters (nv_key e))
      then Some ''invalid_request_key'' else None)"

definition validate_envelope :: "Envelope \<Rightarrow> ahr_error + unit" where
  "validate_envelope e = (case envelope_refusal e of None \<Rightarrow> Inr () | Some reason \<Rightarrow> Inl (AdmissionError reason))"

definition canonical_sha256 :: "comms_env \<Rightarrow> Envelope \<Rightarrow> string" where
  "canonical_sha256 env e =
     ce_sha256 env (canonical_json (JArr [JStr (nv_recipient e), JStr (nv_kind e), JStr (nv_class e), JStr (nv_body e)]))"

definition matches :: "comms_env \<Rightarrow> Envelope \<Rightarrow> admission \<Rightarrow> bool" where
  "matches env e a \<longleftrightarrow> canonical_sha256 env e = ad_sha256 a"

record receipt =
  rp_message :: string
  rp_sender :: string
  rp_recipient :: string
  rp_kind :: string
  rp_class :: string
  rp_admitted_at :: int

definition receipt_of :: "admission \<Rightarrow> receipt" where
  "receipt_of a =
     \<lparr>rp_message = ad_message a, rp_sender = ad_sender a, rp_recipient = ad_recipient a, rp_kind = ad_kind a,
      rp_class = ad_class a, rp_admitted_at = ad_admitted_at a\<rparr>"

section \<open>What a valid envelope guarantees\<close>

lemma envelope_valid:
  assumes "envelope_refusal e = None"
  shows "is_member_id (nv_recipient e)" "nv_kind e \<in> set KINDS" "nv_class e \<in> set DELIVERY_CLASSES"
    "1 \<le> length (nv_key e)" "length (nv_key e) \<le> 128" "\<not> blank (nv_body e)"
    "\<not> nv_derived e \<Longrightarrow> \<not> has_control_characters (nv_key e)"
  using assms by (auto simp: envelope_refusal_def Suc_le_eq split: if_splits)

lemma shard_key_control: "is_shard_key s \<Longrightarrow> has_control_characters s"
proof -
  assume s: "is_shard_key s"
  then have "0 < length s" by (auto simp: is_shard_key_def)
  then have "s ! 0 \<in> set s" by (rule nth_mem)
  then have "SHARD \<in> set s" using s by (simp add: is_shard_key_def)
  moreover have "SHARD < CHR 0x20" by (simp add: SHARD_def less_char_def)
  ultimately show ?thesis by (auto simp: has_control_characters_def list_ex_iff)
qed

text \<open>A caller cannot write a derived key: the two name spaces are disjoint.\<close>

lemma direct_key_not_shard: "envelope_refusal e = None \<Longrightarrow> nv_derived e \<longleftrightarrow> is_shard_key (nv_key e)"
  using shard_key_control [of "nv_key e"] by (auto simp: envelope_refusal_def split: if_splits)

lemma shard_key_parts:
  assumes "is_hex 64 (ce_sha256 env k)" "is_hex 64 (ce_sha256 env s)" "is_member_id m"
  shows "is_shard_key (shard_key env k s m)" "length (shard_key env k s m) \<le> 128"
    "take (length (shard_prefix env k)) (shard_key env k s m) = shard_prefix env k"
proof -
  have hexes: "is_hex 32 (short_digest env k 32)" "is_hex 16 (short_digest env s 16)"
    using assms(1,2) set_take_subset [of 32 "ce_sha256 env k"] set_take_subset [of 16 "ce_sha256 env s"]
    by (auto simp: short_digest_def is_hex_def list_all_iff subset_iff)
  then have len: "length (short_digest env k 32) = 32" "length (short_digest env s 16) = 16" by (simp_all add: is_hex_def)
  have member: "0 < length m" "length m \<le> 64" using assms(3) by (auto simp: is_member_id_def split: list.splits)
  show "is_shard_key (shard_key env k s m)"
    using hexes len member assms(3)
    by (simp add: is_shard_key_def shard_key_def shard_prefix_def nth_append nth_Cons' drop_Cons')
  show "length (shard_key env k s m) \<le> 128" using len member by (simp add: shard_key_def shard_prefix_def)
  show "take (length (shard_prefix env k)) (shard_key env k s m) = shard_prefix env k" by (simp add: shard_key_def)
qed

end
