(* ===== verification/Comms_Policy.thy ===== *)
theory Comms_Policy
  imports Comms_Envelope
begin

text \<open>
  Group birth, the admission limits and the bounded accounting of refusals
  (\<^verbatim>\<open>src/trw_mcp/comms/_policy.py\<close>), and the group's clock (\<^verbatim>\<open>_store.py\<close>). The policy of a group is a snapshot of the
  configuration when the group is born (\<^verbatim>\<open>models/config/_fields_comms.py\<close>).
\<close>

record AdmissionPolicy =
  ap_group_limit :: int
  ap_body_limit :: int
  ap_outstanding_limit :: int
  ap_rate_limit :: int
  ap_body_budget :: int

record comms_config =
  cc_enabled :: bool
  cc_group_row_limit :: int
  cc_group_body_budget :: int
  cc_retry_grace_seconds :: int
  cc_body_max_bytes :: int
  cc_outstanding_limit :: int
  cc_fetch_max_items :: nat
  cc_response_max_bytes :: nat
  cc_admissions_per_minute :: int
  cc_poll_interval_seconds :: int
  cc_lease_ttl_seconds :: int
  cc_scope_max_recipients :: nat
  cc_scope_max_bytes :: nat
  cc_sqlite_busy_timeout_ms :: int
  cc_wait_max_seconds :: int
  cc_wait_interval_ms :: int
  cc_message_ttl_seconds :: int
  cc_candidate_ttl_seconds :: int

text \<open>The bounds of the configuration fields and the two cross-field refusals.\<close>

definition valid_config :: "comms_config \<Rightarrow> bool" where
  "valid_config c \<longleftrightarrow>
     1 \<le> cc_group_row_limit c \<and> cc_group_row_limit c \<le> 4096 \<and>
     65536 \<le> cc_group_body_budget c \<and> cc_group_body_budget c \<le> 16777216 \<and>
     0 \<le> cc_retry_grace_seconds c \<and> cc_retry_grace_seconds c \<le> 86400 \<and>
     1 \<le> cc_body_max_bytes c \<and> cc_body_max_bytes c \<le> 65536 \<and>
     1 \<le> cc_outstanding_limit c \<and> cc_outstanding_limit c \<le> 256 \<and>
     1 \<le> cc_fetch_max_items c \<and> cc_fetch_max_items c \<le> 64 \<and>
     4096 \<le> cc_response_max_bytes c \<and> cc_response_max_bytes c \<le> 262144 \<and>
     1 \<le> cc_admissions_per_minute c \<and> cc_admissions_per_minute c \<le> 256 \<and>
     15 \<le> cc_poll_interval_seconds c \<and> cc_poll_interval_seconds c \<le> 3600 \<and>
     1 \<le> cc_lease_ttl_seconds c \<and> cc_lease_ttl_seconds c \<le> 86400 \<and>
     1 \<le> cc_scope_max_recipients c \<and> cc_scope_max_recipients c \<le> 32 \<and>
     1 \<le> cc_scope_max_bytes c \<and> cc_scope_max_bytes c \<le> 4096 \<and>
     1 \<le> cc_sqlite_busy_timeout_ms c \<and> cc_sqlite_busy_timeout_ms c \<le> 30000 \<and>
     0 \<le> cc_wait_max_seconds c \<and> cc_wait_max_seconds c \<le> 300 \<and>
     100 \<le> cc_wait_interval_ms c \<and> cc_wait_interval_ms c \<le> 15000 \<and>
     300 \<le> cc_message_ttl_seconds c \<and> cc_message_ttl_seconds c \<le> 604800 \<and>
     60 \<le> cc_candidate_ttl_seconds c \<and> cc_candidate_ttl_seconds c \<le> 86400 \<and>
     6 * cc_body_max_bytes c + 4096 \<le> int (cc_response_max_bytes c) \<and>
     2 * cc_poll_interval_seconds c \<le> cc_lease_ttl_seconds c"

definition policy_of_config :: "comms_config \<Rightarrow> AdmissionPolicy" where
  "policy_of_config c =
     \<lparr>ap_group_limit = cc_group_row_limit c, ap_body_limit = cc_body_max_bytes c,
      ap_outstanding_limit = cc_outstanding_limit c, ap_rate_limit = cc_admissions_per_minute c,
      ap_body_budget = cc_group_body_budget c\<rparr>"

definition born_group :: "CallerBinding \<Rightarrow> int \<Rightarrow> AdmissionPolicy \<Rightarrow> group_row" where
  "born_group b now p =
     \<lparr>gr_id = cb_group b, gr_formation = cb_formation b, gr_manifest = cb_manifest b, gr_created = now, gr_time = now,
      gr_closed = 0, gr_group_limit = ap_group_limit p, gr_body_limit = ap_body_limit p,
      gr_outstanding_limit = ap_outstanding_limit p, gr_rate_limit = ap_rate_limit p, gr_charge = 0,
      gr_body_budget = ap_body_budget p\<rparr>"

definition ensure_group ::
    "comms_env \<Rightarrow> CallerBinding \<Rightarrow> int \<Rightarrow> AdmissionPolicy \<Rightarrow> comms_db \<Rightarrow> ahr_error + comms_db" where
  "ensure_group env b now p db =
     (let db1 = (if group_of db (cb_group b) \<noteq> None then db else db\<lparr>groups := groups db @ [born_group b now p]\<rparr>)
      in case group_of db1 (cb_group b) of
           None \<Rightarrow> Inl (MissingMember ''formation_id'')
         | Some g \<Rightarrow>
             if gr_formation g \<noteq> cb_formation b \<or> ce_resolve env (gr_manifest g) \<noteq> ce_resolve env (cb_manifest b)
             then Inl (StoreError ''storage_corrupt'') else Inr db1)"

text \<open>\<^verbatim>\<open>INSERT .. ON CONFLICT DO UPDATE\<close> with saturation; a reason outside the vocabulary raises.\<close>

definition count_refusal :: "string \<Rightarrow> string \<Rightarrow> comms_db \<Rightarrow> ahr_error + comms_db" where
  "count_refusal gid reason db =
     (if reason \<notin> set REFUSALS then Inl (UncountedRefusal reason)
      else Inr (case find_row (\<lambda>r. (rc_group r, rc_reason r)) (gid, reason) (refusal_counts db) of
          None \<Rightarrow> db\<lparr>refusal_counts := refusal_counts db @ [\<lparr>rc_group = gid, rc_reason = reason, rc_count = 1\<rparr>]\<rparr>
        | Some r \<Rightarrow> db\<lparr>refusal_counts := update_rows (\<lambda>r. (rc_group r, rc_reason r)) (gid, reason)
            (\<lambda>r. if rc_count r < MAX_COUNTER then r\<lparr>rc_count := rc_count r + 1\<rparr> else r) (refusal_counts db)\<rparr>))"

definition live_bytes :: "comms_db \<Rightarrow> string \<Rightarrow> int" where
  "live_bytes db gid = sum_list (map (\<lambda>a. int (length (ad_body a))) (filter (\<lambda>a. ad_group a = gid) (admissions db)))"

definition remaining_capacity :: "comms_db \<Rightarrow> string \<Rightarrow> (int \<times> int) option" where
  "remaining_capacity db gid =
     map_option (\<lambda>g. (gr_group_limit g - gr_charge g, gr_body_budget g - live_bytes db gid)) (group_of db gid)"

definition recent_admissions :: "comms_db \<Rightarrow> string \<Rightarrow> string \<Rightarrow> int \<Rightarrow> int" where
  "recent_admissions db gid sender now =
     int (length (filter (\<lambda>t. now - t < 60 * SECOND \<and> t \<le> now) (sender_times db gid sender)))"

definition limit_refusal :: "comms_db \<Rightarrow> group_row \<Rightarrow> string \<Rightarrow> string \<Rightarrow> string \<Rightarrow> int \<Rightarrow> string option" where
  "limit_refusal db g sender recipient body now =
     (if gr_body_limit g < int (length body) then Some ''body_too_large''
      else if gr_group_limit g \<le> gr_charge g then Some ''group_admission_limit''
      else if gr_body_budget g < live_bytes db (gr_id g) + int (length body) then Some ''group_storage_budget''
      else if gr_outstanding_limit g \<le> outstanding (gr_id g) recipient (admissions db) then Some ''recipient_outstanding_limit''
      else if gr_rate_limit g \<le> recent_admissions db (gr_id g) sender now then Some ''sender_rate_limit''
      else None)"

section \<open>The group's clock\<close>

text \<open>\<^verbatim>\<open>effective_time\<close>: the wall clock \<open>wall\<close> never runs behind the persisted time; it must be finite and not negative.\<close>

definition effective_time :: "comms_db \<Rightarrow> string \<Rightarrow> int \<Rightarrow> ahr_error + int" where
  "effective_time db gid wall =
     (if wall < 0 then Inl (StoreError ''storage_unavailable'')
      else Inr (max wall (case group_of db gid of None \<Rightarrow> 0 | Some g \<Rightarrow> gr_time g)))"

definition touch_group_time :: "string \<Rightarrow> int \<Rightarrow> comms_db \<Rightarrow> comms_db" where
  "touch_group_time gid now = update_group gid (\<lambda>g. if gr_time g < now then g\<lparr>gr_time := now\<rparr> else g)"

definition close_group :: "string \<Rightarrow> comms_db \<Rightarrow> comms_db" where
  "close_group gid = update_group gid (gr_closed_update (\<lambda>_. 1))"

end
