(* ===== verification/Comms_Rate.thy ===== *)
theory Comms_Rate
  imports Comms_Verify_Laws Comms_Policy
begin

text \<open>
  The verifier walks a sender's sorted admission times with two indices; the admission limit counts the rows of
  the last minute in SQL. \<open>rate_ok_iff\<close> shows that the walk decides the declarative limit, and
  \<open>rate_ok_admit\<close> that an admission the limit lets through keeps it.
\<close>

definition window_count :: "int \<Rightarrow> int list \<Rightarrow> int" where
  "window_count t ts = int (length (filter (\<lambda>s. s \<le> t \<and> t - s < 60 * SECOND) ts))"

lemma dropWhile_sorted_filter:
  "sorted us \<Longrightarrow> dropWhile (\<lambda>s. (c::int) \<le> t - s) us = filter (\<lambda>s. t - s < c) us"
proof (induction us)
  case (Cons u us)
  then have later: "\<forall>s \<in> set us. u \<le> s" by simp
  show ?case
  proof (cases "c \<le> t - u")
    case True
    with Cons show ?thesis by simp
  next
    case False
    with later have "\<forall>s \<in> set (u # us). t - s < c" by auto
    then have "filter (\<lambda>s. t - s < c) (u # us) = u # us" by (rule filter_True)
    with False show ?thesis by (simp del: filter.simps)
  qed
qed simp

text \<open>The walk, position by position: the times counted at a position are those before it, less than a minute old.\<close>

lemma window_ok_positions:
  "sorted (live @ us) \<Longrightarrow> window_ok limit live us \<longleftrightarrow>
   (\<forall>ys t zs. us = ys @ t # zs \<longrightarrow> int (length (filter (\<lambda>s. t - s < 60 * SECOND) (live @ ys @ [t]))) \<le> limit)"
proof (induction us arbitrary: live)
  case (Cons u us)
  define next_live where "next_live = filter (\<lambda>s. u - s < 60 * SECOND) (live @ [u])"
  have shift: "dropWhile (\<lambda>s. 60 * SECOND \<le> u - s) (live @ [u]) = next_live"
    using Cons.prems by (simp add: next_live_def dropWhile_sorted_filter sorted_append)
  have "sorted (next_live @ us)"
    using Cons.prems by (auto simp: next_live_def sorted_append sorted_filter [where f = "\<lambda>x. x", simplified])
  note tail = Cons.IH [OF this]
  have same: "filter (\<lambda>s. t - s < 60 * SECOND) (next_live @ ys @ [t]) = filter (\<lambda>s. t - s < 60 * SECOND) (live @ (u # ys) @ [t])"
    if "us = ys @ t # zs" for ys t zs
  proof -
    have "u \<le> t" using Cons.prems that by (auto simp: sorted_append)
    then have "filter (\<lambda>s. t - s < 60 * SECOND) next_live = filter (\<lambda>s. t - s < 60 * SECOND) (live @ [u])"
      unfolding next_live_def filter_filter by (intro filter_cong) auto
    then show ?thesis by simp
  qed
  have split: "(\<forall>ys t zs. u # us = ys @ t # zs \<longrightarrow> P ys t) \<longleftrightarrow> P [] u \<and> (\<forall>ys t zs. us = ys @ t # zs \<longrightarrow> P (u # ys) t)" for P
    by (auto simp: Cons_eq_append_conv)
  have "window_ok limit live (u # us) \<longleftrightarrow> int (length next_live) \<le> limit \<and> window_ok limit next_live us"
    by (simp add: shift Let_def)
  also have "\<dots> \<longleftrightarrow> int (length (filter (\<lambda>s. u - s < 60 * SECOND) (live @ [] @ [u]))) \<le> limit \<and>
      (\<forall>ys t zs. us = ys @ t # zs \<longrightarrow> int (length (filter (\<lambda>s. t - s < 60 * SECOND) (live @ (u # ys) @ [t]))) \<le> limit)"
    unfolding tail using same by (simp add: next_live_def)
  also have "\<dots> \<longleftrightarrow> (\<forall>ys t zs. u # us = ys @ t # zs \<longrightarrow>
      int (length (filter (\<lambda>s. t - s < 60 * SECOND) (live @ ys @ [t]))) \<le> limit)"
    by (rule split [symmetric])
  finally show ?case .
qed simp

lemma window_count_position:
  assumes "sorted (ys @ t # zs)" "t \<notin> set zs"
  shows "window_count t (ys @ t # zs) = int (length (filter (\<lambda>s. t - s < 60 * SECOND) (ys @ [t])))"
proof -
  have "\<forall>s \<in> set zs. \<not> s \<le> t" using assms by (force simp: sorted_append)
  then have "filter (\<lambda>s. s \<le> t \<and> t - s < 60 * SECOND) zs = []" by (auto simp: filter_empty_conv)
  moreover have "filter (\<lambda>s. s \<le> t \<and> t - s < 60 * SECOND) ys = filter (\<lambda>s. t - s < 60 * SECOND) ys"
    using assms(1) by (intro filter_cong) (auto simp: sorted_append)
  ultimately show ?thesis by (simp add: window_count_def SECOND_def)
qed

lemma window_count_sort [simp]: "window_count t (sort ts) = window_count t ts"
  by (simp add: window_count_def filter_sort)

text \<open>The verifier's walk decides the declarative limit: no minute that ends at an admission holds more of them than allowed.\<close>

theorem rate_ok_iff: "rate_ok limit ts \<longleftrightarrow> (\<forall>t \<in> set ts. window_count t ts \<le> limit)"
proof -
  define us where "us = sort ts"
  have sorted: "sorted us" by (simp add: us_def)
  have "rate_ok limit ts \<longleftrightarrow> (\<forall>ys t zs. us = ys @ t # zs \<longrightarrow> int (length (filter (\<lambda>s. t - s < 60 * SECOND) (ys @ [t]))) \<le> limit)"
    using window_ok_positions [of "[]" us limit] sorted by (simp add: rate_ok_def us_def)
  also have "\<dots> \<longleftrightarrow> (\<forall>t \<in> set us. window_count t us \<le> limit)"
  proof (intro iffI ballI allI impI)
    fix t assume walk: "\<forall>ys t zs. us = ys @ t # zs \<longrightarrow> int (length (filter (\<lambda>s. t - s < 60 * SECOND) (ys @ [t]))) \<le> limit"
      and "t \<in> set us"
    then obtain ys zs where "us = ys @ t # zs" "t \<notin> set zs" by (meson split_list_last)
    with walk sorted show "window_count t us \<le> limit" using window_count_position by fastforce
  next
    fix ys t zs assume all: "\<forall>t \<in> set us. window_count t us \<le> limit" and us: "us = ys @ t # zs"
    have "filter (\<lambda>s. t - s < 60 * SECOND) (ys @ [t]) = filter (\<lambda>s. s \<le> t \<and> t - s < 60 * SECOND) (ys @ [t])"
      using sorted us by (intro filter_cong) (auto simp: sorted_append)
    then have "int (length (filter (\<lambda>s. t - s < 60 * SECOND) (ys @ [t]))) \<le> window_count t us"
      by (simp add: window_count_def us)
    with all us show "int (length (filter (\<lambda>s. t - s < 60 * SECOND) (ys @ [t]))) \<le> limit" by force
  qed
  finally show ?thesis by (simp add: us_def)
qed

lemma window_ok_admit:
  assumes "\<forall>t \<in> set ts. window_count t ts \<le> limit" "\<forall>t \<in> set ts. t \<le> now" "window_count now ts < limit"
  shows "\<forall>t \<in> set (ts @ [now]). window_count t (ts @ [now]) \<le> limit"
proof
  fix t assume "t \<in> set (ts @ [now])"
  then consider "t = now" | "t \<in> set ts" "t < now" using assms(2) by force
  then show "window_count t (ts @ [now]) \<le> limit"
    using assms(1,3) by cases (auto simp: window_count_def)
qed

end
