(* ===== verification/Comms_Messages.thy ===== *)
theory Comms_Messages
  imports Comms_Policy
begin

text \<open>
  Admission, delivery, expiry and the plain hand-off facts of messages
  (\<^verbatim>\<open>src/trw_mcp/comms/_messages.py\<close>), the only writer of \<open>milestones\<close> and \<open>handoff_reports\<close>.

  \<^item> Drawn ids and the trace context are arguments (\<open>comms_draws\<close>); the n-th admission draws the n-th id.
  \<^item> A statement over a set of rows is the fold of its effect over these rows, in table order.
  \<^item> An expiry beyond the largest float saturates in the source; integers have no such bound.
\<close>

record comms_draws =
  dw_message :: "nat \<Rightarrow> string"
  dw_token :: string
  dw_traceparent :: "string option"

section \<open>Admission\<close>

definition new_admission ::
    "comms_env \<Rightarrow> comms_draws \<Rightarrow> CallerBinding \<Rightarrow> Envelope \<Rightarrow> int \<Rightarrow> int \<Rightarrow> comms_db \<Rightarrow> admission" where
  "new_admission env w b e now ttl_seconds db =
     \<lparr>ad_rowid = next_rowid db, ad_group = cb_group b, ad_sender = cb_member b, ad_key = nv_key e,
      ad_recipient = nv_recipient e, ad_kind = nv_kind e, ad_class = nv_class e, ad_body = nv_body e,
      ad_message = dw_message w (length (admissions db)), ad_incarnation = NEVER_PREPARED, ad_admitted_at = now,
      ad_state = PENDING, ad_expires_at = now + ttl_seconds * SECOND, ad_delivery_count = 0,
      ad_sha256 = canonical_sha256 env e, ad_traceparent = dw_traceparent w\<rparr>"

definition insert_admission ::
    "comms_env \<Rightarrow> comms_draws \<Rightarrow> CallerBinding \<Rightarrow> Envelope \<Rightarrow> int \<Rightarrow> int \<Rightarrow> comms_db \<Rightarrow> ahr_error + admission \<times> comms_db" where
  "insert_admission env w b e now ttl_seconds db =
     (let a = new_admission env w b e now ttl_seconds db;
          db1 = db\<lparr>admissions := admissions db @ [a]\<rparr>;
          db2 = update_group (cb_group b) (\<lambda>g. g\<lparr>gr_charge := gr_charge g + 1\<rparr>) db1
      in if message_row db (ad_message a) \<noteq> None \<or>
            list_ex (\<lambda>x. ad_group x = ad_group a \<and> ad_sender x = ad_sender a \<and> ad_key x = ad_key a) (admissions db)
         then Inl (ConstraintError ''admissions'')
         else bindE (insert_milestone (ad_message a) ''admitted'' now db2) (\<lambda>db3. Inr (a, db3)))"

section \<open>Expiry\<close>

definition expire_row :: "int \<Rightarrow> admission \<Rightarrow> comms_db \<Rightarrow> comms_db" where
  "expire_row now a db =
     update_message (ad_message a) (ad_state_update (\<lambda>_. EXPIRED)) (add_milestone (ad_message a) EXPIRED now db)"

definition expire_where :: "string \<Rightarrow> int \<Rightarrow> (admission \<Rightarrow> bool) \<Rightarrow> comms_db \<Rightarrow> comms_db" where
  "expire_where gid now due db =
     fold (expire_row now) (filter (\<lambda>a. ad_group a = gid \<and> ad_state a = PENDING \<and> due a) (admissions db)) db"

definition expire_due :: "string \<Rightarrow> int \<Rightarrow> string list \<Rightarrow> comms_db \<Rightarrow> comms_db" where
  "expire_due gid now terminal_members db =
     fold (\<lambda>member. expire_where gid now (\<lambda>a. ad_recipient a = member)) (sort (remdups terminal_members))
       (expire_where gid now (\<lambda>a. ad_expires_at a \<le> now) db)"

definition tombstone_due :: "string \<Rightarrow> int \<Rightarrow> int \<Rightarrow> comms_db \<Rightarrow> comms_db" where
  "tombstone_due gid now grace_seconds db =
     db\<lparr>admissions := map (\<lambda>a.
       if ad_group a = gid \<and> ad_state a \<noteq> PENDING \<and> ad_body a \<noteq> [] \<and> ad_expires_at a + grace_seconds * SECOND \<le> now
       then a\<lparr>ad_body := []\<rparr> else a) (admissions db)\<rparr>"

section \<open>Delivery\<close>

definition prepare_row :: "int \<Rightarrow> string \<Rightarrow> admission \<Rightarrow> comms_db \<Rightarrow> comms_db" where
  "prepare_row now incarnation a db =
     (let db1 = add_milestone (ad_message a) ''fetch_prepared'' now db in
      if ad_incarnation a \<noteq> incarnation
      then update_message (ad_message a)
        (\<lambda>r. r\<lparr>ad_delivery_count := ad_delivery_count r + 1, ad_incarnation := incarnation\<rparr>) db1
      else db1)"

definition prepare_fetch :: "admission list \<Rightarrow> int \<Rightarrow> string \<Rightarrow> comms_db \<Rightarrow> comms_db" where
  "prepare_fetch rows now incarnation = fold (prepare_row now incarnation) rows"

definition ack_row :: "CallerBinding \<Rightarrow> comms_db \<Rightarrow> string \<Rightarrow> ahr_error + admission" where
  "ack_row b db m =
     (case message_row db m of
        None \<Rightarrow> Inl (AdmissionError ''unknown_message_id'')
      | Some a \<Rightarrow>
          if ad_group a \<noteq> cb_group b then Inl (AdmissionError ''unknown_message_id'')
          else if ad_recipient a \<noteq> cb_member b \<or> ad_state a \<notin> {PENDING, ACKED}
          then Inl (AdmissionError ''ack_not_authorized'') else Inr a)"

fun mapE :: "('a \<Rightarrow> 'e + 'b) \<Rightarrow> 'a list \<Rightarrow> 'e + 'b list" where
  "mapE f [] = Inr []"
| "mapE f (x # xs) = bindE (f x) (\<lambda>y. bindE (mapE f xs) (\<lambda>ys. Inr (y # ys)))"

definition validate_ack :: "CallerBinding \<Rightarrow> string list \<Rightarrow> comms_db \<Rightarrow> ahr_error + admission list" where
  "validate_ack b ids db = mapE (ack_row b db) ids"

definition acknowledge_row :: "int \<Rightarrow> admission \<Rightarrow> comms_db \<Rightarrow> ahr_error + comms_db" where
  "acknowledge_row now a db =
     (if ad_state a = ACKED then Inr db
      else bindE (insert_milestone (ad_message a) ACKED now db)
        (\<lambda>db1. Inr (update_message (ad_message a) (ad_state_update (\<lambda>_. ACKED)) db1)))"

definition acknowledge :: "admission list \<Rightarrow> int \<Rightarrow> comms_db \<Rightarrow> ahr_error + comms_db" where
  "acknowledge rows now = foldE (acknowledge_row now) rows"

section \<open>The plain hand-off facts\<close>

text \<open>\<^verbatim>\<open>handoff_rows\<close>; the facts of a row are those the table holds before anything is written.\<close>

definition handoff_row :: "CallerBinding \<Rightarrow> bool \<Rightarrow> comms_db \<Rightarrow> string \<Rightarrow> ahr_error + admission \<times> (string \<rightharpoonup> int)" where
  "handoff_row b as_sender db m =
     (case message_row db m of
        None \<Rightarrow> Inl (AdmissionError ''unknown_message_id'')
      | Some a \<Rightarrow>
          if ad_group a \<noteq> cb_group b then Inl (AdmissionError ''unknown_message_id'')
          else if (if as_sender then ad_sender a else ad_recipient a) \<noteq> cb_member b \<or>
             (as_sender \<and> ad_recipient a = cb_member b)
          then Inl (AdmissionError ''handoff_not_authorized'')
          else if ad_kind a \<noteq> ''request'' then Inl (AdmissionError ''not_a_handoff'')
          else Inr (a, fact_at db m))"

definition handoff_rows ::
    "CallerBinding \<Rightarrow> string list \<Rightarrow> bool \<Rightarrow> comms_db \<Rightarrow> ahr_error + (admission \<times> (string \<rightharpoonup> int)) list" where
  "handoff_rows b ids as_sender db = mapE (handoff_row b as_sender db) ids"

definition record_fact :: "string \<Rightarrow> int \<Rightarrow> admission \<times> (string \<rightharpoonup> int) \<Rightarrow> comms_db \<Rightarrow> ahr_error + comms_db" where
  "record_fact f now checked db =
     (if snd checked f = None then insert_milestone (ad_message (fst checked)) f now db else Inr db)"

definition accept :: "CallerBinding \<Rightarrow> string list \<Rightarrow> int \<Rightarrow> comms_db \<Rightarrow> ahr_error + comms_db" where
  "accept b ids now db =
     bindE (handoff_rows b ids False db) (\<lambda>checked.
       if list_ex (\<lambda>c. ad_state (fst c) = EXPIRED) checked then Inl (AdmissionError ''handoff_not_authorized'')
       else bindE (acknowledge (map fst checked) now db) (foldE (record_fact ''accepted'' now) checked))"

definition report :: "comms_env \<Rightarrow> CallerBinding \<Rightarrow> string \<Rightarrow> string \<Rightarrow> int \<Rightarrow> comms_db \<Rightarrow> ahr_error + comms_db" where
  "report env b m next_read now db =
     (if \<not> valid_next_read env next_read then Inl (AdmissionError ''invalid_next_read'')
      else bindE (handoff_row b False db m) (\<lambda>(a, facts).
        if facts ''accepted'' = None then Inl (AdmissionError ''handoff_not_accepted'')
        else if facts ''reported'' \<noteq> None
        then (if map_option hr_next_read (report_of db m) \<noteq> Some next_read
              then Inl (AdmissionError ''handoff_already_reported'') else Inr db)
        else bindE (insert_milestone (ad_message a) ''reported'' now db) (\<lambda>db1.
          if report_of db1 (ad_message a) \<noteq> None then Inl (ConstraintError ''handoff_reports'')
          else Inr (db1\<lparr>handoff_reports := handoff_reports db1 @
            [\<lparr>hr_message = ad_message a, hr_next_read = next_read, hr_reported_at = now\<rparr>]\<rparr>))))"

text \<open>
  \<^verbatim>\<open>pointer_resolves\<close> (\<^verbatim>\<open>_handoff.py\<close>): false only for a path-shaped pointer that names nothing. \<open>there\<close> is the existence
  of a path under the project root.
\<close>

definition drop_digest_fragment :: "string \<Rightarrow> string" where
  "drop_digest_fragment s =
     (let k = length s - 72; mark = drop k s in
      if 72 \<le> length s \<and> take 8 mark = ''#sha256:'' \<and> is_hex 64 (drop 8 mark) then take k s else s)"

definition branch_at_sha :: "string \<Rightarrow> bool" where
  "branch_at_sha s \<longleftrightarrow>
     list_ex (\<lambda>n. let k = length s - n in
       n + 1 < length s \<and> s ! (k - 1) = CHR ''@'' \<and> CHR 0x0A \<notin> set (take (k - 1) s) \<and>
       list_all (\<lambda>c. c \<in> set hex_digits \<or> c \<in> set ''ABCDEF'') (drop k s)) [7 ..< 41]"

definition pointer_resolves :: "(string \<Rightarrow> bool) \<Rightarrow> string option \<Rightarrow> bool" where
  "pointer_resolves there pointer =
     (let text = drop_digest_fragment (case pointer of None \<Rightarrow> [] | Some p \<Rightarrow> strip is_str_space p) in
      text = [] \<or> branch_at_sha text \<or> (CHR ''/'' \<notin> set text \<and> CHR ''.'' \<notin> set text) \<or> there text)"

text \<open>The ids whose pointer names nothing are returned with the next store.\<close>

definition complete ::
    "(string \<Rightarrow> bool) \<Rightarrow> CallerBinding \<Rightarrow> string list \<Rightarrow> int \<Rightarrow> comms_db \<Rightarrow> ahr_error + string list \<times> comms_db" where
  "complete there b ids now db =
     bindE (handoff_rows b ids True db) (\<lambda>checked.
       if list_ex (\<lambda>c. snd c ''reported'' = None) checked then Inl (AdmissionError ''handoff_not_reported'')
       else bindE (foldE (record_fact ''completed'' now) checked db) (\<lambda>db1.
         Inr (filter (\<lambda>m. \<not> pointer_resolves there (map_option hr_next_read (report_of db1 m))) (map (ad_message \<circ> fst) checked), db1)))"

end
