(* ===== verification/Comms_Writes.thy ===== *)
theory Comms_Writes
  imports Comms_Rate Comms_Messages
begin

text \<open>
  What a write may do to a mailbox without the verifier noticing: rewrite the mutable columns of a message together
  with its new facts and report (\<open>rewrite_ok\<close>, \<open>message_write_ok\<close>), advance or close a group (\<open>group_write_ok\<close>), append
  an admission (\<open>append_admission_ok\<close>). Every operation on messages is an instance.
\<close>

text \<open>The conjuncts of \<open>mailbox_ok\<close>, one by one.\<close>

definition limits_ok :: "comms_db \<Rightarrow> bool" where
  "limits_ok db \<longleftrightarrow> (\<forall>a \<in> set (admissions db). \<forall>g. group_of db (ad_group a) = Some g \<longrightarrow>
     rate_ok (gr_rate_limit g) (sender_times db (ad_group a) (ad_sender a)) \<and>
     (ad_state a = PENDING \<longrightarrow> outstanding (ad_group a) (ad_recipient a) (admissions db) \<le> gr_outstanding_limit g))"

definition groups_ok :: "comms_db \<Rightarrow> bool" where
  "groups_ok db \<longleftrightarrow> (\<forall>g \<in> set (groups db). group_ok g \<and> charge_of db (gr_id g) = gr_charge g)"

definition endpoints_ok :: "comms_db \<Rightarrow> bool" where
  "endpoints_ok db \<longleftrightarrow> (\<forall>e \<in> set (endpoints db). \<exists>g. group_of db (en_group e) = Some g \<and> endpoint_ok g e)"

definition refusals_ok :: "comms_db \<Rightarrow> bool" where
  "refusals_ok db \<longleftrightarrow> (\<forall>r \<in> set (refusal_counts db). group_of db (rc_group r) \<noteq> None \<and> rc_reason r \<in> set REFUSALS \<and>
     1 \<le> rc_count r \<and> rc_count r \<le> MAX_COUNTER)"

definition no_orphans :: "comms_db \<Rightarrow> bool" where
  "no_orphans db \<longleftrightarrow> ms_message ` set (milestones db) \<subseteq> ad_message ` set (admissions db) \<and>
     hr_message ` set (handoff_reports db) \<subseteq> ad_message ` set (admissions db)"

lemma mailbox_ok_parts:
  "mailbox_ok env db \<longleftrightarrow> keys_ok db \<and> groups_ok db \<and> endpoints_ok db \<and> (\<forall>a \<in> set (admissions db). row_ok env db a) \<and>
     limits_ok db \<and> no_orphans db \<and> refusals_ok db"
  unfolding mailbox_ok_def groups_ok_def endpoints_ok_def limits_ok_def no_orphans_def refusals_ok_def
  by (simp only: conj_assoc)

lemma mailbox_okD:
  assumes "mailbox_ok env db"
  shows "keys_ok db" "groups_ok db" "endpoints_ok db" "limits_ok db" "no_orphans db" "refusals_ok db"
    and "a \<in> set (admissions db) \<Longrightarrow> row_ok env db a"
  using assms by (simp_all add: mailbox_ok_parts)

section \<open>Rewriting messages\<close>

text \<open>The columns no statement changes.\<close>

definition keeps_identity :: "(admission \<Rightarrow> admission) \<Rightarrow> bool" where
  "keeps_identity f \<longleftrightarrow> (\<forall>a. ad_message (f a) = ad_message a \<and> ad_group (f a) = ad_group a \<and> ad_sender (f a) = ad_sender a \<and>
     ad_key (f a) = ad_key a \<and> ad_recipient (f a) = ad_recipient a \<and> ad_admitted_at (f a) = ad_admitted_at a)"

lemma keeps_identityD:
  assumes "keeps_identity f"
  shows "ad_message (f a) = ad_message a" "ad_group (f a) = ad_group a" "ad_sender (f a) = ad_sender a"
    "ad_key (f a) = ad_key a" "ad_recipient (f a) = ad_recipient a" "ad_admitted_at (f a) = ad_admitted_at a"
  using assms by (simp_all add: keeps_identity_def)

definition message_write ::
    "string \<Rightarrow> (admission \<Rightarrow> admission) \<Rightarrow> (string \<times> int) list \<Rightarrow> handoff_report list \<Rightarrow> comms_db \<Rightarrow> comms_db" where
  "message_write m h facts reports db =
     db\<lparr>admissions := map h (admissions db),
        milestones := milestones db @ map (\<lambda>(f, t). \<lparr>ms_message = m, ms_fact = f, ms_at = t\<rparr>) facts,
        handoff_reports := handoff_reports db @ reports\<rparr>"

definition fresh_facts :: "comms_db \<Rightarrow> string \<Rightarrow> (string \<times> int) list \<Rightarrow> bool" where
  "fresh_facts db m facts \<longleftrightarrow> distinct (map fst facts) \<and> (\<forall>f \<in> fst ` set facts. fact_at db m f = None)"

definition fresh_reports :: "comms_db \<Rightarrow> string \<Rightarrow> handoff_report list \<Rightarrow> bool" where
  "fresh_reports db m reports \<longleftrightarrow>
     reports = [] \<or> report_of db m = None \<and> (\<exists>r. reports = [r] \<and> hr_message r = m)"

lemma fresh_nil [simp]: "fresh_facts db m []" "fresh_reports db m []"
  by (simp_all add: fresh_facts_def fresh_reports_def)

lemma message_write_fields [simp]:
  "admissions (message_write m h facts reports db) = map h (admissions db)"
  "groups (message_write m h facts reports db) = groups db"
  "endpoints (message_write m h facts reports db) = endpoints db"
  "refusal_counts (message_write m h facts reports db) = refusal_counts db"
  "ahr_events (message_write m h facts reports db) = ahr_events db"
  "group_of (message_write m h facts reports db) gid = group_of db gid"
  by (simp_all add: message_write_def group_of_def)

lemma find_facts:
  "find_row (\<lambda>r. (ms_message r, ms_fact r)) (m', f) (map (\<lambda>(f, t). \<lparr>ms_message = m, ms_fact = f, ms_at = t\<rparr>) facts) =
   (if m' = m then map_option (\<lambda>t. \<lparr>ms_message = m, ms_fact = f, ms_at = t\<rparr>) (map_of facts f) else None)"
  by (induction facts) auto

lemma fact_at_message_write:
  assumes "fresh_facts db m facts"
  shows "fact_at (message_write m h facts reports db) m' = (if m' = m then fact_at db m ++ map_of facts else fact_at db m')"
proof
  fix f
  have "map_of facts f = None" if "fact_at db m f \<noteq> None"
    using assms that by (force simp: fresh_facts_def map_of_eq_None_iff)
  then show "fact_at (message_write m h facts reports db) m' f = (if m' = m then fact_at db m ++ map_of facts else fact_at db m') f"
    by (auto simp: fact_at_def message_write_def find_row_append find_facts map_add_def option.map_comp comp_def
        split: option.splits)
qed

lemma report_of_message_write:
  assumes "fresh_reports db m reports"
  shows "report_of (message_write m h facts reports db) m' =
    (if m' = m \<and> reports \<noteq> [] then Some (hd reports) else report_of db m')"
  using assms by (auto simp: report_of_def message_write_def fresh_reports_def find_row_append split: option.splits)

lemma message_row_message_write:
  assumes "keeps_identity h"
  shows "message_row (message_write m h facts reports db) m' = map_option h (message_row db m')"
proof -
  have "find_row ad_message m' (map h rows) = map_option h (find_row ad_message m' rows)" for rows
    using keeps_identityD(1) [OF assms] by (induction rows) auto
  then show ?thesis by (simp add: message_row_def)
qed

lemma keys_message_write:
  assumes "keys_ok db" "keeps_identity h" "fresh_facts db m facts" "fresh_reports db m reports"
  shows "keys_ok (message_write m h facts reports db)"
proof -
  have "unique_key (\<lambda>r. (ms_message r, ms_fact r)) (milestones (message_write m h facts reports db))"
    using assms(1,3)
    by (auto simp: keys_ok_def unique_key_def message_write_def fresh_facts_def fact_at_None distinct_map inj_on_def
        comp_def split_beta)
  moreover have "unique_key hr_message (handoff_reports (message_write m h facts reports db))"
    using assms(1,4) by (auto simp: keys_ok_def unique_key_def message_write_def fresh_reports_def report_of_def find_row_None)
      (metis image_eqI)
  ultimately show ?thesis
    using assms(1) by (simp add: keys_ok_def unique_key_def comp_def keeps_identityD [OF assms(2)])
qed

lemma filter_map_count:
  "(\<And>a. P (h a) \<Longrightarrow> P a) \<Longrightarrow> length (filter P (map h xs)) \<le> length (filter P xs)"
  by (induction xs) auto

lemma rewrite_ok:
  fixes db m h facts reports
  defines "db' \<equiv> message_write m h facts reports db"
  assumes ok: "mailbox_ok env db" and h: "keeps_identity h"
    and facts: "fresh_facts db m facts" and reports: "fresh_reports db m reports"
    and known: "facts = [] \<and> reports = [] \<or> m \<in> ad_message ` set (admissions db)"
    and rows: "\<And>a. a \<in> set (admissions db) \<Longrightarrow> row_ok env db' (h a)"
    and pending: "\<And>a. ad_state (h a) = PENDING \<Longrightarrow> ad_state a = PENDING"
  shows "mailbox_ok env db'"
proof -
  note fields = message_write_fields [of m h facts reports db, folded db'_def]
  have parts: "filter P (map h xs) = map h (filter P xs)" if "\<And>a. P (h a) = P a" for P xs
    using that by (induction xs) auto
  note same = keeps_identityD [OF h]
  have charge: "charge_of db' gid = charge_of db gid" for gid
    by (simp add: charge_of_def fields parts same)
  have times: "sender_times db' gid sender = sender_times db gid sender" for gid sender
    by (simp add: sender_times_def fields parts comp_def same)
  have out: "outstanding gid member (admissions db') \<le> outstanding gid member (admissions db)" for gid member
    using filter_map_count [of "\<lambda>a. ad_group a = gid \<and> ad_recipient a = member \<and> ad_state a = PENDING" h "admissions db"] pending
    by (simp add: outstanding_def fields same)
  have messages: "ad_message ` set (admissions db') = ad_message ` set (admissions db)"
    by (simp add: fields image_image same)
  have milestones: "ms_message ` set (milestones db') \<subseteq> ad_message ` set (admissions db)"
    using mailbox_okD(5) [OF ok] known by (auto simp: db'_def message_write_def no_orphans_def)
  have handoffs: "hr_message ` set (handoff_reports db') \<subseteq> ad_message ` set (admissions db)"
    using mailbox_okD(5) [OF ok] known reports by (auto simp: db'_def message_write_def fresh_reports_def no_orphans_def)
  have limits: "rate_ok (gr_rate_limit g) (sender_times db' (ad_group b) (ad_sender b)) \<and>
      (ad_state b = PENDING \<longrightarrow> outstanding (ad_group b) (ad_recipient b) (admissions db') \<le> gr_outstanding_limit g)"
    if b: "b \<in> set (admissions db')" "group_of db' (ad_group b) = Some g" for b g
  proof -
    from b(1) obtain a where a: "a \<in> set (admissions db)" "b = h a" by (auto simp: fields)
    then have "group_of db (ad_group a) = Some g" using b(2) by (simp add: fields same)
    then have "rate_ok (gr_rate_limit g) (sender_times db (ad_group a) (ad_sender a)) \<and>
        (ad_state a = PENDING \<longrightarrow> outstanding (ad_group a) (ad_recipient a) (admissions db) \<le> gr_outstanding_limit g)"
      using mailbox_okD(4) [OF ok] a(1) unfolding limits_ok_def by blast
    then show ?thesis using a(2) pending [of a] out [of "ad_group a" "ad_recipient a"] by (auto simp: times same)
  qed
  have keys: "keys_ok db'"
    unfolding db'_def by (rule keys_message_write [OF mailbox_okD(1) [OF ok] h facts reports])
  have all: "\<forall>b \<in> set (admissions db'). row_ok env db' b" using rows by (auto simp: fields)
  have "groups_ok db'" using mailbox_okD(2) [OF ok] by (simp add: groups_ok_def charge fields)
  moreover have "endpoints_ok db'" using mailbox_okD(3) [OF ok] by (simp add: endpoints_ok_def fields)
  moreover have "refusals_ok db'" using mailbox_okD(6) [OF ok] by (simp add: refusals_ok_def fields)
  moreover have "limits_ok db'" unfolding limits_ok_def using limits by blast
  moreover have "no_orphans db'" using milestones handoffs by (simp add: no_orphans_def messages)
  ultimately show ?thesis using keys all by (simp add: mailbox_ok_parts)
qed

text \<open>The common case: one message \<open>a\<close> changes.\<close>

lemma message_write_ok:
  assumes ok: "mailbox_ok env db" and a: "message_row db m = Some a" and f: "keeps_identity f"
    and facts: "fresh_facts db m facts" and reports: "fresh_reports db m reports"
    and row: "\<And>g. group_of db (ad_group a) = Some g \<Longrightarrow> admission_ok g a \<Longrightarrow>
        message_ok env g a (fact_at db m) (report_of db m) \<Longrightarrow>
        admission_ok g (f a) \<and> message_ok env g (f a) (fact_at db m ++ map_of facts) (if reports = [] then report_of db m else Some (hd reports))"
    and pending: "\<And>r. ad_state (f r) = PENDING \<Longrightarrow> ad_state r = PENDING"
  shows "mailbox_ok env (message_write m (\<lambda>r. if ad_message r = m then f r else r) facts reports db)"
proof -
  define h where "h r = (if ad_message r = m then f r else r)" for r
  define db' where "db' = message_write m h facts reports db"
  have keys: "keys_ok db" by (rule mailbox_okD(1) [OF ok])
  have mem: "a \<in> set (admissions db)" "ad_message a = m" using a by (simp_all add: keys_lookups(2) [OF keys])
  have h: "keeps_identity h" using keeps_identityD [OF f] by (auto simp: h_def keeps_identity_def)
  have "row_ok env db' (h b)" if b: "b \<in> set (admissions db)" for b
  proof -
    have old: "row_ok env db b" by (rule mailbox_okD(7) [OF ok b])
    then obtain g where g: "group_of db (ad_group b) = Some g" "admission_ok g b"
        "message_ok env g b (fact_at db (ad_message b)) (report_of db (ad_message b))"
      by (auto simp: row_ok_def)
    show ?thesis
    proof (cases "ad_message b = m")
      case True
      then have "message_row db m = Some b" using b by (simp add: keys_lookups(2) [OF keys])
      then have "b = a" using a by simp
      with g mem row [of g] show ?thesis
        by (auto simp: row_ok_def h_def keeps_identityD [OF f] db'_def fact_at_message_write [OF facts] report_of_message_write [OF reports])
    next
      case False
      with g show ?thesis
        by (auto simp: row_ok_def h_def db'_def fact_at_message_write [OF facts] report_of_message_write [OF reports])
    qed
  qed
  moreover have "ad_state (h r) = PENDING \<Longrightarrow> ad_state r = PENDING" for r
    using pending by (auto simp: h_def split: if_splits)
  ultimately have "mailbox_ok env db'"
    using rewrite_ok [OF ok h facts reports] mem by (auto simp: db'_def)
  moreover have "h = (\<lambda>r. if ad_message r = m then f r else r)" by (simp add: h_def fun_eq_iff)
  ultimately show ?thesis by (simp add: db'_def)
qed

section \<open>Advancing and closing a group\<close>

definition advances :: "group_row \<Rightarrow> group_row \<Rightarrow> bool" where
  "advances g g' \<longleftrightarrow> gr_id g' = gr_id g \<and> gr_formation g' = gr_formation g \<and> gr_manifest g' = gr_manifest g \<and>
     gr_created g' = gr_created g \<and> gr_group_limit g' = gr_group_limit g \<and> gr_body_limit g' = gr_body_limit g \<and>
     gr_outstanding_limit g' = gr_outstanding_limit g \<and> gr_rate_limit g' = gr_rate_limit g \<and> gr_charge g' = gr_charge g \<and>
     gr_body_budget g' = gr_body_budget g \<and> gr_time g \<le> gr_time g' \<and> 0 \<le> gr_closed g' \<and> gr_closed g' \<le> 1"

lemma update_group_fields [simp]:
  "admissions (update_group gid f db) = admissions db"
  "endpoints (update_group gid f db) = endpoints db"
  "milestones (update_group gid f db) = milestones db"
  "handoff_reports (update_group gid f db) = handoff_reports db"
  "refusal_counts (update_group gid f db) = refusal_counts db"
  "ahr_events (update_group gid f db) = ahr_events db"
  "fact_at (update_group gid f db) = fact_at db"
  "report_of (update_group gid f db) = report_of db"
  "message_row (update_group gid f db) = message_row db"
  "sender_times (update_group gid f db) = sender_times db"
  "charge_of (update_group gid f db) = charge_of db"
  by (simp_all add: update_group_def fact_at_def report_of_def message_row_def sender_times_def charge_of_def fun_eq_iff)

lemma group_of_update_group:
  assumes "\<And>g. gr_id (f g) = gr_id g"
  shows "group_of (update_group gid f db) gid' = (if gid' = gid then map_option f (group_of db gid') else group_of db gid')"
  using assms by (simp add: group_of_def update_group_def find_update_rows)

lemma advances_admission: "advances g g' \<Longrightarrow> admission_ok g a \<Longrightarrow> admission_ok g' a"
  by (auto simp: advances_def admission_ok_def)

lemma advances_message: "advances g g' \<Longrightarrow> message_ok env g a F R \<Longrightarrow> message_ok env g' a F R"
  unfolding advances_def message_ok_def by (meson order_trans)

lemma advances_endpoint: "advances g g' \<Longrightarrow> endpoint_ok g e \<Longrightarrow> endpoint_ok g' e"
  by (auto simp: advances_def endpoint_ok_def)

lemma advances_group: "advances g g' \<Longrightarrow> group_ok g \<Longrightarrow> group_ok g'"
  by (auto simp: advances_def group_ok_def group_checks_def)

lemma advances_refl: "group_ok g \<Longrightarrow> advances g g"
  by (auto simp: advances_def group_ok_def group_checks_def)

lemma group_write_ok:
  assumes ok: "mailbox_ok env db" and id: "\<And>g. gr_id (f g) = gr_id g"
    and f: "\<And>g. group_of db gid = Some g \<Longrightarrow> group_ok g \<Longrightarrow> advances g (f g)"
  shows "mailbox_ok env (update_group gid f db)"
proof -
  define db' where "db' = update_group gid f db"
  note parts = mailbox_okD [OF ok]
  note look = keys_lookups [OF parts(1)]
  have step: "\<exists>g'. group_of db' i = Some g' \<and> advances g g'" if "group_of db i = Some g" for i g
  proof -
    have "group_ok g" using that parts(2) by (auto simp: look(1) groups_ok_def)
    with that f show ?thesis
      by (cases "i = gid") (auto simp: db'_def group_of_update_group [OF id] advances_refl)
  qed
  have rows: "\<exists>g. group_of db (gr_id g') = Some g \<and> advances g g'" if g': "g' \<in> set (groups db')" for g'
  proof -
    from g' obtain g where g: "g \<in> set (groups db)" "g' = (if gr_id g = gid then f g else g)"
      by (auto simp: db'_def update_group_def update_rows_def)
    then have "group_of db (gr_id g) = Some g" "group_ok g" using parts(2) by (auto simp: look(1) groups_ok_def)
    with g f [of g] show ?thesis by (auto simp: id advances_refl)
  qed
  have "map gr_id (groups db') = map gr_id (groups db)" using id by (simp add: db'_def update_group_def)
  then have "keys_ok db'" using parts(1) by (simp add: keys_ok_def unique_key_def db'_def)
  moreover have "groups_ok db'"
    unfolding groups_ok_def
  proof
    fix g' assume "g' \<in> set (groups db')"
    then obtain g where g: "group_of db (gr_id g') = Some g" "advances g g'" using rows by blast
    then have "g \<in> set (groups db)" by (simp add: look(1))
    then have "group_ok g" "charge_of db (gr_id g) = gr_charge g" using parts(2) by (auto simp: groups_ok_def)
    with g show "group_ok g' \<and> charge_of db' (gr_id g') = gr_charge g'"
      using advances_group [of g g'] by (simp add: db'_def advances_def)
  qed
  moreover have "endpoints_ok db'"
    unfolding endpoints_ok_def
  proof
    fix e assume "e \<in> set (endpoints db')"
    then obtain g where "group_of db (en_group e) = Some g" "endpoint_ok g e"
      using parts(3) by (auto simp: endpoints_ok_def db'_def)
    then show "\<exists>g. group_of db' (en_group e) = Some g \<and> endpoint_ok g e" using step advances_endpoint by blast
  qed
  moreover have "\<forall>a \<in> set (admissions db'). row_ok env db' a"
  proof
    fix a assume "a \<in> set (admissions db')"
    then have "row_ok env db a" using parts(7) by (simp add: db'_def)
    then obtain g where g: "group_of db (ad_group a) = Some g" "admission_ok g a"
        "message_ok env g a (fact_at db (ad_message a)) (report_of db (ad_message a))" by (auto simp: row_ok_def)
    then obtain g' where "group_of db' (ad_group a) = Some g'" "advances g g'" using step by blast
    with g show "row_ok env db' a"
      using advances_admission advances_message unfolding row_ok_def by (fastforce simp: db'_def)
  qed
  moreover have "limits_ok db'"
    unfolding limits_ok_def
  proof (intro ballI allI impI)
    fix a g' assume a: "a \<in> set (admissions db')" and g': "group_of db' (ad_group a) = Some g'"
    then obtain g where g: "group_of db (ad_group a) = Some g" using parts(7) by (auto simp: row_ok_def db'_def)
    with g' step have "advances g g'" by fastforce
    with a g parts(4) show "rate_ok (gr_rate_limit g') (sender_times db' (ad_group a) (ad_sender a)) \<and>
        (ad_state a = PENDING \<longrightarrow> outstanding (ad_group a) (ad_recipient a) (admissions db') \<le> gr_outstanding_limit g')"
      by (auto simp: limits_ok_def db'_def advances_def)
  qed
  moreover have "no_orphans db'" using parts(5) by (simp add: no_orphans_def db'_def)
  moreover have "refusals_ok db'" using parts(6) step by (fastforce simp: refusals_ok_def db'_def)
  ultimately show ?thesis by (simp add: mailbox_ok_parts db'_def)
qed

lemma touch_group_time_ok: "mailbox_ok env db \<Longrightarrow> mailbox_ok env (touch_group_time gid now db)"
  unfolding touch_group_time_def
  by (rule group_write_ok) (auto simp: advances_def group_ok_def group_checks_def)

lemma close_group_ok: "mailbox_ok env db \<Longrightarrow> mailbox_ok env (close_group gid db)"
  unfolding close_group_def
  by (rule group_write_ok) (auto simp: advances_def)

section \<open>New rows\<close>

text \<open>What a trusted binding guarantees: derived ids and canonical paths.\<close>

definition binding_ok :: "CallerBinding \<Rightarrow> bool" where
  "binding_ok b \<longleftrightarrow> is_hex 32 (cb_group b) \<and> is_member_id (cb_formation b) \<and> absolute (cb_manifest b) \<and>
     is_member_id (cb_member b) \<and> cb_session b \<noteq> [] \<and> absolute (cb_run b)"

lemma group_of_append [simp]:
  "group_of (db\<lparr>groups := groups db @ [g]\<rparr>) gid =
     (case group_of db gid of None \<Rightarrow> if gr_id g = gid then Some g else None | Some g' \<Rightarrow> Some g')"
  by (simp add: group_of_def find_row_append split: option.split)

lemma born_group_ok:
  assumes ok: "mailbox_ok env db" and fresh: "group_of db (gr_id g) = None" and g: "group_ok g" "gr_charge g = 0"
  shows "mailbox_ok env (db\<lparr>groups := groups db @ [g]\<rparr>)"
proof -
  define db' where "db' = db\<lparr>groups := groups db @ [g]\<rparr>"
  note parts = mailbox_okD [OF ok]
  have same: "group_of db' i = Some h" if "group_of db i = Some h" for i h
    using that by (simp add: db'_def)
  have others: "admissions db' = admissions db" "endpoints db' = endpoints db" "refusal_counts db' = refusal_counts db"
    "milestones db' = milestones db" "handoff_reports db' = handoff_reports db" "charge_of db' = charge_of db"
    "sender_times db' = sender_times db" "fact_at db' = fact_at db" "report_of db' = report_of db"
    by (simp_all add: db'_def charge_of_def sender_times_def fact_at_def report_of_def fun_eq_iff)
  have grouped: "\<exists>h. group_of db (ad_group a) = Some h" if "a \<in> set (admissions db)" for a
    using parts(7) [OF that] by (auto simp: row_ok_def)
  then have "\<forall>a \<in> set (admissions db). ad_group a \<noteq> gr_id g" using fresh by fastforce
  then have "charge_of db (gr_id g) = 0" by (auto simp: charge_of_def filter_empty_conv)
  then have "groups_ok db'" using parts(2) g by (auto simp: groups_ok_def db'_def charge_of_def)
  moreover have "keys_ok db'"
    using parts(1) fresh by (auto simp: keys_ok_def unique_key_def db'_def group_of_def find_row_None)
  moreover have "endpoints_ok db'" using parts(3) same by (fastforce simp: endpoints_ok_def others)
  moreover have "\<forall>a \<in> set (admissions db'). row_ok env db' a"
    using parts(7) same by (fastforce simp: row_ok_def others)
  moreover have "limits_ok db'" using parts(4) grouped same unfolding limits_ok_def others by fastforce
  moreover have "no_orphans db'" using parts(5) by (simp add: no_orphans_def others)
  moreover have "refusals_ok db'" using parts(6) same by (fastforce simp: refusals_ok_def others)
  ultimately show ?thesis by (simp add: mailbox_ok_parts db'_def)
qed

lemma policy_group_ok:
  assumes "valid_config c" "binding_ok b" "0 \<le> now"
  shows "group_ok (born_group b now (policy_of_config c))"
  using assms
  by (auto simp: group_ok_def group_checks_def born_group_def policy_of_config_def valid_config_def binding_ok_def absolute_def)

lemma ensure_group_ok:
  assumes ok: "mailbox_ok env db" and given: "valid_config c" "binding_ok b" "0 \<le> now"
    and ensured: "ensure_group env b now (policy_of_config c) db = Inr db'"
  shows "mailbox_ok env db'" "group_of db' (cb_group b) \<noteq> None"
proof -
  have born: "group_ok (born_group b now (policy_of_config c))" by (rule policy_group_ok [OF given])
  show "mailbox_ok env db'"
    using ensured ok born_group_ok [OF ok _ born] 
    by (auto simp: ensure_group_def Let_def born_group_def split: option.splits if_splits)
  show "group_of db' (cb_group b) \<noteq> None"
    using ensured by (auto simp: ensure_group_def Let_def split: option.splits if_splits)
qed

lemma count_refusal_ok:
  assumes ok: "mailbox_ok env db" and group: "group_of db gid \<noteq> None" and counted: "count_refusal gid reason db = Inr db'"
  shows "mailbox_ok env db'"
proof -
  note parts = mailbox_okD [OF ok]
  have reason: "reason \<in> set REFUSALS" using counted by (auto simp: count_refusal_def split: if_splits)
  have others: "groups db' = groups db" "admissions db' = admissions db" "endpoints db' = endpoints db"
    "milestones db' = milestones db" "handoff_reports db' = handoff_reports db"
    using counted by (auto simp: count_refusal_def split: if_splits option.splits)
  then have reads: "group_of db' = group_of db" "fact_at db' = fact_at db" "report_of db' = report_of db"
    "charge_of db' = charge_of db" "sender_times db' = sender_times db"
    by (simp_all add: group_of_def fact_at_def report_of_def charge_of_def sender_times_def fun_eq_iff)
  have "unique_key (\<lambda>r. (rc_group r, rc_reason r)) (refusal_counts db')"
    using counted parts(1)
    by (auto simp: count_refusal_def keys_ok_def unique_key_def find_row_None map_key_update_rows split: if_splits option.splits)
  then have "keys_ok db'" using parts(1) by (simp add: keys_ok_def others)
  moreover have rows: "r \<in> set (refusal_counts db) \<or> r = \<lparr>rc_group = gid, rc_reason = reason, rc_count = 1\<rparr> \<or>
      (\<exists>s \<in> set (refusal_counts db). rc_count s < MAX_COUNTER \<and> r = s\<lparr>rc_count := rc_count s + 1\<rparr>)"
    if "r \<in> set (refusal_counts db')" for r
    using that counted by (auto simp: count_refusal_def update_rows_def split: if_splits option.splits)
  have "refusals_ok db'"
    unfolding refusals_ok_def
  proof
    fix r assume "r \<in> set (refusal_counts db')"
    then show "group_of db' (rc_group r) \<noteq> None \<and> rc_reason r \<in> set REFUSALS \<and> 1 \<le> rc_count r \<and> rc_count r \<le> MAX_COUNTER"
      using rows parts(6) group reason by (fastforce simp: refusals_ok_def reads MAX_COUNTER_def)
  qed
  ultimately show ?thesis
    using parts(2,3,4,5,7)
    by (simp add: mailbox_ok_parts groups_ok_def endpoints_ok_def limits_ok_def no_orphans_def row_ok_def others reads)
qed

lemma put_endpoint_ok:
  assumes ok: "mailbox_ok env db" and group: "group_of db (en_group e) = Some g" and e: "endpoint_ok g e"
  shows "mailbox_ok env (db\<lparr>endpoints := put_row (\<lambda>e. (en_group e, en_member e)) e (endpoints db)\<rparr>)"
proof -
  define db' where "db' = db\<lparr>endpoints := put_row (\<lambda>e. (en_group e, en_member e)) e (endpoints db)\<rparr>"
  note parts = mailbox_okD [OF ok]
  have reads: "group_of db' = group_of db" "fact_at db' = fact_at db" "report_of db' = report_of db"
    "charge_of db' = charge_of db" "sender_times db' = sender_times db"
    by (simp_all add: db'_def group_of_def fact_at_def report_of_def charge_of_def sender_times_def fun_eq_iff)
  have "endpoints_ok db'"
    using parts(3) group e set_put_row_subset [of "\<lambda>e. (en_group e, en_member e)" e "endpoints db"]
    unfolding endpoints_ok_def reads by (auto simp: db'_def)
  moreover have "keys_ok db'" using parts(1) by (simp add: keys_ok_def db'_def unique_put_row)
  ultimately have "mailbox_ok env db'"
    using parts(2,4,5,6,7)
    by (simp add: mailbox_ok_parts groups_ok_def refusals_ok_def limits_ok_def no_orphans_def row_ok_def reads) (simp add: db'_def)
  then show ?thesis by (simp add: db'_def)
qed

end
