(* ===== verification/Comms_Messages_Laws.thy ===== *)
theory Comms_Messages_Laws
  imports Comms_Writes
begin

text \<open>
  Every write of \<^verbatim>\<open>_messages.py\<close> leaves a mailbox the verifier accepts: admission within the limits, expiry,
  tombstoning, preparation, acknowledgement and the hand-off facts. \<open>within\<close> is the state an operation works in: the
  mailbox verifies and the group's clock shows the operation's time.
\<close>

definition within :: "comms_env \<Rightarrow> string \<Rightarrow> int \<Rightarrow> comms_db \<Rightarrow> bool" where
  "within env gid now db \<longleftrightarrow> mailbox_ok env db \<and> (\<exists>g. group_of db gid = Some g \<and> gr_time g = now)"

lemma within_mailbox: "within env gid now db \<Longrightarrow> mailbox_ok env db"
  by (simp add: within_def)

section \<open>Admission\<close>

text \<open>What the model takes as given of SHA-256, of drawn identifiers and of the tracing library.\<close>

definition env_ok :: "comms_env \<Rightarrow> bool" where
  "env_ok env \<longleftrightarrow> (\<forall>s. is_hex 64 (ce_sha256 env s))"

definition draws_ok :: "comms_draws \<Rightarrow> bool" where
  "draws_ok w \<longleftrightarrow> (\<forall>n. is_hex 32 (dw_message w n)) \<and> is_hex 32 (dw_token w) \<and>
     (\<forall>t. dw_traceparent w = Some t \<longrightarrow> valid_traceparent t)"

lemma next_rowid_pos: "1 \<le> next_rowid db"
proof -
  have "n \<le> fold (\<lambda>a n. max (ad_rowid a) n) rows n" for n rows
    by (induction rows arbitrary: n) (auto intro: order_trans [OF max.cobounded2])
  then show ?thesis by (simp add: next_rowid_def)
qed

lemma append_admission_ok:
  fixes a db g
  defines "db' \<equiv> db\<lparr>admissions := admissions db @ [a], groups := update_rows gr_id (ad_group a) (\<lambda>g. g\<lparr>gr_charge := gr_charge g + 1\<rparr>) (groups db),
    milestones := milestones db @ [\<lparr>ms_message = ad_message a, ms_fact = ''admitted'', ms_at = ad_admitted_at a\<rparr>]\<rparr>"
  assumes ok: "mailbox_ok env db" and g: "group_of db (ad_group a) = Some g" "gr_time g = ad_admitted_at a"
    and fresh: "message_row db (ad_message a) = None"
      "\<And>x. x \<in> set (admissions db) \<Longrightarrow> (ad_group x, ad_sender x, ad_key x) \<noteq> (ad_group a, ad_sender a, ad_key a)"
    and a: "admission_ok g a" "ad_state a = PENDING"
    and room: "gr_charge g < gr_group_limit g" "outstanding (ad_group a) (ad_recipient a) (admissions db) < gr_outstanding_limit g"
      "window_count (ad_admitted_at a) (sender_times db (ad_group a) (ad_sender a)) < gr_rate_limit g"
  shows "mailbox_ok env db'" "fact_at db' (ad_message a) = [''admitted'' \<mapsto> ad_admitted_at a]"
    "m \<noteq> ad_message a \<Longrightarrow> fact_at db' m = fact_at db m" "report_of db' = report_of db"
    "group_of db' i = (if i = ad_group a then Some (g\<lparr>gr_charge := gr_charge g + 1\<rparr>) else group_of db i)"
proof -
  note parts = mailbox_okD [OF ok]
  note look = keys_lookups [OF parts(1)]
  have new: "ad_message a \<notin> ad_message ` set (admissions db)" using fresh(1) by (simp add: message_row_def find_row_None)
  have no_fact: "ms_message r \<noteq> ad_message a" if "r \<in> set (milestones db)" for r
    using new parts(5) imageI [OF that, of ms_message] unfolding no_orphans_def by (metis subsetD)
  have no_report: "report_of db (ad_message a) = None"
    using new parts(5) by (auto simp: no_orphans_def report_of_def find_row_None)
  show groups': "group_of db' i = (if i = ad_group a then Some (g\<lparr>gr_charge := gr_charge g + 1\<rparr>) else group_of db i)" for i
    using g(1) by (simp add: db'_def group_of_def find_update_rows)
  have old_none: "fact_at db (ad_message a) = Map.empty" using no_fact by (simp add: fun_eq_iff fact_at_None)
  then have none: "find_row (\<lambda>r. (ms_message r, ms_fact r)) (ad_message a, f) (milestones db) = None" for f
    using fun_cong [OF old_none, of f] unfolding fact_at_def by simp
  show facts: "fact_at db' (ad_message a) = [''admitted'' \<mapsto> ad_admitted_at a]"
    by (auto simp: db'_def fact_at_def find_row_append none fun_eq_iff)
  show facts': "fact_at db' m = fact_at db m" if "m \<noteq> ad_message a" for m
    using that by (auto simp: db'_def fact_at_def find_row_append fun_eq_iff split: option.split)
  show reports: "report_of db' = report_of db" by (simp add: db'_def report_of_def fun_eq_iff)
  have wider: "\<exists>h'. group_of db' i = Some h' \<and> (\<forall>x. admission_ok h x \<longrightarrow> admission_ok h' x) \<and>
      (\<forall>x F R. message_ok env h x F R \<longrightarrow> message_ok env h' x F R) \<and> (\<forall>e. endpoint_ok h e \<longrightarrow> endpoint_ok h' e) \<and>
      gr_rate_limit h' = gr_rate_limit h \<and> gr_outstanding_limit h' = gr_outstanding_limit h" if "group_of db i = Some h" for i h
    using that g(1) by (auto simp: groups' admission_ok_def message_ok_def endpoint_ok_def)
  have "keys_ok db'"
  proof -
    have "map gr_id (groups db') = map gr_id (groups db)" by (simp add: db'_def)
    moreover have "(ad_group a, ad_sender a, ad_key a) \<notin> (\<lambda>a. (ad_group a, ad_sender a, ad_key a)) ` set (admissions db)"
      using fresh(2) by (metis (no_types, lifting) imageE)
    moreover have "(ad_message a, ''admitted'') \<notin> (\<lambda>r. (ms_message r, ms_fact r)) ` set (milestones db)"
    proof
      assume "(ad_message a, ''admitted'') \<in> (\<lambda>r. (ms_message r, ms_fact r)) ` set (milestones db)"
      then obtain r where "r \<in> set (milestones db)" "(ad_message a, ''admitted'') = (ms_message r, ms_fact r)" by (rule imageE)
      with no_fact [of r] show False by simp
    qed
    ultimately show ?thesis
      using parts(1) new unfolding keys_ok_def unique_key_def
      by (simp only: db'_def comms_db.simps map_append list.map distinct_append) simp
  qed
  moreover have "groups_ok db'"
  proof -
    have charge: "charge_of db' i = charge_of db i + (if i = ad_group a then 1 else 0)" for i
      by (simp add: charge_of_def db'_def)
    have "group_ok (h\<lparr>gr_charge := gr_charge h + 1\<rparr>) \<and> charge_of db' (ad_group a) = gr_charge h + 1"
      if "h \<in> set (groups db)" "gr_id h = ad_group a" for h
    proof -
      have "group_of db (ad_group a) = Some h" using that by (simp add: look(1))
      then have "h = g" using g(1) by simp
      then show ?thesis using that parts(2) room(1) charge [of "ad_group a"]
        by (auto simp: groups_ok_def group_ok_def group_checks_def)
    qed
    then show ?thesis using parts(2) charge by (auto simp: groups_ok_def db'_def update_rows_def)
  qed
  moreover have "endpoints_ok db'"
    unfolding endpoints_ok_def
  proof
    fix e assume "e \<in> set (endpoints db')"
    then obtain h where "group_of db (en_group e) = Some h" "endpoint_ok h e"
      using parts(3) by (auto simp: endpoints_ok_def db'_def)
    then show "\<exists>g. group_of db' (en_group e) = Some g \<and> endpoint_ok g e" using wider by blast
  qed
  moreover have "refusals_ok db'"
    using parts(6) by (auto simp: refusals_ok_def groups') (simp_all add: db'_def)
  moreover have "no_orphans db'" using parts(5) by (auto simp: no_orphans_def db'_def)
  moreover have "\<forall>x \<in> set (admissions db'). row_ok env db' x"
  proof
    fix x assume "x \<in> set (admissions db')"
    then consider "x = a" | "x \<in> set (admissions db)" by (auto simp: db'_def)
    then show "row_ok env db' x"
    proof cases
      case 1
      have "admission_ok (g\<lparr>gr_charge := gr_charge g + 1\<rparr>) a" using a(1) by (simp add: admission_ok_def)
      moreover have "message_ok env (g\<lparr>gr_charge := gr_charge g + 1\<rparr>) a [''admitted'' \<mapsto> ad_admitted_at a] None"
        using g(2) a(2)
        by (auto simp: message_ok_def MILESTONE_FACTS_def TERMINAL_MESSAGE_STATES_def message_states HANDOFF_FACTS_def)
      ultimately show ?thesis using 1 by (simp add: row_ok_def groups' facts reports no_report)
    next
      case 2
      then have "ad_message x \<noteq> ad_message a" using new by (metis imageI)
      then have same: "fact_at db' (ad_message x) = fact_at db (ad_message x)" by (rule facts')
      from parts(7) [OF 2] obtain h where "group_of db (ad_group x) = Some h" "admission_ok h x"
          "message_ok env h x (fact_at db (ad_message x)) (report_of db (ad_message x))" by (auto simp: row_ok_def)
      then show ?thesis using wider unfolding row_ok_def reports same by blast
    qed
  qed
  moreover have "limits_ok db'"
    unfolding limits_ok_def
  proof (intro ballI allI impI)
    fix x h' assume x: "x \<in> set (admissions db')" and h': "group_of db' (ad_group x) = Some h'"
    define ts where "ts = sender_times db (ad_group x) (ad_sender x)"
    obtain h where h: "group_of db (ad_group x) = Some h" "gr_rate_limit h' = gr_rate_limit h" "gr_outstanding_limit h' = gr_outstanding_limit h"
    proof (cases "ad_group x = ad_group a")
      case True
      then show thesis using that [of g] g(1) h' by (auto simp: groups')
    next
      case False
      then show thesis using that [of h'] h' by (auto simp: groups')
    qed
    have old_rate: "\<forall>t \<in> set ts. window_count t ts \<le> gr_rate_limit h"
    proof (cases "ts = []")
      case False
      then obtain y where y: "y \<in> set (admissions db)" "ad_group y = ad_group x" "ad_sender y = ad_sender x"
        by (auto simp: ts_def sender_times_def filter_empty_conv)
      with h(1) parts(4) show ?thesis by (auto simp: limits_ok_def rate_ok_iff ts_def)
    qed simp
    have times: "sender_times db' (ad_group x) (ad_sender x) =
        (if ad_group x = ad_group a \<and> ad_sender x = ad_sender a then ts @ [ad_admitted_at a] else ts)"
      by (auto simp: sender_times_def db'_def ts_def)
    have "rate_ok (gr_rate_limit h) (sender_times db' (ad_group x) (ad_sender x))"
    proof (cases "ad_group x = ad_group a \<and> ad_sender x = ad_sender a")
      case True
      then have "h = g" using h(1) g(1) by simp
      have "t \<le> ad_admitted_at a" if "t \<in> set ts" for t
      proof -
        from that obtain y where y: "y \<in> set (admissions db)" "ad_group y = ad_group x" "t = ad_admitted_at y"
          by (auto simp: ts_def sender_times_def)
        with parts(7) [of y] True g show ?thesis by (auto simp: row_ok_def admission_ok_def)
      qed
      then have before: "\<forall>t \<in> set ts. t \<le> ad_admitted_at a" by blast
      have few: "window_count (ad_admitted_at a) ts < gr_rate_limit h" using room(3) True \<open>h = g\<close> by (simp add: ts_def)
      have now: "sender_times db' (ad_group x) (ad_sender x) = ts @ [ad_admitted_at a]" using times True by argo
      show ?thesis unfolding rate_ok_iff now by (rule window_ok_admit [OF old_rate before few])
    next
      case False
      then show ?thesis using old_rate by (auto simp: times rate_ok_iff)
    qed
    moreover have "outstanding (ad_group x) (ad_recipient x) (admissions db') \<le> gr_outstanding_limit h" if "ad_state x = PENDING"
    proof (cases "ad_group x = ad_group a \<and> ad_recipient x = ad_recipient a")
      case True
      then have "h = g" using h(1) g(1) by simp
      with True room(2) a(2) show ?thesis by (simp add: db'_def outstanding_single)
    next
      case False
      then have "x \<in> set (admissions db)" using x by (auto simp: db'_def)
      with that h(1) parts(4) False show ?thesis by (auto simp: db'_def outstanding_single limits_ok_def)
    qed
    ultimately show "rate_ok (gr_rate_limit h') (sender_times db' (ad_group x) (ad_sender x)) \<and>
        (ad_state x = PENDING \<longrightarrow> outstanding (ad_group x) (ad_recipient x) (admissions db') \<le> gr_outstanding_limit h')"
      using h(2,3) by simp
  qed
  ultimately show "mailbox_ok env db'" by (simp add: mailbox_ok_parts)
qed

lemma limit_refusal_count: "recent_admissions db gid sender now = window_count now (sender_times db gid sender)"
  by (simp add: recent_admissions_def window_count_def conj_commute)

lemma limit_refusal_None:
  "limit_refusal db g sender recipient body now = None \<longleftrightarrow>
   int (length body) \<le> gr_body_limit g \<and> gr_charge g < gr_group_limit g \<and>
   live_bytes db (gr_id g) + int (length body) \<le> gr_body_budget g \<and>
   outstanding (gr_id g) recipient (admissions db) < gr_outstanding_limit g \<and>
   window_count now (sender_times db (gr_id g) sender) < gr_rate_limit g"
  by (auto simp: limit_refusal_def limit_refusal_count)

text \<open>An admission the limits let through leaves a mailbox that verifies, and adds exactly its row and its fact.\<close>

lemma insert_admission_ok:
  assumes state: "within env (cb_group b) now db" and g: "group_of db (cb_group b) = Some g"
    and given: "env_ok env" "draws_ok w" "binding_ok b" "0 \<le> ttl" "next_rowid db \<le> MAX_COUNTER"
    and valid: "envelope_refusal e = None" and limits: "limit_refusal db g (cb_member b) (nv_recipient e) (nv_body e) now = None"
    and inserted: "insert_admission env w b e now ttl db = Inr (a, db')"
  shows "a = new_admission env w b e now ttl db" "within env (cb_group b) now db'"
    "admissions db' = admissions db @ [a]" "message_row db (ad_message a) = None"
proof -
  have ok: "mailbox_ok env db" and time: "gr_time g = now" using state g by (auto simp: within_def)
  show a: "a = new_admission env w b e now ttl db"
    using inserted by (auto simp: insert_admission_def Let_def split: if_splits)
  have cols: "ad_group a = cb_group b" "ad_sender a = cb_member b" "ad_key a = nv_key e" "ad_admitted_at a = now"
    "ad_state a = PENDING" "ad_recipient a = nv_recipient e"
    by (simp_all add: a new_admission_def)
  have gid: "gr_id g = cb_group b" and "group_ok g"
    using g mailbox_okD(1,2) [OF ok] by (auto simp: keys_lookups(1) groups_ok_def)
  then have clock: "0 \<le> gr_created g" "gr_created g \<le> now" using time by (auto simp: group_ok_def group_checks_def)
  have "admission_ok g a"
    using clock time given envelope_valid [OF valid] limits next_rowid_pos [of db]
    by (auto simp: a new_admission_def admission_ok_def limit_refusal_None binding_ok_def draws_ok_def env_ok_def
        canonical_sha256_def MESSAGE_STATES_def SECOND_def)
  moreover show fresh: "message_row db (ad_message a) = None"
    using inserted unfolding a by (auto simp: insert_admission_def Let_def split: if_splits)
  moreover have "(ad_group x, ad_sender x, ad_key x) \<noteq> (ad_group a, ad_sender a, ad_key a)" if "x \<in> set (admissions db)" for x
    using inserted that unfolding a by (auto simp: insert_admission_def Let_def list_ex_iff split: if_splits)
  ultimately have done_ok: "mailbox_ok env (db\<lparr>admissions := admissions db @ [a],
      groups := update_rows gr_id (ad_group a) (\<lambda>g. g\<lparr>gr_charge := gr_charge g + 1\<rparr>) (groups db),
      milestones := milestones db @ [\<lparr>ms_message = ad_message a, ms_fact = ''admitted'', ms_at = ad_admitted_at a\<rparr>]\<rparr>)"
    using limits by (intro append_admission_ok(1) [OF ok]) (auto simp: cols g time limit_refusal_None gid)
  have db': "db' = db\<lparr>admissions := admissions db @ [a],
      groups := update_rows gr_id (ad_group a) (\<lambda>g. g\<lparr>gr_charge := gr_charge g + 1\<rparr>) (groups db),
      milestones := milestones db @ [\<lparr>ms_message = ad_message a, ms_fact = ''admitted'', ms_at = ad_admitted_at a\<rparr>]\<rparr>"
    using inserted cols by (auto simp: insert_admission_def insert_milestone_def update_group_def Let_def split: if_splits)
  then show "admissions db' = admissions db @ [a]" by simp
  have "group_of db' (cb_group b) = Some (g\<lparr>gr_charge := gr_charge g + 1\<rparr>)"
    using g by (simp add: db' group_of_def find_update_rows cols)
  then show "within env (cb_group b) now db'" using done_ok db' time by (auto simp: within_def)
qed

section \<open>Loops over messages\<close>

text \<open>What a statement about one message can see of it.\<close>

type_synonym message_view = "admission option \<times> (string \<rightharpoonup> int) \<times> handoff_report option"

definition view_of :: "comms_db \<Rightarrow> string \<Rightarrow> message_view" where
  "view_of db m = (message_row db m, fact_at db m, report_of db m)"

text \<open>
  The contract of a write to one message: under its precondition \<open>P\<close> on that message it succeeds, the mailbox still
  verifies, the group's clock still shows the operation's time, the message becomes what \<open>Q\<close> says and no other one
  is touched.
\<close>

locale message_writes =
  fixes msg :: "'i \<Rightarrow> string"
    and P :: "'x \<Rightarrow> string \<Rightarrow> 'i \<Rightarrow> message_view \<Rightarrow> bool"
    and Q :: "'x \<Rightarrow> int \<Rightarrow> 'i \<Rightarrow> message_view \<Rightarrow> message_view"
    and W :: "'x \<Rightarrow> int \<Rightarrow> 'i \<Rightarrow> comms_db \<Rightarrow> ahr_error + comms_db"
  assumes keeps: "within env gid now db \<Longrightarrow> P x gid i (view_of db (msg i)) \<Longrightarrow>
    \<exists>db'. W x now i db = Inr db' \<and> within env gid now db' \<and>
      view_of db' (msg i) = Q x now i (view_of db (msg i)) \<and> (\<forall>m. m \<noteq> msg i \<longrightarrow> view_of db' m = view_of db m)"
begin

lemma loop:
  assumes "within env gid now db" "distinct (map msg rows)" "\<And>i. i \<in> set rows \<Longrightarrow> P x gid i (view_of db (msg i))"
  shows "\<exists>db'. foldE (W x now) rows db = Inr db' \<and> within env gid now db' \<and>
    (\<forall>i \<in> set rows. view_of db' (msg i) = Q x now i (view_of db (msg i))) \<and>
    (\<forall>m. m \<notin> msg ` set rows \<longrightarrow> view_of db' m = view_of db m)"
  using assms
proof (induction rows arbitrary: db)
  case (Cons i rows)
  obtain db1 where db1: "W x now i db = Inr db1" "within env gid now db1" "view_of db1 (msg i) = Q x now i (view_of db (msg i))"
      "\<forall>m. m \<noteq> msg i \<longrightarrow> view_of db1 m = view_of db m"
    using keeps [OF Cons.prems(1) Cons.prems(3) [of i]] by auto
  have other: "msg j \<noteq> msg i" if "j \<in> set rows" for j
    using that Cons.prems(2) by (metis distinct.simps(2) image_eqI list.set_map list.simps(9))
  then have "P x gid j (view_of db1 (msg j))" if "j \<in> set rows" for j
    using that db1(4) Cons.prems(3) by (metis list.set_intros(2))
  then obtain db' where db': "foldE (W x now) rows db1 = Inr db'" "within env gid now db'"
      "\<forall>j \<in> set rows. view_of db' (msg j) = Q x now j (view_of db1 (msg j))"
      "\<forall>m. m \<notin> msg ` set rows \<longrightarrow> view_of db' m = view_of db1 m"
    using Cons.IH [OF db1(2)] Cons.prems(2) by fastforce
  have "msg i \<notin> msg ` set rows" using Cons.prems(2) by simp
  with db1 db' other show ?case by simp
qed simp

end

section \<open>The writes of one message\<close>

abbreviation (input) at_message :: "string \<Rightarrow> (admission \<Rightarrow> admission) \<Rightarrow> admission \<Rightarrow> admission" where
  "at_message m f \<equiv> (\<lambda>r. if ad_message r = m then f r else r)"

lemma message_write_within:
  assumes state: "within env gid now db" and a: "message_row db m = Some a" "ad_group a = gid" and f: "keeps_identity f"
    and facts: "fresh_facts db m facts" and reports: "fresh_reports db m reports"
    and row: "\<And>g. gr_time g = now \<Longrightarrow> admission_ok g a \<Longrightarrow> message_ok env g a (fact_at db m) (report_of db m) \<Longrightarrow>
        admission_ok g (f a) \<and> message_ok env g (f a) (fact_at db m ++ map_of facts) (if reports = [] then report_of db m else Some (hd reports))"
    and pending: "\<And>r. ad_state (f r) = PENDING \<Longrightarrow> ad_state r = PENDING"
  shows "within env gid now (message_write m (at_message m f) facts reports db) \<and>
    view_of (message_write m (at_message m f) facts reports db) m =
      (Some (f a), fact_at db m ++ map_of facts, if reports = [] then report_of db m else Some (hd reports)) \<and>
    (\<forall>m'. m' \<noteq> m \<longrightarrow> view_of (message_write m (at_message m f) facts reports db) m' = view_of db m')"
proof (intro conjI)
  obtain g where g: "group_of db gid = Some g" "gr_time g = now" and ok: "mailbox_ok env db" using state by (auto simp: within_def)
  have "mailbox_ok env (message_write m (at_message m f) facts reports db)"
    using row g a by (intro message_write_ok [OF ok a(1) f facts reports _ pending]) auto
  with g show "within env gid now (message_write m (at_message m f) facts reports db)" by (simp add: within_def)
  have at: "keeps_identity (at_message m f)" using keeps_identityD [OF f] by (simp add: keeps_identity_def)
  have "ad_message a = m" using a(1) by (auto simp: message_row_def dest!: find_row_Some_D)
  then show "view_of (message_write m (at_message m f) facts reports db) m =
      (Some (f a), fact_at db m ++ map_of facts, if reports = [] then report_of db m else Some (hd reports))"
    using at a(1) by (auto simp: view_of_def message_row_message_write fact_at_message_write [OF facts] report_of_message_write [OF reports])
  have "map_option (at_message m f) (message_row db m') = message_row db m'" if "m' \<noteq> m" for m'
    using that by (cases "message_row db m'") (auto simp: message_row_def dest!: find_row_Some_D)
  then show "\<forall>m'. m' \<noteq> m \<longrightarrow> view_of (message_write m (at_message m f) facts reports db) m' = view_of db m'"
    using at by (simp add: view_of_def message_row_message_write fact_at_message_write [OF facts] report_of_message_write [OF reports])
qed

lemma message_state:
  assumes "within env gid now db" "message_row db m = Some a"
  shows "\<exists>g. group_of db (ad_group a) = Some g \<and> admission_ok g a \<and> message_ok env g a (fact_at db m) (report_of db m)"
proof -
  have ok: "mailbox_ok env db" using assms(1) by (simp add: within_def)
  have "a \<in> set (admissions db)" "ad_message a = m" using assms(2) by (simp_all add: keys_lookups(2) [OF mailbox_okD(1) [OF ok]])
  with mailbox_okD(7) [OF ok] show ?thesis by (auto simp: row_ok_def)
qed

lemma pending_facts:
  assumes "message_ok env g a F R" "ad_state a = PENDING"
  shows "F ACKED = None" "F EXPIRED = None"
  using assms by (auto simp: message_ok_def TERMINAL_MESSAGE_STATES_def message_states)

lemmas fact_names = message_states MILESTONE_FACTS_def TERMINAL_MESSAGE_STATES_def HANDOFF_FACTS_def

lemma expired_message_ok:
  assumes "gr_time g = now" "admission_ok g a" "message_ok env g a F R" "ad_state a = PENDING"
  shows "admission_ok g (a\<lparr>ad_state := EXPIRED\<rparr>) \<and> message_ok env g (a\<lparr>ad_state := EXPIRED\<rparr>) (F(EXPIRED \<mapsto> now)) R"
  using assms pending_facts [OF assms(3,4)]
  by (auto simp: admission_ok_def message_ok_def fact_names MESSAGE_STATES_def split: option.splits)

lemma acked_message_ok:
  assumes "gr_time g = now" "admission_ok g a" "message_ok env g a F R" "ad_state a = PENDING"
  shows "admission_ok g (a\<lparr>ad_state := ACKED\<rparr>) \<and> message_ok env g (a\<lparr>ad_state := ACKED\<rparr>) (F(ACKED \<mapsto> now)) R"
  using assms pending_facts [OF assms(3,4)]
  by (auto simp: admission_ok_def message_ok_def fact_names MESSAGE_STATES_def split: option.splits)

lemma keeps_columns [simp]:
  "keeps_identity (ad_state_update (\<lambda>_. s))" "keeps_identity (\<lambda>r. r)" "keeps_identity (ad_body_update (\<lambda>_. s))"
  "keeps_identity (\<lambda>r. r\<lparr>ad_delivery_count := ad_delivery_count r + 1, ad_incarnation := s\<rparr>)"
  by (simp_all add: keeps_identity_def)

text \<open>The statements, as writes to one message.\<close>

lemma update_message_write:
  "update_message m f (db\<lparr>milestones := milestones db @ [\<lparr>ms_message = m, ms_fact = x, ms_at = t\<rparr>]\<rparr>) =
   message_write m (at_message m f) [(x, t)] [] db"
  "update_message m f db = message_write m (at_message m f) [] [] db"
  by (simp_all add: update_message_def message_write_def update_rows_def)

lemma insert_milestone_write:
  "fact_at db m x = None \<Longrightarrow> insert_milestone m x t db = Inr (message_write m (at_message m (\<lambda>r. r)) [(x, t)] [] db)"
  "fact_at db m x = None \<Longrightarrow> add_milestone m x t db = message_write m (at_message m (\<lambda>r. r)) [(x, t)] [] db"
  by (simp_all add: insert_milestone_def add_milestone_def message_write_def)

lemma fresh_fact [simp]: "fresh_facts db m [(x, t)] \<longleftrightarrow> fact_at db m x = None"
  by (simp add: fresh_facts_def)

definition is_pending_here :: "unit \<Rightarrow> string \<Rightarrow> admission \<Rightarrow> message_view \<Rightarrow> bool" where
  "is_pending_here u gid a v \<longleftrightarrow> fst v = Some a \<and> ad_group a = gid \<and> ad_state a = PENDING"

definition expired_view :: "unit \<Rightarrow> int \<Rightarrow> admission \<Rightarrow> message_view \<Rightarrow> message_view" where
  "expired_view u now a v = (Some (a\<lparr>ad_state := EXPIRED\<rparr>), (fst (snd v))(EXPIRED \<mapsto> now), snd (snd v))"

interpretation expiring: message_writes ad_message is_pending_here expired_view "\<lambda>u now a db. Inr (expire_row now a db)"
proof
  fix env gid now db a and x :: unit
  assume state: "within env gid now db" and p: "is_pending_here x gid a (view_of db (ad_message a))"
  define m where "m = ad_message a"
  have a: "message_row db m = Some a" "ad_group a = gid" "ad_state a = PENDING" using p by (auto simp: is_pending_here_def view_of_def m_def)
  have none: "fact_at db m EXPIRED = None" using message_state [OF state a(1)] pending_facts a(3) by blast
  then have as_write: "expire_row now a db = message_write m (at_message m (ad_state_update (\<lambda>_. EXPIRED))) [(EXPIRED, now)] [] db"
    by (simp add: expire_row_def add_milestone_def update_message_write(1) m_def)
  show "\<exists>db'. Inr (expire_row now a db) = Inr db' \<and> within env gid now db' \<and>
      view_of db' (ad_message a) = expired_view x now a (view_of db (ad_message a)) \<and> (\<forall>m. m \<noteq> ad_message a \<longrightarrow> view_of db' m = view_of db m)"
    using message_write_within [OF state a(1,2), of "ad_state_update (\<lambda>_. EXPIRED)" "[(EXPIRED, now)]" "[]"] none
      expired_message_ok a(3)
    by (simp add: as_write m_def message_states expired_view_def view_of_def)
qed

definition is_held_here :: "unit \<Rightarrow> string \<Rightarrow> admission \<Rightarrow> message_view \<Rightarrow> bool" where
  "is_held_here u gid a v \<longleftrightarrow> fst v = Some a \<and> ad_group a = gid \<and> ad_state a \<in> {PENDING, ACKED}"

definition acked_view :: "unit \<Rightarrow> int \<Rightarrow> admission \<Rightarrow> message_view \<Rightarrow> message_view" where
  "acked_view u now a v =
     (if ad_state a = ACKED then v else (Some (a\<lparr>ad_state := ACKED\<rparr>), (fst (snd v))(ACKED \<mapsto> now), snd (snd v)))"

interpretation acking: message_writes ad_message is_held_here acked_view "\<lambda>u. acknowledge_row"
proof
  fix env gid now db a and x :: unit
  assume state: "within env gid now db" and p: "is_held_here x gid a (view_of db (ad_message a))"
  define m where "m = ad_message a"
  have a: "message_row db m = Some a" "ad_group a = gid" "ad_state a = PENDING \<or> ad_state a = ACKED"
    using p by (auto simp: is_held_here_def view_of_def m_def)
  show "\<exists>db'. acknowledge_row now a db = Inr db' \<and> within env gid now db' \<and>
      view_of db' (ad_message a) = acked_view x now a (view_of db (ad_message a)) \<and> (\<forall>m. m \<noteq> ad_message a \<longrightarrow> view_of db' m = view_of db m)"
  proof (cases "ad_state a = ACKED")
    case True
    with state show ?thesis by (simp add: acknowledge_row_def acked_view_def)
  next
    case False
    with a have p: "ad_state a = PENDING" by blast
    have none: "fact_at db m ACKED = None" using message_state [OF state a(1)] pending_facts p by blast
    have as_write: "acknowledge_row now a db = Inr (message_write m (at_message m (ad_state_update (\<lambda>_. ACKED))) [(ACKED, now)] [] db)"
      using False none by (simp add: acknowledge_row_def insert_milestone_def update_message_write(1) m_def)
    then show ?thesis
      using message_write_within [OF state a(1,2), of "ad_state_update (\<lambda>_. ACKED)" "[(ACKED, now)]" "[]"] none
        acked_message_ok p
      by (simp add: m_def message_states acked_view_def view_of_def)
  qed
qed

lemma prepared_message_ok:
  assumes "gr_time g = now" "admission_ok g a" "message_ok env g a F R" "ad_state a = PENDING"
    "is_hex 32 inc" "ad_delivery_count a < MAX_COUNTER" "F ''fetch_prepared'' = None"
  shows "admission_ok g (a\<lparr>ad_delivery_count := ad_delivery_count a + 1, ad_incarnation := inc\<rparr>)"
    "message_ok env g (a\<lparr>ad_delivery_count := ad_delivery_count a + 1, ad_incarnation := inc\<rparr>) (F(''fetch_prepared'' \<mapsto> now)) R"
    "message_ok env g a (F(''fetch_prepared'' \<mapsto> now)) R"
  using assms
  by (auto simp: admission_ok_def message_ok_def fact_names MESSAGE_STATES_def split: option.splits)

lemma redelivered_message_ok:
  assumes "admission_ok g a" "message_ok env g a F R" "is_hex 32 inc" "ad_delivery_count a < MAX_COUNTER"
  shows "admission_ok g (a\<lparr>ad_delivery_count := ad_delivery_count a + 1, ad_incarnation := inc\<rparr>)"
    "message_ok env g (a\<lparr>ad_delivery_count := ad_delivery_count a + 1, ad_incarnation := inc\<rparr>) F R"
  using assms by (auto simp: admission_ok_def message_ok_def fact_names MESSAGE_STATES_def split: option.splits)

definition is_fetchable_here :: "string \<Rightarrow> string \<Rightarrow> admission \<Rightarrow> message_view \<Rightarrow> bool" where
  "is_fetchable_here inc gid a v \<longleftrightarrow> fst v = Some a \<and> ad_group a = gid \<and> ad_state a = PENDING \<and> is_hex 32 inc \<and>
     ad_delivery_count a < MAX_COUNTER"

definition prepared_row :: "string \<Rightarrow> admission \<Rightarrow> admission" where
  "prepared_row inc a =
     (if ad_incarnation a = inc then a else a\<lparr>ad_delivery_count := ad_delivery_count a + 1, ad_incarnation := inc\<rparr>)"

definition prepared_view :: "string \<Rightarrow> int \<Rightarrow> admission \<Rightarrow> message_view \<Rightarrow> message_view" where
  "prepared_view inc now a v =
     (Some (prepared_row inc a),
      if fst (snd v) ''fetch_prepared'' = None then (fst (snd v))(''fetch_prepared'' \<mapsto> now) else fst (snd v), snd (snd v))"

interpretation preparing: message_writes ad_message is_fetchable_here prepared_view "\<lambda>inc now a db. Inr (prepare_row now inc a db)"
proof
  fix env gid now db a inc
  assume state: "within env gid now db" and p: "is_fetchable_here inc gid a (view_of db (ad_message a))"
  define m where "m = ad_message a"
  have a: "message_row db m = Some a" "ad_group a = gid" "ad_state a = PENDING" "is_hex 32 inc" "ad_delivery_count a < MAX_COUNTER"
    using p by (auto simp: is_fetchable_here_def view_of_def m_def)
  define facts where "facts = (if fact_at db m ''fetch_prepared'' = None then [(''fetch_prepared'', now)] else [])"
  define f :: "admission \<Rightarrow> admission" where
    "f = (if ad_incarnation a \<noteq> inc then (\<lambda>r. r\<lparr>ad_delivery_count := ad_delivery_count r + 1, ad_incarnation := inc\<rparr>) else (\<lambda>r. r))"
  have fresh: "fresh_facts db m facts" and f: "keeps_identity f" by (simp_all add: facts_def f_def)
  have as_write: "prepare_row now inc a db = message_write m (at_message m f) facts [] db"
    by (cases "ad_incarnation a = inc"; cases "fact_at db m ''fetch_prepared''")
      (simp_all add: prepare_row_def add_milestone_def Let_def f_def facts_def m_def update_message_def update_rows_def message_write_def cong: if_cong)
  have row: "admission_ok g (f a) \<and> message_ok env g (f a) (fact_at db m ++ map_of facts) (if [] = ([] :: handoff_report list) then report_of db m else Some (hd []))"
    if "gr_time g = now" "admission_ok g a" "message_ok env g a (fact_at db m) (report_of db m)" for g
    using prepared_message_ok [OF that a(3-5)] redelivered_message_ok [OF that(2,3) a(4,5)] that(2,3)
    by (auto simp: f_def facts_def)
  have state_kept: "ad_state r = PENDING" if "ad_state (f r) = PENDING" for r using that by (simp add: f_def split: if_splits)
  define db' where "db' = message_write m (at_message m f) facts [] db"
  have wrote: "within env gid now db' \<and>
      view_of db' m = (Some (f a), fact_at db m ++ map_of facts, if [] = ([] :: handoff_report list) then report_of db m else Some (hd [])) \<and>
      (\<forall>m'. m' \<noteq> m \<longrightarrow> view_of db' m' = view_of db m')"
    unfolding db'_def by (rule message_write_within [OF state a(1,2) f fresh fresh_nil(2) row state_kept])
  then have "view_of db' m = prepared_view inc now a (view_of db m)"
    by (auto simp: prepared_view_def prepared_row_def view_of_def f_def facts_def)
  with wrote show "\<exists>db'. Inr (prepare_row now inc a db) = Inr db' \<and> within env gid now db' \<and>
      view_of db' (ad_message a) = prepared_view inc now a (view_of db (ad_message a)) \<and>
      (\<forall>m. m \<noteq> ad_message a \<longrightarrow> view_of db' m = view_of db m)"
    unfolding as_write m_def [symmetric] db'_def [symmetric] by blast
qed

text \<open>The fact each hand-off fact requires before it.\<close>

definition fact_before :: "string \<Rightarrow> string" where
  "fact_before f = (if f = ''accepted'' then ACKED else if f = ''reported'' then ''accepted'' else ''reported'')"

lemma recorded_message_ok:
  assumes "gr_time g = now" "admission_ok g a" "message_ok env g a F R" "ad_kind a = ''request''"
    "f \<in> {''accepted'', ''completed''}" "F f = None" "F (fact_before f) \<noteq> None"
  shows "message_ok env g a (F(f \<mapsto> now)) R"
proof -
  from assms(5) consider "f = ''accepted''" | "f = ''completed''" by blast
  then show ?thesis
  proof cases
    case 1
    then show ?thesis using assms(1-4,6,7) by (auto simp: admission_ok_def message_ok_def fact_names fact_before_def split: option.splits)
  next
    case 2
    then show ?thesis using assms(1-4,6,7) by (auto simp: admission_ok_def message_ok_def fact_names fact_before_def split: option.splits)
  qed
qed

lemma reported_message_ok:
  assumes "gr_time g = now" "admission_ok g a" "message_ok env g a F R" "ad_kind a = ''request''"
    "F ''reported'' = None" "F ''accepted'' \<noteq> None" "valid_next_read env p"
  shows "message_ok env g a (F(''reported'' \<mapsto> now)) (Some \<lparr>hr_message = m, hr_next_read = p, hr_reported_at = now\<rparr>)"
  using assms by (auto simp: admission_ok_def message_ok_def fact_names split: option.splits)

definition is_recordable :: "string \<Rightarrow> string \<Rightarrow> admission \<times> (string \<rightharpoonup> int) \<Rightarrow> message_view \<Rightarrow> bool" where
  "is_recordable f gid c v \<longleftrightarrow> f \<in> {''accepted'', ''completed''} \<and>
     (case v of (Some a, F, R) \<Rightarrow> ad_group a = gid \<and> ad_kind a = ''request'' \<and> (snd c f = None \<longrightarrow> F f = None) \<and> F (fact_before f) \<noteq> None
      | _ \<Rightarrow> False)"

definition recorded_view :: "string \<Rightarrow> int \<Rightarrow> admission \<times> (string \<rightharpoonup> int) \<Rightarrow> message_view \<Rightarrow> message_view" where
  "recorded_view f now c v = (if snd c f = None then (fst v, (fst (snd v))(f \<mapsto> now), snd (snd v)) else v)"

interpretation recording: message_writes "ad_message \<circ> fst" is_recordable recorded_view record_fact
proof
  fix env gid now db c f
  assume state: "within env gid now db" and p: "is_recordable f gid c (view_of db ((ad_message \<circ> fst) c))"
  define m where "m = ad_message (fst c)"
  obtain a where a: "message_row db m = Some a" "ad_group a = gid" "ad_kind a = ''request''" "fact_at db m (fact_before f) \<noteq> None"
    and f: "f \<in> {''accepted'', ''completed''}" "snd c f = None \<longrightarrow> fact_at db m f = None"
    using p by (auto simp: is_recordable_def view_of_def m_def split: option.splits)
  show "\<exists>db'. record_fact f now c db = Inr db' \<and> within env gid now db' \<and>
      view_of db' ((ad_message \<circ> fst) c) = recorded_view f now c (view_of db ((ad_message \<circ> fst) c)) \<and> (\<forall>m. m \<noteq> (ad_message \<circ> fst) c \<longrightarrow> view_of db' m = view_of db m)"
  proof (cases "snd c f = None")
    case True
    with f(2) have none: "fact_at db m f = None" by simp
    have "record_fact f now c db = Inr (message_write m (at_message m (\<lambda>r. r)) [(f, now)] [] db)"
      using True insert_milestone_write(1) [OF none] by (simp add: record_fact_def m_def)
    then show ?thesis
      using message_write_within [OF state a(1,2) keeps_columns(2), of "[(f, now)]" "[]"] none
        recorded_message_ok [OF _ _ _ a(3) f(1) none a(4)] True a(1)
      by (simp add: m_def recorded_view_def view_of_def)
  next
    case False
    with state show ?thesis by (auto simp: record_fact_def recorded_view_def)
  qed
qed

end
