(* ===== verification/Comms_Endpoints.thy ===== *)
theory Comms_Endpoints
  imports Comms_Messages_Laws
begin

text \<open>
  Endpoint generation and consumer fencing (\<^verbatim>\<open>src/trw_mcp/comms/_endpoints.py\<close>).

  \<^item> \<open>process_memory\<close> is what one serving process keeps in memory: the incarnations it owns and the bindings it was displaced
    from. An operation takes the memory and the mailbox; a refusal leaves the mailbox alone but can mark the binding displaced.
  \<^item> \<open>token\<close> is what \<^verbatim>\<open>secrets.token_hex(16)\<close> draws.
  \<^item> \<open>Comms_Fencing\<close> puts several processes together.
\<close>

section \<open>The memory of a process\<close>

type_synonym owner_key = "string \<times> string \<times> string \<times> string"

record process_memory =
  pm_incarnations :: "owner_key \<rightharpoonup> string"
  pm_displaced :: "owner_key set"

definition ownership_key :: "comms_env \<Rightarrow> CallerBinding \<Rightarrow> owner_key" where
  "ownership_key env b = (cb_group b, cb_member b, ce_resolve env (cb_run b), cb_session b)"

definition COLLISION :: ahr_error where
  "COLLISION = EndpointError ''live_endpoint_held_by_other_incarnation''"

definition FENCED :: ahr_error where
  "FENCED = EndpointError ''endpoint_replaced_by_newer_incarnation''"

definition NOT_ENROLLED :: ahr_error where
  "NOT_ENROLLED = EndpointError ''no_endpoint_for_member''"

record Endpoint =
  ep_group :: string
  ep_member :: string
  ep_session :: string
  ep_run :: string
  ep_enrolled :: int
  ep_seen :: int
  ep_lease :: int
  ep_generation :: int

definition is_live :: "Endpoint \<Rightarrow> int \<Rightarrow> bool" where
  "is_live e now \<longleftrightarrow> now < ep_lease e"

definition row_to_endpoint :: "endpoint_row \<Rightarrow> Endpoint" where
  "row_to_endpoint r =
     \<lparr>ep_group = en_group r, ep_member = en_member r, ep_session = en_session r, ep_run = en_run r, ep_enrolled = en_enrolled r,
      ep_seen = en_seen r, ep_lease = en_lease r, ep_generation = en_generation r\<rparr>"

section \<open>Fencing\<close>

definition is_displaced :: "process_memory \<Rightarrow> owner_key \<Rightarrow> endpoint_row option \<Rightarrow> string option \<Rightarrow> bool" where
  "is_displaced mem key row mine \<longleftrightarrow>
     key \<in> pm_displaced mem \<or> (case (row, mine) of (Some r, Some i) \<Rightarrow> en_incarnation r \<noteq> i | _ \<Rightarrow> False)"

definition assert_not_displaced ::
    "owner_key \<Rightarrow> endpoint_row option \<Rightarrow> string option \<Rightarrow> process_memory \<Rightarrow> (ahr_error + unit) \<times> process_memory" where
  "assert_not_displaced key row mine mem =
     (if is_displaced mem key row mine then (Inl FENCED, mem\<lparr>pm_displaced := insert key (pm_displaced mem)\<rparr>) else (Inr (), mem))"

definition current ::
    "comms_env \<Rightarrow> CallerBinding \<Rightarrow> bool \<Rightarrow> comms_db \<Rightarrow> process_memory \<Rightarrow>
     (ahr_error + endpoint_row option \<times> string option) \<times> process_memory" where
  "current env b require_row db mem =
     (let key = ownership_key env b; row = endpoint_of db (cb_group b) (cb_member b); mine = pm_incarnations mem key;
          (checked, mem') = assert_not_displaced key row mine mem
      in (bindE checked (\<lambda>_. if require_row \<and> row = None then Inl NOT_ENROLLED else Inr (row, mine)), mem'))"

definition renew :: "CallerBinding \<Rightarrow> int \<Rightarrow> int \<Rightarrow> comms_db \<Rightarrow> comms_db" where
  "renew b now ttl_seconds db =
     db\<lparr>endpoints := update_rows (\<lambda>e. (en_group e, en_member e)) (cb_group b, cb_member b)
       (\<lambda>e. e\<lparr>en_seen := now, en_lease := now + ttl_seconds * SECOND\<rparr>) (endpoints db)\<rparr>"

section \<open>The operations\<close>

definition enrolled_row :: "CallerBinding \<Rightarrow> int \<Rightarrow> int \<Rightarrow> endpoint_row option \<Rightarrow> string option \<Rightarrow> string \<Rightarrow> endpoint_row" where
  "enrolled_row b now ttl_seconds row mine token =
     (let renewing = (row \<noteq> None \<and> mine \<noteq> None) in
      \<lparr>en_group = cb_group b, en_member = cb_member b, en_incarnation = (if renewing then the mine else token),
       en_session = cb_session b, en_run = cb_run b,
       en_enrolled = (case row of Some r \<Rightarrow> if renewing then en_enrolled r else now | None \<Rightarrow> now), en_seen = now,
       en_lease = now + ttl_seconds * SECOND,
       en_generation = (case row of None \<Rightarrow> 1 | Some r \<Rightarrow> en_generation r + (if renewing then 0 else 1)),
       en_protocol = ENDPOINT_PROTOCOL\<rparr>)"

text \<open>The endpoint \<open>enroll\<close> returns does not carry the generation: the dataclass default stays.\<close>

definition enroll ::
    "comms_env \<Rightarrow> string \<Rightarrow> CallerBinding \<Rightarrow> int \<Rightarrow> int \<Rightarrow> comms_db \<Rightarrow> process_memory \<Rightarrow>
     (ahr_error + (Endpoint \<times> string) \<times> comms_db) \<times> process_memory" where
  "enroll env token b now ttl_seconds db mem =
     (let (found, mem') = current env b False db mem in
      (bindE found (\<lambda>(row, mine).
        let e = enrolled_row b now ttl_seconds row mine token in
        Inr (((row_to_endpoint e)\<lparr>ep_generation := 1\<rparr>, en_incarnation e),
          db\<lparr>endpoints := put_row (\<lambda>e. (en_group e, en_member e)) e (endpoints db)\<rparr>)), mem'))"

definition held ::
    "comms_env \<Rightarrow> CallerBinding \<Rightarrow> comms_db \<Rightarrow> process_memory \<Rightarrow> (ahr_error + endpoint_row \<times> string) \<times> process_memory" where
  "held env b db mem =
     (let (found, mem') = current env b True db mem in
      (bindE found (\<lambda>(row, mine). case (row, mine) of (Some r, Some i) \<Rightarrow> Inr (r, i) | _ \<Rightarrow> Inl FENCED), mem'))"

definition heartbeat ::
    "comms_env \<Rightarrow> CallerBinding \<Rightarrow> int \<Rightarrow> int \<Rightarrow> comms_db \<Rightarrow> process_memory \<Rightarrow>
     (ahr_error + Endpoint \<times> comms_db) \<times> process_memory" where
  "heartbeat env b now ttl_seconds db mem =
     (let (found, mem') = held env b db mem in
      (bindE found (\<lambda>(row, _). Inr
        (\<lparr>ep_group = cb_group b, ep_member = cb_member b, ep_session = cb_session b, ep_run = cb_run b,
          ep_enrolled = en_enrolled row, ep_seen = now, ep_lease = now + ttl_seconds * SECOND, ep_generation = 1\<rparr>,
         renew b now ttl_seconds db)), mem'))"

definition list_endpoints :: "comms_db \<Rightarrow> string \<Rightarrow> nat \<Rightarrow> string \<Rightarrow> Endpoint list" where
  "list_endpoints db gid limit after_member =
     map row_to_endpoint (take limit (sort_key en_member
       (filter (\<lambda>e. en_group e = gid \<and> after_member < en_member e) (endpoints db))))"

definition holds_endpoint :: "comms_env \<Rightarrow> CallerBinding \<Rightarrow> process_memory \<Rightarrow> bool" where
  "holds_endpoint env b mem \<longleftrightarrow>
     (let key = ownership_key env b in pm_incarnations mem key \<noteq> None \<and> key \<notin> pm_displaced mem)"

definition confirm_enrollment :: "comms_env \<Rightarrow> CallerBinding \<Rightarrow> string \<Rightarrow> process_memory \<Rightarrow> process_memory" where
  "confirm_enrollment env b incarnation mem =
     mem\<lparr>pm_incarnations := (pm_incarnations mem)(ownership_key env b \<mapsto> incarnation)\<rparr>"

definition receiver_incarnation ::
    "comms_env \<Rightarrow> CallerBinding \<Rightarrow> int \<Rightarrow> int \<Rightarrow> bool \<Rightarrow> comms_db \<Rightarrow> process_memory \<Rightarrow>
     (ahr_error + string \<times> comms_db) \<times> process_memory" where
  "receiver_incarnation env b now ttl_seconds renewal db mem =
     (let (found, mem') = held env b db mem in
      (bindE found (\<lambda>(_, mine). Inr (mine, if renewal then renew b now ttl_seconds db else db)), mem'))"

definition touch ::
    "comms_env \<Rightarrow> CallerBinding \<Rightarrow> int \<Rightarrow> int \<Rightarrow> bool \<Rightarrow> comms_db \<Rightarrow> process_memory \<Rightarrow>
     (ahr_error + comms_db) \<times> process_memory" where
  "touch env b now ttl_seconds refuse_displaced db mem =
     (if \<not> refuse_displaced
      then let key = ownership_key env b; row = endpoint_of db (cb_group b) (cb_member b); mine = pm_incarnations mem key in
        (Inr (if row \<noteq> None \<and> mine \<noteq> None \<and> \<not> is_displaced mem key row mine then renew b now ttl_seconds db else db), mem)
      else let (found, mem') = current env b False db mem in
        (bindE found (\<lambda>(row, mine). Inr (if row \<noteq> None \<and> mine \<noteq> None then renew b now ttl_seconds db else db)), mem'))"

section \<open>What they keep\<close>

lemma endpoints_write_ok:
  assumes state: "within env gid now db" and keys: "unique_key (\<lambda>e. (en_group e, en_member e)) es"
    and rows: "\<forall>e \<in> set es. \<exists>g. group_of db (en_group e) = Some g \<and> endpoint_ok g e"
  shows "within env gid now (db\<lparr>endpoints := es\<rparr>)" "view_of (db\<lparr>endpoints := es\<rparr>) = view_of db"
proof -
  define db' where "db' = db\<lparr>endpoints := es\<rparr>"
  note parts = mailbox_okD [OF within_mailbox [OF state]]
  have reads: "group_of db' = group_of db" "fact_at db' = fact_at db" "report_of db' = report_of db" "message_row db' = message_row db"
    "charge_of db' = charge_of db" "sender_times db' = sender_times db"
    by (simp_all add: db'_def group_of_def fact_at_def report_of_def charge_of_def sender_times_def message_row_def fun_eq_iff)
  have "endpoints_ok db'" using rows unfolding endpoints_ok_def reads by (simp add: db'_def)
  moreover have "keys_ok db'" using parts(1) keys by (simp add: keys_ok_def db'_def)
  ultimately have "mailbox_ok env db'"
    using parts(2,4,5,6,7)
    by (simp add: mailbox_ok_parts groups_ok_def refusals_ok_def limits_ok_def no_orphans_def row_ok_def reads) (simp add: db'_def)
  then show "within env gid now (db\<lparr>endpoints := es\<rparr>)" using state by (simp add: within_def db'_def group_of_def)
  show "view_of (db\<lparr>endpoints := es\<rparr>) = view_of db" using reads by (simp add: view_of_def db'_def fun_eq_iff)
qed

lemma endpoint_rows:
  assumes "within env gid now db"
  shows "unique_key (\<lambda>e. (en_group e, en_member e)) (endpoints db)"
    "e \<in> set (endpoints db) \<Longrightarrow> \<exists>g. group_of db (en_group e) = Some g \<and> endpoint_ok g e"
    "endpoint_of db i m = Some e \<Longrightarrow> e \<in> set (endpoints db) \<and> en_group e = i \<and> en_member e = m"
  using mailbox_okD(1,3) [OF within_mailbox [OF assms]]
  by (auto simp: keys_ok_def endpoints_ok_def endpoint_of_def dest!: find_row_Some_D)

lemma group_here: "within env gid now db \<Longrightarrow> \<exists>g. group_of db gid = Some g \<and> gr_time g = now \<and> group_ok g"
  using mailbox_okD(2) unfolding within_def groups_ok_def group_of_def by (metis find_row_Some_D)

lemma renew_ok:
  assumes state: "within env (cb_group b) now db" and ttl: "0 \<le> ttl"
  shows "within env (cb_group b) now (renew b now ttl db)" "view_of (renew b now ttl db) = view_of db"
proof -
  obtain g where g: "group_of db (cb_group b) = Some g" "gr_time g = now" using state by (auto simp: within_def)
  let ?key = "\<lambda>e. (en_group e, en_member e)"
  let ?es = "update_rows ?key (cb_group b, cb_member b) (\<lambda>e. e\<lparr>en_seen := now, en_lease := now + ttl * SECOND\<rparr>) (endpoints db)"
  have "unique_key ?key ?es"
    using endpoint_rows(1) [OF state] by (simp add: unique_key_def map_key_update_rows)
  moreover have "\<forall>e \<in> set ?es. \<exists>g. group_of db (en_group e) = Some g \<and> endpoint_ok g e"
  proof
    fix e assume "e \<in> set ?es"
    then obtain r where r: "r \<in> set (endpoints db)"
      "e = r \<or> en_group r = cb_group b \<and> e = r\<lparr>en_seen := now, en_lease := now + ttl * SECOND\<rparr>"
      by (auto simp: update_rows_def)
    with endpoint_rows(2) [OF state r(1)] g ttl show "\<exists>g. group_of db (en_group e) = Some g \<and> endpoint_ok g e"
      by (auto simp: endpoint_ok_def SECOND_def)
  qed
  ultimately show "within env (cb_group b) now (renew b now ttl db)" "view_of (renew b now ttl db) = view_of db"
    using endpoints_write_ok [OF state] by (simp_all add: renew_def)
qed

lemma endpoint_of_put [simp]:
  "endpoint_of (db\<lparr>endpoints := put_row (\<lambda>e. (en_group e, en_member e)) e (endpoints db)\<rparr>) i m =
     (if (i, m) = (en_group e, en_member e) then Some e else endpoint_of db i m)"
  by (simp add: endpoint_of_def find_put_row)

lemma endpoint_of_renew:
  "endpoint_of (renew b now ttl db) i m =
     (if (i, m) = (cb_group b, cb_member b) then map_option (\<lambda>e. e\<lparr>en_seen := now, en_lease := now + ttl * SECOND\<rparr>) (endpoint_of db i m)
      else endpoint_of db i m)"
  unfolding endpoint_of_def renew_def by (simp add: find_update_rows) 

lemma current_cases:
  "current env b require_row db mem =
     (let key = ownership_key env b; row = endpoint_of db (cb_group b) (cb_member b); mine = pm_incarnations mem key in
      if is_displaced mem key row mine then (Inl FENCED, mem\<lparr>pm_displaced := insert key (pm_displaced mem)\<rparr>)
      else (if require_row \<and> row = None then Inl NOT_ENROLLED else Inr (row, mine), mem))"
  by (simp add: current_def assert_not_displaced_def Let_def)

lemma enrolled_row_ok:
  assumes state: "within env (cb_group b) now db" and b: "binding_ok b" and draw: "is_hex 32 token" and ttl: "0 \<le> ttl"
    and fits: "\<forall>r. endpoint_of db (cb_group b) (cb_member b) = Some r \<longrightarrow> en_generation r < MAX_COUNTER"
    and mine: "\<not> is_displaced mem key (endpoint_of db (cb_group b) (cb_member b)) mine"
    and g: "group_of db (cb_group b) = Some g"
  shows "endpoint_ok g (enrolled_row b now ttl (endpoint_of db (cb_group b) (cb_member b)) mine token)"
proof -
  have now: "gr_time g = now" "0 \<le> now" using group_here [OF state] g by (auto simp: group_ok_def group_checks_def)
  show ?thesis
  proof (cases "endpoint_of db (cb_group b) (cb_member b)")
    case None
    then show ?thesis using b draw ttl now
      by (auto simp: endpoint_ok_def enrolled_row_def binding_ok_def SECOND_def MAX_COUNTER_def ENDPOINT_PROTOCOL_def)
  next
    case (Some r)
    then have r: "r \<in> set (endpoints db)" "en_group r = cb_group b" using endpoint_rows(3) [OF state] by blast+
    then have "endpoint_ok g r" using endpoint_rows(2) [OF state r(1)] g by auto
    then show ?thesis using Some b draw ttl now mine fits
      by (cases mine) (auto simp: endpoint_ok_def enrolled_row_def Let_def binding_ok_def SECOND_def is_displaced_def ENDPOINT_PROTOCOL_def)
  qed
qed

lemma enroll_laws:
  assumes state: "within env (cb_group b) now db" and b: "binding_ok b" and draw: "is_hex 32 token" and ttl: "0 \<le> ttl"
    and fits: "\<forall>r. endpoint_of db (cb_group b) (cb_member b) = Some r \<longrightarrow> en_generation r < MAX_COUNTER"
    and done': "enroll env token b now ttl db mem = (Inr ((ep, inc), db'), mem')"
  shows "within env (cb_group b) now db'" "view_of db' = view_of db"
proof -
  obtain g where g: "group_of db (cb_group b) = Some g" using group_here [OF state] by blast
  define e where "e = enrolled_row b now ttl (endpoint_of db (cb_group b) (cb_member b)) (pm_incarnations mem (ownership_key env b)) token"
  have free: "\<not> is_displaced mem (ownership_key env b) (endpoint_of db (cb_group b) (cb_member b)) (pm_incarnations mem (ownership_key env b))"
    and db': "db' = db\<lparr>endpoints := put_row (\<lambda>e. (en_group e, en_member e)) e (endpoints db)\<rparr>"
    using done' by (auto simp: enroll_def current_cases Let_def e_def split: if_splits)
  have "en_group e = cb_group b" by (simp add: e_def enrolled_row_def Let_def)
  moreover have "endpoint_ok g e" unfolding e_def by (rule enrolled_row_ok [OF state b draw ttl fits free g])
  ultimately have "\<forall>x \<in> set (put_row (\<lambda>e. (en_group e, en_member e)) e (endpoints db)). \<exists>g. group_of db (en_group x) = Some g \<and> endpoint_ok g x"
    using endpoint_rows(2) [OF state] g set_put_row_subset [of "\<lambda>e. (en_group e, en_member e)" e "endpoints db"] by fastforce
  from endpoints_write_ok [OF state unique_put_row [OF endpoint_rows(1) [OF state]] this]
  show "within env (cb_group b) now db'" "view_of db' = view_of db" by (simp_all add: db')
qed

text \<open>Enrolling: a displaced process is refused and remembered as displaced; any other gets the endpoint. A process that held it
  renews (incarnation, birth and generation stay), one that never did takes it over with a fresh incarnation and the
  next generation, whatever the lease says. No message changes and the mailbox verifies.\<close>

theorem enroll_exact:
  assumes "within env (cb_group b) now db" "binding_ok b" "is_hex 32 token" "0 \<le> ttl"
    and "\<forall>r. endpoint_of db (cb_group b) (cb_member b) = Some r \<longrightarrow> en_generation r < MAX_COUNTER"
  shows "let key = ownership_key env b; mine = pm_incarnations mem key; row = endpoint_of db (cb_group b) (cb_member b) in
    case enroll env token b now ttl db mem of
      (Inl e, mem') \<Rightarrow> e = FENCED \<and> mem' = mem\<lparr>pm_displaced := insert key (pm_displaced mem)\<rparr> \<and>
        (key \<in> pm_displaced mem \<or> (\<exists>r i. row = Some r \<and> mine = Some i \<and> en_incarnation r \<noteq> i))
    | (Inr ((ep, inc), db'), mem') \<Rightarrow> mem' = mem \<and> key \<notin> pm_displaced mem \<and> within env (cb_group b) now db' \<and> view_of db' = view_of db \<and>
        (\<exists>e. endpoint_of db' (cb_group b) (cb_member b) = Some e \<and> en_incarnation e = inc \<and> en_seen e = now \<and> en_lease e = now + ttl * SECOND \<and>
          (case (row, mine) of
             (Some r, Some i) \<Rightarrow> inc = i \<and> i = en_incarnation r \<and> en_enrolled e = en_enrolled r \<and> en_generation e = en_generation r
           | (Some r, None) \<Rightarrow> inc = token \<and> en_enrolled e = now \<and> en_generation e = en_generation r + 1
           | (None, _) \<Rightarrow> inc = token \<and> en_enrolled e = now \<and> en_generation e = 1)) \<and>
        (\<forall>i m. (i, m) \<noteq> (cb_group b, cb_member b) \<longrightarrow> endpoint_of db' i m = endpoint_of db i m)"
proof -
  define key row mine where defs: "key = ownership_key env b" "row = endpoint_of db (cb_group b) (cb_member b)" "mine = pm_incarnations mem key"
  show ?thesis
  proof (cases "is_displaced mem key row mine")
    case True
    then show ?thesis
      by (auto simp: enroll_def current_cases Let_def defs is_displaced_def split: option.splits)
  next
    case False
    define e where "e = enrolled_row b now ttl row mine token"
    define db' where "db' = db\<lparr>endpoints := put_row (\<lambda>e. (en_group e, en_member e)) e (endpoints db)\<rparr>"
    have run: "enroll env token b now ttl db mem = (Inr (((row_to_endpoint e)\<lparr>ep_generation := 1\<rparr>, en_incarnation e), db'), mem)"
      using False by (simp add: enroll_def current_cases Let_def defs e_def db'_def)
    have reads: "endpoint_of db' i m = (if (i, m) = (cb_group b, cb_member b) then Some e else endpoint_of db i m)" for i m
      unfolding db'_def endpoint_of_put by (simp add: e_def enrolled_row_def Let_def)
    have "en_seen e = now" "en_lease e = now + ttl * SECOND" by (simp_all add: e_def enrolled_row_def Let_def)
    moreover have "case (row, mine) of
        (Some r, Some i) \<Rightarrow> en_incarnation e = i \<and> i = en_incarnation r \<and> en_enrolled e = en_enrolled r \<and> en_generation e = en_generation r
      | (Some r, None) \<Rightarrow> en_incarnation e = token \<and> en_enrolled e = now \<and> en_generation e = en_generation r + 1
      | (None, _) \<Rightarrow> en_incarnation e = token \<and> en_enrolled e = now \<and> en_generation e = 1"
      using False by (auto simp: e_def enrolled_row_def Let_def is_displaced_def split: option.splits)
    moreover have "key \<notin> pm_displaced mem" using False by (simp add: is_displaced_def)
    moreover note enroll_laws [OF assms run]
    ultimately show ?thesis
      unfolding Let_def defs(1) [symmetric] defs(2) [symmetric] defs(3) [symmetric] run prod.case sum.case by (simp add: reads)
  qed
qed

end
