(* ===== verification/Comms_Handoff_Facts.thy ===== *)
theory Comms_Handoff_Facts
  imports Comms_Messages_Laws
begin

text \<open>
  The operations of \<^verbatim>\<open>_messages.py\<close> as a whole: what expiry, tombstoning, preparation, acknowledgement, acceptance,
  report and completion do to each message, that they leave every other message alone, that none of their statements can break a
  key, and that the mailbox still verifies.
\<close>

lemma foldE_Inr: "foldE (\<lambda>x s. Inr (f x s)) xs s = Inr (fold f xs s)"
  by (induction xs arbitrary: s) simp_all

section \<open>Expiry\<close>

definition expire_view :: "string \<Rightarrow> int \<Rightarrow> (admission \<Rightarrow> bool) \<Rightarrow> message_view \<Rightarrow> message_view" where
  "expire_view gid now due v =
     (case fst v of
        None \<Rightarrow> v
      | Some a \<Rightarrow> if ad_group a = gid \<and> ad_state a = PENDING \<and> due a then expired_view () now a v else v)"

lemma message_rows:
  assumes "within env gid now db"
  shows "a \<in> set (admissions db) \<Longrightarrow> message_row db (ad_message a) = Some a"
    "message_row db m = Some a \<Longrightarrow> a \<in> set (admissions db) \<and> ad_message a = m"
    "distinct (map ad_message (admissions db))"
  using assms mailbox_okD(1) [of env db]
  by (auto simp: within_def keys_lookups(2) keys_ok_def unique_key_def)

lemma distinct_messages_filter: "within env gid now db \<Longrightarrow> distinct (map ad_message (filter P (admissions db)))"
  using message_rows(3) by (metis distinct_map_filter)

lemma expire_where_ok:
  assumes state: "within env gid now db"
  shows "within env gid now (expire_where gid now due db)"
    "view_of (expire_where gid now due db) m = expire_view gid now due (view_of db m)"
proof -
  define rows where "rows = filter (\<lambda>a. ad_group a = gid \<and> ad_state a = PENDING \<and> due a) (admissions db)"
  have loop: "within env gid now (expire_where gid now due db) \<and>
      (\<forall>a \<in> set rows. view_of (expire_where gid now due db) (ad_message a) = expired_view () now a (view_of db (ad_message a))) \<and>
      (\<forall>m. m \<notin> ad_message ` set rows \<longrightarrow> view_of (expire_where gid now due db) m = view_of db m)"
    using expiring.loop [OF state distinct_messages_filter [OF state], of _ "()"] message_rows(1) [OF state]
    unfolding foldE_Inr expire_where_def rows_def by (fastforce simp: is_pending_here_def view_of_def)
  then show "within env gid now (expire_where gid now due db)" by blast
  show "view_of (expire_where gid now due db) m = expire_view gid now due (view_of db m)"
  proof (cases "\<exists>a \<in> set rows. ad_message a = m")
    case True
    then obtain a where a: "a \<in> set rows" "ad_message a = m" by blast
    then have "message_row db m = Some a" using message_rows(1) [OF state] by (auto simp: rows_def)
    with a loop show ?thesis by (auto simp: expire_view_def view_of_def rows_def)
  next
    case False
    then have "\<not> (ad_group a = gid \<and> ad_state a = PENDING \<and> due a)" if "message_row db m = Some a" for a
      using message_rows(2) [OF state that] by (auto simp: rows_def)
    moreover have "m \<notin> ad_message ` set rows" using False by blast
    ultimately show ?thesis using loop by (auto simp: expire_view_def view_of_def split: option.split)
  qed
qed

lemma expire_view_again:
  assumes "\<And>a. due' (a\<lparr>ad_state := EXPIRED\<rparr>) = due' a"
  shows "expire_view gid now due' (expire_view gid now due v) = expire_view gid now (\<lambda>a. due a \<or> due' a) v"
  by (cases v; cases "fst v") (auto simp: expire_view_def expired_view_def message_states)

lemma expire_members_ok:
  assumes "within env gid now db"
  shows "within env gid now (fold (\<lambda>member. expire_where gid now (\<lambda>a. ad_recipient a = member)) members db) \<and>
    (\<forall>m. view_of (fold (\<lambda>member. expire_where gid now (\<lambda>a. ad_recipient a = member)) members db) m =
      expire_view gid now (\<lambda>a. ad_recipient a \<in> set members) (view_of db m))"
  using assms
proof (induction members arbitrary: db)
  case Nil
  then show ?case by (auto simp: expire_view_def split: option.split)
next
  case (Cons member members)
  have "(\<lambda>a. ad_recipient a = member \<or> ad_recipient a \<in> set members) = (\<lambda>a. ad_recipient a \<in> set (member # members))" by auto
  then show ?case
    using Cons.IH [OF expire_where_ok(1) [OF Cons.prems]] expire_where_ok(2) [OF Cons.prems]
      expire_view_again [of "\<lambda>a. ad_recipient a \<in> set members"]
    by simp
qed

lemma expire_due_laws:
  assumes "within env gid now db"
  shows "within env gid now (expire_due gid now terminal db) \<and>
    (\<forall>m. view_of (expire_due gid now terminal db) m =
      expire_view gid now (\<lambda>a. ad_expires_at a \<le> now \<or> ad_recipient a \<in> set terminal) (view_of db m))"
  using expire_members_ok [OF expire_where_ok(1) [OF assms, where due = "\<lambda>a. ad_expires_at a \<le> now"], where members = "sort (remdups terminal)"]
    expire_where_ok(2) [OF assms] expire_view_again [of "\<lambda>a. ad_recipient a \<in> set terminal"]
  by (simp add: expire_due_def)

section \<open>Tombstones\<close>

lemma tombstone_due_write:
  "tombstone_due gid now grace db = message_write m (\<lambda>a.
     if ad_group a = gid \<and> ad_state a \<noteq> PENDING \<and> ad_body a \<noteq> [] \<and> ad_expires_at a + grace * SECOND \<le> now
     then a\<lparr>ad_body := []\<rparr> else a) [] [] db"
  by (simp add: tombstone_due_def message_write_def)

text \<open>Tombstoning drops the body of terminal messages past their deadline and grace, and nothing else.\<close>

theorem tombstone_keeps_evidence:
  assumes "within env gid now db"
  shows "within env gid now (tombstone_due gid now grace db)"
    "fact_at (tombstone_due gid now grace db) = fact_at db"
    "map (\<lambda>a. a\<lparr>ad_body := []\<rparr>) (admissions (tombstone_due gid now grace db)) = map (\<lambda>a. a\<lparr>ad_body := []\<rparr>) (admissions db)"
    "\<forall>a \<in> set (admissions db). ad_state a = PENDING \<longrightarrow> a \<in> set (admissions (tombstone_due gid now grace db))"
proof -
  define h where "h (a :: admission) = (if ad_group a = gid \<and> ad_state a \<noteq> PENDING \<and> ad_body a \<noteq> [] \<and> ad_expires_at a + grace * SECOND \<le> now
     then a\<lparr>ad_body := []\<rparr> else a)" for a
  have as_write: "tombstone_due gid now grace db = message_write [] h [] [] db"
    unfolding tombstone_due_write [where m = "[]"] by (simp add: h_def [abs_def])
  have ok: "mailbox_ok env db" using assms by (simp add: within_def)
  have h: "keeps_identity h" by (simp add: keeps_identity_def h_def)
  have columns: "ad_message (h a) = ad_message a" "ad_group (h a) = ad_group a" for a using keeps_identityD [OF h] by auto
  have "row_ok env (message_write [] h [] [] db) (h a)" if mem: "a \<in> set (admissions db)" for a
  proof -
    obtain g where g: "group_of db (ad_group a) = Some g" "admission_ok g a"
        "message_ok env g a (fact_at db (ad_message a)) (report_of db (ad_message a))"
      using mailbox_okD(7) [OF ok mem] by (auto simp: row_ok_def)
    moreover have "admission_ok g (h a)" using g(2) by (simp add: admission_ok_def h_def)
    moreover have "message_ok env g (h a) F R = message_ok env g a F R" for F R by (simp add: message_ok_def h_def)
    ultimately show ?thesis
      by (auto simp: row_ok_def columns fact_at_message_write report_of_message_write)
  qed
  then have "mailbox_ok env (message_write [] h [] [] db)"
    by (intro rewrite_ok [OF ok h]) (auto simp: h_def split: if_splits)
  then show "within env gid now (tombstone_due gid now grace db)" using assms by (simp add: within_def as_write)
  show "fact_at (tombstone_due gid now grace db) = fact_at db" by (simp add: as_write fact_at_message_write fun_eq_iff)
  show "map (\<lambda>a. a\<lparr>ad_body := []\<rparr>) (admissions (tombstone_due gid now grace db)) = map (\<lambda>a. a\<lparr>ad_body := []\<rparr>) (admissions db)"
    by (simp add: tombstone_due_def)
  show "\<forall>a \<in> set (admissions db). ad_state a = PENDING \<longrightarrow> a \<in> set (admissions (tombstone_due gid now grace db))"
    by (force simp: tombstone_due_def)
qed

section \<open>Delivery\<close>

text \<open>Preparing pending messages of the group for a receiver records the first fetch, counts a delivery for each new receiver, and
  nothing else; the mailbox verifies.\<close>

theorem prepare_fetch_exact:
  assumes state: "within env gid now db" and inc: "is_hex 32 inc"
    and rows: "distinct (map ad_message rows)"
      "\<forall>a \<in> set rows. a \<in> set (admissions db) \<and> ad_group a = gid \<and> ad_state a = PENDING \<and> ad_delivery_count a < MAX_COUNTER"
  shows "within env gid now (prepare_fetch rows now inc db) \<and>
    (\<forall>a \<in> set rows. view_of (prepare_fetch rows now inc db) (ad_message a) = prepared_view inc now a (view_of db (ad_message a))) \<and>
    (\<forall>m. m \<notin> ad_message ` set rows \<longrightarrow> view_of (prepare_fetch rows now inc db) m = view_of db m)"
proof -
  have "is_fetchable_here inc gid a (view_of db (ad_message a))" if "a \<in> set rows" for a
    using rows(2) that message_rows(1) [OF state] inc by (simp add: is_fetchable_here_def view_of_def)
  from preparing.loop [OF state rows(1) this] show ?thesis
    unfolding foldE_Inr prepare_fetch_def by simp
qed

lemma mapE_Inr: "mapE f xs = Inr ys \<longleftrightarrow> list_all2 (\<lambda>x y. f x = Inr y) xs ys"
  by (induction xs arbitrary: ys) (auto simp: list_all2_Cons1)

lemma list_all2_key: "list_all2 (\<lambda>x y. key y = x \<and> R y) xs ys \<longleftrightarrow> map key ys = xs \<and> (\<forall>y \<in> set ys. R y)"
  by (induction ys arbitrary: xs) (auto simp: list_all2_Cons2)

lemma mapE_Inl: "mapE f xs = Inl e \<Longrightarrow> \<exists>x \<in> set xs. f x = Inl e"
  by (induction xs) (auto simp: bindE_def split: sum.splits)

text \<open>A row the caller may acknowledge.\<close>

definition ackable :: "CallerBinding \<Rightarrow> comms_db \<Rightarrow> admission \<Rightarrow> bool" where
  "ackable b db a \<longleftrightarrow> message_row db (ad_message a) = Some a \<and> ad_group a = cb_group b \<and> ad_recipient a = cb_member b \<and>
     ad_state a \<in> {PENDING, ACKED}"

lemma message_row_id: "message_row db m = Some a \<Longrightarrow> ad_message a = m"
  by (auto simp: message_row_def dest!: find_row_Some_D)

lemma validate_ack_rows:
  "validate_ack b ids db = Inr rows \<longleftrightarrow> map ad_message rows = ids \<and> (\<forall>a \<in> set rows. ackable b db a)"
proof -
  have "ack_row b db m = Inr a \<longleftrightarrow> ad_message a = m \<and> ackable b db a" for m a
  proof (cases "message_row db m")
    case None
    then show ?thesis by (auto simp: ack_row_def ackable_def)
  next
    case (Some r)
    then have "ad_message a = m \<and> message_row db (ad_message a) = Some a \<longleftrightarrow> r = a"
      by (metis Some message_row_id option.inject)
    then have "ad_message a = m \<and> ackable b db a \<longleftrightarrow> r = a \<and> ad_group a = cb_group b \<and> ad_recipient a = cb_member b \<and> ad_state a \<in> {PENDING, ACKED}"
      unfolding ackable_def by blast
    then show ?thesis unfolding ack_row_def Some by auto
  qed
  then show ?thesis by (simp add: validate_ack_def mapE_Inr list_all2_key)
qed

lemma acknowledge_laws:
  assumes state: "within env (cb_group b) now db" and ids: "distinct ids" and valid: "validate_ack b ids db = Inr rows"
  shows "\<exists>db'. acknowledge rows now db = Inr db' \<and> within env (cb_group b) now db' \<and>
    (\<forall>a \<in> set rows. view_of db' (ad_message a) = acked_view () now a (view_of db (ad_message a))) \<and>
    (\<forall>m. m \<notin> set ids \<longrightarrow> view_of db' m = view_of db m)"
proof -
  have rows: "map ad_message rows = ids" "\<forall>a \<in> set rows. ackable b db a" using valid by (simp_all add: validate_ack_rows)
  then have "set ids = ad_message ` set rows" by auto
  moreover have "is_held_here () (cb_group b) a (view_of db (ad_message a))" if "a \<in> set rows" for a
    using rows(2) that by (simp add: is_held_here_def ackable_def view_of_def)
  ultimately show ?thesis
    using acking.loop [OF state, of rows "()"] ids rows(1) by (simp add: acknowledge_def)
qed

section \<open>The hand-off facts\<close>

definition handoff_party :: "CallerBinding \<Rightarrow> bool \<Rightarrow> admission \<Rightarrow> bool" where
  "handoff_party b as_sender a \<longleftrightarrow> ad_group a = cb_group b \<and> ad_kind a = ''request'' \<and>
     (if as_sender then ad_sender a = cb_member b \<and> ad_recipient a \<noteq> cb_member b else ad_recipient a = cb_member b)"

lemma handoff_row_Inr:
  "handoff_row b as_sender db m = Inr c \<longleftrightarrow>
   ad_message (fst c) = m \<and> message_row db m = Some (fst c) \<and> handoff_party b as_sender (fst c) \<and> snd c = fact_at db m"
proof (cases "message_row db m")
  case None
  then show ?thesis by (auto simp: handoff_row_def)
next
  case (Some r)
  then have "ad_message r = m" by (rule message_row_id)
  with Some show ?thesis by (cases c) (auto simp: handoff_row_def handoff_party_def)
qed

lemma handoff_rows_Inr:
  "handoff_rows b ids as_sender db = Inr checked \<longleftrightarrow> map (ad_message \<circ> fst) checked = ids \<and>
   (\<forall>c \<in> set checked. message_row db (ad_message (fst c)) = Some (fst c) \<and> handoff_party b as_sender (fst c) \<and>
      snd c = fact_at db (ad_message (fst c)))"
proof -
  have "(\<lambda>m c. handoff_row b as_sender db m = Inr c) = (\<lambda>m c. (ad_message \<circ> fst) c = m \<and>
      (message_row db (ad_message (fst c)) = Some (fst c) \<and> handoff_party b as_sender (fst c) \<and> snd c = fact_at db (ad_message (fst c))))"
    by (auto simp: fun_eq_iff handoff_row_Inr)
  then show ?thesis unfolding handoff_rows_def mapE_Inr by (simp only: list_all2_key)
qed

text \<open>What the check of a batch decides, id by id.\<close>

lemma handoff_rows_parties:
  "(\<exists>checked. handoff_rows b ids as_sender db = Inr checked \<and> (\<forall>c \<in> set checked. P c)) \<longleftrightarrow>
   (\<forall>m \<in> set ids. \<exists>a. message_row db m = Some a \<and> handoff_party b as_sender a \<and> P (a, fact_at db m))"
proof -
  have "(\<exists>checked. list_all2 (\<lambda>m c. handoff_row b as_sender db m = Inr c) ids checked \<and> (\<forall>c \<in> set checked. P c)) \<longleftrightarrow>
      (\<forall>m \<in> set ids. \<exists>c. handoff_row b as_sender db m = Inr c \<and> P c)"
  proof (induction ids)
    case (Cons m ids)
    then show ?case by (fastforce simp: list_all2_Cons1)
  qed simp
  moreover have "(\<exists>c. handoff_row b as_sender db m = Inr c \<and> P c) \<longleftrightarrow>
      (\<exists>a. message_row db m = Some a \<and> handoff_party b as_sender a \<and> P (a, fact_at db m))" for m
    by (auto simp: handoff_row_Inr dest: message_row_id)
  ultimately show ?thesis by (simp add: handoff_rows_def mapE_Inr)
qed

text \<open>Accepting: the receiver of live requests acknowledges and accepts them together.\<close>

lemma accept_run:
  assumes state: "within env (cb_group b) now db" and ids: "distinct ids"
    and checked: "handoff_rows b ids False db = Inr checked" and live: "\<forall>c \<in> set checked. ad_state (fst c) \<noteq> EXPIRED"
  shows "\<exists>db'. accept b ids now db = Inr db' \<and> within env (cb_group b) now db' \<and>
      (\<forall>c \<in> set checked. view_of db' (ad_message (fst c)) =
        recorded_view ''accepted'' now c (acked_view () now (fst c) (view_of db (ad_message (fst c))))) \<and>
      (\<forall>m. m \<notin> set ids \<longrightarrow> view_of db' m = view_of db m)"
proof -
  have rows: "map (ad_message \<circ> fst) checked = ids" "\<And>c. c \<in> set checked \<Longrightarrow> message_row db (ad_message (fst c)) = Some (fst c) \<and>
      handoff_party b False (fst c) \<and> snd c = fact_at db (ad_message (fst c))"
    using checked by (auto simp: handoff_rows_Inr)
  have states: "ad_state (fst c) \<in> {PENDING, ACKED}" if "c \<in> set checked" for c
    using message_state [OF state] rows(2) [OF that] live that by (fastforce simp: admission_ok_def MESSAGE_STATES_def)
  have set_ids: "set ids = (ad_message \<circ> fst) ` set checked" using rows(1) by (metis list.set_map)
  have "map ad_message (map fst checked) = ids" using rows(1) by simp
  moreover have "is_held_here () (cb_group b) a (view_of db (ad_message a))" if "a \<in> set (map fst checked)" for a
    using that rows(2) states by (auto simp: is_held_here_def view_of_def handoff_party_def)
  ultimately obtain db1 where db1: "acknowledge (map fst checked) now db = Inr db1" "within env (cb_group b) now db1"
      "\<forall>c \<in> set checked. view_of db1 (ad_message (fst c)) = acked_view () now (fst c) (view_of db (ad_message (fst c)))"
      "\<forall>m. m \<notin> set ids \<longrightarrow> view_of db1 m = view_of db m"
    using acking.loop [OF state, of "map fst checked" "()"] ids set_ids unfolding acknowledge_def by (auto simp: image_image comp_def)
  have "is_recordable ''accepted'' (cb_group b) c (view_of db1 ((ad_message \<circ> fst) c))" if c: "c \<in> set checked" for c
  proof -
    obtain g where g: "message_ok env g (fst c) (fact_at db (ad_message (fst c))) (report_of db (ad_message (fst c)))"
      using message_state [OF state] rows(2) [OF c] by blast
    then have "ad_state (fst c) = ACKED \<Longrightarrow> fact_at db (ad_message (fst c)) ACKED \<noteq> None"
      by (auto simp: message_ok_def TERMINAL_MESSAGE_STATES_def)
    then show ?thesis
      using db1(3) c rows(2) [OF c]
      by (auto simp: is_recordable_def acked_view_def view_of_def handoff_party_def fact_before_def message_states)
  qed
  then obtain db' where "foldE (record_fact ''accepted'' now) checked db1 = Inr db'" "within env (cb_group b) now db'"
      "\<forall>c \<in> set checked. view_of db' ((ad_message \<circ> fst) c) = recorded_view ''accepted'' now c (view_of db1 ((ad_message \<circ> fst) c))"
      "\<forall>m. m \<notin> (ad_message \<circ> fst) ` set checked \<longrightarrow> view_of db' m = view_of db1 m"
    using recording.loop [OF db1(2), of checked "''accepted''"] ids rows(1) by auto
  then show ?thesis
    using checked live db1 set_ids by (auto simp: accept_def list_ex_iff)
qed

lemma accept_laws:
  assumes state: "within env (cb_group b) now db" and ids: "distinct ids"
  shows "(\<exists>db'. accept b ids now db = Inr db') \<longleftrightarrow>
      (\<exists>checked. handoff_rows b ids False db = Inr checked \<and> (\<forall>c \<in> set checked. ad_state (fst c) \<noteq> EXPIRED))"
    and "accept b ids now db = Inr db' \<Longrightarrow> within env (cb_group b) now db' \<and>
      (\<forall>m \<in> set ids. \<exists>a. message_row db m = Some a \<and>
        view_of db' m = recorded_view ''accepted'' now (a, fact_at db m) (acked_view () now a (view_of db m))) \<and>
      (\<forall>m. m \<notin> set ids \<longrightarrow> view_of db' m = view_of db m)"
proof -
  note run = accept_run [OF state ids]
  have needs: "\<exists>checked. handoff_rows b ids False db = Inr checked \<and> (\<forall>c \<in> set checked. ad_state (fst c) \<noteq> EXPIRED)"
    if "accept b ids now db = Inr db'" for db'
    using that by (auto simp: accept_def list_ex_iff split: if_splits)
  then show "(\<exists>db'. accept b ids now db = Inr db') \<longleftrightarrow>
      (\<exists>checked. handoff_rows b ids False db = Inr checked \<and> (\<forall>c \<in> set checked. ad_state (fst c) \<noteq> EXPIRED))"
    using run by blast
  assume "accept b ids now db = Inr db'"
  with needs obtain checked where checked: "handoff_rows b ids False db = Inr checked" "\<forall>c \<in> set checked. ad_state (fst c) \<noteq> EXPIRED"
    by blast
  have "\<exists>c \<in> set checked. ad_message (fst c) = m" if "m \<in> set ids" for m
    using checked(1) that by (auto simp: handoff_rows_Inr)
  then show "within env (cb_group b) now db' \<and>
      (\<forall>m \<in> set ids. \<exists>a. message_row db m = Some a \<and>
        view_of db' m = recorded_view ''accepted'' now (a, fact_at db m) (acked_view () now a (view_of db m))) \<and>
      (\<forall>m. m \<notin> set ids \<longrightarrow> view_of db' m = view_of db m)"
    using run [OF checked] \<open>accept b ids now db = Inr db'\<close> checked(1) unfolding handoff_rows_Inr by fastforce
qed

lemma report_laws:
  assumes state: "within env (cb_group b) now db"
  shows "report env b m p now db = Inr db' \<longleftrightarrow>
    valid_next_read env p \<and>
    (\<exists>a. message_row db m = Some a \<and> handoff_party b False a \<and> fact_at db m ''accepted'' \<noteq> None \<and>
      (case report_of db m of
         Some r \<Rightarrow> hr_next_read r = p \<and> db' = db
       | None \<Rightarrow> db' = message_write m (at_message m (\<lambda>r. r)) [(''reported'', now)]
           [\<lparr>hr_message = m, hr_next_read = p, hr_reported_at = now\<rparr>] db))"
    and "report env b m p now db = Inr db' \<Longrightarrow> within env (cb_group b) now db' \<and> (\<forall>m'. m' \<noteq> m \<longrightarrow> view_of db' m' = view_of db m')"
proof -
  have pair: "fact_at db m ''reported'' = None \<longleftrightarrow> report_of db m = None" if "message_row db m = Some a" for a
    using message_state [OF state that] by (auto simp: message_ok_def split: option.splits)
  have writes: "report env b m p now db = Inr db' \<longleftrightarrow> db' = message_write m (at_message m (\<lambda>r. r)) [(''reported'', now)]
      [\<lparr>hr_message = m, hr_next_read = p, hr_reported_at = now\<rparr>] db"
    if "message_row db m = Some a" "handoff_party b False a" "fact_at db m ''accepted'' \<noteq> None" "report_of db m = None" "valid_next_read env p" for a
  proof -
    have row: "handoff_row b False db m = Inr (a, fact_at db m)" using that message_row_id [OF that(1)] by (simp add: handoff_row_Inr)
    have "fact_at db m ''reported'' = None" using pair that(1,4) by blast
    moreover have "ad_message a = m" by (rule message_row_id [OF that(1)])
    ultimately show ?thesis
      using that(3-5) by (auto simp: report_def row insert_milestone_def report_of_def message_write_def)
  qed
  have repeats: "report env b m p now db = Inr db' \<longleftrightarrow> hr_next_read r = p \<and> db' = db"
    if "message_row db m = Some a" "handoff_party b False a" "fact_at db m ''accepted'' \<noteq> None" "report_of db m = Some r" "valid_next_read env p" for a r
  proof -
    have row: "handoff_row b False db m = Inr (a, fact_at db m)" using that message_row_id [OF that(1)] by (simp add: handoff_row_Inr)
    have "fact_at db m ''reported'' \<noteq> None" using pair that(1,4) by force
    then show ?thesis using that(3-5) by (auto simp: report_def row)
  qed
  have needs: "valid_next_read env p \<and> (\<exists>a. message_row db m = Some a \<and> handoff_party b False a \<and> fact_at db m ''accepted'' \<noteq> None)"
    if reported: "report env b m p now db = Inr db'"
  proof -
    from reported obtain c where c: "handoff_row b False db m = Inr c" "snd c ''accepted'' \<noteq> None" "valid_next_read env p"
      by (auto simp: report_def split: if_splits)
    then show ?thesis by (auto simp: handoff_row_Inr)
  qed
  show iff: "report env b m p now db = Inr db' \<longleftrightarrow>
    valid_next_read env p \<and>
    (\<exists>a. message_row db m = Some a \<and> handoff_party b False a \<and> fact_at db m ''accepted'' \<noteq> None \<and>
      (case report_of db m of
         Some r \<Rightarrow> hr_next_read r = p \<and> db' = db
       | None \<Rightarrow> db' = message_write m (at_message m (\<lambda>r. r)) [(''reported'', now)]
           [\<lparr>hr_message = m, hr_next_read = p, hr_reported_at = now\<rparr>] db))"
    using needs writes repeats by (cases "report_of db m") auto
  assume "report env b m p now db = Inr db'"
  with iff obtain a where a: "message_row db m = Some a" "handoff_party b False a" "fact_at db m ''accepted'' \<noteq> None" "valid_next_read env p"
    and db': "case report_of db m of Some r \<Rightarrow> hr_next_read r = p \<and> db' = db
       | None \<Rightarrow> db' = message_write m (at_message m (\<lambda>r. r)) [(''reported'', now)] [\<lparr>hr_message = m, hr_next_read = p, hr_reported_at = now\<rparr>] db"
    by blast
  show "within env (cb_group b) now db' \<and> (\<forall>m'. m' \<noteq> m \<longrightarrow> view_of db' m' = view_of db m')"
  proof (cases "report_of db m")
    case None
    then have none: "fact_at db m ''reported'' = None" using pair a(1) by blast
    have fresh: "fresh_reports db m [\<lparr>hr_message = m, hr_next_read = p, hr_reported_at = now\<rparr>]" using None by (simp add: fresh_reports_def)
    have "within env (cb_group b) now (message_write m (at_message m (\<lambda>r. r)) [(''reported'', now)] [\<lparr>hr_message = m, hr_next_read = p, hr_reported_at = now\<rparr>] db) \<and>
      (\<forall>m'. m' \<noteq> m \<longrightarrow> view_of (message_write m (at_message m (\<lambda>r. r)) [(''reported'', now)] [\<lparr>hr_message = m, hr_next_read = p, hr_reported_at = now\<rparr>] db) m' = view_of db m')"
      using message_write_within [OF state a(1) _ keeps_columns(2) _ fresh, of "[(''reported'', now)]"] none a(2-4)
        reported_message_ok [of _ now a]
      by (simp add: handoff_party_def)
    with None db' show ?thesis by simp
  next
    case (Some r)
    with db' state show ?thesis by simp
  qed
qed

lemma complete_run:
  assumes state: "within env (cb_group b) now db" and ids: "distinct ids"
    and checked: "handoff_rows b ids True db = Inr checked" and reported: "\<forall>m \<in> set ids. fact_at db m ''reported'' \<noteq> None"
  shows "\<exists>db'. complete there b ids now db = Inr (filter (\<lambda>m. \<not> pointer_resolves there (map_option hr_next_read (report_of db' m))) ids, db') \<and>
      within env (cb_group b) now db' \<and>
      (\<forall>m \<in> set ids. view_of db' m = recorded_view ''completed'' now (the (message_row db m), fact_at db m) (view_of db m)) \<and>
      (\<forall>m. m \<notin> set ids \<longrightarrow> view_of db' m = view_of db m)"
proof -
  have rows: "map (ad_message \<circ> fst) checked = ids" "\<And>c. c \<in> set checked \<Longrightarrow> message_row db (ad_message (fst c)) = Some (fst c) \<and>
      handoff_party b True (fst c) \<and> snd c = fact_at db (ad_message (fst c))"
    using checked by (auto simp: handoff_rows_Inr)
  have mem: "ad_message (fst c) \<in> set ids" if "c \<in> set checked" for c
    using rows(1) that by (metis comp_apply image_eqI list.set_map)
  have "is_recordable ''completed'' (cb_group b) c (view_of db ((ad_message \<circ> fst) c))" if "c \<in> set checked" for c
    using rows(2) [OF that] mem [OF that] reported by (simp add: is_recordable_def view_of_def handoff_party_def fact_before_def)
  then obtain db' where db': "foldE (record_fact ''completed'' now) checked db = Inr db'" "within env (cb_group b) now db'"
      "\<forall>c \<in> set checked. view_of db' ((ad_message \<circ> fst) c) = recorded_view ''completed'' now c (view_of db ((ad_message \<circ> fst) c))"
      "\<forall>m. m \<notin> (ad_message \<circ> fst) ` set checked \<longrightarrow> view_of db' m = view_of db m"
    using recording.loop [OF state, of checked "''completed''"] ids rows(1) by auto
  have "\<not> list_ex (\<lambda>c. snd c ''reported'' = None) checked"
    using rows(2) mem reported by (auto simp: list_ex_iff)
  then have "complete there b ids now db = Inr (filter (\<lambda>m. \<not> pointer_resolves there (map_option hr_next_read (report_of db' m))) ids, db')"
    using checked db'(1) rows(1) by (simp add: complete_def)
  moreover have "view_of db' m = recorded_view ''completed'' now (the (message_row db m), fact_at db m) (view_of db m)" if m: "m \<in> set ids" for m
  proof -
    obtain c where c: "c \<in> set checked" "ad_message (fst c) = m" using m rows(1) by auto
    then show ?thesis using db'(3) rows(2) [OF c(1)] by (cases c) (auto simp: recorded_view_def)
  qed
  moreover have "set ids = (ad_message \<circ> fst) ` set checked" using rows(1) by (metis list.set_map)
  ultimately show ?thesis using db'(2,4) by metis
qed

lemma complete_laws:
  assumes state: "within env (cb_group b) now db" and ids: "distinct ids"
  shows "(\<exists>r. complete there b ids now db = Inr r) \<longleftrightarrow>
      (\<exists>checked. handoff_rows b ids True db = Inr checked \<and> (\<forall>m \<in> set ids. fact_at db m ''reported'' \<noteq> None))"
    and "complete there b ids now db = Inr (dangling, db') \<Longrightarrow> within env (cb_group b) now db' \<and>
      dangling = filter (\<lambda>m. \<not> pointer_resolves there (map_option hr_next_read (report_of db m))) ids \<and>
      (\<forall>m \<in> set ids. view_of db' m = (message_row db m,
        if fact_at db m ''completed'' = None then (fact_at db m)(''completed'' \<mapsto> now) else fact_at db m, report_of db m)) \<and>
      (\<forall>m. m \<notin> set ids \<longrightarrow> view_of db' m = view_of db m)"
proof -
  note run = complete_run [OF state ids, where there = there]
  have needs: "\<exists>checked. handoff_rows b ids True db = Inr checked \<and> (\<forall>m \<in> set ids. fact_at db m ''reported'' \<noteq> None)"
    if finished: "complete there b ids now db = Inr r" for r
  proof -
    from finished obtain checked where checked: "handoff_rows b ids True db = Inr checked" "\<not> list_ex (\<lambda>c. snd c ''reported'' = None) checked"
      by (auto simp: complete_def split: if_splits)
    then show ?thesis by (fastforce simp: handoff_rows_Inr list_ex_iff)
  qed
  show "(\<exists>r. complete there b ids now db = Inr r) \<longleftrightarrow>
      (\<exists>checked. handoff_rows b ids True db = Inr checked \<and> (\<forall>m \<in> set ids. fact_at db m ''reported'' \<noteq> None))"
    using run needs by blast
  assume finished: "complete there b ids now db = Inr (dangling, db')"
  with needs run have out: "dangling = filter (\<lambda>m. \<not> pointer_resolves there (map_option hr_next_read (report_of db' m))) ids"
      "within env (cb_group b) now db'" "\<forall>m. m \<notin> set ids \<longrightarrow> view_of db' m = view_of db m"
      "\<forall>m \<in> set ids. view_of db' m = recorded_view ''completed'' now (the (message_row db m), fact_at db m) (view_of db m)"
    by fastforce+
  then have reports: "report_of db' m = report_of db m" if "m \<in> set ids" for m
    using that by (auto simp: view_of_def recorded_view_def split: if_splits)
  then have "dangling = filter (\<lambda>m. \<not> pointer_resolves there (map_option hr_next_read (report_of db m))) ids"
    unfolding out(1) by (intro filter_cong) auto
  with out show "within env (cb_group b) now db' \<and>
      dangling = filter (\<lambda>m. \<not> pointer_resolves there (map_option hr_next_read (report_of db m))) ids \<and>
      (\<forall>m \<in> set ids. view_of db' m = (message_row db m,
        if fact_at db m ''completed'' = None then (fact_at db m)(''completed'' \<mapsto> now) else fact_at db m, report_of db m)) \<and>
      (\<forall>m. m \<notin> set ids \<longrightarrow> view_of db' m = view_of db m)"
    by (auto simp: recorded_view_def view_of_def)
qed

section \<open>What each operation promises\<close>

text \<open>Expiry at the operation's time expires exactly the pending messages of the group that are past their deadline or addressed to a
  terminal member, with a fact at that time, and leaves every other message alone; the mailbox verifies.\<close>

theorem expire_due_exact:
  assumes "within env gid now db"
  shows "within env gid now (expire_due gid now terminal db) \<and>
    (\<forall>m. view_of (expire_due gid now terminal db) m =
      (case view_of db m of
         (Some a, F, R) \<Rightarrow>
           if ad_group a = gid \<and> ad_state a = PENDING \<and> (ad_expires_at a \<le> now \<or> ad_recipient a \<in> set terminal)
           then (Some (a\<lparr>ad_state := EXPIRED\<rparr>), F(EXPIRED \<mapsto> now), R) else view_of db m
       | _ \<Rightarrow> view_of db m))"
  using expire_due_laws [OF assms] by (auto simp: expire_view_def expired_view_def split: prod.splits option.splits)

text \<open>A batch the caller may acknowledge is acknowledged as a whole: no statement fails, every message of it ends acknowledged (one
  already acknowledged is untouched), no other message changes and the mailbox verifies. Any other batch is refused.\<close>

theorem acknowledge_batch:
  assumes "within env (cb_group b) now db" "distinct ids"
  shows "case bindE (validate_ack b ids db) (\<lambda>rows. acknowledge rows now db) of
      Inl e \<Rightarrow> \<exists>m \<in> set ids. \<nexists>a. message_row db m = Some a \<and> ackable b db a
    | Inr db' \<Rightarrow> within env (cb_group b) now db' \<and>
        (\<forall>m \<in> set ids. \<exists>a. message_row db m = Some a \<and> ackable b db a \<and> view_of db' m = acked_view () now a (view_of db m)) \<and>
        (\<forall>m. m \<notin> set ids \<longrightarrow> view_of db' m = view_of db m)"
proof (cases "validate_ack b ids db")
  case (Inl e)
  have "\<exists>m \<in> set ids. \<nexists>a. message_row db m = Some a \<and> ackable b db a"
  proof (rule ccontr)
    assume "\<not> ?thesis"
    then obtain row where row: "\<forall>m \<in> set ids. message_row db m = Some (row m) \<and> ackable b db (row m)" by metis
    then have ids: "ad_message (row m) = m" if "m \<in> set ids" for m using that message_row_id by blast
    with row have "validate_ack b ids db = Inr (map row ids)"
      using ids by (simp add: validate_ack_rows map_idI)
    with Inl show False by simp
  qed
  with Inl show ?thesis by simp
next
  case (Inr rows)
  with validate_ack_rows [of b ids db rows] have rows: "map ad_message rows = ids" "\<forall>a \<in> set rows. ackable b db a" by simp_all
  from acknowledge_laws [OF assms Inr] obtain db' where "acknowledge rows now db = Inr db'" "within env (cb_group b) now db'"
    "\<forall>a \<in> set rows. view_of db' (ad_message a) = acked_view () now a (view_of db (ad_message a))"
    "\<forall>m. m \<notin> set ids \<longrightarrow> view_of db' m = view_of db m" by blast
  with rows Inr show ?thesis by (fastforce simp: ackable_def)
qed

text \<open>C34: Accepting: the receiver of live requests acknowledges and accepts them together. It succeeds exactly when every id names a
  request addressed to the caller that has not expired; then no statement fails, each message is acknowledged and
  accepted (facts already there are kept), no other message changes and the mailbox verifies.\<close>

theorem accept_exact:
  assumes "within env (cb_group b) now db" "distinct ids"
  shows "case accept b ids now db of
      Inl e \<Rightarrow> \<not> (\<forall>m \<in> set ids. \<exists>a. message_row db m = Some a \<and> ad_group a = cb_group b \<and> ad_kind a = ''request'' \<and>
        ad_recipient a = cb_member b \<and> ad_state a \<noteq> EXPIRED)
    | Inr db' \<Rightarrow> within env (cb_group b) now db' \<and>
        (\<forall>m \<in> set ids. \<exists>a. message_row db m = Some a \<and> ad_group a = cb_group b \<and> ad_kind a = ''request'' \<and>
          ad_recipient a = cb_member b \<and> ad_state a \<noteq> EXPIRED \<and>
          message_row db' m = Some (a\<lparr>ad_state := ACKED\<rparr>) \<and> report_of db' m = report_of db m \<and>
          (\<forall>f. fact_at db' m f = (if (f = ACKED \<and> ad_state a \<noteq> ACKED) \<or> (f = ''accepted'' \<and> fact_at db m f = None) then Some now
             else fact_at db m f))) \<and>
        (\<forall>m. m \<notin> set ids \<longrightarrow> view_of db' m = view_of db m)"
proof (cases "accept b ids now db")
  case (Inl e)
  then show ?thesis using accept_laws(1) [OF assms] by (simp add: handoff_rows_parties handoff_party_def)
next
  case (Inr db')
  then have party: "\<forall>m \<in> set ids. \<exists>a. message_row db m = Some a \<and> handoff_party b False a \<and> ad_state a \<noteq> EXPIRED"
    using accept_laws(1) [OF assms] by (simp add: handoff_rows_parties)
  note effect = accept_laws(2) [OF assms Inr]
  have "\<exists>a. message_row db m = Some a \<and> ad_group a = cb_group b \<and> ad_kind a = ''request'' \<and>
          ad_recipient a = cb_member b \<and> ad_state a \<noteq> EXPIRED \<and>
          message_row db' m = Some (a\<lparr>ad_state := ACKED\<rparr>) \<and> report_of db' m = report_of db m \<and>
          (\<forall>f. fact_at db' m f = (if (f = ACKED \<and> ad_state a \<noteq> ACKED) \<or> (f = ''accepted'' \<and> fact_at db m f = None) then Some now
             else fact_at db m f))" if m: "m \<in> set ids" for m
  proof -
    from party m obtain a where a: "message_row db m = Some a" "handoff_party b False a" "ad_state a \<noteq> EXPIRED" by blast
    with effect m have "view_of db' m = recorded_view ''accepted'' now (a, fact_at db m) (acked_view () now a (view_of db m))"
      by fastforce
    with a show ?thesis
      by (cases "ad_state a = ACKED")
        (auto simp: handoff_party_def view_of_def recorded_view_def acked_view_def message_states split: if_splits)
  qed
  then show ?thesis unfolding Inr sum.case using effect by (intro conjI ballI) blast+
qed

text \<open>Reporting: the receiver of an accepted request records one report. It succeeds exactly when the pointer is printable and short,
  the request is the caller's and accepted, and no other pointer was reported; a repeated report writes nothing, a first
  one writes fact and pointer with one time; the mailbox verifies and no other message changes.\<close>

theorem report_exact:
  assumes "within env (cb_group b) now db"
  shows "report env b m p now db = Inr db' \<longleftrightarrow>
    valid_next_read env p \<and> within env (cb_group b) now db' \<and> (\<forall>m'. m' \<noteq> m \<longrightarrow> view_of db' m' = view_of db m') \<and>
    (\<exists>a. message_row db m = Some a \<and> handoff_party b False a \<and> fact_at db m ''accepted'' \<noteq> None \<and>
      (case report_of db m of
         Some r \<Rightarrow> hr_next_read r = p \<and> db' = db
       | None \<Rightarrow> db' = message_write m (at_message m (\<lambda>r. r)) [(''reported'', now)]
           [\<lparr>hr_message = m, hr_next_read = p, hr_reported_at = now\<rparr>] db))"
  using report_laws [OF assms, of m p db'] by blast

text \<open>C35: Completing: the sender of reported requests, never their receiver, completes them. It succeeds exactly when every id names a
  request the caller sent to someone else and its report is recorded; then each message gets its completion (kept when
  already there), the pointers that name nothing are returned, nothing else changes and the mailbox verifies.\<close>

theorem complete_exact:
  assumes "within env (cb_group b) now db" "distinct ids"
  shows "case complete there b ids now db of
      Inl e \<Rightarrow> \<not> (\<forall>m \<in> set ids. \<exists>a. message_row db m = Some a \<and> ad_group a = cb_group b \<and> ad_kind a = ''request'' \<and>
        ad_sender a = cb_member b \<and> ad_recipient a \<noteq> cb_member b \<and> fact_at db m ''reported'' \<noteq> None)
    | Inr (dangling, db') \<Rightarrow> within env (cb_group b) now db' \<and>
        dangling = filter (\<lambda>m. \<not> pointer_resolves there (map_option hr_next_read (report_of db m))) ids \<and>
        (\<forall>m \<in> set ids. \<exists>a. message_row db m = Some a \<and> ad_group a = cb_group b \<and> ad_kind a = ''request'' \<and>
          ad_sender a = cb_member b \<and> ad_recipient a \<noteq> cb_member b \<and> fact_at db m ''reported'' \<noteq> None \<and>
          message_row db' m = Some a \<and> report_of db' m = report_of db m \<and>
          (\<forall>f. fact_at db' m f = (if f = ''completed'' \<and> fact_at db m f = None then Some now else fact_at db m f))) \<and>
        (\<forall>m. m \<notin> set ids \<longrightarrow> view_of db' m = view_of db m)"
proof -
  have decides: "(\<exists>r. complete there b ids now db = Inr r) \<longleftrightarrow> (\<forall>m \<in> set ids. \<exists>a. message_row db m = Some a \<and>
      ad_group a = cb_group b \<and> ad_kind a = ''request'' \<and> ad_sender a = cb_member b \<and> ad_recipient a \<noteq> cb_member b \<and>
      fact_at db m ''reported'' \<noteq> None)"
    using complete_laws(1) [OF assms, of there] handoff_rows_parties [of b ids True db "\<lambda>c. True"]
    by (simp add: handoff_party_def) blast
  show ?thesis
  proof (cases "complete there b ids now db")
    case (Inl e)
    then show ?thesis using decides by simp
  next
    case (Inr r)
    obtain dangling db' where r: "r = (dangling, db')" by (cases r)
    note effect = complete_laws(2) [OF assms Inr [unfolded r]]
    have "fact_at db' m = (if fact_at db m ''completed'' = None then (fact_at db m)(''completed'' \<mapsto> now) else fact_at db m) \<and>
        message_row db' m = message_row db m \<and> report_of db' m = report_of db m" if "m \<in> set ids" for m
      using effect that by (auto simp: view_of_def)
    with decides Inr have "\<forall>m \<in> set ids. \<exists>a. message_row db m = Some a \<and> ad_group a = cb_group b \<and> ad_kind a = ''request'' \<and>
          ad_sender a = cb_member b \<and> ad_recipient a \<noteq> cb_member b \<and> fact_at db m ''reported'' \<noteq> None \<and>
          message_row db' m = Some a \<and> report_of db' m = report_of db m \<and>
          (\<forall>f. fact_at db' m f = (if f = ''completed'' \<and> fact_at db m f = None then Some now else fact_at db m f))"
      by (intro ballI) fastforce
    then show ?thesis unfolding Inr r sum.case prod.case using effect by (intro conjI) (elim conjE, assumption)+
  qed
qed

end
