(* ===== verification/Ahr_Glob.thy ===== *)
theory Ahr_Glob
  imports Py_Text
begin

text \<open>
  Which repository paths the scope of a hand-off covers
  (\<^verbatim>\<open>src/trw_mcp/handoff/_glob.py\<close>). The patterns are record content, so the source matches
  them with a two-pointer walk that remembers only the last \<open>*\<close> instead of a regular expression.

  \<^item> \<open>segment_walk\<close> is the walk of \<open>_segment\<close>, one recursion per turn of its \<^verbatim>\<open>while\<close>; \<open>full_match\<close> and
    \<open>covers\<close> are \<open>_full\<close> and \<open>covers\<close>.
  \<^item> \<open>wild\<close>, \<open>wild_path\<close> and \<open>in_scope\<close> are the documented meaning of a pattern.
  \<^item> The walk always returns, and decides \<open>wild\<close> on every text without a literal \<open>*\<close>; with one it can
    refuse a text the pattern covers, because its first test takes a \<open>*\<close> of the text for the \<open>*\<close> of
    the pattern.
\<close>

section \<open>The matcher\<close>

text \<open>
  \<open>p\<close> and \<open>t\<close> are the two pointers; the last component is \<open>(star, mark)\<close>, or \<open>None\<close> where the source
  holds \<open>-1\<close>.
\<close>

partial_function (option) segment_walk ::
    "string \<Rightarrow> string \<Rightarrow> nat \<Rightarrow> nat \<Rightarrow> (nat \<times> nat) option \<Rightarrow> bool option" where
  "segment_walk pat str p t trail =
     (if t < length str then
        if p < length pat \<and> (pat ! p = CHR ''?'' \<or> pat ! p = str ! t) then segment_walk pat str (p + 1) (t + 1) trail
        else if p < length pat \<and> pat ! p = CHR ''*'' then segment_walk pat str (p + 1) t (Some (p, t))
        else (case trail of
            Some (star, mark) \<Rightarrow> segment_walk pat str (star + 1) (mark + 1) (Some (star, mark + 1))
          | None \<Rightarrow> Some False)
      else Some (dropWhile (\<lambda>c. c = CHR ''*'') (drop p pat) = []))"

definition segment :: "string \<Rightarrow> string \<Rightarrow> bool" where
  "segment pat str \<longleftrightarrow> segment_walk pat str 0 0 None = Some True"

text \<open>\<open>match(i, j)\<close> of \<open>_full\<close>; the cache does not change its value.\<close>

function match_from :: "string list \<Rightarrow> string list \<Rightarrow> nat \<Rightarrow> nat \<Rightarrow> bool" where
  "match_from pat path i j =
     (if i \<ge> length pat then j = length path
      else if pat ! i = ''**'' then list_ex (\<lambda>k. match_from pat path (i + 1) k) [j ..< length path + 1]
      else j < length path \<and> segment (pat ! i) (path ! j) \<and> match_from pat path (i + 1) (j + 1))"
  by pat_completeness auto
termination
  by (relation "measure (\<lambda>(pat, path, i, j). length pat - i)") auto

declare match_from.simps [simp del]

definition full_match :: "string list \<Rightarrow> string list \<Rightarrow> bool" where
  "full_match pat path = match_from pat path 0 0"

definition rstrip_slash :: "string \<Rightarrow> string" where
  "rstrip_slash s = rev (dropWhile (\<lambda>c. c = CHR ''/'') (rev s))"

definition covers :: "string \<Rightarrow> string \<Rightarrow> bool" where
  "covers pattern path =
     (let pat = split_on (CHR ''/'') (rstrip_slash pattern);
          parts = split_on (CHR ''/'') (rstrip_slash path)
      in if CHR ''*'' \<notin> set pattern \<and> CHR ''?'' \<notin> set pattern then take (length pat) parts = pat
         else full_match pat parts)"

section \<open>What a pattern means\<close>

text \<open>\<open>*\<close> matches any run of characters of one segment, \<open>?\<close> exactly one, another character itself.\<close>

fun wild :: "string \<Rightarrow> string \<Rightarrow> bool" where
  "wild [] u = (u = [])"
| "wild (c # cs) [] = (c = CHR ''*'' \<and> wild cs [])"
| "wild (c # cs) (x # u) =
     (if c = CHR ''*'' then wild cs (x # u) \<or> wild (c # cs) u
      else (c = CHR ''?'' \<or> c = x) \<and> wild cs u)"

text \<open>A \<open>**\<close> segment matches zero or more whole segments.\<close>

fun wild_path :: "string list \<Rightarrow> string list \<Rightarrow> bool" where
  "wild_path [] us = (us = [])"
| "wild_path (c # cs) [] = (c = ''**'' \<and> wild_path cs [])"
| "wild_path (c # cs) (u # us) =
     (if c = ''**'' then wild_path cs (u # us) \<or> wild_path (c # cs) us
      else wild c u \<and> wild_path cs us)"

definition in_scope :: "string \<Rightarrow> string \<Rightarrow> bool" where
  "in_scope pattern path =
     (let pat = split_on (CHR ''/'') (rstrip_slash pattern);
          parts = split_on (CHR ''/'') (rstrip_slash path)
      in if CHR ''*'' \<notin> set pattern \<and> CHR ''?'' \<notin> set pattern then \<exists>rest. parts = pat @ rest
         else wild_path pat parts)"

section \<open>The walk\<close>

lemma wild_stars: "wild ps [] \<longleftrightarrow> dropWhile (\<lambda>c. c = CHR ''*'') ps = []"
  by (induction ps) auto

lemma wild_star: "wild (CHR ''*'' # ps) u \<longleftrightarrow> (\<exists>k \<le> length u. wild ps (drop k u))"
proof (induction u)
  case Nil
  then show ?case by simp
next
  case (Cons x u)
  have "(\<exists>k \<le> length (x # u). wild ps (drop k (x # u))) \<longleftrightarrow>
      wild ps (x # u) \<or> (\<exists>k \<le> length u. wild ps (drop k u))"
    by (metis Suc_le_mono drop_0 drop_Suc_Cons length_Cons not0_implies_Suc zero_le)
  with Cons show ?case by simp
qed

text \<open>A pattern without \<open>*\<close> in front consumes its own length.\<close>

lemma wild_plain_prefix:
  "CHR ''*'' \<notin> set ps \<Longrightarrow> wild (ps @ qs) u \<Longrightarrow> length ps \<le> length u \<and> wild qs (drop (length ps) u)"
proof (induction ps arbitrary: u)
  case Nil
  then show ?case by simp
next
  case (Cons c ps)
  then show ?case by (cases u) auto
qed

text \<open>
  What a state of the walk stands for: the rest of the pattern matches the rest of the text, or it
  does after the last \<open>*\<close> has taken at least one more character.
\<close>

definition walk_means :: "string \<Rightarrow> string \<Rightarrow> nat \<Rightarrow> nat \<Rightarrow> (nat \<times> nat) option \<Rightarrow> bool" where
  "walk_means pat str p t trail \<longleftrightarrow>
     wild (drop p pat) (drop t str) \<or>
     (\<exists>star mark k. trail = Some (star, mark) \<and> mark < k \<and> k \<le> length str \<and> wild (drop (star + 1) pat) (drop k str))"

text \<open>The pointers stay in range; the stretch since the last \<open>*\<close> was matched character by character.\<close>

definition walk_ok :: "string \<Rightarrow> string \<Rightarrow> nat \<Rightarrow> nat \<Rightarrow> (nat \<times> nat) option \<Rightarrow> bool" where
  "walk_ok pat str p t trail \<longleftrightarrow> p \<le> length pat \<and> t \<le> length str \<and>
     (case trail of None \<Rightarrow> True | Some (star, mark) \<Rightarrow> star < p \<and> mark \<le> t)"

definition walk_plain :: "string \<Rightarrow> nat \<Rightarrow> nat \<Rightarrow> (nat \<times> nat) option \<Rightarrow> bool" where
  "walk_plain pat p t trail \<longleftrightarrow>
     (case trail of None \<Rightarrow> True
      | Some (star, mark) \<Rightarrow> p - (star + 1) = t - mark \<and> CHR ''*'' \<notin> set (take (t - mark) (drop (star + 1) pat)))"

lemma drop_at: "p < length xs \<Longrightarrow> drop p xs = xs ! p # drop (p + 1) xs"
  by (simp add: Cons_nth_drop_Suc)

text \<open>A match that starts after a later \<open>mark\<close> also ends later.\<close>

lemma backtrack_shifts:
  assumes ok: "walk_ok pat str p t (Some (star, mark))" and plain: "walk_plain pat p t (Some (star, mark))"
    and k: "mark < k" "k \<le> length str" and matches: "wild (drop (star + 1) pat) (drop k str)"
  shows "t < k + (t - mark) \<and> k + (t - mark) \<le> length str \<and> wild (drop p pat) (drop (k + (t - mark)) str)"
proof -
  define n where "n = t - mark"
  have p: "p = star + 1 + n" and t: "t = mark + n"
    using ok plain by (auto simp: walk_ok_def walk_plain_def n_def)
  have "drop (star + 1) pat = take n (drop (star + 1) pat) @ drop p pat"
    by (metis append_take_drop_id drop_drop add.commute p)
  with matches have split: "wild (take n (drop (star + 1) pat) @ drop p pat) (drop k str)" by simp
  have free: "CHR ''*'' \<notin> set (take n (drop (star + 1) pat))"
    using plain by (simp add: walk_plain_def n_def)
  have len: "length (take n (drop (star + 1) pat)) = n"
    using ok by (simp add: walk_ok_def p min_def) arith
  from wild_plain_prefix [OF free split] len
  have "n \<le> length str - k \<and> wild (drop p pat) (drop (k + n) str)" by (simp add: add.commute)
  with k t show ?thesis by (auto simp: n_def)
qed

lemma walk_takes:
  assumes "p < length pat" "t < length str" "pat ! p = CHR ''?'' \<or> pat ! p = str ! t" "str ! t \<noteq> CHR ''*''"
  shows "walk_means pat str p t trail = walk_means pat str (p + 1) (t + 1) trail"
  using assms by (simp add: walk_means_def drop_at [of p] drop_at [of t] del: drop_Suc_Cons) auto

lemma walk_stars:
  assumes "p < length pat" "t < length str" "pat ! p = CHR ''*''"
    and "walk_ok pat str p t trail" "walk_plain pat p t trail"
  shows "walk_means pat str p t trail = walk_means pat str (p + 1) t (Some (p, t))"
proof -
  have here: "wild (drop p pat) (drop t str) \<longleftrightarrow> (\<exists>k. t \<le> k \<and> k \<le> length str \<and> wild (drop (p + 1) pat) (drop k str))"
    (is "_ \<longleftrightarrow> ?some")
  proof -
    have "wild (drop p pat) (drop t str) \<longleftrightarrow>
        (\<exists>k \<le> length str - t. wild (drop (p + 1) pat) (drop (k + t) str))"
      using assms(1,3) by (simp add: drop_at [of p] wild_star add.commute)
    also have "\<dots> \<longleftrightarrow> ?some"
      using assms(2) by (metis add.commute add_le_cancel_right le_add_diff_inverse2 less_imp_le le_add2 diff_le_mono)
    finally show ?thesis .
  qed
  have later: "?some" if "trail = Some (star, mark)" "mark < k" "k \<le> length str" "wild (drop (star + 1) pat) (drop k str)"
    for star mark k
  proof -
    have "t < k + (t - mark) \<and> k + (t - mark) \<le> length str \<and> wild (drop p pat) (drop (k + (t - mark)) str)"
      by (rule backtrack_shifts [where star = star and mark = mark and k = k]) (use assms(4,5) that in simp_all)
    then obtain j where j: "t < j" "j \<le> length str" "wild (drop p pat) (drop j str)" by blast
    then obtain i where "i \<le> length (drop j str)" "wild (drop (p + 1) pat) (drop i (drop j str))"
      using assms(1,3) by (auto simp: drop_at [of p] wild_star)
    with j show ?thesis by (intro exI [of _ "j + i"]) (auto simp: add.commute)
  qed
  have "walk_means pat str p t trail \<longleftrightarrow> ?some"
    using here later by (auto simp: walk_means_def)
  also have "\<dots> \<longleftrightarrow> walk_means pat str (p + 1) t (Some (p, t))"
    using assms(2) by (auto simp: walk_means_def le_less)
  finally show ?thesis .
qed

lemma walk_misses:
  assumes "t < length str" "\<not> (p < length pat \<and> (pat ! p = CHR ''?'' \<or> pat ! p = str ! t))"
    and "\<not> (p < length pat \<and> pat ! p = CHR ''*'')" and "mark \<le> t"
  shows "walk_means pat str p t None = False"
    and "walk_means pat str p t (Some (star, mark)) =
      walk_means pat str (star + 1) (mark + 1) (Some (star, mark + 1))"
proof -
  have miss: "\<not> wild (drop p pat) (drop t str)"
    using assms(1-3) by (cases "p < length pat") (simp_all add: drop_at [of p] drop_at [of t])
  show "walk_means pat str p t None = False" using miss by (simp add: walk_means_def)
  have "(\<exists>k > mark. k \<le> length str \<and> Q k) \<longleftrightarrow> Q (mark + 1) \<or> (\<exists>k > mark + 1. k \<le> length str \<and> Q k)" for Q
  proof -
    have "mark < k \<longleftrightarrow> k = mark + 1 \<or> mark + 1 < k" for k by arith
    moreover have "mark + 1 \<le> length str" using assms(1,4) by simp
    ultimately show ?thesis by auto
  qed
  with miss show "walk_means pat str p t (Some (star, mark)) =
      walk_means pat str (star + 1) (mark + 1) (Some (star, mark + 1))"
    by (auto simp: walk_means_def)
qed

lemma walk_ends:
  assumes "walk_ok pat str p t trail" "walk_plain pat p t trail" "\<not> t < length str"
  shows "walk_means pat str p t trail \<longleftrightarrow> dropWhile (\<lambda>c. c = CHR ''*'') (drop p pat) = []"
proof -
  have late: "False" if "trail = Some (star, mark)" "mark < k" "k \<le> length str" "wild (drop (star + 1) pat) (drop k str)"
    for star mark k
  proof -
    have "t < k + (t - mark) \<and> k + (t - mark) \<le> length str \<and> wild (drop p pat) (drop (k + (t - mark)) str)"
      by (rule backtrack_shifts [where star = star and mark = mark and k = k]) (use assms that in simp_all)
    with assms(3) show False by simp
  qed
  have "drop t str = []" using assms(3) by simp
  with late show ?thesis by (auto simp: walk_means_def wild_stars)
qed

lemma walk_plain_takes:
  assumes ok: "walk_ok pat str p t trail" and plain: "walk_plain pat p t trail"
    and "p < length pat" "pat ! p \<noteq> CHR ''*''"
  shows "walk_plain pat (p + 1) (t + 1) trail"
proof (cases trail)
  case None
  then show ?thesis by (simp add: walk_plain_def)
next
  case (Some sm)
  then obtain star mark where sm: "trail = Some (star, mark)" by (cases sm) auto
  define n where "n = t - mark"
  have p: "p = star + 1 + n" and t: "Suc t - mark = Suc n"
    using ok plain by (auto simp: sm walk_ok_def walk_plain_def n_def)
  have "take (Suc n) (drop (star + 1) pat) = take n (drop (star + 1) pat) @ [pat ! p]"
    using assms(3) by (simp add: take_Suc_conv_app_nth p)
  with plain assms(4) show ?thesis
    by (simp add: walk_plain_def sm t n_def [symmetric]) (simp add: p)
qed

text \<open>
  The walk moves its last \<open>*\<close> to the right in the pattern, or that star's mark to the right in the text,
  or only the text pointer.
\<close>

definition walk_rank :: "string \<Rightarrow> string \<Rightarrow> (nat \<times> nat \<times> (nat \<times> nat) option) rel" where
  "walk_rank pat str = measures
     [\<lambda>(p, t, trail). (case trail of None \<Rightarrow> length pat + 1 | Some (star, mark) \<Rightarrow> length pat - star),
      \<lambda>(p, t, trail). (case trail of None \<Rightarrow> 0 | Some (star, mark) \<Rightarrow> length str - mark),
      \<lambda>(p, t, trail). length str - t]"

lemma walk_rank_steps:
  assumes "t < length str"
  shows "((p + 1, t + 1, trail), (p, t, trail)) \<in> walk_rank pat str"
    and "p < length pat \<Longrightarrow> walk_ok pat str p t trail \<Longrightarrow> ((p + 1, t, Some (p, t)), (p, t, trail)) \<in> walk_rank pat str"
    and "walk_ok pat str p t (Some (star, mark)) \<Longrightarrow>
      ((star + 1, mark + 1, Some (star, mark + 1)), (p, t, Some (star, mark))) \<in> walk_rank pat str"
  using assms by (auto simp: walk_rank_def walk_ok_def split: option.splits)

lemma wf_walk_rank: "wf (walk_rank pat str)"
  by (simp add: walk_rank_def)

lemma walk_returns:
  "walk_ok pat str p t trail \<Longrightarrow>
   \<exists>b. segment_walk pat str p t trail = Some b \<and>
       (CHR ''*'' \<notin> set str \<and> walk_plain pat p t trail \<longrightarrow> b = walk_means pat str p t trail)"
proof (induction "(p, t, trail)" arbitrary: p t trail rule: wf_induct_rule [OF wf_walk_rank [of pat str]])
  case (1 p t trail)
  note IH = 1(1) and ok = 1(2)
  show ?case
  proof (cases "t < length str")
    case False
    with ok show ?thesis
      by (subst segment_walk.simps) (use walk_ends in auto)
  next
    case inside: True
    show ?thesis
    proof (cases "p < length pat \<and> (pat ! p = CHR ''?'' \<or> pat ! p = str ! t)")
      case True
      have "walk_ok pat str (p + 1) (t + 1) trail"
        using ok inside True by (auto simp: walk_ok_def split: option.splits)
      with IH [OF walk_rank_steps(1) [OF inside]] obtain b where
        b: "segment_walk pat str (p + 1) (t + 1) trail = Some b"
        "CHR ''*'' \<notin> set str \<and> walk_plain pat (p + 1) (t + 1) trail \<longrightarrow> b = walk_means pat str (p + 1) (t + 1) trail"
        by blast
      have star: "str ! t \<noteq> CHR ''*''" if "CHR ''*'' \<notin> set str"
        using that inside nth_mem by metis
      have "walk_plain pat (p + 1) (t + 1) trail" if "CHR ''*'' \<notin> set str" "walk_plain pat p t trail"
        by (rule walk_plain_takes [OF ok that(2)]) (use True star that(1) in auto)
      with b star show ?thesis
        using True inside by (subst segment_walk.simps) (auto simp: walk_takes)
    next
      case nomatch: False
      show ?thesis
      proof (cases "p < length pat \<and> pat ! p = CHR ''*''")
        case True
        have "walk_ok pat str (p + 1) t (Some (p, t))"
          using ok True by (simp add: walk_ok_def)
        with IH [OF walk_rank_steps(2) [OF inside _ ok]] True obtain b where
          b: "segment_walk pat str (p + 1) t (Some (p, t)) = Some b"
          "CHR ''*'' \<notin> set str \<and> walk_plain pat (p + 1) t (Some (p, t)) \<longrightarrow> b = walk_means pat str (p + 1) t (Some (p, t))"
          by blast
        have "walk_plain pat (p + 1) t (Some (p, t))" by (simp add: walk_plain_def)
        then show ?thesis
          using True nomatch inside b ok walk_stars [of p pat t str trail] by (subst segment_walk.simps) auto
      next
        case nostar: False
        show ?thesis
        proof (cases trail)
          case None
          then show ?thesis
            using nomatch nostar inside walk_misses(1) [OF inside nomatch nostar, of 0] by (subst segment_walk.simps) auto
        next
          case (Some sm)
          then obtain star mark where trail: "trail = Some (star, mark)" by (cases sm) auto
          have "walk_ok pat str (star + 1) (mark + 1) (Some (star, mark + 1))"
            using ok inside trail by (auto simp: walk_ok_def)
          with IH [of "star + 1" "mark + 1" "Some (star, mark + 1)"] walk_rank_steps(3) [OF inside] ok trail
          obtain b where
            b: "segment_walk pat str (star + 1) (mark + 1) (Some (star, mark + 1)) = Some b"
            "CHR ''*'' \<notin> set str \<and> walk_plain pat (star + 1) (mark + 1) (Some (star, mark + 1)) \<longrightarrow>
               b = walk_means pat str (star + 1) (mark + 1) (Some (star, mark + 1))"
            by blast
          have "walk_plain pat (star + 1) (mark + 1) (Some (star, mark + 1))" by (simp add: walk_plain_def)
          then show ?thesis
            using nomatch nostar inside b trail walk_misses(2) [OF inside nomatch nostar, of mark star] ok
            by (subst segment_walk.simps) (auto simp: walk_ok_def)
        qed
      qed
    qed
  qed
qed

lemma walk_starts: "walk_ok pat str 0 0 None" "walk_plain pat 0 0 None"
  "walk_means pat str 0 0 None = wild pat str"
  by (simp_all add: walk_ok_def walk_plain_def walk_means_def)

lemma segment_wild: "CHR ''*'' \<notin> set str \<Longrightarrow> segment pat str = wild pat str"
  using walk_returns [of pat str 0 0 None] walk_starts(1) [of pat str] walk_starts(2) [of pat]
    walk_starts(3) [of pat str]
  by (auto simp: segment_def)

section \<open>Paths\<close>

lemma wild_path_stars: "wild_path (''**'' # ps) us \<longleftrightarrow> (\<exists>k \<le> length us. wild_path ps (drop k us))"
proof (induction us)
  case Nil
  then show ?case by simp
next
  case (Cons x us)
  have "(\<exists>k \<le> length (x # us). wild_path ps (drop k (x # us))) \<longleftrightarrow>
      wild_path ps (x # us) \<or> (\<exists>k \<le> length us. wild_path ps (drop k us))"
    by (metis Suc_le_mono drop_0 drop_Suc_Cons length_Cons not0_implies_Suc zero_le)
  with Cons show ?case by simp
qed

lemma match_from_wild:
  "\<forall>u \<in> set path. CHR ''*'' \<notin> set u \<Longrightarrow> i \<le> length pat \<Longrightarrow> j \<le> length path \<Longrightarrow>
   match_from pat path i j = wild_path (drop i pat) (drop j path)"
proof (induction pat path i j rule: match_from.induct)
  case (1 pat path i j)
  consider (ended) "i = length pat" | (stars) "i < length pat" "pat ! i = ''**''"
    | (one) "i < length pat" "pat ! i \<noteq> ''**''"
    using 1(4) by fastforce
  then show ?case
  proof cases
    case ended
    with 1(5) show ?thesis by (subst match_from.simps) auto
  next
    case stars
    have ih: "match_from pat path (i + 1) k = wild_path (drop (i + 1) pat) (drop k path)"
      if "j \<le> k" "k \<le> length path" for k
      using stars that 1(3) by (intro 1(1)) auto
    have "match_from pat path i j = (\<exists>k \<in> {j .. length path}. match_from pat path (i + 1) k)"
      using stars by (subst match_from.simps) (auto simp: list_ex_iff less_Suc_eq_le)
    also have "\<dots> = (\<exists>k \<in> {j .. length path}. wild_path (drop (i + 1) pat) (drop k path))"
      using ih by auto
    also have "\<dots> = (\<exists>k \<le> length (drop j path). wild_path (drop (i + 1) pat) (drop k (drop j path)))"
    proof
      assume "\<exists>k \<in> {j .. length path}. wild_path (drop (i + 1) pat) (drop k path)"
      then obtain k where "j \<le> k" "k \<le> length path" "wild_path (drop (i + 1) pat) (drop k path)" by auto
      then show "\<exists>k \<le> length (drop j path). wild_path (drop (i + 1) pat) (drop k (drop j path))"
        by (intro exI [of _ "k - j"]) auto
    next
      assume "\<exists>k \<le> length (drop j path). wild_path (drop (i + 1) pat) (drop k (drop j path))"
      then obtain k where "k \<le> length path - j" "wild_path (drop (i + 1) pat) (drop (k + j) path)" by auto
      then show "\<exists>k \<in> {j .. length path}. wild_path (drop (i + 1) pat) (drop k path)"
        using 1(5) by (intro bexI [of _ "k + j"]) auto
    qed
    also have "\<dots> = wild_path (drop i pat) (drop j path)"
      using stars by (simp only: drop_at [of i] wild_path_stars)
    finally show ?thesis .
  next
    case one
    show ?thesis
    proof (cases "j < length path")
      case True
      then have "segment (pat ! i) (path ! j) = wild (pat ! i) (path ! j)"
        using 1(3) by (intro segment_wild) auto
      moreover have "match_from pat path (i + 1) (j + 1) = wild_path (drop (i + 1) pat) (drop (j + 1) path)"
        if "segment (pat ! i) (path ! j)"
        using one True that 1(2) 1(3) by auto
      ultimately show ?thesis
        using one True by (subst match_from.simps) (auto simp: drop_at [of i] drop_at [of j] simp del: drop_Suc_Cons)
    next
      case False
      with one 1(5) show ?thesis by (subst match_from.simps) (simp add: drop_at [of i])
    qed
  qed
qed

lemma chars_split_on: "u \<in> set (split_on sep s) \<Longrightarrow> set u \<subseteq> set s"
proof (induction s arbitrary: u)
  case Nil
  then show ?case by simp
next
  case (Cons c s)
  then show ?case
    by (cases "split_on sep s") (fastforce split: if_splits)+
qed

lemma set_rstrip: "set (rstrip_slash s) \<subseteq> set s"
  unfolding rstrip_slash_def using set_dropWhileD by fastforce

lemma take_prefix_iff: "take (length ps) us = ps \<longleftrightarrow> (\<exists>rest. us = ps @ rest)"
  by (metis append_eq_conv_conj append_take_drop_id)

section \<open>Properties\<close>

text \<open>The segment matcher always returns: for every pattern and every text its loop ends with a
  verdict, however often it goes back to its last \<open>*\<close>.\<close>
theorem segment_returns: "\<exists>verdict. segment_walk pat str 0 0 None = Some verdict"
  using walk_returns [OF walk_starts(1)] by blast

text \<open>C11: On every repository path whose name holds no literal \<open>*\<close>, \<open>covers\<close> decides the documented
  meaning of the pattern: \<open>*\<close> any run inside a segment, \<open>?\<close> one character, \<open>**\<close> any run of segments, and a
  pattern without wildcards covers itself and everything under it.\<close>
theorem covers_iff:
  assumes "CHR ''*'' \<notin> set path"
  shows "covers pattern path \<longleftrightarrow> in_scope pattern path"
proof -
  have "CHR ''*'' \<notin> set u" if "u \<in> set (split_on (CHR ''/'') (rstrip_slash path))" for u
    using chars_split_on [OF that] set_rstrip [of path] assms by blast
  then show ?thesis
    by (simp add: covers_def in_scope_def Let_def full_match_def match_from_wild take_prefix_iff)
qed

theorem covers_iff_witness:
  "covers ''src/*.py'' ''src/a.py'' = in_scope ''src/*.py'' ''src/a.py''"
  by (rule covers_iff) simp

text \<open>A name with a literal \<open>*\<close> can be missed: the pattern \<open>*\<close> matches any run of characters, yet \<open>covers\<close>
  refuses \<open>*a\<close>, because the walk compares the \<open>*\<close> of the pattern with the \<open>*\<close> of the text first and
  never records a star to go back to. Dropping that character from the name makes the same pattern match.\<close>
theorem literal_star_missed:
  "in_scope ''docs/*'' ''docs/*a'' \<and> \<not> covers ''docs/*'' ''docs/*a'' \<and> covers ''docs/*'' ''docs/a''"
proof -
  have miss: "segment_walk ''*'' ''*a'' 0 0 None = Some False"
    by (simp add: segment_walk.simps)
  have hit: "segment_walk ''*'' ''a'' 0 0 None = Some True" and docs: "segment_walk ''docs'' ''docs'' 0 0 None = Some True"
    by (simp_all add: segment_walk.simps)
  show ?thesis
    by (simp add: in_scope_def covers_def rstrip_slash_def full_match_def match_from.simps segment_def miss hit docs upt_rec)
qed

end
