(* ===== verification/Formation_Ownership.thy ===== *)
theory Formation_Ownership
  imports Ahr_Glob
begin

text \<open>
  The formation manifest and the ownership of paths (\<^verbatim>\<open>src/trw_mcp/formation/_manifest.py\<close>, \<^verbatim>\<open>_ownership.py\<close>).

  \<^item> \<open>fnmatchcase\<close> is Python's: the pattern is translated to tokens (consecutive stars are one, a \<^verbatim>\<open>[\<close> without its
    \<^verbatim>\<open>]\<close> is literal, empty ranges are removed), then matched.
  \<^item> A manifest is accepted by \<open>check_manifest\<close>, which normalises globs and identifiers as the model validators do.
  \<^item> \<open>owner_of\<close> is the one answer both enforcement adapters use; \<open>owner_of_longest\<close> is its meaning,
    \<open>owner_depends_on_order\<close> a case its documentation rules out.
\<close>

section \<open>Shell patterns\<close>

datatype token = Star | AnyChar | Lit char | Class bool "(char \<times> char) list"

text \<open>Where the bracket that closes a class is: a \<^verbatim>\<open>!\<close> and then a \<^verbatim>\<open>]\<close> may come first.\<close>

definition class_end :: "string \<Rightarrow> nat option" where
  "class_end cs =
     (let j = (if cs \<noteq> [] \<and> hd cs = CHR ''!'' then 1 else 0);
          j' = (if j < length cs \<and> cs ! j = CHR '']'' then j + 1 else j)
      in if CHR '']'' \<in> set (drop j' cs) then Some (j' + length (takeWhile (\<lambda>c. c \<noteq> CHR '']'') (drop j' cs))) else None)"

text \<open>The text of a class, cut at the hyphens that make ranges; a trailing hyphen is literal.\<close>

function class_chunks :: "nat \<Rightarrow> string \<Rightarrow> string list" where
  "class_chunks k s =
     (if CHR ''-'' \<in> set (drop k s)
      then let p = k + length (takeWhile (\<lambda>c. c \<noteq> CHR ''-'') (drop k s)); rest = drop (p + 1) s
           in if rest = [] then [take p s @ ''-''] else take p s # class_chunks 2 rest
      else [s])"
  by pat_completeness auto
termination
proof (relation "measure (\<lambda>(k, s). length s)", simp)
  fix k p :: nat and s rest :: string
  assume hyphen: "CHR ''-'' \<in> set (drop k s)"
  then have "s \<noteq> []" by auto
  moreover assume "rest = drop (p + 1) s"
  ultimately show "((2, rest), k, s) \<in> measure (\<lambda>(k, s). length s)" by simp
qed

declare class_chunks.simps [simp del]

text \<open>Empty ranges go, from the right.\<close>

fun drop_empty_ranges :: "string list \<Rightarrow> string list" where
  "drop_empty_ranges [] = []"
| "drop_empty_ranges (c # cs) =
     (case drop_empty_ranges cs of
        [] \<Rightarrow> [c]
      | d # ds \<Rightarrow> if hd d < last c then (butlast c @ tl d) # ds else c # d # ds)"

fun class_ranges :: "string list \<Rightarrow> (char \<times> char) list" where
  "class_ranges [] = []"
| "class_ranges [c] = map (\<lambda>x. (x, x)) c"
| "class_ranges (c # d # ds) = map (\<lambda>x. (x, x)) (butlast c) @ (last c, hd d) # class_ranges (tl d # ds)"

definition class_token :: "string \<Rightarrow> token" where
  "class_token s =
     (let chunks = (if CHR ''-'' \<in> set s
            then drop_empty_ranges (class_chunks (if hd s = CHR ''!'' then 2 else 1) s) else [s]);
          c = hd chunks
      in if chunks = [[CHR ''!'']] then AnyChar
         else if c \<noteq> [] \<and> hd c = CHR ''!'' then Class True (class_ranges (tl c # tl chunks))
         else Class False (class_ranges chunks))"

function translate :: "string \<Rightarrow> token list" where
  "translate [] = []"
| "translate (c # cs) =
     (if c = CHR ''*'' then Star # translate (dropWhile (\<lambda>x. x = CHR ''*'') cs)
      else if c = CHR ''?'' then AnyChar # translate cs
      else if c = CHR ''['' then
        (case class_end cs of
           None \<Rightarrow> Lit c # translate cs
         | Some j \<Rightarrow> class_token (take j cs) # translate (drop (j + 1) cs))
      else Lit c # translate cs)"
  by pat_completeness auto
termination
  by (relation "measure length") (auto simp: less_Suc_eq_le length_dropWhile_le)

fun token_accepts :: "token \<Rightarrow> char \<Rightarrow> bool" where
  "token_accepts Star c = False"
| "token_accepts AnyChar c = True"
| "token_accepts (Lit d) c = (c = d)"
| "token_accepts (Class neg rs) c = (list_ex (\<lambda>(lo, hi). lo \<le> c \<and> c \<le> hi) rs \<noteq> neg)"

fun tokens_match :: "token list \<Rightarrow> string \<Rightarrow> bool" where
  "tokens_match [] s = (s = [])"
| "tokens_match (t # ts) [] = (t = Star \<and> tokens_match ts [])"
| "tokens_match (t # ts) (c # cs) =
     (if t = Star then tokens_match ts (c # cs) \<or> tokens_match (t # ts) cs
      else token_accepts t c \<and> tokens_match ts cs)"

definition fnmatchcase :: "string \<Rightarrow> string \<Rightarrow> bool" where
  "fnmatchcase name pat = tokens_match (translate pat) name"

section \<open>The manifest\<close>

datatype formation_error = FormationError string | AdmissionRefused string | CandidateError string

datatype member_status = Pending | Joined | Active | Delivered | Abandoned | Reassigned

fun member_status_value :: "member_status \<Rightarrow> string" where
  "member_status_value Pending = ''pending''"
| "member_status_value Joined = ''joined''"
| "member_status_value Active = ''active''"
| "member_status_value Delivered = ''delivered''"
| "member_status_value Abandoned = ''abandoned''"
| "member_status_value Reassigned = ''reassigned''"

definition TERMINAL_STATUSES :: "member_status list" where
  "TERMINAL_STATUSES = [Delivered, Abandoned, Reassigned]"

record FormationMember =
  fm_id :: string
  fm_client :: string
  fm_role :: string
  fm_run :: "string option"
  fm_pin :: "string option"
  fm_owned :: "string list"
  fm_test_owned :: "string list"
  fm_prds :: "string list"
  fm_status :: member_status
  fm_joined :: "string option"
  fm_note :: string
  fm_open_join :: bool
  fm_candidate :: "string option"
  fm_candidate_revision :: "int option"

record FormationManifest =
  mf_id :: string
  mf_schema :: "int option"
  mf_revision :: int
  mf_created :: string
  mf_updated :: string
  mf_orchestrator :: string
  mf_rules :: string
  mf_members :: "FormationMember list"

definition id_char :: "char \<Rightarrow> bool" where
  "id_char c \<longleftrightarrow> (CHR ''0'' \<le> c \<and> c \<le> CHR ''9'') \<or> (CHR ''A'' \<le> c \<and> c \<le> CHR ''Z'') \<or> (CHR ''a'' \<le> c \<and> c \<le> CHR ''z'')"

text \<open>\<^verbatim>\<open>_ID_RE.match\<close>: \<^verbatim>\<open>$\<close> also matches before a final newline.\<close>

definition valid_id :: "string \<Rightarrow> bool" where
  "valid_id s \<longleftrightarrow>
     (let t = (if s \<noteq> [] \<and> last s = CHR 0x0A then butlast s else s) in
      t \<noteq> [] \<and> id_char (hd t) \<and> length t \<le> 64 \<and>
      list_all (\<lambda>c. id_char c \<or> c \<in> {CHR ''.'', CHR ''_'', CHR ''-''}) (tl t))"

definition normalise_glob :: "string \<Rightarrow> formation_error + string" where
  "normalise_glob raw =
     (let s = strip is_str_space raw;
          cleaned = (if take 2 s = ''./'' then drop 2 s else s)
      in if s = [] then Inl (FormationError ''empty'')
         else if CHR 0x0A \<in> set s \<or> CHR 0x0D \<in> set s \<or> CHR 0x00 \<in> set s then Inl (FormationError ''control character'')
         else if hd s = CHR ''/'' \<or> (1 < length s \<and> s ! 1 = CHR '':'') then Inl (FormationError ''absolute'')
         else if hd s = CHR ''~'' then Inl (FormationError ''home-relative'')
         else if ''..'' \<in> set (split_on (CHR ''/'') cleaned) then Inl (FormationError ''escapes the project root'')
         else Inr (rstrip_slash cleaned))"

fun normalise_globs :: "string list \<Rightarrow> formation_error + string list" where
  "normalise_globs [] = Inr []"
| "normalise_globs (g # gs) = bindE (normalise_glob g) (\<lambda>h. bindE (normalise_globs gs) (\<lambda>hs. Inr (h # hs)))"

definition valid_prd_id :: "string \<Rightarrow> bool" where
  "valid_prd_id s \<longleftrightarrow>
     (case split_on (CHR ''-'') s of
        [p, cat, num] \<Rightarrow> p = ''PRD'' \<and> cat \<noteq> [] \<and> num \<noteq> [] \<and>
          list_all (\<lambda>c. (CHR ''A'' \<le> c \<and> c \<le> CHR ''Z'') \<or> is_digit c) cat \<and> list_all is_digit num
      | _ \<Rightarrow> False)"

definition check_member :: "FormationMember \<Rightarrow> formation_error + FormationMember" where
  "check_member m =
     (if \<not> valid_id (fm_id m) then Inl (FormationError ''member_id'')
      else bindE (normalise_globs (fm_owned m)) (\<lambda>owned.
        bindE (normalise_globs (fm_test_owned m)) (\<lambda>tests.
          if list_ex (\<lambda>p. \<not> valid_prd_id (strip is_str_space p)) (fm_prds m) then Inl (FormationError ''prd_ids'')
          else Inr (m\<lparr>fm_owned := owned, fm_test_owned := tests, fm_prds := map (strip is_str_space) (fm_prds m)\<rparr>))))"

fun check_members :: "FormationMember list \<Rightarrow> formation_error + FormationMember list" where
  "check_members [] = Inr []"
| "check_members (m # ms) = bindE (check_member m) (\<lambda>n. bindE (check_members ms) (\<lambda>ns. Inr (n # ns)))"

definition check_manifest :: "FormationManifest \<Rightarrow> formation_error + FormationManifest" where
  "check_manifest f =
     (if \<not> valid_id (mf_id f) then Inl (FormationError ''formation_id'')
      else if (case mf_schema f of None \<Rightarrow> False | Some v \<Rightarrow> v < 1) then Inl (FormationError ''schema_version'')
      else if mf_revision f < 1 then Inl (FormationError ''revision'')
      else bindE (if strip is_str_space (mf_rules f) = [] then Inr [] else normalise_glob (mf_rules f)) (\<lambda>rules.
        bindE (check_members (mf_members f)) (\<lambda>members.
          if \<not> distinct (map fm_id members) then Inl (FormationError ''duplicate member_id'')
          else if \<not> distinct (concat (map fm_owned members)) then Inl (FormationError ''owned_paths'')
          else if \<not> distinct (concat (map fm_test_owned members)) then Inl (FormationError ''test_owned_paths'')
          else if \<not> distinct (concat (map fm_prds members)) then Inl (FormationError ''prd_ids'')
          else Inr (f\<lparr>mf_rules := rules, mf_members := members\<rparr>))))"

section \<open>Ownership\<close>

record Ownership =
  ow_path :: string
  ow_member :: "string option"
  ow_glob :: "string option"
  ow_test :: bool

definition unowned :: "string \<Rightarrow> Ownership" where
  "unowned path = \<lparr>ow_path = path, ow_member = None, ow_glob = None, ow_test = False\<rparr>"

text \<open>\<^verbatim>\<open>PurePosixPath\<close>: its root (two leading slashes are kept, three are one) and its parts.\<close>

definition pure_root :: "string \<Rightarrow> string" where
  "pure_root s =
     (if take 2 s = ''//'' \<and> take 3 s \<noteq> ''///'' then ''//'' else if take 1 s = ''/'' then ''/'' else [])"

definition pure_parts :: "string \<Rightarrow> string list" where
  "pure_parts s = filter (\<lambda>p. p \<noteq> [] \<and> p \<noteq> ''.'') (split_on (CHR ''/'') s)"

definition relative_to_root :: "string \<Rightarrow> string \<Rightarrow> string option" where
  "relative_to_root raw project_root =
     (let s = strip is_str_space raw;
          posix = map (\<lambda>c. if c = CHR 0x5C then CHR ''/'' else c) s;
          parts = pure_parts posix; root_parts = pure_parts project_root;
          inside = (if pure_root posix = [] then Some parts
                    else if pure_root posix = pure_root project_root \<and> take (length root_parts) parts = root_parts
                    then Some (drop (length root_parts) parts) else None)
      in if s = [] then None
         else (case inside of
             None \<Rightarrow> None
           | Some rel \<Rightarrow> if ''..'' \<in> set rel then None else if rel = [] then None else Some (join ''/'' rel)))"

definition declaration_covers :: "string \<Rightarrow> string \<Rightarrow> bool" where
  "declaration_covers glob rel_path \<longleftrightarrow>
     fnmatchcase rel_path glob \<or> (let dir = rstrip_slash glob @ ''/'' in take (length dir) rel_path = dir)"

definition claims :: "FormationManifest \<Rightarrow> (string \<times> bool \<times> string) list" where
  "claims f = concat (map (\<lambda>m. map (\<lambda>g. (fm_id m, False, g)) (fm_owned m) @ map (\<lambda>g. (fm_id m, True, g)) (fm_test_owned m))
     (mf_members f))"

text \<open>One turn of the loop; the best claim so far, if any.\<close>

definition owner_step :: "string \<Rightarrow> string \<times> bool \<times> string \<Rightarrow> (string \<times> bool \<times> string) option \<Rightarrow>
    formation_error + (string \<times> bool \<times> string) option" where
  "owner_step rel c best =
     (case (c, best) of
        ((member, test, glob), None) \<Rightarrow> if declaration_covers glob rel then Inr (Some c) else Inr None
      | ((member, test, glob), Some (member', test', glob')) \<Rightarrow>
          if \<not> declaration_covers glob rel then Inr best
          else if length glob' < length glob then Inr (Some c)
          else if length glob = length glob' \<and> member \<noteq> member' then Inl (FormationError ''claimed equally'')
          else Inr best)"

definition owner_of :: "FormationManifest \<Rightarrow> string \<Rightarrow> string \<Rightarrow> formation_error + Ownership" where
  "owner_of f raw project_root =
     (case relative_to_root raw project_root of
        None \<Rightarrow> Inr (unowned raw)
      | Some rel \<Rightarrow> bindE (foldE (owner_step rel) (claims f) None) (\<lambda>best.
          Inr (case best of
            None \<Rightarrow> unowned rel
          | Some (member, test, glob) \<Rightarrow> \<lparr>ow_path = rel, ow_member = Some member, ow_glob = Some glob, ow_test = test\<rparr>)))"

section \<open>What they mean\<close>

lemma no_wildcard_translate:
  "set pat \<inter> {CHR ''*'', CHR ''?'', CHR ''[''} = {} \<Longrightarrow> translate pat = map Lit pat"
  by (induction pat rule: translate.induct) auto

lemma tokens_match_Lit: "tokens_match (map Lit pat) s = (s = pat)"
proof (induction pat arbitrary: s)
  case (Cons c pat)
  then show ?case by (cases s) auto
qed simp

lemma fnmatch_literal: "set pat \<inter> {CHR ''*'', CHR ''?'', CHR ''[''} = {} \<Longrightarrow> fnmatchcase s pat \<longleftrightarrow> s = pat"
  by (simp add: fnmatchcase_def no_wildcard_translate tokens_match_Lit)

lemma tokens_match_Star: "tokens_match (Star # ts) s \<longleftrightarrow> (\<exists>u v. s = u @ v \<and> tokens_match ts v)"
proof (induction s)
  case (Cons c cs)
  show ?case
  proof
    assume "tokens_match (Star # ts) (c # cs)"
    then consider "tokens_match ts (c # cs)" | u v where "cs = u @ v" "tokens_match ts v" using Cons.IH by auto
    then show "\<exists>u v. c # cs = u @ v \<and> tokens_match ts v"
      by cases (metis append_Nil, metis append_Cons)
  next
    assume "\<exists>u v. c # cs = u @ v \<and> tokens_match ts v"
    then show "tokens_match (Star # ts) (c # cs)" using Cons.IH by (auto simp: Cons_eq_append_conv)
  qed
qed auto

text \<open>What the loop keeps: the best claim is a covering one and no covering claim is longer or, at its length, another member's.\<close>

definition best_claim :: "string \<Rightarrow> (string \<times> bool \<times> string) list \<Rightarrow> (string \<times> bool \<times> string) option \<Rightarrow> bool" where
  "best_claim rel cs best \<longleftrightarrow>
     (case best of
        None \<Rightarrow> \<forall>(m, t, g) \<in> set cs. \<not> declaration_covers g rel
      | Some (member, test, glob) \<Rightarrow> (member, test, glob) \<in> set cs \<and> declaration_covers glob rel \<and>
          (\<forall>(m, t, g) \<in> set cs. declaration_covers g rel \<longrightarrow> length g < length glob \<or> length g = length glob \<and> m = member))"

lemma owner_step_best:
  assumes "best_claim rel cs best" "owner_step rel c best = Inr best'"
  shows "best_claim rel (cs @ [c]) best'"
proof -
  obtain m t g where c: "c = (m, t, g)" by (cases c)
  show ?thesis
  proof (cases best)
    case None
    with assms c show ?thesis by (auto simp: best_claim_def owner_step_def split: if_splits)
  next
    case (Some b)
    obtain m' t' g' where b: "b = (m', t', g')" by (cases b)
    consider (skip) "\<not> declaration_covers g rel" "best' = best" | (longer) "declaration_covers g rel" "length g' < length g" "best' = Some c"
      | (keep) "declaration_covers g rel" "length g < length g' \<or> length g = length g' \<and> m = m'" "best' = best"
      using assms(2) c Some b by (auto simp: owner_step_def split: if_splits) (meson linorder_neqE_nat)
    then show ?thesis
      using assms(1) c Some b by cases (fastforce simp: best_claim_def)+
  qed
qed

lemma owner_loop_best:
  "foldE (owner_step rel) cs best = Inr best' \<Longrightarrow> best_claim rel seen best \<Longrightarrow> best_claim rel (seen @ cs) best'"
proof (induction cs arbitrary: best seen)
  case (Cons c cs)
  then obtain b where "owner_step rel c best = Inr b" "foldE (owner_step rel) cs b = Inr best'" by auto
  with Cons.IH [of b "seen @ [c]"] owner_step_best [OF Cons.prems(2)] show ?case by simp
qed simp

lemma owner_of_laws:
  assumes owned: "owner_of f raw root = Inr o'" and inside: "relative_to_root raw root = Some rel"
  shows "ow_path o' = rel"
    and "ow_member o' = None \<longleftrightarrow> (\<forall>(m, t, g) \<in> set (claims f). \<not> declaration_covers g rel)"
    and "\<forall>member. ow_member o' = Some member \<longrightarrow> (\<exists>glob. ow_glob o' = Some glob \<and> (member, ow_test o', glob) \<in> set (claims f) \<and>
      declaration_covers glob rel \<and>
      (\<forall>(m, t, g) \<in> set (claims f). declaration_covers g rel \<longrightarrow> length g < length glob \<or> length g = length glob \<and> m = member))"
proof -
  obtain best where loop: "foldE (owner_step rel) (claims f) None = Inr best"
    and o': "o' = (case best of None \<Rightarrow> unowned rel
      | Some (member, test, glob) \<Rightarrow> \<lparr>ow_path = rel, ow_member = Some member, ow_glob = Some glob, ow_test = test\<rparr>)"
    using owned inside by (auto simp: owner_of_def)
  have best: "best_claim rel (claims f) best" using owner_loop_best [OF loop, of "[]"] by (simp add: best_claim_def)
  show "ow_path o' = rel" by (auto simp: o' unowned_def split: option.split)
  show "ow_member o' = None \<longleftrightarrow> (\<forall>(m, t, g) \<in> set (claims f). \<not> declaration_covers g rel)"
  proof (cases best)
    case None
    then show ?thesis using best by (simp add: o' unowned_def best_claim_def)
  next
    case (Some c)
    then show ?thesis using best by (cases c) (force simp: o' best_claim_def)
  qed
  show "\<forall>member. ow_member o' = Some member \<longrightarrow> (\<exists>glob. ow_glob o' = Some glob \<and> (member, ow_test o', glob) \<in> set (claims f) \<and>
      declaration_covers glob rel \<and>
      (\<forall>(m, t, g) \<in> set (claims f). declaration_covers g rel \<longrightarrow> length g < length glob \<or> length g = length glob \<and> m = member))"
    using best by (auto simp: o' unowned_def best_claim_def split: option.split)
qed

text \<open>C36: The owner of a path is a member with a covering declaration, no covering declaration of any member is longer, and none of
  the same length is another member's; a path is unowned exactly when nothing covers it.\<close>

theorem owner_of_longest:
  assumes "owner_of f raw root = Inr o'" "relative_to_root raw root = Some rel"
  shows "ow_path o' = rel \<and>
    (case ow_member o' of
       None \<Rightarrow> \<forall>(m, t, g) \<in> set (claims f). \<not> declaration_covers g rel
     | Some member \<Rightarrow> \<exists>glob. ow_glob o' = Some glob \<and> (member, ow_test o', glob) \<in> set (claims f) \<and> declaration_covers glob rel \<and>
         (\<forall>(m, t, g) \<in> set (claims f). declaration_covers g rel \<longrightarrow> length g < length glob \<or> length g = length glob \<and> m = member))"
proof (cases "ow_member o'")
  case None
  then show ?thesis using owner_of_laws(1,2) [OF assms] by simp
next
  case (Some member)
  then show ?thesis using owner_of_laws(1,3) [OF assms] by simp
qed

section \<open>Where the manifest and the documentation part\<close>

definition plain_member :: "string \<Rightarrow> string \<Rightarrow> FormationMember" where
  "plain_member name glob =
     \<lparr>fm_id = name, fm_client = ''c'', fm_role = [], fm_run = None, fm_pin = None, fm_owned = [glob], fm_test_owned = [],
      fm_prds = [], fm_status = Pending, fm_joined = None, fm_note = [], fm_open_join = False, fm_candidate = None,
      fm_candidate_revision = None\<rparr>"

definition plain_manifest :: "FormationMember list \<Rightarrow> FormationManifest" where
  "plain_manifest members =
     \<lparr>mf_id = ''f'', mf_schema = None, mf_revision = 1, mf_created = [], mf_updated = [], mf_orchestrator = ''/run'',
      mf_rules = [], mf_members = members\<rparr>"

text \<open>Whether a path has an owner can depend on the order of the members: of three declarations that cover it, two of
  equal length refuse it when they come first, although the third is longer and would win.\<close>

theorem owner_depends_on_order:
  "let a = plain_member ''a'' ''src/?.py''; b = plain_member ''b'' ''src/*.py''; c = plain_member ''c'' ''src/[x].py'' in
   check_manifest (plain_manifest [a, b, c]) = Inr (plain_manifest [a, b, c]) \<and>
   owner_of (plain_manifest [a, b, c]) ''src/x.py'' ''/p'' = Inl (FormationError ''claimed equally'') \<and>
   owner_of (plain_manifest [c, a, b]) ''src/x.py'' ''/p'' =
     Inr \<lparr>ow_path = ''src/x.py'', ow_member = Some ''c'', ow_glob = Some ''src/[x].py'', ow_test = False\<rparr>"
  by code_simp

text \<open>A manifest that is accepted when it is written can be refused when it is read back: the glob \<^verbatim>\<open>./\<close> is normalised to the
  empty glob, which is no glob.\<close>

theorem accepted_manifest_refused_later:
  "\<exists>f. check_manifest (plain_manifest [plain_member ''a'' ''./'']) = Inr f \<and> check_manifest f = Inl (FormationError ''empty'')"
proof -
  have "check_manifest (plain_manifest [plain_member ''a'' ''./'']) = Inr (plain_manifest [plain_member ''a'' []])" by code_simp
  moreover have "check_manifest (plain_manifest [plain_member ''a'' []]) = Inl (FormationError ''empty'')" by code_simp
  ultimately show ?thesis by blast
qed

end
