(* ===== verification/Comms_Admission.thy ===== *)
theory Comms_Admission
  imports Comms_Handoff_Facts Formation_Ownership
begin

text \<open>
  The send decision: scopes (\<^verbatim>\<open>src/trw_mcp/comms/_scope.py\<close>), the admission of one message (\<^verbatim>\<open>_admission.py\<close>) and the
  scoped fan-out (\<^verbatim>\<open>_notify.py\<close>).

  \<^item> \<open>parse\<close> normalises a scope in three loops; \<open>parse_canonical\<close> says what it returns.
  \<^item> \<open>admit\<close> is the whole decision for one message, \<open>notify\<close> the bounded loop over it with its retry rules.
  \<^item> A member id, key or scope that is not text cannot occur: Python checks it dynamically and refuses.
\<close>

section \<open>Scopes\<close>

fun replace_slashes :: "string \<Rightarrow> string" where
  "replace_slashes (c # d # cs) =
     (if c = CHR ''/'' \<and> d = CHR ''/'' then CHR ''/'' # replace_slashes cs else c # replace_slashes (d # cs))"
| "replace_slashes cs = cs"

lemma replace_slashes_length: "length (replace_slashes s) \<le> length s"
  by (induction s rule: replace_slashes.induct) auto

lemma replace_slashes_shorter: "contains ''//'' s \<Longrightarrow> length (replace_slashes s) < length s"
proof (induction s rule: replace_slashes.induct)
  case (1 c d cs)
  then show ?case using replace_slashes_length [of cs] by (auto split: if_splits)
qed auto

function collapse_slashes :: "string \<Rightarrow> string" where
  "collapse_slashes s = (if contains ''//'' s then collapse_slashes (replace_slashes s) else s)"
  by pat_completeness auto
termination
  by (relation "measure length") (auto simp: replace_slashes_shorter)

declare collapse_slashes.simps [simp del]

fun drop_here :: "string \<Rightarrow> string" where
  "drop_here (c # d # cs) = (if c = CHR ''.'' \<and> d = CHR ''/'' then drop_here cs else c # d # cs)"
| "drop_here cs = cs"

definition parse :: "comms_env \<Rightarrow> nat \<Rightarrow> string \<Rightarrow> ahr_error + string" where
  "parse env max_bytes raw =
     (let refuse = Inl (AdmissionError ''invalid_scope''); s = ce_nfc env raw;
          bare = rstrip_slash (collapse_slashes (drop_here s)); segments = split_on (CHR ''/'') bare
      in if raw = [] then refuse
         else if has_control_characters s \<or> max_bytes < length s then refuse
         else if list_ex (\<lambda>c. c \<in> set ''*?[]'') s \<or> CHR 0x5C \<in> set s \<or>
            (1 < length s \<and> s ! 1 = CHR '':'' \<and> ((CHR ''A'' \<le> s ! 0 \<and> s ! 0 \<le> CHR ''Z'') \<or> (CHR ''a'' \<le> s ! 0 \<and> s ! 0 \<le> CHR ''z''))) \<or>
            take 1 s = ''/''
         then refuse
         else if bare = [] \<or> list_ex (\<lambda>w. w \<in> {[], ''.'', ''..''}) segments then refuse else Inr bare)"

definition intersects :: "string \<Rightarrow> string \<Rightarrow> bool" where
  "intersects scope declared \<longleftrightarrow>
     (let pattern = strip is_str_space declared in
      pattern \<noteq> [] \<and> (declaration_covers pattern scope \<or> take (length scope + 1) pattern = scope @ ''/''))"

section \<open>One message\<close>

definition find_admission :: "comms_db \<Rightarrow> string \<Rightarrow> string \<Rightarrow> string \<Rightarrow> admission option" where
  "find_admission db gid sender key =
     find (\<lambda>a. ad_group a = gid \<and> ad_sender a = sender \<and> ad_key a = key) (admissions db)"

definition shards :: "comms_env \<Rightarrow> comms_db \<Rightarrow> string \<Rightarrow> string \<Rightarrow> string \<Rightarrow> admission list" where
  "shards env db gid sender request_key =
     (let prefix = shard_prefix env request_key in
      filter (\<lambda>a. ad_group a = gid \<and> ad_sender a = sender \<and> take (length prefix) (ad_key a) = prefix) (admissions db))"

definition live_refusal :: "comms_env \<Rightarrow> comms_db \<Rightarrow> string \<Rightarrow> RecipientSnapshot \<Rightarrow> int \<Rightarrow> string option" where
  "live_refusal env db gid r now =
     (case endpoint_of db gid (rs_member r) of
        None \<Rightarrow> Some ''recipient_unavailable''
      | Some e \<Rightarrow>
          if en_lease e \<le> now then Some ''recipient_unavailable''
          else if Some (ce_resolve env (en_run e)) \<noteq> rs_run r \<or> Some (en_session e) \<noteq> rs_pin r
          then Some ''recipient_binding_mismatch'' else None)"

definition admit ::
    "comms_env \<Rightarrow> comms_draws \<Rightarrow> CallerSnapshot \<Rightarrow> Envelope \<Rightarrow> int \<Rightarrow> int \<Rightarrow> bool \<Rightarrow> comms_db \<Rightarrow>
     ahr_error + receipt \<times> comms_db" where
  "admit env w snap e now ttl_seconds require_live db =
     (let b = cs_binding snap; refuse = (\<lambda>reason. Inl (AdmissionError reason)) in
      bindE (validate_envelope e) (\<lambda>_.
        case find_admission db (cb_group b) (cb_member b) (nv_key e) of
          Some a \<Rightarrow> if matches env e a then Inr (receipt_of a, db) else refuse ''idempotency_conflict''
        | None \<Rightarrow>
            if \<not> is_shard_key (nv_key e) \<and> shards env db (cb_group b) (cb_member b) (nv_key e) \<noteq> []
            then refuse ''idempotency_conflict''
            else (case group_of db (cb_group b) of
                None \<Rightarrow> Inl (MissingMember ''closed'')
              | Some g \<Rightarrow>
                  if gr_closed g \<noteq> 0 then refuse ''group_closed''
                  else if nv_kind e = ''request'' \<and> nv_recipient e = cb_member b then refuse ''handoff_to_self''
                  else (case find (\<lambda>r. rs_member r = nv_recipient e) (cs_recipients snap) of
                      None \<Rightarrow> refuse ''recipient_not_eligible''
                    | Some r \<Rightarrow>
                        if \<not> rs_eligible r then refuse ''recipient_not_eligible''
                        else (case (if require_live then live_refusal env db (cb_group b) r now else None) of
                            Some reason \<Rightarrow> refuse reason
                          | None \<Rightarrow>
                              (case limit_refusal db g (cb_member b) (rs_member r) (nv_body e) now of
                                 Some reason \<Rightarrow> refuse reason
                               | None \<Rightarrow> bindE (insert_admission env w b e now ttl_seconds db)
                                   (\<lambda>(a, db'). Inr (receipt_of a, db'))))))))"

section \<open>Observing a recipient\<close>

definition availability_of :: "int \<Rightarrow> int \<Rightarrow> int \<Rightarrow> int \<Rightarrow> string" where
  "availability_of lease last_seen now horizon_seconds =
     (if now < lease then ''live'' else if now - last_seen < horizon_seconds * SECOND then ''idle'' else ''absent'')"

definition availability :: "endpoint_row option \<Rightarrow> int \<Rightarrow> int \<Rightarrow> string" where
  "availability endpoint now horizon_seconds =
     (case endpoint of None \<Rightarrow> ''never_enrolled'' | Some e \<Rightarrow> availability_of (en_lease e) (en_seen e) now horizon_seconds)"

definition WAKE_UNOBSERVED :: string where
  "WAKE_UNOBSERVED = ''none''"

definition observe_recipient :: "comms_db \<Rightarrow> string \<Rightarrow> string \<Rightarrow> int \<Rightarrow> int \<Rightarrow> string \<times> int \<times> string" where
  "observe_recipient db gid member now horizon_seconds =
     (let e = endpoint_of db gid member in
      (availability e now horizon_seconds, (case e of None \<Rightarrow> 0 | Some e \<Rightarrow> en_generation e), WAKE_UNOBSERVED))"

section \<open>The fan-out\<close>

definition MAX_NOTIFY_KEY_BYTES :: nat where
  "MAX_NOTIFY_KEY_BYTES = 128"

definition SKIPPABLE :: "string list" where
  "SKIPPABLE = [''recipient_not_eligible'', ''recipient_unavailable'', ''recipient_binding_mismatch'']"

definition NOT_RETAINED :: string where
  "NOT_RETAINED = ''not_in_retained_notify''"

definition candidates :: "CallerSnapshot \<Rightarrow> string \<Rightarrow> RecipientSnapshot list" where
  "candidates snap scope =
     sort_key rs_member (filter (\<lambda>r. rs_member r \<noteq> cb_member (cs_binding snap) \<and> list_ex (intersects scope) (rs_owned r))
       (cs_recipients snap))"

definition reconcile_retry ::
    "comms_env \<Rightarrow> comms_db \<Rightarrow> CallerBinding \<Rightarrow> string \<Rightarrow> string \<Rightarrow> RecipientSnapshot list \<Rightarrow> ahr_error + string list" where
  "reconcile_retry env db b request_key scope reachable =
     (let rows = shards env db (cb_group b) (cb_member b) request_key; retained = map ad_recipient rows;
          conflict = Inl (AdmissionError ''idempotency_conflict'')
      in if find_admission db (cb_group b) (cb_member b) request_key \<noteq> None then conflict
         else if list_ex (\<lambda>a. scope_digest_of (ad_key a) \<noteq> Some (scope_digest env scope)) rows then conflict
         else if retained \<noteq> [] \<and> \<not> set retained \<subseteq> rs_member ` set reachable then conflict
         else Inr retained)"

record notified =
  nt_scope :: string
  nt_receipts :: "(string \<times> receipt) list"
  nt_skipped :: "(string \<times> string) list"
  nt_not_delivered :: "string list"

definition shard_envelope :: "comms_env \<Rightarrow> string \<Rightarrow> string \<Rightarrow> string \<Rightarrow> string \<Rightarrow> string \<Rightarrow> string \<Rightarrow> Envelope" where
  "shard_envelope env request_key scope body kind delivery_class member =
     \<lparr>nv_recipient = member, nv_key = shard_key env request_key scope member, nv_body = body, nv_kind = kind,
      nv_class = delivery_class, nv_derived = True\<rparr>"

text \<open>One turn of the loop over the reachable peers.\<close>

definition notify_peer ::
    "comms_env \<Rightarrow> comms_draws \<Rightarrow> CallerSnapshot \<Rightarrow> (string \<Rightarrow> Envelope) \<Rightarrow> int \<Rightarrow> int \<Rightarrow> string list \<Rightarrow> RecipientSnapshot \<Rightarrow>
     notified \<times> comms_db \<Rightarrow> ahr_error + notified \<times> comms_db" where
  "notify_peer env w snap envelope now ttl_seconds frozen peer acc =
     (let (n, db) = acc; m = rs_member peer;
          skip = (\<lambda>reason. n\<lparr>nt_skipped := nt_skipped n @ [(m, reason)]\<rparr>)
      in if m \<notin> set frozen then Inr (skip NOT_RETAINED, db)
         else (case admit env w snap (envelope m) now ttl_seconds True db of
             Inr (r, db') \<Rightarrow> Inr (n\<lparr>nt_receipts := nt_receipts n @ [(m, r)]\<rparr>, db')
           | Inl (AdmissionError reason) \<Rightarrow>
               if reason \<in> set SKIPPABLE then Inr (skip reason, db) else Inl (AdmissionError reason)
           | Inl e \<Rightarrow> Inl e))"

definition notify ::
    "comms_env \<Rightarrow> comms_draws \<Rightarrow> CallerSnapshot \<Rightarrow> string \<Rightarrow> string \<Rightarrow> string \<Rightarrow> string \<Rightarrow> string \<Rightarrow> int \<Rightarrow> nat \<Rightarrow> int \<Rightarrow>
     comms_db \<Rightarrow> ahr_error + notified \<times> comms_db" where
  "notify env w snap scope request_key body kind delivery_class now max_recipients ttl_seconds db =
     (let refuse = (\<lambda>reason. Inl (AdmissionError reason)); reachable = candidates snap scope in
      if request_key = [] \<or> MAX_NOTIFY_KEY_BYTES < length request_key \<or> has_control_characters request_key
      then refuse ''invalid_request_key''
      else if reachable = [] then refuse ''scope_matches_no_peer''
      else if max_recipients < length reachable then refuse ''scope_too_broad''
      else bindE (reconcile_retry env db (cs_binding snap) request_key scope reachable) (\<lambda>retained.
        let frozen = (if retained = [] then map rs_member reachable else retained);
            fresh = \<lparr>nt_scope = scope, nt_receipts = [], nt_skipped = [],
              nt_not_delivered = filter (\<lambda>m. m \<notin> set frozen) (map rs_member reachable)\<rparr>
        in bindE (foldE (notify_peer env w snap (shard_envelope env request_key scope body kind delivery_class) now ttl_seconds frozen)
             reachable (fresh, db)) (\<lambda>(n, db').
             if nt_receipts n = [] then refuse ''recipient_unavailable'' else Inr (n, db'))))"

end
