(* ===== verification/Comms_Verify_Spec.thy ===== *)
theory Comms_Verify_Spec
  imports Comms_Rate
begin

text \<open>
  What it means for a mailbox to be sound, written over the rows alone and without any function of the verifier
  (\<^verbatim>\<open>verify\<close> of \<^verbatim>\<open>src/trw_mcp/comms/_schema.py\<close>): no list of checks, no look-up, no running count, no window
  that slides. \<open>verifier_decides\<close> shows that the verifier accepts exactly the sound mailboxes. Only the table of
  refusal reasons is shared, as data.
\<close>

section \<open>The shapes of text columns\<close>

definition hex_text :: "nat \<Rightarrow> string \<Rightarrow> bool" where
  "hex_text n s \<longleftrightarrow> length s = n \<and> set s \<subseteq> set ''0123456789abcdef''"

definition name_text :: "string \<Rightarrow> bool" where
  "name_text s \<longleftrightarrow> (\<exists>c cs. s = c # cs \<and> length cs < 64 \<and> is_alnum c \<and> (\<forall>x \<in> set cs. is_alnum x \<or> x \<in> set ''._-''))"

definition path_text :: "string \<Rightarrow> bool" where
  "path_text s \<longleftrightarrow> (\<exists>rest. s = CHR ''/'' # rest)"

text \<open>A W3C trace parent of version 00 with non-zero ids, perhaps with one final newline.\<close>

definition trace_core :: "string \<Rightarrow> bool" where
  "trace_core t \<longleftrightarrow> (\<exists>trace span flags. t = ''00-'' @ trace @ ''-'' @ span @ ''-'' @ flags \<and>
     hex_text 32 trace \<and> hex_text 16 span \<and> hex_text 2 flags \<and> (\<exists>c \<in> set trace. c \<noteq> CHR ''0'') \<and> (\<exists>c \<in> set span. c \<noteq> CHR ''0''))"

definition trace_text :: "string \<Rightarrow> bool" where
  "trace_text s \<longleftrightarrow> (\<exists>t. trace_core t \<and> (s = t \<or> s = t @ [CHR 0x0A]))"

definition pointer_text :: "comms_env \<Rightarrow> string \<Rightarrow> bool" where
  "pointer_text env s \<longleftrightarrow> 1 \<le> length s \<and> length s \<le> 512 \<and> (\<forall>c \<in> set s. \<not> ce_unprintable env c)"

section \<open>The rows\<close>

definition group_sound :: "comms_db \<Rightarrow> group_row \<Rightarrow> bool" where
  "group_sound db g \<longleftrightarrow>
     hex_text 32 (gr_id g) \<and> name_text (gr_formation g) \<and> path_text (gr_manifest g) \<and>
     0 \<le> gr_created g \<and> gr_created g \<le> gr_time g \<and> gr_closed g \<in> {0, 1} \<and>
     gr_group_limit g \<in> {1 .. 4096} \<and> gr_body_limit g \<in> {1 .. 65536} \<and> gr_outstanding_limit g \<in> {1 .. 256} \<and>
     gr_rate_limit g \<in> {1 .. 256} \<and> gr_body_budget g \<in> {65536 .. 16777216} \<and> gr_charge g \<le> gr_group_limit g \<and>
     gr_charge g = int (length (filter (\<lambda>a. ad_group a = gr_id g) (admissions db)))"

definition endpoint_sound :: "comms_db \<Rightarrow> endpoint_row \<Rightarrow> bool" where
  "endpoint_sound db e \<longleftrightarrow>
     (\<exists>g \<in> set (groups db). gr_id g = en_group e \<and> name_text (en_member e) \<and> hex_text 32 (en_incarnation e) \<and> en_session e \<noteq> [] \<and>
        path_text (en_run e) \<and> 0 \<le> en_enrolled e \<and> en_enrolled e \<le> en_seen e \<and> en_seen e \<le> en_lease e \<and> en_seen e \<le> gr_time g \<and>
        en_generation e \<in> {1 .. 9223372036854775807} \<and> en_protocol e \<in> {3, 4})"

text \<open>The row of a message, in its group \<open>g\<close>.\<close>

definition admission_sound :: "group_row \<Rightarrow> admission \<Rightarrow> bool" where
  "admission_sound g a \<longleftrightarrow>
     ad_rowid a \<in> {1 .. 9223372036854775807} \<and> hex_text 32 (ad_message a) \<and> name_text (ad_sender a) \<and> name_text (ad_recipient a) \<and>
     ad_kind a \<in> {''request'', ''reply'', ''status''} \<and> ad_class a \<in> {''on_demand'', ''interrupt'', ''on_idle''} \<and>
     length (ad_key a) \<in> {1 .. 128} \<and> int (length (ad_body a)) \<le> gr_body_limit g \<and> hex_text 32 (ad_incarnation a) \<and>
     0 \<le> gr_created g \<and> gr_created g \<le> ad_admitted_at a \<and> ad_admitted_at a \<le> gr_time g \<and> ad_admitted_at a \<le> ad_expires_at a \<and>
     ad_state a \<in> {''pending'', ''acked'', ''expired''} \<and> ad_delivery_count a \<in> {0 .. 9223372036854775807} \<and>
     hex_text 64 (ad_sha256 a) \<and> (\<forall>t. ad_traceparent a = Some t \<longrightarrow> trace_text t)"

text \<open>
  The traffic up to a message: the pending messages of its recipient, and those its sender had admitted in the minute
  that ends with it.
\<close>

definition traffic_sound :: "comms_db \<Rightarrow> group_row \<Rightarrow> admission \<Rightarrow> bool" where
  "traffic_sound db g a \<longleftrightarrow>
     (ad_state a = ''pending'' \<longrightarrow> int (length (filter (\<lambda>b. ad_group b = ad_group a \<and> ad_recipient b = ad_recipient a \<and>
        ad_state b = ''pending'') (admissions db))) \<le> gr_outstanding_limit g) \<and>
     int (length (filter (\<lambda>b. ad_group b = ad_group a \<and> ad_sender b = ad_sender a \<and> ad_admitted_at b \<le> ad_admitted_at a \<and>
        ad_admitted_at a - ad_admitted_at b < 60000000) (admissions db))) \<le> gr_rate_limit g"

definition fact_row :: "comms_db \<Rightarrow> string \<Rightarrow> string \<Rightarrow> int \<Rightarrow> bool" where
  "fact_row db m f t \<longleftrightarrow> (\<exists>r \<in> set (milestones db). ms_message r = m \<and> ms_fact r = f \<and> ms_at r = t)"

definition facts_sound :: "comms_env \<Rightarrow> comms_db \<Rightarrow> group_row \<Rightarrow> admission \<Rightarrow> bool" where
  "facts_sound env db g a \<longleftrightarrow> (let has = fact_row db (ad_message a) in
     has ''admitted'' (ad_admitted_at a) \<and>
     (\<forall>f t. has f t \<longrightarrow> ad_admitted_at a \<le> t \<and> t \<le> gr_time g \<and>
        f \<in> {''admitted'', ''fetch_prepared'', ''acked'', ''expired'', ''accepted'', ''reported'', ''completed''}) \<and>
     (\<forall>f \<in> {''acked'', ''expired''}. (\<exists>t. has f t) \<longleftrightarrow> ad_state a = f) \<and>
     (\<forall>f \<in> {''acked'', ''expired''}. \<forall>t u. has ''fetch_prepared'' t \<and> has f u \<longrightarrow> t \<le> u) \<and>
     (\<forall>f \<in> {''accepted'', ''reported'', ''completed''}. \<forall>t. has f t \<longrightarrow> ad_kind a = ''request'') \<and>
     (\<forall>(before, after) \<in> {(''acked'', ''accepted''), (''accepted'', ''reported''), (''reported'', ''completed'')}.
        \<forall>u. has after u \<longrightarrow> (\<exists>t. has before t \<and> t \<le> u)) \<and>
     (\<forall>t. has ''reported'' t \<longrightarrow> (\<exists>r \<in> set (handoff_reports db). hr_message r = ad_message a)) \<and>
     (\<forall>r \<in> set (handoff_reports db). hr_message r = ad_message a \<longrightarrow>
        has ''reported'' (hr_reported_at r) \<and> pointer_text env (hr_next_read r)))"

definition refusal_sound :: "comms_db \<Rightarrow> refusal_count \<Rightarrow> bool" where
  "refusal_sound db r \<longleftrightarrow>
     (\<exists>g \<in> set (groups db). gr_id g = rc_group r) \<and> rc_reason r \<in> set REFUSALS \<and> rc_count r \<in> {1 .. 9223372036854775807}"

definition mailbox_sound :: "comms_env \<Rightarrow> comms_db \<Rightarrow> bool" where
  "mailbox_sound env db \<longleftrightarrow>
     (\<forall>g \<in> set (groups db). group_sound db g) \<and> (\<forall>e \<in> set (endpoints db). endpoint_sound db e) \<and>
     (\<forall>a \<in> set (admissions db). \<exists>g \<in> set (groups db). gr_id g = ad_group a \<and>
        admission_sound g a \<and> traffic_sound db g a \<and> facts_sound env db g a) \<and>
     (\<forall>r \<in> set (milestones db). \<exists>a \<in> set (admissions db). ad_message a = ms_message r) \<and>
     (\<forall>r \<in> set (handoff_reports db). \<exists>a \<in> set (admissions db). ad_message a = hr_message r) \<and>
     (\<forall>r \<in> set (refusal_counts db). refusal_sound db r)"

section \<open>The two readings agree\<close>

lemma hex_text: "is_hex n s \<longleftrightarrow> hex_text n s"
  unfolding is_hex_def hex_text_def list_all_iff subset_eq hex_digits_def ..

lemma name_text: "is_member_id s \<longleftrightarrow> name_text s"
  by (auto simp: is_member_id_def name_text_def list_all_iff less_Suc_eq_le split: list.splits)

lemma path_text: "absolute s \<longleftrightarrow> path_text s"
  by (cases s) (simp_all add: absolute_def path_text_def)

lemma pointer_text: "valid_next_read env s \<longleftrightarrow> pointer_text env s"
  by (auto simp: valid_next_read_def pointer_text_def NEXT_READ_MAX_BYTES_def list_ex_iff Suc_le_eq)

lemma zeros: "t \<noteq> [] \<Longrightarrow> set t \<noteq> {CHR ''0''} \<longleftrightarrow> (\<exists>c \<in> set t. c \<noteq> CHR ''0'')"
  by (cases t) auto

lemma trace_fields:
  assumes "length t = 55" "take 3 t = ''00-''" "t ! 35 = CHR ''-''" "t ! 52 = CHR ''-''"
  shows "t = ''00-'' @ take 32 (drop 3 t) @ ''-'' @ take 16 (drop 36 t) @ ''-'' @ drop 53 t"
proof -
  have "drop 35 t = CHR ''-'' # drop 36 t" "drop 52 t = CHR ''-'' # drop 53 t"
    using Cons_nth_drop_Suc [of 35 t] Cons_nth_drop_Suc [of 52 t] assms by simp_all
  moreover have "drop 3 t = take 32 (drop 3 t) @ drop 35 t" "drop 36 t = take 16 (drop 36 t) @ drop 52 t"
    using append_take_drop_id [of 32 "drop 3 t"] append_take_drop_id [of 16 "drop 36 t"] by (simp_all del: append_take_drop_id)
  moreover have "t = ''00-'' @ drop 3 t" using append_take_drop_id [of 3 t] assms(2) by metis
  ultimately show ?thesis by simp
qed

lemma trace_core:
  "trace_core t \<longleftrightarrow> length t = 55 \<and> take 3 t = ''00-'' \<and> is_hex 32 (take 32 (drop 3 t)) \<and> t ! 35 = CHR ''-'' \<and>
     is_hex 16 (take 16 (drop 36 t)) \<and> t ! 52 = CHR ''-'' \<and> is_hex 2 (drop 53 t) \<and>
     set (take 32 (drop 3 t)) \<noteq> {CHR ''0''} \<and> set (take 16 (drop 36 t)) \<noteq> {CHR ''0''}" (is "_ \<longleftrightarrow> ?fields t")
proof
  assume "trace_core t"
  then obtain trace span flags where t: "t = ''00-'' @ trace @ ''-'' @ span @ ''-'' @ flags"
    and shape: "hex_text 32 trace" "hex_text 16 span" "hex_text 2 flags" "\<exists>c \<in> set trace. c \<noteq> CHR ''0''" "\<exists>c \<in> set span. c \<noteq> CHR ''0''"
    by (auto simp: trace_core_def)
  from shape have "length trace = 32" "length span = 16" "length flags = 2" by (simp_all add: hex_text_def)
  with t have "length t = 55" "take 3 t = ''00-''" "t ! 35 = CHR ''-''" "t ! 52 = CHR ''-''"
    "take 32 (drop 3 t) = trace" "take 16 (drop 36 t) = span" "drop 53 t = flags"
    by (simp_all add: nth_append)
  with shape show "?fields t" by (auto simp: hex_text)
next
  assume fields: "?fields t"
  then have "take 32 (drop 3 t) \<noteq> []" "take 16 (drop 36 t) \<noteq> []" by auto
  then have "(\<exists>c \<in> set (take 32 (drop 3 t)). c \<noteq> CHR ''0'')" "(\<exists>c \<in> set (take 16 (drop 36 t)). c \<noteq> CHR ''0'')"
    using fields zeros by blast+
  moreover have "t = ''00-'' @ take 32 (drop 3 t) @ ''-'' @ take 16 (drop 36 t) @ ''-'' @ drop 53 t"
    using fields trace_fields by blast
  moreover have "hex_text 32 (take 32 (drop 3 t))" "hex_text 16 (take 16 (drop 36 t))" "hex_text 2 (drop 53 t)"
    using fields by (simp_all add: hex_text)
  ultimately show "trace_core t" unfolding trace_core_def by blast
qed

lemma hex_line: "hex_text n s \<Longrightarrow> CHR 0x0A \<notin> set s"
  by (auto simp: hex_text_def dest: subsetD)

lemma trace_text: "valid_traceparent s \<longleftrightarrow> trace_text s"
proof -
  define chomped where "chomped = (if s \<noteq> [] \<and> last s = CHR 0x0A then butlast s else s)"
  have hex_end: "t \<noteq> [] \<and> last t \<noteq> CHR 0x0A" if core: "trace_core t" for t
  proof -
    obtain front flags where t: "t = front @ flags" and flags: "hex_text 2 flags"
      using core unfolding trace_core_def by (metis append.assoc)
    from flags have "flags \<noteq> []" by (auto simp: hex_text_def)
    moreover from this hex_line [OF flags] have "last flags \<noteq> CHR 0x0A" using last_in_set by metis
    ultimately show ?thesis by (simp add: t)
  qed
  have "trace_text s \<longleftrightarrow> trace_core s \<or> (\<exists>t. s = t @ [CHR 0x0A] \<and> trace_core t)"
    unfolding trace_text_def by blast
  also have "\<dots> \<longleftrightarrow> trace_core chomped"
  proof (cases "s \<noteq> [] \<and> last s = CHR 0x0A")
    case True
    then have "s = chomped @ [CHR 0x0A]" using append_butlast_last_id [of s] by (simp add: chomped_def)
    then show ?thesis using hex_end [of s] True by auto
  next
    case False
    then show ?thesis by (auto simp: chomped_def)
  qed
  finally show ?thesis unfolding trace_core valid_traceparent_def Let_def chomped_def [symmetric] by simp
qed

section \<open>Row by row\<close>

lemma group_sound:
  "group_sound db g \<longleftrightarrow> group_ok g \<and> charge_of db (gr_id g) = gr_charge g"
  by (auto simp: group_sound_def group_ok_def group_checks_def charge_of_def hex_text name_text path_text path_text_def
      dest: sym)

lemma endpoint_sound:
  assumes "keys_ok db"
  shows "endpoint_sound db e \<longleftrightarrow> (\<exists>g. group_of db (en_group e) = Some g \<and> endpoint_ok g e)"
  by (auto simp: endpoint_sound_def endpoint_ok_def keys_lookups [OF assms] hex_text name_text path_text MAX_COUNTER_def
      ENDPOINT_PROTOCOL_def)

lemma admission_sound: "admission_sound g a \<longleftrightarrow> admission_ok g a"
  by (auto simp: admission_sound_def admission_ok_def hex_text name_text trace_text KINDS_def DELIVERY_CLASSES_def
      MESSAGE_STATES_def message_states MAX_COUNTER_def Suc_le_eq)

lemma traffic_window:
  "window_count t (sender_times db gid sender) = int (length (filter (\<lambda>b. ad_group b = gid \<and> ad_sender b = sender \<and>
     ad_admitted_at b \<le> t \<and> t - ad_admitted_at b < 60000000) (admissions db)))"
  by (simp add: window_count_def sender_times_def filter_map comp_def SECOND_def conj_assoc)

lemma traffic_sound:
  assumes "keys_ok db"
  shows "(\<forall>a \<in> set (admissions db). \<forall>g. group_of db (ad_group a) = Some g \<longrightarrow> traffic_sound db g a) \<longleftrightarrow>
    (\<forall>a \<in> set (admissions db). \<forall>g. group_of db (ad_group a) = Some g \<longrightarrow>
      rate_ok (gr_rate_limit g) (sender_times db (ad_group a) (ad_sender a)) \<and>
      (ad_state a = PENDING \<longrightarrow> outstanding (ad_group a) (ad_recipient a) (admissions db) \<le> gr_outstanding_limit g))"
proof -
  have "traffic_sound db g a \<longleftrightarrow> window_count (ad_admitted_at a) (sender_times db (ad_group a) (ad_sender a)) \<le> gr_rate_limit g \<and>
      (ad_state a = PENDING \<longrightarrow> outstanding (ad_group a) (ad_recipient a) (admissions db) \<le> gr_outstanding_limit g)" for g a
    by (auto simp: traffic_sound_def traffic_window outstanding_def PENDING_def)
  moreover have "(\<forall>a \<in> set (admissions db). \<forall>g. group_of db (ad_group a) = Some g \<longrightarrow>
      window_count (ad_admitted_at a) (sender_times db (ad_group a) (ad_sender a)) \<le> gr_rate_limit g) \<longleftrightarrow>
    (\<forall>a \<in> set (admissions db). \<forall>g. group_of db (ad_group a) = Some g \<longrightarrow>
      rate_ok (gr_rate_limit g) (sender_times db (ad_group a) (ad_sender a)))"
    by (fastforce simp: rate_ok_iff sender_times_def)
  ultimately show ?thesis by (simp only: conj_commute) blast
qed

lemma fact_sets:
  "set TERMINAL_MESSAGE_STATES = {''acked'', ''expired''}" "set HANDOFF_FACTS = {''accepted'', ''reported'', ''completed''}"
  "set MILESTONE_FACTS = {''admitted'', ''fetch_prepared'', ''acked'', ''expired'', ''accepted'', ''reported'', ''completed''}"
  by (simp_all add: TERMINAL_MESSAGE_STATES_def HANDOFF_FACTS_def MILESTONE_FACTS_def message_states)

lemma regroup: "(D \<and> V \<longleftrightarrow> DV) \<Longrightarrow> (B \<Longrightarrow> C \<longleftrightarrow> C') \<Longrightarrow> (A \<and> D \<and> V \<and> B \<and> C \<and> X) \<longleftrightarrow> (A \<and> DV \<and> B \<and> C' \<and> X)"
  by blast

text \<open>The same conditions on the facts of one message, read as a map.\<close>

lemma message_ok_facts:
  assumes "ad_state a = PENDING \<or> ad_state a \<in> T" and "set TERMINAL_MESSAGE_STATES = T" "PENDING \<notin> T"
  shows "message_ok env g a F R \<longleftrightarrow>
     F ''admitted'' = Some (ad_admitted_at a) \<and>
     (\<forall>f t. F f = Some t \<longrightarrow> ad_admitted_at a \<le> t \<and> t \<le> gr_time g \<and> f \<in> set MILESTONE_FACTS) \<and>
     (\<forall>f \<in> T. (\<exists>t. F f = Some t) \<longleftrightarrow> ad_state a = f) \<and>
     (\<forall>f \<in> T. \<forall>t u. F ''fetch_prepared'' = Some t \<and> F f = Some u \<longrightarrow> t \<le> u) \<and>
     (\<forall>f \<in> set HANDOFF_FACTS. \<forall>t. F f = Some t \<longrightarrow> ad_kind a = ''request'') \<and>
     (\<forall>(before, after) \<in> {(ACKED, ''accepted''), (''accepted'', ''reported''), (''reported'', ''completed'')}.
        \<forall>u. F after = Some u \<longrightarrow> (\<exists>t. F before = Some t \<and> t \<le> u)) \<and>
     (\<forall>t. F ''reported'' = Some t \<longrightarrow> R \<noteq> None) \<and>
     (\<forall>r. R = Some r \<longrightarrow> F ''reported'' = Some (hr_reported_at r) \<and> valid_next_read env (hr_next_read r))"
proof -
  have times: "dom F \<subseteq> M \<and> (\<forall>f t. F f = Some t \<longrightarrow> ad_admitted_at a \<le> t \<and> t \<le> gr_time g) \<longleftrightarrow>
      (\<forall>f t. F f = Some t \<longrightarrow> ad_admitted_at a \<le> t \<and> t \<le> gr_time g \<and> f \<in> M)" for M by blast
  have fetched: "(\<forall>t u. F ''fetch_prepared'' = Some t \<and> ad_state a \<noteq> PENDING \<and> F (ad_state a) = Some u \<longrightarrow> t \<le> u) \<longleftrightarrow>
      (\<forall>f \<in> T. \<forall>t u. F ''fetch_prepared'' = Some t \<and> F f = Some u \<longrightarrow> t \<le> u)"
    if here: "\<forall>f \<in> T. (\<exists>t. F f = Some t) \<longleftrightarrow> ad_state a = f"
  proof (cases "ad_state a = PENDING")
    case True
    with here assms(3) have "\<forall>f \<in> T. F f = None" by (metis not_Some_eq)
    with True show ?thesis by simp
  next
    case False
    have "ad_state a = f" if "f \<in> T" "F f = Some u" for f u using here that by blast
    with False assms(1) show ?thesis by blast
  qed
  have reported: "(case R of None \<Rightarrow> F ''reported'' = None
      | Some r \<Rightarrow> F ''reported'' = Some (hr_reported_at r) \<and> valid_next_read env (hr_next_read r)) \<longleftrightarrow>
     (\<forall>t. F ''reported'' = Some t \<longrightarrow> R \<noteq> None) \<and>
     (\<forall>r. R = Some r \<longrightarrow> F ''reported'' = Some (hr_reported_at r) \<and> valid_next_read env (hr_next_read r))"
    by (cases R) auto
  have handoff: "((\<exists>f \<in> H. \<exists>t. F f = Some t) \<longrightarrow> ad_kind a = ''request'') \<longleftrightarrow> (\<forall>f \<in> H. \<forall>t. F f = Some t \<longrightarrow> ad_kind a = ''request'')" for H
    by auto
  show ?thesis
    unfolding message_ok_def reported handoff assms(2) not_None_eq by (rule regroup [OF times fetched])
qed

lemma facts_sound:
  assumes keys: "keys_ok db" and state: "ad_state a \<in> set MESSAGE_STATES"
  shows "facts_sound env db g a \<longleftrightarrow> message_ok env g a (fact_at db (ad_message a)) (report_of db (ad_message a))"
proof -
  have state: "ad_state a = PENDING \<or> ad_state a \<in> {''acked'', ''expired''}" "PENDING \<notin> {''acked'', ''expired''}"
    using state by (auto simp: MESSAGE_STATES_def message_states)
  have facts: "fact_row db m f t \<longleftrightarrow> fact_at db m f = Some t" for m f t
    by (simp add: fact_row_def keys_lookups(3) [OF keys])
  have reports: "(\<exists>r \<in> set (handoff_reports db). hr_message r = m) \<longleftrightarrow> report_of db m \<noteq> None"
    "(\<forall>r \<in> set (handoff_reports db). hr_message r = m \<longrightarrow> P r) \<longleftrightarrow> (\<forall>r. report_of db m = Some r \<longrightarrow> P r)" for m P
    by (auto simp: keys_lookups(4) [OF keys] simp flip: ex_in_conv)
  show ?thesis
    unfolding message_ok_facts [OF state(1) fact_sets(1) state(2)] facts_sound_def Let_def facts reports pointer_text fact_sets ACKED_def ..
qed

section \<open>The verifier\<close>

lemma mailbox_sound:
  assumes keys: "keys_ok db"
  shows "mailbox_sound env db \<longleftrightarrow> mailbox_ok env db"
proof -
  note look = keys_lookups [OF keys]
  have rows: "(\<forall>a \<in> set (admissions db). \<exists>g \<in> set (groups db). gr_id g = ad_group a \<and> admission_sound g a \<and> traffic_sound db g a \<and>
        facts_sound env db g a) \<longleftrightarrow>
      (\<forall>a \<in> set (admissions db). row_ok env db a) \<and>
      (\<forall>a \<in> set (admissions db). \<forall>g. group_of db (ad_group a) = Some g \<longrightarrow> traffic_sound db g a)"
  proof -
    have "(\<exists>g \<in> set (groups db). gr_id g = ad_group a \<and> admission_sound g a \<and> traffic_sound db g a \<and> facts_sound env db g a) \<longleftrightarrow>
        row_ok env db a \<and> (\<forall>g. group_of db (ad_group a) = Some g \<longrightarrow> traffic_sound db g a)" for a
    proof -
      have "(\<exists>g \<in> set (groups db). gr_id g = ad_group a \<and> admission_sound g a \<and> traffic_sound db g a \<and> facts_sound env db g a) \<longleftrightarrow>
          (\<exists>g. group_of db (ad_group a) = Some g \<and> admission_ok g a \<and> traffic_sound db g a \<and> facts_sound env db g a)"
        unfolding look(1) admission_sound by blast
      also have "\<dots> \<longleftrightarrow> (\<exists>g. group_of db (ad_group a) = Some g \<and> admission_ok g a \<and> traffic_sound db g a \<and>
          message_ok env g a (fact_at db (ad_message a)) (report_of db (ad_message a)))"
        using facts_sound [OF keys] by (auto simp: admission_ok_def)
      finally show ?thesis by (auto simp: row_ok_def)
    qed
    then show ?thesis by blast
  qed
  have orphans: "(\<forall>r \<in> set (milestones db). \<exists>a \<in> set (admissions db). ad_message a = ms_message r) \<longleftrightarrow>
      ms_message ` set (milestones db) \<subseteq> ad_message ` set (admissions db)"
    "(\<forall>r \<in> set (handoff_reports db). \<exists>a \<in> set (admissions db). ad_message a = hr_message r) \<longleftrightarrow>
      hr_message ` set (handoff_reports db) \<subseteq> ad_message ` set (admissions db)"
    by (auto simp: image_iff subset_iff) metis+
  have refusals: "refusal_sound db r \<longleftrightarrow> group_of db (rc_group r) \<noteq> None \<and> rc_reason r \<in> set REFUSALS \<and>
      1 \<le> rc_count r \<and> rc_count r \<le> MAX_COUNTER" for r
    using look(1) by (auto simp: refusal_sound_def MAX_COUNTER_def)
  show ?thesis
    unfolding mailbox_sound_def mailbox_ok_def group_sound endpoint_sound [OF keys] rows orphans refusals traffic_sound [OF keys]
    by (simp only: keys conj_assoc simp_thms)
qed

text \<open>C14: The verifier, a long list of row checks with early exits, running counts and a sliding window, accepts a mailbox with the
  declared keys exactly when it is sound: every row has its shape, limits and times, a group's charge is the number of its
  messages, no recipient has more pending messages and no sender more admissions in any minute than the group allows, the
  facts of every message agree with its state, follow one another in order and are its own, and no row is an orphan. Every other
  mailbox is reported corrupt. Soundness is stated over the rows alone and shares no function with the verifier.\<close>

theorem verifier_decides:
  assumes "keys_ok db"
  shows "verify_schema env db = (if mailbox_sound env db then Inr () else Inl (StoreError ''storage_corrupt''))"
  using verify_ok [OF assms, of env] mailbox_sound [OF assms, of env] by (auto simp: verify_schema_def split: sum.split)

end
