(* ===== verification/Comms_Examples.thy ===== *)
theory Comms_Examples
  imports Comms_Admission Comms_Verify_Spec
begin

text \<open>
  One mailbox at one time, with a message in every stage of a hand-off. The verifier accepts it by evaluation, and the properties
  of the mailbox theories are applied to it.
\<close>

definition demo_env :: comms_env where
  "demo_env = \<lparr>ce_sha256 = \<lambda>s. replicate 64 CHR ''0'', ce_unprintable = \<lambda>c. c < CHR 0x20, ce_nfc = \<lambda>s. s, ce_resolve = \<lambda>p. p\<rparr>"

definition demo_id :: "char \<Rightarrow> string" where
  "demo_id c = replicate 31 CHR ''0'' @ [c]"

definition demo_gid :: string where
  "demo_gid = replicate 32 CHR ''9''"

definition demo_group :: group_row where
  "demo_group = \<lparr>gr_id = demo_gid, gr_formation = ''f'', gr_manifest = ''/m'', gr_created = 1, gr_time = 10, gr_closed = 0,
     gr_group_limit = 8, gr_body_limit = 64, gr_outstanding_limit = 4, gr_rate_limit = 8, gr_charge = 4, gr_body_budget = 65536\<rparr>"

definition demo_message :: "int \<Rightarrow> char \<Rightarrow> string \<Rightarrow> int \<Rightarrow> admission" where
  "demo_message n c state expires =
     \<lparr>ad_rowid = n, ad_group = demo_gid, ad_sender = ''ann'', ad_key = ''k'' @ [c], ad_recipient = ''bob'', ad_kind = ''request'',
      ad_class = ''on_demand'', ad_body = ''hello'', ad_message = demo_id c, ad_incarnation = NEVER_PREPARED, ad_admitted_at = 2,
      ad_state = state, ad_expires_at = expires, ad_delivery_count = 0, ad_sha256 = replicate 64 CHR ''0'', ad_traceparent = None\<rparr>"

definition demo_fact :: "char \<Rightarrow> string \<Rightarrow> int \<Rightarrow> milestone" where
  "demo_fact c f t = \<lparr>ms_message = demo_id c, ms_fact = f, ms_at = t\<rparr>"

definition demo_db :: comms_db where
  "demo_db = \<lparr>ahr_events = [],
     admissions = [demo_message 1 CHR ''1'' PENDING 9, demo_message 2 CHR ''2'' PENDING 100, demo_message 3 CHR ''3'' ACKED 5,
       demo_message 4 CHR ''4'' ACKED 100],
     groups = [demo_group], endpoints = [],
     milestones = map (\<lambda>c. demo_fact c ''admitted'' 2) ''1234'' @ map (\<lambda>c. demo_fact c ACKED 3) ''34'' @
       map (\<lambda>c. demo_fact c ''accepted'' 4) ''34'' @ [demo_fact CHR ''4'' ''reported'' 5],
     refusal_counts = [], handoff_reports = [\<lparr>hr_message = demo_id CHR ''4'', hr_next_read = ''docs/x.md'', hr_reported_at = 5\<rparr>]\<rparr>"

definition demo_binding :: "string \<Rightarrow> CallerBinding" where
  "demo_binding member = \<lparr>cb_group = demo_gid, cb_formation = ''f'', cb_member = member, cb_session = ''s'', cb_run = ''/r'',
     cb_manifest = ''/m'', cb_orchestrator = False\<rparr>"

lemma demo_keys: "keys_ok demo_db"
  by (simp add: keys_ok_def demo_db_def unique_key_def demo_message_def demo_fact_def demo_id_def message_states)

lemma demo_mailbox: "mailbox_ok demo_env demo_db"
proof -
  have "verify demo_env demo_db = Inr ()" by code_simp
  then show ?thesis using verify_ok [OF demo_keys] by simp
qed

lemma demo_within: "within demo_env demo_gid 10 demo_db"
proof -
  have "group_of demo_db demo_gid = Some demo_group" by code_simp
  then show ?thesis by (simp add: within_def demo_mailbox) (simp add: demo_group_def)
qed

section \<open>The properties, applied\<close>

definition demo_overfull :: comms_db where
  "demo_overfull = demo_db\<lparr>groups := map (\<lambda>g. g\<lparr>gr_rate_limit := 1\<rparr>) (groups demo_db)\<rparr>"

theorem verifier_decides_witness:
  "verify_schema demo_env demo_db = Inr () \<and> \<not> mailbox_sound demo_env demo_overfull \<and>
   verify_schema demo_env demo_overfull = Inl (StoreError ''storage_corrupt'')"
proof -
  have "keys_ok demo_overfull"
    using demo_keys by (simp add: demo_overfull_def keys_ok_def unique_key_def comp_def)
  from verifier_decides [OF this, of demo_env] have spec: "verify_schema demo_env demo_overfull =
      (if mailbox_sound demo_env demo_overfull then Inr () else Inl (StoreError ''storage_corrupt''))" .
  have "verify_schema demo_env demo_overfull = Inl (StoreError ''storage_corrupt'')" by code_simp
  with spec verifier_decides [OF demo_keys, of demo_env] mailbox_sound [OF demo_keys, of demo_env] demo_mailbox show ?thesis
    by (auto split: if_splits)
qed

text \<open>At time 10 the first message is past its deadline; the second is not, and its receiver is terminal or not.\<close>

theorem expire_due_exact_witness:
  "within demo_env demo_gid 10 (expire_due demo_gid 10 [''cal''] demo_db) \<and>
   view_of (expire_due demo_gid 10 [''cal''] demo_db) (demo_id CHR ''2'') = view_of demo_db (demo_id CHR ''2'') \<and>
   fst (view_of (expire_due demo_gid 10 [''cal''] demo_db) (demo_id CHR ''1'')) = Some (demo_message 1 CHR ''1'' EXPIRED 9)"
proof -
  have row: "message_row demo_db (demo_id CHR ''1'') = Some (demo_message 1 CHR ''1'' PENDING 9)"
    "message_row demo_db (demo_id CHR ''2'') = Some (demo_message 2 CHR ''2'' PENDING 100)" by code_simp+
  show ?thesis
    using expire_due_exact [OF demo_within, of "[''cal'']"] row
    by (simp add: view_of_def) (simp add: demo_message_def)
qed

theorem tombstone_keeps_evidence_witness:
  "fact_at (tombstone_due demo_gid 10 5 demo_db) = fact_at demo_db \<and>
   demo_message 3 CHR ''3'' ACKED 5 \<notin> set (admissions (tombstone_due demo_gid 10 0 demo_db)) \<and>
   demo_message 1 CHR ''1'' PENDING 9 \<in> set (admissions (tombstone_due demo_gid 10 0 demo_db))"
proof -
  have "demo_message 3 CHR ''3'' ACKED 5 \<notin> set (admissions (tombstone_due demo_gid 10 0 demo_db))" by code_simp
  moreover have "demo_message 1 CHR ''1'' PENDING 9 \<in> set (admissions demo_db)" by code_simp
  ultimately show ?thesis
    using tombstone_keeps_evidence(2,4) [OF demo_within] by (simp add: demo_message_def)
qed

theorem prepare_fetch_exact_witness:
  "within demo_env demo_gid 10 (prepare_fetch [demo_message 2 CHR ''2'' PENDING 100] 10 (demo_id CHR ''7'') demo_db) \<and>
   view_of (prepare_fetch [demo_message 2 CHR ''2'' PENDING 100] 10 (demo_id CHR ''7'') demo_db) (demo_id CHR ''1'') =
     view_of demo_db (demo_id CHR ''1'')"
proof -
  let ?rows = "[demo_message 2 CHR ''2'' PENDING 100]"
  have facts: "is_hex 32 (demo_id CHR ''7'')" "distinct (map ad_message ?rows)"
    "\<forall>a \<in> set ?rows. a \<in> set (admissions demo_db) \<and> ad_group a = demo_gid \<and> ad_state a = PENDING \<and> ad_delivery_count a < MAX_COUNTER"
    "demo_id CHR ''1'' \<notin> ad_message ` set ?rows"
    by code_simp+
  show ?thesis using prepare_fetch_exact [OF demo_within facts(1-3)] facts(4) by blast
qed

lemma demo_group_of [simp]: "cb_group (demo_binding m) = demo_gid"
  by (simp add: demo_binding_def)

theorem acknowledge_batch_witness:
  "\<exists>db'. bindE (validate_ack (demo_binding ''bob'') [demo_id CHR ''2'', demo_id CHR ''3''] demo_db) (\<lambda>rows. acknowledge rows 10 demo_db) =
       Inr db' \<and> within demo_env demo_gid 10 db' \<and> fact_at db' (demo_id CHR ''2'') ACKED = Some 10"
proof -
  let ?ids = "[demo_id CHR ''2'', demo_id CHR ''3'']"
  have state: "within demo_env (cb_group (demo_binding ''bob'')) 10 demo_db" by (simp add: demo_within)
  have distinct: "distinct ?ids" by code_simp
  have "case bindE (validate_ack (demo_binding ''bob'') ?ids demo_db) (\<lambda>rows. acknowledge rows 10 demo_db) of Inl e \<Rightarrow> False
      | Inr db' \<Rightarrow> fact_at db' (demo_id CHR ''2'') ACKED = Some 10" by code_simp
  then obtain db' where db': "bindE (validate_ack (demo_binding ''bob'') ?ids demo_db) (\<lambda>rows. acknowledge rows 10 demo_db) = Inr db'"
    "fact_at db' (demo_id CHR ''2'') ACKED = Some 10" by (auto split: sum.splits)
  show ?thesis using acknowledge_batch [OF state distinct] db' unfolding db'(1) sum.case by auto
qed

theorem accept_exact_witness:
  "\<exists>db'. accept (demo_binding ''bob'') [demo_id CHR ''2''] 10 demo_db = Inr db' \<and> within demo_env demo_gid 10 db' \<and>
     fact_at db' (demo_id CHR ''2'') ''accepted'' = Some 10 \<and> view_of db' (demo_id CHR ''4'') = view_of demo_db (demo_id CHR ''4'')"
proof -
  have state: "within demo_env (cb_group (demo_binding ''bob'')) 10 demo_db" by (simp add: demo_within)
  obtain db' where db': "accept (demo_binding ''bob'') [demo_id CHR ''2''] 10 demo_db = Inr db'"
    "fact_at db' (demo_id CHR ''2'') ''accepted'' = Some 10"
  proof -
    have "case accept (demo_binding ''bob'') [demo_id CHR ''2''] 10 demo_db of Inl e \<Rightarrow> False
      | Inr db' \<Rightarrow> fact_at db' (demo_id CHR ''2'') ''accepted'' = Some 10" by code_simp
    then show ?thesis using that by (auto split: sum.splits)
  qed
  have "distinct [demo_id CHR ''2'']" "demo_id CHR ''4'' \<notin> set [demo_id CHR ''2'']" by code_simp+
  with accept_exact [OF state, of "[demo_id CHR ''2'']"] db' show ?thesis by (auto simp: distinct_singleton)
qed

theorem report_exact_witness:
  "\<exists>db'. report demo_env (demo_binding ''bob'') (demo_id CHR ''3'') ''docs/y.md'' 10 demo_db = Inr db' \<and>
     within demo_env demo_gid 10 db' \<and> fact_at db' (demo_id CHR ''3'') ''reported'' = Some 10"
proof -
  have state: "within demo_env (cb_group (demo_binding ''bob'')) 10 demo_db" by (simp add: demo_within)
  have "case report demo_env (demo_binding ''bob'') (demo_id CHR ''3'') ''docs/y.md'' 10 demo_db of Inl e \<Rightarrow> False
      | Inr db' \<Rightarrow> fact_at db' (demo_id CHR ''3'') ''reported'' = Some 10" by code_simp
  then obtain db' where "report demo_env (demo_binding ''bob'') (demo_id CHR ''3'') ''docs/y.md'' 10 demo_db = Inr db'"
    "fact_at db' (demo_id CHR ''3'') ''reported'' = Some 10" by (auto split: sum.splits)
  moreover from this(1) have "within demo_env demo_gid 10 db'"
    unfolding report_exact [OF state] by simp
  ultimately show ?thesis by blast
qed

theorem complete_exact_witness:
  "\<exists>db'. complete (\<lambda>p. False) (demo_binding ''ann'') [demo_id CHR ''4''] 10 demo_db = Inr ([demo_id CHR ''4''], db') \<and>
     within demo_env demo_gid 10 db' \<and> fact_at db' (demo_id CHR ''4'') ''completed'' = Some 10"
proof -
  have state: "within demo_env (cb_group (demo_binding ''ann'')) 10 demo_db" by (simp add: demo_within)
  have "case complete (\<lambda>p. False) (demo_binding ''ann'') [demo_id CHR ''4''] 10 demo_db of Inl e \<Rightarrow> False
      | Inr (ids, db') \<Rightarrow> ids = [demo_id CHR ''4''] \<and> fact_at db' (demo_id CHR ''4'') ''completed'' = Some 10" by code_simp
  then obtain db' where "complete (\<lambda>p. False) (demo_binding ''ann'') [demo_id CHR ''4''] 10 demo_db = Inr ([demo_id CHR ''4''], db')"
    "fact_at db' (demo_id CHR ''4'') ''completed'' = Some 10" by (auto split: sum.splits)
  with complete_exact [OF state, of "[demo_id CHR ''4'']" "\<lambda>p. False"] show ?thesis by (auto simp: distinct_singleton)
qed

theorem owner_of_longest_witness:
  "owner_of (plain_manifest [plain_member ''a'' ''src'', plain_member ''b'' ''src/x/**'']) ''src/x/y.py'' ''/p'' =
     Inr \<lparr>ow_path = ''src/x/y.py'', ow_member = Some ''b'', ow_glob = Some ''src/x/**'', ow_test = False\<rparr> \<and>
   (''b'', False, ''src/x/**'') \<in> set (claims (plain_manifest [plain_member ''a'' ''src'', plain_member ''b'' ''src/x/**'']))"
proof -
  have owned: "owner_of (plain_manifest [plain_member ''a'' ''src'', plain_member ''b'' ''src/x/**'']) ''src/x/y.py'' ''/p'' =
     Inr \<lparr>ow_path = ''src/x/y.py'', ow_member = Some ''b'', ow_glob = Some ''src/x/**'', ow_test = False\<rparr>" by code_simp
  have "relative_to_root ''src/x/y.py'' ''/p'' = Some ''src/x/y.py''" by code_simp
  from owner_of_longest [OF owned this] owned show ?thesis by auto
qed

theorem rate_ok_iff_witness: "\<not> rate_ok 2 [0, 30 * SECOND, 59 * SECOND] \<and> rate_ok 2 [0, 30 * SECOND, 60 * SECOND]"
proof -
  have "window_count (59 * SECOND) [0, 30 * SECOND, 59 * SECOND] = 3" by code_simp
  moreover have "list_all (\<lambda>t. window_count t [0, 30 * SECOND, 60 * SECOND] \<le> 2) [0, 30 * SECOND, 60 * SECOND]" by code_simp
  ultimately show ?thesis unfolding rate_ok_iff by (auto simp: list_all_iff)
qed

end
