(* ===== verification/Comms_Fencing.thy ===== *)
theory Comms_Fencing
  imports Comms_Endpoints Comms_Examples
begin

text \<open>
  Several serving processes over one mailbox (\<^verbatim>\<open>src/trw_mcp/comms/_endpoints.py\<close> and its use in \<^verbatim>\<open>comms/__init__.py\<close>).

  \<^item> A process is one process lifetime: a restarted server is another process with an empty memory.
  \<^item> Enrolling is two steps, as in the facade: the transaction commits, and later, outside it, \<open>confirm_enrollment\<close> publishes the
    incarnation in memory. Calls of one process can overlap.
  \<^item> Every other write of the mailbox leaves the endpoints alone (\<open>other\<close>).
\<close>

record fleet =
  fl_db :: comms_db
  fl_memory :: "nat \<Rightarrow> process_memory"
  fl_running :: "(nat \<times> CallerBinding \<times> string) list"

definition fresh_memory :: process_memory where
  "fresh_memory = \<lparr>pm_incarnations = Map.empty, pm_displaced = {}\<rparr>"

text \<open>A drawn token names no incarnation anybody knows.\<close>

definition fresh_token :: "fleet \<Rightarrow> string \<Rightarrow> bool" where
  "fresh_token s t \<longleftrightarrow> t \<notin> en_incarnation ` set (endpoints (fl_db s)) \<and> (\<forall>p. t \<notin> ran (pm_incarnations (fl_memory s p))) \<and>
     t \<notin> (snd \<circ> snd) ` set (fl_running s)"

definition with_memory :: "nat \<Rightarrow> process_memory \<Rightarrow> fleet \<Rightarrow> fleet" where
  "with_memory p mem s = s\<lparr>fl_memory := (fl_memory s)(p := mem)\<rparr>"

definition written :: "(ahr_error + 'a \<times> comms_db) \<Rightarrow> fleet \<Rightarrow> fleet" where
  "written r s = (case r of Inl e \<Rightarrow> s | Inr (x, db') \<Rightarrow> s\<lparr>fl_db := db'\<rparr>)"

inductive fleet_step :: "comms_env \<Rightarrow> fleet \<Rightarrow> fleet \<Rightarrow> bool" for env where
  commits: "enroll env token b now ttl (fl_db s) (fl_memory s p) = (Inr ((ep, inc), db'), mem) \<Longrightarrow> fresh_token s token \<Longrightarrow>
     fleet_step env s (with_memory p mem (s\<lparr>fl_db := db', fl_running := (p, b, inc) # fl_running s\<rparr>))"
| refused: "enroll env token b now ttl (fl_db s) (fl_memory s p) = (Inl e, mem) \<Longrightarrow> fleet_step env s (with_memory p mem s)"
| confirms: "(p, b, inc) \<in> set (fl_running s) \<Longrightarrow>
     fleet_step env s (with_memory p (confirm_enrollment env b inc (fl_memory s p))
       (s\<lparr>fl_running := remove1 (p, b, inc) (fl_running s)\<rparr>))"
| receives: "receiver_incarnation env b now ttl renewal (fl_db s) (fl_memory s p) = (r, mem) \<Longrightarrow>
     fleet_step env s (written r (with_memory p mem s))"
| touches: "touch env b now ttl refusing (fl_db s) (fl_memory s p) = (r, mem) \<Longrightarrow>
     fleet_step env s (written (map_sum id (Pair ()) r) (with_memory p mem s))"
| beats: "heartbeat env b now ttl (fl_db s) (fl_memory s p) = (r, mem) \<Longrightarrow> fleet_step env s (written r (with_memory p mem s))"
| other: "endpoints db' = endpoints (fl_db s) \<Longrightarrow> fleet_step env s (s\<lparr>fl_db := db'\<rparr>)"

section \<open>What a step does\<close>

lemma fleet_fields [simp]:
  "fl_db (with_memory p mem s) = fl_db s" "fl_running (with_memory p mem s) = fl_running s"
  "fl_memory (with_memory p mem s) = (fl_memory s)(p := mem)"
  "fl_memory (written r s) = fl_memory s" "fl_running (written r s) = fl_running s"
  by (simp_all add: with_memory_def written_def split: sum.split)

lemma current_memory: "current env b q db mem = (r, mem') \<Longrightarrow> pm_incarnations mem' = pm_incarnations mem \<and> pm_displaced mem \<subseteq> pm_displaced mem'"
  by (auto simp: current_cases Let_def split: if_splits)

lemma held_memory: "held env b db mem = (r, mem') \<Longrightarrow> pm_incarnations mem' = pm_incarnations mem \<and> pm_displaced mem \<subseteq> pm_displaced mem'"
  by (auto simp: held_def dest: current_memory split: prod.splits)

lemma operation_memory:
  "enroll env token b now ttl db mem = (r1, mem') \<Longrightarrow> pm_incarnations mem' = pm_incarnations mem \<and> pm_displaced mem \<subseteq> pm_displaced mem'"
  "receiver_incarnation env b now ttl renewal db mem = (r2, mem') \<Longrightarrow> pm_incarnations mem' = pm_incarnations mem \<and> pm_displaced mem \<subseteq> pm_displaced mem'"
  "touch env b now ttl refusing db mem = (r3, mem') \<Longrightarrow> pm_incarnations mem' = pm_incarnations mem \<and> pm_displaced mem \<subseteq> pm_displaced mem'"
  "heartbeat env b now ttl db mem = (r4, mem') \<Longrightarrow> pm_incarnations mem' = pm_incarnations mem \<and> pm_displaced mem \<subseteq> pm_displaced mem'"
  by (auto simp: enroll_def receiver_incarnation_def touch_def heartbeat_def Let_def dest: current_memory held_memory split: prod.splits if_splits)

lemma renewed_incarnation:
  "map_option en_incarnation (endpoint_of (renew b now ttl db) i m) = map_option en_incarnation (endpoint_of db i m)"
  by (simp add: endpoint_of_renew option.map_comp comp_def)

lemma operation_incarnation:
  "receiver_incarnation env b now ttl renewal db mem = (Inr (x, db'), mem') \<Longrightarrow>
     map_option en_incarnation (endpoint_of db' i m) = map_option en_incarnation (endpoint_of db i m)"
  "touch env b now ttl refusing db mem = (Inr db', mem') \<Longrightarrow>
     map_option en_incarnation (endpoint_of db' i m) = map_option en_incarnation (endpoint_of db i m)"
  "heartbeat env b now ttl db mem = (Inr (y, db'), mem') \<Longrightarrow>
     map_option en_incarnation (endpoint_of db' i m) = map_option en_incarnation (endpoint_of db i m)"
  by (auto simp: receiver_incarnation_def touch_def heartbeat_def Let_def renewed_incarnation split: prod.splits if_splits)

text \<open>Every step is a committed enrolment, a confirmation, or quiet: it changes no incarnation and forgets no displacement.\<close>

definition incarnation_of :: "fleet \<Rightarrow> string \<Rightarrow> string \<Rightarrow> string option" where
  "incarnation_of s i m = map_option en_incarnation (endpoint_of (fl_db s) i m)"

definition quiet :: "fleet \<Rightarrow> fleet \<Rightarrow> bool" where
  "quiet s s' \<longleftrightarrow> fl_running s' = fl_running s \<and> incarnation_of s' = incarnation_of s \<and>
     (\<forall>p. pm_incarnations (fl_memory s' p) = pm_incarnations (fl_memory s p) \<and> pm_displaced (fl_memory s p) \<subseteq> pm_displaced (fl_memory s' p))"

definition committed :: "comms_env \<Rightarrow> nat \<Rightarrow> CallerBinding \<Rightarrow> string \<Rightarrow> fleet \<Rightarrow> fleet \<Rightarrow> bool" where
  "committed env p b inc s s' \<longleftrightarrow>
     fl_running s' = (p, b, inc) # fl_running s \<and> fl_memory s' = fl_memory s \<and>
     incarnation_of s' = (\<lambda>i m. if (i, m) = (cb_group b, cb_member b) then Some inc else incarnation_of s i m) \<and>
     ownership_key env b \<notin> pm_displaced (fl_memory s p) \<and>
     (\<forall>i j. pm_incarnations (fl_memory s p) (ownership_key env b) = Some i \<and> incarnation_of s (cb_group b) (cb_member b) = Some j \<longrightarrow> i = j) \<and>
     (fresh_token s inc \<or> incarnation_of s (cb_group b) (cb_member b) = Some inc \<and>
        pm_incarnations (fl_memory s p) (ownership_key env b) = Some inc)"

lemma enroll_committed:
  assumes run: "enroll env token b now ttl (fl_db s) (fl_memory s p) = (Inr ((ep, inc), db'), mem)" and fresh: "fresh_token s token"
  shows "committed env p b inc s (with_memory p mem (s\<lparr>fl_db := db', fl_running := (p, b, inc) # fl_running s\<rparr>))"
proof -
  define row mine where defs: "row = endpoint_of (fl_db s) (cb_group b) (cb_member b)" "mine = pm_incarnations (fl_memory s p) (ownership_key env b)"
  define e where "e = enrolled_row b now ttl row mine token"
  have free: "\<not> is_displaced (fl_memory s p) (ownership_key env b) row mine" and mem: "mem = fl_memory s p" and inc: "inc = en_incarnation e"
    and db': "db' = (fl_db s)\<lparr>endpoints := put_row (\<lambda>e. (en_group e, en_member e)) e (endpoints (fl_db s))\<rparr>"
    using run by (auto simp: enroll_def current_cases Let_def defs e_def split: if_splits)
  have "en_group e = cb_group b" "en_member e = cb_member b" by (simp_all add: e_def enrolled_row_def Let_def)
  then have "incarnation_of (with_memory p mem (s\<lparr>fl_db := db', fl_running := (p, b, inc) # fl_running s\<rparr>)) =
      (\<lambda>i m. if (i, m) = (cb_group b, cb_member b) then Some inc else incarnation_of s i m)"
    by (auto simp: incarnation_of_def db' inc fun_eq_iff)
  moreover have "fresh_token s inc \<or> incarnation_of s (cb_group b) (cb_member b) = Some inc \<and> mine = Some inc"
    using fresh free by (auto simp: inc e_def enrolled_row_def Let_def incarnation_of_def defs(1) [symmetric] is_displaced_def split: option.splits)
  moreover have "i = j" if "mine = Some i" "incarnation_of s (cb_group b) (cb_member b) = Some j" for i j
    using that free by (auto simp: incarnation_of_def defs(1) [symmetric] is_displaced_def)
  ultimately show ?thesis using free mem by (auto simp: committed_def defs is_displaced_def with_memory_def)
qed

lemma quiet_write:
  assumes "pm_incarnations mem = pm_incarnations (fl_memory s p) \<and> pm_displaced (fl_memory s p) \<subseteq> pm_displaced mem"
    and "\<And>x db' i m. r = Inr (x, db') \<Longrightarrow>
      map_option en_incarnation (endpoint_of db' i m) = map_option en_incarnation (endpoint_of (fl_db s) i m)"
  shows "quiet s (written r (with_memory p mem s))"
proof (cases r)
  case (Inr c)
  then show ?thesis using assms by (cases c) (simp add: quiet_def incarnation_of_def fun_eq_iff written_def)
next
  case (Inl e)
  then show ?thesis using assms(1) by (simp add: quiet_def incarnation_of_def written_def fun_eq_iff)
qed

lemma fleet_step_cases:
  assumes "fleet_step env s s'"
  obtains (quiet) "quiet s s'"
    | (commit) p b inc where "committed env p b inc s s'"
    | (confirm) p b inc where "(p, b, inc) \<in> set (fl_running s)"
        "s' = with_memory p (confirm_enrollment env b inc (fl_memory s p)) (s\<lparr>fl_running := remove1 (p, b, inc) (fl_running s)\<rparr>)"
  using assms
proof (cases rule: fleet_step.cases)
  case (commits token b now ttl p ep inc db' mem)
  then show thesis using enroll_committed commit by blast
next
  case (refused token b now ttl p e mem)
  then show thesis using operation_memory(1) by (intro quiet) (simp add: quiet_def incarnation_of_def fun_eq_iff)
next
  case (confirms p b inc)
  then show thesis using confirm by blast
next
  case (receives b now ttl renewal p r mem)
  note run = this(2)
  show thesis
  proof (rule quiet, unfold receives(1), rule quiet_write [OF operation_memory(2) [OF run]], goal_cases)
    case (1 x db' i m)
    then show ?case using operation_incarnation(1) run by blast
  qed
next
  case (touches b now ttl refusing p r mem)
  note run = this(2)
  show thesis
  proof (rule quiet, unfold touches(1), rule quiet_write [OF operation_memory(3) [OF run]], goal_cases)
    case (1 x db' i m)
    then show ?case using operation_incarnation(2) run by (cases r) auto
  qed
next
  case (beats b now ttl p r mem)
  note run = this(2)
  show thesis
  proof (rule quiet, unfold beats(1), rule quiet_write [OF operation_memory(4) [OF run]], goal_cases)
    case (1 x db' i m)
    then show ?case using operation_incarnation(3) run by blast
  qed
next
  case (other db')
  then show thesis by (intro quiet) (simp add: quiet_def incarnation_of_def endpoint_of_def fun_eq_iff)
qed

section \<open>One consumer\<close>

definition tokens :: "fleet \<Rightarrow> nat \<Rightarrow> string set" where
  "tokens s p = ran (pm_incarnations (fl_memory s p)) \<union> {t. \<exists>b. (p, b, t) \<in> set (fl_running s)}"

definition exclusive :: "fleet \<Rightarrow> bool" where
  "exclusive s \<longleftrightarrow> (\<forall>p q. p \<noteq> q \<longrightarrow> tokens s p \<inter> tokens s q = {})"

lemma fresh_not_known: "fresh_token s t \<Longrightarrow> t \<notin> tokens s p"
  by (force simp: fresh_token_def tokens_def)

lemma exclusive_step:
  assumes "fleet_step env s s'" "exclusive s"
  shows "exclusive s'"
  using assms(1)
proof (cases rule: fleet_step_cases)
  case quiet
  then have "tokens s' p = tokens s p" for p by (simp add: tokens_def quiet_def)
  with assms(2) show ?thesis by (simp add: exclusive_def)
next
  case (commit p b inc)
  then have "tokens s' q = (if q = p then insert inc (tokens s p) else tokens s q)" for q
    by (auto simp: tokens_def committed_def)
  moreover have "inc \<notin> tokens s q" if "q \<noteq> p" for q
  proof (cases "fresh_token s inc")
    case True
    then show ?thesis by (rule fresh_not_known)
  next
    case False
    with commit have "inc \<in> tokens s p" by (auto simp: committed_def tokens_def intro: ranI)
    with assms(2) that show ?thesis unfolding exclusive_def by blast
  qed
  ultimately show ?thesis using assms(2) unfolding exclusive_def by auto
next
  case (confirm p b inc)
  have "tokens s' q \<subseteq> tokens s q" for q
    using confirm by (auto simp: tokens_def confirm_enrollment_def ran_def dest: set_remove1_subset [THEN subsetD] split: if_splits)
  with assms(2) show ?thesis unfolding exclusive_def by blast
qed

lemma exclusive_reachable: "(fleet_step env)\<^sup>*\<^sup>* s s' \<Longrightarrow> exclusive s \<Longrightarrow> exclusive s'"
  by (induction rule: rtranclp_induct) (auto intro: exclusive_step)

lemma consumer_holds:
  assumes "receiver_incarnation env b now ttl renewal db mem = (Inr (i, db'), mem')"
  shows "pm_incarnations mem (ownership_key env b) = Some i" "map_option en_incarnation (endpoint_of db (cb_group b) (cb_member b)) = Some i"
  using assms by (auto simp: receiver_incarnation_def held_def current_cases Let_def is_displaced_def split: if_splits option.splits)

text \<open>C37: Of all serving processes at most one can consume the messages of a member, whatever was enrolled, taken over, overlapped or
  retried before: if two may fetch for the same member, they are the same process.\<close>

theorem one_consumer:
  assumes "\<forall>p. fl_memory s0 p = fresh_memory" "fl_running s0 = []" "(fleet_step env)\<^sup>*\<^sup>* s0 s"
    and "receiver_incarnation env b now ttl renewal (fl_db s) (fl_memory s p) = (Inr (i, db1), mem1)"
    and "receiver_incarnation env c now' ttl' renewal' (fl_db s) (fl_memory s q) = (Inr (j, db2), mem2)"
    and "cb_group b = cb_group c" "cb_member b = cb_member c"
  shows "p = q"
proof -
  have "exclusive s0" using assms(1,2) by (simp add: exclusive_def tokens_def fresh_memory_def)
  then have "exclusive s" using exclusive_reachable assms(3) by blast
  moreover have "i = j" using consumer_holds(2) [OF assms(4)] consumer_holds(2) [OF assms(5)] assms(6,7) by simp
  moreover have "i \<in> tokens s p" "j \<in> tokens s q"
    using consumer_holds(1) [OF assms(4)] consumer_holds(1) [OF assms(5)] by (auto simp: tokens_def intro: ranI)
  ultimately show ?thesis by (auto simp: exclusive_def)
qed

section \<open>Displaced for good\<close>

definition out :: "comms_env \<Rightarrow> CallerBinding \<Rightarrow> nat \<Rightarrow> string \<Rightarrow> fleet \<Rightarrow> bool" where
  "out env b p i s \<longleftrightarrow>
     (ownership_key env b \<in> pm_displaced (fl_memory s p) \<or> (\<exists>j. incarnation_of s (cb_group b) (cb_member b) = Some j \<and> j \<noteq> i)) \<and>
     pm_incarnations (fl_memory s p) (ownership_key env b) = Some i \<and>
     (\<forall>c t. (p, c, t) \<in> set (fl_running s) \<longrightarrow> ownership_key env c \<noteq> ownership_key env b)"

lemma out_step:
  assumes "fleet_step env s s'" "out env b p i s"
  shows "out env b p i s'"
  using assms(1)
proof (cases rule: fleet_step_cases)
  case quiet
  with assms(2) show ?thesis by (auto simp: out_def quiet_def)
next
  case (commit q c inc)
  have "q \<noteq> p \<or> ownership_key env c \<noteq> ownership_key env b"
    using commit assms(2) by (auto simp: out_def committed_def ownership_key_def)
  moreover have "\<exists>k. incarnation_of s' (cb_group b) (cb_member b) = Some k \<and> k \<noteq> i"
    if old: "incarnation_of s (cb_group b) (cb_member b) = Some j" "j \<noteq> i" for j
  proof (cases "(cb_group b, cb_member b) = (cb_group c, cb_member c)")
    case True
    then have "incarnation_of s' (cb_group b) (cb_member b) = Some inc" using commit by (simp add: committed_def)
    moreover have "inc \<noteq> i"
    proof (cases "fresh_token s inc")
      case fresh: True
      then show ?thesis using assms(2) by (auto simp: fresh_token_def out_def intro: ranI)
    next
      case False
      then show ?thesis using commit True old by (simp add: committed_def)
    qed
    ultimately show ?thesis by blast
  next
    case False
    then show ?thesis using commit old by (auto simp: committed_def)
  qed
  ultimately show ?thesis using commit assms(2) by (fastforce simp: out_def committed_def)
next
  case (confirm q c inc)
  then have "q \<noteq> p \<or> ownership_key env c \<noteq> ownership_key env b" using assms(2) by (auto simp: out_def)
  with confirm assms(2) show ?thesis
    by (auto simp: out_def incarnation_of_def confirm_enrollment_def dest: set_remove1_subset [THEN subsetD])
qed

lemma out_forever: "(fleet_step env)\<^sup>*\<^sup>* s s' \<Longrightarrow> out env b p i s \<Longrightarrow> out env b p i s'"
  by (induction rule: rtranclp_induct) (auto intro: out_step)

definition fenced_out :: "comms_env \<Rightarrow> CallerBinding \<Rightarrow> nat \<Rightarrow> fleet \<Rightarrow> bool" where
  "fenced_out env b p s \<longleftrightarrow> (\<forall>token now ttl renewal.
     fst (receiver_incarnation env b now ttl renewal (fl_db s) (fl_memory s p)) = Inl FENCED \<and>
     fst (enroll env token b now ttl (fl_db s) (fl_memory s p)) = Inl FENCED \<and>
     fst (heartbeat env b now ttl (fl_db s) (fl_memory s p)) = Inl FENCED \<and>
     fst (touch env b now ttl True (fl_db s) (fl_memory s p)) = Inl FENCED)"

lemma out_fenced:
  assumes "out env b p i s"
  shows "fenced_out env b p s"
proof -
  have "is_displaced (fl_memory s p) (ownership_key env b) (endpoint_of (fl_db s) (cb_group b) (cb_member b))
      (pm_incarnations (fl_memory s p) (ownership_key env b))"
    using assms by (auto simp: out_def is_displaced_def incarnation_of_def)
  then show ?thesis
    by (simp add: fenced_out_def receiver_incarnation_def heartbeat_def enroll_def touch_def held_def current_cases Let_def)
qed

text \<open>C38: No ping-pong: once another incarnation holds the endpoint a process owned, the process is refused every receive, enrol,
  heartbeat and fenced send under that binding, whatever any process does afterwards.\<close>

theorem overtaken_stays_out:
  assumes "pm_incarnations (fl_memory s p) (ownership_key env b) = Some i"
    and "\<forall>c t. (p, c, t) \<in> set (fl_running s) \<longrightarrow> ownership_key env c \<noteq> ownership_key env b"
    and "incarnation_of s (cb_group b) (cb_member b) = Some j" "j \<noteq> i"
    and "(fleet_step env)\<^sup>*\<^sup>* s s'"
  shows "fenced_out env b p s'"
proof -
  have "out env b p i s" using assms(1-4) by (simp add: out_def)
  from out_fenced [OF out_forever [OF assms(5) this]] show ?thesis .
qed

section \<open>Overlapping calls of one process\<close>

lemma take_over_free:
  assumes "ownership_key env b \<notin> pm_displaced (fl_memory s p)" "pm_incarnations (fl_memory s p) (ownership_key env b) = None"
    and fresh: "fresh_token s t"
  obtains s' where "fleet_step env s s'" "fl_memory s' = fl_memory s" "fl_running s' = (p, b, t) # fl_running s"
    "incarnation_of s' (cb_group b) (cb_member b) = Some t" "\<And>u. fresh_token s u \<Longrightarrow> u \<noteq> t \<Longrightarrow> fresh_token s' u"
proof -
  define e where "e = enrolled_row b 0 0 (endpoint_of (fl_db s) (cb_group b) (cb_member b)) None t"
  define db' where "db' = (fl_db s)\<lparr>endpoints := put_row (\<lambda>e. (en_group e, en_member e)) e (endpoints (fl_db s))\<rparr>"
  have e: "en_incarnation e = t" "en_group e = cb_group b" "en_member e = cb_member b" by (simp_all add: e_def enrolled_row_def Let_def)
  have run: "enroll env t b 0 0 (fl_db s) (fl_memory s p) = (Inr (((row_to_endpoint e)\<lparr>ep_generation := 1\<rparr>, t), db'), fl_memory s p)"
    using assms by (simp add: enroll_def current_cases Let_def is_displaced_def e_def db'_def split: option.split)
      (simp add: enrolled_row_def Let_def)
  define s' where "s' = with_memory p (fl_memory s p) (s\<lparr>fl_db := db', fl_running := (p, b, t) # fl_running s\<rparr>)"
  have "fleet_step env s s'" unfolding s'_def by (rule commits [OF run fresh])
  moreover have "fl_memory s' = fl_memory s" "fl_running s' = (p, b, t) # fl_running s" by (simp_all add: s'_def)
  moreover have "incarnation_of s' (cb_group b) (cb_member b) = Some t" by (simp add: incarnation_of_def s'_def db'_def e)
  moreover have "fresh_token s' u" if "fresh_token s u" "u \<noteq> t" for u
    using that set_put_row_subset [of "\<lambda>e. (en_group e, en_member e)" e "endpoints (fl_db s)"] e(1)
    by (auto simp: fresh_token_def s'_def db'_def)
  ultimately show thesis by (rule that)
qed

text \<open>A process can fence itself: two overlapping enrolments of one process, confirmed in the other order than they committed,
  leave it displaced for good although no other process ever touched the endpoint.\<close>

theorem overlapping_enrols_fence_the_process:
  assumes "ownership_key env b \<notin> pm_displaced (fl_memory s p)" "pm_incarnations (fl_memory s p) (ownership_key env b) = None"
    and "\<forall>c t. (p, c, t) \<in> set (fl_running s) \<longrightarrow> ownership_key env c \<noteq> ownership_key env b"
    and "fresh_token s t" "fresh_token s u" "t \<noteq> u"
  shows "\<exists>s'. (fleet_step env)\<^sup>*\<^sup>* s s' \<and> (\<forall>q. q \<noteq> p \<longrightarrow> fl_memory s' q = fl_memory s q) \<and>
    (\<forall>s''. (fleet_step env)\<^sup>*\<^sup>* s' s'' \<longrightarrow> fenced_out env b p s'')"
proof -
  obtain s1 where s1: "fleet_step env s s1" "fl_memory s1 = fl_memory s" "fl_running s1 = (p, b, t) # fl_running s" "fresh_token s1 u"
    using take_over_free [OF assms(1,2,4)] assms(5,6) by metis
  then obtain s2 where s2: "fleet_step env s1 s2" "fl_memory s2 = fl_memory s" "fl_running s2 = (p, b, u) # (p, b, t) # fl_running s"
      "incarnation_of s2 (cb_group b) (cb_member b) = Some u"
    using take_over_free [of env b s1 p u] assms(1,2) by metis
  define confirmed where "confirmed i x = with_memory p (confirm_enrollment env b i (fl_memory x p)) (x\<lparr>fl_running := remove1 (p, b, i) (fl_running x)\<rparr>)" for i x
  have s3: "fleet_step env s2 (confirmed u s2)" unfolding confirmed_def by (rule confirms) (simp add: s2)
  have "(p, b, t) \<in> set (fl_running (confirmed u s2))" by (simp add: confirmed_def s2)
  then have s4: "fleet_step env (confirmed u s2) (confirmed t (confirmed u s2))" unfolding confirmed_def [of t] by (rule confirms)
  have "out env b p t (confirmed t (confirmed u s2))"
    using s2 assms(3,6) by (auto simp: out_def confirmed_def incarnation_of_def confirm_enrollment_def)
  then have "fenced_out env b p s''" if "(fleet_step env)\<^sup>*\<^sup>* (confirmed t (confirmed u s2)) s''" for s''
    using out_fenced [OF out_forever [OF that]] by blast
  moreover have "(fleet_step env)\<^sup>*\<^sup>* s (confirmed t (confirmed u s2))"
    using s1(1) s2(1) s3 s4 by (meson converse_rtranclp_into_rtranclp rtranclp.rtrancl_refl)
  moreover have "fl_memory (confirmed t (confirmed u s2)) q = fl_memory s q" if "q \<noteq> p" for q
    using that s2(2) by (simp add: confirmed_def)
  ultimately show ?thesis by blast
qed

section \<open>The properties, applied\<close>

lemma consumer_may:
  assumes "incarnation_of s (cb_group b) (cb_member b) = Some t" "pm_incarnations (fl_memory s p) (ownership_key env b) = Some t"
    "ownership_key env b \<notin> pm_displaced (fl_memory s p)"
  shows "\<exists>db'. receiver_incarnation env b now ttl renewal (fl_db s) (fl_memory s p) = (Inr (t, db'), fl_memory s p)"
  using assms by (auto simp: receiver_incarnation_def held_def current_cases Let_def is_displaced_def incarnation_of_def)

definition demo_fleet :: fleet where
  "demo_fleet = \<lparr>fl_db = demo_db, fl_memory = \<lambda>_. fresh_memory, fl_running = []\<rparr>"

lemma demo_fresh: "fresh_token demo_fleet t"
  by (simp add: fresh_token_def demo_fleet_def demo_db_def fresh_memory_def)

text \<open>Process 0 enrols and its enrolment is confirmed.\<close>

lemma demo_enrolled:
  obtains s where "(fleet_step demo_env)\<^sup>*\<^sup>* demo_fleet s"
    "incarnation_of s (cb_group (demo_binding ''bob'')) (cb_member (demo_binding ''bob'')) = Some t"
    "pm_incarnations (fl_memory s 0) (ownership_key demo_env (demo_binding ''bob'')) = Some t"
    "pm_displaced (fl_memory s 0) = {}" "fl_memory s 2 = fresh_memory" "fl_running s = []" "\<And>u. u \<noteq> t \<Longrightarrow> fresh_token s u"
proof -
  let ?b = "demo_binding ''bob''"
  obtain s1 where s1: "fleet_step demo_env demo_fleet s1" "fl_memory s1 = fl_memory demo_fleet" "fl_running s1 = [(0, ?b, t)]"
    "incarnation_of s1 (cb_group ?b) (cb_member ?b) = Some t" "\<And>u. u \<noteq> t \<Longrightarrow> fresh_token s1 u"
    by (rule take_over_free [of demo_env ?b demo_fleet 0 t]) (simp_all add: demo_fleet_def fresh_memory_def demo_fresh [unfolded demo_fleet_def fresh_memory_def])
  define s2 where "s2 = with_memory 0 (confirm_enrollment demo_env ?b t (fl_memory s1 0)) (s1\<lparr>fl_running := remove1 (0, ?b, t) (fl_running s1)\<rparr>)"
  have "fleet_step demo_env s1 s2" unfolding s2_def by (rule confirms) (simp add: s1)
  then have "(fleet_step demo_env)\<^sup>*\<^sup>* demo_fleet s2" using s1(1) by (meson converse_rtranclp_into_rtranclp rtranclp.rtrancl_refl)
  then show thesis
    using s1 by (intro that [of s2]) (auto simp: s2_def incarnation_of_def confirm_enrollment_def demo_fleet_def fresh_memory_def fresh_token_def)
qed

theorem one_consumer_witness:
  "\<exists>s db'. (fleet_step demo_env)\<^sup>*\<^sup>* demo_fleet s \<and>
     receiver_incarnation demo_env (demo_binding ''bob'') 10 60 True (fl_db s) (fl_memory s 0) = (Inr (demo_id CHR ''a'', db'), fl_memory s 0) \<and>
     (\<forall>q i db2 mem. receiver_incarnation demo_env (demo_binding ''bob'') 10 60 True (fl_db s) (fl_memory s q) = (Inr (i, db2), mem) \<longrightarrow> q = 0)"
proof -
  obtain s where s: "(fleet_step demo_env)\<^sup>*\<^sup>* demo_fleet s"
    "incarnation_of s (cb_group (demo_binding ''bob'')) (cb_member (demo_binding ''bob'')) = Some (demo_id CHR ''a'')"
    "pm_incarnations (fl_memory s 0) (ownership_key demo_env (demo_binding ''bob'')) = Some (demo_id CHR ''a'')"
    "pm_displaced (fl_memory s 0) = {}"
    using demo_enrolled by blast
  obtain db' where may: "receiver_incarnation demo_env (demo_binding ''bob'') 10 60 True (fl_db s) (fl_memory s 0) = (Inr (demo_id CHR ''a'', db'), fl_memory s 0)"
    using consumer_may [OF s(2,3)] s(4) by blast
  have start: "\<forall>p. fl_memory demo_fleet p = fresh_memory" "fl_running demo_fleet = []" by (simp_all add: demo_fleet_def)
  show ?thesis
    using may s(1) one_consumer [OF start s(1) _ may refl refl] by blast
qed

theorem overtaken_stays_out_witness:
  "\<exists>s. (fleet_step demo_env)\<^sup>*\<^sup>* demo_fleet s \<and> fenced_out demo_env (demo_binding ''bob'') 0 s \<and> \<not> fenced_out demo_env (demo_binding ''bob'') 2 s"
proof -
  let ?b = "demo_binding ''bob''"
  obtain s where s: "(fleet_step demo_env)\<^sup>*\<^sup>* demo_fleet s" "pm_incarnations (fl_memory s 0) (ownership_key demo_env ?b) = Some (demo_id CHR ''a'')"
    "fl_memory s 2 = fresh_memory" "fl_running s = []" "\<And>u. u \<noteq> demo_id CHR ''a'' \<Longrightarrow> fresh_token s u"
    using demo_enrolled by blast
  have other: "demo_id CHR ''c'' \<noteq> demo_id CHR ''a''" by (simp add: demo_id_def)
  obtain s' where s': "fleet_step demo_env s s'" "fl_memory s' = fl_memory s" "fl_running s' = [(2, ?b, demo_id CHR ''c'')]"
    "incarnation_of s' (cb_group ?b) (cb_member ?b) = Some (demo_id CHR ''c'')"
    by (rule take_over_free [of demo_env ?b s 2 "demo_id CHR ''c''"]) (simp_all add: s fresh_memory_def other)
  have "fenced_out demo_env ?b 0 s'"
    by (rule overtaken_stays_out [where s = s' and i = "demo_id CHR ''a''" and j = "demo_id CHR ''c''"])
      (simp_all add: s s'(2,3) s'(4) [simplified] other)
  moreover have "\<not> fenced_out demo_env ?b 2 s'"
    by (simp add: fenced_out_def touch_def current_cases Let_def s'(2) s(3) fresh_memory_def is_displaced_def split: option.split)
  moreover have "(fleet_step demo_env)\<^sup>*\<^sup>* demo_fleet s'" using s(1) s'(1) by (rule rtranclp.rtrancl_into_rtrancl)
  ultimately show ?thesis by blast
qed

theorem overlapping_enrols_fence_the_process_witness:
  "\<exists>s. (fleet_step demo_env)\<^sup>*\<^sup>* demo_fleet s \<and> fl_memory s 2 = fresh_memory \<and>
     (\<forall>s'. (fleet_step demo_env)\<^sup>*\<^sup>* s s' \<longrightarrow> fenced_out demo_env (demo_binding ''bob'') 0 s')"
proof -
  have start: "ownership_key demo_env (demo_binding ''bob'') \<notin> pm_displaced (fl_memory demo_fleet 0)"
    "pm_incarnations (fl_memory demo_fleet 0) (ownership_key demo_env (demo_binding ''bob'')) = None"
    "\<forall>c t. (0, c, t) \<in> set (fl_running demo_fleet) \<longrightarrow> ownership_key demo_env c \<noteq> ownership_key demo_env (demo_binding ''bob'')"
    by (simp_all add: demo_fleet_def fresh_memory_def)
  have "demo_id CHR ''a'' \<noteq> demo_id CHR ''c''" by (simp add: demo_id_def)
  from overlapping_enrols_fence_the_process [OF start demo_fresh demo_fresh this] obtain s
    where s: "(fleet_step demo_env)\<^sup>*\<^sup>* demo_fleet s" "\<forall>q. q \<noteq> 0 \<longrightarrow> fl_memory s q = fl_memory demo_fleet q"
      "\<forall>s'. (fleet_step demo_env)\<^sup>*\<^sup>* s s' \<longrightarrow> fenced_out demo_env (demo_binding ''bob'') 0 s'" by blast
  then have "fl_memory s 2 = fresh_memory" by (simp add: demo_fleet_def)
  with s show ?thesis by blast
qed

theorem enroll_exact_witness:
  "\<exists>ep db'. enroll demo_env (demo_id CHR ''a'') (demo_binding ''bob'') 10 60 demo_db fresh_memory = (Inr ((ep, demo_id CHR ''a''), db'), fresh_memory) \<and>
     within demo_env demo_gid 10 db' \<and> view_of db' = view_of demo_db"
proof -
  have none: "endpoint_of demo_db g m = None" for g m
    by (simp add: endpoint_of_def demo_db_def)
  have given: "within demo_env (cb_group (demo_binding ''bob'')) 10 demo_db" "binding_ok (demo_binding ''bob'')" "is_hex 32 (demo_id CHR ''a'')"
    by (simp add: demo_within) code_simp+
  obtain ep db' where run: "enroll demo_env (demo_id CHR ''a'') (demo_binding ''bob'') 10 60 demo_db fresh_memory = (Inr ((ep, demo_id CHR ''a''), db'), fresh_memory)"
    by (simp add: enroll_def current_cases Let_def none fresh_memory_def is_displaced_def enrolled_row_def)
  with enroll_exact [OF given, of 60 fresh_memory] none show ?thesis by (simp add: Let_def)
qed

end
