(* ===== verification/Comms_Paging.thy ===== *)
theory Comms_Paging
  imports Comms_Examples
begin

text \<open>
  The cursor codec and the byte-bounded page packer (\<^verbatim>\<open>src/trw_mcp/comms/_paging.py\<close>), with the cursors of its two
  users (\<^verbatim>\<open>_inbox_page.py\<close>, \<^verbatim>\<open>_peers_page.py\<close>).

  \<^item> A cursor is the URL-safe base64 of the canonical JSON of \<^verbatim>\<open>[1, field, ..]\<close>. The fields of both users are texts and
    integers. \<open>scan_items\<close> reads such arrays; every other JSON value a cursor could hold is refused by both users, as
    here.
  \<^item> \<open>pack\<close> adds entries while the page fits; the size of a page (the length of its canonical JSON) is an argument.
\<close>

section \<open>Base64\<close>

definition b64_alphabet :: string where
  "b64_alphabet = ''ABCDEFGHIJKLMNOPQRSTUVWXYZabcdefghijklmnopqrstuvwxyz0123456789-_''"

definition b64_digit :: "nat \<Rightarrow> char" where
  "b64_digit n = b64_alphabet ! (n mod 64)"

definition b64_value :: "char \<Rightarrow> nat option" where
  "b64_value c = map_option fst (find (\<lambda>(i, d). d = c) (zip [0..<64] b64_alphabet))"

fun b64encode :: "string \<Rightarrow> string" where
  "b64encode [] = []"
| "b64encode [a] = (let x = of_char a in [b64_digit (x div 4), b64_digit (x mod 4 * 16), CHR ''='', CHR ''=''])"
| "b64encode [a, b] =
     (let x = of_char a; y = of_char b in
      [b64_digit (x div 4), b64_digit (x mod 4 * 16 + y div 16), b64_digit (y mod 16 * 4), CHR ''=''])"
| "b64encode (a # b # c # cs) =
     (let x = of_char a; y = of_char b; z = of_char c in
      [b64_digit (x div 4), b64_digit (x mod 4 * 16 + y div 16), b64_digit (y mod 16 * 4 + z div 64), b64_digit (z mod 64)] @
      b64encode cs)"

fun b64decode :: "string \<Rightarrow> string option" where
  "b64decode [] = Some []"
| "b64decode (p # q # r # s # rest) =
     (case (b64_value p, b64_value q) of
        (Some i, Some j) \<Rightarrow>
          let first = char_of (i * 4 + j div 16) in
          if r = CHR ''='' then (if s = CHR ''='' \<and> rest = [] then Some [first] else None)
          else (case b64_value r of
              None \<Rightarrow> None
            | Some k \<Rightarrow>
                let second = char_of (j mod 16 * 16 + k div 4) in
                if s = CHR ''='' then (if rest = [] then Some [first, second] else None)
                else (case b64_value s of
                    None \<Rightarrow> None
                  | Some l \<Rightarrow> map_option (\<lambda>t. first # second # char_of (k mod 4 * 64 + l) # t) (b64decode rest)))
      | _ \<Rightarrow> None)"
| "b64decode cs = None"

lemma less_64_cases: "(n :: nat) < 64 \<longleftrightarrow> n \<in> set [0..<64]"
  by simp

lemma b64_value_digit_low: "n < 64 \<Longrightarrow> b64_value (b64_digit n) = Some n \<and> b64_digit n \<noteq> CHR ''=''"
proof -
  have "list_all (\<lambda>n. b64_value (b64_digit n) = Some n \<and> b64_digit n \<noteq> CHR ''='') [0..<64]" by code_simp
  then show "n < 64 \<Longrightarrow> ?thesis" by (simp add: list_all_iff)
qed

lemma b64_value_digit [simp]: "b64_value (b64_digit n) = Some (n mod 64)" "b64_digit n \<noteq> CHR ''=''"
proof -
  have "b64_digit n = b64_digit (n mod 64)" by (simp add: b64_digit_def)
  then show "b64_value (b64_digit n) = Some (n mod 64)" "b64_digit n \<noteq> CHR ''=''"
    using b64_value_digit_low [of "n mod 64"] by auto
qed

lemma b64decode_digits:
  "i < 64 \<Longrightarrow> j < 64 \<Longrightarrow> b64decode [b64_digit i, b64_digit j, CHR ''='', CHR ''=''] = Some [char_of (i * 4 + j div 16)]"
  "i < 64 \<Longrightarrow> j < 64 \<Longrightarrow> k < 64 \<Longrightarrow> b64decode [b64_digit i, b64_digit j, b64_digit k, CHR ''=''] =
     Some [char_of (i * 4 + j div 16), char_of (j mod 16 * 16 + k div 4)]"
  "i < 64 \<Longrightarrow> j < 64 \<Longrightarrow> k < 64 \<Longrightarrow> l < 64 \<Longrightarrow> b64decode (b64_digit i # b64_digit j # b64_digit k # b64_digit l # rest) =
     map_option (\<lambda>t. char_of (i * 4 + j div 16) # char_of (j mod 16 * 16 + k div 4) # char_of (k mod 4 * 64 + l) # t) (b64decode rest)"
  by (simp_all add: Let_def)

lemma split_byte:
  fixes x y z :: nat
  assumes "x < 256" "y < 256" "z < 256"
  shows "x div 4 < 64" "x mod 4 * 16 < 64" "x mod 4 * 16 + y div 16 < 64" "y mod 16 * 4 < 64" "y mod 16 * 4 + z div 64 < 64" "z mod 64 < 64"
    "x div 4 * 4 + (x mod 4 * 16 + y div 16) div 16 = x" "x div 4 * 4 + (x mod 4 * 16) div 16 = x"
    "(x mod 4 * 16 + y div 16) mod 16 * 16 + (y mod 16 * 4 + z div 64) div 4 = y"
    "(x mod 4 * 16 + y div 16) mod 16 * 16 + (y mod 16 * 4) div 4 = y"
    "(y mod 16 * 4 + z div 64) mod 4 * 64 + z mod 64 = z"
proof -
  have bounds: "x mod 4 < 4" "y mod 16 < 16" "y div 16 < 16" "z div 64 < 4" "z mod 64 < 64" using assms by auto
  then show "x div 4 < 64" "x mod 4 * 16 < 64" "x mod 4 * 16 + y div 16 < 64" "y mod 16 * 4 < 64" "y mod 16 * 4 + z div 64 < 64" "z mod 64 < 64"
    using assms by linarith+
  have "(x mod 4 * 16 + y div 16) div 16 = x mod 4" "(x mod 4 * 16) div 16 = x mod 4" "(x mod 4 * 16 + y div 16) mod 16 = y div 16"
    "(y mod 16 * 4 + z div 64) div 4 = y mod 16" "(y mod 16 * 4) div 4 = y mod 16" "(y mod 16 * 4 + z div 64) mod 4 = z div 64"
    using bounds by simp_all
  then show "x div 4 * 4 + (x mod 4 * 16 + y div 16) div 16 = x" "x div 4 * 4 + (x mod 4 * 16) div 16 = x"
    "(x mod 4 * 16 + y div 16) mod 16 * 16 + (y mod 16 * 4 + z div 64) div 4 = y"
    "(x mod 4 * 16 + y div 16) mod 16 * 16 + (y mod 16 * 4) div 4 = y"
    "(y mod 16 * 4 + z div 64) mod 4 * 64 + z mod 64 = z"
    by (simp_all only: div_mult_mod_eq)
qed

lemma b64_roundtrip: "b64decode (b64encode s) = Some s"
proof (induction s rule: b64encode.induct)
  case (2 a)
  note bytes = split_byte [OF nat_of_char_less_256 [of a] nat_of_char_less_256 [of a] nat_of_char_less_256 [of a]]
  show ?case by (simp only: b64encode.simps Let_def b64decode_digits(1) [OF bytes(1,2)] bytes(8) char_of_char)
next
  case (3 a b)
  note bytes = split_byte [OF nat_of_char_less_256 [of a] nat_of_char_less_256 [of b] nat_of_char_less_256 [of b]]
  show ?case by (simp only: b64encode.simps Let_def b64decode_digits(2) [OF bytes(1,3,4)] bytes(7,10) char_of_char)
next
  case (4 a b c cs)
  note bytes = split_byte [OF nat_of_char_less_256 [of a] nat_of_char_less_256 [of b] nat_of_char_less_256 [of c]]
  show ?case
    by (simp only: b64encode.simps Let_def append.simps b64decode_digits(3) [OF bytes(1,3,5,6)] bytes(7,9,11) char_of_char 4 option.map)
qed simp

section \<open>The cursor codec\<close>

definition CURSOR_VERSION :: int where
  "CURSOR_VERSION = 1"

definition encode_cursor :: "jval list \<Rightarrow> string" where
  "encode_cursor parts = b64encode (canonical_json (JArr (JInt CURSOR_VERSION # parts)))"

definition scan_item :: "string \<Rightarrow> (jval \<times> string) option" where
  "scan_item s =
     (case s of
        [] \<Rightarrow> None
      | c # cs \<Rightarrow>
          if c = CHR 0x22 then map_option (\<lambda>(t, rest). (JStr t, rest)) (json_scan cs)
          else let d = takeWhile (\<lambda>x. x \<noteq> CHR '','' \<and> x \<noteq> CHR '']'') s
            in map_option (\<lambda>i. (JInt i, drop (length d) s)) (parse_int d))"

text \<open>Exactly \<open>n\<close> items, separated by commas and closed by the bracket.\<close>

fun scan_items :: "nat \<Rightarrow> string \<Rightarrow> jval list option" where
  "scan_items 0 s = None"
| "scan_items (Suc n) s =
     (case scan_item s of
        None \<Rightarrow> None
      | Some (v, rest) \<Rightarrow>
          if n = 0 then (if rest = '']'' then Some [v] else None)
          else (case rest of [] \<Rightarrow> None | c # cs \<Rightarrow> if c = CHR '','' then map_option ((#) v) (scan_items n cs) else None))"

definition decode_cursor :: "string \<Rightarrow> nat \<Rightarrow> nat \<Rightarrow> jval list option" where
  "decode_cursor cursor max_chars arity =
     (if cursor = [] \<or> max_chars < length cursor then None
      else (case b64decode cursor of
          None \<Rightarrow> None
        | Some bytes \<Rightarrow>
            (case (if take 1 bytes = ''['' then scan_items (arity + 1) (drop 1 bytes) else None) of
               Some (JInt v # parts) \<Rightarrow> if v = CURSOR_VERSION \<and> encode_cursor parts = cursor then Some parts else None
             | _ \<Rightarrow> None)))"

definition is_field :: "jval \<Rightarrow> bool" where
  "is_field v \<longleftrightarrow> (\<exists>s. v = JStr s) \<or> (\<exists>i. v = JInt i)"

lemma str_nat_decimal: "list_all is_digit (str_nat n) \<and> str_nat n \<noteq> []"
proof (induction n rule: str_nat.induct)
  case (1 n)
  have "is_digit (hex_digit k)" if "k < 10" for k
  proof -
    have "k \<in> {0,1,2,3,4,5,6,7,8,9}" using that by (simp only: insert_iff empty_iff) presburger
    then show ?thesis by (auto simp: hex_digit_def hex_digits_def is_digit_def)
  qed
  with 1 show ?case by (subst (1 2) str_nat.simps) auto
qed

lemma parse_str_int: "parse_int (str_int i) = Some i"
proof (cases "i < 0")
  case True
  have "\<not> is_decimal (''-'' @ str_nat (nat (- i)))" by (simp add: is_decimal_def is_digit_def)
  with True show ?thesis by (simp add: parse_int_def str_int_def is_decimal_def str_nat_decimal of_dec_str_nat)
next
  case False
  then show ?thesis by (simp add: parse_int_def str_int_def is_decimal_def str_nat_decimal of_dec_str_nat)
qed

lemma str_int_chars: "c \<in> set (str_int i) \<Longrightarrow> c = CHR ''-'' \<or> is_digit c"
  using str_nat_decimal by (fastforce simp: str_int_def list_all_iff split: if_splits)

lemma separators_notin_str_int: "CHR '','' \<notin> set (str_int i)" "CHR '']'' \<notin> set (str_int i)"
  using str_int_chars [of "CHR '',''" i] str_int_chars [of "CHR '']''" i] by (auto simp: is_digit_def)

lemma str_int_Cons: "\<exists>c cs. str_int i = c # cs \<and> c \<noteq> CHR 0x22"
proof -
  have "str_int i \<noteq> []" using str_nat_decimal by (simp add: str_int_def)
  then obtain c cs where "str_int i = c # cs" by (cases "str_int i") auto
  then show ?thesis using str_int_chars [of c i] by (auto simp: is_digit_def)
qed

lemma scan_field:
  assumes "is_field v" and rest: "rest = CHR '','' # t \<or> rest = CHR '']'' # t"
  shows "scan_item (dumps v @ rest) = Some (v, rest)"
proof -
  from assms(1) consider s where "v = JStr s" | i where "v = JInt i" by (auto simp: is_field_def)
  then show ?thesis
  proof cases
    case (1 s)
    then show ?thesis using json_scan_str [of s rest] by (simp add: scan_item_def json_str_def)
  next
    case (2 i)
    have "takeWhile (\<lambda>x. x \<noteq> CHR '','' \<and> x \<noteq> CHR '']'') (str_int i @ rest) = str_int i"
      using separators_notin_str_int [of i] rest by (subst takeWhile_append2) (auto intro!: takeWhile_eq_all_conv [THEN iffD2])
    moreover obtain c cs where "str_int i = c # cs" "c \<noteq> CHR 0x22" using str_int_Cons by blast
    ultimately show ?thesis using 2 parse_str_int [of i] by (simp add: scan_item_def Let_def)
  qed
qed

lemma scan_dumped:
  "list_all is_field vs \<Longrightarrow> vs \<noteq> [] \<Longrightarrow> scan_items (length vs) (join '','' (map dumps vs) @ '']'') = Some vs"
proof (induction vs)
  case (Cons v vs)
  show ?case
  proof (cases vs)
    case Nil
    then show ?thesis using scan_field [of v "'']''"] Cons.prems by simp
  next
    case (Cons w ws)
    then have "join '','' (map dumps (v # vs)) @ '']'' = dumps v @ CHR '','' # join '','' (map dumps vs) @ '']''" by simp
    then show ?thesis using scan_field [of v] Cons.IH Cons.prems Cons by simp
  qed
qed simp

lemma sort_keys_field: "is_field v \<Longrightarrow> sort_keys v = v"
  by (auto simp: is_field_def)

text \<open>C39: A cursor has one spelling and comes back as the fields it was made of; nothing else decodes.\<close>

theorem cursor_roundtrip:
  assumes "list_all is_field parts"
  shows "decode_cursor cursor max_chars (length parts) = Some parts \<longleftrightarrow>
    cursor = encode_cursor parts \<and> length cursor \<le> max_chars"
proof
  assume "decode_cursor cursor max_chars (length parts) = Some parts"
  then show "cursor = encode_cursor parts \<and> length cursor \<le> max_chars"
    by (auto simp: decode_cursor_def split: if_splits option.splits list.splits jval.splits)
next
  assume cursor: "cursor = encode_cursor parts \<and> length cursor \<le> max_chars"
  let ?vs = "JInt CURSOR_VERSION # parts"
  have parts: "list_all is_field ?vs" using assms by (simp add: is_field_def)
  have "map sort_keys ?vs = ?vs" using parts by (intro map_idI) (auto simp: list_all_iff intro: sort_keys_field)
  then have bytes: "canonical_json (JArr ?vs) = ''['' @ join '','' (map dumps ?vs) @ '']''" by (simp add: canonical_json_def)
  have "scan_items (length parts + 1) (join '','' (map dumps ?vs) @ '']'') = Some ?vs"
    using scan_dumped [OF parts] by simp
  moreover have "b64decode cursor = Some (''['' @ join '','' (map dumps ?vs) @ '']'')"
    using cursor bytes b64_roundtrip by (simp add: encode_cursor_def)
  moreover have "cursor \<noteq> []" using calculation(2) by auto
  ultimately show "decode_cursor cursor max_chars (length parts) = Some parts"
    using cursor by (auto simp: decode_cursor_def simp del: scan_items.simps)
qed

theorem cursor_roundtrip_witness:
  "decode_cursor (encode_cursor [JStr ''scope'', JInt 7]) 256 2 = Some [JStr ''scope'', JInt 7] \<and> decode_cursor ''WzFd'' 256 2 = None"
proof -
  have "length (encode_cursor [JStr ''scope'', JInt 7]) \<le> 256" "decode_cursor ''WzFd'' 256 2 = None" by code_simp+
  then show ?thesis
    using cursor_roundtrip [of "[JStr ''scope'', JInt 7]" "encode_cursor [JStr ''scope'', JInt 7]" 256] by (simp add: is_field_def numeral_2_eq_2)
qed

section \<open>Packing a page\<close>

text \<open>Entries are built when they are reached, so an item past the bound cannot fail: an entry is the item or the error of
  building it, with its continuation.\<close>

type_synonym 'item entries = "((ahr_error + 'item) \<times> string option) list"
type_synonym 'item page = "'item list \<times> string option"

fun pack_from :: "('item page \<Rightarrow> nat) \<Rightarrow> nat \<Rightarrow> (string \<Rightarrow> ahr_error) \<Rightarrow> 'item page \<Rightarrow> 'item entries \<Rightarrow> ahr_error + 'item page \<times> nat" where
  "pack_from size_of max_bytes refuse page [] = Inr (page, length (fst page))"
| "pack_from size_of max_bytes refuse page ((built, next) # entries) =
     bindE built (\<lambda>item.
       let candidate = (fst page @ [item], next) in
       if size_of candidate \<le> max_bytes then pack_from size_of max_bytes refuse candidate entries
       else if fst page = [] then Inl (refuse ''response_too_small'') else Inr (page, length (fst page)))"

definition pack :: "('item page \<Rightarrow> nat) \<Rightarrow> nat \<Rightarrow> (string \<Rightarrow> ahr_error) \<Rightarrow> 'item entries \<Rightarrow> ahr_error + 'item page \<times> nat" where
  "pack size_of max_bytes refuse entries =
     (if max_bytes < size_of ([], None) then Inl (refuse ''response_too_small'')
      else pack_from size_of max_bytes refuse ([], None) entries)"

text \<open>The page that holds the first \<open>n\<close> items.\<close>

definition page_of :: "'item entries \<Rightarrow> nat \<Rightarrow> 'item page" where
  "page_of entries n = (map (projr \<circ> fst) (take n entries), if n = 0 then None else snd (entries ! (n - 1)))"

text \<open>What stops the packer: the end, an entry that does not fit, one that cannot be built.\<close>

definition packed ::
    "('item page \<Rightarrow> nat) \<Rightarrow> nat \<Rightarrow> ahr_error \<Rightarrow> 'item entries \<Rightarrow> nat \<Rightarrow> ahr_error + 'item page \<times> nat \<Rightarrow> bool" where
  "packed size_of max_bytes too_small entries n r \<longleftrightarrow>
     (\<exists>k \<ge> n. k \<le> length entries \<and>
        (\<forall>i. n \<le> i \<and> i < k \<longrightarrow> \<not> isl (fst (entries ! i)) \<and> size_of (page_of entries (i + 1)) \<le> max_bytes) \<and>
        (if k = length entries then r = Inr (page_of entries k, k)
         else case fst (entries ! k) of
             Inl e \<Rightarrow> r = Inl e
           | Inr item \<Rightarrow> max_bytes < size_of (page_of entries (k + 1)) \<and>
               r = (if k = 0 then Inl too_small else Inr (page_of entries k, k))))"

lemma pack_from_packed:
  "n \<le> length entries \<Longrightarrow>
   packed size_of max_bytes (refuse ''response_too_small'') entries n (pack_from size_of max_bytes refuse (page_of entries n) (drop n entries))"
proof (induction "length entries - n" arbitrary: n)
  case 0
  then have "n = length entries" by simp
  then show ?case unfolding packed_def by (intro exI [of _ n]) (auto simp: page_of_def)
next
  case (Suc d)
  then have n: "n < length entries" by simp
  obtain built nxt where e: "entries ! n = (built, nxt)" by (cases "entries ! n")
  have rest: "drop n entries = (built, nxt) # drop (Suc n) entries" using n e by (metis Cons_nth_drop_Suc)
  show ?case
  proof (cases built)
    case (Inl x)
    then show ?thesis using n e unfolding rest packed_def by (intro exI [of _ n]) auto
  next
    case (Inr item)
    have candidate: "(fst (page_of entries n) @ [item], nxt) = page_of entries (Suc n)"
      using n e Inr by (simp add: page_of_def take_Suc_conv_app_nth)
    show ?thesis
    proof (cases "size_of (page_of entries (Suc n)) \<le> max_bytes")
      case True
      have "packed size_of max_bytes (refuse ''response_too_small'') entries (Suc n)
          (pack_from size_of max_bytes refuse (page_of entries (Suc n)) (drop (Suc n) entries))"
        using Suc.hyps n by simp
      then obtain k where k: "Suc n \<le> k" "k \<le> length entries"
        "\<forall>i. Suc n \<le> i \<and> i < k \<longrightarrow> \<not> isl (fst (entries ! i)) \<and> size_of (page_of entries (i + 1)) \<le> max_bytes"
        "if k = length entries then pack_from size_of max_bytes refuse (page_of entries (Suc n)) (drop (Suc n) entries) = Inr (page_of entries k, k)
         else case fst (entries ! k) of
             Inl e \<Rightarrow> pack_from size_of max_bytes refuse (page_of entries (Suc n)) (drop (Suc n) entries) = Inl e
           | Inr item \<Rightarrow> max_bytes < size_of (page_of entries (k + 1)) \<and>
               pack_from size_of max_bytes refuse (page_of entries (Suc n)) (drop (Suc n) entries) =
                 (if k = 0 then Inl (refuse ''response_too_small'') else Inr (page_of entries k, k))"
        unfolding packed_def by blast
      have prefix: "\<forall>i. n \<le> i \<and> i < k \<longrightarrow> \<not> isl (fst (entries ! i)) \<and> size_of (page_of entries (i + 1)) \<le> max_bytes"
      proof (intro allI impI)
        fix i assume "n \<le> i \<and> i < k"
        then show "\<not> isl (fst (entries ! i)) \<and> size_of (page_of entries (i + 1)) \<le> max_bytes"
          using k(3) True e Inr by (cases "i = n") auto
      qed
      have same: "pack_from size_of max_bytes refuse (page_of entries n) (drop n entries) =
          pack_from size_of max_bytes refuse (page_of entries (Suc n)) (drop (Suc n) entries)"
        using True Inr unfolding rest by (simp add: candidate)
      have "n \<le> k" using k(1) by simp
      then show ?thesis unfolding packed_def same by (intro exI [of _ k] conjI prefix k(2,4))
    next
      case False
      have "fst (page_of entries n) = [] \<longleftrightarrow> n = 0" "length (fst (page_of entries n)) = n" using n by (auto simp: page_of_def)
      then show ?thesis using False n e Inr unfolding rest packed_def by (intro exI [of _ n]) (auto simp: candidate)
    qed
  qed
qed

text \<open>C40: A page holds the longest run of entries whose every prefix fits, with the continuation of the last one it holds. It is
  never empty when there is something to show: if not even the first entry fits, the caller is told so; an entry past the
  bound is never built.\<close>

theorem pack_longest:
  "if max_bytes < size_of ([], None) then pack size_of max_bytes refuse entries = Inl (refuse ''response_too_small'')
   else packed size_of max_bytes (refuse ''response_too_small'') entries 0 (pack size_of max_bytes refuse entries)"
  using pack_from_packed [of 0 entries size_of max_bytes refuse] by (simp add: pack_def page_of_def)

end
