(* ===== verification/Ahr_Rules.thy ===== *)
theory Ahr_Rules
  imports Ahr_Documents
begin

text \<open>
  The L1 rules a record must satisfy before the store looks at it: the cross-field rules of hand-offs and
  read-backs (\<^verbatim>\<open>src/trw_mcp/handoff/_rules.py\<close>, \<open>check_handoff\<close> and \<open>check_readback\<close>) and the order in
  which \<^verbatim>\<open>src/trw_mcp/handoff/_validate.py\<close> applies them (\<open>l1_findings\<close>, \<open>validate\<close>).

  \<^item> A rule appends a finding; the source writes it as one text \<^verbatim>\<open>"X-2 ..."\<close> that \<open>_finding\<close> splits at the
    rule tag, here \<open>finding rule message\<close> is that pair.
  \<^item> Python dictionaries that only answer lookups are maps; the two whose order shows in the findings are
    rows, the later value replacing the earlier in place.
  \<^item> The lemmas give, per rule, what an accepted document guarantees to the lifecycle.
\<close>

definition finding :: "string \<Rightarrow> string \<Rightarrow> Finding" where
  "finding rule message = \<lparr>fd_rule = rule, fd_path = '''', fd_message = message\<rparr>"

definition flag :: "bool \<Rightarrow> string \<Rightarrow> string \<Rightarrow> Finding list" where
  "flag broken rule message = (if broken then [finding rule message] else [])"

definition quoted :: "string \<Rightarrow> string" where
  "quoted s = [CHR 0x27] @ s @ [CHR 0x27]"

definition repr_texts :: "string list \<Rightarrow> string" where
  "repr_texts xs = ''['' @ join '', '' (map quoted xs) @ '']''"

definition repr_nats :: "nat list \<Rightarrow> string" where
  "repr_nats ns = ''['' @ join '', '' (map str_nat ns) @ '']''"

definition PLACEHOLDERS :: "string list" where
  "PLACEHOLDERS = ['''', ''n a'', ''na'', ''none'', ''nothing'', ''tbd'', ''todo'', ''unknown'', ''checked'', ''ok'']"

definition placeholder :: "ahr_env \<Rightarrow> string \<Rightarrow> bool" where
  "placeholder env s \<longleftrightarrow> norm env s \<in> set PLACEHOLDERS"

primrec severity_rank :: "severity \<Rightarrow> nat" where
  "severity_rank Low = 0"
| "severity_rank Medium = 1"
| "severity_rank High = 2"

section \<open>Hand-offs\<close>

primrec listed :: "'a or_none \<Rightarrow> 'a list" where
  "listed (Listed xs) = xs"
| "listed (None_known checked) = []"

primrec none_checked :: "'a or_none \<Rightarrow> string list" where
  "none_checked (Listed xs) = []"
| "none_checked (None_known checked) = [checked]"

definition risk_ids :: "handoff \<Rightarrow> string list" where
  "risk_ids h = map rk_id (listed (ho_risks h))"

definition claims_by_id :: "handoff \<Rightarrow> claim_entry list" where
  "claims_by_id h = fold (put_row cl_id) (ho_claims h) []"

definition reverify_of :: "handoff \<Rightarrow> string list" where
  "reverify_of h = (case ho_readback h of None \<Rightarrow> [] | Some p \<Rightarrow> rp_reverify p)"

definition verifier_of :: "handoff \<Rightarrow> principal option" where
  "verifier_of h = (case ho_readback h of None \<Rightarrow> None | Some p \<Rightarrow> rp_verifier p)"

definition readback_required :: "handoff \<Rightarrow> bool" where
  "readback_required h = (case ho_readback h of None \<Rightarrow> False | Some p \<Rightarrow> rp_required p)"

primrec recipient_id :: "recipient \<Rightarrow> string option" where
  "recipient_id (Named p) = Some (pr_id p)"
| "recipient_id (Unaddressed scope c) = None"

primrec designated_completer :: "recipient \<Rightarrow> principal option" where
  "designated_completer (Named p) = None"
| "designated_completer (Unaddressed scope c) = c"

definition addressed_to :: "recipient \<Rightarrow> bool" where
  "addressed_to to = (case to of Named p \<Rightarrow> True | Unaddressed scope c \<Rightarrow> False)"

definition handoff_ids :: "handoff \<Rightarrow> Finding list" where
  "handoff_ids h =
     (let ids = map cl_id (ho_claims h) @ map ac_id (ho_next_actions h) @ risk_ids h;
          claims = map cl_id (claims_by_id h);
          requested = reverify_of h;
          want = map cl_id (filter (\<lambda>c. cl_label c = Verified) (claims_by_id h)) @
            concat (map ac_depends_on (ho_next_actions h));
          absent = sort (remdups (filter (\<lambda>c. c \<notin> set requested) want))
      in flag (\<not> distinct ids) ''X-2'' ''claim, action and risk ids must be unique within a record'' @
         flag (\<not> distinct requested) ''X-3'' ''readback.reverify repeats a claim id'' @
         map (\<lambda>c. finding ''X-3'' (''readback.reverify names '' @ quoted c @ '', which is not a claim in this record''))
           (filter (\<lambda>c. c \<notin> set claims) requested) @
         concat (map (\<lambda>a. map (\<lambda>c. finding ''X-3''
             (''next_actions '' @ quoted (ac_id a) @ '' depends_on unknown claim '' @ quoted c))
           (filter (\<lambda>c. c \<notin> set claims) (ac_depends_on a))) (ho_next_actions h)) @
         flag (ho_tier h = Critical \<and> absent \<noteq> []) ''X-4''
           (''critical: readback.reverify must include every verified claim and every claim any next action depends on; missing '' @
            repr_texts absent))"

text \<open>A principal id seen first with one kind and later with another (\<^verbatim>\<open>setdefault\<close>).\<close>

fun two_kinds :: "(string \<rightharpoonup> principal_kind) \<Rightarrow> principal list \<Rightarrow> Finding list" where
  "two_kinds seen [] = []"
| "two_kinds seen (p # ps) =
     (case seen (pr_id p) of
        None \<Rightarrow> two_kinds (seen(pr_id p \<mapsto> pr_kind p)) ps
      | Some k \<Rightarrow> flag (k \<noteq> pr_kind p) ''X-21''
          (''principal id '' @ quoted (pr_id p) @ '' appears with two different kinds'') @ two_kinds seen ps)"

primrec recipient_principal :: "recipient \<Rightarrow> principal list" where
  "recipient_principal (Named p) = [p]"
| "recipient_principal (Unaddressed scope c) = []"

definition option_list :: "'a option \<Rightarrow> 'a list" where
  "option_list x = (case x of None \<Rightarrow> [] | Some y \<Rightarrow> [y])"

definition handoff_principals :: "handoff \<Rightarrow> Finding list" where
  "handoff_principals h =
     (let to = ho_to h; verifier = verifier_of h in
      flag (recipient_id to = Some (pr_id (ho_from h))) ''X-17''
        ''an addressed handoff cannot name its sender as receiver'' @
      flag (verifier \<noteq> None \<and> recipient_id to = map_option pr_id verifier) ''X-17''
        ''the designated verifier cannot be the receiver'' @
      two_kinds Map.empty
        (ho_from h # recipient_principal to @ option_list (designated_completer to) @ option_list verifier))"

definition bad_evidence_text :: "ahr_env \<Rightarrow> evidence \<Rightarrow> bool" where
  "bad_evidence_text env e \<longleftrightarrow>
     list_ex (\<lambda>s. \<not> visible env s \<or> placeholder env s) [evd_procedure e, evd_scope e]"

primrec unsourced_excerpt :: "restriction \<Rightarrow> bool" where
  "unsourced_excerpt (Plain_constraint s) = False"
| "unsourced_excerpt (Sourced_constraint s excerpt source) = (excerpt \<and> source = None)"

definition handoff_texts :: "ahr_env \<Rightarrow> handoff \<Rightarrow> Finding list" where
  "handoff_texts env h =
     (let constraints = (case ho_constraints h of None \<Rightarrow> Listed [] | Some c \<Rightarrow> c);
          texts = map cl_text (ho_claims h) @ [ho_goal h] @ ho_done_when h @
            map (\<lambda>c. case cl_basis c of None \<Rightarrow> ''x'' | Some b \<Rightarrow> b) (ho_claims h) @
            concat (map (\<lambda>a. option_list (ac_rollback a)) (ho_next_actions h)) @
            none_checked (ho_not_done h) @ none_checked (ho_risks h) @ none_checked (ho_unknowns h) @
            none_checked constraints;
          checked = (\<lambda>name ts. concat (map (\<lambda>s. flag (placeholder env s) ''X-12''
            (name @ ''.checked is a placeholder, not a description of a check (R-EMP-2)'')) ts))
      in concat (map (\<lambda>s. flag (placeholder env s) ''X-12'' ''constraints.checked is a placeholder (R-EMP-2)'')
           (none_checked constraints)) @
         flag (\<not> list_all (visible env) texts) ''X-12'' ''a required text field has no visible content'' @
         concat (map (\<lambda>c. flag (unsourced_excerpt c) ''X-12'' ''an excerpted constraint needs a digest-bound source'')
           (listed constraints)) @
         checked ''not_done'' (none_checked (ho_not_done h)) @ checked ''risks'' (none_checked (ho_risks h)) @
         checked ''unknowns'' (none_checked (ho_unknowns h)) @
         concat (map (\<lambda>c.
             concat (map (\<lambda>e. flag (bad_evidence_text env e) ''X-12''
               (''claim '' @ quoted (cl_id c) @ '' evidence procedure or scope is empty or a placeholder'')) (cl_evidence c)) @
             flag (case cl_basis c of None \<Rightarrow> False | Some b \<Rightarrow> placeholder env b) ''X-12''
               (''claim '' @ quoted (cl_id c) @ '' basis is a placeholder (R-CLM-3)''))
           (claims_by_id h)))"

text \<open>The positions of the pointers without a digest.\<close>

definition bare_pointers :: "next_read list \<Rightarrow> nat list" where
  "bare_pointers ps = filter (\<lambda>i. nr_digest (ps ! i) = None) [0 ..< length ps]"

definition check_handoff :: "ahr_env \<Rightarrow> handoff \<Rightarrow> Finding list" where
  "check_handoff env h =
     (let superseded = map ls_handoff_id (ho_supersedes h) in
      handoff_ids h @
      flag (case ho_expires_at h of None \<Rightarrow> False | Some e \<Rightarrow> instant env e \<le> instant env (ho_created_at h)) ''X-5''
        ''expires_at must be later than created_at'' @
      flag (instant env (ho_created_at h) < instant env (ho_as_of h)) ''X-6'' ''as_of.at must not be later than created_at'' @
      handoff_principals h @
      flag (ho_tier h = Critical \<and> bare_pointers (ho_next_read h) \<noteq> []) ''X-20''
        (''critical: every next_read pointer must carry a digest; missing at '' @ repr_nats (bare_pointers (ho_next_read h))) @
      flag (\<not> distinct superseded \<or> ho_id h \<in> set superseded) ''X-19''
        ''supersedes must not repeat an entry or name the record itself'' @
      handoff_texts env h)"

section \<open>Read-backs\<close>

definition readback_restatements :: "ahr_env \<Rightarrow> readback \<Rightarrow> handoff \<Rightarrow> Finding list" where
  "readback_restatements env r h =
     (let first = hd (ho_next_actions h);
          texts = [rb_goal r, rb_first_restated r, rb_risk_restated r] @ option_list (rb_done_when r) @
            map snd (rb_constraints r);
          risks = listed (ho_risks h);
          by_id = (\<lambda>i. map_of (rev (map (\<lambda>k. (rk_id k, k)) risks)) i)
      in flag (\<not> list_all (visible env) texts) ''X-12'' ''a restatement has no visible content'' @
         flag (rb_first_action r \<noteq> ac_id first) ''X-8'' ''first_action.action_id is not next_actions[0].id'' @
         flag (norm env (rb_first_restated r) = norm env (ac_action first)) ''X-8''
           ''first_action.restated copies the source after normalization'' @
         flag (norm env (rb_goal r) = norm env (ho_goal h)) ''X-8''
           ''goal_restated copies the source after normalization'' @
         (if risks \<noteq> [] then
            (case Option.bind (rb_top_risk r) by_id of
               None \<Rightarrow> [finding ''X-8'' ''top_risk.risk_id must name a listed risk when risks are listed'']
             | Some k \<Rightarrow>
                 flag (severity_rank (rk_severity k) < Max (set (map (severity_rank \<circ> rk_severity) risks))) ''X-8''
                   ''top_risk.risk_id must name a risk of the highest listed severity'' @
                 flag (norm env (rb_risk_restated r) = norm env (rk_text k)) ''X-8''
                   ''top_risk.restated copies the source after normalization'')
          else flag (rb_top_risk r \<noteq> None) ''X-8'' ''top_risk.risk_id given but the handoff lists no risks''))"

text \<open>\<^verbatim>\<open>{r["claim_id"]: r["result"] for r in reverified}\<close>, in its iteration order.\<close>

definition results_by_claim :: "readback \<Rightarrow> reverified list" where
  "results_by_claim r = fold (put_row rv_claim) (rb_reverified r) []"

definition result_of :: "readback \<Rightarrow> string \<Rightarrow> reverify_result option" where
  "result_of r c = map_option rv_result (find_row rv_claim c (results_by_claim r))"

definition raw_digest_missing :: "reverified \<Rightarrow> bool" where
  "raw_digest_missing v =
     (case Option.bind (rv_evidence v) evd_raw of None \<Rightarrow> True | Some raw \<Rightarrow> ref_digest raw = None)"

definition readback_reverified :: "readback \<Rightarrow> handoff \<Rightarrow> bool \<Rightarrow> Finding list" where
  "readback_reverified r h ready =
     (let claim_ids = map cl_id (ho_claims h);
          got = map rv_claim (rb_reverified r);
          absent = sort (filter (\<lambda>c. result_of r c = None \<or> result_of r c = Some Not_checked) (reverify_of h));
          named = map dc_claim (rb_discrepancies r)
      in flag (\<not> distinct got \<or> \<not> set got \<subseteq> set claim_ids) ''X-9''
           ''reverified claim ids must be unique and resolve in the handoff'' @
         (if ho_tier h = Critical \<and> ready
          then map (\<lambda>v. finding ''X-14''
                 (''critical: confirmed claim '' @ quoted (rv_claim v) @ '' needs evidence.raw with a digest''))
                 (filter (\<lambda>v. rv_result v = Confirmed \<and> raw_digest_missing v) (rb_reverified r)) @
               flag (absent \<noteq> []) ''X-9''
                 (''critical: requested re-verification not performed for '' @ repr_texts absent)
          else []) @
         flag (list_ex (\<lambda>d. length (ho_next_read h) \<le> (case dc_pointer d of None \<Rightarrow> 0 | Some i \<Rightarrow> i)) (rb_discrepancies r))
           ''X-11'' ''a discrepancies pointer_index is out of range'' @
         flag (list_ex (\<lambda>c. case c of None \<Rightarrow> False | Some i \<Rightarrow> i \<notin> set claim_ids) named) ''X-10''
           ''a discrepancies entry names a claim_id that is not in the handoff'' @
         concat (map (\<lambda>v. flag (rv_result v = Contradicted \<and> Some (rv_claim v) \<notin> set named) ''X-10''
             (''contradicted claim '' @ quoted (rv_claim v) @ '' has no discrepancies entry with that claim_id''))
           (results_by_claim r)))"

primrec pointer_status_value :: "pointer_status \<Rightarrow> string" where
  "pointer_status_value (Match d) = ''match''"
| "pointer_status_value (Drift d) = ''drift''"
| "pointer_status_value Missing = ''missing''"
| "pointer_status_value No_digest = ''no_digest''"
| "pointer_status_value Not_accessed = ''not_accessed''"

primrec observed_digest :: "pointer_status \<Rightarrow> string option" where
  "observed_digest (Match d) = Some d"
| "observed_digest (Drift d) = Some d"
| "observed_digest Missing = None"
| "observed_digest No_digest = None"
| "observed_digest Not_accessed = None"

definition pointer_findings :: "next_read list \<Rightarrow> bool \<Rightarrow> nat option list \<Rightarrow> pointer_check \<Rightarrow> Finding list" where
  "pointer_findings ptrs critical_ready drift_named pc =
     (let i = pc_index pc; status = pc_status pc; here = nr_digest (ptrs ! i);
          seen = (observed_digest status \<noteq> None); is_match = (pointer_status_value status = ''match'')
      in (if seen \<and> here = None
          then [finding ''X-11'' (''pointer '' @ str_nat i @ '' has no digest, so status '' @
                  quoted (pointer_status_value status) @ '' is impossible'')]
          else flag (seen \<and> (observed_digest status = here) \<noteq> is_match) ''X-11''
                 (''pointer '' @ str_nat i @ '': status '' @ quoted (pointer_status_value status) @ '' disagrees with observed_digest'')) @
         flag (critical_ready \<and> status \<in> {Not_accessed, Missing}) ''X-11''
           (''critical: pointer '' @ str_nat i @ '' is '' @ quoted (pointer_status_value status) @ '' in a ready read-back'') @
         flag (critical_ready \<and> pointer_status_value status = ''drift'' \<and> Some i \<notin> set drift_named) ''X-11''
           (''critical: drift on pointer '' @ str_nat i @ '' needs a discrepancies entry with that pointer_index'') @
         flag (status = No_digest \<and> here \<noteq> None) ''X-11''
           (''pointer '' @ str_nat i @ '' carries a digest; status '' @ quoted ''no_digest'' @ '' is wrong''))"

definition readback_pointers :: "readback \<Rightarrow> handoff \<Rightarrow> bool \<Rightarrow> Finding list" where
  "readback_pointers r h ready =
     (let ptrs = ho_next_read h in
      if sort (map pc_index (rb_pointer_checks r)) \<noteq> [0 ..< length ptrs]
      then [finding ''X-11'' ''pointer_checks must cover each next_read index exactly once'']
      else concat (map (pointer_findings ptrs (ho_tier h = Critical \<and> ready) (map dc_pointer (rb_discrepancies r)))
        (rb_pointer_checks r)))"

definition readback_authorship :: "ahr_env \<Rightarrow> readback \<Rightarrow> handoff \<Rightarrow> Finding list" where
  "readback_authorship env r h =
     (let author = rb_by r; at = instant env (rb_at r); created = instant env (ho_created_at h);
          by_evidence = (\<lambda>f. concat (map (\<lambda>v. case rv_evidence v of None \<Rightarrow> [] | Some e \<Rightarrow> f (rv_claim v) e) (rb_reverified r)))
      in flag (pr_id author = pr_id (ho_from h)) ''X-13'' ''the sender cannot author the read-back for its own handoff'' @
         flag (case ho_to h of Unaddressed scope c \<Rightarrow> False
               | Named p \<Rightarrow> pr_id author \<noteq> pr_id p \<or> pr_kind author \<noteq> pr_kind p) ''X-13''
           ''read-back author is not the addressed receiver'' @
         flag (at < created) ''X-13'' ''read-back is earlier than the handoff's created_at'' @
         by_evidence (\<lambda>c e. flag (bad_evidence_text env e) ''X-12''
           (''re-verification evidence for '' @ quoted c @ '' has an empty or placeholder procedure or scope'')) @
         by_evidence (\<lambda>c e. flag (evd_producer e \<noteq> Some (pr_id author) \<or>
             \<not> (created \<le> instant env (evd_at e) \<and> instant env (evd_at e) \<le> at)) ''X-14''
           (''re-verification evidence for '' @ quoted c @
            '' must be produced by the read-back author between the handoff's created_at and the read-back's at'')))"

definition check_readback :: "ahr_env \<Rightarrow> readback \<Rightarrow> handoff \<Rightarrow> Finding list" where
  "check_readback env r h =
     (let ready = (rb_disposition r = Ready);
          limits = (case ho_constraints h of None \<Rightarrow> [] | Some c \<Rightarrow> listed c);
          idx = sort (map fst (rb_constraints r))
      in flag (rb_handoff_id r \<noteq> ho_id h \<or> rb_handoff_digest r \<noteq> doc_digest env (Handoff h)) ''X-7''
           ''read-back does not bind to this exact handoff (handoff_id or digest mismatch)'' @
         readback_restatements env r h @ readback_reverified r h ready @ readback_pointers r h ready @
         readback_authorship env r h @
         (if ho_tier h = Critical \<and> ready \<and> idx \<noteq> [0 ..< length limits]
          then [finding ''X-18'' ''critical: constraints_restated must restate each handoff constraint index exactly once'']
          else flag (idx \<noteq> [] \<and> (\<not> distinct idx \<or> length limits \<le> last idx)) ''X-18''
            ''constraints_restated indices must be unique and name handoff constraints''))"

section \<open>The order of validation\<close>

definition MAX_CANONICAL_BYTES :: nat where
  "MAX_CANONICAL_BYTES = 32 * 1024"

definition integrity_of :: "document \<Rightarrow> integrity option" where
  "integrity_of d = (case d of Handoff h \<Rightarrow> ho_integrity h | Readback r \<Rightarrow> rb_integrity r | _ \<Rightarrow> None)"

definition verifier_clash :: "document \<Rightarrow> bool" where
  "verifier_clash d =
     (case d of
        Event e \<Rightarrow> (case ev_kind e of
            Readback_verified v \<Rightarrow> pr_id (ve_verifier v) = pr_id (ev_actor e) \<and> pr_kind (ve_verifier v) \<noteq> pr_kind (ev_actor e)
          | _ \<Rightarrow> False)
      | _ \<Rightarrow> False)"

text \<open>
  \<^verbatim>\<open>_l1_findings\<close>. A stage with findings ends the validation: sentinels stop at the schema, the schema stops
  before the rules, and the rules run only on a document whose texts and times are well formed. \<open>rules\<close> are the
  findings of the rules for the document's type.
\<close>

definition l1_findings :: "ahr_env \<Rightarrow> (ahr_error + Finding list) \<Rightarrow> document \<Rightarrow> string list \<Rightarrow> ahr_error + Finding list" where
  "l1_findings env rules d held =
     (let schema = schema_findings env d held in
      if held \<noteq> [] then Inr schema
      else if schema \<noteq> [] then Inr (schema @ token_errors env d)
      else (case jcs_size env d of
          Inl e \<Rightarrow> Inr [finding ''X-0'' e]
        | Inr n \<Rightarrow>
            if token_errors env d \<noteq> [] then Inr (token_errors env d)
            else if time_errors env d \<noteq> [] then Inr (time_errors env d)
            else bindE rules (\<lambda>broken. Inr (
              flag (MAX_CANONICAL_BYTES < n) ''X-0''
                (''canonical size '' @ str_nat n @ '' bytes exceeds 32 KiB (R-SIZE-2)'') @
              flag (case integrity_of d of None \<Rightarrow> False | Some i \<Rightarrow> in_digest i \<noteq> doc_digest env d) ''X-1''
                ''integrity.digest does not match the recomputed digest'' @
              flag (verifier_clash d) ''X-21'' ''principal id appears with two different kinds (actor vs verifier)'' @
              broken @ uri_findings env d))))"

definition lstrip_slash :: "string \<Rightarrow> string" where
  "lstrip_slash s = lstrip (\<lambda>c. c = CHR ''/'') s"

definition validate_with :: "ahr_env \<Rightarrow> (ahr_error + Finding list) \<Rightarrow> document \<Rightarrow> ahr_error + Finding list" where
  "validate_with env rules d =
     (let placeholders = placeholder_findings env d;
          held = map (lstrip_slash \<circ> fd_path) placeholders
      in bindE (l1_findings env rules d held)
           (\<lambda>fs. Inr (placeholders @ filter (\<lambda>f. lstrip_slash (fd_path f) \<notin> set held) fs)))"

definition handoff_for_readback :: "ahr_env \<Rightarrow> handoff option \<Rightarrow> ahr_error + handoff" where
  "handoff_for_readback env given =
     (case given of
        None \<Rightarrow> Inl (AhrInputError ''a readback needs its handoff record (--handoff)'')
      | Some h \<Rightarrow> bindE (validate_with env (Inr (check_handoff env h)) (Handoff h))
          (\<lambda>bad. case bad of
             [] \<Rightarrow> Inr h
           | f # fs \<Rightarrow> Inl (AhrInputError (''--handoff is not a valid handoff record: '' @ fd_rule f @ '' '' @ fd_message f))))"

definition validate :: "ahr_env \<Rightarrow> document \<Rightarrow> handoff option \<Rightarrow> ahr_error + Finding list" where
  "validate env d given =
     validate_with env
       (case d of
          Handoff h \<Rightarrow> Inr (check_handoff env h)
        | Readback r \<Rightarrow> bindE (handoff_for_readback env given) (\<lambda>h. Inr (check_readback env r h))
        | Event e \<Rightarrow> Inr []
        | Odd x \<Rightarrow> Inl (MissingMember ''type'')) d"

text \<open>\<^verbatim>\<open>check_doc\<close> of \<^verbatim>\<open>comms/_ahr_arms.py\<close>: every finding as one text.\<close>

definition check_doc :: "ahr_env \<Rightarrow> document \<Rightarrow> handoff option \<Rightarrow> ahr_error + string list" where
  "check_doc env d given =
     bindE (validate env d given) (\<lambda>fs. Inr (map (\<lambda>f. fd_rule f @ '' '' @ fd_message f) fs))"

definition valid_handoff :: "ahr_env \<Rightarrow> handoff \<Rightarrow> bool" where
  "valid_handoff env h \<longleftrightarrow> check_doc env (Handoff h) None = Inr []"

section \<open>What an accepted document guarantees\<close>

lemma flag_empty [simp]: "flag b rule message = [] \<longleftrightarrow> \<not> b"
  by (simp add: flag_def)

lemma check_doc_empty: "check_doc env d given = Inr [] \<longleftrightarrow> validate env d given = Inr []"
  by (cases "validate env d given") (auto simp: check_doc_def)

lemma l1_empty:
  "l1_findings env rules d held = Inr [] \<Longrightarrow> held = [] \<Longrightarrow>
   rules = Inr [] \<and> (case integrity_of d of None \<Rightarrow> True | Some i \<Rightarrow> in_digest i = doc_digest env d) \<and>
   (\<exists>n. jcs_size env d = Inr n)"
  by (auto simp: l1_findings_def Let_def split: if_splits sum.splits option.splits)

lemma validate_with_empty:
  assumes "validate_with env rules d = Inr []"
  shows "rules = Inr [] \<and> (case integrity_of d of None \<Rightarrow> True | Some i \<Rightarrow> in_digest i = doc_digest env d) \<and>
    (\<exists>n. jcs_size env d = Inr n)"
proof (rule l1_empty)
  from assms have "placeholder_findings env d = []"
    by (auto simp: validate_with_def Let_def)
  with assms show "l1_findings env rules d (map (lstrip_slash \<circ> fd_path) (placeholder_findings env d)) = Inr []"
    and "map (lstrip_slash \<circ> fd_path) (placeholder_findings env d) = []"
    by (auto simp: validate_with_def Let_def)
qed

text \<open>A hand-off is never refused with an error, and an accepted one satisfies every rule.\<close>

lemma validate_handoff_total: "\<exists>fs. validate env (Handoff h) given = Inr fs"
  by (auto simp: validate_def validate_with_def l1_findings_def Let_def split: sum.splits)

lemma check_handoff_total: "\<exists>errs. check_doc env (Handoff h) given = Inr errs"
  using validate_handoff_total [of env h given] by (auto simp: check_doc_def)

lemma check_handoff_given: "check_doc env (Handoff h) given = check_doc env (Handoff h) None"
  by (simp add: check_doc_def validate_def)

lemma valid_handoff_rules:
  assumes "valid_handoff env h"
  shows "check_handoff env h = []"
    and "ho_integrity h = Some i \<Longrightarrow> in_digest i = doc_digest env (Handoff h)"
  using assms validate_with_empty [of env "Inr (check_handoff env h)" "Handoff h"]
  by (auto simp: valid_handoff_def check_doc_empty validate_def integrity_of_def)

lemma valid_handoff_parties:
  assumes "valid_handoff env h"
  shows "recipient_id (ho_to h) \<noteq> Some (pr_id (ho_from h))"
    and "distinct (map ls_handoff_id (ho_supersedes h))" and "ho_id h \<notin> ls_handoff_id ` set (ho_supersedes h)"
  using valid_handoff_rules(1) [OF assms]
  by (auto simp: check_handoff_def handoff_principals_def Let_def)

lemma handoff_for_readback_ok:
  assumes "handoff_for_readback env (Some h) = Inr h'"
  shows "h' = h \<and> validate_with env (Inr (check_handoff env h)) (Handoff h) = Inr []"
proof -
  obtain bad where bad: "validate_with env (Inr (check_handoff env h)) (Handoff h) = Inr bad"
    using assms by (auto simp: handoff_for_readback_def)
  with assms show ?thesis by (cases bad) (simp_all add: handoff_for_readback_def)
qed

lemma valid_readback_rules:
  assumes "check_doc env (Readback r) (Some h) = Inr []"
  shows "check_readback env r h = []" and "valid_handoff env h"
proof -
  from assms have "validate_with env (bindE (handoff_for_readback env (Some h)) (\<lambda>h. Inr (check_readback env r h)))
      (Readback r) = Inr []"
    by (simp only: check_doc_empty validate_def document.case)
  from conjunct1 [OF validate_with_empty [OF this]]
  obtain h' where h': "handoff_for_readback env (Some h) = Inr h'" "check_readback env r h' = []"
    by (auto simp only: bindE_eq_Inr sum.inject)
  then have "h' = h \<and> validate_with env (Inr (check_handoff env h)) (Handoff h) = Inr []"
    by (intro handoff_for_readback_ok)
  with h' show "check_readback env r h = []" "valid_handoff env h"
    by (auto simp: valid_handoff_def check_doc_empty validate_def)
qed

lemma valid_readback_binds:
  assumes "check_doc env (Readback r) (Some h) = Inr []"
  shows "rb_handoff_id r = ho_id h" and "rb_handoff_digest r = doc_digest env (Handoff h)"
    and "pr_id (rb_by r) \<noteq> pr_id (ho_from h)"
    and "ho_to h = Named p \<Longrightarrow> pr_id (rb_by r) = pr_id p \<and> pr_kind (rb_by r) = pr_kind p"
    and "norm env (rb_goal r) \<noteq> norm env (ho_goal h)"
    and "distinct (map rv_claim (rb_reverified r))"
    and "rv_claim ` set (rb_reverified r) \<subseteq> cl_id ` set (ho_claims h)"
  using valid_readback_rules(1) [OF assms]
  by (auto simp: check_readback_def readback_restatements_def readback_authorship_def readback_reverified_def Let_def
      split: if_splits)

end
