(* ===== verification/Ahr_Lifecycle.thy ===== *)
theory Ahr_Lifecycle
  imports Ahr_Rules
begin

text \<open>
  The replay of one hand-off's event log (\<^verbatim>\<open>src/trw_mcp/comms/_ahr_state.py\<close> and
  \<^verbatim>\<open>_ahr_arms.py\<close>): \<open>AhrLog\<close> is the replay state, \<open>step\<close> admits one event, and each kind of event is one
  arm. A step returns the next state and the violations it reports, none when the event conforms; where the
  source raises instead, the model returns the error.

  The source mutates the log as it goes, so a violation does not undo the updates made before it; the model
  threads the log through the same order. An arm gets the locals of the loop as a \<open>Step\<close>.
\<close>

section \<open>The log\<close>

datatype lifecycle =
    Is_offered | Is_accepted | Is_declined | Is_reported | Is_completed | Is_withdrawn | Is_superseded | Is_expired

primrec lifecycle_value :: "lifecycle \<Rightarrow> string" where
  "lifecycle_value Is_offered = ''offered''"
| "lifecycle_value Is_accepted = ''accepted''"
| "lifecycle_value Is_declined = ''declined''"
| "lifecycle_value Is_reported = ''reported''"
| "lifecycle_value Is_completed = ''completed''"
| "lifecycle_value Is_withdrawn = ''withdrawn''"
| "lifecycle_value Is_superseded = ''superseded''"
| "lifecycle_value Is_expired = ''expired''"

definition TERMINAL :: "lifecycle set" where
  "TERMINAL = {Is_declined, Is_completed, Is_withdrawn, Is_superseded, Is_expired}"

definition AHR_MEDIA :: string where
  "AHR_MEDIA = ''application/vnd.ahr+json''"

primrec TIER_RANK :: "tier \<Rightarrow> nat" where
  "TIER_RANK Minimal = 0"
| "TIER_RANK Standard = 1"
| "TIER_RANK Critical = 2"

text \<open>What a \<^verbatim>\<open>ref\<close> points to: a record, or bytes that are not one; with its digest.\<close>

datatype content = Record document | Raw string

type_synonym target = "content \<times> string"

text \<open>A row of \<^verbatim>\<open>latest_rb\<close>: an author's latest read-back, its digest and the time it was stored.\<close>

record rb_entry =
  re_author :: string
  re_digest :: string
  re_readback :: readback
  re_at :: int

record AhrLog =
  lg_handoff :: handoff
  lg_record_digest :: string
  lg_state :: "lifecycle option"
  lg_receiver :: "string option"
  lg_prev_at :: "int option"
  lg_prev_event :: "event option"
  lg_latest_rb :: "rb_entry list"
  lg_verdict :: "string \<rightharpoonup> verification"
  lg_verifiers :: "string set"
  lg_any_fail :: bool
  lg_seen_ids :: "string \<rightharpoonup> string"
  lg_rb_ids :: "string \<rightharpoonup> string"
  lg_seen_rb :: "string set"
  lg_count :: nat

definition log_sender :: "AhrLog \<Rightarrow> string" where
  "log_sender log = pr_id (ho_from (lg_handoff log))"

definition log_addressed :: "AhrLog \<Rightarrow> bool" where
  "log_addressed log = addressed_to (ho_to (lg_handoff log))"

text \<open>The sender of an addressed record, else the completer it designates (R-LC-5).\<close>

definition log_completer :: "AhrLog \<Rightarrow> string option" where
  "log_completer log =
     (if log_addressed log then Some (log_sender log)
      else map_option pr_id (designated_completer (ho_to (lg_handoff log))))"

definition log_expires_at :: "ahr_env \<Rightarrow> AhrLog \<Rightarrow> int option" where
  "log_expires_at env log = map_option (instant env) (ho_expires_at (lg_handoff log))"

definition fresh_log :: "ahr_env \<Rightarrow> handoff \<Rightarrow> AhrLog" where
  "fresh_log env h =
     \<lparr>lg_handoff = h, lg_record_digest = doc_digest env (Handoff h), lg_state = None, lg_receiver = None,
      lg_prev_at = None, lg_prev_event = None, lg_latest_rb = [], lg_verdict = Map.empty, lg_verifiers = {},
      lg_any_fail = False, lg_seen_ids = Map.empty, lg_rb_ids = Map.empty, lg_seen_rb = {}, lg_count = 0\<rparr>"

definition start :: "ahr_env \<Rightarrow> document \<Rightarrow> ahr_error + AhrLog option \<times> string list" where
  "start env d =
     bindE (check_doc env d None) (\<lambda>errs.
       if errs \<noteq> [] then Inr (None, map (\<lambda>e. ''handoff: '' @ e) errs)
       else (case d of Handoff h \<Rightarrow> Inr (Some (fresh_log env h), []) | _ \<Rightarrow> Inl (MissingMember ''tier'')))"

section \<open>The locals of one step\<close>

record Step =
  st_ev :: event
  st_resolved :: "content option"
  st_actor :: string
  st_tier :: tier
  st_sender :: string
  st_addressed :: bool
  st_completer :: "string option"
  st_verifier :: "principal option"
  st_handoff :: handoff
  st_may_receive :: bool
  st_at :: int
  st_expires :: "int option"
  st_fail :: "string \<Rightarrow> string \<Rightarrow> string"

type_synonym arm_result = "ahr_error + AhrLog \<times> string list"

definition refuse :: "AhrLog \<Rightarrow> Step \<Rightarrow> string \<Rightarrow> string \<Rightarrow> arm_result" where
  "refuse log s rule msg = Inr (log, [st_fail s rule msg])"

definition contradicted :: "readback \<Rightarrow> bool" where
  "contradicted rb = list_ex (\<lambda>r. rv_result r = Contradicted) (rb_reverified rb)"

definition not_checkable :: "readback \<Rightarrow> bool" where
  "not_checkable rb = list_ex (\<lambda>r. rv_result r = Not_checkable) (rb_reverified rb)"

definition media_type_of :: "event \<Rightarrow> string option" where
  "media_type_of ev = Option.bind (ref_of ev) ref_media_type"

definition ref_digest_of :: "event \<Rightarrow> string option" where
  "ref_digest_of ev = Option.bind (ref_of ev) ref_digest"

text \<open>What an event's ref is when the arm asks for an onward or superseding hand-off.\<close>

datatype onward = No_record | Other_record | Invalid_record | Onward handoff

definition onward_of :: "ahr_env \<Rightarrow> content option \<Rightarrow> ahr_error + onward" where
  "onward_of env resolved =
     (case resolved of
        Some (Record d) \<Rightarrow>
          if document_type d \<noteq> Some ''handoff'' then Inr Other_record
          else (case d of
              Handoff n \<Rightarrow> Inr (if valid_handoff env n then Onward n else Invalid_record)
            | _ \<Rightarrow> bindE (check_doc env d None)
                (\<lambda>errs. if errs = [] then Inl (MissingMember ''tier'') else Inr Invalid_record))
      | _ \<Rightarrow> Inr No_record)"

definition lists_record :: "AhrLog \<Rightarrow> handoff \<Rightarrow> bool" where
  "lists_record log n \<longleftrightarrow>
     \<lparr>ls_handoff_id = ho_id (lg_handoff log), ls_digest = lg_record_digest log\<rparr> \<in> set (ho_supersedes n)"

section \<open>The arms of \<^verbatim>\<open>_ahr_arms.py\<close>\<close>

definition known_readback :: "AhrLog \<Rightarrow> string \<Rightarrow> readback option" where
  "known_readback log d = map_of (rev (map (\<lambda>e. (re_digest e, re_readback e)) (lg_latest_rb log))) d"

definition passing :: "verification \<Rightarrow> bool" where
  "passing v \<longleftrightarrow> ve_outcome v \<in> {Pass, Pass_with_flags}"

definition unfinished_reverify :: "readback \<Rightarrow> string list \<Rightarrow> bool" where
  "unfinished_reverify rb reverify \<longleftrightarrow>
     rb_disposition rb \<noteq> Ready \<or>
     list_ex (\<lambda>r. rv_claim r \<in> set reverify \<and> rv_result r = Not_checked) (rb_reverified rb) \<or>
     \<not> set reverify \<subseteq> set (map rv_claim (rb_reverified rb))"

definition verdict_refusal :: "ahr_env \<Rightarrow> AhrLog \<Rightarrow> Step \<Rightarrow> verification \<Rightarrow> readback \<Rightarrow> (string \<times> string) option" where
  "verdict_refusal env log s v rb =
     (let actor = ev_actor (st_ev s);
          critical_pass = (st_tier s = Critical \<and> passing v);
          ncs = map rv_claim (filter (\<lambda>r. rv_result r = Not_checkable) (rb_reverified rb))
      in if st_tier s = Critical \<and> ve_method v = Deterministic
         then Some (''R-RB-12'', ''at critical a verdict must use method judge or human'')
         else if pr_id (ve_verifier v) \<noteq> st_actor s \<or> pr_kind (ve_verifier v) \<noteq> pr_kind actor \<or> st_actor s = pr_id (rb_by rb)
         then Some (''R-RB-5'', ''the verifier must be the event actor and not the read-back author'')
         else if \<not> st_addressed s \<and> find_row re_author (st_actor s) (lg_latest_rb log) \<noteq> None
         then Some (''R-RB-5'', ''an unaddressed record's verifier must not have read it back'')
         else if (case st_verifier s of Some p \<Rightarrow> st_actor s \<noteq> pr_id p | None \<Rightarrow> st_actor s \<noteq> st_sender s)
         then Some (''R-RB-5'', ''only the designated verifier (or, if none is designated, the sender) may record a verdict'')
         else if ve_method v = By_human \<and> (pr_kind actor \<noteq> Human \<or>
             (case st_verifier s of Some p \<Rightarrow> pr_kind actor \<noteq> pr_kind p | None \<Rightarrow> False))
         then Some (''R-RB-9'', ''method '' @ quoted ''human'' @ '' requires a verifier principal of kind '' @ quoted ''human'')
         else if critical_pass \<and> ve_method v = By_human \<and> list_ex (\<lambda>c. \<not> names_claim env c (ve_rationale v)) ncs
         then Some (''R-RB-9'', ''a human verdict must name each not_checkable claim_id in rationale'')
         else if critical_pass \<and> unfinished_reverify rb (reverify_of (st_handoff s))
         then Some (''R-RB-11'', ''at critical a passing verdict needs a ready read-back that completes re-verification'')
         else if critical_pass \<and> ve_method v \<noteq> By_human \<and> (lg_any_fail log \<or> not_checkable rb)
         then Some (''R-RB-9'', ''at critical this passing verdict needs method '' @ quoted ''human'')
         else None)"

definition readback_verified :: "ahr_env \<Rightarrow> AhrLog \<Rightarrow> Step \<Rightarrow> verification \<Rightarrow> arm_result" where
  "readback_verified env log s v =
     (if lg_state log \<notin> {Some Is_offered, Some Is_accepted}
      then refuse log s ''R-LC-2'' ''readback_verified is allowed only while offered or accepted''
      else (case known_readback log (ve_readback_digest v) of
          None \<Rightarrow> refuse log s ''R-RB-5'' ''verification names no read-back that is the latest of its author''
        | Some rb \<Rightarrow>
            (case verdict_refusal env log s v rb of
               Some (rule, msg) \<Rightarrow> refuse log s rule msg
             | None \<Rightarrow> Inr (log\<lparr>
                 lg_verdict := (lg_verdict log)(ve_readback_digest v \<mapsto> v),
                 lg_verifiers := insert (st_actor s) (lg_verifiers log),
                 lg_any_fail := lg_any_fail log \<or> ve_outcome v = Fail \<or>
                   (ve_method v = Judge \<and> ve_confidence v = Some Low)\<rparr>, []))))"

text \<open>R-TIER-5: the record that escalates an unaddressed hand-off, once it is known to be valid.\<close>

definition escalates :: "AhrLog \<Rightarrow> Step \<Rightarrow> handoff \<Rightarrow> bool" where
  "escalates log s n \<longleftrightarrow>
     ho_tier n = Critical \<and> addressed_to (ho_to n) \<and> ho_subject n \<noteq> ho_subject (st_handoff s) \<and>
     pr_id (ho_from n) = st_actor s \<and> pr_kind (ho_from n) = pr_kind (ev_actor (st_ev s)) \<and>
     Some (st_actor s) \<noteq> st_completer s \<and>
     list_ex (\<lambda>p. nr_kind p = Some ''record'' \<and> nr_digest p = Some (lg_record_digest log)) (ho_next_read n) \<and>
     list_all (\<lambda>p. ls_handoff_id p \<noteq> ho_id (st_handoff s)) (ho_supersedes n)"

definition escalation_ok :: "ahr_env \<Rightarrow> AhrLog \<Rightarrow> Step \<Rightarrow> ahr_error + bool" where
  "escalation_ok env log s =
     (case st_resolved s of
        Some (Record (Handoff n)) \<Rightarrow> Inr (valid_handoff env n \<and> escalates log s n)
      | Some (Record (Odd d)) \<Rightarrow>
          if od_type d \<noteq> Some ''handoff'' \<or> od_tier d \<noteq> Some ''critical'' then Inr False
          else (case od_to_kind d of
              None \<Rightarrow> Inl (MissingMember ''to'')
            | Some k \<Rightarrow> if k = Some ''unaddressed'' then Inr False
                else bindE (check_doc env (Odd d) None)
                  (\<lambda>errs. if errs = [] then Inl (MissingMember ''subject'') else Inr False))
      | _ \<Rightarrow> Inr False)"

definition declined :: "ahr_env \<Rightarrow> AhrLog \<Rightarrow> Step \<Rightarrow> arm_result" where
  "declined env log s =
     (if lg_state log \<noteq> Some Is_offered \<or> \<not> st_may_receive s
      then refuse log s ''R-LC-2'' ''declined must follow offered and come from the addressed receiver or an in-scope principal''
      else bindE (if st_addressed s then Inr True else escalation_ok env log s) (\<lambda>ok.
        if \<not> ok then refuse log s ''R-TIER-5''
          ''an unaddressed record is declined only to escalate, with ref to a critical handoff to a named principal, under a new subject and not listing the original''
        else Inr (log\<lparr>lg_state := Some Is_declined\<rparr>, [])))"

definition onward_refusal :: "AhrLog \<Rightarrow> Step \<Rightarrow> report_outcome \<Rightarrow> onward \<Rightarrow> (string \<times> string) option" where
  "onward_refusal log s oc ow =
     (case ow of
        Other_record \<Rightarrow> Some (''R-LC-2'', ''a reported ref may be an AHR record only when it is an onward handoff'')
      | Invalid_record \<Rightarrow> Some (''R-LC-12'', ''an onward handoff in a report must be a valid record'')
      | No_record \<Rightarrow> if oc = Escalated
          then Some (''R-TIER-5'', ''an escalated report must reference a critical handoff to a named principal'') else None
      | Onward n \<Rightarrow>
          if oc = Met then Some (''R-LC-12'', ''a report with outcome '' @ quoted ''met'' @ '' must not ref an onward handoff'')
          else if oc = Escalated \<and> \<not> (ho_tier n = Critical \<and> addressed_to (ho_to n))
          then Some (''R-TIER-5'', ''an escalated report must reference a critical handoff to a named principal'')
          else if ho_subject n \<noteq> ho_subject (st_handoff s) \<or> pr_id (ho_from n) \<noteq> st_actor s \<or>
             pr_kind (ho_from n) \<noteq> pr_kind (ev_actor (st_ev s)) \<or> \<not> lists_record log n \<or>
             TIER_RANK (ho_tier n) < TIER_RANK (st_tier s)
          then Some (''R-LC-12'', ''an onward handoff in a report must be valid, from the receiver, same subject, no lower tier, and list this record in supersedes'')
          else None)"

definition reported :: "ahr_env \<Rightarrow> AhrLog \<Rightarrow> Step \<Rightarrow> report_outcome \<Rightarrow> arm_result" where
  "reported env log s oc =
     (if lg_state log \<noteq> Some Is_accepted \<or> Some (st_actor s) \<noteq> lg_receiver log
      then refuse log s ''R-LC-2'' ''reported must follow accepted and come from the receiver''
      else if oc = Met \<and> (case find_row re_author (st_actor s) (lg_latest_rb log) of
          None \<Rightarrow> False | Some mine \<Rightarrow> contradicted (re_readback mine))
      then refuse log s ''R-RB-4''
        (''outcome '' @ quoted ''met'' @ '' while the receiver's latest read-back lists a contradicted claim'')
      else bindE (onward_of env (st_resolved s)) (\<lambda>ow.
        case onward_refusal log s oc ow of
          Some (rule, msg) \<Rightarrow> refuse log s rule msg
        | None \<Rightarrow> Inr (log\<lparr>lg_state := Some Is_reported\<rparr>, [])))"

definition superseded :: "ahr_env \<Rightarrow> AhrLog \<Rightarrow> Step \<Rightarrow> arm_result" where
  "superseded env log s =
     (if lg_state log \<noteq> Some Is_offered
      then refuse log s ''R-SUP-2'' ''an accepted record ends by reported/completed, not superseded (R-LC-12)''
      else bindE (if media_type_of (st_ev s) \<noteq> Some AHR_MEDIA then Inr No_record else onward_of env (st_resolved s)) (\<lambda>ow.
        case ow of
          Onward n \<Rightarrow>
            if \<not> lists_record log n
            then refuse log s ''R-SUP-2'' ''the new record does not list this record and its digest in supersedes''
            else if st_actor s \<noteq> st_sender s \<or> pr_id (ho_from n) \<noteq> st_actor s \<or>
               pr_kind (ho_from n) \<noteq> pr_kind (ev_actor (st_ev s)) \<or> ho_subject n \<noteq> ho_subject (st_handoff s)
            then refuse log s ''R-SUP-2''
              ''only the sender may supersede its offered record, with a record it sends for the same subject''
            else if TIER_RANK (ho_tier n) < TIER_RANK (st_tier s)
            then refuse log s ''R-SUP-2'' ''a superseding record must not have a lower tier''
            else Inr (log\<lparr>lg_state := Some Is_superseded\<rparr>, [])
        | _ \<Rightarrow> refuse log s ''R-SUP-2'' ''ref must be a valid, digest-bound superseding handoff''))"

section \<open>The arms of \<^verbatim>\<open>AhrLog.step\<close>\<close>

definition offered :: "ahr_env \<Rightarrow> AhrLog \<Rightarrow> Step \<Rightarrow> arm_result" where
  "offered env log s =
     (let errs = (if lg_state log \<noteq> None \<or> st_actor s \<noteq> st_sender s
                  then [st_fail s ''R-LC-2'' ''offered must be the first event and come from the sender''] else [])
      in case st_expires s of
           Some e \<Rightarrow> if e \<le> st_at s
             then Inr (log, errs @ [st_fail s ''R-TIME-2'' ''offered is stored at or after expires_at''])
             else Inr (log\<lparr>lg_state := Some Is_offered\<rparr>, errs)
         | None \<Rightarrow> Inr (log\<lparr>lg_state := Some Is_offered\<rparr>, errs))"

definition error_text :: "ahr_error \<Rightarrow> string" where
  "error_text e =
     (case e of AhrInputError t \<Rightarrow> t | JcsError t \<Rightarrow> t | MissingMember t \<Rightarrow> quoted t | AdmissionError t \<Rightarrow> t | StoreError t \<Rightarrow> t | ConstraintError t \<Rightarrow> t
      | EndpointError t \<Rightarrow> t | IdentityError t \<Rightarrow> t | PageError t \<Rightarrow> t | UncountedRefusal t \<Rightarrow> t)"

text \<open>The read-back's L1 findings against the log's hand-off; an unusable document is a finding.\<close>

definition readback_problems :: "ahr_env \<Rightarrow> document \<Rightarrow> handoff \<Rightarrow> string list" where
  "readback_problems env d h =
     (case check_doc env d (Some h) of
        Inr problems \<Rightarrow> problems
      | Inl e \<Rightarrow> [''R-DOC-1 read-back unusable: '' @ error_text e])"

definition author_of :: "document \<Rightarrow> string option \<times> string option" where
  "author_of d =
     (case d of
        Readback r \<Rightarrow> (Some (pr_id (rb_by r)), Some (principal_kind_value (pr_kind (rb_by r))))
      | Odd x \<Rightarrow> od_by x
      | _ \<Rightarrow> (None, None))"

text \<open>A valid read-back is stored when it is new and dated after its author's previous one.\<close>

definition store_readback :: "ahr_env \<Rightarrow> AhrLog \<Rightarrow> Step \<Rightarrow> readback \<Rightarrow> string \<Rightarrow> arm_result" where
  "store_readback env log s r d =
     (let late = (if st_at s < instant env (rb_at r)
                  then [st_fail s ''X-16'' ''read-back is dated after the event that records it''] else []);
          prior = (case lg_rb_ids log (rb_id r) of None \<Rightarrow> d | Some p \<Rightarrow> p);
          log1 = log\<lparr>lg_rb_ids := (lg_rb_ids log)(rb_id r \<mapsto> prior)\<rparr>;
          newer = (case find_row re_author (st_actor s) (lg_latest_rb log) of
              None \<Rightarrow> True | Some e \<Rightarrow> instant env (rb_at (re_readback e)) < instant env (rb_at r))
      in if prior \<noteq> d
         then Inr (log1, late @ [st_fail s ''R-DOC-2''
           ''a second read-back reuses an existing readback_id with a different digest''])
         else if d \<in> lg_seen_rb log \<or> \<not> newer
         then Inr (log1, late @ [st_fail s ''R-LC-2''
           ''a read_back must reference a new read-back, dated after the author's previous one''])
         else Inr (log1\<lparr>
             lg_seen_rb := insert d (lg_seen_rb log),
             lg_latest_rb := put_row re_author
               \<lparr>re_author = st_actor s, re_digest = d, re_readback = r, re_at = st_at s\<rparr> (lg_latest_rb log)\<rparr>, late))"

definition read_back :: "ahr_env \<Rightarrow> AhrLog \<Rightarrow> Step \<Rightarrow> string \<Rightarrow> arm_result" where
  "read_back env log s tag =
     (if lg_state log \<notin> {Some Is_offered, Some Is_accepted} \<or> \<not> st_may_receive s \<or>
         lg_receiver log \<notin> {None, Some (st_actor s)}
      then refuse log s ''R-LC-2'' ''read_back must come from the (prospective) receiver while offered or accepted''
      else (case (if media_type_of (st_ev s) = Some AHR_MEDIA then st_resolved s else None) of
          Some (Record d) \<Rightarrow>
            if document_type d \<noteq> Some ''readback''
            then refuse log s ''R-LC-2'' ''read_back ref must be an AHR read-back record (media_type application/vnd.ahr+json)''
            else
              (let errs = (if author_of d \<noteq> (Some (st_actor s), Some (principal_kind_value (pr_kind (ev_actor (st_ev s)))))
                           then [st_fail s ''R-LC-2'' ''read-back author differs from event actor''] else []);
                   problems = readback_problems env d (st_handoff s)
               in if \<not> st_addressed s \<and>
                     (st_actor s \<in> lg_verifiers log \<or> Some (st_actor s) = map_option pr_id (st_verifier s))
                  then Inr (log, errs @ [st_fail s ''R-RB-5''
                    ''a principal that verified this unaddressed record cannot also read it back''])
                  else if problems \<noteq> []
                  then Inr (log, errs @ map (\<lambda>p. tag @ '': readback '' @ p) problems)
                  else (case (d, ref_digest_of (st_ev s)) of
                      (Readback r, Some rd) \<Rightarrow>
                        bindE (store_readback env log s r rd) (\<lambda>(log', more). Inr (log', errs @ more))
                    | _ \<Rightarrow> Inl (MissingMember ''at'')))
        | _ \<Rightarrow> refuse log s ''R-LC-2'' ''read_back ref must be an AHR read-back record (media_type application/vnd.ahr+json)''))"

definition answered :: "AhrLog \<Rightarrow> Step \<Rightarrow> arm_result" where
  "answered log s =
     (if st_actor s \<noteq> st_sender s \<or> lg_state log \<notin> {Some Is_offered, Some Is_accepted}
      then refuse log s ''R-LC-8'' ''answered must come from the sender while offered or accepted''
      else (case st_resolved s of
          Some (Record d) \<Rightarrow> refuse log s ''R-DOC-2''
            ''an answered ref carries explanation, never an AHR record; supersede instead''
        | _ \<Rightarrow> Inr (log, [])))"

text \<open>The latest verdict is admissible at the critical tier.\<close>

definition admissible_verdict :: "bool \<Rightarrow> verification option \<Rightarrow> bool" where
  "admissible_verdict needs_human v =
     (case v of
        None \<Rightarrow> False
      | Some v \<Rightarrow> passing v \<and> ve_method v \<in> {Judge, By_human} \<and>
          \<not> (ve_confidence v = Some Low \<and> ve_method v \<noteq> By_human) \<and> \<not> (needs_human \<and> ve_method v \<noteq> By_human))"

definition readback_gate :: "AhrLog \<Rightarrow> Step \<Rightarrow> rb_entry option \<Rightarrow> (string \<times> string) option" where
  "readback_gate log s mine =
     (if \<not> (st_tier s \<in> {Standard, Critical} \<or> readback_required (st_handoff s)) then None
      else (case mine of
          None \<Rightarrow> Some (''R-LC-11'', ''a read-back by the receiver must precede accepted'')
        | Some e \<Rightarrow>
            (let rb = re_readback e; v = lg_verdict log (re_digest e); needs_human = lg_any_fail log \<or> not_checkable rb in
             if rb_disposition rb \<noteq> Ready \<or> contradicted rb
             then Some (''R-LC-11'', ''the receiver's latest read-back has open questions or contradictions'')
             else if st_tier s = Critical \<and> \<not> admissible_verdict needs_human v
             then Some (if needs_human \<and> (case v of None \<Rightarrow> False | Some v \<Rightarrow> ve_method v \<noteq> By_human) then ''R-RB-9'' else ''R-LC-10'',
               ''critical: the latest verdict on the receiver's latest read-back is not an admissible passing verdict'')
             else None)))"

definition acceptance_refusal :: "AhrLog \<Rightarrow> Step \<Rightarrow> rb_entry option \<Rightarrow> (string \<times> string) option" where
  "acceptance_refusal log s mine =
     (if (case mine of None \<Rightarrow> False | Some e \<Rightarrow> contradicted (re_readback e))
      then Some (''R-RB-4'', ''the receiver's latest read-back lists a contradicted claim'')
      else if (case Option.bind mine (\<lambda>e. lg_verdict log (re_digest e)) of None \<Rightarrow> False | Some v \<Rightarrow> ve_outcome v = Fail)
      then Some (''R-LC-15'', ''the latest verdict on the receiver's latest read-back is fail'')
      else readback_gate log s mine)"

definition accepted :: "ahr_env \<Rightarrow> AhrLog \<Rightarrow> Step \<Rightarrow> string \<Rightarrow> arm_result" where
  "accepted env log s effective_at =
     (let mine = find_row re_author (st_actor s) (lg_latest_rb log);
          errs = (if \<not> st_addressed s \<and> lg_latest_rb log \<noteq> [] \<and> mine = None
                  then [st_fail s ''R-LC-9'' ''another principal read back this unaddressed record first''] else [])
      in if lg_state log \<noteq> Some Is_offered \<or> \<not> st_may_receive s
         then refuse log s ''R-LC-2'' ''accepted must follow offered and come from a permitted receiver''
         else if \<not> st_addressed s \<and> Some (st_actor s) = map_option pr_id (st_verifier s)
         then refuse log s ''R-RB-5'' ''the designated verifier cannot accept an unaddressed record''
         else if \<not> st_addressed s \<and> Some (st_actor s) = st_completer s
         then refuse log s ''R-LC-9'' ''the designated completer cannot accept (it could never complete)''
         else (case acceptance_refusal log s mine of
             Some (rule, msg) \<Rightarrow> Inr (log, errs @ [st_fail s rule msg])
           | None \<Rightarrow>
               if instant env effective_at \<noteq> st_at s
               then Inr (log, errs @ [st_fail s ''R-LC-6''
                 ''the store sets effective_at equal to the stored at of the accepted event''])
               else Inr (log\<lparr>lg_state := Some Is_accepted, lg_receiver := Some (st_actor s)\<rparr>, errs)))"

definition completed :: "AhrLog \<Rightarrow> Step \<Rightarrow> arm_result" where
  "completed log s =
     Inr (log\<lparr>lg_state := Some Is_completed\<rparr>,
       (if lg_state log \<noteq> Some Is_reported then [st_fail s ''R-LC-2'' ''completed must follow reported'']
        else if Some (st_actor s) \<noteq> st_completer s
        then [st_fail s ''R-LC-5'' ''only the completer may complete (unaddressed records need to.completer)'']
        else if Some (st_actor s) = lg_receiver log
        then [st_fail s ''R-LC-5'' ''the receiver cannot complete its own handoff'']
        else []))"

definition withdrawn :: "AhrLog \<Rightarrow> Step \<Rightarrow> arm_result" where
  "withdrawn log s =
     (if st_actor s \<noteq> st_sender s \<or> lg_state log \<noteq> Some Is_offered
      then refuse log s ''R-LC-2'' ''withdrawn must come from the sender while offered''
      else Inr (log\<lparr>lg_state := Some Is_withdrawn\<rparr>, []))"

definition expired :: "AhrLog \<Rightarrow> Step \<Rightarrow> arm_result" where
  "expired log s =
     (if lg_state log \<noteq> Some Is_offered \<or> (case st_expires s of None \<Rightarrow> True | Some e \<Rightarrow> st_at s < e) \<or>
         pr_kind (ev_actor (st_ev s)) \<noteq> Service
      then refuse log s ''R-LC-2'' ''expired applies only to an offered record at or after expires_at, by the store''
      else Inr (log\<lparr>lg_state := Some Is_expired\<rparr>, []))"

definition arm :: "ahr_env \<Rightarrow> AhrLog \<Rightarrow> Step \<Rightarrow> string \<Rightarrow> arm_result" where
  "arm env log s tag =
     (case ev_kind (st_ev s) of
        Readback_verified v \<Rightarrow> readback_verified env log s v
      | Declined reason \<Rightarrow> declined env log s
      | Reported oc r \<Rightarrow> reported env log s oc
      | Superseded r \<Rightarrow> superseded env log s
      | Offered \<Rightarrow> offered env log s
      | Read_back r \<Rightarrow> read_back env log s tag
      | Answered r \<Rightarrow> answered log s
      | Accepted effective_at \<Rightarrow> accepted env log s effective_at
      | Completed \<Rightarrow> completed log s
      | Withdrawn reason \<Rightarrow> withdrawn log s
      | Expired \<Rightarrow> expired log s)"

section \<open>One event\<close>

text \<open>The kinds this hand-off records for its principals (R-ROLE-2).\<close>

definition kinds_of :: "handoff \<Rightarrow> string \<rightharpoonup> principal_kind" where
  "kinds_of h =
     (let sender = [pr_id (ho_from h) \<mapsto> pr_kind (ho_from h)];
          parties = (case ho_to h of
              Named p \<Rightarrow> sender(pr_id p \<mapsto> pr_kind p)
            | Unaddressed scope c \<Rightarrow> (case c of
                None \<Rightarrow> sender
              | Some p \<Rightarrow> if sender (pr_id p) = None then sender(pr_id p \<mapsto> pr_kind p) else sender))
      in case verifier_of h of None \<Rightarrow> parties | Some v \<Rightarrow> parties(pr_id v \<mapsto> pr_kind v))"

definition document_tag :: "document \<Rightarrow> string" where
  "document_tag d =
     ''event seq='' @
     (case d of
        Event e \<Rightarrow> str_int (ev_seq e) @ '' '' @ event_kind_value (ev_kind e)
      | Odd x \<Rightarrow> od_tag x
      | _ \<Rightarrow> ''None None'')"

definition step_of :: "ahr_env \<Rightarrow> AhrLog \<Rightarrow> event \<Rightarrow> target option \<Rightarrow> string \<Rightarrow> Step" where
  "step_of env log ev target tag =
     (let h = lg_handoff log; actor = pr_id (ev_actor ev) in
      \<lparr>st_ev = ev, st_resolved = (if ref_of ev = None then None else map_option fst target), st_actor = actor,
       st_tier = ho_tier h, st_sender = log_sender log, st_addressed = log_addressed log,
       st_completer = log_completer log, st_verifier = verifier_of h, st_handoff = h,
       st_may_receive = (if log_addressed log then recipient_id (ho_to h) = Some actor else actor \<noteq> log_sender log),
       st_at = instant env (ev_at ev), st_expires = log_expires_at env log,
       st_fail = (\<lambda>rule msg. rule @ '' '' @ tag @ '': '' @ msg)\<rparr>)"

text \<open>R-LC-13: the digest of the previous stored event, when the event names one.\<close>

definition chain_errors :: "ahr_env \<Rightarrow> AhrLog \<Rightarrow> event \<Rightarrow> string \<Rightarrow> string list" where
  "chain_errors env log ev tag =
     (case ev_prev_digest ev of
        None \<Rightarrow> []
      | Some d \<Rightarrow>
          if (case lg_prev_event log of None \<Rightarrow> True | Some p \<Rightarrow> d \<noteq> doc_digest env (Event p))
          then [''R-LC-13 '' @ tag @ '': prev_event_digest does not match the previous stored event''] else [])"

definition order_errors :: "ahr_env \<Rightarrow> AhrLog \<Rightarrow> event \<Rightarrow> nat \<Rightarrow> (string \<Rightarrow> string \<Rightarrow> string) \<Rightarrow> string list" where
  "order_errors env log ev n fail =
     (let at = instant env (ev_at ev) in
      (if ev_seq ev \<noteq> int n + 1
       then [fail ''X-15'' (''seq must be '' @ str_nat (n + 1) @ '' (dense from 1 in append order)'')] else []) @
      (if (case lg_prev_at log of None \<Rightarrow> False | Some p \<Rightarrow> at < p)
       then [fail ''X-16'' ''stored time decreases along seq''] else []) @
      (if at < instant env (ho_created_at (lg_handoff log))
       then [fail ''X-16'' ''event is stored before the handoff was created''] else []) @
      (if ev_record_digest ev \<noteq> lg_record_digest log
       then [fail ''R-LC-1'' ''record_digest is not the digest of handoff.json''] else []))"

text \<open>Whether the ref resolves to what it says; empty bytes never parse as a record.\<close>

definition ref_refusal :: "ahr_env \<Rightarrow> event \<Rightarrow> target option \<Rightarrow> (string \<times> string) option" where
  "ref_refusal env ev target =
     (case ref_of ev of
        None \<Rightarrow> None
      | Some r \<Rightarrow>
          (case target of
             None \<Rightarrow> Some (''R-INT-7'', ''ref cannot be resolved'')
           | Some (resolved, got) \<Rightarrow>
               if ref_media_type r \<noteq> Some AHR_MEDIA \<and>
                  (case resolved of Raw bytes \<Rightarrow> bytes \<noteq> [] \<and> looks_ahr env bytes | Record d \<Rightarrow> False)
               then Some (''R-INT-7'', ''ref targets an AHR record but lacks media_type application/vnd.ahr+json'')
               else if ref_digest r \<notin> {None, Some got}
               then Some (''R-INT-6'', ''ref.digest does not match the referenced content'')
               else None))"

definition overdue :: "AhrLog \<Rightarrow> Step \<Rightarrow> bool" where
  "overdue log s \<longleftrightarrow>
     lg_state log = Some Is_offered \<and> ev_kind (st_ev s) \<noteq> Expired \<and>
     (case st_expires s of None \<Rightarrow> False | Some e \<Rightarrow> e \<le> st_at s)"

definition admit_event :: "ahr_env \<Rightarrow> AhrLog \<Rightarrow> event \<Rightarrow> target option \<Rightarrow> string \<Rightarrow> nat \<Rightarrow> arm_result" where
  "admit_event env log ev target tag n =
     (let h = lg_handoff log; actor = pr_id (ev_actor ev); s = step_of env log ev target tag;
          log1 = log\<lparr>lg_seen_ids := (lg_seen_ids log)(ev_id ev \<mapsto> actor)\<rparr>;
          log2 = log1\<lparr>lg_prev_event := Some ev\<rparr>;
          log3 = log2\<lparr>lg_prev_at := Some (instant env (ev_at ev))\<rparr>;
          chain = chain_errors env log ev tag; errs = chain @ order_errors env log ev n (st_fail s)
      in if kinds_of h actor \<notin> {None, Some (pr_kind (ev_actor ev))}
         then Inr (log, [''R-ROLE-2 '' @ tag @ '': actor kind differs from the kind this handoff records for '' @ quoted actor])
         else (case lg_seen_ids log (ev_id ev) of
             Some who \<Rightarrow> Inr (log, [(if who = actor then ''X-15'' else ''R-LC-1'') @ '' '' @ tag @
               '': duplicate event_id; a retry must return the stored event, and another actor's reuse is a conflict''])
           | None \<Rightarrow>
               if ev_handoff_id ev \<noteq> ho_id h
               then Inr (log2, chain @ [st_fail s ''X-15'' ''event names another handoff''])
               else if lg_state log \<in> Some ` TERMINAL
               then Inr (log3, errs @ [st_fail s ''R-LC-2''
                 (''no event may follow terminal state '' @ quoted (lifecycle_value (the (lg_state log))))])
               else (case ref_refusal env ev target of
                   Some (rule, msg) \<Rightarrow> Inr (log3, errs @ [st_fail s rule msg])
                 | None \<Rightarrow>
                     if overdue log s
                     then Inr (log3, errs @ [st_fail s ''R-TIME-2'' (event_kind_value (ev_kind ev) @
                       '' on an offered record at or after expires_at; the store appends expired first'')])
                     else bindE (arm env log3 s tag) (\<lambda>(log', more). Inr (log', errs @ more)))))"

definition step :: "ahr_env \<Rightarrow> AhrLog \<Rightarrow> document option \<Rightarrow> target option \<Rightarrow> arm_result" where
  "step env log found target =
     (let n = lg_count log; log1 = log\<lparr>lg_count := n + 1\<rparr> in
      case found of
        None \<Rightarrow> Inr (log1, [''event line '' @ str_nat (n + 1) @ '': R-DOC-1 an event must be a JSON object''])
      | Some d \<Rightarrow> bindE (check_doc env d None) (\<lambda>bad.
          if bad \<noteq> [] then Inr (log1, map (\<lambda>e. document_tag d @ '': '' @ e) bad)
          else (case d of
              Event ev \<Rightarrow> admit_event env log1 ev target (document_tag d) n
            | _ \<Rightarrow> Inl (MissingMember ''event''))))"

text \<open>\<^verbatim>\<open>replay\<close>: a whole log, each event with its resolved ref.\<close>

fun replay_events :: "ahr_env \<Rightarrow> AhrLog \<Rightarrow> (document option \<times> target option) list \<Rightarrow> arm_result" where
  "replay_events env log [] = Inr (log, [])"
| "replay_events env log ((found, target) # rest) =
     bindE (step env log found target) (\<lambda>(log', errs).
       bindE (replay_events env log' rest) (\<lambda>(log'', more). Inr (log'', errs @ more)))"

definition replay :: "ahr_env \<Rightarrow> handoff \<Rightarrow> (document option \<times> target option) list \<Rightarrow> ahr_error + string \<times> string list" where
  "replay env h events =
     bindE (start env (Handoff h)) (\<lambda>(log, errs).
       case log of
         None \<Rightarrow> Inr (''invalid'', errs)
       | Some log \<Rightarrow> bindE (replay_events env log events) (\<lambda>(log', errs).
           Inr (case lg_state log' of None \<Rightarrow> ''none'' | Some st \<Rightarrow> lifecycle_value st,
             errs @ (if ho_tier h \<noteq> Minimal \<and> lg_state log' = None \<and> errs = []
                     then [''R-LC-2 a standard or critical handoff needs at least an offered event''] else []))))"

end
