(* ===== verification/Ahr_Replay.thy ===== *)
theory Ahr_Replay
  imports Ahr_Lifecycle
begin

text \<open>
  What the replay of \<^verbatim>\<open>Ahr_Lifecycle\<close> guarantees. An abstract lifecycle, a relation between a state
  with its receiver and the next, says who may move a hand-off where; every step that reports no
  violation is a move of it. The invariant \<open>log_ok\<close> carries what the later arms rely on, so that a
  property of a whole log is proved event by event.
\<close>

named_theorems clean_arms \<open>what an arm did when it reported no violation\<close>

section \<open>Steps without a violation\<close>

lemma refuse_violates [simp]: "refuse log s rule msg \<noteq> Inr (log', [])"
  by (simp add: refuse_def)

lemma offered_clean [clean_arms]:
  "offered env log s = Inr (log', []) \<Longrightarrow>
   lg_state log = None \<and> st_actor s = st_sender s \<and> (\<forall>e. st_expires s = Some e \<longrightarrow> st_at s < e) \<and>
   log' = log\<lparr>lg_state := Some Is_offered\<rparr>"
  by (auto simp: offered_def Let_def split: if_splits option.splits)

lemma accepted_clean [clean_arms]:
  "accepted env log s effective_at = Inr (log', []) \<Longrightarrow>
   lg_state log = Some Is_offered \<and> st_may_receive s \<and>
   (\<not> st_addressed s \<longrightarrow> Some (st_actor s) \<noteq> st_completer s \<and> Some (st_actor s) \<noteq> map_option pr_id (st_verifier s)) \<and>
   acceptance_refusal log s (find_row re_author (st_actor s) (lg_latest_rb log)) = None \<and>
   instant env effective_at = st_at s \<and>
   log' = log\<lparr>lg_state := Some Is_accepted, lg_receiver := Some (st_actor s)\<rparr>"
  by (auto simp: accepted_def Let_def split: if_splits option.splits)

lemma completed_clean [clean_arms]:
  "completed log s = Inr (log', []) \<Longrightarrow>
   lg_state log = Some Is_reported \<and> st_completer s = Some (st_actor s) \<and> lg_receiver log \<noteq> Some (st_actor s) \<and>
   log' = log\<lparr>lg_state := Some Is_completed\<rparr>"
  by (auto simp: completed_def split: if_splits)

lemma withdrawn_clean [clean_arms]:
  "withdrawn log s = Inr (log', []) \<Longrightarrow>
   lg_state log = Some Is_offered \<and> st_actor s = st_sender s \<and> log' = log\<lparr>lg_state := Some Is_withdrawn\<rparr>"
  by (auto simp: withdrawn_def split: if_splits)

lemma expired_clean [clean_arms]:
  "expired log s = Inr (log', []) \<Longrightarrow>
   lg_state log = Some Is_offered \<and> (\<exists>e. st_expires s = Some e \<and> e \<le> st_at s) \<and>
   pr_kind (ev_actor (st_ev s)) = Service \<and> log' = log\<lparr>lg_state := Some Is_expired\<rparr>"
  by (auto simp: expired_def split: if_splits option.splits)

lemma declined_clean [clean_arms]:
  "declined env log s = Inr (log', []) \<Longrightarrow>
   lg_state log = Some Is_offered \<and> st_may_receive s \<and>
   (\<not> st_addressed s \<longrightarrow> escalation_ok env log s = Inr True) \<and> log' = log\<lparr>lg_state := Some Is_declined\<rparr>"
  by (auto simp: declined_def split: if_splits)

lemma reported_clean [clean_arms]:
  "reported env log s oc = Inr (log', []) \<Longrightarrow>
   lg_state log = Some Is_accepted \<and> lg_receiver log = Some (st_actor s) \<and>
   (oc = Met \<longrightarrow> (\<forall>mine. find_row re_author (st_actor s) (lg_latest_rb log) = Some mine \<longrightarrow> \<not> contradicted (re_readback mine))) \<and>
   (\<exists>ow. onward_of env (st_resolved s) = Inr ow \<and> onward_refusal log s oc ow = None) \<and>
   log' = log\<lparr>lg_state := Some Is_reported\<rparr>"
  by (auto simp: reported_def split: if_splits option.splits)

lemma superseded_clean [clean_arms]:
  assumes "superseded env log s = Inr (log', [])"
  shows "lg_state log = Some Is_offered \<and> st_actor s = st_sender s \<and>
    (\<exists>n. onward_of env (st_resolved s) = Inr (Onward n) \<and> lists_record log n \<and> pr_id (ho_from n) = st_actor s \<and>
       ho_subject n = ho_subject (st_handoff s) \<and> TIER_RANK (st_tier s) \<le> TIER_RANK (ho_tier n)) \<and>
    log' = log\<lparr>lg_state := Some Is_superseded\<rparr>"
proof -
  from assms obtain ow where
    "(if media_type_of (st_ev s) \<noteq> Some AHR_MEDIA then Inr No_record else onward_of env (st_resolved s)) = Inr ow"
    by (auto simp: superseded_def split: if_splits)
  with assms show ?thesis
    by (cases ow) (auto simp: superseded_def split: if_splits)
qed

lemma answered_clean [clean_arms]:
  "answered log s = Inr (log', []) \<Longrightarrow>
   lg_state log \<in> {Some Is_offered, Some Is_accepted} \<and> st_actor s = st_sender s \<and> log' = log"
  by (auto simp: answered_def split: if_splits option.splits content.splits)

lemma verified_clean [clean_arms]:
  "readback_verified env log s v = Inr (log', []) \<Longrightarrow>
   lg_state log \<in> {Some Is_offered, Some Is_accepted} \<and>
   (\<exists>rb. known_readback log (ve_readback_digest v) = Some rb \<and> verdict_refusal env log s v rb = None) \<and>
   log' = log\<lparr>lg_verdict := (lg_verdict log)(ve_readback_digest v \<mapsto> v),
     lg_verifiers := insert (st_actor s) (lg_verifiers log),
     lg_any_fail := lg_any_fail log \<or> ve_outcome v = Fail \<or> (ve_method v = Judge \<and> ve_confidence v = Some Low)\<rparr>"
  by (auto simp: readback_verified_def split: if_splits option.splits)

lemma store_readback_clean:
  "store_readback env log s r d = Inr (log', []) \<Longrightarrow>
   instant env (rb_at r) \<le> st_at s \<and> lg_rb_ids log (rb_id r) \<in> {None, Some d} \<and> d \<notin> lg_seen_rb log \<and>
   log' = log\<lparr>lg_rb_ids := (lg_rb_ids log)(rb_id r \<mapsto> d), lg_seen_rb := insert d (lg_seen_rb log),
     lg_latest_rb := put_row re_author
       \<lparr>re_author = st_actor s, re_digest = d, re_readback = r, re_at = st_at s\<rparr> (lg_latest_rb log)\<rparr>"
  by (auto simp: store_readback_def Let_def split: if_splits option.splits)

lemma read_back_clean [clean_arms]:
  assumes "read_back env log s tag = Inr (log', [])"
  shows "\<exists>r d. lg_state log \<in> {Some Is_offered, Some Is_accepted} \<and> st_may_receive s \<and>
    lg_receiver log \<in> {None, Some (st_actor s)} \<and> st_resolved s = Some (Record (Readback r)) \<and>
    ref_digest_of (st_ev s) = Some d \<and> pr_id (rb_by r) = st_actor s \<and>
    check_doc env (Readback r) (Some (st_handoff s)) = Inr [] \<and>
    (\<not> st_addressed s \<longrightarrow> st_actor s \<notin> lg_verifiers log) \<and> store_readback env log s r d = Inr (log', [])"
proof -
  have guards: "lg_state log \<in> {Some Is_offered, Some Is_accepted}" "st_may_receive s"
    "lg_receiver log \<in> {None, Some (st_actor s)}"
    using assms by (auto simp: read_back_def split: if_splits)
  from assms obtain d where d: "st_resolved s = Some (Record d)" "document_type d = Some ''readback''"
    by (auto simp: read_back_def split: if_splits option.splits content.splits)
  from assms guards d have "author_of d = (Some (st_actor s), Some (principal_kind_value (pr_kind (ev_actor (st_ev s)))))"
    and unverified: "\<not> st_addressed s \<longrightarrow> st_actor s \<notin> lg_verifiers log"
    and fine: "readback_problems env d (st_handoff s) = []"
    and stored: "(case (d, ref_digest_of (st_ev s)) of
        (Readback r, Some rd) \<Rightarrow> bindE (store_readback env log s r rd) (\<lambda>(log', more). Inr (log', more))
      | _ \<Rightarrow> Inl (MissingMember ''at'')) = Inr (log', [])"
    by (auto simp: read_back_def Let_def split: if_splits document.splits option.splits)
  then obtain r rd where r: "d = Readback r" "ref_digest_of (st_ev s) = Some rd"
    and "store_readback env log s r rd = Inr (log', [])"
    by (auto split: document.splits option.splits)
  moreover from fine r have "check_doc env (Readback r) (Some (st_handoff s)) = Inr []"
    by (auto simp: readback_problems_def split: sum.splits)
  ultimately show ?thesis
    using guards d unverified \<open>author_of d = _\<close> by (auto simp: author_of_def)
qed

text \<open>A step that reports nothing stored an event that passed every check before its arm.\<close>

definition stamped :: "ahr_env \<Rightarrow> AhrLog \<Rightarrow> event \<Rightarrow> AhrLog" where
  "stamped env log ev = log\<lparr>lg_count := lg_count log + 1, lg_seen_ids := (lg_seen_ids log)(ev_id ev \<mapsto> pr_id (ev_actor ev)),
     lg_prev_event := Some ev, lg_prev_at := Some (instant env (ev_at ev))\<rparr>"

definition locals_of :: "ahr_env \<Rightarrow> AhrLog \<Rightarrow> event \<Rightarrow> target option \<Rightarrow> Step" where
  "locals_of env log ev target = step_of env log ev target (document_tag (Event ev))"

lemma step_of_count [simp]:
  "step_of env (log\<lparr>lg_count := n\<rparr>) ev target tag = step_of env log ev target tag"
  by (simp add: step_of_def Let_def log_sender_def log_addressed_def log_completer_def log_expires_at_def)

lemma stamped_simps [simp]:
  "lg_handoff (stamped env log ev) = lg_handoff log" "lg_record_digest (stamped env log ev) = lg_record_digest log"
  "lg_state (stamped env log ev) = lg_state log" "lg_receiver (stamped env log ev) = lg_receiver log"
  "lg_latest_rb (stamped env log ev) = lg_latest_rb log" "lg_verdict (stamped env log ev) = lg_verdict log"
  "lg_verifiers (stamped env log ev) = lg_verifiers log" "lg_any_fail (stamped env log ev) = lg_any_fail log"
  "lg_rb_ids (stamped env log ev) = lg_rb_ids log" "lg_seen_rb (stamped env log ev) = lg_seen_rb log"
  "lg_count (stamped env log ev) = lg_count log + 1" "lg_prev_event (stamped env log ev) = Some ev"
  "lg_prev_at (stamped env log ev) = Some (instant env (ev_at ev))"
  "lg_seen_ids (stamped env log ev) = (lg_seen_ids log)(ev_id ev \<mapsto> pr_id (ev_actor ev))"
  by (simp_all add: stamped_def)

lemma locals_simps [simp]:
  "st_ev (locals_of env log ev target) = ev" "st_actor (locals_of env log ev target) = pr_id (ev_actor ev)"
  "st_tier (locals_of env log ev target) = ho_tier (lg_handoff log)" "st_sender (locals_of env log ev target) = log_sender log"
  "st_addressed (locals_of env log ev target) = log_addressed log"
  "st_completer (locals_of env log ev target) = log_completer log"
  "st_verifier (locals_of env log ev target) = verifier_of (lg_handoff log)"
  "st_handoff (locals_of env log ev target) = lg_handoff log"
  "st_at (locals_of env log ev target) = instant env (ev_at ev)"
  "st_expires (locals_of env log ev target) = log_expires_at env log"
  "st_may_receive (locals_of env log ev target) =
     (if log_addressed log then recipient_id (ho_to (lg_handoff log)) = Some (pr_id (ev_actor ev))
      else pr_id (ev_actor ev) \<noteq> log_sender log)"
  "st_resolved (locals_of env log ev target) = (if ref_of ev = None then None else map_option fst target)"
  by (simp_all add: locals_of_def step_of_def Let_def)

definition admitted :: "ahr_env \<Rightarrow> AhrLog \<Rightarrow> event \<Rightarrow> bool" where
  "admitted env log ev \<longleftrightarrow>
     check_doc env (Event ev) None = Inr [] \<and> ev_handoff_id ev = ho_id (lg_handoff log) \<and>
     ev_seq ev = int (lg_count log) + 1 \<and> lg_seen_ids log (ev_id ev) = None \<and>
     ev_record_digest ev = lg_record_digest log \<and>
     (\<forall>d. ev_prev_digest ev = Some d \<longrightarrow> (\<exists>p. lg_prev_event log = Some p \<and> d = doc_digest env (Event p))) \<and>
     (\<forall>t. lg_prev_at log = Some t \<longrightarrow> t \<le> instant env (ev_at ev)) \<and>
     instant env (ho_created_at (lg_handoff log)) \<le> instant env (ev_at ev) \<and>
     lg_state log \<notin> Some ` TERMINAL \<and>
     kinds_of (lg_handoff log) (pr_id (ev_actor ev)) \<in> {None, Some (pr_kind (ev_actor ev))}"

lemma chain_clean:
  "chain_errors env log ev tag = [] \<longleftrightarrow>
   (\<forall>d. ev_prev_digest ev = Some d \<longrightarrow> (\<exists>p. lg_prev_event log = Some p \<and> d = doc_digest env (Event p)))"
  by (auto simp: chain_errors_def split: option.splits)

lemma order_clean:
  "order_errors env log ev n fail = [] \<longleftrightarrow>
   ev_seq ev = int n + 1 \<and> (\<forall>t. lg_prev_at log = Some t \<longrightarrow> t \<le> instant env (ev_at ev)) \<and>
   instant env (ho_created_at (lg_handoff log)) \<le> instant env (ev_at ev) \<and> ev_record_digest ev = lg_record_digest log"
  by (auto simp: order_errors_def Let_def split: option.splits)

lemma errors_count [simp]:
  "chain_errors env (log\<lparr>lg_count := n\<rparr>) ev tag = chain_errors env log ev tag"
  "order_errors env (log\<lparr>lg_count := n\<rparr>) ev m fail = order_errors env log ev m fail"
  "overdue (log\<lparr>lg_count := n\<rparr>) s = overdue log s"
  by (simp_all add: chain_errors_def order_errors_def overdue_def split: option.split)

lemma append_empty_arm:
  "bindE m (\<lambda>(log', more). Inr (log', errs @ more)) = Inr (log', []) \<longleftrightarrow> errs = [] \<and> m = Inr (log', [])"
  by (cases m) auto

lemma admit_clean:
  "admit_event env (log\<lparr>lg_count := lg_count log + 1\<rparr>) ev target (document_tag (Event ev)) (lg_count log) = Inr (log', []) \<longleftrightarrow>
   admitted env log ev \<and> ref_refusal env ev target = None \<and>
   \<not> overdue log (locals_of env log ev target) \<and>
   arm env (stamped env log ev) (locals_of env log ev target) (document_tag (Event ev)) = Inr (log', [])"
  if "check_doc env (Event ev) None = Inr []"
proof -
  define s where "s = locals_of env log ev target"
  have s: "step_of env (log\<lparr>lg_count := lg_count log + 1\<rparr>) ev target (document_tag (Event ev)) = s"
    by (simp add: s_def locals_of_def)
  have stamp: "log\<lparr>lg_count := lg_count log + 1\<rparr>\<lparr>lg_seen_ids := (lg_seen_ids log)(ev_id ev \<mapsto> pr_id (ev_actor ev)),
      lg_prev_event := Some ev, lg_prev_at := Some (instant env (ev_at ev))\<rparr> = stamped env log ev"
    by (simp add: stamped_def)
  show ?thesis
    unfolding s_def [symmetric] admit_event_def Let_def s
    using that
    by (cases "lg_seen_ids log (ev_id ev)"; cases "ref_refusal env ev target")
      (auto simp: admitted_def append_empty_arm chain_clean order_clean stamped_def)
qed

lemma step_clean:
  "step env log found target = Inr (log', []) \<longleftrightarrow>
   (\<exists>ev. found = Some (Event ev) \<and> admitted env log ev \<and> ref_refusal env ev target = None \<and>
     \<not> overdue log (locals_of env log ev target) \<and>
     arm env (stamped env log ev) (locals_of env log ev target) (document_tag (Event ev)) = Inr (log', []))"
proof (cases found)
  case None
  then show ?thesis by (simp add: step_def Let_def)
next
  case (Some d)
  show ?thesis
  proof (cases "check_doc env d None = Inr []")
    case False
    then show ?thesis
      using Some by (cases "check_doc env d None") (auto simp: step_def Let_def admitted_def)
  next
    case True
    then show ?thesis
      using Some admit_clean [of env _ log target log']
      by (cases d) (auto simp: step_def Let_def admitted_def)
  qed
qed

section \<open>The abstract lifecycle\<close>

text \<open>Where a hand-off stands, and who received it.\<close>

type_synonym position = "lifecycle option \<times> string option"

definition position_of :: "AhrLog \<Rightarrow> position" where
  "position_of log = (lg_state log, lg_receiver log)"

definition sender_id :: "handoff \<Rightarrow> string" where
  "sender_id h = pr_id (ho_from h)"

definition completer_id :: "handoff \<Rightarrow> string option" where
  "completer_id h =
     (if addressed_to (ho_to h) then Some (sender_id h) else map_option pr_id (designated_completer (ho_to h)))"

definition may_receive :: "handoff \<Rightarrow> string \<Rightarrow> bool" where
  "may_receive h a \<longleftrightarrow> a \<noteq> sender_id h \<and> (addressed_to (ho_to h) \<longrightarrow> recipient_id (ho_to h) = Some a)"

text \<open>
  Who may move a hand-off where. The receiver is fixed once, by its acceptance; a conversation
  (read-back, answer, verdict) does not move it; five positions have no move out of them.
\<close>

inductive lifecycle_move :: "handoff \<Rightarrow> position \<Rightarrow> event \<Rightarrow> position \<Rightarrow> bool" for h where
  offer: "lifecycle_move h (None, None) ev (Some Is_offered, None)"
    if "ev_kind ev = Offered" "pr_id (ev_actor ev) = sender_id h"
| accept: "lifecycle_move h (Some Is_offered, None) ev (Some Is_accepted, Some a)"
    if "ev_kind ev = Accepted at" "a = pr_id (ev_actor ev)" "may_receive h a" "completer_id h \<noteq> Some a"
| decline: "lifecycle_move h (Some Is_offered, None) ev (Some Is_declined, None)"
    if "ev_kind ev = Declined reason" "may_receive h (pr_id (ev_actor ev))"
| withdraw: "lifecycle_move h (Some Is_offered, None) ev (Some Is_withdrawn, None)"
    if "ev_kind ev = Withdrawn reason" "pr_id (ev_actor ev) = sender_id h"
| supersede: "lifecycle_move h (Some Is_offered, None) ev (Some Is_superseded, None)"
    if "ev_kind ev = Superseded r" "pr_id (ev_actor ev) = sender_id h"
| expire: "lifecycle_move h (Some Is_offered, None) ev (Some Is_expired, None)"
    if "ev_kind ev = Expired" "pr_kind (ev_actor ev) = Service"
| report: "lifecycle_move h (Some Is_accepted, Some a) ev (Some Is_reported, Some a)"
    if "ev_kind ev = Reported oc r" "a = pr_id (ev_actor ev)"
| complete: "lifecycle_move h (Some Is_reported, Some a) ev (Some Is_completed, Some a)"
    if "ev_kind ev = Completed" "completer_id h = Some (pr_id (ev_actor ev))" "pr_id (ev_actor ev) \<noteq> a"
| converse: "lifecycle_move h (st, a) ev (st, a)"
    if "st = Some Is_offered \<or> st = Some Is_accepted"
      "event_kind_value (ev_kind ev) \<in> {''read_back'', ''answered'', ''readback_verified''}"

inductive lifecycle_path :: "handoff \<Rightarrow> position \<Rightarrow> event list \<Rightarrow> position \<Rightarrow> bool" for h where
  rest: "lifecycle_path h p [] p"
| move: "lifecycle_path h p (ev # evs) r" if "lifecycle_move h p ev q" "lifecycle_path h q evs r"

inductive_cases lifecycle_moveE: "lifecycle_move h p ev q"
inductive_simps lifecycle_path_simps: "lifecycle_path h p [] q" "lifecycle_path h p (ev # evs) q"

section \<open>The invariant of a conforming log\<close>

definition log_ok :: "ahr_env \<Rightarrow> AhrLog \<Rightarrow> bool" where
  "log_ok env log \<longleftrightarrow>
     valid_handoff env (lg_handoff log) \<and> lg_record_digest log = doc_digest env (Handoff (lg_handoff log)) \<and>
     (lg_state log \<in> {None, Some Is_offered} \<longrightarrow> lg_receiver log = None) \<and>
     (lg_state log = None \<longrightarrow> lg_latest_rb log = []) \<and>
     (lg_state log \<in> {Some Is_accepted, Some Is_reported, Some Is_completed} \<longrightarrow> lg_receiver log \<noteq> None) \<and>
     (\<forall>e \<in> set (lg_latest_rb log). check_doc env (Readback (re_readback e)) (Some (lg_handoff log)) = Inr [] \<and>
        pr_id (rb_by (re_readback e)) = re_author e)"

lemma fresh_log_ok: "valid_handoff env h \<Longrightarrow> log_ok env (fresh_log env h)"
  by (simp add: log_ok_def fresh_log_def)

lemma log_parties [simp]: "log_sender log = sender_id (lg_handoff log)"
  "log_completer log = completer_id (lg_handoff log)" "log_addressed log = addressed_to (ho_to (lg_handoff log))"
  by (simp_all add: log_sender_def log_completer_def log_addressed_def sender_id_def completer_id_def)

lemma receives:
  assumes "log_ok env log" "st_may_receive (locals_of env log ev target)"
  shows "may_receive (lg_handoff log) (pr_id (ev_actor ev))"
proof -
  have "recipient_id (ho_to (lg_handoff log)) \<noteq> Some (pr_id (ho_from (lg_handoff log)))"
    using assms(1) valid_handoff_parties(1) by (auto simp: log_ok_def)
  then show ?thesis
    using assms(2) by (auto simp: may_receive_def sender_id_def split: if_splits)
qed

text \<open>The moves, arm by arm.\<close>

lemma state_arm_ok:
  assumes "log_ok env log"
    and "lg_handoff log' = lg_handoff log" "lg_record_digest log' = lg_record_digest log" "lg_latest_rb log' = lg_latest_rb log"
    and "lg_state log' \<in> {None, Some Is_offered} \<Longrightarrow> lg_receiver log' = None"
    and "lg_state log' = None \<Longrightarrow> lg_state log = None"
    and "lg_state log' \<in> {Some Is_accepted, Some Is_reported, Some Is_completed} \<Longrightarrow> lg_receiver log' \<noteq> None"
  shows "log_ok env log'"
  using assms by (auto simp: log_ok_def)

definition moves :: "ahr_env \<Rightarrow> AhrLog \<Rightarrow> event \<Rightarrow> AhrLog \<Rightarrow> bool" where
  "moves env log ev log' \<longleftrightarrow>
     lifecycle_move (lg_handoff log) (position_of log) ev (position_of log') \<and> log_ok env log' \<and>
     lg_handoff log' = lg_handoff log"

text \<open>An offer that ends without an acceptance.\<close>

lemma offer_ends:
  assumes ok: "log_ok env log" and state: "lg_state log = Some Is_offered"
    and log': "log' = (stamped env log ev)\<lparr>lg_state := Some st\<rparr>"
    and st: "st \<in> {Is_declined, Is_withdrawn, Is_superseded, Is_expired}"
    and move: "lifecycle_move (lg_handoff log) (Some Is_offered, None) ev (Some st, None)"
  shows "moves env log ev log'"
proof -
  have none: "lg_receiver log = None" using ok state by (simp add: log_ok_def)
  have "log_ok env log'" by (rule state_arm_ok [OF ok]) (use st in \<open>auto simp: log'\<close>)
  with move show ?thesis by (simp add: moves_def position_of_def log' state none)
qed

text \<open>A message that leaves the position alone.\<close>

lemma conversation:
  assumes ok: "log_ok env log" and state: "lg_state log = Some Is_offered \<or> lg_state log = Some Is_accepted"
    and kind: "event_kind_value (ev_kind ev) \<in> {''read_back'', ''answered'', ''readback_verified''}"
    and log': "lg_state log' = lg_state log" "lg_receiver log' = lg_receiver log" "lg_handoff log' = lg_handoff log"
      "lg_record_digest log' = lg_record_digest log"
    and rows: "\<forall>e \<in> set (lg_latest_rb log'). e \<in> set (lg_latest_rb log) \<or>
      check_doc env (Readback (re_readback e)) (Some (lg_handoff log)) = Inr [] \<and> pr_id (rb_by (re_readback e)) = re_author e"
  shows "moves env log ev log'"
proof -
  have "lifecycle_move (lg_handoff log) (position_of log) ev (position_of log')"
    using lifecycle_move.converse [OF state kind] by (simp add: position_of_def log')
  moreover have "log_ok env log'"
    using ok state rows by (auto simp: log_ok_def log')
  ultimately show ?thesis by (simp add: moves_def log')
qed

lemma acceptance_moves:
  assumes ok: "log_ok env log" and kind: "ev_kind ev = Accepted at"
    and "accepted env (stamped env log ev) (locals_of env log ev target) at = Inr (log', [])"
  shows "moves env log ev log'"
proof -
  from accepted_clean [OF assms(3)] have c: "lg_state log = Some Is_offered" "st_may_receive (locals_of env log ev target)"
    "\<not> addressed_to (ho_to (lg_handoff log)) \<longrightarrow> Some (pr_id (ev_actor ev)) \<noteq> completer_id (lg_handoff log)"
    and log': "log' = (stamped env log ev)\<lparr>lg_state := Some Is_accepted, lg_receiver := Some (pr_id (ev_actor ev))\<rparr>"
    by auto
  have none: "lg_receiver log = None" using ok c(1) by (simp add: log_ok_def)
  have r: "may_receive (lg_handoff log) (pr_id (ev_actor ev))" by (rule receives [OF ok c(2)])
  have "completer_id (lg_handoff log) \<noteq> Some (pr_id (ev_actor ev))"
    using c(3) r by (auto simp: completer_id_def may_receive_def split: if_splits)
  then have "lifecycle_move (lg_handoff log) (position_of log) ev (position_of log')"
    using lifecycle_move.accept [OF kind refl r] by (simp add: position_of_def c log' none)
  moreover have "log_ok env log'" by (rule state_arm_ok [OF ok]) (simp_all add: log')
  ultimately show ?thesis by (simp add: moves_def log')
qed

lemma report_moves:
  assumes ok: "log_ok env log" and kind: "ev_kind ev = Reported oc r"
    and "reported env (stamped env log ev) (locals_of env log ev target) oc = Inr (log', [])"
  shows "moves env log ev log'"
proof -
  from reported_clean [OF assms(3)] have c: "lg_state log = Some Is_accepted" "lg_receiver log = Some (pr_id (ev_actor ev))"
    and log': "log' = (stamped env log ev)\<lparr>lg_state := Some Is_reported\<rparr>"
    by auto
  have "log_ok env log'" by (rule state_arm_ok [OF ok]) (simp_all add: c log')
  then show ?thesis
    using lifecycle_move.report [OF kind refl] by (simp add: moves_def position_of_def c log')
qed

lemma completion_moves:
  assumes ok: "log_ok env log" and kind: "ev_kind ev = Completed"
    and "completed (stamped env log ev) (locals_of env log ev target) = Inr (log', [])"
  shows "moves env log ev log'"
proof -
  from completed_clean [OF assms(3)] have c: "lg_state log = Some Is_reported"
    "completer_id (lg_handoff log) = Some (pr_id (ev_actor ev))" "lg_receiver log \<noteq> Some (pr_id (ev_actor ev))"
    and log': "log' = (stamped env log ev)\<lparr>lg_state := Some Is_completed\<rparr>"
    by auto
  obtain a where a: "lg_receiver log = Some a" using ok c(1) by (auto simp: log_ok_def)
  have "log_ok env log'" by (rule state_arm_ok [OF ok]) (simp_all add: c a log')
  then show ?thesis
    using lifecycle_move.complete [OF kind c(2), of a] c(3) by (simp add: moves_def position_of_def c a log')
qed

lemma readback_moves:
  assumes ok: "log_ok env log" and kind: "ev_kind ev = Read_back r"
    and "read_back env (stamped env log ev) (locals_of env log ev target) tag = Inr (log', [])"
  shows "moves env log ev log'"
proof -
  from read_back_clean [OF assms(3)] obtain rb d where
    c: "lg_state log = Some Is_offered \<or> lg_state log = Some Is_accepted" "pr_id (rb_by rb) = pr_id (ev_actor ev)"
      "check_doc env (Readback rb) (Some (lg_handoff log)) = Inr []"
    and stored: "store_readback env (stamped env log ev) (locals_of env log ev target) rb d = Inr (log', [])"
    by auto
  define e where "e = \<lparr>re_author = pr_id (ev_actor ev), re_digest = d, re_readback = rb, re_at = instant env (ev_at ev)\<rparr>"
  from store_readback_clean [OF stored]
  have log': "lg_state log' = lg_state log" "lg_receiver log' = lg_receiver log" "lg_handoff log' = lg_handoff log"
    "lg_record_digest log' = lg_record_digest log" "lg_latest_rb log' = put_row re_author e (lg_latest_rb log)"
    by (simp_all add: e_def)
  have "\<forall>x \<in> set (lg_latest_rb log'). x \<in> set (lg_latest_rb log) \<or> x = e"
    using set_put_row_subset [of re_author e "lg_latest_rb log"] by (auto simp: log')
  then have "\<forall>x \<in> set (lg_latest_rb log'). x \<in> set (lg_latest_rb log) \<or>
      check_doc env (Readback (re_readback x)) (Some (lg_handoff log)) = Inr [] \<and> pr_id (rb_by (re_readback x)) = re_author x"
    using c(2,3) by (auto simp: e_def)
  then show ?thesis
    by (intro conversation [OF ok c(1)]) (simp_all add: kind log'(1-4))
qed

lemma arm_moves:
  assumes ok: "log_ok env log"
    and clean: "arm env (stamped env log ev) (locals_of env log ev target) tag = Inr (log', [])"
  shows "moves env log ev log'"
proof (cases "ev_kind ev")
  case Offered
  with clean have c: "lg_state log = None" "pr_id (ev_actor ev) = sender_id (lg_handoff log)"
    "log' = (stamped env log ev)\<lparr>lg_state := Some Is_offered\<rparr>"
    by (auto simp: arm_def dest!: offered_clean)
  have none: "lg_receiver log = None" using ok c(1) by (simp add: log_ok_def)
  have "log_ok env log'" by (rule state_arm_ok [OF ok]) (simp_all add: c none)
  then show ?thesis
    using lifecycle_move.offer [OF Offered c(2)] by (simp add: moves_def position_of_def c none)
next
  case (Declined reason)
  with clean have "declined env (stamped env log ev) (locals_of env log ev target) = Inr (log', [])" by (simp add: arm_def)
  note c = declined_clean [OF this]
  have "st_may_receive (locals_of env log ev target)" using c by blast
  from lifecycle_move.decline [OF Declined receives [OF ok this]] c show ?thesis
    by (intro offer_ends [OF ok, where st = Is_declined]) simp_all
next
  case (Withdrawn reason)
  with clean show ?thesis
    by (intro offer_ends [OF ok, where st = Is_withdrawn])
      (auto simp: arm_def dest!: withdrawn_clean intro: lifecycle_move.withdraw [OF Withdrawn])
next
  case (Superseded r)
  with clean show ?thesis
    by (intro offer_ends [OF ok, where st = Is_superseded])
      (auto simp: arm_def dest!: superseded_clean intro: lifecycle_move.supersede [OF Superseded])
next
  case Expired
  with clean show ?thesis
    by (intro offer_ends [OF ok, where st = Is_expired])
      (auto simp: arm_def dest!: expired_clean intro: lifecycle_move.expire [OF Expired])
next
  case (Answered r)
  with clean have c: "lg_state log = Some Is_offered \<or> lg_state log = Some Is_accepted" "log' = stamped env log ev"
    by (auto simp: arm_def dest!: answered_clean)
  show ?thesis by (rule conversation [OF ok c(1)]) (simp_all add: c(2) Answered)
next
  case (Readback_verified v)
  with clean have "readback_verified env (stamped env log ev) (locals_of env log ev target) v = Inr (log', [])"
    by (simp add: arm_def)
  from verified_clean [OF this] show ?thesis
    by (intro conversation [OF ok]) (auto simp: Readback_verified)
qed (use clean acceptance_moves [OF ok] report_moves [OF ok] completion_moves [OF ok] readback_moves [OF ok]
    in \<open>auto simp: arm_def\<close>)

lemma step_invariant:
  assumes ok: "log_ok env log" and clean: "step env log found target = Inr (log', [])"
  shows "log_ok env log' \<and> lg_handoff log' = lg_handoff log \<and>
    (\<exists>ev. found = Some (Event ev) \<and> admitted env log ev \<and>
      lifecycle_move (lg_handoff log) (position_of log) ev (position_of log'))"
  using clean arm_moves [OF ok] by (auto simp: step_clean moves_def)

section \<open>Whole logs\<close>

lemma path_snoc: "lifecycle_path h p evs q \<Longrightarrow> lifecycle_move h q ev r \<Longrightarrow> lifecycle_path h p (evs @ [ev]) r"
  by (induction rule: lifecycle_path.induct) (auto intro: lifecycle_path.intros)

text \<open>The envelope of every event: dense numbers, one hand-off, a digest chain, times in order.\<close>

definition chained :: "ahr_env \<Rightarrow> handoff \<Rightarrow> event list \<Rightarrow> bool" where
  "chained env h evs \<longleftrightarrow>
     (\<forall>i < length evs. ev_seq (evs ! i) = int i + 1 \<and> ev_handoff_id (evs ! i) = ho_id h \<and>
        ev_record_digest (evs ! i) = doc_digest env (Handoff h) \<and>
        (\<forall>d. ev_prev_digest (evs ! i) = Some d \<longrightarrow> 0 < i \<and> d = doc_digest env (Event (evs ! (i - 1))))) \<and>
     distinct (map ev_id evs) \<and> sorted (map (instant env \<circ> ev_at) evs) \<and>
     (\<forall>ev \<in> set evs. instant env (ho_created_at h) \<le> instant env (ev_at ev))"

definition tracks :: "ahr_env \<Rightarrow> handoff \<Rightarrow> event list \<Rightarrow> AhrLog \<Rightarrow> bool" where
  "tracks env h evs log \<longleftrightarrow>
     log_ok env log \<and> lg_handoff log = h \<and> chained env h evs \<and> lg_count log = length evs \<and>
     lg_prev_event log = (if evs = [] then None else Some (last evs)) \<and>
     lg_prev_at log = (if evs = [] then None else Some (instant env (ev_at (last evs)))) \<and>
     dom (lg_seen_ids log) = set (map ev_id evs) \<and> lifecycle_path h (None, None) evs (position_of log)"

lemma tracks_fresh: "valid_handoff env h \<Longrightarrow> tracks env h [] (fresh_log env h)"
  using fresh_log_ok by (simp add: tracks_def chained_def fresh_log_def position_of_def lifecycle_path.rest)

lemma arm_frame:
  assumes "arm env log s tag = Inr (log', [])"
  shows "lg_count log' = lg_count log \<and> lg_prev_event log' = lg_prev_event log \<and> lg_prev_at log' = lg_prev_at log \<and>
    lg_seen_ids log' = lg_seen_ids log"
proof (cases "ev_kind (st_ev s)")
  case (Read_back r)
  with assms obtain rb d where "store_readback env log s rb d = Inr (log', [])"
    by (auto simp: arm_def dest!: read_back_clean)
  from store_readback_clean [OF this] show ?thesis by simp
next
  case (Superseded r)
  with assms show ?thesis by (auto simp: arm_def dest!: superseded_clean)
qed (use assms in \<open>auto simp: arm_def dest!: offered_clean accepted_clean completed_clean withdrawn_clean expired_clean
    declined_clean reported_clean answered_clean verified_clean\<close>)

lemma chained_snoc:
  assumes "chained env h evs" and "ev_seq ev = int (length evs) + 1" "ev_handoff_id ev = ho_id h"
    and "ev_record_digest ev = doc_digest env (Handoff h)" "ev_id ev \<notin> set (map ev_id evs)"
    and "\<forall>d. ev_prev_digest ev = Some d \<longrightarrow> evs \<noteq> [] \<and> d = doc_digest env (Event (last evs))"
    and "\<forall>x \<in> set evs. instant env (ev_at x) \<le> instant env (ev_at ev)"
    and "instant env (ho_created_at h) \<le> instant env (ev_at ev)"
  shows "chained env h (evs @ [ev])"
  using assms by (auto simp: chained_def nth_append last_conv_nth sorted_append less_Suc_eq)

lemma tracks_step:
  assumes t: "tracks env h evs log" and clean: "step env log found target = Inr (log', [])"
  shows "\<exists>ev. found = Some (Event ev) \<and> tracks env h (evs @ [ev]) log'"
proof -
  have ok: "log_ok env log" "lg_handoff log = h" using t by (auto simp: tracks_def)
  from clean obtain ev where ev: "found = Some (Event ev)" "admitted env log ev"
    and arm: "arm env (stamped env log ev) (locals_of env log ev target) (document_tag (Event ev)) = Inr (log', [])"
    by (auto simp: step_clean)
  have moved: "lifecycle_move h (position_of log) ev (position_of log')" "log_ok env log'" "lg_handoff log' = h"
    using arm_moves [OF ok(1) arm] ok(2) by (auto simp: moves_def)
  have last_ok: "instant env (ev_at x) \<le> instant env (ev_at ev)" if mem: "x \<in> set evs" for x
  proof -
    have "evs \<noteq> []" using mem by auto
    with t ev(2) have "instant env (ev_at (last evs)) \<le> instant env (ev_at ev)"
      by (simp add: tracks_def admitted_def)
    moreover have "instant env (ev_at x) \<le> instant env (ev_at (last evs))"
    proof -
      obtain i where i: "i < length evs" "x = evs ! i" using mem by (auto simp: in_set_conv_nth)
      moreover have "sorted (map (instant env \<circ> ev_at) evs)" using t by (simp add: tracks_def chained_def)
      ultimately show ?thesis
        using \<open>evs \<noteq> []\<close> sorted_nth_mono [of "map (instant env \<circ> ev_at) evs" i "length evs - 1"]
        by (simp add: last_conv_nth)
    qed
    ultimately show ?thesis by simp
  qed
  have env_ok: "ev_seq ev = int (length evs) + 1" "ev_handoff_id ev = ho_id h" "lg_seen_ids log (ev_id ev) = None"
    "ev_record_digest ev = doc_digest env (Handoff h)" "instant env (ho_created_at h) \<le> instant env (ev_at ev)"
    using t ev(2) by (simp_all add: tracks_def admitted_def log_ok_def)
  have "\<forall>d. ev_prev_digest ev = Some d \<longrightarrow> evs \<noteq> [] \<and> d = doc_digest env (Event (last evs))"
  proof (cases "evs = []")
    case True
    with t ev(2) show ?thesis by (simp add: tracks_def admitted_def)
  next
    case False
    with t ev(2) show ?thesis by (simp add: tracks_def admitted_def)
  qed
  moreover have "ev_id ev \<notin> set (map ev_id evs)"
    using t env_ok(3) by (simp add: tracks_def domIff del: set_map) blast
  ultimately have "chained env h (evs @ [ev])"
    using t env_ok last_ok by (intro chained_snoc) (auto simp: tracks_def)
  moreover have "lifecycle_path h (None, None) (evs @ [ev]) (position_of log')"
    using t moved(1) by (auto simp: tracks_def intro: path_snoc)
  ultimately have "tracks env h (evs @ [ev]) log'"
    using t moved arm_frame [OF arm] by (auto simp: tracks_def)
  with ev(1) show ?thesis by blast
qed

lemma tracks_replay:
  "tracks env h evs log \<Longrightarrow> replay_events env log events = Inr (log', []) \<Longrightarrow>
   \<exists>more. map fst events = map (\<lambda>ev. Some (Event ev)) more \<and> tracks env h (evs @ more) log'"
proof (induction events arbitrary: evs log)
  case Nil
  then show ?case by auto
next
  case (Cons e events)
  obtain found target where e: "e = (found, target)" by (cases e)
  with Cons.prems(2) obtain log1 where "step env log found target = Inr (log1, [])"
    and rest: "replay_events env log1 events = Inr (log', [])"
    by auto
  with tracks_step [OF Cons.prems(1)] obtain ev where "found = Some (Event ev)" "tracks env h (evs @ [ev]) log1" by blast
  with Cons.IH [OF _ rest] obtain more where "map fst events = map (\<lambda>ev. Some (Event ev)) more"
    "tracks env h ((evs @ [ev]) @ more) log'" by blast
  with e \<open>found = Some (Event ev)\<close> show ?case by (intro exI [of _ "ev # more"]) simp
qed

lemma conforming_tracks:
  assumes "valid_handoff env h" "replay_events env (fresh_log env h) events = Inr (log, [])"
  shows "\<exists>evs. map fst events = map (\<lambda>ev. Some (Event ev)) evs \<and> tracks env h evs log"
  using tracks_replay [OF tracks_fresh [OF assms(1)] assms(2)] by simp

section \<open>What a path of the lifecycle contains\<close>

text \<open>A closed position has no way out.\<close>

lemma closed_position: "lifecycle_move h (Some st, a) ev q \<Longrightarrow> st \<notin> TERMINAL"
  by (auto elim: lifecycle_moveE simp: TERMINAL_def)

definition duties_done :: "handoff \<Rightarrow> event list \<Rightarrow> position \<Rightarrow> bool" where
  "duties_done h evs p \<longleftrightarrow>
     (fst p \<in> {Some Is_accepted, Some Is_reported, Some Is_completed} \<longrightarrow>
        (\<exists>a ev at. snd p = Some a \<and> may_receive h a \<and> completer_id h \<noteq> Some a \<and>
           ev \<in> set evs \<and> ev_kind ev = Accepted at \<and> pr_id (ev_actor ev) = a)) \<and>
     (fst p \<in> {Some Is_reported, Some Is_completed} \<longrightarrow>
        (\<exists>ev oc r. ev \<in> set evs \<and> ev_kind ev = Reported oc r \<and> snd p = Some (pr_id (ev_actor ev)))) \<and>
     (fst p = Some Is_completed \<longrightarrow>
        (\<exists>ev. ev \<in> set evs \<and> ev_kind ev = Completed \<and> completer_id h = Some (pr_id (ev_actor ev))))"

lemma duties_move:
  "lifecycle_move h p ev q \<Longrightarrow> duties_done h evs p \<Longrightarrow> duties_done h (evs @ [ev]) q"
  by (induction rule: lifecycle_move.induct) (auto simp: duties_done_def)

lemma duties_path:
  "lifecycle_path h p evs1 q \<Longrightarrow> duties_done h evs p \<Longrightarrow> duties_done h (evs @ evs1) q"
proof (induction arbitrary: evs rule: lifecycle_path.induct)
  case (rest p)
  then show ?case by simp
next
  case (move p ev q evs1 r)
  from duties_move [OF move.hyps(1) move.prems] move.IH [of "evs @ [ev]"] show ?case by simp
qed

section \<open>Properties\<close>

text \<open>C8: Refinement. A log that replays without a violation is a path of the abstract lifecycle: every event is
  a move its actor may make, from the position the event before it left.\<close>
theorem replay_refines_lifecycle:
  assumes "valid_handoff env h" and "replay_events env (fresh_log env h) events = Inr (log, [])"
  shows "\<exists>evs. map fst events = map (\<lambda>ev. Some (Event ev)) evs \<and> lifecycle_path h (None, None) evs (position_of log)"
  using conforming_tracks [OF assms] by (auto simp: tracks_def)

text \<open>The envelope. In a log that replays without a violation the events are numbered densely from 1, name this
  hand-off and its exact bytes, have distinct ids and non-decreasing times after its creation, and a
  previous-event digest that is given is the digest of the event before.\<close>
theorem conforming_log_chained:
  assumes "valid_handoff env h" and "replay_events env (fresh_log env h) events = Inr (log, [])"
  shows "\<exists>evs. map fst events = map (\<lambda>ev. Some (Event ev)) evs \<and> chained env h evs \<and> lg_count log = length evs"
  using conforming_tracks [OF assms] by (auto simp: tracks_def)

text \<open>C10: Separation of duties. In a log that replays without a violation and ends completed, a receiver the hand-off
  admits accepted and reported it, and the completion came from the designated completer, who is somebody else.\<close>
theorem completion_separates_duties:
  assumes "valid_handoff env h" and "replay_events env (fresh_log env h) events = Inr (log, [])"
    and "lg_state log = Some Is_completed"
  shows "\<exists>receiver completer accept report complete at oc r.
    {Some (Event accept), Some (Event report), Some (Event complete)} \<subseteq> set (map fst events) \<and>
    ev_kind accept = Accepted at \<and> pr_id (ev_actor accept) = receiver \<and>
    ev_kind report = Reported oc r \<and> pr_id (ev_actor report) = receiver \<and>
    ev_kind complete = Completed \<and> pr_id (ev_actor complete) = completer \<and>
    may_receive h receiver \<and> completer_id h = Some completer \<and> completer \<noteq> receiver"
proof -
  obtain evs where evs: "map fst events = map (\<lambda>ev. Some (Event ev)) evs" "tracks env h evs log"
    using conforming_tracks [OF assms(1,2)] by blast
  then have "lifecycle_path h (None, None) evs (position_of log)" by (simp add: tracks_def)
  from duties_path [OF this, of "[]"] have "duties_done h evs (position_of log)"
    by (simp add: duties_done_def)
  with assms(3) obtain a acc at rep oc r com where
    "may_receive h a" "completer_id h \<noteq> Some a" "acc \<in> set evs" "ev_kind acc = Accepted at" "pr_id (ev_actor acc) = a"
    "rep \<in> set evs" "ev_kind rep = Reported oc r" "pr_id (ev_actor rep) = a"
    "com \<in> set evs" "ev_kind com = Completed" "completer_id h = Some (pr_id (ev_actor com))"
    by (auto simp: duties_done_def position_of_def)
  then show ?thesis
    unfolding evs(1) by (intro exI [of _ a] exI [of _ "pr_id (ev_actor com)"] exI [of _ acc] exI [of _ rep] exI [of _ com]
      exI [of _ at] exI [of _ oc] exI [of _ r]) auto
qed

text \<open>A closed hand-off stays closed. On a declined, completed, withdrawn, superseded or expired log every further
  event is a violation, and neither the state nor the receiver changes.\<close>
theorem terminal_is_final:
  assumes "lg_state log \<in> Some ` TERMINAL" and "step env log found target = Inr (log', errs)"
  shows "errs \<noteq> [] \<and> position_of log' = position_of log"
proof (cases found)
  case None
  with assms show ?thesis by (auto simp: step_def Let_def position_of_def)
next
  case (Some d)
  with assms(2) obtain bad where bad: "check_doc env d None = Inr bad" by (auto simp: step_def Let_def)
  show ?thesis
  proof (cases "bad = []")
    case False
    with assms Some bad show ?thesis by (auto simp: step_def Let_def position_of_def)
  next
    case True
    with assms(2) Some bad obtain ev where "d = Event ev" by (cases d) (auto simp: step_def Let_def)
    with assms Some bad True show ?thesis
      by (auto simp: step_def Let_def admit_event_def position_of_def split: option.splits if_splits)
  qed
qed

text \<open>C9: The read-back gate. A hand-off that is standard or critical, or that demands a read-back whatever its tier, is
  accepted without a violation only when its receiver has a stored read-back that is valid for exactly these bytes,
  written by the receiver and not the sender, ready and without a contradicted claim, and not failed by its latest
  verdict; at the critical tier that verdict passes, by a judge or a human, and by a human when it is held with low
  confidence, when any verdict failed or when a claim could not be checked.\<close>
theorem acceptance_needs_readback:
  assumes "valid_handoff env h" and "replay_events env (fresh_log env h) events = Inr (log, [])"
    and "step env log (Some (Event ev)) target = Inr (log', [])" and "ev_kind ev = Accepted at"
    and "ho_tier h \<in> {Standard, Critical} \<or> (\<exists>policy. ho_readback h = Some policy \<and> rp_required policy)"
  shows "\<exists>e. find_row re_author (pr_id (ev_actor ev)) (lg_latest_rb log) = Some e \<and>
    check_readback env (re_readback e) h = [] \<and> rb_handoff_digest (re_readback e) = doc_digest env (Handoff h) \<and>
    pr_id (rb_by (re_readback e)) = pr_id (ev_actor ev) \<and> pr_id (ev_actor ev) \<noteq> sender_id h \<and>
    rb_disposition (re_readback e) = Ready \<and> (\<forall>r \<in> set (rb_reverified (re_readback e)). rv_result r \<noteq> Contradicted) \<and>
    (\<forall>v. lg_verdict log (re_digest e) = Some v \<longrightarrow> ve_outcome v \<noteq> Fail) \<and>
    (ho_tier h = Critical \<longrightarrow> (\<exists>v. lg_verdict log (re_digest e) = Some v \<and>
       ve_outcome v \<in> {Pass, Pass_with_flags} \<and> ve_method v \<in> {Judge, By_human} \<and>
       (ve_confidence v = Some Low \<or> lg_any_fail log \<or>
          (\<exists>r \<in> set (rb_reverified (re_readback e)). rv_result r = Not_checkable) \<longrightarrow> ve_method v = By_human)))"
proof -
  obtain evs where t: "tracks env h evs log" using conforming_tracks [OF assms(1,2)] by blast
  then have ok: "log_ok env log" "lg_handoff log = h" by (simp_all add: tracks_def)
  define s where "s = locals_of env log ev target"
  from assms(3,4) have "accepted env (stamped env log ev) s at = Inr (log', [])"
    by (simp add: step_clean arm_def s_def)
  note acc = accepted_clean [OF this]
  have may: "st_may_receive (locals_of env log ev target)" using acc unfolding s_def by blast
  have free: "acceptance_refusal (stamped env log ev) s (find_row re_author (pr_id (ev_actor ev)) (lg_latest_rb log)) = None"
    using acc by (simp add: s_def)
  have gate: "ho_tier h \<in> {Standard, Critical} \<or> readback_required h"
    using assms(5) by (auto simp: readback_required_def)
  with free ok(2) obtain e where e: "find_row re_author (pr_id (ev_actor ev)) (lg_latest_rb log) = Some e"
    by (auto simp: acceptance_refusal_def readback_gate_def s_def split: if_splits option.splits)
  have ready: "readback_gate (stamped env log ev) s (Some e) = None" "\<not> contradicted (re_readback e)"
    "\<forall>v. lg_verdict log (re_digest e) = Some v \<longrightarrow> ve_outcome v \<noteq> Fail"
    using free e by (auto simp: acceptance_refusal_def s_def split: if_splits option.splits)
  have judged: "rb_disposition (re_readback e) = Ready" "ho_tier h = Critical \<longrightarrow>
      admissible_verdict (lg_any_fail log \<or> not_checkable (re_readback e)) (lg_verdict log (re_digest e))"
    using ready(1) gate ok(2) by (auto simp: readback_gate_def s_def Let_def split: if_splits)
  have stored: "check_doc env (Readback (re_readback e)) (Some h) = Inr []" "pr_id (rb_by (re_readback e)) = pr_id (ev_actor ev)"
    using find_row_Some_D [OF e] ok by (auto simp: log_ok_def)
  note bound = valid_readback_rules(1) [OF stored(1)] valid_readback_binds [OF stored(1)]
  have "pr_id (ev_actor ev) \<noteq> sender_id h" using receives [OF ok(1) may] ok(2) by (simp add: may_receive_def)
  then show ?thesis
    using e stored bound(1,3) ok(2) ready(2,3) judged
    by (auto simp: admissible_verdict_def passing_def not_checkable_def contradicted_def list_ex_iff split: option.splits)
qed

section \<open>A concrete hand-off\<close>

text \<open>
  A standard hand-off from alice to bob, read back, accepted, reported and completed. Times are texts
  whose length is the instant; digests name their document.
\<close>

definition toy_env :: ahr_env where
  "toy_env =
     \<lparr>sha256_jcs = (\<lambda>d. case d of Handoff h \<Rightarrow> ho_id h | Readback r \<Rightarrow> rb_id r | Event e \<Rightarrow> ev_id e | Odd x \<Rightarrow> od_text x),
      jcs_size = (\<lambda>d. case d of Odd x \<Rightarrow> Inl (od_text x) | _ \<Rightarrow> Inr 100), instant = (\<lambda>t. int (length t)),
      iso = (\<lambda>n. replicate (nat n) CHR ''.''), norm = (\<lambda>t. t), visible = (\<lambda>t. t \<noteq> []),
      placeholder_findings = (\<lambda>d. []), schema_findings = (\<lambda>d held. []), token_errors = (\<lambda>d. []),
      time_errors = (\<lambda>d. []), uri_findings = (\<lambda>d. []), names_claim = (\<lambda>c t. True), looks_ahr = (\<lambda>b. False)\<rparr>"

definition alice :: principal where
  "alice = \<lparr>pr_id = ''alice'', pr_kind = Agent, pr_rest = []\<rparr>"

definition bob :: principal where
  "bob = \<lparr>pr_id = ''bob'', pr_kind = Agent, pr_rest = []\<rparr>"

definition toy_handoff :: handoff where
  "toy_handoff =
     \<lparr>ho_id = ''h1'', ho_subject = ''release'', ho_tier = Standard, ho_from = alice, ho_to = Named bob,
      ho_created_at = ''.'', ho_expires_at = Some ''.........'', ho_as_of = ''.'', ho_supersedes = [],
      ho_goal = ''ship the release'', ho_done_when = [''tagged''], ho_constraints = None,
      ho_claims = [\<lparr>cl_id = ''c1'', cl_text = ''tests pass'', cl_label = Observed, cl_basis = Some ''ran them'', cl_evidence = []\<rparr>],
      ho_not_done = None_known ''read the plan'', ho_risks = None_known ''read the diff'', ho_unknowns = None_known ''asked the lead'',
      ho_next_actions = [\<lparr>ac_id = ''a1'', ac_action = ''tag it'', ac_depends_on = [], ac_rollback = None\<rparr>],
      ho_next_read = [\<lparr>nr_uri = ''file:README.md'', nr_kind = None, nr_digest = None\<rparr>],
      ho_readback = Some \<lparr>rp_required = True, rp_reverify = [], rp_verifier = None\<rparr>,
      ho_integrity = Some \<lparr>in_digest = ''sha256:h1'', in_signature = None\<rparr>, ho_rest = []\<rparr>"

definition toy_readback :: readback where
  "toy_readback =
     \<lparr>rb_id = ''r1'', rb_handoff_id = ''h1'', rb_handoff_digest = ''sha256:h1'', rb_by = bob, rb_at = ''...'',
      rb_goal = ''get the release out'', rb_first_action = ''a1'', rb_first_restated = ''create the tag'', rb_top_risk = None,
      rb_risk_restated = ''none listed'', rb_done_when = None, rb_constraints = [],
      rb_reverified = [\<lparr>rv_claim = ''c1'', rv_result = Confirmed, rv_evidence = None\<rparr>], rb_discrepancies = [],
      rb_disposition = Ready, rb_pointer_checks = [\<lparr>pc_index = 0, pc_status = No_digest\<rparr>], rb_integrity = None, rb_rest = []\<rparr>"

definition toy_event :: "string \<Rightarrow> int \<Rightarrow> event_kind \<Rightarrow> principal \<Rightarrow> string \<Rightarrow> string option \<Rightarrow> event" where
  "toy_event i n kind actor at prev =
     \<lparr>ev_id = i, ev_handoff_id = ''h1'', ev_seq = n, ev_kind = kind, ev_actor = actor, ev_at = at,
      ev_record_digest = ''sha256:h1'', ev_prev_digest = prev, ev_ref = None, ev_rest = []\<rparr>"

definition toy_readback_ref :: ref where
  "toy_readback_ref = \<lparr>ref_uri = ''trw:r1'', ref_digest = Some ''sha256:r1'', ref_media_type = Some AHR_MEDIA\<rparr>"

definition toy_result_ref :: ref where
  "toy_result_ref = \<lparr>ref_uri = ''file:result.md'', ref_digest = Some ''sha256:f'', ref_media_type = None\<rparr>"

definition toy_offer :: event where
  "toy_offer = toy_event ''e1'' 1 Offered alice ''..'' None"

definition toy_reading :: event where
  "toy_reading = toy_event ''e2'' 2 (Read_back toy_readback_ref) bob ''....'' (Some ''sha256:e1'')"

definition toy_acceptance :: event where
  "toy_acceptance = toy_event ''e3'' 3 (Accepted ''.....'') bob ''.....'' (Some ''sha256:e2'')"

definition toy_report :: event where
  "toy_report = toy_event ''e4'' 4 (Reported Met toy_result_ref) bob ''......'' (Some ''sha256:e3'')"

definition toy_completion :: event where
  "toy_completion = toy_event ''e5'' 5 Completed alice ''.......'' (Some ''sha256:e4'')"

definition toy_opening :: "(document option \<times> target option) list" where
  "toy_opening =
     [(Some (Event toy_offer), None),
      (Some (Event toy_reading), Some (Record (Readback toy_readback), ''sha256:r1''))]"

definition toy_closing :: "(document option \<times> target option) list" where
  "toy_closing =
     [(Some (Event toy_acceptance), None), (Some (Event toy_report), Some (Raw [], ''sha256:f'')),
      (Some (Event toy_completion), None)]"

lemma toy_env_simps [simp]:
  "jcs_size toy_env (Handoff h) = Inr 100" "jcs_size toy_env (Readback r) = Inr 100" "jcs_size toy_env (Event e) = Inr 100"
  "jcs_size toy_env (Odd x) = Inl (od_text x)" "instant toy_env t = int (length t)" "norm toy_env t = t" "visible toy_env t = (t \<noteq> [])"
  "placeholder_findings toy_env d = []" "schema_findings toy_env d held = []" "token_errors toy_env d = []"
  "time_errors toy_env d = []" "uri_findings toy_env d = []" "looks_ahr toy_env b = False"
  by (simp_all add: toy_env_def)

lemmas toy_defs = alice_def bob_def toy_event_def toy_readback_ref_def toy_result_ref_def
  toy_offer_def toy_reading_def toy_acceptance_def toy_report_def toy_completion_def

lemma toy_digest [simp]: "doc_digest toy_env (Handoff toy_handoff) = ''sha256:h1''"
  "doc_digest toy_env (Event e) = ''sha256:'' @ ev_id e" "doc_digest toy_env (Readback toy_readback) = ''sha256:r1''"
  by (simp_all add: doc_digest_def toy_env_def toy_handoff_def toy_readback_def)

lemma toy_validate: "validate_with toy_env rules d = bindE rules (\<lambda>broken. Inr (
    flag (case integrity_of d of None \<Rightarrow> False | Some i \<Rightarrow> in_digest i \<noteq> doc_digest toy_env d) ''X-1''
      ''integrity.digest does not match the recomputed digest'' @
    flag (verifier_clash d) ''X-21'' ''principal id appears with two different kinds (actor vs verifier)'' @ broken))" if "\<forall>x. d \<noteq> Odd x"
proof -
  have "jcs_size toy_env d = Inr 100" using that by (cases d) simp_all
  then show ?thesis
    by (cases rules) (simp_all add: validate_with_def l1_findings_def Let_def MAX_CANONICAL_BYTES_def flag_def)
qed

lemma toy_rules: "check_handoff toy_env toy_handoff = []"
  by (simp add: check_handoff_def handoff_ids_def handoff_principals_def handoff_texts_def Let_def toy_handoff_def toy_defs
      claims_by_id_def put_row_def reverify_of_def verifier_of_def risk_ids_def flag_def placeholder_def PLACEHOLDERS_def
      option_list_def)

lemma toy_integrity: "ho_integrity toy_handoff = Some \<lparr>in_digest = ''sha256:h1'', in_signature = None\<rparr>"
  by (simp add: toy_handoff_def)

lemma toy_valid: "valid_handoff toy_env toy_handoff"
  by (simp add: valid_handoff_def check_doc_empty validate_def toy_validate toy_rules integrity_of_def verifier_clash_def
      toy_integrity)

lemma toy_event_valid: "check_doc toy_env (Event e) None = Inr []" if "\<forall>v. ev_kind e \<noteq> Readback_verified v"
  using that
  by (cases "ev_kind e") (simp_all add: check_doc_empty validate_def toy_validate integrity_of_def verifier_clash_def)

lemma toy_readback_fields [simp]:
  "rb_reverified toy_readback = [\<lparr>rv_claim = ''c1'', rv_result = Confirmed, rv_evidence = None\<rparr>]"
  "rb_discrepancies toy_readback = []" "rb_disposition toy_readback = Ready" "rb_constraints toy_readback = []"
  "rb_pointer_checks toy_readback = [\<lparr>pc_index = 0, pc_status = No_digest\<rparr>]" "rb_by toy_readback = bob"
  "rb_id toy_readback = ''r1''" "rb_at toy_readback = ''...''" "rb_integrity toy_readback = None"
  "rb_handoff_id toy_readback = ''h1''" "rb_handoff_digest toy_readback = ''sha256:h1''"
  by (simp_all add: toy_readback_def)

lemma toy_handoff_fields [simp]:
  "ho_id toy_handoff = ''h1''" "ho_tier toy_handoff = Standard" "ho_from toy_handoff = alice" "ho_to toy_handoff = Named bob"
  "ho_risks toy_handoff = None_known ''read the diff''" "ho_created_at toy_handoff = ''.''"
  "ho_expires_at toy_handoff = Some ''.........''" "ho_constraints toy_handoff = None" "ho_supersedes toy_handoff = []"
  "ho_next_read toy_handoff = [\<lparr>nr_uri = ''file:README.md'', nr_kind = None, nr_digest = None\<rparr>]"
  "map cl_id (ho_claims toy_handoff) = [''c1'']" "reverify_of toy_handoff = []" "verifier_of toy_handoff = None"
  "readback_required toy_handoff"
  by (simp_all add: toy_handoff_def reverify_of_def verifier_of_def readback_required_def)

lemma toy_principals [simp]: "pr_id alice = ''alice''" "pr_id bob = ''bob''" "pr_kind alice = Agent" "pr_kind bob = Agent"
  by (simp_all add: toy_defs)

lemma toy_restated: "readback_restatements toy_env toy_readback toy_handoff = []"
  by (simp add: readback_restatements_def flag_def option_list_def Let_def)
    (simp add: toy_handoff_def toy_readback_def)

lemma toy_readback_rules: "check_readback toy_env toy_readback toy_handoff = []"
  by (simp add: check_readback_def toy_restated readback_reverified_def readback_pointers_def readback_authorship_def
      pointer_findings_def results_by_claim_def put_row_def flag_def Let_def)

lemma toy_readback_valid: "check_doc toy_env (Readback toy_readback) (Some toy_handoff) = Inr []"
  by (simp add: check_doc_empty validate_def toy_validate handoff_for_readback_def toy_readback_rules toy_rules toy_integrity
      integrity_of_def verifier_clash_def flag_def)

definition toy_read_log :: AhrLog where
  "toy_read_log =
     \<lparr>lg_handoff = toy_handoff, lg_record_digest = ''sha256:h1'', lg_state = Some Is_offered, lg_receiver = None,
      lg_prev_at = Some 4, lg_prev_event = Some toy_reading,
      lg_latest_rb = [\<lparr>re_author = ''bob'', re_digest = ''sha256:r1'', re_readback = toy_readback, re_at = 4\<rparr>],
      lg_verdict = Map.empty, lg_verifiers = {}, lg_any_fail = False,
      lg_seen_ids = [''e1'' \<mapsto> ''alice'', ''e2'' \<mapsto> ''bob''], lg_rb_ids = [''r1'' \<mapsto> ''sha256:r1''], lg_seen_rb = {''sha256:r1''},
      lg_count = 2\<rparr>"

lemmas step_defs = step_def admit_event_def chain_errors_def order_errors_def ref_refusal_def overdue_def step_of_def arm_def
  ref_of_def kinds_of_def TERMINAL_def log_expires_at_def media_type_of_def ref_digest_of_def

lemma toy_event_fields [simp]:
  "ev_id (toy_event i n kind actor at prev) = i" "ev_handoff_id (toy_event i n kind actor at prev) = ''h1''"
  "ev_seq (toy_event i n kind actor at prev) = n" "ev_kind (toy_event i n kind actor at prev) = kind"
  "ev_actor (toy_event i n kind actor at prev) = actor" "ev_at (toy_event i n kind actor at prev) = at"
  "ev_record_digest (toy_event i n kind actor at prev) = ''sha256:h1''"
  "ev_prev_digest (toy_event i n kind actor at prev) = prev" "ev_ref (toy_event i n kind actor at prev) = None"
  by (simp_all add: toy_event_def)

lemma toy_offered: "step toy_env (fresh_log toy_env toy_handoff) (Some (Event toy_offer)) None =
   Inr ((stamped toy_env (fresh_log toy_env toy_handoff) toy_offer)\<lparr>lg_state := Some Is_offered\<rparr>, [])"
  by (subst step_clean)
    (simp add: admitted_def toy_event_valid toy_offer_def ref_refusal_def ref_of_def overdue_def kinds_of_def arm_def
      offered_def fresh_log_def log_expires_at_def sender_id_def)

lemma toy_read: "step toy_env ((stamped toy_env (fresh_log toy_env toy_handoff) toy_offer)\<lparr>lg_state := Some Is_offered\<rparr>)
    (Some (Event toy_reading)) (Some (Record (Readback toy_readback), ''sha256:r1'')) = Inr (toy_read_log, [])"
  by (subst step_clean)
    (simp add: admitted_def toy_event_valid toy_offer_def toy_reading_def ref_refusal_def ref_of_def overdue_def kinds_of_def
      arm_def read_back_def fresh_log_def stamped_def log_expires_at_def sender_id_def TERMINAL_def toy_readback_ref_def
      media_type_of_def ref_digest_of_def author_of_def readback_problems_def toy_readback_valid store_readback_def
      put_row_def toy_read_log_def Let_def)

lemma toy_opening_replay: "replay_events toy_env (fresh_log toy_env toy_handoff) toy_opening = Inr (toy_read_log, [])"
  by (simp add: toy_opening_def toy_offered toy_read)

lemmas toy_step_defs = admitted_def toy_event_valid ref_refusal_def ref_of_def overdue_def kinds_of_def arm_def stamped_def
  log_expires_at_def sender_id_def TERMINAL_def completer_id_def addressed_to_def

lemma toy_accepted: "step toy_env toy_read_log (Some (Event toy_acceptance)) None =
    Inr ((stamped toy_env toy_read_log toy_acceptance)\<lparr>lg_state := Some Is_accepted, lg_receiver := Some ''bob''\<rparr>, [])"
  by (subst step_clean)
    (simp add: toy_step_defs toy_acceptance_def toy_reading_def toy_read_log_def accepted_def acceptance_refusal_def
      readback_gate_def contradicted_def Let_def)

lemma toy_closing_replay: "\<exists>log. replay_events toy_env toy_read_log toy_closing = Inr (log, []) \<and> lg_state log = Some Is_completed"
proof -
  define log1 where "log1 = (stamped toy_env toy_read_log toy_acceptance)\<lparr>lg_state := Some Is_accepted, lg_receiver := Some ''bob''\<rparr>"
  define log2 where "log2 = (stamped toy_env log1 toy_report)\<lparr>lg_state := Some Is_reported\<rparr>"
  define log3 where "log3 = (stamped toy_env log2 toy_completion)\<lparr>lg_state := Some Is_completed\<rparr>"
  have "step toy_env log1 (Some (Event toy_report)) (Some (Raw [], ''sha256:f'')) = Inr (log2, [])"
    unfolding log2_def
    by (subst step_clean)
      (simp add: toy_step_defs toy_report_def toy_acceptance_def toy_reading_def log1_def toy_read_log_def reported_def
        contradicted_def onward_of_def onward_refusal_def toy_result_ref_def)
  moreover have "step toy_env log2 (Some (Event toy_completion)) None = Inr (log3, [])"
    unfolding log3_def
    by (subst step_clean)
      (simp add: toy_step_defs toy_report_def toy_acceptance_def toy_completion_def log2_def log1_def toy_read_log_def completed_def)
  ultimately show ?thesis
    by (simp add: toy_closing_def toy_accepted log1_def [symmetric]) (simp add: log3_def)
qed

lemma replay_append:
  "replay_events env log (xs @ ys) =
   bindE (replay_events env log xs) (\<lambda>(log1, errs). bindE (replay_events env log1 ys) (\<lambda>(log2, errs2). Inr (log2, errs @ errs2)))"
proof (induction xs arbitrary: log)
  case Nil
  then show ?case by (cases "replay_events env log ys") auto
next
  case (Cons e xs)
  then show ?case by (cases e) (auto simp: bindE_assoc split_def intro!: arg_cong2 [where f = bindE])
qed

lemma toy_completed: "\<exists>log. replay_events toy_env (fresh_log toy_env toy_handoff) (toy_opening @ toy_closing) = Inr (log, []) \<and>
    lg_state log = Some Is_completed"
  using toy_closing_replay by (auto simp: replay_append toy_opening_replay)

theorem replay_refines_lifecycle_witness:
  "\<exists>evs. map fst toy_opening = map (\<lambda>ev. Some (Event ev)) evs \<and>
     lifecycle_path toy_handoff (None, None) evs (Some Is_offered, None)"
  using replay_refines_lifecycle [OF toy_valid toy_opening_replay] by (simp add: position_of_def toy_read_log_def)

theorem conforming_log_chained_witness:
  "\<exists>evs. map fst toy_opening = map (\<lambda>ev. Some (Event ev)) evs \<and> chained toy_env toy_handoff evs \<and> length evs = 2"
  using conforming_log_chained [OF toy_valid toy_opening_replay] by (auto simp: toy_read_log_def)

theorem completion_separates_duties_witness:
  "\<exists>receiver completer accept at. Some (Event accept) \<in> set (map fst (toy_opening @ toy_closing)) \<and>
     ev_kind accept = Accepted at \<and> pr_id (ev_actor accept) = receiver \<and>
     completer_id toy_handoff = Some completer \<and> completer \<noteq> receiver"
proof -
  obtain log where "replay_events toy_env (fresh_log toy_env toy_handoff) (toy_opening @ toy_closing) = Inr (log, [])"
    "lg_state log = Some Is_completed"
    using toy_completed by blast
  from completion_separates_duties [OF toy_valid this] show ?thesis by auto
qed

theorem terminal_is_final_witness:
  "\<exists>log' errs. step toy_env (toy_read_log\<lparr>lg_state := Some Is_withdrawn\<rparr>) (Some (Event toy_acceptance)) None = Inr (log', errs) \<and>
     errs \<noteq> [] \<and> lg_state log' = Some Is_withdrawn"
proof -
  define log where "log = toy_read_log\<lparr>lg_state := Some Is_withdrawn\<rparr>"
  have closed: "lg_state log \<in> Some ` TERMINAL" by (simp add: log_def TERMINAL_def)
  have "\<exists>log' errs. step toy_env log (Some (Event toy_acceptance)) None = Inr (log', errs)"
    using closed by (simp add: step_def toy_event_valid toy_acceptance_def admit_event_def Let_def split: option.split)
  then obtain log' errs where result: "step toy_env log (Some (Event toy_acceptance)) None = Inr (log', errs)" by blast
  from terminal_is_final [OF closed result] result show ?thesis
    unfolding log_def by (auto simp: position_of_def)
qed

theorem acceptance_needs_readback_witness:
  "\<exists>e. find_row re_author ''bob'' (lg_latest_rb toy_read_log) = Some e \<and> rb_disposition (re_readback e) = Ready \<and>
     rb_handoff_digest (re_readback e) = doc_digest toy_env (Handoff toy_handoff)"
  using acceptance_needs_readback [OF toy_valid toy_opening_replay toy_accepted, of "''.....''"]
  by (auto simp: toy_acceptance_def)

end
