(* ===== verification/Ahr_Store.thy ===== *)
theory Ahr_Store
  imports Ahr_Replay Comms_Tables
begin

text \<open>
  The comms mailbox as the store of hand-off logs (\<^verbatim>\<open>src/trw_mcp/comms/_ahr_events.py\<close>): the table
  \<open>ahr_events\<close>, the one statement that appends to it (\<open>append_event\<close>), \<open>rebuild\<close>, which replays a stored log, and
  the actions of the two parties.

  \<^item> A row keeps the documents whose canonical bytes the source stores; reading a row back parses those bytes.
  \<^item> Every action runs inside one transaction; one that raises leaves the database as it was, so an
    action is a function to an error or the next database.
  \<^item> Files are inputs: \<open>wd_load\<close> and \<open>wd_hashed\<close> are what reading a local path gives, \<open>wd_uuid\<close> the ids
    \<^verbatim>\<open>uuid.uuid4\<close> draws, one per row. Times are in microseconds.
\<close>

section \<open>What an action reads from outside\<close>

record ahr_world =
  wd_load :: "string \<Rightarrow> ahr_error + document"
  wd_parse :: "string \<Rightarrow> ahr_error + document"
  wd_hashed :: "string \<Rightarrow> ahr_error + string \<times> string \<times> string"
  wd_uuid :: "nat \<Rightarrow> string"

definition STORE_PRINCIPAL :: principal where
  "STORE_PRINCIPAL = \<lparr>pr_id = ''trw-comms-store'', pr_kind = Service, pr_rest = []\<rparr>"

definition first_row :: "comms_db \<Rightarrow> string \<Rightarrow> ahr_row option" where
  "first_row db hid = find (\<lambda>r. ar_handoff_id r = hid \<and> ar_seq r = 1) (ahr_events db)"

definition handoff_of :: "comms_db \<Rightarrow> string \<Rightarrow> string option" where
  "handoff_of db message = map_option ar_handoff_id (find (\<lambda>r. ar_message r = message \<and> ar_seq r = 1) (ahr_events db))"

definition handoff_carrier :: "comms_db \<Rightarrow> string \<Rightarrow> ahr_error + string" where
  "handoff_carrier db hid =
     (case first_row db hid of None \<Rightarrow> Inl (MissingMember ''message_id'') | Some r \<Rightarrow> Inr (ar_message r))"

definition offered_record :: "comms_db \<Rightarrow> string \<Rightarrow> document option" where
  "offered_record db hid = Option.bind (first_row db hid) ar_record"

definition in_group :: "comms_db \<Rightarrow> string \<Rightarrow> string \<Rightarrow> bool" where
  "in_group db gid message \<longleftrightarrow> list_ex (\<lambda>a. ad_message a = message \<and> ad_group a = gid) (admissions db)"

definition local_handoff :: "comms_db \<Rightarrow> string \<Rightarrow> string \<Rightarrow> string option" where
  "local_handoff db gid hid =
     map_option ar_handoff_id
       (find (\<lambda>r. ar_handoff_id r = hid \<and> ar_seq r = 1 \<and> in_group db gid (ar_message r)) (ahr_events db))"

section \<open>Replaying a stored log\<close>

definition remove_prefix :: "string \<Rightarrow> string \<Rightarrow> string" where
  "remove_prefix p s = (if take (length p) s = p then drop (length p) s else s)"

definition stored_target :: "ahr_env \<Rightarrow> comms_db \<Rightarrow> event \<Rightarrow> document option \<Rightarrow> ahr_error + target option" where
  "stored_target env db ev stored =
     (case ref_of ev of
        None \<Rightarrow> Inr None
      | Some r \<Rightarrow>
          (case (event_kind_value (ev_kind ev) \<in> {''read_back'', ''reported''}, stored) of
             (True, Some d) \<Rightarrow> Inr (Some (Record d, doc_digest env d))
           | _ \<Rightarrow>
               if event_kind_value (ev_kind ev) = ''superseded''
               then Inr (map_option (\<lambda>d. (Record d, doc_digest env d)) (offered_record db (remove_prefix ''trw:ahr/'' (ref_uri r))))
               else (case ref_digest r of None \<Rightarrow> Inl (MissingMember ''digest'') | Some d \<Rightarrow> Inr (Some (Raw [], d)))))"

definition corrupt :: "'a \<Rightarrow> ahr_error + 'b" where
  "corrupt x = Inl (StoreError ''storage_corrupt'')"

definition replay_row :: "ahr_env \<Rightarrow> comms_db \<Rightarrow> ahr_row \<Rightarrow> AhrLog \<Rightarrow> ahr_error + AhrLog" where
  "replay_row env db r log =
     bindE (stored_target env db (ar_event_doc r) (ar_record r)) (\<lambda>target.
     bindE (step env log (Some (Event (ar_event_doc r))) target) (\<lambda>(log', errs).
       if errs = [] then Inr log' else corrupt ()))"

definition log_rows :: "comms_db \<Rightarrow> string \<Rightarrow> ahr_row list" where
  "log_rows db hid = sort_key ar_seq (filter (\<lambda>r. ar_handoff_id r = hid) (ahr_events db))"

definition rebuild :: "ahr_env \<Rightarrow> comms_db \<Rightarrow> string \<Rightarrow> ahr_error + AhrLog" where
  "rebuild env db hid =
     (case log_rows db hid of
        [] \<Rightarrow> corrupt ()
      | r # rs \<Rightarrow>
          (case ar_record r of
             None \<Rightarrow> corrupt ()
           | Some d \<Rightarrow> bindE (start env d) (\<lambda>(log, errs).
               case log of None \<Rightarrow> corrupt () | Some log \<Rightarrow> foldE (replay_row env db) (r # rs) log)))"

section \<open>Appending one event\<close>

definition starts_with :: "string \<Rightarrow> string \<Rightarrow> bool" where
  "starts_with p s \<longleftrightarrow> take (length p) s = p"

definition refusal :: "string list \<Rightarrow> string \<Rightarrow> ahr_error" where
  "refusal errs action =
     (let first = hd errs in
      if action = ''accepted'' \<and> (starts_with ''R-LC-11 '' first \<or> starts_with ''R-RB-4 '' first)
      then AdmissionError ''ahr_readback_required''
      else if contains '': readback '' first \<or> starts_with ''handoff: '' first then AdmissionError ''ahr_invalid''
      else AdmissionError ''ahr_lifecycle_refused'')"

definition insert_row :: "ahr_row \<Rightarrow> comms_db \<Rightarrow> ahr_error + comms_db" where
  "insert_row r db =
     (if list_ex (\<lambda>x. ar_handoff_id x = ar_handoff_id r \<and> (ar_seq x = ar_seq r \<or> ar_event_id x = ar_event_id r)) (ahr_events db)
      then Inl (ConstraintError ''ahr_events'') else Inr (db\<lparr>ahr_events := ahr_events db @ [r]\<rparr>))"

definition built_event :: "ahr_env \<Rightarrow> ahr_world \<Rightarrow> comms_db \<Rightarrow> AhrLog \<Rightarrow> event_kind \<Rightarrow> principal \<Rightarrow> int \<Rightarrow> event" where
  "built_event env w db log kind actor now =
     \<lparr>ev_id = wd_uuid w (length (ahr_events db)), ev_handoff_id = ho_id (lg_handoff log), ev_seq = int (lg_count log) + 1,
      ev_kind = (case kind of Accepted at \<Rightarrow> Accepted (iso env now) | k \<Rightarrow> k), ev_actor = actor, ev_at = iso env now,
      ev_record_digest = lg_record_digest log,
      ev_prev_digest = map_option (\<lambda>p. doc_digest env (Event p)) (lg_prev_event log), ev_ref = None, ev_rest = []\<rparr>"

definition event_row :: "ahr_env \<Rightarrow> AhrLog \<Rightarrow> string \<Rightarrow> event \<Rightarrow> document option \<Rightarrow> ahr_row" where
  "event_row env log message ev stored =
     \<lparr>ar_handoff_id = ev_handoff_id ev, ar_seq = ev_seq ev, ar_message = message, ar_event_id = ev_id ev,
      ar_event = event_kind_value (ev_kind ev), ar_actor = pr_id (ev_actor ev), ar_at = ev_at ev,
      ar_subject = ho_subject (lg_handoff log), ar_event_digest = doc_digest env (Event ev), ar_event_doc = ev,
      ar_record = stored\<rparr>"

definition append_event ::
    "ahr_env \<Rightarrow> ahr_world \<Rightarrow> comms_db \<Rightarrow> AhrLog \<Rightarrow> string \<Rightarrow> event_kind \<Rightarrow> principal \<Rightarrow> int \<Rightarrow>
     target option \<Rightarrow> document option \<Rightarrow> ahr_error + comms_db" where
  "append_event env w db log message kind actor now target stored =
     (let ev = built_event env w db log kind actor now in
      bindE (step env log (Some (Event ev)) target) (\<lambda>(log', errs).
        if errs \<noteq> [] then Inl (refusal errs (event_kind_value kind))
        else insert_row (event_row env log message ev stored) db))"

definition receiver_of :: "AhrLog \<Rightarrow> ahr_error + principal" where
  "receiver_of log =
     (case ho_to (lg_handoff log) of
        Named p \<Rightarrow> Inr \<lparr>pr_id = pr_id p, pr_kind = pr_kind p, pr_rest = []\<rparr>
      | Unaddressed scope c \<Rightarrow> Inl (MissingMember ''id''))"

definition sender_of :: "AhrLog \<Rightarrow> principal" where
  "sender_of log = ho_from (lg_handoff log)"

definition logged :: "ahr_env \<Rightarrow> comms_db \<Rightarrow> string \<Rightarrow> ahr_error + AhrLog" where
  "logged env db message =
     (case handoff_of db message of
        None \<Rightarrow> Inl (AdmissionError ''ahr_not_offered'') | Some hid \<Rightarrow> rebuild env db hid)"

section \<open>The actions\<close>

text \<open>\<^verbatim>\<open>_load_record\<close>: unreadable and malformed files are invalid records.\<close>

definition load_record :: "ahr_world \<Rightarrow> string \<Rightarrow> string \<Rightarrow> ahr_error + document" where
  "load_record w path kind =
     (case wd_load w path of
        Inl (AdmissionError reason) \<Rightarrow> Inl (AdmissionError reason)
      | Inl e \<Rightarrow> Inl (AdmissionError ''ahr_invalid'')
      | Inr d \<Rightarrow> if document_type d \<noteq> Some kind then Inl (AdmissionError ''ahr_invalid'') else Inr d)"

definition readback_id_of :: "document \<Rightarrow> string" where
  "readback_id_of d = (case d of Readback r \<Rightarrow> rb_id r | _ \<Rightarrow> ''unknown'')"

definition read_back_action ::
    "ahr_env \<Rightarrow> ahr_world \<Rightarrow> comms_db \<Rightarrow> string \<Rightarrow> string \<Rightarrow> int \<Rightarrow> ahr_error + comms_db" where
  "read_back_action env w db message path now =
     bindE (logged env db message) (\<lambda>log.
     bindE (load_record w path ''readback'') (\<lambda>d.
     bindE (digest_of env d) (\<lambda>found.
     bindE (receiver_of log) (\<lambda>actor.
       if map_option re_digest (find_row re_author (pr_id actor) (lg_latest_rb log)) = Some found then Inr db
       else append_event env w db log message
         (Read_back \<lparr>ref_uri = ''trw:ahr/'' @ ho_id (lg_handoff log) @ ''/readback/'' @ readback_id_of d,
            ref_digest = Some found, ref_media_type = Some AHR_MEDIA\<rparr>)
         actor now (Some (Record d, found)) (Some d)))))"

definition accept_action :: "ahr_env \<Rightarrow> ahr_world \<Rightarrow> comms_db \<Rightarrow> string \<Rightarrow> int \<Rightarrow> ahr_error + comms_db" where
  "accept_action env w db message now =
     bindE (logged env db message) (\<lambda>log.
     bindE (receiver_of log) (\<lambda>actor.
       if lg_state log \<in> {Some Is_accepted, Some Is_reported, Some Is_completed} \<and> lg_receiver log = Some (pr_id actor)
       then Inr db
       else append_event env w db log message (Accepted []) actor now None None))"

definition decline_action :: "ahr_env \<Rightarrow> ahr_world \<Rightarrow> comms_db \<Rightarrow> string \<Rightarrow> string \<Rightarrow> int \<Rightarrow> ahr_error + comms_db" where
  "decline_action env w db message reason now =
     bindE (logged env db message) (\<lambda>log.
       if lg_state log = Some Is_declined then Inr db
       else bindE (receiver_of log) (\<lambda>actor. append_event env w db log message (Declined reason) actor now None None))"

definition withdraw_action :: "ahr_env \<Rightarrow> ahr_world \<Rightarrow> comms_db \<Rightarrow> string \<Rightarrow> string \<Rightarrow> int \<Rightarrow> ahr_error + comms_db" where
  "withdraw_action env w db message reason now =
     bindE (logged env db message) (\<lambda>log.
       if lg_state log = Some Is_withdrawn then Inr db
       else append_event env w db log message (Withdrawn reason) (sender_of log) now None None)"

definition answer_action :: "ahr_env \<Rightarrow> ahr_world \<Rightarrow> comms_db \<Rightarrow> string \<Rightarrow> string \<Rightarrow> int \<Rightarrow> ahr_error + comms_db" where
  "answer_action env w db message path now =
     bindE (logged env db message) (\<lambda>log.
     bindE (wd_hashed w path) (\<lambda>(relative, sample, found).
       let r = \<lparr>ref_uri = ''file:'' @ relative, ref_digest = Some found, ref_media_type = None\<rparr> in
       if map_option ev_kind (lg_prev_event log) = Some (Answered r) then Inr db
       else append_event env w db log message (Answered r) (sender_of log) now (Some (Raw sample, found)) None))"

definition complete_action :: "ahr_env \<Rightarrow> ahr_world \<Rightarrow> comms_db \<Rightarrow> string \<Rightarrow> int \<Rightarrow> ahr_error + comms_db" where
  "complete_action env w db message now =
     bindE (logged env db message) (\<lambda>log.
       if lg_state log = Some Is_completed then Inr db
       else append_event env w db log message Completed (sender_of log) now None None)"

text \<open>\<^verbatim>\<open>_BOUND\<close>: \<^verbatim>\<open><path>#sha256:<64 hex digits>\<close>, a final newline allowed, the path on one line.\<close>

definition parse_bound :: "string \<Rightarrow> (string \<times> string) option" where
  "parse_bound s =
     (let t = (if s \<noteq> [] \<and> last s = CHR 0x0A then butlast s else s);
          path = take (length t - 72) t; mark = drop (length t - 72) t
      in if length t > 72 \<and> CHR 0x0A \<notin> set path \<and> starts_with ''#sha256:'' mark \<and>
            list_all (\<lambda>c. c \<in> set hex_digits) (drop 8 mark)
         then Some (path, tl mark) else None)"

definition has_ahr :: "document \<Rightarrow> bool" where
  "has_ahr d = (case d of Odd x \<Rightarrow> od_ahr x | _ \<Rightarrow> True)"

definition onward_document :: "ahr_world \<Rightarrow> string \<Rightarrow> document option" where
  "onward_document w sample =
     (if sample = [] then None
      else (case wd_parse w sample of
          Inl e \<Rightarrow> None
        | Inr d \<Rightarrow> if has_ahr d \<and> document_type d = Some ''handoff'' then Some d else None))"

definition onward_id :: "document \<Rightarrow> string" where
  "onward_id d = (case d of Handoff h \<Rightarrow> ho_id h | Odd x \<Rightarrow> od_handoff_id x | _ \<Rightarrow> ''None'')"

definition onward_critical :: "document \<Rightarrow> bool" where
  "onward_critical d = (case d of Handoff h \<Rightarrow> ho_tier h = Critical | Odd x \<Rightarrow> od_tier x = Some ''critical'' | _ \<Rightarrow> False)"

definition offered_here :: "ahr_env \<Rightarrow> comms_db \<Rightarrow> string \<Rightarrow> document \<Rightarrow> bool" where
  "offered_here env db gid d =
     (case Option.bind (local_handoff db gid (onward_id d)) (offered_record db) of
        None \<Rightarrow> False | Some stored \<Rightarrow> doc_digest env stored = doc_digest env d)"

definition report_action ::
    "ahr_env \<Rightarrow> ahr_world \<Rightarrow> comms_db \<Rightarrow> string \<Rightarrow> string \<Rightarrow> string \<Rightarrow> report_outcome \<Rightarrow> int \<Rightarrow> ahr_error + comms_db" where
  "report_action env w db gid message next_read oc now =
     bindE (logged env db message) (\<lambda>log.
       if lg_state log \<in> {Some Is_reported, Some Is_completed} then Inr db
       else (case parse_bound next_read of
           None \<Rightarrow> Inl (AdmissionError ''ahr_ref_unverified'')
         | Some (path, pinned) \<Rightarrow>
             bindE (wd_hashed w path) (\<lambda>(relative, sample, found).
               case onward_document w sample of
                 None \<Rightarrow>
                   if found \<noteq> pinned then Inl (AdmissionError ''ahr_ref_unverified'')
                   else bindE (receiver_of log) (\<lambda>actor. append_event env w db log message
                     (Reported oc \<lparr>ref_uri = ''file:'' @ relative, ref_digest = Some found, ref_media_type = None\<rparr>)
                     actor now (Some (Raw sample, found)) None)
               | Some d \<Rightarrow>
                   (case digest_of env d of
                      Inl e \<Rightarrow> Inl (AdmissionError ''ahr_invalid'')
                    | Inr record_digest \<Rightarrow>
                        if pinned \<notin> {found, record_digest} then Inl (AdmissionError ''ahr_ref_unverified'')
                        else if \<not> onward_critical d \<and> \<not> offered_here env db gid d
                        then Inl (AdmissionError ''ahr_onward_not_offered'')
                        else bindE (receiver_of log) (\<lambda>actor. append_event env w db log message
                          (Reported oc \<lparr>ref_uri = ''file:'' @ relative, ref_digest = Some record_digest,
                             ref_media_type = Some AHR_MEDIA\<rparr>)
                          actor now (Some (Record d, record_digest)) (Some d))))))"

section \<open>Offering\<close>

text \<open>\<^verbatim>\<open>read_offer\<close>: what the sender may put on the wire here.\<close>

definition sealed_record :: "ahr_env \<Rightarrow> document \<Rightarrow> ahr_error + document" where
  "sealed_record env d =
     (if integrity_of d \<noteq> None then Inr d
      else bindE (digest_of env d) (\<lambda>found.
        Inr (case d of Handoff h \<Rightarrow> Handoff (seal_handoff env h) | _ \<Rightarrow> d)))"

definition read_offer :: "ahr_env \<Rightarrow> ahr_world \<Rightarrow> string \<Rightarrow> string \<Rightarrow> string \<Rightarrow> ahr_error + handoff" where
  "read_offer env w path sender recipient =
     bindE (load_record w path ''handoff'') (\<lambda>d.
     bindE (sealed_record env d) (\<lambda>sealed.
     bindE (start env sealed) (\<lambda>(log, errs).
       case (log, sealed) of
         (Some log, Handoff h) \<Rightarrow>
           if \<not> addressed_to (ho_to h) then Inl (AdmissionError ''ahr_unaddressed_not_supported'')
           else if ho_tier h = Critical then Inl (AdmissionError ''ahr_tier_not_supported'')
           else if pr_id (ho_from h) \<noteq> sender \<or> recipient_id (ho_to h) \<noteq> Some recipient
           then Inl (AdmissionError ''ahr_party_mismatch'')
           else Inr h
       | _ \<Rightarrow> Inl (AdmissionError ''ahr_invalid''))))"

definition supersede ::
    "ahr_env \<Rightarrow> ahr_world \<Rightarrow> comms_db \<Rightarrow> AhrLog \<Rightarrow> handoff \<Rightarrow> string \<Rightarrow> int \<Rightarrow> ahr_error + comms_db" where
  "supersede env w db log h listed_digest now =
     (if lg_state log = Some Is_offered
      then bindE (handoff_carrier db (ho_id (lg_handoff log))) (\<lambda>message.
        append_event env w db log message
          (Superseded \<lparr>ref_uri = ''trw:ahr/'' @ ho_id h, ref_digest = Some (doc_digest env (Handoff h)),
             ref_media_type = Some AHR_MEDIA\<rparr>)
          (sender_of log) now (Some (Record (Handoff h), doc_digest env (Handoff h))) None)
      else
        (let owners = (if lg_state log \<in> {Some Is_accepted, Some Is_reported} then [lg_receiver log]
                       else [Some (log_sender log), lg_receiver log])
         in if Some (pr_id (ho_from h)) \<notin> set owners \<or> ho_subject h \<noteq> ho_subject (lg_handoff log) \<or>
               TIER_RANK (ho_tier h) < TIER_RANK (ho_tier (lg_handoff log)) \<or> listed_digest \<noteq> lg_record_digest log
            then Inl (AdmissionError ''ahr_lifecycle_refused'') else Inr db))"

definition supersede_listed ::
    "ahr_env \<Rightarrow> ahr_world \<Rightarrow> string \<Rightarrow> handoff \<Rightarrow> int \<Rightarrow> listing \<Rightarrow> comms_db \<Rightarrow> ahr_error + comms_db" where
  "supersede_listed env w gid h now entry db =
     (case local_handoff db gid (ls_handoff_id entry) of
        None \<Rightarrow> Inr db
      | Some predecessor \<Rightarrow> bindE (rebuild env db predecessor) (\<lambda>log. supersede env w db log h (ls_digest entry) now))"

definition expiry_exceeds_ttl :: "ahr_env \<Rightarrow> comms_db \<Rightarrow> string \<Rightarrow> handoff \<Rightarrow> bool" where
  "expiry_exceeds_ttl env db message h \<longleftrightarrow>
     (case (ho_expires_at h, find (\<lambda>a. ad_message a = message) (admissions db)) of
        (Some e, Some a) \<Rightarrow> ad_expires_at a < instant env e
      | _ \<Rightarrow> False)"

definition offer ::
    "ahr_env \<Rightarrow> ahr_world \<Rightarrow> comms_db \<Rightarrow> string \<Rightarrow> string \<Rightarrow> handoff \<Rightarrow> int \<Rightarrow> ahr_error + comms_db" where
  "offer env w db gid message h now =
     (if expiry_exceeds_ttl env db message h then Inl (AdmissionError ''ahr_expiry_exceeds_ttl'')
      else (case first_row db (ho_id h) of
          Some r \<Rightarrow>
            if ar_message r = message \<and> ev_record_digest (ar_event_doc r) = doc_digest env (Handoff h) then Inr db
            else Inl (AdmissionError ''ahr_event_conflict'')
        | None \<Rightarrow>
            bindE (foldE (supersede_listed env w gid h now) (ho_supersedes h) db) (\<lambda>db1.
            bindE (start env (Handoff h)) (\<lambda>(log, errs).
              case log of
                None \<Rightarrow> Inl (MissingMember ''handoff'')
              | Some fresh \<Rightarrow> append_event env w db1 fresh message Offered (sender_of fresh) now None (Some (Handoff h))))))"

section \<open>Expiry\<close>

definition expiry_of :: "document option \<Rightarrow> string option" where
  "expiry_of d = (case d of Some (Handoff h) \<Rightarrow> ho_expires_at h | _ \<Rightarrow> None)"

definition ended_events :: "string list" where
  "ended_events = [''accepted'', ''declined'', ''withdrawn'', ''superseded'', ''expired'']"

text \<open>The rows \<^verbatim>\<open>sweep_expired\<close> selects: offered here, with an expiry, and not yet decided.\<close>

definition open_offers :: "comms_db \<Rightarrow> string \<Rightarrow> ahr_row list" where
  "open_offers db gid =
     filter (\<lambda>r. in_group db gid (ar_message r) \<and> ar_seq r = 1 \<and> expiry_of (ar_record r) \<noteq> None \<and>
       \<not> list_ex (\<lambda>t. ar_handoff_id t = ar_handoff_id r \<and> ar_event t \<in> set ended_events) (ahr_events db)) (ahr_events db)"

definition expire_offer :: "ahr_env \<Rightarrow> ahr_world \<Rightarrow> int \<Rightarrow> ahr_row \<Rightarrow> comms_db \<Rightarrow> ahr_error + comms_db" where
  "expire_offer env w now r db =
     (if (case expiry_of (ar_record r) of None \<Rightarrow> True | Some e \<Rightarrow> now < instant env e) then Inr db
      else bindE (rebuild env db (ar_handoff_id r)) (\<lambda>log.
        if lg_state log = Some Is_offered \<and> (case log_expires_at env log of None \<Rightarrow> False | Some e \<Rightarrow> e \<le> now)
        then append_event env w db log (ar_message r) Expired STORE_PRINCIPAL now None None
        else Inr db))"

definition sweep_expired :: "ahr_env \<Rightarrow> ahr_world \<Rightarrow> comms_db \<Rightarrow> string \<Rightarrow> int \<Rightarrow> ahr_error + comms_db" where
  "sweep_expired env w db gid now = foldE (expire_offer env w now) (open_offers db gid) db"

section \<open>The read side (\<^verbatim>\<open>_ahr_view.py\<close>)\<close>

definition ENDED :: "lifecycle set" where
  "ENDED = {Is_declined, Is_withdrawn, Is_expired, Is_superseded}"

definition MAX_SUBJECT_RECORDS :: nat where
  "MAX_SUBJECT_RECORDS = 64"

text \<open>R-LC-14: who has to act next.\<close>

definition owner :: "AhrLog \<Rightarrow> string option" where
  "owner log =
     (if lg_state log = Some Is_offered then Some (log_sender log)
      else if lg_state log = Some Is_accepted then lg_receiver log
      else if lg_state log = Some Is_reported then log_completer log else None)"

fun rebuild_all :: "ahr_env \<Rightarrow> comms_db \<Rightarrow> string list \<Rightarrow> ahr_error + (string \<times> AhrLog) list" where
  "rebuild_all env db [] = Inr []"
| "rebuild_all env db (hid # hids) =
     bindE (rebuild env db hid) (\<lambda>log. bindE (rebuild_all env db hids) (\<lambda>logs. Inr ((hid, log) # logs)))"

definition subject_ids :: "comms_db \<Rightarrow> string \<Rightarrow> string \<Rightarrow> string list" where
  "subject_ids db subject gid =
     remdups (map ar_handoff_id (filter (\<lambda>r. ar_subject r = subject \<and> in_group db gid (ar_message r)) (ahr_events db)))"

definition listed_ids :: "(string \<times> AhrLog) list \<Rightarrow> string list" where
  "listed_ids logs =
     concat (map (\<lambda>(hid, log). map ls_handoff_id (ho_supersedes (lg_handoff log)))
       (filter (\<lambda>(hid, log). lg_state log \<notin> {Some Is_declined, Some Is_withdrawn, Some Is_expired}) logs))"

definition current_set :: "ahr_env \<Rightarrow> comms_db \<Rightarrow> string \<Rightarrow> string \<Rightarrow> ahr_error + string list option" where
  "current_set env db subject gid =
     (let ids = subject_ids db subject gid in
      if MAX_SUBJECT_RECORDS < length ids then Inr None
      else bindE (rebuild_all env db ids) (\<lambda>logs. Inr (Some (map fst
        (filter (\<lambda>(hid, log). lg_state log \<notin> Some ` ENDED \<and> hid \<notin> set (listed_ids logs)) logs)))))"

record ahr_block =
  ab_handoff_id :: string
  ab_tier :: tier
  ab_state :: "lifecycle option"
  ab_owner :: "string option"
  ab_readback :: "disposition option"
  ab_fork :: bool
  ab_fork_unknown :: bool

definition view :: "ahr_env \<Rightarrow> comms_db \<Rightarrow> string \<Rightarrow> string \<Rightarrow> ahr_error + ahr_block option" where
  "view env db message gid =
     (case handoff_of db message of
        None \<Rightarrow> Inr None
      | Some hid \<Rightarrow> bindE (rebuild env db hid) (\<lambda>log.
          let mine = (case recipient_id (ho_to (lg_handoff log)) of
                None \<Rightarrow> find_row re_author ''None'' (lg_latest_rb log) | Some i \<Rightarrow> find_row re_author i (lg_latest_rb log));
              block = \<lparr>ab_handoff_id = hid, ab_tier = ho_tier (lg_handoff log), ab_state = lg_state log, ab_owner = owner log,
                ab_readback = map_option (\<lambda>e. rb_disposition (re_readback e)) mine, ab_fork = False, ab_fork_unknown = False\<rparr>
          in if lg_state log \<in> Some ` ENDED then Inr (Some block)
             else bindE (current_set env db (ho_subject (lg_handoff log)) gid) (\<lambda>current.
               Inr (Some (case current of
                   None \<Rightarrow> block\<lparr>ab_fork_unknown := True\<rparr>
                 | Some ids \<Rightarrow> block\<lparr>ab_fork := hid \<in> set ids \<and> 1 < length ids\<rparr>)))))"

end
