(* ===== verification/Ahr_Store_Laws.thy ===== *)
theory Ahr_Store_Laws
  imports Ahr_Store
begin

text \<open>
  The store and the replay agree: a stored log rebuilds to exactly the log the replay reached when its
  last event was appended, so a decision taken on the rebuilt log is the decision the replay takes. The
  table only grows, one row per event, whoever acts.
\<close>

section \<open>Rows of one hand-off\<close>

definition store_ok :: "comms_db \<Rightarrow> bool" where
  "store_ok db \<longleftrightarrow>
     (\<forall>r \<in> set (ahr_events db). ar_seq r = ev_seq (ar_event_doc r) \<and> ar_handoff_id r = ev_handoff_id (ar_event_doc r) \<and>
        ar_event_id r = ev_id (ar_event_doc r) \<and> ar_event r = event_kind_value (ev_kind (ar_event_doc r)))"

definition grown :: "comms_db \<Rightarrow> ahr_row \<Rightarrow> comms_db" where
  "grown db r = db\<lparr>ahr_events := ahr_events db @ [r]\<rparr>"

lemma grown_simps [simp]: "ahr_events (grown db r) = ahr_events db @ [r]" "admissions (grown db r) = admissions db"
  "groups (grown db r) = groups db" "endpoints (grown db r) = endpoints db" "milestones (grown db r) = milestones db"
  "refusal_counts (grown db r) = refusal_counts db" "handoff_reports (grown db r) = handoff_reports db"
  by (simp_all add: grown_def)

lemma insort_snoc: "f a \<le> f y \<Longrightarrow> insort_key f a (zs @ [y]) = insort_key f a zs @ [y]"
  by (induction zs) auto

lemma sort_key_snoc: "(\<forall>x \<in> set xs. f x \<le> f y) \<Longrightarrow> sort_key f (xs @ [y]) = sort_key f xs @ [y]"
  by (induction xs) (auto simp: insort_snoc)

lemma foldE_single: "foldE f [x] s = f x s"
  by (cases "f x s") simp_all

lemma foldE_mono:
  "(\<And>x s s'. f x s = Inr s' \<Longrightarrow> g x s = Inr s') \<Longrightarrow> foldE f xs s = Inr t \<Longrightarrow> foldE g xs s = Inr t"
  by (induction xs arbitrary: s) fastforce+

lemma set_log_rows: "set (log_rows db hid) = {r \<in> set (ahr_events db). ar_handoff_id r = hid}"
  by (simp add: log_rows_def)

lemma log_rows_other: "ar_handoff_id r \<noteq> hid \<Longrightarrow> log_rows (grown db r) hid = log_rows db hid"
  by (simp add: log_rows_def)

lemma log_rows_grown:
  "ar_handoff_id r = hid \<Longrightarrow> \<forall>x \<in> set (log_rows db hid). ar_seq x \<le> ar_seq r \<Longrightarrow>
   log_rows (grown db r) hid = log_rows db hid @ [r]"
  by (simp add: set_log_rows) (simp add: log_rows_def sort_key_snoc)

section \<open>Rebuilding\<close>

lemma replay_row_clean:
  "replay_row env db r log = Inr log' \<longleftrightarrow>
   (\<exists>target. stored_target env db (ar_event_doc r) (ar_record r) = Inr target \<and>
      step env log (Some (Event (ar_event_doc r))) target = Inr (log', []))"
  by (auto simp: replay_row_def corrupt_def split: if_splits)

lemma replay_rows_track:
  "foldE (replay_row env db) rs log = Inr log' \<Longrightarrow> tracks env h evs log \<Longrightarrow>
   tracks env h (evs @ map ar_event_doc rs) log'"
proof (induction rs arbitrary: evs log)
  case Nil
  then show ?case by simp
next
  case (Cons r rs)
  then obtain log1 where r: "replay_row env db r log = Inr log1" and rs: "foldE (replay_row env db) rs log1 = Inr log'"
    by auto
  from r obtain target where "step env log (Some (Event (ar_event_doc r))) target = Inr (log1, [])"
    by (auto simp: replay_row_clean)
  from tracks_step [OF Cons.prems(2) this] have "tracks env h (evs @ [ar_event_doc r]) log1" by auto
  from Cons.IH [OF rs this] show ?case by simp
qed

lemma start_ok:
  "start env d = Inr (Some log, errs) \<longleftrightarrow> (\<exists>h. d = Handoff h \<and> valid_handoff env h \<and> log = fresh_log env h \<and> errs = [])"
  by (auto simp: start_def valid_handoff_def split: document.splits if_splits)

lemma rebuild_tracks:
  assumes "rebuild env db hid = Inr log"
  shows "\<exists>h r rs. log_rows db hid = r # rs \<and> ar_record r = Some (Handoff h) \<and> valid_handoff env h \<and>
    foldE (replay_row env db) (r # rs) (fresh_log env h) = Inr log \<and> tracks env h (map ar_event_doc (r # rs)) log"
proof -
  from assms obtain r rs where rows: "log_rows db hid = r # rs"
    by (cases "log_rows db hid") (auto simp: rebuild_def corrupt_def)
  with assms obtain d where d: "ar_record r = Some d" by (auto simp: rebuild_def corrupt_def split: option.splits)
  with assms rows obtain fresh errs where "start env d = Inr (Some fresh, errs)"
    and fold: "foldE (replay_row env db) (r # rs) fresh = Inr log"
    by (auto simp: rebuild_def corrupt_def split: option.splits)
  then obtain h where h: "d = Handoff h" "valid_handoff env h" "fresh = fresh_log env h" by (auto simp: start_ok)
  from replay_rows_track [OF fold] tracks_fresh [OF h(2)] h(3) have "tracks env h (map ar_event_doc (r # rs)) log"
    by fastforce
  with rows d h fold show ?thesis by blast
qed

lemma rebuild_rows:
  "log_rows db hid = r # rs \<Longrightarrow> ar_record r = Some (Handoff h) \<Longrightarrow> valid_handoff env h \<Longrightarrow>
   rebuild env db hid = foldE (replay_row env db) (r # rs) (fresh_log env h)"
  by (simp add: rebuild_def start_def valid_handoff_def)

text \<open>A later row changes no ref that already resolved.\<close>

lemma find_append_Some: "find P xs = Some x \<Longrightarrow> find P (xs @ ys) = Some x"
  by (induction xs) auto

lemma first_row_grown: "first_row db hid = Some x \<Longrightarrow> first_row (grown db r) hid = Some x"
  by (simp add: first_row_def find_append_Some)

lemma offered_record_grown: "offered_record db hid = Some d \<Longrightarrow> offered_record (grown db r) hid = Some d"
  by (cases "first_row db hid") (auto simp: offered_record_def first_row_grown)

lemma stored_target_grown:
  assumes "stored_target env db ev stored = Inr target" and "step env log (Some (Event ev)) target = Inr (log', [])"
  shows "stored_target env (grown db r) ev stored = Inr target"
proof (cases "ref_of ev")
  case None
  with assms(1) show ?thesis by (simp add: stored_target_def)
next
  case (Some rf)
  with assms(2) have "target \<noteq> None" by (cases target) (auto simp: step_clean ref_refusal_def)
  with assms(1) Some show ?thesis
    by (cases stored) (auto simp: stored_target_def offered_record_grown split: if_splits)
qed

lemma replay_row_grown: "replay_row env db x log = Inr log' \<Longrightarrow> replay_row env (grown db r) x log = Inr log'"
  using stored_target_grown by (auto simp: replay_row_clean)

lemma rebuild_other:
  assumes "rebuild env db hid = Inr log" and "ar_handoff_id r \<noteq> hid"
  shows "rebuild env (grown db r) hid = Inr log"
proof -
  from rebuild_tracks [OF assms(1)] obtain h x xs where rows: "log_rows db hid = x # xs" "ar_record x = Some (Handoff h)"
    "valid_handoff env h" and fold: "foldE (replay_row env db) (x # xs) (fresh_log env h) = Inr log"
    by blast
  have "foldE (replay_row env (grown db r)) (x # xs) (fresh_log env h) = Inr log"
    by (rule foldE_mono [OF _ fold]) (rule replay_row_grown)
  with rows assms(2) show ?thesis by (simp add: rebuild_rows log_rows_other)
qed

lemma rebuild_numbers:
  assumes "store_ok db" "rebuild env db hid = Inr log"
  shows "ho_id (lg_handoff log) = hid" and "\<forall>x \<in> set (log_rows db hid). ar_seq x \<le> int (lg_count log)"
    and "lg_record_digest log = doc_digest env (Handoff (lg_handoff log))" and "log_ok env log"
proof -
  from rebuild_tracks [OF assms(2)] obtain h x xs where rows: "log_rows db hid = x # xs"
    and t: "tracks env h (map ar_event_doc (x # xs)) log" by blast
  have h: "lg_handoff log = h" using t by (simp add: tracks_def)
  show "log_ok env log" using t by (simp add: tracks_def)
  then show "lg_record_digest log = doc_digest env (Handoff (lg_handoff log))" by (simp add: log_ok_def)
  have mem: "y \<in> set (ahr_events db) \<and> ar_handoff_id y = hid" if "y \<in> set (x # xs)" for y
    using that rows set_log_rows [of db hid] by auto
  have doc: "ev_seq (ar_event_doc y) \<le> int (lg_count log) \<and> ev_handoff_id (ar_event_doc y) = ho_id h" if y: "y \<in> set (x # xs)" for y
  proof -
    obtain i where i: "i < length (x # xs)" "(x # xs) ! i = y" using y by (metis in_set_conv_nth)
    define evs where "evs = map ar_event_doc (x # xs)"
    have "evs ! i = ar_event_doc y" "i < length evs" using i by (metis evs_def nth_map, simp add: evs_def)
    moreover have "ev_seq (evs ! i) = int i + 1 \<and> ev_handoff_id (evs ! i) = ho_id h"
      using t \<open>i < length evs\<close> unfolding tracks_def chained_def evs_def [symmetric] by blast
    moreover have "lg_count log = length evs" using t unfolding tracks_def evs_def [symmetric] by blast
    ultimately show ?thesis by simp
  qed
  have keys: "ar_seq y = ev_seq (ar_event_doc y) \<and> ar_handoff_id y = ev_handoff_id (ar_event_doc y)" if "y \<in> set (x # xs)" for y
    using mem [OF that] assms(1) unfolding store_ok_def by blast
  have "ev_handoff_id (ar_event_doc x) = hid" using keys [of x] mem [of x] by simp
  then show "ho_id (lg_handoff log) = hid" using doc [of x] h by simp
  show "\<forall>y \<in> set (log_rows db hid). ar_seq y \<le> int (lg_count log)"
  proof
    fix y assume "y \<in> set (log_rows db hid)"
    then have "y \<in> set (x # xs)" by (simp only: rows)
    from doc [OF this] keys [OF this] show "ar_seq y \<le> int (lg_count log)" by simp
  qed
qed

section \<open>One append\<close>

lemma append_event_Inr:
  assumes "append_event env w db log message kind actor now target stored = Inr db'"
  shows "\<exists>ev log'. ev = built_event env w db log kind actor now \<and>
    step env log (Some (Event ev)) target = Inr (log', []) \<and> db' = grown db (event_row env log message ev stored)"
proof -
  define ev where "ev = built_event env w db log kind actor now"
  from assms obtain log' errs where s: "step env log (Some (Event ev)) target = Inr (log', errs)"
    by (auto simp: append_event_def Let_def ev_def)
  with assms have "errs = []" and ins: "insert_row (event_row env log message ev stored) db = Inr db'"
    by (auto simp: append_event_def Let_def ev_def [symmetric] split: if_splits)
  with s ins show ?thesis
    by (auto simp: ev_def [symmetric] insert_row_def grown_def split: if_splits)
qed

lemma event_row_simps [simp]:
  "ar_handoff_id (event_row env log message ev stored) = ev_handoff_id ev"
  "ar_seq (event_row env log message ev stored) = ev_seq ev" "ar_message (event_row env log message ev stored) = message"
  "ar_event_doc (event_row env log message ev stored) = ev" "ar_record (event_row env log message ev stored) = stored"
  "ar_event_id (event_row env log message ev stored) = ev_id ev"
  "ar_event (event_row env log message ev stored) = event_kind_value (ev_kind ev)"
  by (simp_all add: event_row_def)

lemma grown_store_ok: "store_ok db \<Longrightarrow> store_ok (grown db (event_row env log message ev stored))"
  by (auto simp: store_ok_def)

text \<open>The appended row replays to the log the append stepped to.\<close>

lemma rebuild_appended:
  assumes ok: "store_ok db" and built: "rebuild env db hid = Inr log"
    and clean: "step env log (Some (Event ev)) target = Inr (log', [])"
    and same: "\<exists>t. stored_target env db ev stored = Inr t \<and> step env log (Some (Event ev)) t = Inr (log', [])"
  shows "rebuild env (grown db (event_row env log message ev stored)) hid = Inr log'"
proof -
  define row where "row = event_row env log message ev stored"
  from rebuild_tracks [OF built] obtain h x xs where rows: "log_rows db hid = x # xs" "ar_record x = Some (Handoff h)"
    "valid_handoff env h" and fold: "foldE (replay_row env db) (x # xs) (fresh_log env h) = Inr log"
    by blast
  note numbers = rebuild_numbers [OF ok built]
  have ev: "ev_handoff_id ev = hid" "ev_seq ev = int (lg_count log) + 1"
    using clean numbers(1) by (auto simp: step_clean admitted_def)
  have grown_rows: "log_rows (grown db row) hid = x # xs @ [row]"
    using numbers(2) rows ev by (subst log_rows_grown) (fastforce simp: row_def)+
  have old: "foldE (replay_row env (grown db row)) (x # xs) (fresh_log env h) = Inr log"
    by (rule foldE_mono [OF _ fold]) (rule replay_row_grown)
  from same obtain t where t: "stored_target env db ev stored = Inr t" "step env log (Some (Event ev)) t = Inr (log', [])" by blast
  have new: "replay_row env (grown db row) row log = Inr log'"
    using stored_target_grown [OF t, of row] t(2) by (simp add: replay_row_clean row_def)
  have "rebuild env (grown db row) hid = foldE (replay_row env (grown db row)) (x # (xs @ [row])) (fresh_log env h)"
    by (rule rebuild_rows [OF grown_rows rows(2,3)])
  also have "\<dots> = Inr log'"
    by (simp only: append_Cons [symmetric] foldE_append old bindE_simps foldE_single new)
  finally show ?thesis by (simp add: row_def)
qed

text \<open>A ref to plain bytes replays from its digest alone.\<close>

lemma resolved_irrelevant [simp]:
  "onward_refusal log (s\<lparr>st_resolved := x\<rparr>) oc ow = onward_refusal log s oc ow"
  "refuse log (s\<lparr>st_resolved := x\<rparr>) = refuse log s" "overdue log (s\<lparr>st_resolved := x\<rparr>) = overdue log s"
  by (auto simp: onward_refusal_def refuse_def overdue_def fun_eq_iff split: onward.splits option.split option.split_asm)

lemma arm_raw:
  assumes "ev_kind (st_ev s) = Answered r \<or> (\<exists>oc. ev_kind (st_ev s) = Reported oc r)" and "st_resolved s = Some (Raw bytes)"
  shows "arm env log (s\<lparr>st_resolved := Some (Raw [])\<rparr>) tag = arm env log s tag"
  using assms by (auto simp: arm_def answered_def reported_def onward_of_def split: option.split)

lemma raw_target_replays:
  assumes "step env log (Some (Event ev)) (Some (Raw bytes, d)) = Inr (log', [])"
    and "ev_kind ev = Answered r \<or> (\<exists>oc. ev_kind ev = Reported oc r)"
  shows "step env log (Some (Event ev)) (Some (Raw [], d)) = Inr (log', [])"
proof -
  define s where "s = locals_of env log ev (Some (Raw bytes, d))"
  have ref: "ref_of ev = Some r" using assms(2) by (auto simp: ref_of_def)
  have s: "locals_of env log ev (Some (Raw [], d)) = s\<lparr>st_resolved := Some (Raw [])\<rparr>" "st_resolved s = Some (Raw bytes)"
    "st_ev s = ev"
    by (simp_all add: s_def locals_of_def step_of_def ref Let_def)
  have "arm env (stamped env log ev) (s\<lparr>st_resolved := Some (Raw [])\<rparr>) tag = arm env (stamped env log ev) s tag" for tag
    using assms(2) s by (intro arm_raw [where r = r and bytes = bytes]) simp_all
  then show ?thesis
    using assms(1) by (simp add: step_clean s s_def [symmetric] ref_refusal_def ref split: if_splits)
qed

section \<open>Every action\<close>

text \<open>
  One recorded action: the log of the message's hand-off was rebuilt, one row was appended, the event it
  holds is a conforming step of that log, and the stored log now rebuilds to the step's result.
\<close>

definition recorded :: "ahr_env \<Rightarrow> comms_db \<Rightarrow> string \<Rightarrow> comms_db \<Rightarrow> AhrLog \<Rightarrow> event \<Rightarrow> AhrLog \<Rightarrow> bool" where
  "recorded env db message db' log ev log' \<longleftrightarrow>
     (\<exists>hid stored target. handoff_of db message = Some hid \<and> rebuild env db hid = Inr log \<and>
        step env log (Some (Event ev)) target = Inr (log', []) \<and>
        db' = grown db (event_row env log message ev stored) \<and> rebuild env db' hid = Inr log')"

definition replays_as :: "ahr_env \<Rightarrow> comms_db \<Rightarrow> AhrLog \<Rightarrow> event \<Rightarrow> target option \<Rightarrow> document option \<Rightarrow> bool" where
  "replays_as env db log ev target stored \<longleftrightarrow>
     (\<forall>log'. step env log (Some (Event ev)) target = Inr (log', []) \<longrightarrow>
        (\<exists>t. stored_target env db ev stored = Inr t \<and> step env log (Some (Event ev)) t = Inr (log', [])))"

lemma logged_Inr: "logged env db message = Inr log \<longleftrightarrow>
    (\<exists>hid. handoff_of db message = Some hid \<and> rebuild env db hid = Inr log)"
  by (auto simp: logged_def split: option.splits)

lemma append_recorded:
  assumes "store_ok db" "logged env db message = Inr log"
    and "append_event env w db log message kind actor now target stored = Inr db'"
    and "replays_as env db log (built_event env w db log kind actor now) target stored"
  shows "\<exists>log'. recorded env db message db' log (built_event env w db log kind actor now) log'"
proof -
  define ev where "ev = built_event env w db log kind actor now"
  from assms(2) obtain hid where hid: "handoff_of db message = Some hid" "rebuild env db hid = Inr log"
    by (auto simp: logged_Inr)
  from append_event_Inr [OF assms(3)] obtain log' where
    s: "step env log (Some (Event ev)) target = Inr (log', [])" "db' = grown db (event_row env log message ev stored)"
    by (auto simp: ev_def)
  from assms(4) s(1) have "\<exists>t. stored_target env db ev stored = Inr t \<and> step env log (Some (Event ev)) t = Inr (log', [])"
    by (simp add: replays_as_def ev_def)
  from rebuild_appended [OF assms(1) hid(2) s(1) this] hid s show ?thesis
    by (auto simp: recorded_def ev_def [symmetric])
qed

lemma built_kind: "(\<And>at. kind \<noteq> Accepted at) \<Longrightarrow> ev_kind (built_event env w db log kind actor now) = kind"
  by (cases kind) (auto simp: built_event_def)

lemma built_fields [simp]:
  "ev_ref (built_event env w db log kind actor now) = None" "ev_actor (built_event env w db log kind actor now) = actor"
  "ev_kind (built_event env w db log (Accepted at) actor now) = Accepted (iso env now)"
  "ev_at (built_event env w db log kind actor now) = iso env now"
  by (simp_all add: built_event_def)

lemma replays_plain:
  "ref_of (built_event env w db log kind actor now) = None \<Longrightarrow>
   replays_as env db log (built_event env w db log kind actor now) None stored"
  by (simp add: replays_as_def stored_target_def)

lemma replays_record:
  assumes "kind = Read_back r \<or> (\<exists>oc. kind = Reported oc r)" and "found = doc_digest env d"
  shows "replays_as env db log (built_event env w db log kind actor now) (Some (Record d, found)) (Some d)"
proof -
  have "ev_kind (built_event env w db log kind actor now) = kind" using assms(1) by (intro built_kind) auto
  then show ?thesis using assms by (auto simp: replays_as_def stored_target_def ref_of_def)
qed

lemma replays_raw:
  assumes "kind = Answered r \<or> (\<exists>oc. kind = Reported oc r)" and "ref_digest r = Some found"
  shows "replays_as env db log (built_event env w db log kind actor now) (Some (Raw sample, found)) None"
proof -
  define ev where "ev = built_event env w db log kind actor now"
  have kind: "ev_kind ev = kind" unfolding ev_def using assms(1) by (intro built_kind) auto
  have "stored_target env db ev None = Inr (Some (Raw [], found))"
    using assms kind by (auto simp: stored_target_def ref_of_def)
  moreover have "step env log (Some (Event ev)) (Some (Raw [], found)) = Inr (log', [])"
    if "step env log (Some (Event ev)) (Some (Raw sample, found)) = Inr (log', [])" for log'
    by (rule raw_target_replays [OF that, of r]) (use assms(1) kind in auto)
  ultimately show ?thesis by (simp add: replays_as_def ev_def)
qed

lemma replays_report_raw:
  "ref_digest r = Some found \<Longrightarrow>
   replays_as env db log (built_event env w db log (Reported oc r) actor now) (Some (Raw sample, found)) None"
  by (rule replays_raw) auto

lemma replays_report_record:
  "found = doc_digest env d \<Longrightarrow>
   replays_as env db log (built_event env w db log (Reported oc r) actor now) (Some (Record d, found)) (Some d)"
  by (rule replays_record) auto

lemma digest_of_Inr: "digest_of env d = Inr found \<Longrightarrow> found = doc_digest env d"
  by (auto simp: digest_of_def split: sum.splits)

lemmas append_plain = append_recorded [OF _ _ _ replays_plain]
lemmas append_record = append_recorded [OF _ _ _ replays_record]
lemmas append_raw = append_recorded [OF _ _ _ replays_raw]

datatype ahr_action =
    Do_read_back string
  | Do_accept
  | Do_decline string
  | Do_withdraw string
  | Do_answer string
  | Do_report string string report_outcome
  | Do_complete

primrec act :: "ahr_env \<Rightarrow> ahr_world \<Rightarrow> comms_db \<Rightarrow> string \<Rightarrow> ahr_action \<Rightarrow> int \<Rightarrow> ahr_error + comms_db" where
  "act env w db message (Do_read_back path) now = read_back_action env w db message path now"
| "act env w db message Do_accept now = accept_action env w db message now"
| "act env w db message (Do_decline reason) now = decline_action env w db message reason now"
| "act env w db message (Do_withdraw reason) now = withdraw_action env w db message reason now"
| "act env w db message (Do_answer path) now = answer_action env w db message path now"
| "act env w db message (Do_report gid next_read oc) now = report_action env w db gid message next_read oc now"
| "act env w db message Do_complete now = complete_action env w db message now"

definition appends_report :: "ahr_env \<Rightarrow> ahr_world \<Rightarrow> comms_db \<Rightarrow> string \<Rightarrow> AhrLog \<Rightarrow> report_outcome \<Rightarrow> int \<Rightarrow> comms_db \<Rightarrow> bool" where
  "appends_report env w db message log oc now db' \<longleftrightarrow>
     (\<exists>r p target stored. append_event env w db log message (Reported oc r) p now target stored = Inr db' \<and>
        replays_as env db log (built_event env w db log (Reported oc r) p now) target stored)"

lemma report_cases:
  assumes acted: "report_action env w db gid message next_read oc now = Inr db'" and log: "logged env db message = Inr log"
  shows "lg_state log \<in> {Some Is_reported, Some Is_completed} \<and> db' = db \<or> appends_report env w db message log oc now db'"
proof (cases "lg_state log \<in> {Some Is_reported, Some Is_completed}")
  case True
  with assms show ?thesis by (auto simp: report_action_def)
next
  case pending: False
  with assms obtain path pinned where "parse_bound next_read = Some (path, pinned)"
    by (auto simp: report_action_def split: option.splits)
  with assms pending obtain relative sample found where h: "wd_hashed w path = Inr (relative, sample, found)"
    and rest: "(case onward_document w sample of
        None \<Rightarrow> if found \<noteq> pinned then Inl (AdmissionError ''ahr_ref_unverified'')
          else bindE (receiver_of log) (\<lambda>actor. append_event env w db log message
            (Reported oc \<lparr>ref_uri = ''file:'' @ relative, ref_digest = Some found, ref_media_type = None\<rparr>)
            actor now (Some (Raw sample, found)) None)
      | Some d \<Rightarrow> (case digest_of env d of Inl e \<Rightarrow> Inl (AdmissionError ''ahr_invalid'')
        | Inr record_digest \<Rightarrow>
            if pinned \<notin> {found, record_digest} then Inl (AdmissionError ''ahr_ref_unverified'')
            else if \<not> onward_critical d \<and> \<not> offered_here env db gid d then Inl (AdmissionError ''ahr_onward_not_offered'')
            else bindE (receiver_of log) (\<lambda>actor. append_event env w db log message
              (Reported oc \<lparr>ref_uri = ''file:'' @ relative, ref_digest = Some record_digest, ref_media_type = Some AHR_MEDIA\<rparr>)
              actor now (Some (Record d, record_digest)) (Some d)))) = Inr db'"
    by (auto simp: report_action_def)
  have "appends_report env w db message log oc now db'"
  proof (cases "onward_document w sample")
    case None
    with rest obtain actor where "append_event env w db log message
        (Reported oc \<lparr>ref_uri = ''file:'' @ relative, ref_digest = Some found, ref_media_type = None\<rparr>)
        actor now (Some (Raw sample, found)) None = Inr db'"
      by (auto split: if_splits)
    then show ?thesis
      unfolding appends_report_def by (intro exI conjI, assumption, intro replays_report_raw) simp
  next
    case (Some d)
    with rest obtain rd actor where "digest_of env d = Inr rd" "append_event env w db log message
        (Reported oc \<lparr>ref_uri = ''file:'' @ relative, ref_digest = Some rd, ref_media_type = Some AHR_MEDIA\<rparr>)
        actor now (Some (Record d, rd)) (Some d) = Inr db'"
      by (auto split: if_splits sum.splits)
    then show ?thesis
      unfolding appends_report_def by (blast intro: replays_report_record digest_of_Inr)
  qed
  then show ?thesis by blast
qed

lemma report_recorded:
  assumes ok: "store_ok db" and acted: "report_action env w db gid message next_read oc now = Inr db'" and "db' \<noteq> db"
  shows "\<exists>log ev log'. recorded env db message db' log ev log'"
proof -
  from acted obtain log where log: "logged env db message = Inr log" by (auto simp: report_action_def)
  with report_cases [OF acted log] assms(3) append_recorded [OF ok log] show ?thesis
    by (auto simp: appends_report_def) blast
qed


lemma plain_recorded:
  assumes "store_ok db" "logged env db message = Inr log"
    and "append_event env w db log message kind actor now None stored = Inr db'"
    and "ref_of (built_event env w db log kind actor now) = None"
  shows "\<exists>log ev log'. recorded env db message db' log ev log'"
  using append_plain [OF assms(1-4)] by blast

lemma read_back_recorded:
  assumes ok: "store_ok db" and acted: "read_back_action env w db message path now = Inr db'"
  shows "db' = db \<or> (\<exists>log ev log'. recorded env db message db' log ev log')"
proof -
  from acted obtain log d found actor where log: "logged env db message = Inr log" "digest_of env d = Inr found"
    and "db' = db \<or> append_event env w db log message
         (Read_back \<lparr>ref_uri = ''trw:ahr/'' @ ho_id (lg_handoff log) @ ''/readback/'' @ readback_id_of d,
            ref_digest = Some found, ref_media_type = Some AHR_MEDIA\<rparr>)
         actor now (Some (Record d, found)) (Some d) = Inr db'"
    by (auto simp: read_back_action_def split: if_splits)
  then show ?thesis using append_record [OF ok log(1)] digest_of_Inr [OF log(2)] by blast
qed

lemma answer_recorded:
  assumes ok: "store_ok db" and acted: "answer_action env w db message path now = Inr db'"
  shows "db' = db \<or> (\<exists>log ev log'. recorded env db message db' log ev log')"
proof -
  from acted obtain log relative sample found where log: "logged env db message = Inr log"
    and cases: "db' = db \<or> append_event env w db log message
         (Answered \<lparr>ref_uri = ''file:'' @ relative, ref_digest = Some found, ref_media_type = None\<rparr>)
         (sender_of log) now (Some (Raw sample, found)) None = Inr db'"
    by (auto simp: answer_action_def Let_def split: if_splits)
  from cases show ?thesis
  proof
    assume "append_event env w db log message
      (Answered \<lparr>ref_uri = ''file:'' @ relative, ref_digest = Some found, ref_media_type = None\<rparr>)
      (sender_of log) now (Some (Raw sample, found)) None = Inr db'"
    from append_raw [OF ok log this] show ?thesis by auto
  qed simp
qed

lemma act_recorded:
  assumes ok: "store_ok db" and acted: "act env w db message a now = Inr db'"
  shows "db' = db \<or> (\<exists>log ev log'. recorded env db message db' log ev log')"
proof (cases a)
  case Do_accept
  with acted show ?thesis
    using plain_recorded [OF ok] by (fastforce simp: accept_action_def ref_of_def split: if_splits)
next
  case (Do_decline reason)
  with acted show ?thesis
    using plain_recorded [OF ok] by (fastforce simp: decline_action_def ref_of_def built_kind split: if_splits)
next
  case (Do_withdraw reason)
  with acted show ?thesis
    using plain_recorded [OF ok] by (fastforce simp: withdraw_action_def ref_of_def built_kind split: if_splits)
next
  case Do_complete
  with acted show ?thesis
    using plain_recorded [OF ok] by (fastforce simp: complete_action_def ref_of_def built_kind split: if_splits)
next
  case (Do_report gid next_read oc)
  with acted report_recorded [OF ok, of env w gid message next_read oc now db'] show ?thesis by auto
next
  case (Do_read_back path)
  with acted read_back_recorded [OF ok, of env w message path now db'] show ?thesis by simp
next
  case (Do_answer path)
  with acted answer_recorded [OF ok, of env w message path now db'] show ?thesis by simp
qed

lemma recorded_reads:
  assumes "recorded env db message db' log ev log'"
  shows "logged env db' message = Inr log'" and "\<exists>row. db' = grown db row"
    and "lg_handoff log' = lg_handoff log" and "store_ok db \<Longrightarrow> store_ok db'" and "log_ok env log \<Longrightarrow> moves env log ev log'"
    and "logged env db message = Inr log"
proof -
  from assms obtain hid stored target where hid: "handoff_of db message = Some hid" "rebuild env db hid = Inr log"
    and s: "step env log (Some (Event ev)) target = Inr (log', [])"
    and db': "db' = grown db (event_row env log message ev stored)" "rebuild env db' hid = Inr log'"
    by (auto simp: recorded_def)
  have "handoff_of db' message = Some hid"
    using hid(1) find_append_Some by (fastforce simp: handoff_of_def db'(1))
  with db'(2) show "logged env db' message = Inr log'" by (simp add: logged_Inr)
  show "\<exists>row. db' = grown db row" using db'(1) by blast
  show "store_ok db \<Longrightarrow> store_ok db'" using db'(1) grown_store_ok by blast
  have ok: "log_ok env log" using rebuild_tracks [OF hid(2)] by (auto simp: tracks_def)
  have m: "moves env log ev log'" using s arm_moves [OF ok] by (auto simp: step_clean)
  then show "lg_handoff log' = lg_handoff log" by (simp add: moves_def)
  show "moves env log ev log'" by (rule m)
  show "logged env db message = Inr log" using hid by (auto simp: logged_Inr)
qed

lemma grown_neq: "grown db row \<noteq> db"
  by (metis append_self_conv grown_simps(1) not_Cons_self2)

section \<open>Retries\<close>

text \<open>What an action finds when it has nothing left to do.\<close>

definition settled :: "ahr_env \<Rightarrow> ahr_world \<Rightarrow> comms_db \<Rightarrow> string \<Rightarrow> ahr_action \<Rightarrow> bool" where
  "settled env w db message a \<longleftrightarrow>
     (\<exists>log. logged env db message = Inr log \<and>
       (case a of
          Do_accept \<Rightarrow> (\<exists>p. receiver_of log = Inr p \<and> lg_receiver log = Some (pr_id p) \<and>
            lg_state log \<in> {Some Is_accepted, Some Is_reported, Some Is_completed})
        | Do_decline reason \<Rightarrow> lg_state log = Some Is_declined
        | Do_withdraw reason \<Rightarrow> lg_state log = Some Is_withdrawn
        | Do_complete \<Rightarrow> lg_state log = Some Is_completed
        | Do_report gid next_read oc \<Rightarrow> lg_state log \<in> {Some Is_reported, Some Is_completed}
        | Do_answer path \<Rightarrow> (\<exists>relative sample found. wd_hashed w path = Inr (relative, sample, found) \<and>
            map_option ev_kind (lg_prev_event log) =
              Some (Answered \<lparr>ref_uri = ''file:'' @ relative, ref_digest = Some found, ref_media_type = None\<rparr>))
        | Do_read_back path \<Rightarrow> (\<exists>d found p. load_record w path ''readback'' = Inr d \<and> digest_of env d = Inr found \<and>
            receiver_of log = Inr p \<and>
            map_option re_digest (find_row re_author (pr_id p) (lg_latest_rb log)) = Some found)))"

lemma settled_returns: "settled env w db message a \<Longrightarrow> act env w db message a now = Inr db"
  by (cases a) (auto simp: settled_def accept_action_def decline_action_def withdraw_action_def complete_action_def
      report_action_def answer_action_def read_back_action_def simp del: bindE_eq_Inr)

lemma step_arm:
  assumes "step env log (Some (Event ev)) target = Inr (log', [])"
  shows "arm env (stamped env log ev) (locals_of env log ev target) (document_tag (Event ev)) = Inr (log', [])"
    and "lg_prev_event log' = Some ev"
  using assms arm_frame by (fastforce simp: step_clean)+

text \<open>What an append leaves behind: a log whose last event was taken by its arm.\<close>

lemma append_settles:
  assumes "store_ok db" "logged env db message = Inr log"
    and "append_event env w db log message kind actor now target stored = Inr db'"
    and "replays_as env db log (built_event env w db log kind actor now) target stored"
  shows "\<exists>log' t tag. logged env db' message = Inr log' \<and> lg_handoff log' = lg_handoff log \<and>
    lg_prev_event log' = Some (built_event env w db log kind actor now) \<and>
    arm env (stamped env log (built_event env w db log kind actor now))
      (locals_of env log (built_event env w db log kind actor now) t) tag = Inr (log', [])"
proof -
  from append_recorded [OF assms] obtain log' where
    r: "recorded env db message db' log (built_event env w db log kind actor now) log'" by blast
  then obtain t where "step env log (Some (Event (built_event env w db log kind actor now))) t = Inr (log', [])"
    by (auto simp: recorded_def)
  from step_arm [OF this] recorded_reads(1,3) [OF r] show ?thesis by blast
qed

lemmas plain_settles = append_settles [OF _ _ _ replays_plain]
lemmas record_settles = append_settles [OF _ _ _ replays_record]
lemmas raw_settles = append_settles [OF _ _ _ replays_raw]

lemma accept_settles:
  assumes ok: "store_ok db" and acted: "accept_action env w db message now = Inr db'"
  shows "settled env w db' message Do_accept"
proof -
  from acted obtain log p where log: "logged env db message = Inr log" "receiver_of log = Inr p"
    and branch: "settled env w db message Do_accept \<and> db' = db \<or>
      append_event env w db log message (Accepted []) p now None None = Inr db'"
    by (auto simp: accept_action_def settled_def split: if_splits)
  have "settled env w db' message Do_accept" if app: "append_event env w db log message (Accepted []) p now None None = Inr db'"
  proof -
    have "ref_of (built_event env w db log (Accepted []) p now) = None" by (simp add: ref_of_def)
    from plain_settles [OF ok log(1) app this] log(2) show ?thesis
      by (auto simp: settled_def arm_def receiver_of_def dest!: accepted_clean)
  qed
  with branch show ?thesis by blast
qed

lemma state_settles:
  assumes ok: "store_ok db" and log: "logged env db message = Inr log"
    and app: "append_event env w db log message kind actor now None None = Inr db'"
    and kind: "kind = Declined reason \<or> kind = Withdrawn reason \<or> kind = Completed"
  shows "\<exists>log'. logged env db' message = Inr log' \<and>
    lg_state log' = Some (case kind of Declined r \<Rightarrow> Is_declined | Withdrawn r \<Rightarrow> Is_withdrawn | _ \<Rightarrow> Is_completed)"
proof -
  have k: "ev_kind (built_event env w db log kind actor now) = kind" using kind by (intro built_kind) auto
  then have "ref_of (built_event env w db log kind actor now) = None" using kind by (auto simp: ref_of_def)
  from plain_settles [OF ok log app this] show ?thesis
    using kind k by (auto simp: arm_def dest!: declined_clean withdrawn_clean completed_clean)
qed

lemma read_back_settles:
  assumes ok: "store_ok db" and acted: "read_back_action env w db message path now = Inr db'"
  shows "settled env w db' message (Do_read_back path)"
proof -
  from acted obtain log d found p where
    log: "logged env db message = Inr log" "load_record w path ''readback'' = Inr d" "digest_of env d = Inr found"
      "receiver_of log = Inr p"
    and branch: "settled env w db message (Do_read_back path) \<and> db' = db \<or> append_event env w db log message
         (Read_back \<lparr>ref_uri = ''trw:ahr/'' @ ho_id (lg_handoff log) @ ''/readback/'' @ readback_id_of d,
            ref_digest = Some found, ref_media_type = Some AHR_MEDIA\<rparr>)
         p now (Some (Record d, found)) (Some d) = Inr db'"
    by (auto simp: read_back_action_def settled_def split: if_splits)
  define r where "r = \<lparr>ref_uri = ''trw:ahr/'' @ ho_id (lg_handoff log) @ ''/readback/'' @ readback_id_of d,
    ref_digest = Some found, ref_media_type = Some AHR_MEDIA\<rparr>"
  have "settled env w db' message (Do_read_back path)"
    if app: "append_event env w db log message (Read_back r) p now (Some (Record d, found)) (Some d) = Inr db'"
  proof -
    define ev where "ev = built_event env w db log (Read_back r) p now"
    have ev: "ev_kind ev = Read_back r" "ev_actor ev = p" "ref_digest_of ev = Some found"
      by (simp_all add: ev_def built_kind ref_digest_of_def ref_of_def r_def)
    from record_settles [OF ok log(1) app disjI1 [OF refl] digest_of_Inr [OF log(3)]]
    obtain log' t tag where log': "logged env db' message = Inr log'" "lg_handoff log' = lg_handoff log"
      and arm: "read_back env (stamped env log ev) (locals_of env log ev t) tag = Inr (log', [])"
      by (auto simp: ev_def [symmetric] arm_def ev)
    from read_back_clean [OF arm] ev obtain rb where
      "store_readback env (stamped env log ev) (locals_of env log ev t) rb found = Inr (log', [])" by auto
    from store_readback_clean [OF this] ev(2)
    have "map_option re_digest (find_row re_author (pr_id p) (lg_latest_rb log')) = Some found"
      by (simp add: find_put_row)
    with log' log show ?thesis by (auto simp: settled_def receiver_of_def)
  qed
  with branch show ?thesis by (auto simp: r_def)
qed

lemma answer_settles:
  assumes ok: "store_ok db" and acted: "answer_action env w db message path now = Inr db'"
  shows "settled env w db' message (Do_answer path)"
proof -
  from acted obtain log relative sample found where
    log: "logged env db message = Inr log" "wd_hashed w path = Inr (relative, sample, found)"
    and branch: "settled env w db message (Do_answer path) \<and> db' = db \<or> append_event env w db log message
      (Answered \<lparr>ref_uri = ''file:'' @ relative, ref_digest = Some found, ref_media_type = None\<rparr>)
      (sender_of log) now (Some (Raw sample, found)) None = Inr db'"
    by (auto simp: answer_action_def settled_def Let_def split: if_splits)
  define r where "r = \<lparr>ref_uri = ''file:'' @ relative, ref_digest = Some found, ref_media_type = None\<rparr>"
  have "settled env w db' message (Do_answer path)"
    if app: "append_event env w db log message (Answered r) (sender_of log) now (Some (Raw sample, found)) None = Inr db'"
  proof -
    have "ref_digest r = Some found" by (simp add: r_def)
    from raw_settles [OF ok log(1) app disjI1 [OF refl] this] log(2) show ?thesis
      by (auto simp: settled_def r_def built_kind)
  qed
  with branch show ?thesis by (auto simp: r_def)
qed

lemma report_settles:
  assumes ok: "store_ok db" and acted: "report_action env w db gid message next_read oc now = Inr db'"
  shows "settled env w db' message (Do_report gid next_read oc)"
proof -
  from acted obtain log where log: "logged env db message = Inr log" by (auto simp: report_action_def)
  from report_cases [OF acted log] show ?thesis
  proof
    assume "lg_state log \<in> {Some Is_reported, Some Is_completed} \<and> db' = db"
    with log show ?thesis by (auto simp: settled_def)
  next
    assume "appends_report env w db message log oc now db'"
    then obtain r p target stored where
      app: "append_event env w db log message (Reported oc r) p now target stored = Inr db'"
        "replays_as env db log (built_event env w db log (Reported oc r) p now) target stored"
      by (auto simp: appends_report_def)
    from append_settles [OF ok log app] show ?thesis
      by (auto simp: settled_def arm_def built_kind dest!: reported_clean)
  qed
qed

lemma act_settles:
  assumes ok: "store_ok db" and acted: "act env w db message a now = Inr db'"
  shows "settled env w db' message a"
proof (cases a)
  case (Do_decline reason)
  with acted obtain log p where "logged env db message = Inr log"
    "lg_state log = Some Is_declined \<and> db' = db \<or> append_event env w db log message (Declined reason) p now None None = Inr db'"
    by (auto simp: decline_action_def split: if_splits)
  with Do_decline state_settles [OF ok, of env message log w "Declined reason" p now db' reason] show ?thesis
    by (auto simp: settled_def)
next
  case (Do_withdraw reason)
  with acted obtain log where "logged env db message = Inr log"
    "lg_state log = Some Is_withdrawn \<and> db' = db \<or>
      append_event env w db log message (Withdrawn reason) (sender_of log) now None None = Inr db'"
    by (auto simp: withdraw_action_def split: if_splits)
  with Do_withdraw state_settles [OF ok, of env message log w "Withdrawn reason" "sender_of log" now db' reason] show ?thesis
    by (auto simp: settled_def)
next
  case Do_complete
  with acted obtain log where "logged env db message = Inr log"
    "lg_state log = Some Is_completed \<and> db' = db \<or>
      append_event env w db log message Completed (sender_of log) now None None = Inr db'"
    by (auto simp: complete_action_def split: if_splits)
  with Do_complete state_settles [OF ok, of env message log w Completed "sender_of log" now db' "[]"] show ?thesis
    by (auto simp: settled_def)
qed (use acted accept_settles [OF ok] report_settles [OF ok] read_back_settles [OF ok] answer_settles [OF ok] in simp_all)

end
