(* ===== verification/Ahr_Mailbox.thy ===== *)
theory Ahr_Mailbox
  imports Ahr_Store_Laws
begin

text \<open>
  What the two parties of a stored hand-off can rely on: every action is one move of the lifecycle,
  repeating it changes nothing, a ready receiver can accept and an unread offer cannot be accepted.
  The example at the end runs the toy hand-off of \<^verbatim>\<open>Ahr_Replay\<close> through the mailbox.
\<close>

section \<open>Accepting\<close>

text \<open>An event that passes every check before its arm is whatever its arm makes of it.\<close>

lemma step_admitted:
  assumes "admitted env log ev" "ref_refusal env ev target = None" "\<not> overdue log (locals_of env log ev target)"
  shows "step env log (Some (Event ev)) target =
    arm env (stamped env log ev) (locals_of env log ev target) (document_tag (Event ev))"
proof -
  have id: "bindE m Inr = m" for m :: arm_result
    by (cases m) auto
  have plain: "chain_errors env log ev tag = []" "order_errors env log ev (lg_count log) fail = []" for tag fail
    using assms(1) by (auto simp: chain_clean order_clean admitted_def)
  show ?thesis
    using assms plain
    by (auto simp: step_def admit_event_def admitted_def Let_def locals_of_def stamped_def id)
qed

text \<open>The receiver of an addressed hand-off that was offered, at a time the log admits.\<close>

definition may_accept_now :: "ahr_env \<Rightarrow> ahr_world \<Rightarrow> comms_db \<Rightarrow> AhrLog \<Rightarrow> principal \<Rightarrow> int \<Rightarrow> bool" where
  "may_accept_now env w db log p now \<longleftrightarrow>
     lg_state log = Some Is_offered \<and> ho_to (lg_handoff log) = Named p \<and> instant env (iso env now) = now \<and>
     (\<forall>t. lg_prev_at log = Some t \<longrightarrow> t \<le> now) \<and> (\<forall>x. log_expires_at env log = Some x \<longrightarrow> now < x) \<and>
     lg_seen_ids log (wd_uuid w (length (ahr_events db))) = None \<and>
     (\<forall>actor. check_doc env (Event (built_event env w db log (Accepted []) actor now)) None = Inr [])"

lemma receiver_kind:
  assumes "valid_handoff env h" "ho_to h = Named p"
  shows "kinds_of h (pr_id p) = Some (pr_kind p)"
proof -
  have "\<not> (verifier_of h \<noteq> None \<and> Some (pr_id p) = map_option pr_id (verifier_of h))"
    using valid_handoff_rules(1) [OF assms(1)] assms(2) by (auto simp: check_handoff_def handoff_principals_def Let_def)
  then show ?thesis using assms(2) by (auto simp: kinds_of_def Let_def split: option.splits)
qed

lemma accept_step:
  assumes ok: "store_ok db" and log: "logged env db message = Inr log" and now: "may_accept_now env w db log p now"
  defines "actor \<equiv> \<lparr>pr_id = pr_id p, pr_kind = pr_kind p, pr_rest = []\<rparr>"
  defines "ev \<equiv> built_event env w db log (Accepted []) actor now"
  shows "step env log (Some (Event ev)) None = accepted env (stamped env log ev) (locals_of env log ev None) (iso env now)"
    and "receiver_of log = Inr actor" and "insert_row (event_row env log message ev None) db = Inr (grown db (event_row env log message ev None))"
proof -
  from log obtain hid where hid: "handoff_of db message = Some hid" "rebuild env db hid = Inr log" by (auto simp: logged_Inr)
  from rebuild_tracks [OF hid(2)] obtain evs where evs: "tracks env (lg_handoff log) evs log" "evs = map ar_event_doc (log_rows db hid)"
    by (auto simp: tracks_def)
  note numbers = rebuild_numbers [OF ok hid(2)]
  have valid: "valid_handoff env (lg_handoff log)" using numbers(4) by (simp add: log_ok_def)
  have "evs \<noteq> []"
    using evs(1) now by (auto simp: tracks_def may_accept_now_def position_of_def lifecycle_path_simps)
  then have last: "lg_prev_at log = Some (instant env (ev_at (last evs)))" "last evs \<in> set evs"
    using evs(1) by (simp_all add: tracks_def)
  then have "instant env (ho_created_at (lg_handoff log)) \<le> instant env (ev_at (last evs))"
    using evs(1) unfolding tracks_def chained_def by blast
  moreover have "instant env (ev_at (last evs)) \<le> now" using last(1) now by (simp add: may_accept_now_def)
  ultimately have created: "instant env (ho_created_at (lg_handoff log)) \<le> now" by simp
  have "admitted env log ev"
    using now created receiver_kind [OF valid]
    by (auto simp: admitted_def may_accept_now_def ev_def actor_def built_event_def TERMINAL_def)
  moreover have "ref_refusal env ev None = None" by (simp add: ref_refusal_def ref_of_def ev_def)
  moreover have "\<not> overdue log (locals_of env log ev None)"
    using now by (auto simp: overdue_def may_accept_now_def ev_def split: option.splits)
  ultimately show "step env log (Some (Event ev)) None = accepted env (stamped env log ev) (locals_of env log ev None) (iso env now)"
    by (subst step_admitted) (simp_all add: arm_def ev_def)
  show "receiver_of log = Inr actor" using now by (simp add: receiver_of_def may_accept_now_def actor_def)
  have "ar_seq x \<noteq> ev_seq ev \<and> ar_event_id x \<noteq> ev_id ev" if x: "x \<in> set (ahr_events db)" "ar_handoff_id x = hid" for x
  proof
    show "ar_seq x \<noteq> ev_seq ev" using numbers(2) x by (fastforce simp: set_log_rows ev_def built_event_def)
    have "ar_event_id x = ev_id (ar_event_doc x)" using ok x(1) unfolding store_ok_def by blast
    then have "ar_event_id x \<in> dom (lg_seen_ids log)"
      using evs x by (auto simp: tracks_def set_log_rows)
    then show "ar_event_id x \<noteq> ev_id ev" using now by (auto simp: may_accept_now_def ev_def built_event_def)
  qed
  moreover have "ev_handoff_id ev = hid" using numbers(1) by (simp add: ev_def built_event_def)
  ultimately show "insert_row (event_row env log message ev None) db = Inr (grown db (event_row env log message ev None))"
    by (auto simp: insert_row_def grown_def list_ex_iff)
qed

lemma accept_decides:
  fixes env :: ahr_env and w :: ahr_world and db :: comms_db and log :: AhrLog and p :: principal and now :: int
  defines "actor \<equiv> \<lparr>pr_id = pr_id p, pr_kind = pr_kind p, pr_rest = []\<rparr>"
  defines "ev \<equiv> built_event env w db log (Accepted []) actor now"
  defines "s \<equiv> locals_of env log ev None"
  assumes ok: "store_ok db" and log: "logged env db message = Inr log" and now: "may_accept_now env w db log p now"
    and decided: "acceptance_refusal (stamped env log ev) s (find_row re_author (pr_id p) (lg_latest_rb log)) = verdict"
  shows "accept_action env w db message now =
    (case verdict of
       None \<Rightarrow> Inr (grown db (event_row env log message ev None))
     | Some (rule, msg) \<Rightarrow> Inl (refusal [st_fail s rule msg] ''accepted''))"
proof -
  have st: "lg_state log = Some Is_offered" "ho_to (lg_handoff log) = Named p" "instant env (iso env now) = now"
    using now by (simp_all add: may_accept_now_def)
  note steps = accept_step [OF ok log now, folded actor_def, folded ev_def]
  have "accepted env (stamped env log ev) s (iso env now) =
    (case verdict of
       None \<Rightarrow> Inr ((stamped env log ev)\<lparr>lg_state := Some Is_accepted, lg_receiver := Some (pr_id p)\<rparr>, [])
     | Some (rule, msg) \<Rightarrow> Inr (stamped env log ev, [st_fail s rule msg]))"
    using st decided by (simp add: accepted_def s_def ev_def actor_def addressed_to_def Let_def split: option.split)
  with steps(1) have step: "step env log (Some (Event ev)) None =
    (case verdict of
       None \<Rightarrow> Inr ((stamped env log ev)\<lparr>lg_state := Some Is_accepted, lg_receiver := Some (pr_id p)\<rparr>, [])
     | Some (rule, msg) \<Rightarrow> Inr (stamped env log ev, [st_fail s rule msg]))"
    by (simp add: s_def)
  show ?thesis
    using steps(2,3) log st(1) step
    by (simp add: accept_action_def append_event_def Let_def ev_def [symmetric] split: option.split)
qed

lemma accept_lands:
  assumes ok: "store_ok db" and log: "logged env db message = Inr log" and st: "lg_state log = Some Is_offered"
    and acted: "accept_action env w db message now = Inr db'"
  shows "\<exists>log' q. logged env db' message = Inr log' \<and> receiver_of log = Inr q \<and>
    lg_state log' = Some Is_accepted \<and> lg_receiver log' = Some (pr_id q)"
proof -
  from acted log st obtain q where q: "receiver_of log = Inr q"
    and app: "append_event env w db log message (Accepted []) q now None None = Inr db'"
    by (auto simp: accept_action_def)
  have "ref_of (built_event env w db log (Accepted []) q now) = None" by (simp add: ref_of_def)
  from plain_settles [OF ok log app this] q show ?thesis
    by (fastforce simp: arm_def dest: accepted_clean)
qed

lemma fail_text [simp]:
  "st_fail (locals_of env log ev target) rule msg = rule @ '' '' @ document_tag (Event ev) @ '': '' @ msg"
  by (simp add: locals_of_def step_of_def Let_def)

section \<open>Properties\<close>

text \<open>C6: Every action of a party either changes nothing or appends one row, whose event is a move of the lifecycle from
  the rebuilt log; the stored log then rebuilds to exactly the log that move produced.\<close>
theorem every_action_replays:
  assumes "store_ok db" and "act env w db message a now = Inr db'"
  shows "db' = db \<or> (\<exists>log log' row. logged env db message = Inr log \<and>
    ahr_events db' = ahr_events db @ [row] \<and>
    lifecycle_move (lg_handoff log) (position_of log) (ar_event_doc row) (position_of log') \<and>
    logged env db' message = Inr log' \<and> store_ok db')"
  using act_recorded [OF assms]
proof
  assume "\<exists>log ev log'. recorded env db message db' log ev log'"
  then obtain log ev log' where r: "recorded env db message db' log ev log'" by blast
  then obtain hid stored where hid: "rebuild env db hid = Inr log" "db' = grown db (event_row env log message ev stored)"
    by (auto simp: recorded_def)
  have "log_ok env log" using rebuild_numbers(4) [OF assms(1) hid(1)] .
  from recorded_reads(5) [OF r this] have "lifecycle_move (lg_handoff log) (position_of log) ev (position_of log')"
    by (simp add: moves_def)
  with recorded_reads(1,4,6) [OF r] assms(1) hid(2) show ?thesis
    by (intro disjI2 exI [of _ log] exI [of _ log'] exI [of _ "event_row env log message ev stored"]) simp
qed simp

text \<open>C7: Retries are exact. Whatever a successful action was, repeating it at any later time succeeds and appends nothing.\<close>
theorem retry_appends_nothing:
  assumes "store_ok db" and "act env w db message a now = Inr db'"
  shows "act env w db' message a later = Inr db'"
  by (rule settled_returns [OF act_settles [OF assms]])

text \<open>Progress. A receiver whose latest read-back is ready, contradicts nothing and was not failed by a verdict can
  accept an offered record that is not critical: the acceptance is appended and the log rebuilds as accepted by it.\<close>
theorem ready_receiver_accepts:
  assumes "store_ok db" and "logged env db message = Inr log" and "may_accept_now env w db log p now"
    and "ho_tier (lg_handoff log) \<noteq> Critical"
    and "find_row re_author (pr_id p) (lg_latest_rb log) = Some e"
    and "rb_disposition (re_readback e) = Ready" and "\<not> contradicted (re_readback e)"
    and "\<forall>v. lg_verdict log (re_digest e) = Some v \<longrightarrow> ve_outcome v \<noteq> Fail"
  shows "\<exists>db' log'. accept_action env w db message now = Inr db' \<and> logged env db' message = Inr log' \<and>
    lg_state log' = Some Is_accepted \<and> lg_receiver log' = Some (pr_id p)"
proof -
  define actor where "actor = \<lparr>pr_id = pr_id p, pr_kind = pr_kind p, pr_rest = []\<rparr>"
  define ev where "ev = built_event env w db log (Accepted []) actor now"
  have gate: "readback_gate (stamped env log ev) (locals_of env log ev None) (Some e) = None"
    using assms(4,6,7) by (simp add: readback_gate_def Let_def)
  have "acceptance_refusal (stamped env log ev) (locals_of env log ev None)
      (find_row re_author (pr_id p) (lg_latest_rb log)) = None"
    using assms(5,7,8) gate by (auto simp: acceptance_refusal_def split: option.splits)
  from accept_decides [OF assms(1-3) this [unfolded ev_def actor_def]]
  obtain db' where acted: "accept_action env w db message now = Inr db'" by simp
  have "lg_state log = Some Is_offered" "receiver_of log = Inr actor"
    using assms(3) by (simp_all add: may_accept_now_def receiver_of_def actor_def)
  with accept_lands [OF assms(1,2) _ acted] acted show ?thesis by (auto simp: actor_def)
qed

text \<open>Without a read-back there is no acceptance: for a record that requires one, accepting is refused with
  \<open>ahr_readback_required\<close>, whoever asks and whenever.\<close>
theorem unread_offer_refused:
  assumes "store_ok db" and "logged env db message = Inr log" and "may_accept_now env w db log p now"
    and "ho_tier (lg_handoff log) \<noteq> Minimal \<or> readback_required (lg_handoff log)"
    and "find_row re_author (pr_id p) (lg_latest_rb log) = None"
  shows "accept_action env w db message now = Inl (AdmissionError ''ahr_readback_required'')"
proof -
  define actor where "actor = \<lparr>pr_id = pr_id p, pr_kind = pr_kind p, pr_rest = []\<rparr>"
  define ev where "ev = built_event env w db log (Accepted []) actor now"
  have "acceptance_refusal (stamped env log ev) (locals_of env log ev None)
      (find_row re_author (pr_id p) (lg_latest_rb log)) =
    Some (''R-LC-11'', ''a read-back by the receiver must precede accepted'')"
    using assms(4,5) by (cases "ho_tier (lg_handoff log)") (auto simp: acceptance_refusal_def readback_gate_def)
  from accept_decides [OF assms(1-3) this [unfolded ev_def actor_def]] show ?thesis
    by (simp add: refusal_def starts_with_def)
qed

text \<open>A read-back file without a canonical form (a fractional number, a lone surrogate) escapes the action as the
  \<^verbatim>\<open>JcsError\<close> of \<open>digest\<close>: it is neither stored nor refused as an invalid record, as a report file would be.\<close>
theorem uncanonical_readback_escapes:
  assumes "logged env db message = Inr log" and "wd_load w path = Inr d" and "document_type d = Some ''readback''"
    and "jcs_size env (without_integrity d) = Inl problem"
  shows "read_back_action env w db message path now = Inl (JcsError problem)"
  using assms by (simp add: read_back_action_def load_record_def digest_of_def)

section \<open>The toy hand-off in the mailbox\<close>

definition toy_world :: ahr_world where
  "toy_world =
     \<lparr>wd_load = (\<lambda>path. Inr (Odd \<lparr>od_type = Some ''readback'', od_tier = None, od_by = (Some ''bob'', Some ''agent''),
        od_to_kind = None, od_ahr = True, od_handoff_id = ''h1'', od_tag = ''None None'',
        od_text = ''X-0 non-integer number (R-INT-3)''\<rparr>)),
      wd_parse = (\<lambda>s. Inl (StoreError s)), wd_hashed = (\<lambda>path. Inl (StoreError path)),
      wd_uuid = (\<lambda>n. replicate n CHR ''u'')\<rparr>"

definition toy_unread_log :: AhrLog where
  "toy_unread_log = (stamped toy_env (fresh_log toy_env toy_handoff) toy_offer)\<lparr>lg_state := Some Is_offered\<rparr>"

definition toy_unread_db :: comms_db where
  "toy_unread_db =
     \<lparr>ahr_events = [event_row toy_env (fresh_log toy_env toy_handoff) ''m1'' toy_offer (Some (Handoff toy_handoff))],
      admissions = [], groups = [], endpoints = [], milestones = [], refusal_counts = [], handoff_reports = []\<rparr>"

definition toy_db :: comms_db where
  "toy_db = grown toy_unread_db (event_row toy_env toy_unread_log ''m1'' toy_reading (Some (Readback toy_readback)))"

lemma toy_stores_ok: "store_ok toy_unread_db" "store_ok toy_db"
  by (simp_all add: store_ok_def toy_db_def toy_unread_db_def)

lemma toy_unread_logged: "logged toy_env toy_unread_db ''m1'' = Inr toy_unread_log"
  by (simp add: logged_def handoff_of_def toy_unread_db_def rebuild_def log_rows_def toy_offer_def start_def
      toy_valid [unfolded valid_handoff_def] replay_row_def stored_target_def ref_of_def
      toy_offered [unfolded toy_offer_def] toy_unread_log_def)

lemma toy_logged: "logged toy_env toy_db ''m1'' = Inr toy_read_log"
proof -
  have "rebuild toy_env toy_unread_db ''h1'' = Inr toy_unread_log"
    using toy_unread_logged by (simp add: logged_def handoff_of_def toy_unread_db_def toy_offer_def)
  moreover have "step toy_env toy_unread_log (Some (Event toy_reading)) (Some (Record (Readback toy_readback), ''sha256:r1'')) =
      Inr (toy_read_log, [])"
    using toy_read by (simp add: toy_unread_log_def)
  moreover have "stored_target toy_env toy_unread_db toy_reading (Some (Readback toy_readback)) =
      Inr (Some (Record (Readback toy_readback), ''sha256:r1''))"
    by (simp add: stored_target_def toy_reading_def ref_of_def)
  ultimately have "rebuild toy_env toy_db ''h1'' = Inr toy_read_log"
    unfolding toy_db_def by (intro rebuild_appended [OF toy_stores_ok(1)]) auto
  then show ?thesis by (simp add: logged_def handoff_of_def toy_db_def toy_unread_db_def toy_offer_def)
qed

lemma toy_iso [simp]: "iso toy_env n = replicate (nat n) CHR ''.''"
  by (simp add: toy_env_def)

lemma toy_may_accept: "may_accept_now toy_env toy_world toy_db toy_read_log bob 5"
  "may_accept_now toy_env toy_world toy_unread_db toy_unread_log bob 5"
  by (simp_all add: may_accept_now_def toy_read_log_def toy_unread_log_def toy_world_def toy_db_def toy_unread_db_def
      toy_event_valid log_expires_at_def fresh_log_def toy_offer_def)

lemma toy_acceptance_lands: "\<exists>db'. act toy_env toy_world toy_db ''m1'' Do_accept 5 = Inr db' \<and> db' \<noteq> toy_db"
proof -
  define actor where "actor = \<lparr>pr_id = pr_id bob, pr_kind = pr_kind bob, pr_rest = []\<rparr>"
  define ev where "ev = built_event toy_env toy_world toy_db toy_read_log (Accepted []) actor 5"
  have "acceptance_refusal (stamped toy_env toy_read_log ev) (locals_of toy_env toy_read_log ev None)
      (find_row re_author (pr_id bob) (lg_latest_rb toy_read_log)) = None"
    by (simp add: acceptance_refusal_def readback_gate_def toy_read_log_def contradicted_def Let_def)
  from accept_decides [OF toy_stores_ok(2) toy_logged toy_may_accept(1) this [unfolded ev_def actor_def]]
  show ?thesis using grown_neq by fastforce
qed

theorem every_action_replays_witness:
  "\<exists>db' row log'. act toy_env toy_world toy_db ''m1'' Do_accept 5 = Inr db' \<and> ahr_events db' = ahr_events toy_db @ [row] \<and>
     lifecycle_move toy_handoff (position_of toy_read_log) (ar_event_doc row) (position_of log') \<and>
     logged toy_env db' ''m1'' = Inr log' \<and> store_ok db'"
proof -
  obtain db' where db': "act toy_env toy_world toy_db ''m1'' Do_accept 5 = Inr db'" "db' \<noteq> toy_db"
    using toy_acceptance_lands by blast
  from every_action_replays [OF toy_stores_ok(2) db'(1)] db'(2) obtain log log' row where
    "logged toy_env toy_db ''m1'' = Inr log" "ahr_events db' = ahr_events toy_db @ [row]"
    "lifecycle_move (lg_handoff log) (position_of log) (ar_event_doc row) (position_of log')"
    "logged toy_env db' ''m1'' = Inr log'" "store_ok db'" by blast
  moreover have "lg_handoff toy_read_log = toy_handoff" by (simp add: toy_read_log_def)
  ultimately show ?thesis using db'(1) toy_logged by auto
qed

theorem retry_appends_nothing_witness:
  "\<exists>db'. act toy_env toy_world toy_db ''m1'' Do_accept 5 = Inr db' \<and> db' \<noteq> toy_db \<and>
     act toy_env toy_world db' ''m1'' Do_accept 50 = Inr db'"
  using toy_acceptance_lands retry_appends_nothing [OF toy_stores_ok(2)] by blast

theorem ready_receiver_accepts_witness:
  "\<exists>db' log'. accept_action toy_env toy_world toy_db ''m1'' 5 = Inr db' \<and> logged toy_env db' ''m1'' = Inr log' \<and>
     lg_state log' = Some Is_accepted \<and> lg_receiver log' = Some ''bob''"
  using ready_receiver_accepts [OF toy_stores_ok(2) toy_logged toy_may_accept(1)]
  by (simp add: toy_read_log_def contradicted_def)

theorem unread_offer_refused_witness:
  "accept_action toy_env toy_world toy_unread_db ''m1'' 5 = Inl (AdmissionError ''ahr_readback_required'')"
  by (rule unread_offer_refused [OF toy_stores_ok(1) toy_unread_logged toy_may_accept(2)])
    (simp_all add: toy_unread_log_def fresh_log_def)

theorem uncanonical_readback_escapes_witness:
  "read_back_action toy_env toy_world toy_db ''m1'' ''rb.json'' 5 = Inl (JcsError ''X-0 non-integer number (R-INT-3)'')"
  using uncanonical_readback_escapes [OF toy_logged, of toy_world "''rb.json''"]
  by (simp add: toy_world_def)

end
