(* ===== verification/Comms_Inbox.thy ===== *)
theory Comms_Inbox
  imports Comms_Paging Ahr_Mailbox
begin

text \<open>
  The inbox operations (\<^verbatim>\<open>src/trw_mcp/comms/_inbox_page.py\<close>), the hand-off view (\<^verbatim>\<open>_handoff.py\<close>) and the record a
  fetch carries (\<^verbatim>\<open>_ahr_view.py\<close>).

  \<^item> \<open>inbox_env\<close> collects what these functions take as given: the two environments of the mailbox, the existence of a
    path under the project root, and the length of a page as canonical JSON (its times are floats there).
  \<^item> The \<^verbatim>\<open>handoff\<close> argument is a Python object: nothing, something that is no dict, or a dict whose values are texts or not.
\<close>

record inbox_env =
  ib_comms :: comms_env
  ib_ahr :: ahr_env
  ib_world :: ahr_world
  ib_there :: "string \<Rightarrow> bool"

section \<open>Actions\<close>

datatype InboxAction =
  A_fetch | A_ack | A_status | A_accept | A_report | A_complete | A_read_back | A_answer | A_decline | A_offer_withdraw

fun InboxAction_value :: "InboxAction \<Rightarrow> string" where
  "InboxAction_value A_fetch = ''fetch''"
| "InboxAction_value A_ack = ''ack''"
| "InboxAction_value A_status = ''status''"
| "InboxAction_value A_accept = ''accept''"
| "InboxAction_value A_report = ''report''"
| "InboxAction_value A_complete = ''complete''"
| "InboxAction_value A_read_back = ''read_back''"
| "InboxAction_value A_answer = ''answer''"
| "InboxAction_value A_decline = ''decline''"
| "InboxAction_value A_offer_withdraw = ''offer_withdraw''"

definition AHR_ACTIONS :: "InboxAction list" where
  "AHR_ACTIONS = [A_read_back, A_answer, A_decline, A_offer_withdraw]"

definition HANDOFF_ACTIONS :: "InboxAction list" where
  "HANDOFF_ACTIONS = [A_accept, A_report, A_complete] @ AHR_ACTIONS"

definition RECEIVER_ACTIONS :: "InboxAction list" where
  "RECEIVER_ACTIONS = [A_fetch, A_ack, A_accept, A_report, A_read_back, A_decline]"

definition SENDER_ACTIONS :: "InboxAction list" where
  "SENDER_ACTIONS = [A_complete, A_answer, A_offer_withdraw]"

text \<open>A refusal, of whatever type the caller returns.\<close>

abbreviation refused :: "string \<Rightarrow> ahr_error + 'a" where
  "refused reason \<equiv> Inl (AdmissionError reason)"

section \<open>The hand-off view\<close>

text \<open>\<^verbatim>\<open>display_next_read\<close>: a pointer that is not valid has its unprintable characters escaped and is cut.\<close>

definition display_next_read :: "comms_env \<Rightarrow> string option \<Rightarrow> string option \<times> bool" where
  "display_next_read env pointer =
     (case pointer of
        None \<Rightarrow> (None, False)
      | Some p \<Rightarrow>
          if valid_next_read env p then (Some p, False)
          else (Some (take NEXT_READ_MAX_BYTES (concat (map (\<lambda>c. if valid_next_read env [c] then [c]
            else [CHR 0x5C, CHR ''u''] @ to_hex 4 (of_char c)) p))), True))"

record handoff_view =
  hv_message :: "int option"
  hv_receipt :: "int option"
  hv_acceptance :: "int option"
  hv_state :: string
  hv_reported :: "int option"
  hv_completed :: "int option"
  hv_owner :: "string option"
  hv_next_read :: "string option"
  hv_escaped :: bool
  hv_ahr :: "ahr_block option"

definition derive_handoff ::
    "inbox_env \<Rightarrow> admission \<Rightarrow> (string \<rightharpoonup> int) \<Rightarrow> string option \<Rightarrow> ahr_block option \<Rightarrow> handoff_view option" where
  "derive_handoff env row facts pointer ahr =
     (if ad_kind row \<noteq> ''request'' then None
      else let completed = facts ''completed'';
               (state, own) = (if completed \<noteq> None
                 then (if pointer_resolves (ib_there env) pointer then ''verified'' else ''unresolved'', None)
                 else (if facts ''reported'' \<noteq> None then ''reported'' else ''none'',
                   Some (if facts ''accepted'' \<noteq> None then ad_recipient row else ad_sender row)));
               (next_read, escaped) = display_next_read (ib_comms env) pointer
        in Some \<lparr>hv_message = facts ''admitted'', hv_receipt = facts ACKED, hv_acceptance = facts ''accepted'', hv_state = state,
             hv_reported = facts ''reported'', hv_completed = completed, hv_owner = own, hv_next_read = next_read,
             hv_escaped = escaped, hv_ahr = ahr\<rparr>)"

section \<open>Pages\<close>

datatype fetched_record = Whole document | Omitted string

text \<open>The record a carrier offers, while its stored bytes fit the group's body limit.\<close>

definition fetch_record :: "inbox_env \<Rightarrow> comms_db \<Rightarrow> string \<Rightarrow> fetched_record option" where
  "fetch_record env db message =
     (case find (\<lambda>r. ar_message r = message \<and> ar_seq r = 1) (ahr_events db) of
        None \<Rightarrow> None
      | Some r \<Rightarrow>
          (case (ar_record r, Option.bind (message_row db message) (\<lambda>a. group_of db (ad_group a))) of
             (Some d, Some g) \<Rightarrow>
               Some (if (case jcs_size (ib_ahr env) d of Inr n \<Rightarrow> gr_body_limit g < int n | Inl e \<Rightarrow> False)
                 then Omitted (ar_handoff_id r) else Whole d)
           | _ \<Rightarrow> None))"

record inbox_item =
  it_receipt :: receipt
  it_body :: "string option"
  it_record :: "fetched_record option"
  it_redelivered :: bool
  it_state :: "string option"
  it_milestones :: "(string \<times> int) list"
  it_handoff :: "handoff_view option"

definition inbox_scope :: "inbox_env \<Rightarrow> CallerBinding \<Rightarrow> InboxAction \<Rightarrow> string option \<Rightarrow> string" where
  "inbox_scope env b action incarnation =
     ce_sha256 (ib_comms env) (canonical_json (JArr
       [JInt 1, JStr (cb_group b), JStr (cb_member b), JStr (ce_resolve (ib_comms env) (cb_run b)), JStr (cb_session b),
        JStr (InboxAction_value action), (case incarnation of None \<Rightarrow> JNull | Some i \<Rightarrow> JStr i)]))"

definition inbox_cursor :: "string \<Rightarrow> int \<Rightarrow> string" where
  "inbox_cursor scope after = encode_cursor [JStr scope, JInt after]"

definition decode_after :: "string option \<Rightarrow> string \<Rightarrow> ahr_error + int" where
  "decode_after cursor scope =
     (case cursor of
        None \<Rightarrow> Inr 0
      | Some c \<Rightarrow>
          (case decode_cursor c 256 2 of
             Some [JStr s, JInt n] \<Rightarrow> if s = scope \<and> 1 \<le> n \<and> n \<le> MAX_COUNTER then Inr n else refused ''invalid_cursor''
           | _ \<Rightarrow> refused ''invalid_cursor''))"

definition read_rows :: "comms_db \<Rightarrow> CallerBinding \<Rightarrow> InboxAction \<Rightarrow> int \<Rightarrow> nat \<Rightarrow> admission list" where
  "read_rows db b action after limit =
     take (limit + 1) (sort_key ad_rowid (filter (\<lambda>a. ad_group a = cb_group b \<and> after < ad_rowid a \<and>
       (if action = A_fetch then ad_recipient a = cb_member b \<and> ad_state a = PENDING
        else ad_sender a = cb_member b \<or> ad_recipient a = cb_member b)) (admissions db)))"

definition facts_of :: "comms_db \<Rightarrow> string \<Rightarrow> (string \<times> int) list" where
  "facts_of db message = map (\<lambda>r. (ms_fact r, ms_at r)) (filter (\<lambda>r. ms_message r = message) (milestones db))"

definition project_row :: "inbox_env \<Rightarrow> comms_db \<Rightarrow> InboxAction \<Rightarrow> string option \<Rightarrow> admission \<Rightarrow> ahr_error + inbox_item" where
  "project_row env db action incarnation a =
     (if action = A_fetch
      then Inr \<lparr>it_receipt = receipt_of a, it_body = Some (ad_body a), it_record = fetch_record env db (ad_message a),
        it_redelivered = (1 < ad_delivery_count a + (if Some (ad_incarnation a) \<noteq> incarnation then 1 else 0)),
        it_state = None, it_milestones = [], it_handoff = None\<rparr>
      else bindE (view (ib_ahr env) db (ad_message a) (ad_group a)) (\<lambda>ahr.
        Inr \<lparr>it_receipt = receipt_of a, it_body = None, it_record = None, it_redelivered = False, it_state = Some (ad_state a),
          it_milestones = facts_of db (ad_message a),
          it_handoff = derive_handoff env a (map_of (facts_of db (ad_message a)))
            (map_option hr_next_read (report_of db (ad_message a))) ahr\<rparr>))"

definition page_entries :: "inbox_env \<Rightarrow> comms_db \<Rightarrow> InboxAction \<Rightarrow> string option \<Rightarrow> string \<Rightarrow> nat \<Rightarrow> admission list \<Rightarrow> inbox_item entries" where
  "page_entries env db action incarnation scope limit rows =
     map (\<lambda>(i, a). (project_row env db action incarnation a,
         if i + 1 < length rows then Some (inbox_cursor scope (ad_rowid a)) else None))
       (zip [0..<limit] (take limit rows))"

section \<open>The arguments\<close>

datatype handoff_argument = No_handoff | Not_a_dict | Keys "(string \<times> string option) list"

text \<open>The one key each use requires.\<close>

fun AHR_ARGUMENT :: "InboxAction \<Rightarrow> string option" where
  "AHR_ARGUMENT A_read_back = Some ''path''"
| "AHR_ARGUMENT A_answer = Some ''path''"
| "AHR_ARGUMENT A_decline = Some ''reason''"
| "AHR_ARGUMENT A_offer_withdraw = Some ''reason''"
| "AHR_ARGUMENT A_report = Some ''outcome''"
| "AHR_ARGUMENT _ = None"

definition OUTCOMES :: "(string \<times> report_outcome) list" where
  "OUTCOMES = [(''met'', Met), (''returned'', Returned), (''escalated'', Escalated)]"

definition ahr_argument :: "InboxAction \<Rightarrow> handoff_argument \<Rightarrow> ahr_error + string option" where
  "ahr_argument action handoff =
     (let refuse = refused ''invalid_inbox_arguments'' in
      case handoff of
        No_handoff \<Rightarrow> if action \<in> set AHR_ACTIONS then refuse else Inr None
      | Not_a_dict \<Rightarrow> refuse
      | Keys kvs \<Rightarrow>
          (case AHR_ARGUMENT action of
             None \<Rightarrow> refuse
           | Some key \<Rightarrow>
               if fst ` set kvs \<noteq> {key} then refuse
               else (case map_of kvs key of
                   Some (Some v) \<Rightarrow>
                     if strip is_str_space v = [] \<or> 2000 < length v then refuse
                     else if key = ''outcome'' \<and> v \<notin> fst ` set OUTCOMES then refuse else Inr (Some v)
                 | _ \<Rightarrow> refuse)))"

fun RESULT_KEY :: "InboxAction \<Rightarrow> string" where
  "RESULT_KEY A_accept = ''accepted_ids''"
| "RESULT_KEY A_report = ''reported_ids''"
| "RESULT_KEY A_complete = ''completed_ids''"
| "RESULT_KEY A_read_back = ''read_back_ids''"
| "RESULT_KEY A_answer = ''answered_ids''"
| "RESULT_KEY A_decline = ''declined_ids''"
| "RESULT_KEY A_offer_withdraw = ''withdrawn_ids''"
| "RESULT_KEY A_ack = ''acknowledged_ids''"
| "RESULT_KEY _ = []"

text \<open>\<^verbatim>\<open>fits\<close> on a receipt of ids.\<close>

definition ids_fit :: "string \<Rightarrow> string list \<Rightarrow> nat \<Rightarrow> bool" where
  "ids_fit key ids max_bytes \<longleftrightarrow>
     length (canonical_json (JObj [(''status'', JStr ''ok''), (''delivery'', JStr ''pull_only''), (key, JArr (map JStr ids))])) \<le> max_bytes"

text \<open>\<^verbatim>\<open>list(dict.fromkeys(ids))\<close>.\<close>

definition first_seen :: "'a list \<Rightarrow> 'a list" where
  "first_seen xs = rev (remdups (rev xs))"

section \<open>Hand-off steps\<close>

definition ahr_write ::
    "inbox_env \<Rightarrow> CallerBinding \<Rightarrow> InboxAction \<Rightarrow> string option \<Rightarrow> string option \<Rightarrow> int \<Rightarrow> string \<Rightarrow> comms_db \<Rightarrow> ahr_error + comms_db" where
  "ahr_write env b action value next_read now message db =
     (let A = ib_ahr env; W = ib_world env; text = (case value of None \<Rightarrow> ''None'' | Some v \<Rightarrow> v) in
      if action \<in> set AHR_ACTIONS
      then let as_sender = action \<in> {A_answer, A_offer_withdraw} in
        bindE (handoff_row b as_sender db message) (\<lambda>(row, facts).
          if \<not> as_sender \<and> ad_state row = EXPIRED then refused ''handoff_not_authorized''
          else if action = A_read_back then read_back_action A W db message text now
          else if action = A_answer then answer_action A W db message text now
          else if action = A_offer_withdraw then withdraw_action A W db message text now
          else bindE (decline_action A W db message text now) (\<lambda>db1.
            if ad_state row = PENDING then acknowledge_row now row db1 else Inr db1))
      else if handoff_of db message = None
      then (if value \<noteq> None then refused ''invalid_inbox_arguments'' else Inr db)
      else if action = A_accept then accept_action A W db message now
      else if action = A_report
      then (case Option.bind value (map_of OUTCOMES) of
          None \<Rightarrow> refused ''ahr_report_needs_outcome''
        | Some oc \<Rightarrow> report_action A W db (cb_group b) message (case next_read of None \<Rightarrow> ''None'' | Some p \<Rightarrow> p) oc now)
      else complete_action A W db message now)"

datatype inbox_result =
    Ids string "string list" "string list"
  | Page "inbox_item list" "string option"

definition handoff_action ::
    "inbox_env \<Rightarrow> CallerBinding \<Rightarrow> InboxAction \<Rightarrow> string list option \<Rightarrow> string option \<Rightarrow> int \<Rightarrow> nat \<Rightarrow> nat \<Rightarrow> handoff_argument \<Rightarrow>
     comms_db \<Rightarrow> ahr_error + inbox_result \<times> comms_db" where
  "handoff_action env b action ids next_read now limit max_bytes handoff db =
     (let given = (case ids of None \<Rightarrow> [] | Some xs \<Rightarrow> xs); normalized = first_seen given in
      if given = [] \<or> limit < length given then refused ''invalid_inbox_arguments''
      else if list_ex (\<lambda>m. \<not> is_hex 32 m) given then refused ''invalid_message_id''
      else bindE (ahr_argument action handoff) (\<lambda>value.
        if action \<in> set AHR_ACTIONS \<and> length normalized \<noteq> 1 then refused ''invalid_inbox_arguments''
        else bindE
          (if action = A_report
           then (case next_read of
               None \<Rightarrow> refused ''report_needs_next_read''
             | Some p \<Rightarrow> if length normalized \<noteq> 1 then refused ''report_takes_one_message_id''
                 else Inr (Some (strip is_str_space p)))
           else if next_read \<noteq> None then refused ''invalid_inbox_arguments'' else Inr None) (\<lambda>pointer.
        if \<not> ids_fit (RESULT_KEY action) normalized max_bytes then refused ''response_too_small''
        else bindE
          (if action = A_accept then bindE (accept b normalized now db) (\<lambda>db1. Inr ([], db1))
           else if action = A_report
           then bindE (report (ib_comms env) b (hd normalized) (the pointer) now db) (\<lambda>db1. Inr ([], db1))
           else if action = A_complete then complete (ib_there env) b normalized now db
           else Inr ([], db)) (\<lambda>(unresolved, db1).
        bindE (foldE (ahr_write env b action value pointer now) normalized db1) (\<lambda>db2.
          Inr (Ids (RESULT_KEY action) normalized unresolved, db2))))))"

section \<open>The inbox\<close>

definition inbox_action ::
    "inbox_env \<Rightarrow> (inbox_item page \<Rightarrow> nat) \<Rightarrow> CallerBinding \<Rightarrow> InboxAction \<Rightarrow> string list option \<Rightarrow> string option \<Rightarrow> string option \<Rightarrow>
     int \<Rightarrow> nat \<Rightarrow> nat \<Rightarrow> string option \<Rightarrow> handoff_argument \<Rightarrow> comms_db \<Rightarrow> ahr_error + inbox_result \<times> comms_db" where
  "inbox_action env size_of b action ids cursor incarnation now limit max_bytes next_read handoff db =
     (if cursor \<noteq> None \<and> action \<noteq> A_fetch \<and> action \<noteq> A_status then refused ''invalid_inbox_arguments''
      else if action \<in> set HANDOFF_ACTIONS then handoff_action env b action ids next_read now limit max_bytes handoff db
      else if next_read \<noteq> None \<or> handoff \<noteq> No_handoff then refused ''invalid_inbox_arguments''
      else if action = A_ack
      then let given = (case ids of None \<Rightarrow> [] | Some xs \<Rightarrow> xs); normalized = first_seen given in
        (if given = [] \<or> limit < length given then refused ''invalid_ack_ids''
         else if list_ex (\<lambda>m. \<not> is_hex 32 m) given then refused ''invalid_message_id''
         else bindE (validate_ack b normalized db) (\<lambda>rows.
           if \<not> ids_fit (RESULT_KEY action) normalized max_bytes then refused ''response_too_small''
           else bindE (acknowledge rows now db) (\<lambda>db1. Inr (Ids (RESULT_KEY action) normalized [], db1))))
      else if ids \<noteq> None then refused ''invalid_inbox_arguments''
      else let scope = inbox_scope env b action incarnation in
        bindE (decode_after cursor scope) (\<lambda>after.
          if action = A_fetch \<and> (case group_of db (cb_group b) of None \<Rightarrow> False | Some g \<Rightarrow> int max_bytes < 6 * gr_body_limit g + 4096)
          then refused ''response_body_policy_incompatible''
          else let rows = read_rows db b action after limit in
            bindE (pack size_of max_bytes AdmissionError (page_entries env db action incarnation scope limit rows)) (\<lambda>((items, next), n).
              Inr (Page items next,
                if action = A_fetch then prepare_fetch (take n rows) now (case incarnation of None \<Rightarrow> ''None'' | Some i \<Rightarrow> i) db else db))))"

end
