(* ===== verification/Comms_Inbox_Laws.thy ===== *)
theory Comms_Inbox_Laws
  imports Comms_Inbox
begin

text \<open>
  What the inbox operations keep. The hand-off steps write only \<open>ahr_events\<close> (\<open>ahr_only\<close>), which no check of the verifier
  reads; together with the laws of the messages every inbox action leaves a mailbox that verifies.
\<close>

section \<open>Writes of the hand-off log\<close>

definition ahr_only :: "comms_db \<Rightarrow> comms_db \<Rightarrow> bool" where
  "ahr_only db db' \<longleftrightarrow> db' = db\<lparr>ahr_events := ahr_events db'\<rparr>"

lemma ahr_only_refl [simp]: "ahr_only db db"
  by (simp add: ahr_only_def)

lemma ahr_only_trans: "ahr_only db1 db2 \<Longrightarrow> ahr_only db2 db3 \<Longrightarrow> ahr_only db1 db3"
  by (simp add: ahr_only_def) (metis comms_db.update_convs(1) comms_db.surjective)

lemma ahr_only_reads:
  assumes "ahr_only db db'"
  shows "admissions db' = admissions db" "groups db' = groups db" "endpoints db' = endpoints db" "milestones db' = milestones db"
    "refusal_counts db' = refusal_counts db" "handoff_reports db' = handoff_reports db"
    "group_of db' = group_of db" "message_row db' = message_row db" "endpoint_of db' = endpoint_of db"
    "fact_at db' = fact_at db" "report_of db' = report_of db" "view_of db' = view_of db"
proof -
  obtain es where db': "db' = db\<lparr>ahr_events := es\<rparr>" using assms by (auto simp: ahr_only_def)
  show "admissions db' = admissions db" "groups db' = groups db" "endpoints db' = endpoints db" "milestones db' = milestones db"
    "refusal_counts db' = refusal_counts db" "handoff_reports db' = handoff_reports db"
    "group_of db' = group_of db" "message_row db' = message_row db" "endpoint_of db' = endpoint_of db"
    "fact_at db' = fact_at db" "report_of db' = report_of db" "view_of db' = view_of db"
    by (simp_all add: db' group_of_def message_row_def endpoint_of_def fact_at_def report_of_def view_of_def fun_eq_iff)
qed

lemma ahr_only_mailbox:
  assumes only: "ahr_only db db'" and ok: "mailbox_ok env db"
  shows "mailbox_ok env db'"
proof -
  note reads = ahr_only_reads [OF only]
  have more: "charge_of db' = charge_of db" "sender_times db' = sender_times db"
    by (simp_all add: charge_of_def sender_times_def fun_eq_iff reads)
  have "keys_ok db' = keys_ok db" by (simp add: keys_ok_def reads)
  with mailbox_okD [OF ok] show ?thesis
    by (simp add: mailbox_ok_parts groups_ok_def endpoints_ok_def limits_ok_def no_orphans_def refusals_ok_def row_ok_def reads more)
qed

lemma ahr_only_within: "ahr_only db db' \<Longrightarrow> within env gid now db \<Longrightarrow> within env gid now db'"
  using ahr_only_mailbox by (auto simp: within_def ahr_only_reads)

lemma grown_only [simp]: "ahr_only db (grown db row)"
  by (simp add: ahr_only_def grown_def)

lemma append_only: "append_event env w db log message kind actor now target stored = Inr db' \<Longrightarrow> ahr_only db db'"
  by (auto dest!: append_event_Inr)

lemma foldE_only: "(\<And>x s s'. x \<in> set xs \<Longrightarrow> f x s = Inr s' \<Longrightarrow> ahr_only s s') \<Longrightarrow> foldE f xs s = Inr s' \<Longrightarrow> ahr_only s s'"
proof (induction xs arbitrary: s)
  case (Cons x xs)
  then obtain s1 where "f x s = Inr s1" "foldE f xs s1 = Inr s'" by auto
  with Cons show ?case by (meson ahr_only_trans list.set_intros)
qed simp

lemma actions_only:
  "read_back_action A W db message path now = Inr db' \<Longrightarrow> ahr_only db db'"
  "accept_action A W db message now = Inr db' \<Longrightarrow> ahr_only db db'"
  "decline_action A W db message reason now = Inr db' \<Longrightarrow> ahr_only db db'"
  "withdraw_action A W db message reason now = Inr db' \<Longrightarrow> ahr_only db db'"
  "answer_action A W db message path now = Inr db' \<Longrightarrow> ahr_only db db'"
  "complete_action A W db message now = Inr db' \<Longrightarrow> ahr_only db db'"
  by (auto simp: read_back_action_def accept_action_def decline_action_def withdraw_action_def answer_action_def complete_action_def Let_def
      split: if_splits dest: append_only)

lemma report_only: "report_action A W db gid message next_read oc now = Inr db' \<Longrightarrow> ahr_only db db'"
  by (auto simp: report_action_def Let_def split: if_splits option.splits sum.splits prod.splits dest: append_only)

lemma supersede_only: "supersede env w db log h d now = Inr db' \<Longrightarrow> ahr_only db db'"
  by (auto simp: supersede_def Let_def split: if_splits dest: append_only)

lemma offer_only: "offer env w db gid message h now = Inr db' \<Longrightarrow> ahr_only db db'"
proof -
  assume offered: "offer env w db gid message h now = Inr db'"
  have listed: "ahr_only s s'" if "supersede_listed env w gid h now entry s = Inr s'" for entry s s'
    using that by (auto simp: supersede_listed_def split: option.splits dest: supersede_only)
  show ?thesis
  proof (cases "first_row db (ho_id h)")
    case None
    with offered obtain db1 log errs where "foldE (supersede_listed env w gid h now) (ho_supersedes h) db = Inr db1"
        "append_event env w db1 log message Offered (sender_of log) now None (Some (Handoff h)) = Inr db'"
      by (auto simp: offer_def split: if_splits option.splits)
    moreover from this(1) have "ahr_only db db1" by (rule foldE_only [rotated]) (rule listed)
    ultimately show ?thesis using append_only ahr_only_trans by blast
  next
    case (Some r)
    with offered show ?thesis by (auto simp: offer_def split: if_splits)
  qed
qed

lemma sweep_only: "sweep_expired env w db gid now = Inr db' \<Longrightarrow> ahr_only db db'"
proof -
  have "ahr_only s s'" if "expire_offer env w now r s = Inr s'" for r s s'
    using that by (auto simp: expire_offer_def split: if_splits option.splits dest: append_only)
  then show "sweep_expired env w db gid now = Inr db' \<Longrightarrow> ahr_only db db'" unfolding sweep_expired_def by (rule foldE_only)
qed

section \<open>Every inbox action leaves a mailbox that verifies\<close>

lemma acknowledge_row_keeps:
  assumes "within env (cb_group b) now db" "handoff_row b False db0 m = Inr (a, facts)" "view_of db = view_of db0"
    and "ad_state a = PENDING" "acknowledge_row now a db = Inr db'"
  shows "within env (cb_group b) now db'"
proof -
  have "message_row db m = Some a" "ad_message a = m" "ad_group a = cb_group b"
    using assms(2) fun_cong [OF assms(3), of m] by (auto simp: handoff_row_Inr handoff_party_def view_of_def)
  then have "is_held_here () (cb_group b) a (view_of db (ad_message a))" using assms(4) by (simp add: is_held_here_def view_of_def)
  from acking.keeps [OF assms(1) this] assms(5) show ?thesis by auto
qed

lemma ahr_write_keeps:
  assumes state: "within env' (cb_group b) now db" and wrote: "ahr_write env b action value next_read now m db = Inr db'"
  shows "within env' (cb_group b) now db'"
proof (cases "action \<in> set AHR_ACTIONS")
  case True
  define as_sender where "as_sender = (action \<in> {A_answer, A_offer_withdraw})"
  define arg where "arg = (case value of None \<Rightarrow> ''None'' | Some v \<Rightarrow> v)"
  obtain a facts where row: "handoff_row b as_sender db m = Inr (a, facts)"
    using wrote True by (auto simp: ahr_write_def Let_def as_sender_def)
  note steps = wrote True row [unfolded as_sender_def] arg_def [symmetric]
  show ?thesis
  proof (cases "action = A_decline")
    case True
    then obtain db1 where db1: "decline_action (ib_ahr env) (ib_world env) db m arg now = Inr db1"
        "(if ad_state a = PENDING then acknowledge_row now a db1 else Inr db1) = Inr db'"
      using steps by (auto simp: ahr_write_def Let_def split: if_splits)
    then have "ahr_only db db1" by (blast dest: actions_only)
    then have "within env' (cb_group b) now db1" "view_of db1 = view_of db"
      using ahr_only_within [OF _ state] ahr_only_reads(12) by blast+
    then show ?thesis using db1(2) acknowledge_row_keeps row True by (auto simp: as_sender_def split: if_splits)
  next
    case False
    then have "ahr_only db db'"
      using steps by (auto simp: ahr_write_def Let_def AHR_ACTIONS_def split: if_splits dest: actions_only)
    then show ?thesis using state by (rule ahr_only_within)
  qed
next
  case False
  then have "ahr_only db db'"
    using wrote by (auto simp: ahr_write_def Let_def split: if_splits option.splits dest: actions_only report_only)
  then show ?thesis using state by (rule ahr_only_within)
qed

lemma first_seen [simp]: "distinct (first_seen xs)" "set (first_seen xs) = set xs"
  by (simp_all add: first_seen_def)

lemma handoff_action_keeps:
  assumes state: "within (ib_comms env) (cb_group b) now db"
    and done_it: "handoff_action env b action ids next_read now limit max_bytes handoff db = Inr (r, db')"
  shows "within (ib_comms env) (cb_group b) now db'"
proof -
  let ?ok = "within (ib_comms env) (cb_group b) now"
  have first: "accept b (first_seen ms) now db = Inr s \<Longrightarrow> ?ok s" "report (ib_comms env) b m p now db = Inr s \<Longrightarrow> ?ok s"
    "complete (ib_there env) b (first_seen ms) now db = Inr (u, s) \<Longrightarrow> ?ok s" for s m p u ms
    using accept_laws(2) [OF state first_seen(1)] report_laws(2) [OF state] complete_laws(2) [OF state first_seen(1)] by blast+
  have after: "?ok s'" if "foldE (ahr_write env b action v p now) (first_seen ms) s = Inr s'" "?ok s" for v p s s' ms
    using foldE_invariant [where I = ?ok, OF that] ahr_write_keeps by blast
  show ?thesis
    using done_it state
    by (auto simp: handoff_action_def Let_def split: if_splits option.splits intro: after first)
qed

lemma read_rows_fetch:
  assumes "within env (cb_group b) now db"
  shows "distinct (map ad_message (take n (read_rows db b A_fetch after limit)))"
    "\<forall>a \<in> set (take n (read_rows db b A_fetch after limit)). a \<in> set (admissions db) \<and> ad_group a = cb_group b \<and>
       ad_recipient a = cb_member b \<and> ad_state a = PENDING"
proof -
  have sorted: "distinct (map ad_message (sort_key ad_rowid (filter P (admissions db))))" for P
  proof -
    show ?thesis using distinct_messages_filter [OF assms, of P] by (simp add: distinct_map)
  qed
  then show "distinct (map ad_message (take n (read_rows db b A_fetch after limit)))"
    by (simp add: read_rows_def take_map [symmetric])
  show "\<forall>a \<in> set (take n (read_rows db b A_fetch after limit)). a \<in> set (admissions db) \<and> ad_group a = cb_group b \<and>
       ad_recipient a = cb_member b \<and> ad_state a = PENDING"
    by (auto simp: read_rows_def dest!: in_set_takeD)
qed

text \<open>What a fetch needs: the receiver's incarnation and room in the counters.\<close>

definition may_fetch :: "InboxAction \<Rightarrow> string option \<Rightarrow> comms_db \<Rightarrow> bool" where
  "may_fetch action incarnation db \<longleftrightarrow>
     (action = A_fetch \<longrightarrow> (\<exists>i. incarnation = Some i \<and> is_hex 32 i) \<and> (\<forall>a \<in> set (admissions db). ad_delivery_count a < MAX_COUNTER))"

lemma inbox_action_keeps:
  assumes state: "within (ib_comms env) (cb_group b) now db" and fetch: "may_fetch action incarnation db"
    and done_it: "inbox_action env size_of b action ids cursor incarnation now limit max_bytes next_read handoff db = Inr (r, db')"
  shows "within (ib_comms env) (cb_group b) now db'"
proof -
  have no_cursor: "\<not> (cursor \<noteq> None \<and> action \<noteq> A_fetch \<and> action \<noteq> A_status)"
  proof
    assume "cursor \<noteq> None \<and> action \<noteq> A_fetch \<and> action \<noteq> A_status"
    with done_it show False unfolding inbox_action_def by (simp only: if_True) simp
  qed
  show ?thesis
  proof (cases "action \<in> set HANDOFF_ACTIONS")
    case True
    with no_cursor done_it show ?thesis using handoff_action_keeps [OF state] by (auto simp: inbox_action_def)
  next
    case plain: False
    show ?thesis
    proof (cases "action = A_ack")
      case True
      define given where "given = first_seen (case ids of None \<Rightarrow> [] | Some xs \<Rightarrow> xs)"
      obtain rows where "validate_ack b given db = Inr rows" "acknowledge rows now db = Inr db'"
        using done_it plain True by (auto simp: inbox_action_def Let_def given_def split: if_splits)
      with acknowledge_laws [OF state, of given rows] show ?thesis by (auto simp: given_def)
    next
      case False
      then have fields: "next_read = None" "handoff = No_handoff" "ids = None"
        using done_it plain no_cursor by (auto simp: inbox_action_def split: if_splits)
      then obtain after page n where packed: "pack size_of max_bytes AdmissionError (page_entries env db action incarnation
          (inbox_scope env b action incarnation) limit (read_rows db b action after limit)) = Inr (page, n)"
        and db': "db' = (if action = A_fetch then prepare_fetch (take n (read_rows db b action after limit)) now
          (case incarnation of None \<Rightarrow> ''None'' | Some i \<Rightarrow> i) db else db)"
        using done_it plain no_cursor False by (auto simp: inbox_action_def Let_def split: if_splits)
      show ?thesis
      proof (cases "action = A_fetch")
        case True
        with fetch obtain i where i: "incarnation = Some i" "is_hex 32 i" "\<forall>a \<in> set (admissions db). ad_delivery_count a < MAX_COUNTER"
          by (auto simp: may_fetch_def)
        with prepare_fetch_exact [OF state i(2) read_rows_fetch(1) [OF state]] read_rows_fetch(2) [OF state] True
        show ?thesis unfolding db' by simp
      next
        case False
        then show ?thesis using state db' by simp
      qed
    qed
  qed
qed

end
