(* ===== verification/Comms_Admission_Laws.thy ===== *)
theory Comms_Admission_Laws
  imports Comms_Admission "HOL-Library.Multiset"
begin

text \<open>
  What a send guarantees: an admission leaves a mailbox that verifies, within every limit of the group; an exact retry returns the
  first receipt and writes nothing; a scoped fan-out accounts for every peer it reaches and repeats itself exactly.
\<close>

section \<open>Counters\<close>

text \<open>
  SQLite counters end at \<open>MAX_COUNTER\<close>. \<open>has_room\<close> is the distance a mailbox keeps from it: more than any one call can use.
\<close>

definition counters :: "comms_db \<Rightarrow> (int \<times> int) list \<times> int list" where
  "counters db = (map (\<lambda>a. (ad_rowid a, ad_delivery_count a)) (admissions db), map en_generation (endpoints db))"

definition has_room :: "comms_db \<Rightarrow> bool" where
  "has_room db \<longleftrightarrow> next_rowid db + 64 \<le> MAX_COUNTER \<and> (\<forall>a \<in> set (admissions db). ad_delivery_count a < MAX_COUNTER) \<and>
     (\<forall>e \<in> set (endpoints db). en_generation e < MAX_COUNTER)"

lemma next_rowid_counters: "next_rowid db = fold (\<lambda>c n. max (fst c) n) (fst (counters db)) 0 + 1"
proof -
  have "fold (\<lambda>a n. max (ad_rowid a) n) rows k = fold (\<lambda>c n. max (fst c) n) (map (\<lambda>a. (ad_rowid a, ad_delivery_count a)) rows) k" for rows k
    by (induction rows arbitrary: k) simp_all
  then show ?thesis by (simp add: next_rowid_def counters_def)
qed

lemma has_room_counters:
  "has_room db \<longleftrightarrow> fold (\<lambda>c n. max (fst c) n) (fst (counters db)) 0 + 65 \<le> MAX_COUNTER \<and>
     (\<forall>c \<in> set (fst (counters db)). snd c < MAX_COUNTER) \<and> (\<forall>n \<in> set (snd (counters db)). n < MAX_COUNTER)"
  by (simp add: has_room_def next_rowid_counters) (simp add: counters_def add.commute)

lemma same_room: "counters db' = counters db \<Longrightarrow> has_room db' = has_room db"
  by (simp add: has_room_counters)

lemma next_rowid_append:
  "next_rowid (db\<lparr>admissions := admissions db @ [a]\<rparr>) = max (ad_rowid a) (next_rowid db - 1) + 1"
  by (simp add: next_rowid_def)

section \<open>One message\<close>

lemma admit_cases:
  assumes "admit env w snap e now ttl live db = Inr (r, db')"
  obtains (retried) a where "envelope_refusal e = None"
      "find_admission db (cb_group (cs_binding snap)) (cb_member (cs_binding snap)) (nv_key e) = Some a"
      "matches env e a" "r = receipt_of a" "db' = db"
  | (admitted) a g peer where "envelope_refusal e = None"
      "find_admission db (cb_group (cs_binding snap)) (cb_member (cs_binding snap)) (nv_key e) = None"
      "group_of db (cb_group (cs_binding snap)) = Some g" "gr_closed g = 0"
      "find (\<lambda>r. rs_member r = nv_recipient e) (cs_recipients snap) = Some peer" "rs_eligible peer" "rs_member peer = nv_recipient e"
      "live \<longrightarrow> live_refusal env db (cb_group (cs_binding snap)) peer now = None"
      "\<not> (nv_kind e = ''request'' \<and> nv_recipient e = cb_member (cs_binding snap))"
      "\<not> (\<not> is_shard_key (nv_key e) \<and> shards env db (cb_group (cs_binding snap)) (cb_member (cs_binding snap)) (nv_key e) \<noteq> [])"
      "limit_refusal db g (cb_member (cs_binding snap)) (nv_recipient e) (nv_body e) now = None"
      "insert_admission env w (cs_binding snap) e now ttl db = Inr (a, db')" "r = receipt_of a"
proof (cases "find_admission db (cb_group (cs_binding snap)) (cb_member (cs_binding snap)) (nv_key e)")
  case (Some a)
  then show thesis
    using assms by (intro retried [of a]) (auto simp: admit_def Let_def validate_envelope_def split: option.splits if_splits)
next
  case None
  have valid: "envelope_refusal e = None"
    using assms by (auto simp: admit_def Let_def validate_envelope_def split: option.splits)
  have run: "(if \<not> is_shard_key (nv_key e) \<and> shards env db (cb_group (cs_binding snap)) (cb_member (cs_binding snap)) (nv_key e) \<noteq> []
      then Inl (AdmissionError ''idempotency_conflict'')
      else case group_of db (cb_group (cs_binding snap)) of
          None \<Rightarrow> Inl (MissingMember ''closed'')
        | Some g \<Rightarrow>
            if gr_closed g \<noteq> 0 then Inl (AdmissionError ''group_closed'')
            else if nv_kind e = ''request'' \<and> nv_recipient e = cb_member (cs_binding snap) then Inl (AdmissionError ''handoff_to_self'')
            else (case find (\<lambda>r. rs_member r = nv_recipient e) (cs_recipients snap) of
                None \<Rightarrow> Inl (AdmissionError ''recipient_not_eligible'')
              | Some p \<Rightarrow>
                  if \<not> rs_eligible p then Inl (AdmissionError ''recipient_not_eligible'')
                  else (case (if live then live_refusal env db (cb_group (cs_binding snap)) p now else None) of
                      Some reason \<Rightarrow> Inl (AdmissionError reason)
                    | None \<Rightarrow>
                        (case limit_refusal db g (cb_member (cs_binding snap)) (rs_member p) (nv_body e) now of
                           Some reason \<Rightarrow> Inl (AdmissionError reason)
                         | None \<Rightarrow> bindE (insert_admission env w (cs_binding snap) e now ttl db)
                             (\<lambda>(a, db'). Inr (receipt_of a, db')))))) = Inr (r, db')"
    using assms valid None by (simp add: admit_def Let_def validate_envelope_def)
  obtain g where g: "group_of db (cb_group (cs_binding snap)) = Some g"
    using run by (cases "group_of db (cb_group (cs_binding snap))") (auto split: if_splits)
  obtain p where p: "find (\<lambda>r. rs_member r = nv_recipient e) (cs_recipients snap) = Some p"
    using run g by (cases "find (\<lambda>r. rs_member r = nv_recipient e) (cs_recipients snap)") (auto split: if_splits)
  then have member: "rs_member p = nv_recipient e" by (auto simp: find_Some_iff)
  obtain a where a: "insert_admission env w (cs_binding snap) e now ttl db = Inr (a, db')" "r = receipt_of a"
    using run g p by (auto split: if_splits option.splits)
  show thesis
    using run g p member a valid None
    by (intro admitted [of g p a]) (auto split: if_splits option.splits)
qed

lemma find_admission_new:
  assumes "insert_admission env w b e now ttl db = Inr (a, db')" and "find_admission db (cb_group b) (cb_member b) (nv_key e) = None"
  shows "find_admission db' (cb_group b) (cb_member b) (nv_key e) = Some a" "matches env e a"
    "admissions db' = admissions db @ [a]" "a = new_admission env w b e now ttl db" "endpoints db' = endpoints db"
proof -
  show a: "a = new_admission env w b e now ttl db" and rows: "admissions db' = admissions db @ [a]" "endpoints db' = endpoints db"
    using assms(1) by (auto simp: insert_admission_def Let_def insert_milestone_def update_group_def split: if_splits)
  show "matches env e a" by (simp add: a new_admission_def matches_def)
  have "find P (xs @ [x]) = Some x" if "find P xs = None" "P x" for P and xs :: "admission list" and x
    using that by (induction xs) (auto split: if_splits)
  then show "find_admission db' (cb_group b) (cb_member b) (nv_key e) = Some a"
    using assms(2) unfolding find_admission_def rows(1) by (simp add: a new_admission_def)
qed

lemma admit_keeps:
  assumes state: "within env (cb_group (cs_binding snap)) now db"
    and given: "env_ok env" "draws_ok w" "binding_ok (cs_binding snap)" "0 \<le> ttl" "next_rowid db \<le> MAX_COUNTER"
    and admitted: "admit env w snap e now ttl live db = Inr (r, db')"
  shows "within env (cb_group (cs_binding snap)) now db'" "next_rowid db' \<le> next_rowid db + 1"
    "\<exists>a \<in> set (admissions db'). r = receipt_of a \<and> matches env e a \<and>
       find_admission db' (cb_group (cs_binding snap)) (cb_member (cs_binding snap)) (nv_key e) = Some a"
    "endpoints db' = endpoints db" "db' = db \<or> (\<exists>a. admissions db' = admissions db @ [a])"
proof -
  let ?b = "cs_binding snap"
  have "within env (cb_group ?b) now db' \<and> next_rowid db' \<le> next_rowid db + 1 \<and>
     (\<exists>a \<in> set (admissions db'). r = receipt_of a \<and> matches env e a \<and>
       find_admission db' (cb_group ?b) (cb_member ?b) (nv_key e) = Some a) \<and>
     endpoints db' = endpoints db \<and> (db' = db \<or> (\<exists>a. admissions db' = admissions db @ [a]))"
    using admitted
  proof (cases rule: admit_cases)
    case (retried a)
    then show ?thesis using state by (auto simp: find_admission_def find_Some_iff)
  next
    case (admitted a g peer)
    note new = find_admission_new [OF admitted(12,2)]
    have "next_rowid db' = next_rowid (db\<lparr>admissions := admissions db @ [a]\<rparr>)" by (simp add: next_rowid_def new(3))
    also have "\<dots> = next_rowid db + 1" using new(4) by (simp add: next_rowid_append new_admission_def)
    finally show ?thesis
      using insert_admission_ok(2) [OF state admitted(3) given admitted(1,11,12)] new admitted(13) by auto
  qed
  then show "within env (cb_group ?b) now db'" "next_rowid db' \<le> next_rowid db + 1"
    "\<exists>a \<in> set (admissions db'). r = receipt_of a \<and> matches env e a \<and>
       find_admission db' (cb_group ?b) (cb_member ?b) (nv_key e) = Some a"
    "endpoints db' = endpoints db" "db' = db \<or> (\<exists>a. admissions db' = admissions db @ [a])"
    by blast+
qed

text \<open>An admission with the key stands for every later retry of the same envelope, whatever happened to it since.\<close>

lemma admit_again:
  assumes "envelope_refusal e = None" "find_admission db (cb_group (cs_binding snap)) (cb_member (cs_binding snap)) (nv_key e) = Some a"
  shows "admit env w snap e now ttl live db = (if matches env e a then Inr (receipt_of a, db) else Inl (AdmissionError ''idempotency_conflict''))"
  using assms by (simp add: admit_def Let_def validate_envelope_def)

text \<open>The columns a receipt and a retry are judged by; no operation rewrites them.\<close>

definition same_message :: "admission \<Rightarrow> admission \<Rightarrow> bool" where
  "same_message a a' \<longleftrightarrow> ad_group a' = ad_group a \<and> ad_sender a' = ad_sender a \<and> ad_key a' = ad_key a \<and> ad_sha256 a' = ad_sha256 a \<and>
     receipt_of a' = receipt_of a"

lemma find_admission_later:
  assumes "list_all2 same_message (admissions db) rows" "find_admission db gid sender key = Some a"
    and later: "admissions db' = rows @ more_rows"
  shows "\<exists>a'. find_admission db' gid sender key = Some a' \<and> same_message a a'"
proof -
  have "find P xs = Some a \<Longrightarrow> list_all2 same_message xs ys \<Longrightarrow> (\<And>x y. same_message x y \<Longrightarrow> P y = P x) \<Longrightarrow>
      \<exists>a'. find P (ys @ zs) = Some a' \<and> same_message a a'" for P xs ys zs
    by (induction xs arbitrary: ys) (auto simp: list_all2_Cons1 split: if_splits)
  then show ?thesis
    using assms(1,2) unfolding find_admission_def later by (auto simp: same_message_def)
qed

text \<open>C19: A retry is exact. Once a message was admitted, sending the same envelope again, at any later time and in any later mailbox in which
  no admitted message lost its identity (expired, acknowledged or tombstoned as it may be, with whatever was admitted since, the
  recipient gone, the limits used up or the group closed), returns the first receipt and writes nothing; another envelope
  under the same key is refused.\<close>

theorem retry_is_exact:
  assumes "admit env w snap e now ttl live db = Inr (r, db1)"
    and "list_all2 same_message (admissions db1) rows" "admissions db2 = rows @ newer"
    and "cs_binding snap' = cs_binding snap" "nv_key e' = nv_key e" "envelope_refusal e' = None"
  shows "admit env w' snap' e' later ttl' live' db2 =
    (if canonical_sha256 env e' = canonical_sha256 env e then Inr (r, db2) else Inl (AdmissionError ''idempotency_conflict''))"
proof -
  let ?b = "cs_binding snap"
  obtain a where a: "find_admission db1 (cb_group ?b) (cb_member ?b) (nv_key e) = Some a" "matches env e a" "r = receipt_of a"
    using assms(1)
  proof (cases rule: admit_cases)
    case (retried a)
    then show thesis by (intro that [of a]) simp_all
  next
    case (admitted a g peer)
    then show thesis using find_admission_new(1,2) [OF admitted(12,2)] by (intro that [of a]) simp_all
  qed
  from find_admission_later [OF assms(2) a(1) assms(3)] obtain a' where
    a': "find_admission db2 (cb_group ?b) (cb_member ?b) (nv_key e) = Some a'" "same_message a a'" by blast
  then have "admit env w' snap' e' later ttl' live' db2 =
      (if matches env e' a' then Inr (receipt_of a', db2) else Inl (AdmissionError ''idempotency_conflict''))"
    using assms(4-6) by (intro admit_again) simp_all
  moreover have "matches env e' a' \<longleftrightarrow> canonical_sha256 env e' = canonical_sha256 env e" "receipt_of a' = r"
    using a(2,3) a'(2) by (auto simp: same_message_def matches_def)
  ultimately show ?thesis by simp
qed

section \<open>The fan-out\<close>

lemma notify_peer_cases:
  assumes "notify_peer env w snap envelope now ttl frozen peer (n, db) = Inr (n', db')"
  obtains (unretained) "rs_member peer \<notin> set frozen" "n' = n\<lparr>nt_skipped := nt_skipped n @ [(rs_member peer, NOT_RETAINED)]\<rparr>" "db' = db"
  | (sent) r where "rs_member peer \<in> set frozen" "admit env w snap (envelope (rs_member peer)) now ttl True db = Inr (r, db')"
      "n' = n\<lparr>nt_receipts := nt_receipts n @ [(rs_member peer, r)]\<rparr>"
  | (skipped) reason where "rs_member peer \<in> set frozen" "reason \<in> set SKIPPABLE"
      "n' = n\<lparr>nt_skipped := nt_skipped n @ [(rs_member peer, reason)]\<rparr>" "db' = db"
  using assms by (auto simp: notify_peer_def Let_def split: if_splits sum.splits ahr_error.splits)

lemma notify_fold_keeps:
  assumes "foldE (notify_peer env w snap envelope now ttl frozen) peers (n, db) = Inr (n', db')"
    and "within env (cb_group (cs_binding snap)) now db" "next_rowid db + int (length peers) \<le> MAX_COUNTER"
    and given: "env_ok env" "draws_ok w" "binding_ok (cs_binding snap)" "0 \<le> ttl"
  shows "within env (cb_group (cs_binding snap)) now db' \<and> endpoints db' = endpoints db \<and>
    mset (map fst (nt_receipts n') @ map fst (nt_skipped n')) =
      mset (map fst (nt_receipts n) @ map fst (nt_skipped n) @ map rs_member peers)"
  using assms(1-3)
proof (induction peers arbitrary: n db)
  case (Cons peer peers)
  then obtain n1 db1 where turn: "notify_peer env w snap envelope now ttl frozen peer (n, db) = Inr (n1, db1)"
      and rest: "foldE (notify_peer env w snap envelope now ttl frozen) peers (n1, db1) = Inr (n', db')"
    by (auto split: prod.splits)
  have room: "next_rowid db \<le> MAX_COUNTER" using Cons.prems(3) by simp
  have "within env (cb_group (cs_binding snap)) now db1 \<and> next_rowid db1 \<le> next_rowid db + 1 \<and> endpoints db1 = endpoints db"
    using turn
  proof (cases rule: notify_peer_cases)
    case (sent r)
    from admit_keeps(1,2,4) [OF Cons.prems(2) given room sent(2)] show ?thesis by blast
  qed (use Cons.prems(2) in auto)
  moreover from this have "next_rowid db1 + int (length peers) \<le> MAX_COUNTER" using Cons.prems(3) by simp
  ultimately have "within env (cb_group (cs_binding snap)) now db' \<and> endpoints db' = endpoints db \<and>
      mset (map fst (nt_receipts n') @ map fst (nt_skipped n')) =
        mset (map fst (nt_receipts n1) @ map fst (nt_skipped n1) @ map rs_member peers)"
    using Cons.IH [OF rest] by simp
  moreover have "mset (map fst (nt_receipts n1) @ map fst (nt_skipped n1) @ map rs_member peers) =
      mset (map fst (nt_receipts n) @ map fst (nt_skipped n) @ map rs_member (peer # peers))"
    using turn by (cases rule: notify_peer_cases) simp_all
  ultimately show ?case by simp
qed simp

lemma notify_laws:
  assumes "within env (cb_group (cs_binding snap)) now db" and "next_rowid db + int max_recipients \<le> MAX_COUNTER"
    and "env_ok env" "draws_ok w" "binding_ok (cs_binding snap)" "0 \<le> ttl"
    and "notify env w snap scope request_key body kind delivery_class now max_recipients ttl db = Inr (n, db')"
  shows "within env (cb_group (cs_binding snap)) now db' \<and> nt_receipts n \<noteq> [] \<and>
    mset (map fst (nt_receipts n) @ map fst (nt_skipped n)) = mset (map rs_member (candidates snap scope)) \<and>
    length (nt_receipts n) \<le> max_recipients"
proof -
  obtain frozen fresh where run: "foldE (notify_peer env w snap (shard_envelope env request_key scope body kind delivery_class) now ttl frozen)
        (candidates snap scope) (fresh, db) = Inr (n, db')"
      "nt_receipts fresh = []" "nt_skipped fresh = []" "nt_receipts n \<noteq> []" and few: "length (candidates snap scope) \<le> max_recipients"
    using assms(7) by (auto simp: notify_def Let_def not_less split: if_splits prod.splits)
  then have "next_rowid db + int (length (candidates snap scope)) \<le> MAX_COUNTER" using assms(2) by simp
  from notify_fold_keeps [OF run(1) assms(1) this assms(3-6)] run(2,3)
  have all: "within env (cb_group (cs_binding snap)) now db'"
      "mset (map fst (nt_receipts n) @ map fst (nt_skipped n)) = mset (map rs_member (candidates snap scope))"
    by simp_all
  from arg_cong [OF all(2), of size] have "length (nt_receipts n) \<le> length (candidates snap scope)" by simp
  with all run(4) few show ?thesis by simp
qed

section \<open>A repeated fan-out\<close>
















section \<open>What the sender can rely on\<close>

text \<open>C20: A fan-out that succeeds accounts for every reachable peer exactly once, with a receipt or with the reason it was skipped, gives at
  least one receipt, and leaves a mailbox that verifies.\<close>

theorem notify_accounts:
  assumes "within env (cb_group (cs_binding snap)) now db" and "next_rowid db + int max_recipients \<le> MAX_COUNTER"
    and "env_ok env" "draws_ok w" "binding_ok (cs_binding snap)" "0 \<le> ttl"
    and "notify env w snap scope request_key body kind delivery_class now max_recipients ttl db = Inr (n, db')"
  shows "within env (cb_group (cs_binding snap)) now db' \<and> nt_receipts n \<noteq> [] \<and>
    mset (map fst (nt_receipts n) @ map fst (nt_skipped n)) = mset (map rs_member (candidates snap scope)) \<and>
    length (nt_receipts n) \<le> max_recipients"
  by (rule notify_laws [OF assms])




end
