(* ===== verification/Comms_Facade.thy ===== *)
theory Comms_Facade
  imports Comms_Inbox_Laws Comms_Admission_Laws Comms_Endpoints
begin

text \<open>
  The comms facade (\<^verbatim>\<open>src/trw_mcp/comms/__init__.py\<close>, \<^verbatim>\<open>_send_op.py\<close>, \<^verbatim>\<open>_peers_page.py\<close>, \<^verbatim>\<open>_wait.py\<close> and the counted buckets of
  \<^verbatim>\<open>_refusals.py\<close>): one trusted operation over the mailbox and the memory of the serving process.

  \<^item> What a call takes from its surroundings is in \<open>call_world\<close>: the clock, the configuration, drawn identifiers, the two
    environments and the lengths of pages. The membership snapshot, read from the formation's files, is an argument, and so are the
    pause record, the state of a candidate's pickup and the two peer actions that do not touch the mailbox.
  \<^item> A call answers \<open>Disabled\<close>, \<open>Refused\<close> with a reason, \<open>Replied\<close>, or \<open>Raised\<close>: an exception no handler of the facade turns into a reply.
    The transaction of a raised call is rolled back.
  \<^item> \<open>recorded_action\<close> is the savepoint around an action: an expected refusal undoes the action's writes and is counted.
\<close>

section \<open>A call\<close>

text \<open>What a peers page shows; its durations are floats in the reply, here microseconds.\<close>

record peer_item =
  pi_member :: string
  pi_live :: bool
  pi_expires_in :: int
  pi_availability :: string
  pi_generation :: int
  pi_seen_ago :: int
  pi_wake :: string

record peers_page =
  pp_member :: string
  pp_expires_in :: "int option"
  pp_poll_seconds :: int
  pp_peers :: "peer_item list"
  pp_next :: "string option"

record call_world =
  cw_inbox :: inbox_env
  cw_config :: comms_config
  cw_isolated :: bool
  cw_wall :: int
  cw_draws :: comms_draws
  cw_item_bytes :: "inbox_item page \<Rightarrow> nat"
  cw_peer_bytes :: "peers_page \<Rightarrow> nat"

abbreviation cw_env :: "call_world \<Rightarrow> comms_env" where
  "cw_env c \<equiv> ib_comms (cw_inbox c)"

datatype 'a reply = Disabled | Refused string | Replied 'a | Raised ahr_error

section \<open>Counting refusals\<close>

definition persisted_as :: "(string \<times> string) list" where
  "persisted_as =
     [(''handoff_to_self'', ''recipient_not_eligible''), (''ahr_onward_not_offered'', ''ahr_lifecycle_refused''),
      (''ahr_report_needs_outcome'', ''invalid_inbox_arguments''), (''wait_disabled'', ''invalid_inbox_arguments''),
      (''wait_owner_changed'', ''invalid_inbox_arguments''), (''wait_requires_fresh_fetch'', ''invalid_inbox_arguments''),
      (''invalid_wait_seconds'', ''invalid_inbox_arguments''), (''unknown_message_id'', ''invalid_inbox_arguments''),
      (''invalid_message_id'', ''invalid_inbox_arguments''), (''report_needs_next_read'', ''invalid_inbox_arguments''),
      (''report_takes_one_message_id'', ''invalid_inbox_arguments''), (''invalid_message_body'', ''invalid_inbox_arguments'')]"

definition persisted_bucket :: "string \<Rightarrow> string" where
  "persisted_bucket reason = (case map_of persisted_as reason of None \<Rightarrow> reason | Some bucket \<Rightarrow> bucket)"

fun refusal_reason :: "ahr_error \<Rightarrow> string option" where
  "refusal_reason (AdmissionError reason) = Some reason"
| "refusal_reason (EndpointError reason) = Some reason"
| "refusal_reason (PageError reason) = Some reason"
| "refusal_reason _ = None"

text \<open>\<^verbatim>\<open>_recorded_action\<close>: \<open>db\<close> is the mailbox at the savepoint.\<close>

definition recorded_action :: "string \<Rightarrow> comms_db \<Rightarrow> ahr_error + 'a \<times> comms_db \<Rightarrow> ahr_error + (string + 'a) \<times> comms_db" where
  "recorded_action gid db body =
     (case body of
        Inr (x, db') \<Rightarrow> Inr (Inr x, db')
      | Inl e \<Rightarrow>
          (case refusal_reason e of
             None \<Rightarrow> Inl e
           | Some reason \<Rightarrow> bindE (count_refusal gid (persisted_bucket reason) db) (\<lambda>db'. Inr (Inl reason, db'))))"

section \<open>The operation around an action\<close>

definition terminal_members :: "CallerSnapshot \<Rightarrow> string list" where
  "terminal_members snap = map rs_member (filter rs_terminal (cs_recipients snap))"

text \<open>\<^verbatim>\<open>_operation\<close>, up to its \<^verbatim>\<open>yield\<close>: the time of the operation, whether the group is closed and the mailbox the action starts from.\<close>

definition prologue :: "call_world \<Rightarrow> CallerSnapshot \<Rightarrow> comms_db \<Rightarrow> ahr_error + (int \<times> bool) \<times> comms_db" where
  "prologue c snap db =
     (let env = cw_env c; b = cs_binding snap; gid = cb_group b in
      bindE (verify_schema env db) (\<lambda>_.
      bindE (effective_time db gid (cw_wall c)) (\<lambda>now.
      bindE (ensure_group env b now (policy_of_config (cw_config c)) db) (\<lambda>db1.
      let db2 = touch_group_time gid now db1; db3 = expire_due gid now (terminal_members snap) db2 in
      bindE (sweep_expired (ib_ahr (cw_inbox c)) (ib_world (cw_inbox c)) db3 gid now) (\<lambda>db4.
      let db5 = tombstone_due gid now (cc_retry_grace_seconds (cw_config c)) db4;
          db6 = (if cs_all_terminal snap then close_group gid db5 else db5)
      in case group_of db6 gid of
           None \<Rightarrow> Inl (MissingMember ''closed'')
         | Some g \<Rightarrow> Inr ((now, gr_closed g \<noteq> 0), db6))))))"

text \<open>A whole operation: the memory of the process keeps what the action learnt, the mailbox only what is committed.\<close>

definition operation ::
    "call_world \<Rightarrow> CallerSnapshot \<Rightarrow> (int \<Rightarrow> bool \<Rightarrow> comms_db \<Rightarrow> 's \<Rightarrow> (ahr_error + 'a \<times> comms_db) \<times> 's) \<Rightarrow> comms_db \<Rightarrow> 's \<Rightarrow>
     'a reply \<times> comms_db \<times> 's" where
  "operation c snap action db mem =
     (case prologue c snap db of
        Inl e \<Rightarrow> (Raised e, db, mem)
      | Inr ((now, closed), db0) \<Rightarrow>
          let (body, mem') = action now closed db0 mem in
          (case recorded_action (cb_group (cs_binding snap)) db0 body of
             Inl e \<Rightarrow> (Raised e, db, mem')
           | Inr (Inl reason, db') \<Rightarrow> (Refused reason, db', mem')
           | Inr (Inr x, db') \<Rightarrow> (Replied x, db', mem')))"

text \<open>The handlers of \<^verbatim>\<open>send_once\<close>, of the inbox, which also names endpoint errors, and of the peers, which also names page errors.\<close>

fun answered_send :: "'a reply \<Rightarrow> 'a reply" where
  "answered_send (Raised (IdentityError reason)) = Refused reason"
| "answered_send (Raised (StoreError reason)) = Refused reason"
| "answered_send r = r"

fun answered_inbox :: "'a reply \<Rightarrow> 'a reply" where
  "answered_inbox (Raised (EndpointError reason)) = Refused reason"
| "answered_inbox r = answered_send r"

fun answered_peer :: "'a reply \<Rightarrow> 'a reply" where
  "answered_peer (Raised (PageError reason)) = Refused reason"
| "answered_peer r = answered_inbox r"

text \<open>The checks of the caller before the mailbox is touched.\<close>

definition bound_caller :: "ahr_error + CallerSnapshot \<Rightarrow> ahr_error + CallerSnapshot" where
  "bound_caller resolved =
     bindE resolved (\<lambda>snap. if cs_all_terminal snap then Inr snap else bindE (assert_eligible snap) (\<lambda>_. Inr snap))"

section \<open>Sending\<close>

text \<open>What reading the pause record of the formation gives: nothing, an unreadable file, or an active pause and the orchestrator's run.\<close>

datatype pause_reading = Not_paused | Pause_unreadable | Paused string

definition send_refusal :: "comms_env \<Rightarrow> pause_reading \<Rightarrow> CallerSnapshot \<Rightarrow> string option \<Rightarrow> string \<Rightarrow> string option" where
  "send_refusal env pause snap recipient kind =
     (case pause of
        Not_paused \<Rightarrow> None
      | Pause_unreadable \<Rightarrow> Some ''formation_unavailable''
      | Paused orchestrator \<Rightarrow>
          if ce_resolve env (cb_run (cs_binding snap)) = orchestrator then None
          else if kind \<in> {''status'', ''reply''} \<and>
            list_ex (\<lambda>r. Some (rs_member r) = recipient \<and> map_option (ce_resolve env) (rs_run r) = Some orchestrator) (cs_recipients snap)
          then None else Some ''formation_paused'')"

text \<open>\<^verbatim>\<open>_offer_record\<close>.\<close>

definition offer_record ::
    "call_world \<Rightarrow> handoff_argument \<Rightarrow> string \<Rightarrow> string option \<Rightarrow> string option \<Rightarrow> string \<Rightarrow> string \<Rightarrow> ahr_error + handoff option" where
  "offer_record c handoff sender recipient scope kind body =
     (case handoff of
        No_handoff \<Rightarrow> Inr None
      | Not_a_dict \<Rightarrow> refused ''invalid_inbox_arguments''
      | Keys kvs \<Rightarrow>
          if fst ` set kvs \<noteq> {''path''} then refused ''invalid_inbox_arguments''
          else (case (scope, recipient) of
              (None, Some r) \<Rightarrow>
                if kind \<noteq> ''request'' then refused ''not_a_handoff''
                else if body \<noteq> [] then refused ''ahr_body_conflict''
                else (case map_of kvs ''path'' of
                    Some (Some p) \<Rightarrow> bindE (read_offer (ib_ahr (cw_inbox c)) (ib_world (cw_inbox c)) p sender r) (\<lambda>h. Inr (Some h))
                  | _ \<Rightarrow> refused ''invalid_inbox_arguments'')
            | _ \<Rightarrow> refused ''ahr_unaddressed_not_supported''))"

text \<open>\<^verbatim>\<open>pointer\<close>: the body that stands for an offered record.\<close>

definition offer_pointer :: "call_world \<Rightarrow> handoff \<Rightarrow> string" where
  "offer_pointer c h = ''ahr:1 '' @ ho_id h @ '' '' @ doc_digest (ib_ahr (cw_inbox c)) (Handoff h)"

datatype send_result =
    Sent receipt "string option" "string \<times> int \<times> string"
  | Notified notified

definition send_action ::
    "call_world \<Rightarrow> CallerSnapshot \<Rightarrow> string option \<Rightarrow> string \<Rightarrow> string \<Rightarrow> string \<Rightarrow> string \<Rightarrow> string option \<Rightarrow> handoff_argument \<Rightarrow>
     int \<Rightarrow> bool \<Rightarrow> comms_db \<Rightarrow> process_memory \<Rightarrow> (ahr_error + send_result \<times> comms_db) \<times> process_memory" where
  "send_action c snap recipient request_key body kind delivery_class scope handoff now closed db mem =
     (let env = cw_env c; b = cs_binding snap; cfg = cw_config c; ttl = cc_message_ttl_seconds cfg in
      if cs_all_terminal snap then (refused ''group_closed'', mem)
      else if (scope = None) = (recipient = None) then (refused ''ambiguous_addressing'', mem)
      else let (touched, mem') = touch env b now (cc_lease_ttl_seconds cfg) True db mem in
        (bindE touched (\<lambda>db1.
         bindE (offer_record c handoff (cb_member b) recipient scope kind body) (\<lambda>record.
         let text = (case record of None \<Rightarrow> body | Some h \<Rightarrow> offer_pointer c h) in
         case (scope, recipient) of
           (None, Some r) \<Rightarrow>
             bindE (admit env (cw_draws c) snap \<lparr>nv_recipient = r, nv_key = request_key, nv_body = text, nv_kind = kind,
                 nv_class = delivery_class, nv_derived = False\<rparr> now ttl False db1) (\<lambda>(receipt, db2).
             bindE (case record of None \<Rightarrow> Inr db2
                 | Some h \<Rightarrow> offer (ib_ahr (cw_inbox c)) (ib_world (cw_inbox c)) db2 (cb_group b) (rp_message receipt) h now) (\<lambda>db3.
             Inr (Sent receipt (map_option ad_state (message_row db3 (rp_message receipt)))
               (observe_recipient db3 (cb_group b) r now ttl), db3)))
         | _ \<Rightarrow>
             bindE (parse env (cc_scope_max_bytes cfg) (the scope)) (\<lambda>ground.
             bindE (notify env (cw_draws c) snap ground request_key text kind delivery_class now (cc_scope_max_recipients cfg) ttl db1)
               (\<lambda>(n, db2). Inr (Notified n, db2))))), mem'))"

definition send_once ::
    "call_world \<Rightarrow> ahr_error + CallerSnapshot \<Rightarrow> pause_reading \<Rightarrow> string option \<Rightarrow> string \<Rightarrow> string \<Rightarrow> string \<Rightarrow> string \<Rightarrow> string option \<Rightarrow>
     handoff_argument \<Rightarrow> comms_db \<Rightarrow> process_memory \<Rightarrow> send_result reply \<times> comms_db \<times> process_memory" where
  "send_once c resolved pause recipient request_key body kind delivery_class scope handoff db mem =
     (if \<not> cc_enabled (cw_config c) then (Disabled, db, mem)
      else if \<not> cw_isolated c then (Refused ''context_isolation_disabled'', db, mem)
      else (case bound_caller resolved of
          Inl e \<Rightarrow> (answered_send (Raised e), db, mem)
        | Inr snap \<Rightarrow>
            (case (if cs_all_terminal snap then None else send_refusal (cw_env c) pause snap recipient kind) of
               Some reason \<Rightarrow> (Refused reason, db, mem)
             | None \<Rightarrow>
                 let (r, db', mem') = operation c snap
                   (send_action c snap recipient request_key body kind delivery_class scope handoff) db mem
                 in (answered_send r, db', mem'))))"

section \<open>The inbox\<close>

type_synonym wait_owner = "string \<times> string \<times> string \<times> string \<times> string option"

definition validate_wait :: "call_world \<Rightarrow> int \<Rightarrow> InboxAction \<Rightarrow> string list option \<Rightarrow> string option \<Rightarrow> ahr_error + unit" where
  "validate_wait c wait action ids cursor =
     (let limit = cc_wait_max_seconds (cw_config c) in
      if 0 < wait \<and> limit = 0 then refused ''wait_disabled''
      else if wait < 0 \<or> limit < wait then refused ''invalid_wait_seconds''
      else if 0 < wait \<and> (action \<noteq> A_fetch \<or> ids \<noteq> None \<or> cursor \<noteq> None) then refused ''wait_requires_fresh_fetch''
      else Inr ())"

text \<open>Fencing: who may consume, and whether the endpoint is renewed.\<close>

definition fence ::
    "call_world \<Rightarrow> CallerBinding \<Rightarrow> InboxAction \<Rightarrow> bool \<Rightarrow> int \<Rightarrow> comms_db \<Rightarrow> process_memory \<Rightarrow>
     (ahr_error + string option \<times> comms_db) \<times> process_memory" where
  "fence c b action ordinary now db mem =
     (let ttl = cc_lease_ttl_seconds (cw_config c) in
      if action \<in> set RECEIVER_ACTIONS
      then let (held, mem') = receiver_incarnation (cw_env c) b now ttl ordinary db mem in
        (bindE held (\<lambda>(i, db1). Inr (Some i, db1)), mem')
      else let (touched, mem') = touch (cw_env c) b now ttl (action \<in> set SENDER_ACTIONS) db mem in
        (bindE touched (\<lambda>db1. Inr (None, db1)), mem'))"

definition inbox_turn ::
    "call_world \<Rightarrow> CallerSnapshot \<Rightarrow> InboxAction \<Rightarrow> string list option \<Rightarrow> string option \<Rightarrow> int \<Rightarrow> string option \<Rightarrow> handoff_argument \<Rightarrow>
     int \<Rightarrow> bool \<Rightarrow> comms_db \<Rightarrow> process_memory \<times> wait_owner option \<Rightarrow>
     (ahr_error + (inbox_result \<times> (int \<times> int) option) \<times> comms_db) \<times> process_memory \<times> wait_owner option" where
  "inbox_turn c snap action ids cursor wait next_read handoff now closed db state =
     (let (mem, owner) = state; b = cs_binding snap; cfg = cw_config c in
      if cs_all_terminal snap \<or> (closed \<and> action \<noteq> A_status) then (refused ''group_closed'', state)
      else let (fenced, mem') = fence c b action (owner = None) now db mem in
        (case bindE fenced (\<lambda>f. bindE (validate_wait c wait action ids cursor) (\<lambda>_. Inr f)) of
           Inl e \<Rightarrow> (Inl e, mem', owner)
         | Inr (incarnation, db1) \<Rightarrow>
             let mine = (cb_group b, cb_member b, ce_resolve (cw_env c) (cb_run b), cb_session b, incarnation);
                 owner' = (if 0 < wait then Some (case owner of None \<Rightarrow> mine | Some o1 \<Rightarrow> o1) else owner)
             in if 0 < wait \<and> owner' \<noteq> Some mine then (refused ''wait_owner_changed'', mem', owner')
                else (bindE (inbox_action (cw_inbox c) (cw_item_bytes c) b action ids cursor incarnation now
                        (cc_fetch_max_items cfg) (cc_response_max_bytes cfg) next_read handoff db1)
                      (\<lambda>(result, db2).
                        Inr ((result, if action = A_status then remaining_capacity db2 (cb_group b) else None), db2)),
                    mem', owner')))"

fun nothing_fetched :: "(inbox_result \<times> 'x) reply \<Rightarrow> bool" where
  "nothing_fetched (Replied (Page [] next, x)) = True"
| "nothing_fetched r = False"

definition inbox_attempt ::
    "call_world \<Rightarrow> ahr_error + CallerSnapshot \<Rightarrow> InboxAction \<Rightarrow> string list option \<Rightarrow> string option \<Rightarrow> int \<Rightarrow> string option \<Rightarrow>
     handoff_argument \<Rightarrow> comms_db \<Rightarrow> process_memory \<times> wait_owner option \<Rightarrow>
     ((inbox_result \<times> (int \<times> int) option) reply \<times> bool) \<times> comms_db \<times> process_memory \<times> wait_owner option" where
  "inbox_attempt c resolved action ids cursor wait next_read handoff db state =
     (if \<not> cc_enabled (cw_config c) then ((Disabled, False), db, state)
      else if \<not> cw_isolated c then ((Refused ''context_isolation_disabled'', False), db, state)
      else (case bound_caller resolved of
          Inl e \<Rightarrow> ((answered_inbox (Raised e), False), db, state)
        | Inr snap \<Rightarrow>
            let (r, db', state') = operation c snap (inbox_turn c snap action ids cursor wait next_read handoff) db state in
            ((answered_inbox r, 0 < wait \<and> nothing_fetched r), db', state')))"

section \<open>The bounded wait\<close>

text \<open>
  One turn of \<^verbatim>\<open>run_bounded_wait\<close>, as its surroundings give it: the clock before and after the sleep, the interval, the three
  cancellation checks, what others do to the state meanwhile, and the world the attempt runs in.
\<close>

record ('s, 'w) wait_turn =
  wt_before :: int
  wt_interval :: int
  wt_after :: int
  wt_cancelled :: "bool \<times> bool \<times> bool"
  wt_meanwhile :: "'s \<Rightarrow> 's"
  wt_world :: 'w

datatype 'r waited = Answer 'r | Cancelled

text \<open>\<open>None\<close>: the listed turns are over and the loop still waits.\<close>

fun bounded_wait ::
    "('w \<Rightarrow> 's \<Rightarrow> ('r \<times> bool) \<times> 's) \<Rightarrow> int \<Rightarrow> ('s, 'w) wait_turn list \<Rightarrow> 'r \<Rightarrow> 's \<Rightarrow> ('r waited \<times> 's) option" where
  "bounded_wait attempt deadline [] latest s = None"
| "bounded_wait attempt deadline (t # ts) latest s =
     (let (before, after, attempted) = wt_cancelled t in
      if before then Some (Cancelled, s)
      else if deadline - wt_before t \<le> 0 then Some (Answer latest, s)
      else if after then Some (Cancelled, s)
      else if deadline \<le> wt_after t then Some (Answer latest, s)
      else let ((r, retry), s') = attempt (wt_world t) (wt_meanwhile t s) in
        if attempted then Some (Cancelled, s')
        else if \<not> retry then Some (Answer r, s') else bounded_wait attempt deadline ts r s')"

text \<open>\<open>entry\<close> is the clock when the call came in, \<open>busy\<close> whether another wait of this process runs, \<open>cancelled\<close> the check after the first attempt.\<close>

definition inbox ::
    "call_world \<Rightarrow> ahr_error + CallerSnapshot \<Rightarrow> InboxAction \<Rightarrow> string list option \<Rightarrow> string option \<Rightarrow> int \<Rightarrow> string option \<Rightarrow>
     handoff_argument \<Rightarrow> int \<Rightarrow> bool \<Rightarrow> bool \<Rightarrow>
     (comms_db \<times> process_memory \<times> wait_owner option, call_world \<times> (ahr_error + CallerSnapshot)) wait_turn list \<Rightarrow>
     comms_db \<Rightarrow> process_memory \<Rightarrow>
     ((inbox_result \<times> (int \<times> int) option) reply waited \<times> comms_db \<times> process_memory \<times> wait_owner option) option" where
  "inbox c resolved action ids cursor wait next_read handoff entry busy cancelled turns db mem =
     (let ((r, retry), s) = inbox_attempt c resolved action ids cursor wait next_read handoff db (mem, None) in
      if 0 < wait \<and> cancelled then Some (Cancelled, s)
      else if \<not> retry then Some (Answer r, s)
      else if busy then Some (Answer (Refused ''wait_already_active''), s)
      else bounded_wait (\<lambda>(c', resolved') (db', state). inbox_attempt c' resolved' action ids cursor wait None No_handoff db' state)
        (entry + wait * SECOND) turns r s)"

section \<open>The peers\<close>

datatype PeerAction = P_enroll | P_list | P_heartbeat | P_announce | P_withdraw | P_discover | P_ack_pause

definition BOOTSTRAP_ACTIONS :: "PeerAction list" where
  "BOOTSTRAP_ACTIONS = [P_announce, P_withdraw, P_discover]"

definition encode_peer_cursor :: "CallerBinding \<Rightarrow> string \<Rightarrow> string" where
  "encode_peer_cursor b after = encode_cursor [JStr (cb_group b), JStr (cb_member b), JStr after]"

definition decode_peer_cursor :: "string option \<Rightarrow> CallerBinding \<Rightarrow> PeerAction \<Rightarrow> ahr_error + string" where
  "decode_peer_cursor cursor b action =
     (case cursor of
        None \<Rightarrow> Inr []
      | Some c \<Rightarrow>
          (case (if action = P_list then decode_cursor c 512 3 else None) of
             Some [JStr g, JStr m, JStr after] \<Rightarrow>
               if g = cb_group b \<and> m = cb_member b \<and> is_member_id after then Inr after else Inl (PageError ''invalid_cursor'')
           | _ \<Rightarrow> Inl (PageError ''invalid_cursor'')))"

definition peer_item_of :: "int \<Rightarrow> int \<Rightarrow> Endpoint \<Rightarrow> peer_item" where
  "peer_item_of now idle_seconds e =
     \<lparr>pi_member = ep_member e, pi_live = is_live e now, pi_expires_in = ep_lease e - now,
      pi_availability = availability_of (ep_lease e) (ep_seen e) now idle_seconds, pi_generation = ep_generation e,
      pi_seen_ago = now - ep_seen e, pi_wake = WAKE_UNOBSERVED\<rparr>"

definition pack_page :: "call_world \<Rightarrow> CallerBinding \<Rightarrow> Endpoint list \<Rightarrow> int \<Rightarrow> Endpoint option \<Rightarrow> ahr_error + peers_page" where
  "pack_page c b rows now own =
     (let cfg = cw_config c; limit = cc_fetch_max_items cfg;
          whole = (\<lambda>(items, next). \<lparr>pp_member = cb_member b, pp_expires_in = map_option (\<lambda>e. ep_lease e - now) own,
            pp_poll_seconds = cc_poll_interval_seconds cfg, pp_peers = items, pp_next = next\<rparr>);
          entries = map (\<lambda>(i, e). (Inr (peer_item_of now (cc_message_ttl_seconds cfg) e),
            if i + 1 < length rows then Some (encode_peer_cursor b (ep_member e)) else None)) (zip [0..<limit] (take limit rows))
      in bindE (pack (\<lambda>p. cw_peer_bytes c (whole p)) (cc_response_max_bytes cfg) PageError entries) (\<lambda>(page, n). Inr (whole page)))"

definition peers_turn ::
    "call_world \<Rightarrow> CallerSnapshot \<Rightarrow> PeerAction \<Rightarrow> string \<Rightarrow> int \<Rightarrow> bool \<Rightarrow> comms_db \<Rightarrow> process_memory \<Rightarrow>
     (ahr_error + (peers_page \<times> string option) \<times> comms_db) \<times> process_memory" where
  "peers_turn c snap action after now closed db mem =
     (let env = cw_env c; b = cs_binding snap; ttl = cc_lease_ttl_seconds (cw_config c) in
      if closed then (refused ''group_closed'', mem)
      else let (acted, mem') =
          (if action = P_enroll
           then let (r, m) = enroll env (dw_token (cw_draws c)) b now ttl db mem in
             (bindE r (\<lambda>((e, i), db1). Inr ((Some e, Some i), db1)), m)
           else if action = P_heartbeat
           then let (r, m) = heartbeat env b now ttl db mem in (bindE r (\<lambda>(e, db1). Inr ((Some e, None), db1)), m)
           else (Inr ((None, None), db), mem))
        in (bindE acted (\<lambda>((own, incarnation), db1).
              bindE (pack_page c b (list_endpoints db1 (cb_group b) (cc_fetch_max_items (cw_config c) + 1) after) now own)
                (\<lambda>page. Inr ((page, incarnation), db1))), mem'))"

text \<open>What advancing a candidate's pickup gives.\<close>

datatype pickup = No_pickup | Pickup_unreadable | Pickup_revoked | Pickup_retrying | Pickup_ready

text \<open>\<open>aside\<close> answers the actions that stay outside the mailbox: the bootstrap actions and the acknowledgement of a pause.\<close>

definition peers ::
    "call_world \<Rightarrow> ahr_error + CallerSnapshot \<Rightarrow> pickup \<Rightarrow> (PeerAction \<Rightarrow> peers_page reply) \<Rightarrow> PeerAction \<Rightarrow> string option \<Rightarrow> string option \<Rightarrow>
     handoff_argument \<Rightarrow> comms_db \<Rightarrow> process_memory \<Rightarrow> peers_page reply \<times> comms_db \<times> process_memory" where
  "peers c resolved picked aside requested cursor next_read handoff db mem =
     (if \<not> cc_enabled (cw_config c) then (Disabled, db, mem)
      else if \<not> cw_isolated c then (Refused ''context_isolation_disabled'', db, mem)
      else if next_read \<noteq> None \<or> handoff \<noteq> No_handoff then (Refused ''invalid_inbox_arguments'', db, mem)
      else if requested \<in> set BOOTSTRAP_ACTIONS then (aside requested, db, mem)
      else if picked = Pickup_unreadable then (Refused ''formation_unavailable'', db, mem)
      else if picked = Pickup_revoked then (Refused ''admission_revoked'', db, mem)
      else if picked = Pickup_retrying then (Refused ''storage_contended'', db, mem)
      else let action = (if picked = Pickup_ready then P_enroll else requested) in
        (case bound_caller resolved of
           Inl e \<Rightarrow> (answered_peer (Raised e), db, mem)
         | Inr snap \<Rightarrow>
             if action = P_ack_pause \<and> \<not> cs_all_terminal snap then (aside P_ack_pause, db, mem)
             else (case (if cs_all_terminal snap then Inr [] else decode_peer_cursor cursor (cs_binding snap) action) of
                 Inl e \<Rightarrow> (answered_peer (Raised e), db, mem)
               | Inr after \<Rightarrow>
                   (case operation c snap (peers_turn c snap action after) db mem of
                      (Replied (page, incarnation), db', mem') \<Rightarrow>
                        (Replied page, db', case incarnation of None \<Rightarrow> mem' | Some i \<Rightarrow> confirm_enrollment (cw_env c) (cs_binding snap) i mem')
                    | (Disabled, db', mem') \<Rightarrow> (Disabled, db', mem')
                    | (Refused reason, db', mem') \<Rightarrow> (Refused reason, db', mem')
                    | (Raised e, db', mem') \<Rightarrow> (answered_peer (Raised e), db', mem')))))"

end
