(* ===== verification/Comms_Facade_Laws.thy ===== *)
theory Comms_Facade_Laws
  imports Comms_Facade
begin

text \<open>
  What the facade promises. An action is anything that keeps the mailbox within its invariant (\<open>facade_action\<close>); around every such
  action the operation verifies, keeps the invariant whatever is answered, and undoes what a refusal leaves behind. The three actions of the
  facade are instances, so every mailbox that calls produce is one the verifier accepts.
\<close>

section \<open>The prologue\<close>

definition call_ok :: "call_world \<Rightarrow> CallerBinding \<Rightarrow> bool" where
  "call_ok c b \<longleftrightarrow> env_ok (cw_env c) \<and> draws_ok (cw_draws c) \<and> valid_config (cw_config c) \<and> binding_ok b"

lemma map_update_rows: "(\<And>r. f (g r) = f r) \<Longrightarrow> map f (update_rows key k g rows) = map f rows"
  by (simp add: update_rows_def)

lemma counters_write:
  "counters (update_message m f db) = counters db" if "\<And>a. ad_rowid (f a) = ad_rowid a" "\<And>a. ad_delivery_count (f a) = ad_delivery_count a"
  using that by (simp add: counters_def update_message_def map_update_rows)

lemma counters_same [simp]:
  "counters (add_milestone m f at db) = counters db" "counters (update_group gid g db) = counters db"
  "counters (expire_row now a db) = counters db" "counters (tombstone_due gid now grace db) = counters db"
  "counters (close_group gid db) = counters db" "counters (touch_group_time gid now db) = counters db"
proof -
  have added: "counters (add_milestone m f at d) = counters d" for m f at d by (simp add: counters_def add_milestone_def)
  have updated: "counters (update_group gid g d) = counters d" for g d by (simp add: counters_def update_group_def)
  show "counters (add_milestone m f at db) = counters db" "counters (update_group gid g db) = counters db" by (rule added, rule updated)
  show "counters (expire_row now a db) = counters db" by (simp add: expire_row_def counters_write added)
  show "counters (tombstone_due gid now grace db) = counters db" by (simp add: counters_def tombstone_due_def comp_def if_distrib cong: if_cong)
  show "counters (close_group gid db) = counters db" "counters (touch_group_time gid now db) = counters db"
    by (simp_all add: close_group_def touch_group_time_def updated)
qed

lemma counters_expire_where [simp]: "counters (expire_where gid now due db) = counters db"
proof -
  have "counters (fold (expire_row now) rows db) = counters db" for rows
    by (induction rows arbitrary: db) simp_all
  then show ?thesis by (simp add: expire_where_def)
qed

lemma counters_expire [simp]: "counters (expire_due gid now terminal db) = counters db"
proof -
  have "counters (fold (\<lambda>member. expire_where gid now (\<lambda>a. ad_recipient a = member)) members db) = counters db" for members db
    by (induction members arbitrary: db) simp_all
  then show ?thesis by (simp add: expire_due_def)
qed

lemma counters_ahr: "ahr_only db db' \<Longrightarrow> counters db' = counters db"
  by (simp add: counters_def ahr_only_reads)

lemma close_within: "within env gid now db \<Longrightarrow> within env gid now (close_group gid db)"
  using close_group_ok by (auto simp: within_def close_group_def group_of_def update_group_def find_update_rows)

lemma touched_within:
  assumes "mailbox_ok env db" "group_of db gid = Some g" "gr_time g \<le> now"
  shows "within env gid now (touch_group_time gid now db)"
  using touch_group_time_ok [OF assms(1)] assms(2,3)
  by (auto simp: within_def touch_group_time_def group_of_def update_group_def find_update_rows)

lemma prologue_laws:
  assumes keys: "keys_ok db" and call: "call_ok c (cs_binding snap)" and run: "prologue c snap db = Inr ((now, closed), db0)"
  shows "mailbox_ok (cw_env c) db" "within (cw_env c) (cb_group (cs_binding snap)) now db0" "counters db0 = counters db"
proof -
  let ?env = "cw_env c" let ?b = "cs_binding snap" let ?gid = "cb_group (cs_binding snap)"
  obtain db1 db4 where verified: "verify_schema ?env db = Inr ()" and time: "effective_time db ?gid (cw_wall c) = Inr now"
      and db1: "ensure_group ?env ?b now (policy_of_config (cw_config c)) db = Inr db1"
      and db4: "sweep_expired (ib_ahr (cw_inbox c)) (ib_world (cw_inbox c))
        (expire_due ?gid now (terminal_members snap) (touch_group_time ?gid now db1)) ?gid now = Inr db4"
      and db0: "db0 = (if cs_all_terminal snap then close_group ?gid (tombstone_due ?gid now (cc_retry_grace_seconds (cw_config c)) db4)
        else tombstone_due ?gid now (cc_retry_grace_seconds (cw_config c)) db4)"
    using run by (auto simp: prologue_def Let_def split: option.splits)
  show ok: "mailbox_ok ?env db" using verified verify_ok [OF keys, of ?env] by (auto simp: verify_schema_def split: sum.splits)
  have now: "0 \<le> now" using time by (auto simp: effective_time_def split: if_splits)
  have given: "valid_config (cw_config c)" "binding_ok ?b" using call by (simp_all add: call_ok_def)
  note ensured = ensure_group_ok [OF ok given now db1]
  obtain g where g: "group_of db1 ?gid = Some g" using ensured(2) by blast
  have "gr_time g \<le> now"
  proof (cases "group_of db ?gid")
    case None
    then have "db1 = db\<lparr>groups := groups db @ [born_group ?b now (policy_of_config (cw_config c))]\<rparr>"
      using db1 by (auto simp: ensure_group_def Let_def split: if_splits option.splits)
    then show ?thesis using None g by (auto simp: born_group_def)
  next
    case (Some h)
    then have "db1 = db" using db1 by (auto simp: ensure_group_def Let_def split: if_splits option.splits)
    then show ?thesis using Some g time by (auto simp: effective_time_def split: if_splits)
  qed
  from touched_within [OF ensured(1) g this] expire_due_laws
  have "within ?env ?gid now (expire_due ?gid now (terminal_members snap) (touch_group_time ?gid now db1))" by blast
  then have "within ?env ?gid now db4" by (rule ahr_only_within [OF sweep_only [OF db4]])
  then have "within ?env ?gid now (tombstone_due ?gid now (cc_retry_grace_seconds (cw_config c)) db4)" by (rule tombstone_keeps_evidence(1))
  then show "within ?env ?gid now db0" using close_within by (simp add: db0)
  have "counters db1 = counters db" using db1 by (auto simp: ensure_group_def Let_def counters_def split: if_splits option.splits)
  then show "counters db0 = counters db" using counters_ahr [OF sweep_only [OF db4]] by (simp add: db0)
qed

section \<open>Around an action\<close>

locale facade_action =
  fixes act :: "call_world \<Rightarrow> CallerSnapshot \<Rightarrow> 'arg \<Rightarrow> int \<Rightarrow> bool \<Rightarrow> comms_db \<Rightarrow> 's \<Rightarrow> (ahr_error + 'a \<times> comms_db) \<times> 's"
  assumes keeps: "call_ok c (cs_binding snap) \<Longrightarrow> within (cw_env c) (cb_group (cs_binding snap)) now db \<Longrightarrow> has_room db \<Longrightarrow>
    act c snap x now closed db s = (Inr (r, db'), s') \<Longrightarrow> within (cw_env c) (cb_group (cs_binding snap)) now db'"
begin

lemma operation_keeps:
  assumes ok: "mailbox_ok (cw_env c) db" and call: "call_ok c (cs_binding snap)" and room: "has_room db"
    and run: "operation c snap (act c snap x) db s = (r, db', s')"
  shows "mailbox_ok (cw_env c) db'"
proof (cases "prologue c snap db")
  case (Inl e)
  then show ?thesis using run ok by (simp add: operation_def)
next
  case (Inr p)
  then obtain now closed db0 where p: "prologue c snap db = Inr ((now, closed), db0)" by (cases p) auto
  note start = prologue_laws [OF mailbox_okD(1) [OF ok] call p]
  have room0: "has_room db0" using room same_room [OF start(3)] by simp
  obtain body s1 where body: "act c snap x now closed db0 s = (body, s1)" by (cases "act c snap x now closed db0 s")
  show ?thesis
  proof (cases body)
    case (Inr y)
    then obtain out1 db1 where y: "body = Inr (out1, db1)" by (cases y) auto
    then have "db' = db1" using run p body by (simp add: operation_def recorded_action_def)
    then show ?thesis using keeps [OF call start(2) room0 body [unfolded y]] by (simp add: within_def)
  next
    case (Inl e)
    have "group_of db0 (cb_group (cs_binding snap)) \<noteq> None" using start(2) by (auto simp: within_def)
    from count_refusal_ok [OF within_mailbox [OF start(2)] this] show ?thesis
      using run p body Inl ok by (auto simp: operation_def recorded_action_def split: option.splits sum.splits prod.splits)
  qed
qed

end

text \<open>Whatever the action is, a refused call changes what the prologue leaves by one count, a raised call nothing.\<close>

lemma operation_refused:
  assumes "operation c snap action db s = (Refused reason, db', s')"
  obtains now closed db0 where "prologue c snap db = Inr ((now, closed), db0)"
    "count_refusal (cb_group (cs_binding snap)) (persisted_bucket reason) db0 = Inr db'"
  using assms by (auto simp: operation_def recorded_action_def Let_def split: sum.splits prod.splits option.splits if_splits)

lemma operation_raised: "operation c snap action db s = (Raised e, db', s') \<Longrightarrow> db' = db"
  by (auto simp: operation_def recorded_action_def Let_def split: sum.splits prod.splits option.splits if_splits)

section \<open>The three actions\<close>

lemma call_bounds:
  assumes "call_ok c b"
  shows "0 \<le> cc_lease_ttl_seconds (cw_config c)" "0 \<le> cc_message_ttl_seconds (cw_config c)"
    "cc_scope_max_recipients (cw_config c) \<le> 32" "env_ok (cw_env c)" "draws_ok (cw_draws c)" "binding_ok b" "is_hex 32 (dw_token (cw_draws c))"
  using assms by (auto simp: call_ok_def valid_config_def draws_ok_def)

lemma renew_counters [simp]: "counters (renew b now ttl db) = counters db" "admissions (renew b now ttl db) = admissions db"
  by (simp_all add: counters_def renew_def map_update_rows)

lemma touch_keeps:
  assumes "within env (cb_group b) now db" "0 \<le> ttl" "touch env b now ttl refusing db mem = (Inr db', mem')"
  shows "within env (cb_group b) now db'" "counters db' = counters db"
proof -
  have "db' = db \<or> db' = renew b now ttl db"
    using assms(3) by (auto simp: touch_def Let_def split: if_splits prod.splits)
  then show "within env (cb_group b) now db'" "counters db' = counters db" using assms(1) renew_ok(1) [OF assms(1,2)] by auto
qed

lemma receiver_keeps:
  assumes state: "within env (cb_group b) now db" "0 \<le> ttl" and run: "receiver_incarnation env b now ttl renewal db mem = (Inr (i, db'), mem')"
  shows "within env (cb_group b) now db'" "counters db' = counters db" "admissions db' = admissions db" "is_hex 32 i"
proof -
  have db': "db' = (if renewal then renew b now ttl db else db)"
    using run by (auto simp: receiver_incarnation_def held_def split: prod.splits option.splits)
  then show "within env (cb_group b) now db'" "counters db' = counters db" "admissions db' = admissions db"
    using state(1) renew_ok(1) [OF state] by auto
  obtain r where r: "endpoint_of db (cb_group b) (cb_member b) = Some r" "en_incarnation r = i"
    using run by (auto simp: receiver_incarnation_def held_def current_cases Let_def is_displaced_def split: prod.splits option.splits if_splits)
  with endpoint_rows(2,3) [OF state(1)] show "is_hex 32 i" by (fastforce simp: endpoint_ok_def)
qed

lemma fence_keeps:
  assumes state: "within (cw_env c) (cb_group b) now db" and call: "call_ok c b"
    and run: "fence c b action ordinary now db mem = (Inr (incarnation, db'), mem')"
  shows "within (cw_env c) (cb_group b) now db'" "counters db' = counters db"
    "action \<in> set RECEIVER_ACTIONS \<Longrightarrow> \<exists>i. incarnation = Some i \<and> is_hex 32 i"
proof -
  note ttl = call_bounds(1) [OF call]
  have "within (cw_env c) (cb_group b) now db' \<and> counters db' = counters db \<and>
      (action \<in> set RECEIVER_ACTIONS \<longrightarrow> (\<exists>i. incarnation = Some i \<and> is_hex 32 i))"
  proof (cases "action \<in> set RECEIVER_ACTIONS")
    case True
    with run obtain i where "receiver_incarnation (cw_env c) b now (cc_lease_ttl_seconds (cw_config c)) ordinary db mem = (Inr (i, db'), mem')"
        "incarnation = Some i"
      by (auto simp: fence_def Let_def split: prod.splits)
    with receiver_keeps [OF state ttl this(1)] show ?thesis by simp
  next
    case False
    with run have "touch (cw_env c) b now (cc_lease_ttl_seconds (cw_config c)) (action \<in> set SENDER_ACTIONS) db mem = (Inr db', mem')"
      by (auto simp: fence_def Let_def split: prod.splits)
    from touch_keeps [OF state ttl this] False show ?thesis by simp
  qed
  then show "within (cw_env c) (cb_group b) now db'" "counters db' = counters db"
    "action \<in> set RECEIVER_ACTIONS \<Longrightarrow> \<exists>i. incarnation = Some i \<and> is_hex 32 i" by blast+
qed

lemma inbox_turn_cases:
  assumes "inbox_turn c snap action ids cursor wait next_read handoff now closed db state = (Inr (x, db'), state')"
  obtains incarnation db1 mem' where
    "fence c (cs_binding snap) action (snd state = None) now db (fst state) = (Inr (incarnation, db1), mem')"
    "inbox_action (cw_inbox c) (cw_item_bytes c) (cs_binding snap) action ids cursor incarnation now
       (cc_fetch_max_items (cw_config c)) (cc_response_max_bytes (cw_config c)) next_read handoff db1 = Inr (fst x, db')"
    "validate_wait c wait action ids cursor = Inr ()" "\<not> cs_all_terminal snap" "closed \<Longrightarrow> action = A_status"
  using assms by (auto simp: inbox_turn_def Let_def split: if_splits sum.splits prod.splits)

lemma inbox_turn_keeps:
  assumes call: "call_ok c (cs_binding snap)" and state: "within (cw_env c) (cb_group (cs_binding snap)) now db" and room: "has_room db"
    and run: "inbox_turn c snap action ids cursor wait next_read handoff now closed db s = (Inr (x, db'), s')"
  shows "within (cw_env c) (cb_group (cs_binding snap)) now db'"
proof -
  from run obtain incarnation db1 mem' where fenced: "fence c (cs_binding snap) action (snd s = None) now db (fst s) = (Inr (incarnation, db1), mem')"
    and acted: "inbox_action (cw_inbox c) (cw_item_bytes c) (cs_binding snap) action ids cursor incarnation now
       (cc_fetch_max_items (cw_config c)) (cc_response_max_bytes (cw_config c)) next_read handoff db1 = Inr (fst x, db')"
    by (rule inbox_turn_cases)
  note kept = fence_keeps [OF state call fenced]
  have "has_room db1" using room same_room [OF kept(2)] by simp
  then have "may_fetch action incarnation db1" using kept(3) by (auto simp: may_fetch_def RECEIVER_ACTIONS_def has_room_def)
  from inbox_action_keeps [OF kept(1) this acted] show ?thesis .
qed

lemma peers_turn_cases:
  assumes "peers_turn c snap action after now closed db mem = (Inr (x, db'), mem')"
  obtains (enrolled) e i where "action = P_enroll"
      "enroll (cw_env c) (dw_token (cw_draws c)) (cs_binding snap) now (cc_lease_ttl_seconds (cw_config c)) db mem = (Inr ((e, i), db'), mem')"
  | (beaten) e where "action = P_heartbeat"
      "heartbeat (cw_env c) (cs_binding snap) now (cc_lease_ttl_seconds (cw_config c)) db mem = (Inr (e, db'), mem')"
  | (listed) "db' = db" "mem' = mem"
  using assms by (auto simp: peers_turn_def Let_def split: if_splits prod.splits)

lemma peers_turn_keeps:
  assumes call: "call_ok c (cs_binding snap)" and state: "within (cw_env c) (cb_group (cs_binding snap)) now db" and room: "has_room db"
    and run: "peers_turn c snap action after now closed db mem = (Inr (x, db'), mem')"
  shows "within (cw_env c) (cb_group (cs_binding snap)) now db'"
  using run
proof (cases rule: peers_turn_cases)
  case (enrolled e i)
  have "\<forall>r. endpoint_of db (cb_group (cs_binding snap)) (cb_member (cs_binding snap)) = Some r \<longrightarrow> en_generation r < MAX_COUNTER"
    using room endpoint_rows(3) [OF state] by (auto simp: has_room_def)
  then show ?thesis by (rule enroll_laws(1) [OF state call_bounds(6,7,1) [OF call] _ enrolled(2)])
next
  case (beaten e)
  then have "db' = renew (cs_binding snap) now (cc_lease_ttl_seconds (cw_config c)) db"
    by (auto simp: heartbeat_def split: prod.splits)
  then show ?thesis using renew_ok(1) [OF state call_bounds(1) [OF call]] by simp
next
  case listed
  then show ?thesis using state by simp
qed

lemma send_action_cases:
  assumes "send_action c snap recipient key body kind delivery_class scope handoff now closed db mem = (Inr (x, db'), mem')"
  obtains (direct) r h db1 db2 receipt words where "recipient = Some r" "scope = None" "\<not> cs_all_terminal snap"
      "touch (cw_env c) (cs_binding snap) now (cc_lease_ttl_seconds (cw_config c)) True db mem = (Inr db1, mem')"
      "offer_record c handoff (cb_member (cs_binding snap)) recipient scope kind body = Inr h"
      "words = (case h of None \<Rightarrow> body | Some d \<Rightarrow> offer_pointer c d)"
      "admit (cw_env c) (cw_draws c) snap \<lparr>nv_recipient = r, nv_key = key, nv_body = words, nv_kind = kind, nv_class = delivery_class,
         nv_derived = False\<rparr> now (cc_message_ttl_seconds (cw_config c)) False db1 = Inr (receipt, db2)"
      "(case h of None \<Rightarrow> Inr db2
        | Some d \<Rightarrow> offer (ib_ahr (cw_inbox c)) (ib_world (cw_inbox c)) db2 (cb_group (cs_binding snap)) (rp_message receipt) d now) = Inr db'"
      "x = Sent receipt (map_option ad_state (message_row db' (rp_message receipt)))
         (observe_recipient db' (cb_group (cs_binding snap)) r now (cc_message_ttl_seconds (cw_config c)))"
  | (scoped) ground db1 n words where "recipient = None" "scope \<noteq> None" "\<not> cs_all_terminal snap"
      "touch (cw_env c) (cs_binding snap) now (cc_lease_ttl_seconds (cw_config c)) True db mem = (Inr db1, mem')"
      "parse (cw_env c) (cc_scope_max_bytes (cw_config c)) (the scope) = Inr ground"
      "notify (cw_env c) (cw_draws c) snap ground key words kind delivery_class now (cc_scope_max_recipients (cw_config c))
         (cc_message_ttl_seconds (cw_config c)) db1 = Inr (n, db')"
      "x = Notified n"
  using assms by (auto simp: send_action_def Let_def split: if_splits prod.splits option.splits)

lemma send_action_keeps:
  assumes call: "call_ok c (cs_binding snap)" and state: "within (cw_env c) (cb_group (cs_binding snap)) now db" and room: "has_room db"
    and run: "send_action c snap recipient key body kind delivery_class scope handoff now closed db mem = (Inr (x, db'), mem')"
  shows "within (cw_env c) (cb_group (cs_binding snap)) now db'"
  using run
proof (cases rule: send_action_cases)
  case (direct r h db1 db2 receipt words)
  note touched = touch_keeps [OF state call_bounds(1) [OF call] direct(4)]
  have "next_rowid db1 \<le> MAX_COUNTER" using room same_room [OF touched(2)] by (simp add: has_room_def)
  from admit_keeps(1) [OF touched(1) call_bounds(4-6) [OF call] call_bounds(2) [OF call] this direct(7)]
  show ?thesis using direct(8) ahr_only_within [OF offer_only] by (auto split: option.splits)
next
  case (scoped ground db1 n words)
  note touched = touch_keeps [OF state call_bounds(1) [OF call] scoped(4)]
  have "next_rowid db1 + int (cc_scope_max_recipients (cw_config c)) \<le> MAX_COUNTER"
    using room same_room [OF touched(2)] call_bounds(3) [OF call] by (simp add: has_room_def)
  from notify_laws [OF touched(1) this call_bounds(4-6) [OF call] call_bounds(2) [OF call] scoped(6)] show ?thesis by blast
qed

interpretation sending: facade_action
  "\<lambda>c snap (recipient, key, body, kind, delivery_class, scope, handoff).
     send_action c snap recipient key body kind delivery_class scope handoff"
  by unfold_locales (auto dest: send_action_keeps)

interpretation reading: facade_action
  "\<lambda>c snap (action, ids, cursor, wait, next_read, handoff). inbox_turn c snap action ids cursor wait next_read handoff"
  by unfold_locales (auto dest: inbox_turn_keeps)

interpretation meeting: facade_action "\<lambda>c snap (action, after). peers_turn c snap action after"
  by unfold_locales (auto dest: peers_turn_keeps)

section \<open>Mailboxes that calls produce\<close>

definition empty_mailbox :: comms_db where
  "empty_mailbox = \<lparr>ahr_events = [], admissions = [], groups = [], endpoints = [], milestones = [], refusal_counts = [], handoff_reports = []\<rparr>"

text \<open>A call of an environment whose members are well-formed, while the mailbox has room in its counters.\<close>

definition may_call :: "comms_env \<Rightarrow> call_world \<Rightarrow> ahr_error + CallerSnapshot \<Rightarrow> comms_db \<Rightarrow> bool" where
  "may_call env c resolved db \<longleftrightarrow> cw_env c = env \<and> has_room db \<and> (\<forall>snap. resolved = Inr snap \<longrightarrow> call_ok c (cs_binding snap))"

datatype facade_call =
    Send_call pause_reading "string option" string string string string "string option" handoff_argument
  | Inbox_call InboxAction "string list option" "string option" int "string option" handoff_argument "wait_owner option"
  | Peers_call pickup "PeerAction \<Rightarrow> peers_page reply" PeerAction "string option" "string option" handoff_argument

datatype outcome = Said_disabled | Said_refused string | Said_replied | Said_raised ahr_error

fun outcome_of :: "'a reply \<Rightarrow> outcome" where
  "outcome_of Disabled = Said_disabled"
| "outcome_of (Refused reason) = Said_refused reason"
| "outcome_of (Replied x) = Said_replied"
| "outcome_of (Raised e) = Said_raised e"

fun serve :: "call_world \<Rightarrow> ahr_error + CallerSnapshot \<Rightarrow> facade_call \<Rightarrow> comms_db \<Rightarrow> process_memory \<Rightarrow> outcome \<times> comms_db" where
  "serve c resolved (Send_call pause recipient key body kind delivery_class scope handoff) db mem =
     (case send_once c resolved pause recipient key body kind delivery_class scope handoff db mem of (r, db', m) \<Rightarrow> (outcome_of r, db'))"
| "serve c resolved (Inbox_call action ids cursor wait next_read handoff waiting) db mem =
     (case inbox_attempt c resolved action ids cursor wait next_read handoff db (mem, waiting) of ((r, retry), db', s) \<Rightarrow> (outcome_of r, db'))"
| "serve c resolved (Peers_call picked aside requested cursor next_read handoff) db mem =
     (case peers c resolved picked aside requested cursor next_read handoff db mem of (r, db', m) \<Rightarrow> (outcome_of r, db'))"

inductive served :: "comms_env \<Rightarrow> comms_db \<Rightarrow> bool" for env where
  fresh: "served env empty_mailbox"
| serves: "served env db \<Longrightarrow> may_call env c resolved db \<Longrightarrow> serve c resolved call db mem = (r, db') \<Longrightarrow> served env db'"

lemma empty_mailbox_ok: "mailbox_ok env empty_mailbox"
  by (simp add: mailbox_ok_def empty_mailbox_def keys_ok_def unique_key_def)

lemma bound_snap: "bound_caller resolved = Inr snap \<Longrightarrow> resolved = Inr snap"
  by (auto simp: bound_caller_def split: if_splits)

lemma send_once_keeps:
  assumes ok: "mailbox_ok (cw_env c) db" and call: "may_call (cw_env c) c resolved db"
    and run: "send_once c resolved pause recipient key body kind delivery_class scope handoff db mem = (r, db', mem')"
  shows "mailbox_ok (cw_env c) db'"
proof (cases "bound_caller resolved")
  case (Inr snap)
  have given: "call_ok c (cs_binding snap)" "has_room db" using call bound_snap [OF Inr] by (simp_all add: may_call_def)
  have "db' = db \<or> (\<exists>r1 m1. operation c snap (send_action c snap recipient key body kind delivery_class scope handoff) db mem = (r1, db', m1))"
    using run Inr by (auto simp: send_once_def Let_def split: if_splits option.splits prod.splits)
  then show ?thesis
    using ok sending.operation_keeps [OF ok given, where x = "(recipient, key, body, kind, delivery_class, scope, handoff)"] by auto
qed (use run ok in \<open>auto simp: send_once_def split: if_splits\<close>)

lemma inbox_attempt_keeps:
  assumes ok: "mailbox_ok (cw_env c) db" and call: "may_call (cw_env c) c resolved db"
    and run: "inbox_attempt c resolved action ids cursor wait next_read handoff db state = (r, db', state')"
  shows "mailbox_ok (cw_env c) db'"
proof (cases "bound_caller resolved")
  case (Inr snap)
  have given: "call_ok c (cs_binding snap)" "has_room db" using call bound_snap [OF Inr] by (simp_all add: may_call_def)
  have "db' = db \<or> (\<exists>r1 s1. operation c snap (inbox_turn c snap action ids cursor wait next_read handoff) db state = (r1, db', s1))"
    using run Inr by (auto simp: inbox_attempt_def Let_def split: if_splits prod.splits)
  then show ?thesis
    using ok reading.operation_keeps [OF ok given, where x = "(action, ids, cursor, wait, next_read, handoff)"] by (cases state) auto
qed (use run ok in \<open>auto simp: inbox_attempt_def split: if_splits\<close>)

lemma peers_keeps:
  assumes ok: "mailbox_ok (cw_env c) db" and call: "may_call (cw_env c) c resolved db"
    and run: "peers c resolved picked aside requested cursor next_read handoff db mem = (r, db', mem')"
  shows "mailbox_ok (cw_env c) db'"
proof (cases "bound_caller resolved")
  case (Inr snap)
  have given: "call_ok c (cs_binding snap)" "has_room db" using call bound_snap [OF Inr] by (simp_all add: may_call_def)
  have "db' = db \<or> (\<exists>action after r1 m1. operation c snap (peers_turn c snap action after) db mem = (r1, db', m1))"
    using run Inr by (auto simp: peers_def Let_def split: if_splits prod.splits sum.splits reply.splits)
  then show ?thesis
    using ok meeting.operation_keeps [OF ok given, where x = "(action, after)" for action after] by auto
qed (use run ok in \<open>auto simp: peers_def Let_def split: if_splits\<close>)

lemma serve_keeps:
  assumes "mailbox_ok env db" "may_call env c resolved db" "serve c resolved call db mem = (r, db')"
  shows "mailbox_ok env db'"
proof -
  have env: "env = cw_env c" using assms(2) by (simp add: may_call_def)
  note given = assms(1,2) [unfolded env]
  show ?thesis
  proof (cases call)
    case (Send_call pause recipient key body kind delivery_class scope handoff)
    with assms(3) obtain x m where "send_once c resolved pause recipient key body kind delivery_class scope handoff db mem = (x, db', m)"
      by (auto split: prod.splits)
    from send_once_keeps [OF given this] show ?thesis by (simp add: env)
  next
    case (Inbox_call action ids cursor wait next_read handoff waiting)
    with assms(3) obtain x s where "inbox_attempt c resolved action ids cursor wait next_read handoff db (mem, waiting) = (x, db', s)"
      by (auto split: prod.splits)
    from inbox_attempt_keeps [OF given this] show ?thesis by (simp add: env)
  next
    case (Peers_call picked aside requested cursor next_read handoff)
    with assms(3) obtain x m where "peers c resolved picked aside requested cursor next_read handoff db mem = (x, db', m)"
      by (auto split: prod.splits)
    from peers_keeps [OF given this] show ?thesis by (simp add: env)
  qed
qed

lemma served_ok: "served env db \<Longrightarrow> mailbox_ok env db"
  by (induction rule: served.induct) (auto intro: empty_mailbox_ok serve_keeps)

text \<open>Where a refused operation ends: in the mailbox the prologue left, with one count more.\<close>

definition undone :: "call_world \<Rightarrow> ahr_error + CallerSnapshot \<Rightarrow> string \<Rightarrow> comms_db \<Rightarrow> comms_db \<Rightarrow> bool" where
  "undone c resolved reason db db' \<longleftrightarrow>
     (\<exists>snap now closed db0. resolved = Inr snap \<and> prologue c snap db = Inr ((now, closed), db0) \<and>
        count_refusal (cb_group (cs_binding snap)) (persisted_bucket reason) db0 = Inr db')"

definition settled_call :: "call_world \<Rightarrow> ahr_error + CallerSnapshot \<Rightarrow> outcome \<Rightarrow> comms_db \<Rightarrow> comms_db \<Rightarrow> bool" where
  "settled_call c resolved r db db' \<longleftrightarrow>
     (case r of Said_disabled \<Rightarrow> db' = db | Said_raised e \<Rightarrow> db' = db | Said_replied \<Rightarrow> True
      | Said_refused reason \<Rightarrow> db' = db \<or> undone c resolved reason db db')"

lemma settled_untouched [simp]: "settled_call c resolved r db db"
  by (simp add: settled_call_def split: outcome.split)

lemma operation_settled:
  assumes "bound_caller resolved = Inr snap" "operation c snap action db s = (r, db', s')"
  shows "settled_call c resolved (outcome_of r) db db'"
proof (cases r)
  case Disabled
  then show ?thesis using assms(2) by (auto simp: operation_def recorded_action_def Let_def split: sum.splits prod.splits option.splits)
next
  case (Refused reason)
  obtain now closed db0 where "prologue c snap db = Inr ((now, closed), db0)"
      "count_refusal (cb_group (cs_binding snap)) (persisted_bucket reason) db0 = Inr db'"
    by (rule operation_refused [OF assms(2) [unfolded Refused]])
  then show ?thesis using bound_snap [OF assms(1)] Refused by (auto simp: settled_call_def undone_def)
next
  case (Raised e)
  then show ?thesis using operation_raised assms(2) by (simp add: settled_call_def)
qed (simp add: settled_call_def)

lemma answered_settled:
  assumes "settled_call c resolved (outcome_of r) db db'"
  shows "settled_call c resolved (outcome_of (answered_send r)) db db'" "settled_call c resolved (outcome_of (answered_inbox r)) db db'"
    "settled_call c resolved (outcome_of (answered_peer r)) db db'"
proof -
  show one: "settled_call c resolved (outcome_of (answered_send r)) db db'" using assms by (cases r rule: answered_send.cases) (simp_all add: settled_call_def)
  show two: "settled_call c resolved (outcome_of (answered_inbox r)) db db'"
    using assms one by (cases r rule: answered_inbox.cases) (simp_all add: settled_call_def)
  show "settled_call c resolved (outcome_of (answered_peer r)) db db'"
    using assms two by (cases r rule: answered_peer.cases) (simp_all add: settled_call_def)
qed

text \<open>Each public function either leaves the mailbox alone or answers what an operation of a bound caller answered.\<close>

lemma send_once_operates:
  assumes "send_once c resolved pause recipient key body kind delivery_class scope handoff db mem = (r, db', mem')"
  shows "db' = db \<or> (\<exists>snap x. bound_caller resolved = Inr snap \<and> r = answered_send x \<and>
    operation c snap (send_action c snap recipient key body kind delivery_class scope handoff) db mem = (x, db', mem'))"
  using assms by (auto simp: send_once_def Let_def split: if_splits sum.splits option.splits prod.splits)

lemma inbox_attempt_operates:
  assumes "inbox_attempt c resolved action ids cursor wait next_read handoff db s = ((r, retry), db', s')"
  shows "db' = db \<or> (\<exists>snap x. bound_caller resolved = Inr snap \<and> r = answered_inbox x \<and>
    operation c snap (inbox_turn c snap action ids cursor wait next_read handoff) db s = (x, db', s'))"
  using assms by (auto simp: inbox_attempt_def Let_def split: if_splits sum.splits prod.splits)

lemma outcome_peer_raised: "outcome_of (answered_peer (Raised e) :: 'a reply) = outcome_of (answered_peer (Raised e) :: 'b reply)"
  by (cases e) simp_all

lemma peers_operates:
  assumes "peers c resolved picked aside requested cursor next_read handoff db mem = (r, db', mem')"
  shows "db' = db \<or> (\<exists>snap action after x m. bound_caller resolved = Inr snap \<and> outcome_of r = outcome_of (answered_peer x) \<and>
    operation c snap (peers_turn c snap action after) db mem = (x, db', m))"
proof (cases "db' = db")
  case False
  then obtain snap action after where call: "bound_caller resolved = Inr snap"
      "(case operation c snap (peers_turn c snap action after) db mem of
          (Replied (page, incarnation), db', mem') \<Rightarrow>
            (Replied page, db', case incarnation of None \<Rightarrow> mem' | Some i \<Rightarrow> confirm_enrollment (cw_env c) (cs_binding snap) i mem')
        | (Disabled, db', mem') \<Rightarrow> (Disabled, db', mem')
        | (Refused reason, db', mem') \<Rightarrow> (Refused reason, db', mem')
        | (Raised e, db', mem') \<Rightarrow> (answered_peer (Raised e), db', mem')) = (r, db', mem')"
    using assms unfolding peers_def Let_def by (simp split: if_split_asm sum.split_asm)
  obtain x db1 m where run: "operation c snap (peers_turn c snap action after) db mem = (x, db1, m)" by (cases rule: prod_cases3)
  have "db1 = db' \<and> outcome_of r = outcome_of (answered_peer x)"
    using call(2) unfolding run by (cases x) (auto intro: outcome_peer_raised)
  then show ?thesis using call(1) run by blast
qed simp

lemma serve_settled:
  assumes "serve c resolved call db mem = (r, db')"
  shows "settled_call c resolved r db db'"
proof (cases call)
  case (Send_call pause recipient key body kind delivery_class scope handoff)
  with assms obtain x m where x: "send_once c resolved pause recipient key body kind delivery_class scope handoff db mem = (x, db', m)"
    "r = outcome_of x" by (auto split: prod.splits)
  from send_once_operates [OF x(1)] show ?thesis using x(2) operation_settled answered_settled(1) by fastforce
next
  case (Inbox_call action ids cursor wait next_read handoff waiting)
  with assms obtain x retry s where x: "inbox_attempt c resolved action ids cursor wait next_read handoff db (mem, waiting) = ((x, retry), db', s)"
    "r = outcome_of x" by (auto split: prod.splits)
  from inbox_attempt_operates [OF x(1)] show ?thesis using x(2) operation_settled answered_settled(2) by fastforce
next
  case (Peers_call picked aside requested cursor next_read handoff)
  with assms obtain x m where x: "peers c resolved picked aside requested cursor next_read handoff db mem = (x, db', m)"
    "r = outcome_of x" by (auto split: prod.splits)
  from peers_operates [OF x(1)] show ?thesis using x(2) operation_settled answered_settled(3) by fastforce
qed

end
