(* ===== verification/Comms_Calls.thy ===== *)
theory Comms_Calls
  imports Comms_Facade_Laws Formation_Ownership
begin

text \<open>
  The properties of whole calls: what a call leaves behind when it is not answered, that every mailbox calls can produce is one the
  verifier accepts, that a bounded wait ends, and two states from which no operation of the group gets through any more.
\<close>

section \<open>Unanswered calls\<close>

text \<open>A call that is not answered leaves nothing of its action. A disabled call and an exception leave the mailbox as it was;
  a refusal leaves it as it was or as the opening of the operation left it (clock, expiry, tombstones, closure) with exactly one
  refusal counted, under the reason's bucket. The rollback of a failed body to its savepoint is in the type of the model: an action
  that fails has no next mailbox.\<close>

theorem unanswered_calls_roll_back:
  "case serve c resolved call db mem of (r, db') \<Rightarrow> settled_call c resolved r db db'"
  by (auto split: prod.split intro: serve_settled)

section \<open>Mailboxes that calls produce\<close>

text \<open>C15: Every mailbox that well-formed calls can produce from the empty one verifies, whatever arguments they pass, in whatever
  order, with whatever clocks, memories of the serving processes and foreign files: the next operation finds a mailbox its
  verifier accepts. A call counts as well-formed (\<open>may_call\<close>, a premise of every step of \<open>served\<close>) under four conditions. The
  binding of its caller is: a group of 32 hexadecimal digits, formation and member names that match the identifier pattern to
  their last character, absolute manifest and run paths, a session. The configuration lies within its declared bounds. Drawn
  identifiers, drawn trace parents and SHA-256 digests are in the documented forms. The row ids, delivery counts and generations
  have room below the largest SQLite integer. The condition on names is needed: the formation accepts a member
  whose name ends in a newline, and \<open>newline_member_poisons\<close> below shows that its enrolment leaves a mailbox the verifier
  rejects.\<close>

theorem served_mailbox_verifies:
  assumes "served env db"
  shows "verify_schema env db = Inr ()"
  using verify_ok [OF mailbox_okD(1) [OF served_ok [OF assms]], of env] served_ok [OF assms]
  by (simp add: verify_schema_def)

section \<open>The bounded wait ends\<close>

text \<open>
  A clock that keeps time through the turns of a wait: it never runs backwards, and a sleep lasts at least as long as it was asked to,
  the configured interval, at least 100 ms, or what is left until the deadline.
\<close>

fun keeps_time :: "int \<Rightarrow> int \<Rightarrow> ('s, 'w) wait_turn list \<Rightarrow> bool" where
  "keeps_time deadline now [] \<longleftrightarrow> True"
| "keeps_time deadline now (t # ts) \<longleftrightarrow>
     now \<le> wt_before t \<and> 100000 \<le> wt_interval t \<and>
     min (wt_interval t) (deadline - wt_before t) \<le> wt_after t - wt_before t \<and> keeps_time deadline (wt_after t) ts"

lemma bounded_wait_returns:
  "keeps_time deadline now ts \<Longrightarrow> ts \<noteq> [] \<Longrightarrow> deadline - now \<le> 100000 * int (length ts) \<Longrightarrow>
   bounded_wait attempt deadline ts latest s \<noteq> None"
proof (induction ts arbitrary: now latest s)
  case (Cons t ts)
  show ?case
  proof (cases "deadline - wt_before t \<le> 0 \<or> deadline \<le> wt_after t")
    case True
    then show ?thesis by (cases "wt_cancelled t") (auto simp: Let_def split: prod.split)
  next
    case False
    then have "wt_interval t \<le> wt_after t - wt_before t" using Cons.prems(1) by (auto simp: min_def split: if_splits)
    then have left: "deadline - wt_after t \<le> 100000 * int (length ts)" using Cons.prems by simp
    with False have "ts \<noteq> []" by auto
    have time: "keeps_time deadline (wt_after t) ts" using Cons.prems(1) by simp
    show ?thesis using Cons.IH [OF time \<open>ts \<noteq> []\<close> left] by (cases "wt_cancelled t") (auto simp: Let_def split: prod.split)
  qed
qed simp

lemma retry_is_bounded:
  assumes "inbox_attempt c resolved action ids cursor wait next_read handoff db s = ((r, True), db', s')"
  shows "0 < wait" "wait \<le> cc_wait_max_seconds (cw_config c)"
proof -
  obtain snap x where op: "operation c snap (inbox_turn c snap action ids cursor wait next_read handoff) db s = (x, db', s')"
      and run: "0 < wait" "nothing_fetched x"
    using assms by (auto simp: inbox_attempt_def Let_def split: if_splits sum.splits prod.splits)
  obtain y where "x = Replied y" using run(2) by (cases x) auto
  with op obtain now closed db0 db2 where "inbox_turn c snap action ids cursor wait next_read handoff now closed db0 s = (Inr (y, db2), s')"
    by (auto simp: operation_def recorded_action_def Let_def split: sum.splits prod.splits option.splits if_splits)
  then have "validate_wait c wait action ids cursor = Inr ()" by (rule inbox_turn_cases)
  then show "0 < wait" "wait \<le> cc_wait_max_seconds (cw_config c)" using run(1) by (auto simp: validate_wait_def Let_def split: if_splits)
qed

text \<open>C16: A wait ends. With a clock that keeps time an inbox call returns, an answer or a cancellation, within 3000 turns of its loop,
  whatever is asked for, whatever the other members do meanwhile and however the configuration changes during the wait.\<close>

theorem wait_ends:
  assumes "valid_config (cw_config c)" and "keeps_time (entry + wait * SECOND) entry turns" and "3000 \<le> length turns"
  shows "inbox c resolved action ids cursor wait next_read handoff entry busy cancelled turns db mem \<noteq> None"
proof -
  obtain r retry db' s where first: "inbox_attempt c resolved action ids cursor wait next_read handoff db (mem, None) = ((r, retry), db', s)"
    by (metis prod.exhaust)
  show ?thesis
  proof (cases retry)
    case True
    with retry_is_bounded(2) [of c resolved action ids cursor wait next_read handoff db "(mem, None)"] first assms(1)
    have "wait \<le> 300" by (auto simp: valid_config_def)
    then have "entry + wait * SECOND - entry \<le> 100000 * int (length turns)" "turns \<noteq> []"
      using assms(3) by (auto simp: SECOND_def)
    then have "bounded_wait attempt (entry + wait * SECOND) turns r (db', s) \<noteq> None" for attempt
      by (rule bounded_wait_returns [OF assms(2) _ _, rotated])
    with first True show ?thesis by (simp add: inbox_def del: not_None_eq)
  qed (use first in \<open>simp add: inbox_def\<close>)
qed

section \<open>An offer that blocks its group\<close>

text \<open>The sweep reads the hand-off rows and the groups of their carriers, nothing else.\<close>

definition carriers :: "comms_db \<Rightarrow> (string \<times> string) list" where
  "carriers db = map (\<lambda>a. (ad_message a, ad_group a)) (admissions db)"

lemma in_group_carriers: "in_group db gid m \<longleftrightarrow> (m, gid) \<in> set (carriers db)"
  by (auto simp: in_group_def carriers_def list_ex_iff)

lemma carriers_expire_row [simp]: "carriers (expire_row now a db) = carriers db" "ahr_events (expire_row now a db) = ahr_events db"
  by (simp_all add: carriers_def expire_row_def update_message_def add_milestone_def map_update_rows)

lemma carriers_expire_rows: "carriers (fold (expire_row now) rows db) = carriers db \<and> ahr_events (fold (expire_row now) rows db) = ahr_events db"
  by (induction rows arbitrary: db) simp_all

lemma carriers_expire [simp]: "carriers (expire_due gid now terminal db) = carriers db" "ahr_events (expire_due gid now terminal db) = ahr_events db"
proof -
  have one: "carriers (expire_where gid now due d) = carriers d \<and> ahr_events (expire_where gid now due d) = ahr_events d" for due d
    by (simp add: expire_where_def carriers_expire_rows)
  have "carriers (fold (\<lambda>member. expire_where gid now (\<lambda>a. ad_recipient a = member)) members d) = carriers d \<and>
      ahr_events (fold (\<lambda>member. expire_where gid now (\<lambda>a. ad_recipient a = member)) members d) = ahr_events d" for members d
    by (induction members arbitrary: d) (simp_all add: one)
  then show "carriers (expire_due gid now terminal db) = carriers db" "ahr_events (expire_due gid now terminal db) = ahr_events db"
    by (simp_all add: expire_due_def one)
qed

lemma rebuild_cong: "rebuild env db hid = rebuild env db' hid" if "ahr_events db = ahr_events db'"
proof -
  have same: "offered_record db = offered_record db'" by (simp add: fun_eq_iff offered_record_def first_row_def that)
  have "stored_target env db = stored_target env db'" unfolding stored_target_def [abs_def] same by (rule refl)
  then have rows: "replay_row env db = replay_row env db'" by (simp add: fun_eq_iff replay_row_def)
  show ?thesis unfolding rebuild_def log_rows_def that rows by (rule refl)
qed

lemma prologue_sweeps:
  assumes "prologue c snap db = Inr (x, db0)"
  shows "\<exists>db3 db4 now. sweep_expired (ib_ahr (cw_inbox c)) (ib_world (cw_inbox c)) db3 (cb_group (cs_binding snap)) now = Inr db4 \<and>
    ahr_events db3 = ahr_events db \<and> carriers db3 = carriers db \<and> cw_wall c \<le> now"
proof -
  let ?b = "cs_binding snap" let ?gid = "cb_group (cs_binding snap)"
  obtain now db1 db4 where time: "effective_time db ?gid (cw_wall c) = Inr now"
      and db1: "ensure_group (cw_env c) ?b now (policy_of_config (cw_config c)) db = Inr db1"
      and sweep: "sweep_expired (ib_ahr (cw_inbox c)) (ib_world (cw_inbox c))
        (expire_due ?gid now (terminal_members snap) (touch_group_time ?gid now db1)) ?gid now = Inr db4"
    using assms by (auto simp: prologue_def Let_def split: option.splits)
  have "ahr_events db1 = ahr_events db \<and> carriers db1 = carriers db"
    using db1 by (auto simp: ensure_group_def Let_def carriers_def split: if_splits option.splits)
  moreover have "ahr_events (touch_group_time ?gid now db1) = ahr_events db1 \<and> carriers (touch_group_time ?gid now db1) = carriers db1"
    by (simp add: touch_group_time_def update_group_def carriers_def)
  moreover have "cw_wall c \<le> now" using time by (auto simp: effective_time_def split: if_splits)
  ultimately show ?thesis using sweep by (intro exI [of _ "expire_due ?gid now (terminal_members snap) (touch_group_time ?gid now db1)"] exI [of _ db4] exI [of _ now]) simp
qed

text \<open>An event whose actor the hand-off records with another kind is never appended.\<close>

lemma misnamed_actor_refused:
  assumes "kinds_of (lg_handoff log) (pr_id actor) = Some k" "k \<noteq> pr_kind actor" "\<And>at. kind \<noteq> Accepted at"
  shows "append_event env w db log message kind actor now target stored \<noteq> Inr db'"
proof
  assume "append_event env w db log message kind actor now target stored = Inr db'"
  from append_event_Inr [OF this] have "admitted env log (built_event env w db log kind actor now)" by (auto simp: step_clean)
  then show False using assms by (simp add: admitted_def)
qed

definition misnames_store :: "AhrLog \<Rightarrow> bool" where
  "misnames_store log \<longleftrightarrow> (\<exists>k. kinds_of (lg_handoff log) (pr_id STORE_PRINCIPAL) = Some k \<and> k \<noteq> Service)"

lemma misnamed_never_expires:
  assumes "misnames_store log"
  shows "append_event env w db log message Expired STORE_PRINCIPAL now target stored \<noteq> Inr db'"
proof -
  from assms obtain k where "kinds_of (lg_handoff log) (pr_id STORE_PRINCIPAL) = Some k" "k \<noteq> Service" by (auto simp: misnames_store_def)
  then show ?thesis by (intro misnamed_actor_refused [of log STORE_PRINCIPAL k]) (simp_all add: STORE_PRINCIPAL_def)
qed

lemma misnamed_offer_stays:
  assumes log: "rebuild env db (ar_handoff_id x) = Inr log" and "misnames_store log" and moved: "expire_offer env w now x db = Inr db'"
  shows "db' = db"
  using misnamed_never_expires [OF assms(2)] moved log by (auto simp: expire_offer_def split: if_splits option.splits)

lemma expire_offer_moves:
  assumes "expire_offer env w now x db = Inr db'" "store_ok db"
  shows "db' = db \<or> (\<exists>row. db' = grown db row \<and> ar_handoff_id row = ar_handoff_id x \<and> store_ok db')"
proof (cases "db' = db")
  case False
  then obtain log where log: "rebuild env db (ar_handoff_id x) = Inr log"
      and new: "append_event env w db log (ar_message x) Expired STORE_PRINCIPAL now None None = Inr db'"
    using assms(1) by (auto simp: expire_offer_def split: if_splits option.splits)
  from append_event_Inr [OF new] obtain ev where
    "ev = built_event env w db log Expired STORE_PRINCIPAL now" "db' = grown db (event_row env log (ar_message x) ev None)" by blast
  then show ?thesis
    using rebuild_numbers(1) [OF assms(2) log] grown_store_ok [OF assms(2)] by (intro disjI2 exI [of _ "event_row env log (ar_message x) ev None"]) (simp add: built_event_def)
qed simp

lemma sweep_blocked:
  assumes "r \<in> set rows" "store_ok db" "rebuild env db (ar_handoff_id r) = Inr log" "misnames_store log" "lg_state log = Some Is_offered"
    and due: "ar_record r = Some (Handoff (lg_handoff log))" "ho_expires_at (lg_handoff log) = Some e" "instant env e \<le> now"
  shows "foldE (expire_offer env w now) rows db \<noteq> Inr db'"
  using assms(1-3)
proof (induction rows arbitrary: db)
  case (Cons x rows)
  show ?case
  proof
    assume "foldE (expire_offer env w now) (x # rows) db = Inr db'"
    then obtain db1 where x: "expire_offer env w now x db = Inr db1" and rest: "foldE (expire_offer env w now) rows db1 = Inr db'" by auto
    have "x \<noteq> r"
    proof
      assume "x = r"
      show False
        using misnamed_never_expires [OF assms(4)] x Cons.prems(3) assms(5) due unfolding \<open>x = r\<close> by (simp add: expire_offer_def expiry_of_def log_expires_at_def)
    qed
    with Cons.prems(1) have here: "r \<in> set rows" by simp
    consider "db1 = db" | row where "db1 = grown db row" "ar_handoff_id row = ar_handoff_id x" "store_ok db1" "ar_handoff_id x \<noteq> ar_handoff_id r"
      using expire_offer_moves [OF x Cons.prems(2)] misnamed_offer_stays [OF _ assms(4) x] Cons.prems(3) by fastforce
    then show False
    proof cases
      case 1
      then show ?thesis using Cons.IH [OF here Cons.prems(2,3)] rest by simp
    next
      case 2
      from rebuild_other [OF Cons.prems(3)] 2 have "rebuild env db1 (ar_handoff_id r) = Inr log" by simp
      from Cons.IH [OF here 2(3) this] rest show ?thesis by simp
    qed
  qed
qed simp

text \<open>C17: One offer can block its group. When a stored hand-off records the store's own name, as its verifier or as a party, with
  a kind other than service, then from the moment it expires every operation of the group raises an exception that no handler turns into
  a reply and leaves the mailbox as it was, so that the next operation finds the same offer: the group does not recover.\<close>

theorem impostor_blocks_group:
  assumes "store_ok db" and "r \<in> set (open_offers db (cb_group (cs_binding snap)))"
    and "rebuild (ib_ahr (cw_inbox c)) db (ar_handoff_id r) = Inr log" and "lg_state log = Some Is_offered"
    and "kinds_of (lg_handoff log) ''trw-comms-store'' = Some k" and "k \<noteq> Service"
    and "ar_record r = Some (Handoff (lg_handoff log))" and "ho_expires_at (lg_handoff log) = Some e"
    and "instant (ib_ahr (cw_inbox c)) e \<le> cw_wall c"
  shows "\<exists>err. operation c snap action db s = (Raised err, db, s)"
proof (cases "prologue c snap db")
  case (Inl e)
  then show ?thesis by (simp add: operation_def)
next
  case (Inr p)
  let ?gid = "cb_group (cs_binding snap)" let ?ahr = "ib_ahr (cw_inbox c)"
  obtain x db0 where "prologue c snap db = Inr (x, db0)" using Inr by (cases p) auto
  from prologue_sweeps [OF this] obtain db3 db4 now where
    sweep: "sweep_expired ?ahr (ib_world (cw_inbox c)) db3 ?gid now = Inr db4"
    and same: "ahr_events db3 = ahr_events db" "carriers db3 = carriers db" and now: "cw_wall c \<le> now" by blast
  have "r \<in> set (open_offers db3 ?gid)" using assms(2) by (simp add: open_offers_def in_group_carriers same)
  moreover have "store_ok db3" using assms(1) by (simp add: store_ok_def same)
  moreover have "rebuild ?ahr db3 (ar_handoff_id r) = Inr log" using assms(3) rebuild_cong [OF same(1)] by simp
  moreover have "misnames_store log" using assms(5,6) by (auto simp: misnames_store_def STORE_PRINCIPAL_def)
  ultimately have "foldE (expire_offer ?ahr (ib_world (cw_inbox c)) now) (open_offers db3 ?gid) db3 \<noteq> Inr db4"
    using assms(4,7,8) order_trans [OF assms(9) now] by (rule sweep_blocked)
  then show ?thesis using sweep by (simp add: sweep_expired_def)
qed

section \<open>A name that poisons its mailbox\<close>

lemma in_put_row: "r \<in> set (put_row key r rows)"
  using find_put_row [of key "key r" r rows] by (auto dest: find_row_Some_D)

text \<open>C18: A member whose name ends in a newline is accepted by the formation and can enrol, but the verifier refuses the row the
  enrolment writes: from then on every operation of every member of that mailbox ends in storage_corrupt.\<close>

theorem newline_member_poisons:
  assumes "enroll (cw_env c) token b now ttl db mem = (Inr (x, db'), mem')" and "cb_member b = name @ [CHR 0x0A]"
  shows "(is_member_id name \<longrightarrow> valid_id (cb_member b)) \<and>
    operation c snap action db' s = (Raised (StoreError ''storage_corrupt''), db', s)"
proof
  show "is_member_id name \<longrightarrow> valid_id (cb_member b)"
    by (cases name) (auto simp: assms(2) valid_id_def is_member_id_def id_char_def is_alnum_def list_all_iff)
  have alien: "\<not> is_member_id (cb_member b)"
    by (cases name) (simp_all add: assms(2) is_member_id_def is_alnum_def)
  obtain row where row: "row \<in> set (endpoints db')" "en_member row = cb_member b"
    using assms(1) in_put_row by (fastforce simp: enroll_def current_cases Let_def enrolled_row_def split: if_splits)
  have "verify (cw_env c) db' \<noteq> Inr ()"
  proof
    assume "verify (cw_env c) db' = Inr ()"
    then have "all_ok (endpoint_checks db' row)" using row(1) by (auto simp: verify_all_ok verify_checks_def)
    then show False using row(2) alien by (simp add: endpoint_checks_def)
  qed
  then have "verify_schema (cw_env c) db' = Inl (StoreError ''storage_corrupt'')"
    by (auto simp: verify_schema_def split: sum.splits)
  then show "operation c snap action db' s = (Raised (StoreError ''storage_corrupt''), db', s)"
    by (simp add: operation_def prologue_def)
qed

end
