(* ===== verification/Comms_Facade_Examples.thy ===== *)
theory Comms_Facade_Examples
  imports Comms_Calls Comms_Fencing Comms_Examples Ahr_Mailbox
begin

text \<open>
  The properties of sends and of whole calls, applied to concrete calls: two members of one formation, an empty mailbox and the toy
  hand-off environment of \<^verbatim>\<open>Ahr_Replay\<close>.
\<close>

definition demo_config :: comms_config where
  "demo_config = \<lparr>cc_enabled = True, cc_group_row_limit = 256, cc_group_body_budget = 1048576, cc_retry_grace_seconds = 3600,
     cc_body_max_bytes = 1024, cc_outstanding_limit = 32, cc_fetch_max_items = 8, cc_response_max_bytes = 65536,
     cc_admissions_per_minute = 30, cc_poll_interval_seconds = 60, cc_lease_ttl_seconds = 900, cc_scope_max_recipients = 8,
     cc_scope_max_bytes = 512, cc_sqlite_busy_timeout_ms = 5000, cc_wait_max_seconds = 60, cc_wait_interval_ms = 1000,
     cc_message_ttl_seconds = 3600, cc_candidate_ttl_seconds = 3600\<rparr>"

definition demo_draws :: comms_draws where
  "demo_draws = \<lparr>dw_message = (\<lambda>n. demo_id (if n = 0 then CHR ''a'' else if n = 1 then CHR ''b'' else CHR ''c'')),
     dw_token = demo_id CHR ''f'', dw_traceparent = None\<rparr>"

definition demo_call :: "int \<Rightarrow> call_world" where
  "demo_call wall = \<lparr>cw_inbox = \<lparr>ib_comms = demo_env, ib_ahr = toy_env, ib_world = toy_world, ib_there = (\<lambda>_. True)\<rparr>,
     cw_config = demo_config, cw_isolated = True, cw_wall = wall, cw_draws = demo_draws,
     cw_item_bytes = (\<lambda>page. 100), cw_peer_bytes = (\<lambda>page. 100)\<rparr>"

definition demo_recipient :: "string \<Rightarrow> string list \<Rightarrow> RecipientSnapshot" where
  "demo_recipient m owned = \<lparr>rs_member = m, rs_eligible = True, rs_run = Some ''/r'', rs_pin = Some ''s'', rs_owned = owned, rs_terminal = False\<rparr>"

definition demo_snapshot :: "string \<Rightarrow> CallerSnapshot" where
  "demo_snapshot m = \<lparr>cs_binding = demo_binding m, cs_status = ''active'', cs_all_terminal = False,
     cs_recipients = [demo_recipient ''ann'' [], demo_recipient ''bob'' [''src/'']]\<rparr>"

definition demo_send :: facade_call where
  "demo_send = Send_call Not_paused (Some ''bob'') ''k1'' ''hello'' ''request'' ''on_demand'' None No_handoff"

lemma demo_env_ok: "env_ok demo_env"
proof -
  have "is_hex 64 (replicate 64 CHR ''0'')" by code_simp
  then show ?thesis by (simp add: env_ok_def demo_env_def)
qed

lemma demo_draws_ok: "draws_ok demo_draws"
proof -
  have "is_hex 32 (demo_id CHR ''a'')" "is_hex 32 (demo_id CHR ''b'')" "is_hex 32 (demo_id CHR ''c'')" "is_hex 32 (demo_id CHR ''f'')"
    by code_simp+
  then show ?thesis by (simp add: draws_ok_def demo_draws_def)
qed

lemma demo_config_ok: "valid_config demo_config"
  by (simp add: valid_config_def demo_config_def)

lemma demo_binding_ok: "binding_ok (demo_binding ''ann'')" "binding_ok (demo_binding ''bob'')"
  by code_simp+

lemma demo_may_call: "may_call demo_env (demo_call wall) (Inr (demo_snapshot ''ann'')) empty_mailbox"
  by (simp add: may_call_def call_ok_def demo_call_def demo_snapshot_def demo_env_ok demo_draws_ok demo_config_ok demo_binding_ok
      has_room_def next_rowid_def empty_mailbox_def MAX_COUNTER_def)

definition demo_fresh_db :: comms_db where
  "demo_fresh_db = empty_mailbox\<lparr>groups := [born_group (demo_binding ''ann'') 10 (policy_of_config demo_config)]\<rparr>"

lemma demo_call_simps [simp]:
  "cw_env (demo_call wall) = demo_env" "cw_config (demo_call wall) = demo_config" "cw_wall (demo_call wall) = wall"
  "cw_isolated (demo_call wall)" "cw_draws (demo_call wall) = demo_draws" "ib_ahr (cw_inbox (demo_call wall)) = toy_env"
  "cs_binding (demo_snapshot m) = demo_binding m" "\<not> cs_all_terminal (demo_snapshot m)" "terminal_members (demo_snapshot m) = []"
  by (simp_all add: demo_call_def demo_snapshot_def terminal_members_def demo_recipient_def)

lemma sweep_nothing: "ahr_events db = [] \<Longrightarrow> sweep_expired env w db gid now = Inr db"
  by (simp add: sweep_expired_def open_offers_def)

lemma demo_prologue: "prologue (demo_call 10) (demo_snapshot ''ann'') empty_mailbox = Inr ((10, False), demo_fresh_db)"
proof -
  let ?born = "born_group (demo_binding ''ann'') 10 (policy_of_config demo_config)"
  have "verify_schema demo_env empty_mailbox = Inr ()"
    using verify_ok [of empty_mailbox demo_env] empty_mailbox_ok [of demo_env] mailbox_okD(1) by (simp add: verify_schema_def)
  moreover have "effective_time empty_mailbox demo_gid 10 = Inr 10" by (simp add: effective_time_def empty_mailbox_def group_of_def)
  moreover have "ensure_group demo_env (demo_binding ''ann'') 10 (policy_of_config demo_config) empty_mailbox = Inr demo_fresh_db"
    by (simp add: ensure_group_def empty_mailbox_def group_of_def demo_fresh_db_def born_group_def demo_binding_def Let_def)
  moreover have "touch_group_time demo_gid 10 demo_fresh_db = demo_fresh_db"
    by (simp add: touch_group_time_def update_group_def demo_fresh_db_def born_group_def)
  moreover have "expire_due demo_gid 10 [] demo_fresh_db = demo_fresh_db"
    by (simp add: expire_due_def expire_where_def demo_fresh_db_def empty_mailbox_def)
  moreover have "tombstone_due demo_gid 10 n demo_fresh_db = demo_fresh_db" for n
    by (simp add: tombstone_due_def demo_fresh_db_def empty_mailbox_def)
  moreover have "group_of demo_fresh_db demo_gid = Some ?born" "gr_closed ?born = 0"
    by (simp_all add: group_of_def demo_fresh_db_def born_group_def)
  moreover have "ahr_events demo_fresh_db = []" by (simp add: demo_fresh_db_def empty_mailbox_def)
  ultimately show ?thesis by (simp add: prologue_def sweep_nothing)
qed

definition demo_envelope :: Envelope where
  "demo_envelope = \<lparr>nv_recipient = ''bob'', nv_key = ''k1'', nv_body = ''hello'', nv_kind = ''request'', nv_class = ''on_demand'', nv_derived = False\<rparr>"

lemma demo_fields [simp]:
  "nv_recipient demo_envelope = ''bob''" "nv_key demo_envelope = ''k1''" "nv_body demo_envelope = ''hello''" "nv_kind demo_envelope = ''request''"
  "nv_class demo_envelope = ''on_demand''" "cb_member (demo_binding m) = m" "rs_member (demo_recipient m globs) = m"
  "rs_eligible (demo_recipient m globs)"
  by (simp_all add: demo_envelope_def demo_binding_def demo_recipient_def)

lemma demo_envelope_ok: "envelope_refusal demo_envelope = None"
  by code_simp

lemma demo_admitted: "\<exists>r db. admit demo_env demo_draws (demo_snapshot ''ann'') demo_envelope 10 3600 False demo_fresh_db = Inr (r, db) \<and>
    map ad_recipient (admissions db) = [''bob'']"
proof -
  have empty: "admissions demo_fresh_db = []" "milestones demo_fresh_db = []"
    "group_of demo_fresh_db demo_gid = Some (born_group (demo_binding ''ann'') 10 (policy_of_config demo_config))"
    by (simp_all add: demo_fresh_db_def empty_mailbox_def group_of_def born_group_def)
  have found: "find_admission demo_fresh_db g m k = None" "shards demo_env demo_fresh_db g m k = []" for g m k
    by (simp_all add: find_admission_def shards_def empty)
  have free: "limit_refusal demo_fresh_db (born_group (demo_binding ''ann'') 10 (policy_of_config demo_config)) s r ''hello'' 10 = None" for s r
    by (simp add: limit_refusal_def born_group_def policy_of_config_def demo_config_def live_bytes_def empty outstanding_def
        recent_admissions_def sender_times_def)
  have peer: "find (\<lambda>r. rs_member r = ''bob'') (cs_recipients (demo_snapshot ''ann'')) = Some (demo_recipient ''bob'' [''src/''])"
    by (simp add: demo_snapshot_def demo_recipient_def)
  have "gr_closed (born_group (demo_binding ''ann'') 10 (policy_of_config demo_config)) = 0" by (simp add: born_group_def)
  then show ?thesis
    using peer by (simp add: admit_def validate_envelope_def demo_envelope_ok found empty free insert_admission_def new_admission_def message_row_def insert_milestone_def fact_at_def Let_def
        update_group_def add_milestone_def)
qed

lemma demo_touch: "touch demo_env (demo_binding ''ann'') 10 900 True demo_fresh_db fresh_memory = (Inr demo_fresh_db, fresh_memory)"
  by (simp add: touch_def current_cases is_displaced_def fresh_memory_def endpoint_of_def demo_fresh_db_def empty_mailbox_def Let_def)

lemma demo_sent: "\<exists>db. serve (demo_call 10) (Inr (demo_snapshot ''ann'')) demo_send empty_mailbox fresh_memory = (Said_replied, db) \<and>
    map ad_recipient (admissions db) = [''bob'']"
proof -
  obtain r db where "admit demo_env demo_draws (demo_snapshot ''ann'') demo_envelope 10 3600 False demo_fresh_db = Inr (r, db)"
      "map ad_recipient (admissions db) = [''bob'']"
    using demo_admitted by (elim exE conjE) (rule that)
  moreover have "cc_enabled demo_config" "cc_message_ttl_seconds demo_config = 3600" "cc_lease_ttl_seconds demo_config = 900"
    by (simp_all add: demo_config_def)
  moreover have "assert_eligible (demo_snapshot ''ann'') = Inr ()" by (simp add: assert_eligible_def demo_snapshot_def ELIGIBLE_STATUSES_def)
  ultimately show ?thesis
    by (simp add: demo_send_def send_once_def bound_caller_def send_refusal_def operation_def demo_prologue send_action_def demo_touch
        offer_record_def recorded_action_def demo_envelope_def [symmetric] Let_def)
qed

theorem served_mailbox_verifies_witness:
  "\<exists>db. served demo_env db \<and> map ad_recipient (admissions db) = [''bob''] \<and> verify_schema demo_env db = Inr ()"
proof -
  obtain db where db: "serve (demo_call 10) (Inr (demo_snapshot ''ann'')) demo_send empty_mailbox fresh_memory = (Said_replied, db)"
    "map ad_recipient (admissions db) = [''bob'']"
    using demo_sent by (elim exE conjE) (rule that)
  have "served demo_env db" by (rule serves [OF fresh demo_may_call db(1)])
  then show ?thesis using served_mailbox_verifies [of demo_env db] db(2) by (intro exI [of _ db] conjI)
qed

primrec regular_turns :: "nat \<Rightarrow> int \<Rightarrow> (comms_db \<times> process_memory \<times> wait_owner option, call_world \<times> (ahr_error + CallerSnapshot)) wait_turn list" where
  "regular_turns 0 now = []"
| "regular_turns (Suc n) now =
     \<lparr>wt_before = now, wt_interval = 1000000, wt_after = now + 1000000, wt_cancelled = (False, False, False), wt_meanwhile = (\<lambda>s. s),
      wt_world = (demo_call now, Inr (demo_snapshot ''bob''))\<rparr> # regular_turns n (now + 1000000)"

lemma regular_turns_keep_time: "keeps_time deadline now (regular_turns n now) \<and> length (regular_turns n now) = n"
  by (induction n arbitrary: now) simp_all

theorem wait_ends_witness:
  "inbox (demo_call 10) (Inr (demo_snapshot ''bob'')) A_fetch None None 60 None No_handoff 10 False False (regular_turns 3000 10)
     empty_mailbox fresh_memory \<noteq> None"
proof (rule wait_ends)
  show "valid_config (cw_config (demo_call 10))" by (simp add: demo_call_def demo_config_ok)
qed (simp_all add: regular_turns_keep_time)

section \<open>Sends\<close>

theorem retry_is_exact_witness:
  "\<exists>r db. admit demo_env demo_draws (demo_snapshot ''ann'') demo_envelope 10 3600 False demo_fresh_db = Inr (r, db) \<and>
     admit demo_env demo_draws (demo_snapshot ''ann'') demo_envelope 5000 3600 False (close_group demo_gid db) = Inr (r, close_group demo_gid db)"
proof -
  obtain r db where sent: "admit demo_env demo_draws (demo_snapshot ''ann'') demo_envelope 10 3600 False demo_fresh_db = Inr (r, db)"
    using demo_admitted by (elim exE conjE) (rule that)
  have rows: "admissions (close_group demo_gid db) = admissions db @ []" by (simp add: close_group_def update_group_def)
  have "list_all2 same_message (admissions db) (admissions db)" by (simp add: list_all2_same same_message_def)
  from retry_is_exact [OF sent this rows refl refl demo_envelope_ok, of demo_draws 5000 3600 False] sent
  show ?thesis by (intro exI [of _ r] exI [of _ db] conjI) simp_all
qed

definition demo_live_db :: comms_db where
  "demo_live_db = \<lparr>ahr_events = [], admissions = [], groups = [demo_group\<lparr>gr_charge := 0\<rparr>],
     endpoints = [\<lparr>en_group = demo_gid, en_member = ''bob'', en_incarnation = demo_id CHR ''e'', en_session = ''s'', en_run = ''/r'',
       en_enrolled = 5, en_seen = 5, en_lease = 900000005, en_generation = 1, en_protocol = ENDPOINT_PROTOCOL\<rparr>],
     milestones = [], refusal_counts = [], handoff_reports = []\<rparr>"

lemma demo_live_within: "within demo_env demo_gid 10 demo_live_db"
proof -
  have keys: "keys_ok demo_live_db" by (simp add: keys_ok_def demo_live_db_def unique_key_def)
  have "verify demo_env demo_live_db = Inr ()" by code_simp
  then have "mailbox_ok demo_env demo_live_db" using verify_ok [OF keys] by simp
  moreover have "group_of demo_live_db demo_gid = Some (demo_group\<lparr>gr_charge := 0\<rparr>)" by (simp add: demo_live_db_def group_of_def demo_group_def)
  ultimately show ?thesis by (simp add: within_def) (simp add: demo_group_def)
qed

lemma demo_notified: "case notify demo_env demo_draws (demo_snapshot ''ann'') ''src'' ''n1'' ''hello'' ''status'' ''on_demand'' 10 8 3600 demo_live_db of
    Inl e \<Rightarrow> False | Inr (n, db) \<Rightarrow> map fst (nt_receipts n) = [''bob'']"
  by code_simp


theorem notify_accounts_witness:
  "\<exists>n db. notify demo_env demo_draws (demo_snapshot ''ann'') ''src'' ''n1'' ''hello'' ''status'' ''on_demand'' 10 8 3600 demo_live_db = Inr (n, db) \<and>
     within demo_env demo_gid 10 db \<and>
     mset (map fst (nt_receipts n) @ map fst (nt_skipped n)) = mset (map rs_member (candidates (demo_snapshot ''ann'') ''src''))"
proof -
  obtain n db where run: "notify demo_env demo_draws (demo_snapshot ''ann'') ''src'' ''n1'' ''hello'' ''status'' ''on_demand'' 10 8 3600 demo_live_db = Inr (n, db)"
    using demo_notified by (auto split: sum.splits)
  have given: "within demo_env (cb_group (cs_binding (demo_snapshot ''ann''))) 10 demo_live_db" "binding_ok (cs_binding (demo_snapshot ''ann''))"
    "next_rowid demo_live_db + int 8 \<le> MAX_COUNTER" "(0::int) \<le> 3600"
    by (simp_all add: demo_live_within demo_binding_ok) (simp add: next_rowid_def demo_live_db_def MAX_COUNTER_def)
  from notify_accounts [OF given(1,3) demo_env_ok demo_draws_ok given(2,4) run]
  show ?thesis using run by (intro exI [of _ n] exI [of _ db] conjI) simp_all
qed




section \<open>The two states without a way out\<close>

definition impostor :: principal where
  "impostor = \<lparr>pr_id = ''trw-comms-store'', pr_kind = Agent, pr_rest = []\<rparr>"

definition impostor_handoff :: handoff where
  "impostor_handoff = toy_handoff\<lparr>ho_readback := Some \<lparr>rp_required = True, rp_reverify = [], rp_verifier = Some impostor\<rparr>\<rparr>"

definition impostor_log :: AhrLog where
  "impostor_log = (stamped toy_env (fresh_log toy_env impostor_handoff) toy_offer)\<lparr>lg_state := Some Is_offered\<rparr>"

definition impostor_row :: ahr_row where
  "impostor_row = event_row toy_env (fresh_log toy_env impostor_handoff) (demo_id CHR ''2'') toy_offer (Some (Handoff impostor_handoff))"

definition impostor_db :: comms_db where
  "impostor_db = demo_db\<lparr>ahr_events := [impostor_row]\<rparr>"

lemma impostor_fields [simp]:
  "ho_id impostor_handoff = ''h1''" "ho_tier impostor_handoff = Standard" "ho_from impostor_handoff = alice" "ho_to impostor_handoff = Named bob"
  "ho_created_at impostor_handoff = ''.''" "ho_expires_at impostor_handoff = Some ''.........''" "ho_supersedes impostor_handoff = []"
  "verifier_of impostor_handoff = Some impostor" "doc_digest toy_env (Handoff impostor_handoff) = ''sha256:h1''"
  "ho_integrity impostor_handoff = Some \<lparr>in_digest = ''sha256:h1'', in_signature = None\<rparr>"
  by (simp_all add: impostor_handoff_def verifier_of_def doc_digest_def toy_env_def toy_integrity)

lemma impostor_rules: "check_handoff toy_env impostor_handoff = []"
  by (simp add: check_handoff_def handoff_ids_def handoff_principals_def handoff_texts_def Let_def impostor_handoff_def impostor_def
      toy_handoff_def toy_defs claims_by_id_def put_row_def reverify_of_def verifier_of_def risk_ids_def flag_def placeholder_def
      PLACEHOLDERS_def option_list_def)

lemma impostor_valid: "valid_handoff toy_env impostor_handoff"
  by (simp add: valid_handoff_def check_doc_empty validate_def toy_validate impostor_rules integrity_of_def verifier_clash_def)

lemma impostor_offered: "step toy_env (fresh_log toy_env impostor_handoff) (Some (Event toy_offer)) None = Inr (impostor_log, [])"
  by (subst step_clean)
    (simp add: impostor_log_def admitted_def toy_event_valid toy_offer_def ref_refusal_def ref_of_def overdue_def kinds_of_def arm_def
      offered_def fresh_log_def log_expires_at_def sender_id_def impostor_def)

lemma impostor_state: "lg_state impostor_log = Some Is_offered" "lg_handoff impostor_log = impostor_handoff"
  by (simp_all add: impostor_log_def stamped_def fresh_log_def)

lemma impostor_row_fields: "ar_handoff_id impostor_row = ''h1''" "ar_record impostor_row = Some (Handoff impostor_handoff)"
  "ar_seq impostor_row = 1" "ar_message impostor_row = demo_id CHR ''2''" "ar_event impostor_row = ''offered''"
  by (simp_all add: impostor_row_def toy_offer_def)

lemma impostor_rebuilt: "rebuild toy_env impostor_db ''h1'' = Inr impostor_log"
proof -
  have "log_rows impostor_db ''h1'' = [impostor_row]" by (simp add: log_rows_def impostor_db_def impostor_row_fields)
  moreover have "replay_row toy_env impostor_db impostor_row (fresh_log toy_env impostor_handoff) = Inr impostor_log"
    using impostor_offered by (simp add: replay_row_def stored_target_def impostor_row_def toy_offer_def ref_of_def)
  ultimately show ?thesis
    by (simp add: rebuild_rows [OF _ impostor_row_fields(2) impostor_valid])
qed

theorem impostor_blocks_group_witness:
  "\<exists>e. operation (demo_call 100) (demo_snapshot ''ann'') (\<lambda>now closed db s. (Inr ((), db), s)) impostor_db () = (Raised e, impostor_db, ())"
proof (rule impostor_blocks_group)
  show "store_ok impostor_db" by (simp add: store_ok_def impostor_db_def impostor_row_def)
  have "in_group demo_db demo_gid (demo_id CHR ''2'')" by code_simp
  then have "in_group impostor_db demo_gid (demo_id CHR ''2'')" by (simp add: in_group_def impostor_db_def)
  then show "impostor_row \<in> set (open_offers impostor_db (cb_group (cs_binding (demo_snapshot ''ann''))))"
    by (simp add: open_offers_def impostor_row_fields expiry_of_def ended_events_def) (simp add: impostor_db_def impostor_row_fields)
  show "rebuild (ib_ahr (cw_inbox (demo_call 100))) impostor_db (ar_handoff_id impostor_row) = Inr impostor_log"
    by (simp add: impostor_row_fields impostor_rebuilt)
  show "kinds_of (lg_handoff impostor_log) ''trw-comms-store'' = Some Agent"
    by (simp add: impostor_state kinds_of_def impostor_def)
  show "ar_record impostor_row = Some (Handoff (lg_handoff impostor_log))" by (simp add: impostor_row_fields impostor_state)
  show "ho_expires_at (lg_handoff impostor_log) = Some ''.........''" by (simp add: impostor_state)
qed (simp_all add: impostor_state)

theorem newline_member_poisons_witness:
  "\<exists>x db. enroll demo_env (demo_id CHR ''f'') (demo_binding (''bob'' @ [CHR 0x0A])) 10 900 demo_live_db fresh_memory = (Inr (x, db), fresh_memory) \<and>
     operation (demo_call 100) (demo_snapshot ''ann'') (\<lambda>now closed db s. (Inr ((), db), s)) db () =
       (Raised (StoreError ''storage_corrupt''), db, ())"
proof -
  have "\<exists>x db. enroll demo_env (demo_id CHR ''f'') (demo_binding (''bob'' @ [CHR 0x0A])) 10 900 demo_live_db fresh_memory = (Inr (x, db), fresh_memory)"
    by (simp add: enroll_def current_cases Let_def fresh_memory_def is_displaced_def split: option.split)
  then obtain x db where run: "enroll demo_env (demo_id CHR ''f'') (demo_binding (''bob'' @ [CHR 0x0A])) 10 900 demo_live_db fresh_memory = (Inr (x, db), fresh_memory)"
    by (elim exE) (rule that)
  have member: "cb_member (demo_binding (''bob'' @ [CHR 0x0A])) = ''bob'' @ [CHR 0x0A]" by simp
  have "enroll (cw_env (demo_call 100)) (demo_id CHR ''f'') (demo_binding (''bob'' @ [CHR 0x0A])) 10 900 demo_live_db fresh_memory = (Inr (x, db), fresh_memory)"
    using run by simp
  from newline_member_poisons [OF this member] run show ?thesis by (intro exI [of _ x] exI [of _ db] conjI) (rule run, rule conjunct2)
qed

end
