(* ===== verification/Formation_Store.thy ===== *)
theory Formation_Store
  imports Formation_Ownership
begin

text \<open>
  The stores of a formation (\<^verbatim>\<open>src/trw_mcp/formation/_candidates.py\<close>, \<^verbatim>\<open>_coordination.py\<close>, \<^verbatim>\<open>_admission.py\<close> and the index of
  \<^verbatim>\<open>_store.py\<close>): the candidate registry, the worktree records, the pointer index, the manifests and the stamps on runs.

  \<^item> The stores share no transaction, so an action is a function to a result and the stores it leaves, also when it raises: what
    was written before a raise stays written.
  \<^item> Each registry operation holds its file's lock throughout and is one step here. An absent file is an empty store.
  \<^item> \<open>resolve\<close> is \<^verbatim>\<open>Path.resolve\<close>; times are integers in microseconds; \<open>None\<close> for an optional \<^verbatim>\<open>admitted_formation\<close> argument is
    the sentinel \<^verbatim>\<open>_KEEP\<close>.
\<close>

section \<open>Stores\<close>

datatype CandidateState = C_ACTIVE | C_ADMITTED | C_JOINING | C_WITHDRAWN | C_REVOKED | C_PICKED_UP

record Candidate =
  cd_id :: string
  cd_pin :: string
  cd_run :: string
  cd_worktree :: "string option"
  cd_client :: string
  cd_announced :: int
  cd_expires :: int
  cd_state :: CandidateState
  cd_formation :: "string option"

record worktree_row =
  wr_worktree :: string
  wr_formation :: string
  wr_member :: string
  wr_manifest_revision :: int
  wr_creating_run :: string
  wr_revision :: int

text \<open>What a run's own record says of its formation: the live ids, or the revoked ones.\<close>

record run_stamp =
  rn_formation :: "string option"
  rn_member :: "string option"
  rn_revoked :: "(string \<times> string option) option"

record formation_store =
  fs_candidates :: "Candidate list"
  fs_worktrees :: "worktree_row list"
  fs_index :: "(string \<times> string) list"
  fs_manifests :: "(string \<times> FormationManifest) list"
  fs_runs :: "(string \<times> run_stamp) list"

type_synonym 'a store_action = "formation_store \<Rightarrow> (formation_error + 'a) \<times> formation_store"

definition bindA :: "'a store_action \<Rightarrow> ('a \<Rightarrow> 'b store_action) \<Rightarrow> 'b store_action" where
  "bindA m k s = (case m s of (Inl e, s') \<Rightarrow> (Inl e, s') | (Inr x, s') \<Rightarrow> k x s')"

abbreviation failed :: "string \<Rightarrow> formation_error + 'a" where
  "failed reason \<equiv> Inl (FormationError reason)"

section \<open>Candidates\<close>

definition CANDIDATE_CAP :: nat where
  "CANDIDATE_CAP = 64"

definition LIVE_STATES :: "CandidateState list" where
  "LIVE_STATES = [C_ACTIVE, C_ADMITTED, C_JOINING]"

fun TRANSITIONS :: "CandidateState \<Rightarrow> CandidateState list" where
  "TRANSITIONS C_ACTIVE = [C_ADMITTED, C_WITHDRAWN, C_REVOKED]"
| "TRANSITIONS C_ADMITTED = [C_ACTIVE, C_JOINING, C_WITHDRAWN, C_REVOKED]"
| "TRANSITIONS C_JOINING = [C_PICKED_UP, C_WITHDRAWN, C_REVOKED]"
| "TRANSITIONS _ = []"

definition live :: "int \<Rightarrow> Candidate \<Rightarrow> bool" where
  "live now c \<longleftrightarrow> cd_state c \<in> set LIVE_STATES \<and> now < cd_expires c"

definition same_caller :: "(string \<Rightarrow> string) \<Rightarrow> string \<Rightarrow> string \<Rightarrow> Candidate \<Rightarrow> bool" where
  "same_caller resolve pin run c \<longleftrightarrow> cd_pin c = pin \<and> resolve (cd_run c) = resolve run"

definition write_candidates :: "Candidate list \<Rightarrow> formation_store \<Rightarrow> formation_store" where
  "write_candidates records s = s\<lparr>fs_candidates := sort_key cd_id records\<rparr>"

definition announced_record ::
    "(string \<Rightarrow> string) \<Rightarrow> string \<Rightarrow> int \<Rightarrow> int \<Rightarrow> string \<Rightarrow> string \<Rightarrow> string option \<Rightarrow> string \<Rightarrow> Candidate option \<Rightarrow> Candidate" where
  "announced_record resolve token now ttl pin run worktree client mine =
     \<lparr>cd_id = (case mine of None \<Rightarrow> token | Some c \<Rightarrow> cd_id c), cd_pin = pin, cd_run = resolve run, cd_worktree = worktree,
      cd_client = client, cd_announced = (case mine of None \<Rightarrow> now | Some c \<Rightarrow> cd_announced c), cd_expires = now + ttl,
      cd_state = (case mine of None \<Rightarrow> C_ACTIVE | Some c \<Rightarrow> cd_state c),
      cd_formation = (case mine of None \<Rightarrow> None | Some c \<Rightarrow> cd_formation c)\<rparr>"

definition announce ::
    "(string \<Rightarrow> string) \<Rightarrow> string \<Rightarrow> int \<Rightarrow> int \<Rightarrow> string \<Rightarrow> string \<Rightarrow> string option \<Rightarrow> string \<Rightarrow> Candidate store_action" where
  "announce resolve token now ttl pin run worktree client s =
     (let records = filter (live now) (fs_candidates s); mine = find (same_caller resolve pin run) records in
      if mine = None \<and> CANDIDATE_CAP \<le> length records then (Inl (CandidateError ''candidate_registry_full''), s)
      else let c = announced_record resolve token now ttl pin run worktree client mine
           in (Inr c, write_candidates (put_row cd_id c records) s))"

definition apply_transition :: "Candidate \<Rightarrow> CandidateState \<Rightarrow> string option option \<Rightarrow> formation_error + Candidate" where
  "apply_transition c state formation =
     (let retry = (state = cd_state c \<and> formation \<in> {None, Some (cd_formation c)}) in
      if \<not> retry \<and> state \<notin> set (TRANSITIONS (cd_state c)) then failed ''illegal transition''
      else Inr (c\<lparr>cd_state := state, cd_formation := (case formation of None \<Rightarrow> cd_formation c | Some f \<Rightarrow> f)\<rparr>))"

definition set_candidate_state :: "string \<Rightarrow> CandidateState \<Rightarrow> string option option \<Rightarrow> Candidate option store_action" where
  "set_candidate_state handle state formation s =
     (case find_row cd_id handle (fs_candidates s) of
        None \<Rightarrow> (Inr None, s)
      | Some c \<Rightarrow> (case apply_transition c state formation of
            Inl e \<Rightarrow> (Inl e, s)
          | Inr c' \<Rightarrow> (Inr (Some c'), write_candidates (put_row cd_id c' (fs_candidates s)) s)))"

record StateTransition =
  tr_handle :: string
  tr_state :: CandidateState
  tr_formation :: "string option option"
  tr_expected :: "string option option"
  tr_required :: bool

definition transition_step ::
    "StateTransition \<Rightarrow> Candidate list \<times> Candidate list \<Rightarrow> formation_error + Candidate list \<times> Candidate list" where
  "transition_step t acc =
     (let (records, revised) = acc in
      case find_row cd_id (tr_handle t) records of
        None \<Rightarrow> if tr_required t then failed ''unknown candidate'' else Inr acc
      | Some c \<Rightarrow>
          if cd_state c = C_ADMITTED \<and> tr_expected t \<notin> {None, Some (cd_formation c)} then failed ''not the owning formation''
          else (case apply_transition c (tr_state t) (tr_formation t) of
              Inl e \<Rightarrow> if tr_required t then Inl e else Inr acc
            | Inr c' \<Rightarrow> Inr (put_row cd_id c' records, revised @ [c'])))"

definition set_states :: "StateTransition list \<Rightarrow> Candidate list store_action" where
  "set_states ts s =
     (case foldE transition_step ts (fs_candidates s, []) of
        Inl e \<Rightarrow> (Inl e, s)
      | Inr (records, revised) \<Rightarrow> (Inr revised, if revised = [] then s else write_candidates records s))"

definition candidate_named :: "formation_store \<Rightarrow> string \<Rightarrow> Candidate option" where
  "candidate_named s handle = find_row cd_id handle (fs_candidates s)"

text \<open>The newest of the caller's records; the first of equals.\<close>

definition newest :: "Candidate list \<Rightarrow> Candidate option" where
  "newest cs = fold (\<lambda>c best. case best of None \<Rightarrow> Some c | Some b \<Rightarrow> if cd_announced b < cd_announced c then Some c else best) cs None"

definition candidate_for :: "(string \<Rightarrow> string) \<Rightarrow> formation_store \<Rightarrow> string \<Rightarrow> string \<Rightarrow> Candidate option" where
  "candidate_for resolve s pin run = newest (filter (same_caller resolve pin run) (fs_candidates s))"

definition live_candidates :: "formation_store \<Rightarrow> int \<Rightarrow> Candidate list" where
  "live_candidates s now = sort_key cd_announced (filter (live now) (fs_candidates s))"

definition worktree_admitted_by :: "(string \<Rightarrow> string) \<Rightarrow> formation_store \<Rightarrow> string \<Rightarrow> string \<Rightarrow> bool" where
  "worktree_admitted_by resolve s worktree formation \<longleftrightarrow>
     list_ex (\<lambda>c. cd_worktree c = Some (resolve worktree) \<and> cd_state c = C_ADMITTED \<and> cd_formation c = Some formation) (fs_candidates s)"

section \<open>Worktree records\<close>

definition worktree_record :: "(string \<Rightarrow> string) \<Rightarrow> formation_store \<Rightarrow> string \<Rightarrow> worktree_row option" where
  "worktree_record resolve s worktree = find_row wr_worktree (resolve worktree) (fs_worktrees s)"

definition record_worktree_member ::
    "(string \<Rightarrow> string) \<Rightarrow> string \<Rightarrow> string \<Rightarrow> string \<Rightarrow> int \<Rightarrow> string \<Rightarrow> worktree_row store_action" where
  "record_worktree_member resolve worktree formation member manifest_revision creating_run s =
     (let existing = worktree_record resolve s worktree;
          row = \<lparr>wr_worktree = resolve worktree, wr_formation = formation, wr_member = member,
            wr_manifest_revision = manifest_revision, wr_creating_run = creating_run,
            wr_revision = (case existing of None \<Rightarrow> 1 | Some r \<Rightarrow> wr_revision r + 1)\<rparr>
      in if (case existing of None \<Rightarrow> False | Some r \<Rightarrow> wr_formation r \<noteq> formation \<and> worktree_admitted_by resolve s worktree (wr_formation r))
         then (failed ''worktree held by another formation'', s)
         else (Inr row, s\<lparr>fs_worktrees := put_row wr_worktree row (fs_worktrees s)\<rparr>))"

definition release_worktree_member :: "(string \<Rightarrow> string) \<Rightarrow> string \<Rightarrow> string \<Rightarrow> formation_store \<Rightarrow> formation_store" where
  "release_worktree_member resolve formation worktree s =
     (if map_option wr_formation (worktree_record resolve s worktree) = Some formation
      then s\<lparr>fs_worktrees := drop_rows wr_worktree (resolve worktree) (fs_worktrees s)\<rparr> else s)"

section \<open>Admission\<close>

type_synonym admissions_plan = "FormationMember list \<times> (FormationMember \<times> Candidate) list"

definition admissible :: "formation_store \<Rightarrow> int \<Rightarrow> string \<Rightarrow> string list \<Rightarrow> string \<Rightarrow> Candidate option" where
  "admissible s now formation committed handle =
     (case candidate_named s handle of
        None \<Rightarrow> None
      | Some c \<Rightarrow>
          let stranded = (cd_state c = C_ADMITTED \<and> cd_formation c = Some formation \<and> handle \<notin> set committed) in
          if live now c \<and> (cd_state c = C_ACTIVE \<or> stranded) then Some c else None)"

definition handles :: "FormationMember list \<Rightarrow> string list" where
  "handles members = concat (map (\<lambda>m. case fm_candidate m of None \<Rightarrow> [] | Some h \<Rightarrow> [h]) members)"

text \<open>One member of the loop of \<^verbatim>\<open>admitted_members\<close>; \<open>forged\<close> are the members whose payload names an admitting revision.\<close>

definition admit_member ::
    "formation_store \<Rightarrow> int \<Rightarrow> FormationMember list \<Rightarrow> string \<Rightarrow> int \<Rightarrow> string list \<Rightarrow> FormationMember \<Rightarrow> admissions_plan \<Rightarrow>
     formation_error + admissions_plan" where
  "admit_member s now before formation revision forged m plan =
     (let (stamped, admitted) = plan; prior = find_row fm_id (fm_id m) before in
      if fm_id m \<in> set forged then failed ''admitted_revision is server-set''
      else (case fm_candidate m of
          None \<Rightarrow> Inr (stamped @ [m\<lparr>fm_candidate_revision := None\<rparr>], admitted)
        | Some h \<Rightarrow>
            if Option.bind prior fm_candidate = Some h
            then Inr (stamped @ [m\<lparr>fm_candidate_revision := Option.bind prior fm_candidate_revision\<rparr>], admitted)
            else if fm_run m \<noteq> None then failed ''already joined''
            else (case admissible s now formation (handles before) h of
                None \<Rightarrow> failed ''candidate_not_admissible''
              | Some c \<Rightarrow> let m' = m\<lparr>fm_candidate_revision := Some revision\<rparr> in Inr (stamped @ [m'], admitted @ [(m', c)]))))"

definition released_handles :: "FormationMember list \<Rightarrow> FormationMember list \<Rightarrow> string list" where
  "released_handles before members =
     handles (filter (\<lambda>m. fm_run m = None \<and> set (handles [m]) \<inter> set (handles members) = {}) before)"

definition admitted_members ::
    "formation_store \<Rightarrow> int \<Rightarrow> FormationMember list \<Rightarrow> FormationMember list \<Rightarrow> string \<Rightarrow> int \<Rightarrow> string list \<Rightarrow>
     formation_error + FormationMember list \<times> (FormationMember \<times> Candidate) list \<times> string list" where
  "admitted_members s now before members formation revision forged =
     bindE (foldE (admit_member s now before formation revision forged) members ([], [])) (\<lambda>(stamped, admitted).
       Inr (stamped, admitted, released_handles before members))"

definition admission_op :: "string \<Rightarrow> string \<Rightarrow> StateTransition" where
  "admission_op formation handle =
     \<lparr>tr_handle = handle, tr_state = C_ADMITTED, tr_formation = Some (Some formation), tr_expected = None, tr_required = True\<rparr>"

definition release_op :: "string \<Rightarrow> string \<Rightarrow> StateTransition" where
  "release_op formation handle =
     \<lparr>tr_handle = handle, tr_state = C_ACTIVE, tr_formation = Some None, tr_expected = Some (Some formation), tr_required = False\<rparr>"

text \<open>The records of the admitted worktrees; a refused one undoes those before it and gives the candidates back.\<close>

fun record_admitted ::
    "(string \<Rightarrow> string) \<Rightarrow> string \<Rightarrow> string \<Rightarrow> string list \<Rightarrow> (FormationMember \<times> Candidate) list \<Rightarrow> string list \<Rightarrow> unit store_action" where
  "record_admitted resolve formation orchestrator_run admitted [] written s = (Inr (), s)"
| "record_admitted resolve formation orchestrator_run admitted ((m, c) # rest) written s =
     (case cd_worktree c of
        None \<Rightarrow> record_admitted resolve formation orchestrator_run admitted rest written s
      | Some w \<Rightarrow>
          (case record_worktree_member resolve w formation (fm_id m) (case fm_candidate_revision m of None \<Rightarrow> 0 | Some r \<Rightarrow> r) orchestrator_run s of
             (Inr row, s') \<Rightarrow> record_admitted resolve formation orchestrator_run admitted rest (written @ [w]) s'
           | (Inl e, s') \<Rightarrow>
               bindA (set_states (map (release_op formation) admitted)) (\<lambda>revised s2. (Inl e, s2))
                 (fold (release_worktree_member resolve formation) written s')))"

definition commit_admissions ::
    "(string \<Rightarrow> string) \<Rightarrow> string \<Rightarrow> string \<Rightarrow> (FormationMember \<times> Candidate) list \<Rightarrow> string list \<Rightarrow> unit store_action" where
  "commit_admissions resolve formation orchestrator_run admitted released s =
     (let worktrees = concat (map (\<lambda>h. case Option.bind (candidate_named s h) cd_worktree of None \<Rightarrow> [] | Some w \<Rightarrow> [w]) released);
          names = map (\<lambda>(m, c). cd_id c) admitted
      in bindA (set_states (map (admission_op formation) names @ map (release_op formation) released)) (\<lambda>revised s1.
           record_admitted resolve formation orchestrator_run names admitted []
             (fold (release_worktree_member resolve formation) worktrees s1)) s)"

text \<open>The gate of a pending slot.\<close>

definition require_join_admitted ::
    "(string \<Rightarrow> string) \<Rightarrow> formation_store \<Rightarrow> int \<Rightarrow> FormationMember \<Rightarrow> string option \<Rightarrow> string \<Rightarrow> string option \<Rightarrow> formation_error + unit" where
  "require_join_admitted resolve s now m handle run pin =
     (if fm_open_join m then Inr ()
      else if fm_candidate m = None \<or> handle \<noteq> fm_candidate m then Inl (AdmissionRefused ''join_not_admitted'')
      else (case Option.bind handle (candidate_named s) of
          None \<Rightarrow> Inl (AdmissionRefused ''admission_revoked'')
        | Some c \<Rightarrow>
            if \<not> live now c \<or> pin \<noteq> Some (cd_pin c) \<or> resolve (cd_run c) \<noteq> resolve run
            then Inl (AdmissionRefused ''admission_revoked'') else Inr ()))"

section \<open>Stamps on runs\<close>

definition stamp_of :: "formation_store \<Rightarrow> string \<Rightarrow> run_stamp option" where
  "stamp_of s run = map_of (fs_runs s) run"

definition write_stamp :: "string \<Rightarrow> run_stamp \<Rightarrow> formation_store \<Rightarrow> formation_store" where
  "write_stamp run r s = s\<lparr>fs_runs := put_row fst (run, r) (fs_runs s)\<rparr>"

definition stamp_run_record :: "string \<Rightarrow> string \<Rightarrow> string \<Rightarrow> unit store_action" where
  "stamp_run_record run formation member s =
     (case stamp_of s run of
        None \<Rightarrow> (failed ''no run record to stamp'', s)
      | Some r \<Rightarrow> (Inr (), write_stamp run (r\<lparr>rn_formation := Some formation, rn_member := Some member\<rparr>) s))"

definition restore_missing_stamp :: "string \<Rightarrow> string \<Rightarrow> FormationMember \<Rightarrow> string option \<Rightarrow> unit store_action" where
  "restore_missing_stamp run formation m pin s =
     (if fm_status m \<notin> {Joined, Active} then (failed ''not joined or active'', s)
      else if pin \<noteq> None \<and> fm_pin m \<noteq> None \<and> pin \<noteq> fm_pin m then (failed ''pinned to a different session'', s)
      else (case stamp_of s run of
          None \<Rightarrow> (failed ''no run record to repair'', s)
        | Some r \<Rightarrow>
            (Inr (), if rn_formation r = None \<and> rn_revoked r = None
               then write_stamp run (r\<lparr>rn_formation := Some formation, rn_member := Some (fm_id m)\<rparr>) s else s)))"

definition revoke_run_stamp :: "string \<Rightarrow> formation_store \<Rightarrow> formation_store" where
  "revoke_run_stamp run s =
     (case stamp_of s run of
        None \<Rightarrow> s
      | Some r \<Rightarrow>
          (case rn_formation r of
             None \<Rightarrow> s
           | Some f \<Rightarrow> write_stamp run \<lparr>rn_formation = None, rn_member = None, rn_revoked = Some (f, rn_member r)\<rparr> s))"

text \<open>\<^verbatim>\<open>stamped_ids\<close>: empty ids count as absent.\<close>

definition nonempty :: "string option \<Rightarrow> string option" where
  "nonempty x = (if x = Some [] then None else x)"

definition stamped_ids :: "formation_store \<Rightarrow> string \<Rightarrow> (string \<times> string option) option" where
  "stamped_ids s run =
     (case stamp_of s run of
        None \<Rightarrow> None
      | Some r \<Rightarrow> (case nonempty (rn_formation r) of None \<Rightarrow> None | Some f \<Rightarrow> Some (f, nonempty (rn_member r))))"

section \<open>The index and the manifests\<close>

definition register_formation :: "string \<Rightarrow> string \<Rightarrow> formation_store \<Rightarrow> formation_store" where
  "register_formation formation run s = s\<lparr>fs_index := sort_key fst (put_row fst (formation, run) (fs_index s))\<rparr>"

text \<open>A manifest lies in its orchestrator's run directory, so its path is that run.\<close>

definition resolve_manifest_path :: "formation_store \<Rightarrow> string \<Rightarrow> formation_error + string" where
  "resolve_manifest_path s formation =
     (case map_of (fs_index s) formation of None \<Rightarrow> failed ''unknown formation_id'' | Some run \<Rightarrow> Inr run)"

definition read_manifest :: "formation_store \<Rightarrow> string \<Rightarrow> formation_error + FormationManifest" where
  "read_manifest s run = (case map_of (fs_manifests s) run of None \<Rightarrow> failed ''unreadable'' | Some f \<Rightarrow> check_manifest f)"

definition write_manifest :: "string \<Rightarrow> FormationManifest \<Rightarrow> formation_store \<Rightarrow> formation_store" where
  "write_manifest run f s = s\<lparr>fs_manifests := put_row fst (run, f) (fs_manifests s)\<rparr>"

definition member_of :: "FormationManifest \<Rightarrow> string \<Rightarrow> formation_error + FormationMember" where
  "member_of f member = (case find_row fm_id member (mf_members f) of None \<Rightarrow> failed ''no such member'' | Some m \<Rightarrow> Inr m)"

record FormationContext =
  cx_manifest :: FormationManifest
  cx_path :: string
  cx_member :: "string option"
  cx_orchestrator :: bool

definition truthy_run :: "FormationMember \<Rightarrow> string option" where
  "truthy_run m = nonempty (fm_run m)"

definition own_slot :: "(string \<Rightarrow> string) \<Rightarrow> FormationManifest \<Rightarrow> string \<Rightarrow> string option" where
  "own_slot resolve f run =
     (case filter (\<lambda>m. map_option resolve (truthy_run m) = Some (resolve run)) (mf_members f) of [m] \<Rightarrow> Some (fm_id m) | _ \<Rightarrow> None)"

definition own_slot_if_caller ::
    "(string \<Rightarrow> string) \<Rightarrow> FormationContext \<Rightarrow> string \<Rightarrow> string option \<Rightarrow> string option \<Rightarrow> string option" where
  "own_slot_if_caller resolve cx run pinned session =
     (case (cx_member cx, pinned, session) of
        (Some member, Some p, Some sid) \<Rightarrow>
          if resolve p \<noteq> resolve run then None
          else (case find_row fm_id member (mf_members (cx_manifest cx)) of
              None \<Rightarrow> None | Some m \<Rightarrow> if fm_pin m = Some sid then Some member else None)
      | _ \<Rightarrow> None)"

definition resolve_active :: "(string \<Rightarrow> string) \<Rightarrow> formation_store \<Rightarrow> string option \<Rightarrow> formation_error + FormationContext option" where
  "resolve_active resolve s run =
     (case run of
        None \<Rightarrow> Inr None
      | Some r \<Rightarrow>
          if map_of (fs_manifests s) r \<noteq> None
          then bindE (read_manifest s r) (\<lambda>f. Inr (Some \<lparr>cx_manifest = f, cx_path = r, cx_member = own_slot resolve f r, cx_orchestrator = True\<rparr>))
          else (case stamped_ids s r of
              None \<Rightarrow> Inr None
            | Some (formation, member) \<Rightarrow>
                bindE (resolve_manifest_path s formation) (\<lambda>path.
                bindE (read_manifest s path) (\<lambda>f.
                  Inr (Some \<lparr>cx_manifest = f, cx_path = path, cx_member = member, cx_orchestrator = False\<rparr>)))))"

end
