(* ===== verification/Formation_Joining.thy ===== *)
theory Formation_Joining
  imports Formation_Store
begin

text \<open>
  Creating, joining and revising a formation (\<^verbatim>\<open>src/trw_mcp/formation/_join.py\<close>, \<^verbatim>\<open>_slots.py\<close>, \<^verbatim>\<open>_orchestrator.py\<close>).

  \<^item> Each verb reads and rewrites its manifest under the manifest's lock, so it is one step; what it writes to the other stores
    before it raises stays.
  \<^item> A raw payload is typed here: \<open>member_changes\<close> holds the fields an update names, \<open>slot\<close> the keys a new slot names beside the
    member they make. The payload of \<open>create\<close> comes with its defaults (revision, times) filled in; \<open>forged\<close> are the members whose
    payload names an admitting revision.
\<close>

record formation_env =
  fe_resolve :: "string \<Rightarrow> string"
  fe_iso :: "int \<Rightarrow> string"
  fe_adopted :: "string \<Rightarrow> string option"
  fe_prd_taken :: "string \<Rightarrow> bool"
  fe_factory :: bool

definition same_path :: "string \<Rightarrow> string \<Rightarrow> bool" where
  "same_path a b \<longleftrightarrow> pure_root a = pure_root b \<and> pure_parts a = pure_parts b"

definition on_member :: "string \<Rightarrow> (FormationMember \<Rightarrow> FormationMember) \<Rightarrow> FormationMember list \<Rightarrow> FormationMember list" where
  "on_member member g members = map (\<lambda>m. if fm_id m = member then g m else m) members"

definition revised :: "formation_env \<Rightarrow> int \<Rightarrow> FormationManifest \<Rightarrow> FormationMember list \<Rightarrow> FormationManifest" where
  "revised env now f members = f\<lparr>mf_members := members, mf_revision := mf_revision f + 1, mf_updated := fe_iso env now\<rparr>"

text \<open>The manifest a verb opens.\<close>

definition opened :: "formation_store \<Rightarrow> string \<Rightarrow> formation_error + string \<times> FormationManifest" where
  "opened s formation = bindE (resolve_manifest_path s formation) (\<lambda>path. bindE (read_manifest s path) (\<lambda>f. Inr (path, f)))"

definition require_orchestrator :: "formation_env \<Rightarrow> FormationManifest \<Rightarrow> string option \<Rightarrow> formation_error + unit" where
  "require_orchestrator env f caller =
     (if map_option (fe_resolve env) caller = Some (fe_resolve env (mf_orchestrator f)) then Inr ()
      else failed ''accepted only from the orchestrator run'')"

section \<open>Joining\<close>

definition joined_member :: "formation_env \<Rightarrow> int \<Rightarrow> string \<Rightarrow> string option \<Rightarrow> FormationMember \<Rightarrow> FormationMember" where
  "joined_member env now run pin m = m\<lparr>fm_run := Some run, fm_pin := pin, fm_status := Joined, fm_joined := Some (fe_iso env now)\<rparr>"

definition join_formation ::
    "formation_env \<Rightarrow> int \<Rightarrow> string \<Rightarrow> string \<Rightarrow> string \<Rightarrow> string option \<Rightarrow> string option \<Rightarrow> FormationManifest store_action" where
  "join_formation env now formation member run pin handle s =
     (case bindE (opened s formation) (\<lambda>(path, f). bindE (member_of f member) (\<lambda>m. Inr (path, f, m))) of
        Inl e \<Rightarrow> (Inl e, s)
      | Inr (path, f, m) \<Rightarrow>
          (case truthy_run m of
             Some recorded \<Rightarrow>
               if \<not> same_path recorded run then (failed ''refusing to rebind'', s)
               else if pin = None \<or> fm_pin m \<in> {None, pin}
               then bindA (restore_missing_stamp run formation m pin) (\<lambda>_ s'. (Inr f, s')) s
               else if Option.bind pin (fe_adopted env) \<noteq> fm_pin m then (failed ''rebind_not_authorized'', s)
               else let f' = revised env now f (on_member member (fm_pin_update (\<lambda>_. pin)) (mf_members f)) in (Inr f', write_manifest path f' s)
           | None \<Rightarrow>
               (case require_join_admitted (fe_resolve env) s now m handle run pin of
                  Inl e \<Rightarrow> (Inl e, s)
                | Inr _ \<Rightarrow>
                    let f' = revised env now f (on_member member (joined_member env now run pin) (mf_members f))
                    in bindA (stamp_run_record run formation member) (\<lambda>_ s'. (Inr f', s')) (write_manifest path f' s))))"

section \<open>Revising\<close>

record member_changes =
  ch_id :: "string option"
  ch_client :: "string option"
  ch_role :: "string option"
  ch_run :: "string option option"
  ch_pin :: "string option option"
  ch_owned :: "string list option"
  ch_test_owned :: "string list option"
  ch_prds :: "string list option"
  ch_status :: "member_status option"
  ch_joined :: "string option option"
  ch_note :: "string option"
  ch_open_join :: "bool option"
  ch_candidate :: "string option option"
  ch_revision :: "int option option"
  ch_unknown :: bool

definition or_keep :: "'a option \<Rightarrow> 'a \<Rightarrow> 'a" where
  "or_keep change old = (case change of None \<Rightarrow> old | Some new \<Rightarrow> new)"

definition apply_changes :: "FormationMember \<Rightarrow> member_changes \<Rightarrow> formation_error + FormationMember" where
  "apply_changes m ch =
     (if ch_unknown ch then failed ''invalid update''
      else check_member
        \<lparr>fm_id = or_keep (ch_id ch) (fm_id m), fm_client = or_keep (ch_client ch) (fm_client m), fm_role = or_keep (ch_role ch) (fm_role m),
         fm_run = or_keep (ch_run ch) (fm_run m), fm_pin = or_keep (ch_pin ch) (fm_pin m), fm_owned = or_keep (ch_owned ch) (fm_owned m),
         fm_test_owned = or_keep (ch_test_owned ch) (fm_test_owned m), fm_prds = or_keep (ch_prds ch) (fm_prds m),
         fm_status = or_keep (ch_status ch) (fm_status m), fm_joined = or_keep (ch_joined ch) (fm_joined m),
         fm_note = or_keep (ch_note ch) (fm_note m), fm_open_join = or_keep (ch_open_join ch) (fm_open_join m),
         fm_candidate = or_keep (ch_candidate ch) (fm_candidate m), fm_candidate_revision = or_keep (ch_revision ch) (fm_candidate_revision m)\<rparr>)"

fun apply_to :: "string \<Rightarrow> member_changes \<Rightarrow> FormationMember list \<Rightarrow> formation_error + FormationMember list" where
  "apply_to member ch [] = Inr []"
| "apply_to member ch (m # ms) =
     bindE (if fm_id m = member then apply_changes m ch else Inr m) (\<lambda>m'. bindE (apply_to member ch ms) (\<lambda>ms'. Inr (m' # ms')))"

definition apply_update :: "FormationManifest \<Rightarrow> string \<times> member_changes \<Rightarrow> FormationMember list \<Rightarrow> formation_error + FormationMember list" where
  "apply_update f u members = bindE (member_of f (fst u)) (\<lambda>_. apply_to (fst u) (snd u) members)"

text \<open>What a verb of the orchestrator does once its members are known: the admissions are committed, then the manifest is written.\<close>

definition commit_members ::
    "formation_env \<Rightarrow> string \<Rightarrow> string \<Rightarrow> FormationManifest \<Rightarrow> (FormationMember \<times> Candidate) list \<Rightarrow> string list \<Rightarrow> FormationManifest store_action" where
  "commit_members env formation path f admitted released =
     bindA (commit_admissions (fe_resolve env) formation (mf_orchestrator f) admitted released) (\<lambda>_ s'. (Inr f, write_manifest path f s'))"

definition revise ::
    "formation_env \<Rightarrow> int \<Rightarrow> string \<Rightarrow> string option \<Rightarrow> (string \<times> member_changes) list \<Rightarrow> FormationManifest store_action" where
  "revise env now formation caller updates s =
     (case bindE (opened s formation) (\<lambda>(path, f).
        bindE (require_orchestrator env f caller) (\<lambda>_.
        bindE (foldE (apply_update f) updates (mf_members f)) (\<lambda>members.
        bindE (admitted_members s now (mf_members f) members formation (mf_revision f + 1) (map fst (filter (\<lambda>u. ch_revision (snd u) \<noteq> None) updates)))
          (\<lambda>(stamped, admitted, released).
        let f' = revised env now f stamped in
        bindE (check_manifest f') (\<lambda>_. Inr (path, f', admitted, released)))))) of
        Inl e \<Rightarrow> (Inl e, s)
      | Inr (path, f', admitted, released) \<Rightarrow> commit_members env formation path f' admitted released s)"

section \<open>Slots\<close>

record slot =
  sl_member :: FormationMember
  sl_keys :: "string list"

definition FORBIDDEN_KEYS :: "string list" where
  "FORBIDDEN_KEYS = [''run_path'', ''pin_key'', ''status'', ''joined_utc'', ''admitted_revision'']"

definition MEMBER_KEYS :: "string list" where
  "MEMBER_KEYS = FORBIDDEN_KEYS @ [''member_id'', ''client'', ''role'', ''owned_paths'', ''test_owned_paths'', ''prd_ids'', ''note'', ''open_join'',
     ''admitted_candidate'']"

definition add_slots :: "formation_env \<Rightarrow> int \<Rightarrow> string \<Rightarrow> string option \<Rightarrow> slot list \<Rightarrow> FormationManifest store_action" where
  "add_slots env now formation caller slots s =
     (if slots = [] then (failed ''add_slots needs at least one member'', s)
      else if list_ex (\<lambda>sl. set FORBIDDEN_KEYS \<inter> set (sl_keys sl) \<noteq> {}) slots then (failed ''a new slot is pending and server-stamped'', s)
      else (case bindE (opened s formation) (\<lambda>(path, f).
          bindE (require_orchestrator env f caller) (\<lambda>_.
          if list_ex (\<lambda>sl. fm_id (sl_member sl) \<in> fm_id ` set (mf_members f)) slots then failed ''member ids already in formation''
          else bindE (if list_ex (\<lambda>sl. \<not> set (sl_keys sl) \<subseteq> set MEMBER_KEYS) slots then failed ''slot change would make the manifest invalid''
              else check_manifest (revised env now f (mf_members f @ map sl_member slots))) (\<lambda>grown.
          bindE (admitted_members s now (mf_members f) (mf_members grown) formation (mf_revision grown) []) (\<lambda>(stamped, admitted, released).
          Inr (path, grown\<lparr>mf_members := stamped\<rparr>, admitted, released))))) of
          Inl e \<Rightarrow> (Inl e, s)
        | Inr (path, f', admitted, released) \<Rightarrow> commit_members env formation path f' admitted released s))"

definition remove_slot :: "formation_env \<Rightarrow> int \<Rightarrow> string \<Rightarrow> string option \<Rightarrow> string \<Rightarrow> FormationManifest store_action" where
  "remove_slot env now formation caller member s =
     (case bindE (opened s formation) (\<lambda>(path, f).
        bindE (require_orchestrator env f caller) (\<lambda>_.
        bindE (member_of f member) (\<lambda>m.
        let remaining = filter (\<lambda>x. fm_id x \<noteq> member) (mf_members f) in
        if fm_run m \<noteq> None \<or> fm_status m \<noteq> Pending then failed ''has joined or ended''
        else if remaining = [] then failed ''a formation keeps at least one member''
        else bindE (check_manifest (revised env now f remaining)) (\<lambda>f'.
          Inr (path, f', case nonempty (fm_candidate m) of None \<Rightarrow> [] | Some h \<Rightarrow> [h]))))) of
        Inl e \<Rightarrow> (Inl e, s)
      | Inr (path, f', released) \<Rightarrow> commit_members env formation path f' [] released s)"

section \<open>Delivery\<close>

definition mark_member_delivered :: "formation_env \<Rightarrow> int \<Rightarrow> string \<Rightarrow> string \<Rightarrow> string \<Rightarrow> FormationManifest store_action" where
  "mark_member_delivered env now formation member run s =
     (case bindE (opened s formation) (\<lambda>(path, f). bindE (member_of f member) (\<lambda>m. Inr (path, f, m))) of
        Inl e \<Rightarrow> (Inl e, s)
      | Inr (path, f, m) \<Rightarrow>
          if map_option (fe_resolve env) (truthy_run m) \<noteq> Some (fe_resolve env run) then (failed ''only from its joined run'', s)
          else if fm_status m \<in> {Abandoned, Reassigned} then (failed ''its own report cannot replace that verdict'', s)
          else if fm_status m = Delivered then (Inr f, s)
          else let f' = revised env now f (on_member member (fm_status_update (\<lambda>_. Delivered)) (mf_members f)) in (Inr f', write_manifest path f' s))"

text \<open>The facade's verb: who the run is comes from its own context.\<close>

definition report_delivered :: "formation_env \<Rightarrow> int \<Rightarrow> string \<Rightarrow> FormationManifest option store_action" where
  "report_delivered env now run s =
     (case resolve_active (fe_resolve env) s (Some run) of
        Inl e \<Rightarrow> (Inl e, s)
      | Inr None \<Rightarrow> (Inr None, s)
      | Inr (Some cx) \<Rightarrow>
          (case cx_member cx of
             None \<Rightarrow> (Inr None, s)
           | Some member \<Rightarrow> bindA (mark_member_delivered env now (mf_id (cx_manifest cx)) member run) (\<lambda>f s'. (Inr (Some f), s')) s))"

section \<open>The orchestrator\<close>

definition ORCHESTRATOR_ROLE :: string where
  "ORCHESTRATOR_ROLE = ''orchestrator''"

definition orchestrator_member :: "formation_env \<Rightarrow> int \<Rightarrow> string \<Rightarrow> string \<Rightarrow> string option \<Rightarrow> formation_error + FormationMember" where
  "orchestrator_member env now run member pin =
     (if nonempty pin = None then failed ''needs the orchestrator session's pin key''
      else check_member
        \<lparr>fm_id = member, fm_client = ORCHESTRATOR_ROLE, fm_role = ORCHESTRATOR_ROLE, fm_run = Some run, fm_pin = pin, fm_owned = [],
         fm_test_owned = [], fm_prds = [], fm_status = Joined, fm_joined = Some (fe_iso env now), fm_note = [], fm_open_join = False,
         fm_candidate = None, fm_candidate_revision = None\<rparr>)"

definition bound_to_owner :: "formation_env \<Rightarrow> FormationManifest \<Rightarrow> FormationMember \<Rightarrow> bool" where
  "bound_to_owner env f m \<longleftrightarrow> map_option (fe_resolve env) (truthy_run m) = Some (fe_resolve env (mf_orchestrator f))"

definition is_orchestrator_slot :: "formation_env \<Rightarrow> FormationManifest \<Rightarrow> FormationMember \<Rightarrow> bool" where
  "is_orchestrator_slot env f m \<longleftrightarrow> fm_role m = ORCHESTRATOR_ROLE \<and> bound_to_owner env f m"

definition orchestrator_slot ::
    "formation_env \<Rightarrow> int \<Rightarrow> FormationManifest \<Rightarrow> string \<Rightarrow> string option \<Rightarrow> FormationMember option \<Rightarrow>
     formation_error + FormationMember list \<times> FormationMember" where
  "orchestrator_slot env now f member pin existing =
     (let others = (case existing of None \<Rightarrow> mf_members f | Some m \<Rightarrow> remove1 m (mf_members f)) in
      if fm_id ` set others \<inter> {member} \<noteq> {} then failed ''member id is already in formation''
      else (case existing of
          Some m \<Rightarrow> if fm_pin m \<noteq> None then Inr (others, m\<lparr>fm_pin := pin\<rparr>)
            else bindE (orchestrator_member env now (mf_orchestrator f) member pin) (\<lambda>m'. Inr (others, m'))
        | None \<Rightarrow> bindE (orchestrator_member env now (mf_orchestrator f) member pin) (\<lambda>m'. Inr (others, m'))))"

definition add_orchestrator ::
    "formation_env \<Rightarrow> int \<Rightarrow> string \<Rightarrow> string option \<Rightarrow> string \<Rightarrow> string option \<Rightarrow> FormationManifest store_action" where
  "add_orchestrator env now formation caller member pin s =
     (if \<not> fe_factory env then (failed ''the orchestrator member is experimental'', s)
      else (case bindE (opened s formation) (\<lambda>(path, f). bindE (require_orchestrator env f caller) (\<lambda>_. Inr (path, f))) of
          Inl e \<Rightarrow> (Inl e, s)
        | Inr (path, f) \<Rightarrow>
            let existing = find (bound_to_owner env f) (mf_members f) in
            if (case existing of None \<Rightarrow> False | Some m \<Rightarrow> fm_id m = member \<and> fm_pin m = pin \<and> is_orchestrator_slot env f m) then (Inr f, s)
            else if (case existing of None \<Rightarrow> False | Some m \<Rightarrow> \<not> is_orchestrator_slot env f m \<or> fm_id m \<noteq> member)
            then (failed ''refusing to replace it'', s)
            else if existing \<noteq> None \<and> nonempty pin = None then (failed ''needs the orchestrator session's pin key'', s)
            else (case bindE (orchestrator_slot env now f member pin existing) (\<lambda>(others, m). check_manifest (revised env now f (others @ [m]))) of
                Inl e \<Rightarrow> (Inl e, s)
              | Inr f' \<Rightarrow> (Inr f', write_manifest path f' s))))"

section \<open>Creation\<close>

definition create_formation ::
    "formation_env \<Rightarrow> int \<Rightarrow> string \<Rightarrow> FormationManifest \<Rightarrow> string list \<Rightarrow> (string \<times> string option) option \<Rightarrow> FormationManifest store_action" where
  "create_formation env now run payload forged lead s =
     (if lead \<noteq> None \<and> \<not> fe_factory env then (failed ''the orchestrator member is experimental'', s)
      else if map_of (fs_manifests s) run \<noteq> None then (failed ''a formation manifest already exists'', s)
      else (case
          bindE (case lead of None \<Rightarrow> Inr [] | Some (member, pin) \<Rightarrow> bindE (orchestrator_member env now run member pin) (\<lambda>m. Inr [m])) (\<lambda>leads.
          bindE (check_manifest (payload\<lparr>mf_orchestrator := run, mf_members := mf_members payload @ leads\<rparr>)) (\<lambda>f.
          if list_ex (\<lambda>m. list_ex (fe_prd_taken env) (fm_prds m)) (mf_members f) then failed ''already names a PRD on disk''
          else bindE (admitted_members s now [] (mf_members f) (mf_id f) (mf_revision f) forged) (\<lambda>(stamped, admitted, released).
          Inr (f\<lparr>mf_members := stamped\<rparr>, admitted, released)))) of
          Inl e \<Rightarrow> (Inl e, s)
        | Inr (f, admitted, released) \<Rightarrow>
            bindA (commit_members env (mf_id f) run f admitted released) (\<lambda>f s'. (Inr f, register_formation (mf_id f) run s')) s))"

end
