(* ===== verification/Comms_Identity.thy ===== *)
theory Comms_Identity
  imports Formation_Joining Comms_Writes
begin

text \<open>
  Who is calling (\<^verbatim>\<open>src/trw_mcp/comms/_identity.py\<close>): the pinned run and the session of a call against the manifest the run
  belongs to. The pin of the call, the project's root and what git says about a linked worktree are arguments.
\<close>

definition manifest_file :: "string \<Rightarrow> string" where
  "manifest_file run = run @ ''/formation.yaml''"

definition unbound :: "string \<Rightarrow> ahr_error + 'a" where
  "unbound reason = Inl (IdentityError reason)"

definition derive_group_id :: "comms_env \<Rightarrow> string \<Rightarrow> string \<Rightarrow> string" where
  "derive_group_id env project_root manifest =
     take 32 (ce_sha256 env (ce_resolve env project_root @ [CHR 0x0A] @ ce_resolve env manifest))"

definition assert_trusted_formation :: "comms_env \<Rightarrow> formation_store \<Rightarrow> string \<Rightarrow> FormationContext \<Rightarrow> ahr_error + unit" where
  "assert_trusted_formation env s run cx =
     (let declared = mf_id (cx_manifest cx); here = ce_resolve env (manifest_file (cx_path cx)) in
      if (case stamped_ids s run of None \<Rightarrow> False | Some (formation, member) \<Rightarrow> formation \<noteq> declared) then unbound ''stamped_identity_mismatch''
      else (case resolve_manifest_path s declared of
          Inl e \<Rightarrow> unbound ''uncanonical_formation_registration''
        | Inr registered \<Rightarrow>
            if ce_resolve env (manifest_file registered) \<noteq> here then unbound ''uncanonical_formation_registration''
            else if ce_resolve env (manifest_file (mf_orchestrator (cx_manifest cx))) \<noteq> here
            then unbound ''uncanonical_formation_registration'' else Inr ()))"

definition matching_members :: "comms_env \<Rightarrow> FormationManifest \<Rightarrow> string \<Rightarrow> string \<Rightarrow> FormationMember list" where
  "matching_members env f run session =
     filter (\<lambda>m. map_option (ce_resolve env) (fm_run m) = Some (ce_resolve env run) \<and> fm_pin m = Some session) (mf_members f)"

definition assert_stamp_consistent :: "FormationMember \<Rightarrow> string option \<Rightarrow> ahr_error + unit" where
  "assert_stamp_consistent m stamped = (if stamped \<notin> {None, Some (fm_id m)} then unbound ''stamped_identity_mismatch'' else Inr ())"

definition recipient_of :: "comms_env \<Rightarrow> FormationMember \<Rightarrow> RecipientSnapshot" where
  "recipient_of env m =
     \<lparr>rs_member = fm_id m, rs_eligible = fm_status m \<in> {Joined, Active}, rs_run = map_option (ce_resolve env) (fm_run m),
      rs_pin = fm_pin m, rs_owned = fm_owned m, rs_terminal = fm_status m \<in> set TERMINAL_STATUSES\<rparr>"

definition snapshot_of :: "comms_env \<Rightarrow> string \<Rightarrow> string \<Rightarrow> string \<Rightarrow> FormationContext \<Rightarrow> FormationMember \<Rightarrow> CallerSnapshot" where
  "snapshot_of env project_root session run cx m =
     (let f = cx_manifest cx in
      \<lparr>cs_binding = \<lparr>cb_group = derive_group_id env project_root (manifest_file (cx_path cx)), cb_formation = mf_id f, cb_member = fm_id m,
         cb_session = session, cb_run = ce_resolve env run, cb_manifest = manifest_file (cx_path cx), cb_orchestrator = cx_orchestrator cx\<rparr>,
       cs_status = member_status_value (fm_status m),
       cs_all_terminal = list_all (\<lambda>m. fm_status m \<in> set TERMINAL_STATUSES) (mf_members f),
       cs_recipients = map (recipient_of env) (mf_members f)\<rparr>)"

definition resolve_snapshot ::
    "comms_env \<Rightarrow> string \<Rightarrow> string \<Rightarrow> string option \<Rightarrow> formation_store \<Rightarrow> ahr_error + CallerSnapshot" where
  "resolve_snapshot env project_root session pinned s =
     (case pinned of
        None \<Rightarrow> unbound ''no_pinned_run''
      | Some run \<Rightarrow>
          (case resolve_active (ce_resolve env) s (Some run) of
             Inl e \<Rightarrow> unbound ''formation_unavailable''
           | Inr None \<Rightarrow> unbound ''no_formation''
           | Inr (Some cx) \<Rightarrow>
               bindE (assert_trusted_formation env s run cx) (\<lambda>_.
               case matching_members env (cx_manifest cx) run session of
                 [] \<Rightarrow> unbound ''no_matching_member''
               | [m] \<Rightarrow>
                   bindE (assert_stamp_consistent m (cx_member cx)) (\<lambda>_.
                   bindE (assert_stamp_consistent m (Option.bind (stamped_ids s run) snd)) (\<lambda>_.
                   Inr (snapshot_of env project_root session run cx m)))
               | _ \<Rightarrow> unbound ''ambiguous_member_match'')))"

text \<open>A linked worktree with a membership record binds at the main root as the recorded member, or not at all.\<close>

definition resolve_authority_snapshot ::
    "comms_env \<Rightarrow> (string \<times> formation_store \<times> string) option \<Rightarrow> string \<Rightarrow> string \<Rightarrow> string option \<Rightarrow> formation_store \<Rightarrow>
     ahr_error + CallerSnapshot" where
  "resolve_authority_snapshot env linked project_root session pinned s =
     (case (case linked of None \<Rightarrow> None
            | Some (main_root, main, worktree) \<Rightarrow> map_option (\<lambda>r. (main_root, main, r)) (worktree_record (ce_resolve env) main worktree)) of
        None \<Rightarrow> resolve_snapshot env project_root session pinned s
      | Some (main_root, main, r) \<Rightarrow>
          bindE (resolve_snapshot env main_root session pinned main) (\<lambda>snap.
            if (cb_formation (cs_binding snap), cb_member (cs_binding snap)) \<noteq> (wr_formation r, wr_member r)
            then unbound ''worktree_record_unbound'' else Inr snap))"

section \<open>What a bound caller is\<close>

lemma bound_caller:
  "resolve_snapshot env root session pinned s = Inr snap \<longleftrightarrow>
   (\<exists>run cx m. pinned = Some run \<and> resolve_active (ce_resolve env) s (Some run) = Inr (Some cx) \<and>
      assert_trusted_formation env s run cx = Inr () \<and>
      matching_members env (cx_manifest cx) run session = [m] \<and> cx_member cx \<in> {None, Some (fm_id m)} \<and>
      Option.bind (stamped_ids s run) snd \<in> {None, Some (fm_id m)} \<and> snap = snapshot_of env root session run cx m)"
  by (cases pinned)
    (auto simp: resolve_snapshot_def unbound_def assert_stamp_consistent_def split: sum.splits option.splits list.splits if_splits)

lemma active_manifest:
  assumes "resolve_active resolve s (Some run) = Inr (Some cx)"
  shows "read_manifest s (cx_path cx) = Inr (cx_manifest cx)"
  using assms by (auto simp: resolve_active_def split: if_splits option.splits)

lemma checked_members:
  assumes "check_manifest f = Inr f'"
  shows "distinct (map fm_id (mf_members f'))" "valid_id (mf_id f')" "m \<in> set (mf_members f') \<Longrightarrow> valid_id (fm_id m)"
proof -
  have ids: "check_members ms = Inr ns \<Longrightarrow> \<forall>m \<in> set ns. valid_id (fm_id m)" for ms ns
    by (induction ms arbitrary: ns) (auto simp: check_member_def split: if_splits)
  show "distinct (map fm_id (mf_members f'))" "valid_id (mf_id f')" "m \<in> set (mf_members f') \<Longrightarrow> valid_id (fm_id m)"
    using assms ids by (auto simp: check_manifest_def split: if_splits option.splits)
qed

lemma read_members:
  assumes "read_manifest s path = Inr f"
  shows "distinct (map fm_id (mf_members f))" "valid_id (mf_id f)" "m \<in> set (mf_members f) \<Longrightarrow> valid_id (fm_id m)"
  using assms checked_members by (auto simp: read_manifest_def split: option.splits)

lemma same_member: "distinct (map fm_id ms) \<Longrightarrow> m \<in> set ms \<Longrightarrow> m' \<in> set ms \<Longrightarrow> fm_id m = fm_id m' \<Longrightarrow> m = m'"
  by (auto simp: distinct_map inj_on_def)

lemma matching_one: "matching_members env f run session = [m] \<Longrightarrow>
    m \<in> set (mf_members f) \<and> map_option (ce_resolve env) (fm_run m) = Some (ce_resolve env run) \<and> fm_pin m = Some session"
proof -
  assume "matching_members env f run session = [m]"
  then have "m \<in> set (matching_members env f run session)" by simp
  then show ?thesis by (simp add: matching_members_def)
qed

lemma snapshot_binding [simp]:
  "cb_member (cs_binding (snapshot_of env root session run cx m)) = fm_id m"
  "cb_session (cs_binding (snapshot_of env root session run cx m)) = session"
  "cb_run (cs_binding (snapshot_of env root session run cx m)) = ce_resolve env run"
  "cb_manifest (cs_binding (snapshot_of env root session run cx m)) = manifest_file (cx_path cx)"
  "cb_formation (cs_binding (snapshot_of env root session run cx m)) = mf_id (cx_manifest cx)"
  "cb_group (cs_binding (snapshot_of env root session run cx m)) = derive_group_id env root (manifest_file (cx_path cx))"
  by (simp_all add: snapshot_of_def Let_def)

text \<open>C28: A member has one caller. Two callers bound through the same manifest are the same member exactly when they come from the same
  run and the same session; nothing else a caller can say decides who it is.\<close>

theorem member_has_one_caller:
  assumes "resolve_snapshot env root session pinned s = Inr snap" and "resolve_snapshot env root' session' pinned' s = Inr snap'"
    and "cb_manifest (cs_binding snap) = cb_manifest (cs_binding snap')"
  shows "cb_member (cs_binding snap) = cb_member (cs_binding snap') \<longleftrightarrow>
    cb_run (cs_binding snap) = cb_run (cs_binding snap') \<and> cb_session (cs_binding snap) = cb_session (cs_binding snap')"
proof -
  obtain run cx m where one: "resolve_active (ce_resolve env) s (Some run) = Inr (Some cx)" "matching_members env (cx_manifest cx) run session = [m]"
    "snap = snapshot_of env root session run cx m" using assms(1) unfolding bound_caller by blast
  obtain run' cx' m' where two: "resolve_active (ce_resolve env) s (Some run') = Inr (Some cx')" "matching_members env (cx_manifest cx') run' session' = [m']"
    "snap' = snapshot_of env root' session' run' cx' m'" using assms(2) unfolding bound_caller by blast
  have "cx_path cx = cx_path cx'" using assms(3) one(3) two(3) by (simp add: manifest_file_def)
  then have manifest: "cx_manifest cx = cx_manifest cx'" using active_manifest [OF one(1)] active_manifest [OF two(1)] by simp
  note here = matching_one [OF one(2)] matching_one [OF two(2), folded manifest]
  show ?thesis
  proof
    assume "cb_member (cs_binding snap) = cb_member (cs_binding snap')"
    then have "m = m'" using one(3) two(3) here same_member [OF read_members(1) [OF active_manifest [OF one(1)]]] by simp
    then show "cb_run (cs_binding snap) = cb_run (cs_binding snap') \<and> cb_session (cs_binding snap) = cb_session (cs_binding snap')"
      using here one(3) two(3) by auto
  next
    assume "cb_run (cs_binding snap) = cb_run (cs_binding snap') \<and> cb_session (cs_binding snap) = cb_session (cs_binding snap')"
    then have "matching_members env (cx_manifest cx) run session = matching_members env (cx_manifest cx') run' session'"
      using one(3) two(3) manifest by (simp add: matching_members_def)
    then show "cb_member (cs_binding snap) = cb_member (cs_binding snap')" using one(2,3) two(2,3) by simp
  qed
qed

lemma clean_id: "valid_id s \<Longrightarrow> last s \<noteq> CHR 0x0A \<Longrightarrow> is_member_id s"
  by (cases s) (auto simp: valid_id_def is_member_id_def id_char_def is_alnum_def list_all_iff)

text \<open>What the calls rely on: a bound caller whose formation's names do not end in a newline is well-formed.\<close>

lemma bound_binding_ok:
  assumes "resolve_snapshot env root session pinned s = Inr snap" and "\<forall>x. is_hex 64 (ce_sha256 env x)" and "\<forall>p. absolute (ce_resolve env p)"
    and "absolute (cb_manifest (cs_binding snap))" and "session \<noteq> []"
    and "last (cb_member (cs_binding snap)) \<noteq> CHR 0x0A" and "last (cb_formation (cs_binding snap)) \<noteq> CHR 0x0A"
  shows "binding_ok (cs_binding snap)"
proof -
  obtain run cx m where one: "resolve_active (ce_resolve env) s (Some run) = Inr (Some cx)" "matching_members env (cx_manifest cx) run session = [m]"
    "snap = snapshot_of env root session run cx m" using assms(1) unfolding bound_caller by blast
  note names = read_members(2,3) [OF active_manifest [OF one(1)]]
  have "is_hex 32 (derive_group_id env root manifest)" for manifest
  proof -
    have "is_hex 64 (ce_sha256 env (ce_resolve env root @ [CHR 0x0A] @ ce_resolve env manifest))" using assms(2) by blast
    then show ?thesis by (auto simp: derive_group_id_def is_hex_def list_all_iff dest: in_set_takeD)
  qed
  then show ?thesis
    using assms(3-7) one(3) clean_id [OF names(1)] clean_id [OF names(2)] matching_one [OF one(2)] by (simp add: binding_ok_def)
qed

end
