(* ===== verification/Comms_Pickup.thy ===== *)
theory Comms_Pickup
  imports Comms_Facade Comms_Identity
begin

text \<open>
  Before membership: announcing, withdrawing and discovering (\<^verbatim>\<open>src/trw_mcp/comms/_bootstrap.py\<close>), and the pick-up of an admitted
  candidate (\<^verbatim>\<open>_pickup.py\<close>). A pick-up is a sequence of stages over stores that share no transaction; \<open>weather\<close> says which stage
  meets a store it cannot read or lock, and what others write between the stages.
\<close>

section \<open>Pick-up\<close>

record weather =
  wx_slot_fault :: bool
  wx_before_joining :: "formation_store \<Rightarrow> formation_store"
  wx_joining_fault :: bool
  wx_before_join :: "formation_store \<Rightarrow> formation_store"
  wx_join_fault :: bool
  wx_before_check :: "formation_store \<Rightarrow> formation_store"
  wx_check_fault :: bool
  wx_again_fault :: bool

definition fair :: weather where
  "fair = \<lparr>wx_slot_fault = False, wx_before_joining = (\<lambda>s. s), wx_joining_fault = False, wx_before_join = (\<lambda>s. s), wx_join_fault = False,
     wx_before_check = (\<lambda>s. s), wx_check_fault = False, wx_again_fault = False\<rparr>"

definition unless_fault :: "bool \<Rightarrow> 'a store_action \<Rightarrow> 'a store_action" where
  "unless_fault fault m s = (if fault then (failed ''store unavailable'', s) else m s)"

definition admitted_slot :: "Candidate \<Rightarrow> formation_store \<Rightarrow> formation_error + (string \<times> FormationMember) option" where
  "admitted_slot c s =
     (case Option.bind (cd_formation c) (\<lambda>formation. map_option (\<lambda>path. (formation, path)) (map_of (fs_index s) formation)) of
        None \<Rightarrow> Inr None
      | Some (formation, path) \<Rightarrow>
          bindE (read_manifest s path) (\<lambda>f.
            Inr (map_option (\<lambda>m. (formation, m)) (find (\<lambda>m. fm_candidate m = Some (cd_id c)) (mf_members f)))))"

definition revoke_pickup :: "Candidate \<Rightarrow> string \<Rightarrow> formation_store \<Rightarrow> pickup \<times> formation_store" where
  "revoke_pickup c run s =
     (case set_candidate_state (cd_id c) C_REVOKED None (revoke_run_stamp run s) of
        (Inl e, s') \<Rightarrow> (Pickup_unreadable, s') | (Inr _, s') \<Rightarrow> (Pickup_revoked, s'))"

definition retry_or_revoke :: "weather \<Rightarrow> Candidate \<Rightarrow> string \<Rightarrow> formation_store \<Rightarrow> pickup \<times> formation_store" where
  "retry_or_revoke w c run s =
     (case (if wx_again_fault w then failed ''store unavailable'' else admitted_slot c s) of
        Inl e \<Rightarrow> (Pickup_retrying, s)
      | Inr slot \<Rightarrow>
          if (case Option.bind slot (\<lambda>(formation, m). fm_run m) of None \<Rightarrow> False | Some taken \<Rightarrow> \<not> same_path taken run)
          then revoke_pickup c run s else (Pickup_retrying, s))"

definition pickup_stages ::
    "formation_env \<Rightarrow> int \<Rightarrow> string \<Rightarrow> weather \<Rightarrow> Candidate \<Rightarrow> string \<Rightarrow> string \<times> FormationMember \<Rightarrow> (string \<times> FormationMember) option store_action" where
  "pickup_stages env now session w c run slot s =
     bindA (unless_fault (wx_joining_fault w) (set_candidate_state (cd_id c) C_JOINING None)) (\<lambda>_ s1.
     bindA (unless_fault (wx_join_fault w) (join_formation env now (fst slot) (fm_id (snd slot)) run (Some session) (Some (cd_id c)))) (\<lambda>_ s2.
       unless_fault (wx_check_fault w) (\<lambda>s3. (admitted_slot c s3, s3)) (wx_before_check w s2)) (wx_before_join w s1)) (wx_before_joining w s)"

definition advance :: "formation_env \<Rightarrow> int \<Rightarrow> string \<Rightarrow> string option \<Rightarrow> weather \<Rightarrow> formation_store \<Rightarrow> pickup \<times> formation_store" where
  "advance env now session pinned w s =
     (case pinned of
        None \<Rightarrow> (No_pickup, s)
      | Some run \<Rightarrow>
          (case candidate_for (fe_resolve env) s session run of
             None \<Rightarrow> (No_pickup, s)
           | Some c \<Rightarrow>
               if cd_state c \<notin> set LIVE_STATES then (No_pickup, s)
               else (case (if wx_slot_fault w then failed ''store unavailable'' else admitted_slot c s) of
                   Inl e \<Rightarrow> (Pickup_retrying, s)
                 | Inr None \<Rightarrow> if cd_state c = C_JOINING then revoke_pickup c run s else (No_pickup, s)
                 | Inr (Some slot) \<Rightarrow>
                     if \<not> live now c then revoke_pickup c run s
                     else (case pickup_stages env now session w c run slot s of
                         (Inl (AdmissionRefused reason), s') \<Rightarrow> revoke_pickup c run s'
                       | (Inl e, s') \<Rightarrow> retry_or_revoke w c run s'
                       | (Inr after, s') \<Rightarrow>
                           if map_option (\<lambda>(formation, m). fm_id m) after \<noteq> Some (fm_id (snd slot)) then revoke_pickup c run s'
                           else (Pickup_ready, s')))))"

text \<open>\<^verbatim>\<open>complete\<close>: a failure is recovered by the next call.\<close>

definition complete_pickup :: "Candidate \<Rightarrow> formation_store \<Rightarrow> formation_store" where
  "complete_pickup c s = snd (set_candidate_state (cd_id c) C_PICKED_UP None s)"

section \<open>Bootstrap\<close>

datatype bootstrap_reply = Announced string | Withdrawn_candidate | Bootstrap_refused string

definition bootstrap_announce ::
    "formation_env \<Rightarrow> string \<Rightarrow> int \<Rightarrow> int \<Rightarrow> string \<Rightarrow> string option \<Rightarrow> string option \<Rightarrow> string \<Rightarrow> formation_store \<Rightarrow> bootstrap_reply \<times> formation_store" where
  "bootstrap_announce env token now ttl_seconds session pinned worktree client s =
     (case pinned of
        None \<Rightarrow> (Bootstrap_refused ''no_pinned_run'', s)
      | Some run \<Rightarrow>
          (case announce (fe_resolve env) token now (ttl_seconds * SECOND) session run worktree client s of
             (Inl (CandidateError reason), s') \<Rightarrow> (Bootstrap_refused reason, s')
           | (Inl e, s') \<Rightarrow> (Bootstrap_refused ''formation_unavailable'', s')
           | (Inr c, s') \<Rightarrow> (Announced (cd_id c), s')))"

definition bootstrap_withdraw :: "formation_env \<Rightarrow> string \<Rightarrow> string option \<Rightarrow> formation_store \<Rightarrow> bootstrap_reply \<times> formation_store" where
  "bootstrap_withdraw env session pinned s =
     (case pinned of
        None \<Rightarrow> (Bootstrap_refused ''no_pinned_run'', s)
      | Some run \<Rightarrow>
          (case candidate_for (fe_resolve env) s session run of
             None \<Rightarrow> (Withdrawn_candidate, s)
           | Some c \<Rightarrow>
               if cd_state c \<notin> set LIVE_STATES then (Withdrawn_candidate, s)
               else (case set_candidate_state (cd_id c) C_WITHDRAWN None s of
                   (Inl e, s') \<Rightarrow> (Bootstrap_refused ''formation_unavailable'', s')
                 | (Inr _, s') \<Rightarrow> (Withdrawn_candidate, s'))))"

text \<open>The open formations a caller discovers: at most 16, in the order of their names, unreadable and ended ones left out.\<close>

definition DISCOVER_FORMATION_LIMIT :: nat where
  "DISCOVER_FORMATION_LIMIT = 16"

record discovered_member =
  dm_member :: string
  dm_status :: string
  dm_open_join :: bool

definition open_formation :: "formation_store \<Rightarrow> string \<times> string \<Rightarrow> (string \<times> discovered_member list) option" where
  "open_formation s entry =
     (case read_manifest s (snd entry) of
        Inl e \<Rightarrow> None
      | Inr f \<Rightarrow>
          if list_all (\<lambda>m. fm_status m \<in> set TERMINAL_STATUSES) (mf_members f) then None
          else Some (fst entry, map (\<lambda>m. \<lparr>dm_member = fm_id m, dm_status = member_status_value (fm_status m), dm_open_join = fm_open_join m\<rparr>) (mf_members f)))"

definition discover_formations :: "formation_store \<Rightarrow> (string \<times> discovered_member list) list" where
  "discover_formations s =
     take DISCOVER_FORMATION_LIMIT
       (concat (map (\<lambda>e. case open_formation s e of None \<Rightarrow> [] | Some d \<Rightarrow> [d]) (sort_key fst (fs_index s))))"

text \<open>What an orchestrator sees of its own pending messages.\<close>

definition lead_pending :: "comms_db \<Rightarrow> CallerBinding \<Rightarrow> int \<Rightarrow> nat \<times> int option" where
  "lead_pending db b now =
     (let mine = filter (\<lambda>a. ad_group a = cb_group b \<and> ad_recipient a = cb_member b \<and> ad_state a = PENDING \<and> now < ad_expires_at a) (admissions db)
      in (length mine, if mine = [] then None else Some (max 0 (now - Min (set (map ad_admitted_at mine))) div SECOND)))"

record candidate_item =
  ci_id :: string
  ci_client :: string
  ci_worktree :: "string option"
  ci_age :: int
  ci_state :: CandidateState

text \<open>\<^verbatim>\<open>Path.name\<close>, at most 64 characters of it.\<close>

definition path_name :: "string \<Rightarrow> string" where
  "path_name p = (case pure_parts p of [] \<Rightarrow> [] | parts \<Rightarrow> take 64 (last parts))"

definition candidate_item_of :: "int \<Rightarrow> Candidate \<Rightarrow> candidate_item" where
  "candidate_item_of now c =
     \<lparr>ci_id = cd_id c, ci_client = take 32 (cd_client c), ci_worktree = map_option path_name (nonempty (cd_worktree c)),
      ci_age = max 0 (now - cd_announced c) div SECOND, ci_state = cd_state c\<rparr>"

text \<open>
  The page of candidates an orchestrator sees after the one its cursor names. \<open>fits\<close> says which pages keep within the byte budget; a page
  always counts a continuation while it is measured.
\<close>

fun pack_candidates :: "(candidate_item list \<Rightarrow> bool) \<Rightarrow> int \<Rightarrow> candidate_item list \<Rightarrow> Candidate list \<Rightarrow> candidate_item list" where
  "pack_candidates fits now page [] = page"
| "pack_candidates fits now page (c # cs) =
     (let page' = page @ [candidate_item_of now c] in if fits page' then pack_candidates fits now page' cs else page)"

definition candidate_page ::
    "(candidate_item list \<Rightarrow> bool) \<Rightarrow> formation_store \<Rightarrow> int \<Rightarrow> (int \<times> string) option \<Rightarrow> (candidate_item list \<times> nat \<times> bool) option" where
  "candidate_page fits s now after =
     (let alive = live_candidates s now;
          remaining = sort_key cd_announced (sort_key cd_id
            (filter (\<lambda>c. case after of None \<Rightarrow> True | Some (t, i) \<Rightarrow> t < cd_announced c \<or> t = cd_announced c \<and> i < cd_id c) alive));
          page = pack_candidates fits now [] (take CANDIDATE_CAP remaining)
      in if remaining \<noteq> [] \<and> page = [] then None else Some (page, length alive, length page < length remaining))"

section \<open>The state of a caller that is no member\<close>

definition caller_state :: "formation_env \<Rightarrow> formation_store \<Rightarrow> string \<Rightarrow> string option \<Rightarrow> string" where
  "caller_state env s session pinned =
     (case pinned of
        None \<Rightarrow> ''no_run''
      | Some run \<Rightarrow>
          (case map_option cd_state (candidate_for (fe_resolve env) s session run) of
             Some C_ACTIVE \<Rightarrow> ''candidate'' | Some C_ADMITTED \<Rightarrow> ''admitted'' | Some C_JOINING \<Rightarrow> ''admitted''
           | Some C_WITHDRAWN \<Rightarrow> ''opted_out'' | _ \<Rightarrow> ''unannounced''))"

end
