(* ===== verification/Formation_Laws.thy ===== *)
theory Formation_Laws
  imports Comms_Pickup
begin

text \<open>
  What holds of every history of a formation's stores: the verbs of the facade, of the bootstrap and of the pick-up as one type, and the
  laws each of them keeps.

  \<^item> \<open>registry_contract\<close> is what a property of the candidate registry has to withstand: sorting, dropping what is not live, a legal
    move, an announcement. Its lemmas carry such a property through every verb and every history.
  \<^item> Stages of a pick-up are verbs of their own, so a history interleaves them with whatever else happens.
\<close>

section \<open>Histories\<close>

datatype formation_verb =
    V_announce string int string "string option" "string option" string
  | V_withdraw string "string option"
  | V_create string FormationManifest "string list" "(string \<times> string option) option"
  | V_join string string string "string option" "string option"
  | V_revise string "string option" "(string \<times> member_changes) list"
  | V_add_slots string "string option" "slot list"
  | V_remove_slot string "string option" string
  | V_add_orchestrator string "string option" string "string option"
  | V_delivered string string string
  | V_report_delivered string
  | V_advance string "string option" weather
  | V_start_pickup string
  | V_revoke_pickup Candidate string
  | V_complete_pickup Candidate

text \<open>A weather without what others write: those are verbs of their own.\<close>

definition alone :: "weather \<Rightarrow> weather" where
  "alone w = w\<lparr>wx_before_joining := (\<lambda>s. s), wx_before_join := (\<lambda>s. s), wx_before_check := (\<lambda>s. s)\<rparr>"

fun perform :: "formation_env \<Rightarrow> int \<times> formation_verb \<Rightarrow> formation_store \<Rightarrow> formation_store" where
  "perform env (now, V_announce token ttl session pinned worktree client) s =
     snd (bootstrap_announce env token now ttl session pinned worktree client s)"
| "perform env (now, V_withdraw session pinned) s = snd (bootstrap_withdraw env session pinned s)"
| "perform env (now, V_create run payload forged lead) s = snd (create_formation env now run payload forged lead s)"
| "perform env (now, V_join formation member run pin handle) s = snd (join_formation env now formation member run pin handle s)"
| "perform env (now, V_revise formation caller updates) s = snd (revise env now formation caller updates s)"
| "perform env (now, V_add_slots formation caller slots) s = snd (add_slots env now formation caller slots s)"
| "perform env (now, V_remove_slot formation caller member) s = snd (remove_slot env now formation caller member s)"
| "perform env (now, V_add_orchestrator formation caller member pin) s = snd (add_orchestrator env now formation caller member pin s)"
| "perform env (now, V_delivered formation member run) s = snd (mark_member_delivered env now formation member run s)"
| "perform env (now, V_report_delivered run) s = snd (report_delivered env now run s)"
| "perform env (now, V_advance session pinned w) s = snd (advance env now session pinned (alone w) s)"
| "perform env (now, V_start_pickup handle) s = snd (set_candidate_state handle C_JOINING None s)"
| "perform env (now, V_revoke_pickup c run) s = snd (revoke_pickup c run s)"
| "perform env (now, V_complete_pickup c) s = complete_pickup c s"

definition performs :: "formation_env \<Rightarrow> (int \<times> formation_verb) list \<Rightarrow> formation_store \<Rightarrow> formation_store" where
  "performs env history s = fold (perform env) history s"

fun issues :: "formation_verb \<Rightarrow> string \<Rightarrow> bool" where
  "issues (V_announce token ttl session pinned worktree client) t = (t = token)"
| "issues _ t = False"

section \<open>Who writes the registry\<close>

lemma registry_untouched [simp]:
  "fs_candidates (write_manifest path f s) = fs_candidates s"
  "fs_candidates (register_formation formation run s) = fs_candidates s"
  "fs_candidates (release_worktree_member resolve formation w s) = fs_candidates s"
  "fs_candidates (revoke_run_stamp run s) = fs_candidates s"
  "fs_candidates (snd (stamp_run_record run formation member s)) = fs_candidates s"
  "fs_candidates (snd (restore_missing_stamp run formation m pin s)) = fs_candidates s"
  "fs_candidates (snd (record_worktree_member resolve w formation member revision run s)) = fs_candidates s"
  by (auto simp: write_manifest_def register_formation_def release_worktree_member_def revoke_run_stamp_def stamp_run_record_def
      restore_missing_stamp_def record_worktree_member_def write_stamp_def Let_def split: option.splits if_splits)

lemma releases_keep_registry [simp]:
  "fs_candidates (fold (release_worktree_member resolve formation) ws s) = fs_candidates s"
  by (induction ws arbitrary: s) simp_all

lemma snd_bindA: "snd (bindA m k s) = (case fst (m s) of Inl e \<Rightarrow> snd (m s) | Inr x \<Rightarrow> snd (k x (snd (m s))))"
  by (auto simp: bindA_def split: prod.splits sum.splits)

lemma snd_fault [simp]: "snd (unless_fault fault m s) = (if fault then s else snd (m s))"
  by (simp add: unless_fault_def)

lemma join_keeps_registry [simp]: "fs_candidates (snd (join_formation env now formation member run pin handle s)) = fs_candidates s"
  by (auto simp: join_formation_def snd_bindA Let_def split: sum.splits option.splits if_splits)

lemma delivered_keeps_registry [simp]: "fs_candidates (snd (mark_member_delivered env now formation member run s)) = fs_candidates s"
  by (auto simp: mark_member_delivered_def Let_def split: sum.splits)

lemma report_keeps_registry [simp]: "fs_candidates (snd (report_delivered env now run s)) = fs_candidates s"
  by (auto simp: report_delivered_def snd_bindA split: sum.splits option.splits)

lemma orchestrator_keeps_registry [simp]:
  "fs_candidates (snd (add_orchestrator env now formation caller member pin s)) = fs_candidates s"
  by (auto simp: add_orchestrator_def Let_def split: sum.splits)

section \<open>What a property of the registry withstands\<close>

locale registry_contract =
  fixes P :: "Candidate list \<Rightarrow> bool" and issuable :: "string \<Rightarrow> bool"
  assumes sorted: "P rs \<Longrightarrow> P (sort_key cd_id rs)"
    and swept: "P rs \<Longrightarrow> P (filter (live now) rs)"
    and moved: "P rs \<Longrightarrow> find_row cd_id h rs = Some c \<Longrightarrow> apply_transition c state formation = Inr c' \<Longrightarrow> P (put_row cd_id c' rs)"
    and announced: "P rs \<Longrightarrow> issuable token \<Longrightarrow> list_all (live now) rs \<Longrightarrow> mine = find (same_caller resolve pin run) rs \<Longrightarrow>
      mine \<noteq> None \<or> length rs < CANDIDATE_CAP \<Longrightarrow>
      P (put_row cd_id (announced_record resolve token now ttl pin run worktree client mine) rs)"
begin

lemma announce: "P (fs_candidates s) \<Longrightarrow> issuable token \<Longrightarrow>
    P (fs_candidates (snd (announce resolve token now ttl pin run worktree client s)))"
  by (auto simp: announce_def write_candidates_def Let_def not_le list_all_iff intro!: sorted announced swept)

lemma set_candidate_state: "P (fs_candidates s) \<Longrightarrow> P (fs_candidates (snd (set_candidate_state h state formation s)))"
  by (auto simp: set_candidate_state_def write_candidates_def split: option.splits sum.splits intro!: sorted moved)

lemma transition: "transition_step t (rs, xs) = Inr (rs', xs') \<Longrightarrow> P rs \<Longrightarrow> P rs'"
  by (auto simp: transition_step_def split: option.splits sum.splits if_splits intro: moved)

lemma set_states: "P (fs_candidates s) \<Longrightarrow> P (fs_candidates (snd (set_states ts s)))"
proof (cases "foldE transition_step ts (fs_candidates s, [])")
  case (Inr r)
  assume "P (fs_candidates s)"
  then have "P (fst r)"
    using foldE_invariant [OF Inr, of "\<lambda>r. P (fst r)"] transition by (metis fst_conv surj_pair)
  then show ?thesis
    using \<open>P (fs_candidates s)\<close> Inr by (cases r) (simp add: set_states_def write_candidates_def sorted)
qed (simp add: set_states_def)

lemma record_admitted:
  "P (fs_candidates s) \<Longrightarrow> P (fs_candidates (snd (record_admitted resolve formation run names named written s)))"
proof (induction named arbitrary: written s)
  case (Cons a named)
  obtain m c where a: "a = (m, c)" by (cases a)
  show ?case
  proof (cases "cd_worktree c")
    case None
    then show ?thesis using Cons a by simp
  next
    case (Some w)
    let ?r = "record_worktree_member resolve w formation (fm_id m) (case fm_candidate_revision m of None \<Rightarrow> 0 | Some r \<Rightarrow> r) run s"
    have kept: "P (fs_candidates (snd ?r))" using Cons.prems by simp
    show ?thesis
      using a Some kept Cons.IH [OF kept]
      by (cases ?r; cases "fst ?r") (auto simp: snd_bindA set_states split: sum.splits)
  qed
qed simp

lemma commit: "P (fs_candidates s) \<Longrightarrow> P (fs_candidates (snd (commit_members env formation path f named released s)))"
  unfolding commit_members_def commit_admissions_def Let_def snd_bindA
  by (auto split: sum.splits intro!: record_admitted set_states)

lemma revoke: "P (fs_candidates s) \<Longrightarrow> P (fs_candidates (snd (revoke_pickup c run s)))"
  using set_candidate_state [of "revoke_run_stamp run s"] by (auto simp: revoke_pickup_def split: prod.splits sum.splits) (metis snd_conv)+

lemma retry: "P (fs_candidates s) \<Longrightarrow> P (fs_candidates (snd (retry_or_revoke w c run s)))"
  by (auto simp: retry_or_revoke_def revoke split: sum.splits option.splits)

lemma stages: "P (fs_candidates s) \<Longrightarrow> P (fs_candidates (snd (pickup_stages env now session (alone w) c run slot s)))"
  by (auto simp: pickup_stages_def alone_def snd_bindA set_candidate_state split: sum.splits)

lemma advance: "P (fs_candidates s) \<Longrightarrow> P (fs_candidates (snd (advance env now session pinned (alone w) s)))"
proof -
  assume P: "P (fs_candidates s)"
  have staged: "P (fs_candidates s')" if "pickup_stages env now session (alone w) c run slot s = (r, s')" for c run slot r s'
    using stages [OF P, of env now session w c run slot] that by simp
  show ?thesis
    using P by (auto simp: advance_def revoke dest!: staged split: option.splits sum.splits prod.splits formation_error.splits if_splits
        intro!: revoke retry)
qed

theorem performed:
  assumes "P (fs_candidates s)" and "\<And>token. issues (snd v) token \<Longrightarrow> issuable token"
  shows "P (fs_candidates (perform env v s))"
proof (cases v)
  case (Pair now verb)
  show ?thesis
  proof (cases verb)
    case (V_announce token ttl session pinned worktree client)
    then show ?thesis
      using assms Pair announce [OF assms(1), of token "fe_resolve env" now "ttl * SECOND" session]
      by (auto simp: bootstrap_announce_def split: option.splits prod.splits sum.splits formation_error.splits) (metis snd_conv)+
  next
    case (V_withdraw session pinned)
    then show ?thesis
      using assms(1) Pair set_candidate_state [OF assms(1)]
      by (auto simp: bootstrap_withdraw_def split: option.splits prod.splits sum.splits) (metis snd_conv)+
  next
    case (V_complete_pickup c)
    then show ?thesis using assms(1) Pair by (simp add: complete_pickup_def set_candidate_state)
  qed (use assms(1) Pair in \<open>auto simp: create_formation_def revise_def add_slots_def remove_slot_def snd_bindA Let_def commit set_candidate_state revoke advance
      split: sum.splits\<close>)
qed

theorem performs:
  assumes "P (fs_candidates s)" and "\<And>v token. v \<in> set history \<Longrightarrow> issues (snd v) token \<Longrightarrow> issuable token"
  shows "P (fs_candidates (performs env history s))"
  using assms
proof (induction history arbitrary: s)
  case Nil
  then show ?case by (simp add: performs_def)
next
  case (Cons v history)
  have "P (fs_candidates (perform env v s))"
    using Cons.prems(2) [of v] by (intro performed [OF Cons.prems(1)]) simp
  from Cons.IH [OF this] have "P (fs_candidates (performs env history (perform env v s)))"
    by (metis Cons.prems(2) list.set_intros(2))
  then show ?case by (simp add: performs_def)
qed

end

end
