(* ===== verification/Formation_Registry.thy ===== *)
theory Formation_Registry
  imports Formation_Laws
begin

text \<open>
  The candidate registry over every history: it stays within its cap, a settled candidate stays settled, a handle stays with the session
  that announced it, and an admission is held against every other formation.
\<close>

section \<open>Reading a rewritten registry\<close>

lemma unique_sorted: "unique_key key rows \<Longrightarrow> unique_key key (sort_key k rows)"
  by (simp add: unique_key_def distinct_map)

lemma unique_filter: "unique_key key rows \<Longrightarrow> unique_key key (filter Q rows)"
  by (simp add: unique_key_def distinct_map_filter)

lemma find_row_same_set:
  assumes "unique_key key rows" and "unique_key key rows'" and "set rows = set rows'"
  shows "find_row key h rows = find_row key h rows'"
  using find_row_iff [OF assms(1)] find_row_iff [OF assms(2)] assms(3) by (metis option.exhaust)

lemma find_sorted [simp]: "unique_key key rows \<Longrightarrow> find_row key h (sort_key k rows) = find_row key h rows"
  by (rule find_row_same_set) (simp_all add: unique_sorted)

lemma find_filter: "unique_key key rows \<Longrightarrow> find_row key h (filter Q rows) =
    (case find_row key h rows of None \<Rightarrow> None | Some r \<Rightarrow> if Q r then Some r else None)"
proof (induction rows)
  case (Cons r rows)
  then have "unique_key key rows" "key r \<notin> key ` set rows" by (simp_all add: unique_key_def)
  then show ?case
    using Cons.IH find_row_None [of key "key r" rows] by (cases "key r = h") auto
qed simp

lemma transition_keeps_caller:
  assumes "apply_transition c state formation = Inr c'"
  shows "cd_id c' = cd_id c" "cd_pin c' = cd_pin c" "cd_run c' = cd_run c" "cd_worktree c' = cd_worktree c"
  using assms by (auto simp only: apply_transition_def Let_def split: if_splits) auto

lemma final_transition:
  assumes "apply_transition c state formation = Inr c'" and "cd_state c \<notin> set LIVE_STATES"
  shows "c' = c"
proof -
  have "state \<notin> set (TRANSITIONS (cd_state c))" using assms(2) by (cases "cd_state c") (simp_all add: LIVE_STATES_def)
  then have same: "state = cd_state c" "formation = None \<or> formation = Some (cd_formation c)"
    and result: "c' = c\<lparr>cd_state := state, cd_formation := (case formation of None \<Rightarrow> cd_formation c | Some f \<Rightarrow> f)\<rparr>"
    using assms(1) unfolding apply_transition_def Let_def by (auto split: if_splits)
  from same(2) show ?thesis unfolding result same(1) by (elim disjE) simp_all
qed

lemma length_put_row: "length (put_row key r rows) = (if find_row key (key r) rows = None then length rows + 1 else length rows)"
  by (simp add: put_row_def)

lemma found_caller: "find (same_caller resolve pin run) rs = Some c \<Longrightarrow> c \<in> set rs \<and> same_caller resolve pin run c"
  by (induction rs) (auto split: if_splits)

lemma announced_fields [simp]:
  "cd_id (announced_record resolve token now ttl pin run worktree client mine) = (case mine of None \<Rightarrow> token | Some c \<Rightarrow> cd_id c)"
  "cd_pin (announced_record resolve token now ttl pin run worktree client mine) = pin"
  "cd_state (announced_record resolve token now ttl pin run worktree client mine) = (case mine of None \<Rightarrow> C_ACTIVE | Some c \<Rightarrow> cd_state c)"
  "cd_formation (announced_record resolve token now ttl pin run worktree client mine) = (case mine of None \<Rightarrow> None | Some c \<Rightarrow> cd_formation c)"
  by (simp_all add: announced_record_def)

section \<open>The cap\<close>

definition registry_ok :: "Candidate list \<Rightarrow> bool" where
  "registry_ok rs \<longleftrightarrow> unique_key cd_id rs \<and> length rs \<le> CANDIDATE_CAP"

interpretation capped: registry_contract registry_ok "\<lambda>token. True"
proof unfold_locales
  fix rs :: "Candidate list" and now :: int and h :: string and c c' :: Candidate and state formation
  assume ok: "registry_ok rs"
  show "registry_ok (sort_key cd_id rs)" using ok by (simp add: registry_ok_def unique_sorted)
  show "registry_ok (filter (live now) rs)"
    using ok order_trans [OF length_filter_le] by (auto simp: registry_ok_def unique_filter)
  assume "find_row cd_id h rs = Some c" "apply_transition c state formation = Inr c'"
  then show "registry_ok (put_row cd_id c' rs)"
    using ok find_row_Some_D [of cd_id h rs c] by (auto simp: registry_ok_def unique_put_row length_put_row dest: transition_keeps_caller)
next
  fix rs :: "Candidate list" and now ttl :: int and token pin run client :: string and worktree :: "string option"
    and resolve :: "string \<Rightarrow> string" and mine
  assume ok: "registry_ok rs" "mine = find (same_caller resolve pin run) rs" "mine \<noteq> None \<or> length rs < CANDIDATE_CAP"
  have "find_row cd_id (cd_id x) rs \<noteq> None" if "mine = Some x" for x
    using found_caller [of resolve pin run rs x] ok(2) that by (auto simp: find_row_None)
  with ok show "registry_ok (put_row cd_id (announced_record resolve token now ttl pin run worktree client mine) rs)"
    by (cases mine) (auto simp: registry_ok_def unique_put_row length_put_row)
qed

text \<open>The registry stays bounded. From an empty registry, whatever the verbs, the callers and their order, there are at most 64
  candidates and no two have the same handle.\<close>

theorem registry_bounded: "registry_ok (fs_candidates (performs env history (s\<lparr>fs_candidates := []\<rparr>)))"
  by (rule capped.performs) (simp_all add: registry_ok_def unique_key_def)

section \<open>Settled candidates\<close>

definition stays_settled :: "string \<Rightarrow> Candidate \<Rightarrow> Candidate list \<Rightarrow> bool" where
  "stays_settled h c rs \<longleftrightarrow> unique_key cd_id rs \<and> (cd_state c \<notin> set LIVE_STATES \<longrightarrow> find_row cd_id h rs \<in> {None, Some c})"

interpretation settled: registry_contract "stays_settled h c" "\<lambda>token. token \<noteq> h" for h c
proof unfold_locales
  fix rs :: "Candidate list" and now :: int and k :: string and x x' :: Candidate and state formation
  assume ok: "stays_settled h c rs"
  show "stays_settled h c (sort_key cd_id rs)" using ok by (simp add: stays_settled_def unique_sorted)
  show "stays_settled h c (filter (live now) rs)"
    using ok by (auto simp: stays_settled_def unique_filter find_filter split: option.splits)
  assume found: "find_row cd_id k rs = Some x" and "apply_transition x state formation = Inr x'"
  then have "cd_id x' = k" "cd_state x \<notin> set LIVE_STATES \<Longrightarrow> x' = x"
    using find_row_Some_D [OF found] final_transition transition_keeps_caller(1) by (metis, blast)
  then show "stays_settled h c (put_row cd_id x' rs)"
    using ok found by (auto simp: stays_settled_def unique_put_row row_laws)
next
  fix rs :: "Candidate list" and now ttl :: int and token pin run client :: string and worktree :: "string option"
    and resolve :: "string \<Rightarrow> string" and mine
  assume ok: "stays_settled h c rs" and fresh: "token \<noteq> h" and live: "list_all (live now) rs"
    and mine: "mine = find (same_caller resolve pin run) rs"
  have "cd_state x \<in> set LIVE_STATES \<and> find_row cd_id (cd_id x) rs = Some x" if "mine = Some x" for x
    using found_caller [of resolve pin run rs x] mine that live ok find_row_mem [of cd_id rs x]
    by (auto simp: list_all_iff live_def stays_settled_def)
  then show "stays_settled h c (put_row cd_id (announced_record resolve token now ttl pin run worktree client mine) rs)"
    using ok fresh by (cases mine) (auto simp: stays_settled_def unique_put_row row_laws)
qed

text \<open>C25: A settled candidate stays settled. Once withdrawn, revoked or picked up, a candidate is never live again: whatever happens
  afterwards, its record is unchanged or gone from the registry, provided its handle is not issued a second time.\<close>

theorem settled_candidates_stay:
  assumes "registry_ok (fs_candidates s)" and "candidate_named s h = Some c" and "cd_state c \<in> {C_WITHDRAWN, C_REVOKED, C_PICKED_UP}"
    and "\<not> list_ex (\<lambda>v. issues (snd v) h) history"
  shows "candidate_named (performs env history s) h \<in> {None, Some c}"
proof -
  have "stays_settled h c (fs_candidates (performs env history s))"
  proof (rule settled.performs)
    show "stays_settled h c (fs_candidates s)" using assms(1,2) by (simp add: stays_settled_def registry_ok_def candidate_named_def)
  next
    fix v token assume "v \<in> set history" "issues (snd v) token"
    then show "token \<noteq> h" using assms(4) by (auto simp: list_ex_iff)
  qed
  then show ?thesis using assms(3) by (auto simp: stays_settled_def candidate_named_def LIVE_STATES_def)
qed

section \<open>Whose a handle is\<close>

definition belongs_to :: "string \<Rightarrow> string \<Rightarrow> Candidate list \<Rightarrow> bool" where
  "belongs_to h pin rs \<longleftrightarrow> unique_key cd_id rs \<and> (case find_row cd_id h rs of None \<Rightarrow> True | Some c \<Rightarrow> cd_pin c = pin)"

interpretation belonging: registry_contract "belongs_to h pin" "\<lambda>token. token \<noteq> h" for h pin
proof unfold_locales
  fix rs :: "Candidate list" and now :: int and k :: string and x x' :: Candidate and state formation
  assume ok: "belongs_to h pin rs"
  show "belongs_to h pin (sort_key cd_id rs)" using ok by (simp add: belongs_to_def unique_sorted)
  show "belongs_to h pin (filter (live now) rs)"
    using ok by (auto simp: belongs_to_def unique_filter find_filter split: option.splits)
  assume found: "find_row cd_id k rs = Some x" and "apply_transition x state formation = Inr x'"
  then have "cd_id x' = k" "cd_pin x' = cd_pin x" using find_row_Some_D [OF found] transition_keeps_caller(1,2) by metis+
  then show "belongs_to h pin (put_row cd_id x' rs)"
    using ok found by (auto simp: belongs_to_def unique_put_row row_laws)
next
  fix rs :: "Candidate list" and now ttl :: int and token pin' run client :: string and worktree :: "string option"
    and resolve :: "string \<Rightarrow> string" and mine
  assume ok: "belongs_to h pin rs" and fresh: "token \<noteq> h" and mine: "mine = find (same_caller resolve pin' run) rs"
  have "cd_pin x = pin' \<and> find_row cd_id (cd_id x) rs = Some x" if "mine = Some x" for x
    using found_caller [of resolve pin' run rs x] mine that ok find_row_mem [of cd_id rs x]
    by (auto simp: same_caller_def belongs_to_def)
  then show "belongs_to h pin (put_row cd_id (announced_record resolve token now ttl pin' run worktree client mine) rs)"
    using ok fresh by (cases mine) (auto simp: belongs_to_def unique_put_row row_laws)
qed

lemma handle_belongs:
  assumes "registry_ok (fs_candidates s)" and "candidate_named s h = Some c" and "\<not> list_ex (\<lambda>v. issues (snd v) h) history"
    and "candidate_named (performs env history s) h = Some c'"
  shows "cd_pin c' = cd_pin c"
proof -
  have "belongs_to h (cd_pin c) (fs_candidates (performs env history s))"
  proof (rule belonging.performs)
    show "belongs_to h (cd_pin c) (fs_candidates s)" using assms(1,2) by (simp add: belongs_to_def registry_ok_def candidate_named_def)
  next
    fix v token assume "v \<in> set history" "issues (snd v) token"
    then show "token \<noteq> h" using assms(3) by (auto simp: list_ex_iff)
  qed
  then show ?thesis using assms(4) by (simp add: belongs_to_def candidate_named_def)
qed

section \<open>Whose an admission is\<close>

fun acts_for :: "formation_verb \<Rightarrow> string option" where
  "acts_for (V_create run payload forged lead) = Some (mf_id payload)"
| "acts_for (V_revise formation caller updates) = Some formation"
| "acts_for (V_add_slots formation caller slots) = Some formation"
| "acts_for (V_remove_slot formation caller member) = Some formation"
| "acts_for (V_add_orchestrator formation caller member pin) = Some formation"
| "acts_for _ = None"

definition holds :: "string \<Rightarrow> Candidate \<Rightarrow> formation_store \<Rightarrow> bool" where
  "holds h c s \<longleftrightarrow> unique_key cd_id (fs_candidates s) \<and> candidate_named s h = Some c"

lemma holds_cong: "fs_candidates s = fs_candidates s' \<Longrightarrow> holds h c s = holds h c s'"
  by (simp add: holds_def candidate_named_def)

lemma transition_writes:
  "transition_step t (rs, xs) = Inr (rs', xs') \<Longrightarrow> rs' = rs \<or>
   (\<exists>d d'. find_row cd_id (tr_handle t) rs = Some d \<and> apply_transition d (tr_state t) (tr_formation t) = Inr d' \<and> rs' = put_row cd_id d' rs)"
  by (auto simp: transition_step_def split: option.splits sum.splits if_splits)

lemma foreign_refused:
  assumes "cd_state c \<in> {C_ADMITTED, C_JOINING}" and "cd_formation c = Some F" and "F \<noteq> G" and "t = admission_op G x \<or> t = release_op G x"
  shows "cd_state c = C_ADMITTED \<and> t = release_op G x \<or> apply_transition c (tr_state t) (tr_formation t) = failed ''illegal transition''"
  using assms by (auto simp: admission_op_def release_op_def apply_transition_def Let_def)

lemma foreign_transition:
  assumes "transition_step t (rs, xs) = Inr (rs', xs')" and "t = admission_op G x \<or> t = release_op G x"
    and "unique_key cd_id rs" and "find_row cd_id h rs = Some c"
    and "cd_state c \<in> {C_ADMITTED, C_JOINING}" and "cd_formation c = Some F" and "F \<noteq> G"
  shows "unique_key cd_id rs' \<and> find_row cd_id h rs' = Some c"
proof (cases "x = h")
  case True
  then have handle: "tr_handle t = h" using assms(2) by (auto simp: admission_op_def release_op_def)
  have "rs' = rs"
    using assms(1,4,6,7) handle foreign_refused [OF assms(5,6,7,2)]
    by (auto simp: transition_step_def release_op_def split: if_splits)
  then show ?thesis using assms(3,4) by simp
next
  case False
  then have "tr_handle t \<noteq> h" using assms(2) by (auto simp: admission_op_def release_op_def)
  then have "h \<noteq> cd_id d'" if "find_row cd_id (tr_handle t) rs = Some d" "apply_transition d (tr_state t) (tr_formation t) = Inr d'" for d d'
    using find_row_Some_D [OF that(1)] transition_keeps_caller(1) [OF that(2)] by auto
  then show ?thesis
    using transition_writes [OF assms(1)] assms(3,4) by (auto simp: unique_put_row row_laws)
qed

lemma foreign_batch:
  assumes "holds h c s" and "cd_state c \<in> {C_ADMITTED, C_JOINING}" and "cd_formation c = Some F" and "F \<noteq> G"
    and "\<And>t. t \<in> set ts \<Longrightarrow> \<exists>x. t = admission_op G x \<or> t = release_op G x"
  shows "holds h c (snd (set_states ts s))"
proof (cases "foldE transition_step ts (fs_candidates s, [])")
  case (Inr r)
  have "unique_key cd_id (fst r) \<and> find_row cd_id h (fst r) = Some c"
  proof (rule foldE_invariant [OF Inr, where I = "\<lambda>r. unique_key cd_id (fst r) \<and> find_row cd_id h (fst r) = Some c"])
    show "unique_key cd_id (fst (fs_candidates s, [])) \<and> find_row cd_id h (fst (fs_candidates s, [])) = Some c"
      using assms(1) by (simp add: holds_def candidate_named_def)
  next
    fix t r r' assume t: "t \<in> set ts" and "unique_key cd_id (fst r) \<and> find_row cd_id h (fst r) = Some c" "transition_step t r = Inr r'"
    then show "unique_key cd_id (fst r') \<and> find_row cd_id h (fst r') = Some c"
      using foreign_transition [of t "fst r" "snd r" "fst r'" "snd r'" G _ h c F] assms(2-4) assms(5) [OF t] by auto
  qed
  then show ?thesis
    using assms(1) Inr by (cases r) (auto simp: set_states_def write_candidates_def holds_def candidate_named_def unique_sorted)
qed (use assms(1) in \<open>simp add: set_states_def\<close>)

lemma foreign_records:
  assumes "holds h c s" and "cd_state c \<in> {C_ADMITTED, C_JOINING}" and "cd_formation c = Some F" and "F \<noteq> G"
  shows "holds h c (snd (record_admitted resolve G run names named written s))"
  using assms(1)
proof (induction named arbitrary: written s)
  case (Cons a named)
  obtain m d where a: "a = (m, d)" by (cases a)
  show ?case
  proof (cases "cd_worktree d")
    case None
    then show ?thesis using Cons a by simp
  next
    case (Some w)
    let ?r = "record_worktree_member resolve w G (fm_id m) (case fm_candidate_revision m of None \<Rightarrow> 0 | Some r \<Rightarrow> r) run s"
    have kept: "holds h c (snd ?r)" using Cons.prems holds_cong [of "snd ?r" s h c] by simp
    have undone: "holds h c (snd (set_states (map (release_op G) names) (fold (release_worktree_member resolve G) written (snd ?r))))"
      using kept holds_cong [of "fold (release_worktree_member resolve G) written (snd ?r)" "snd ?r" h c] assms(2-4)
      by (intro foreign_batch) auto
    show ?thesis
      using a Some undone Cons.IH [OF kept]
      by (cases ?r; cases "fst ?r") (auto simp: snd_bindA split: sum.splits)
  qed
qed (simp add: assms)

lemma holds_written: "holds h c (write_manifest path f s) \<longleftrightarrow> holds h c s"
  by (rule holds_cong) simp

lemma foreign_commit:
  assumes "holds h c s" and "cd_state c \<in> {C_ADMITTED, C_JOINING}" and "cd_formation c = Some F" and "F \<noteq> G"
  shows "holds h c (snd (commit_members env G path f named released s))"
proof -
  define ts where "ts = map (admission_op G) (map (\<lambda>(m, c). cd_id c) named) @ map (release_op G) released"
  define ws where "ws = concat (map (\<lambda>h. case Option.bind (candidate_named s h) cd_worktree of None \<Rightarrow> [] | Some w \<Rightarrow> [w]) released)"
  have batch: "holds h c (snd (set_states ts s))" unfolding ts_def using assms by (intro foreign_batch) auto
  have "holds h c (fold (release_worktree_member (fe_resolve env) G) ws (snd (set_states ts s)))"
    using batch holds_cong [of "fold (release_worktree_member (fe_resolve env) G) ws (snd (set_states ts s))" "snd (set_states ts s)" h c]
    by simp
  note records = foreign_records [OF this assms(2-4)]
  have "holds h c (snd (commit_admissions (fe_resolve env) G (mf_orchestrator f) named released s))"
    unfolding commit_admissions_def Let_def snd_bindA ts_def [symmetric] ws_def [symmetric]
    using batch records by (simp split: sum.split)
  then show ?thesis by (simp add: commit_members_def snd_bindA holds_written split: sum.split)
qed

lemma checked_id: "check_manifest f = Inr f' \<Longrightarrow> mf_id f' = mf_id f"
  by (auto simp: check_manifest_def split: if_splits option.splits)

text \<open>C24: An admission is exclusive. While one formation has admitted a candidate or is being joined by it, no verb of another formation's
  orchestrator, whatever it names, changes that candidate's record: it can neither admit the candidate nor release it.\<close>

theorem admission_is_exclusive:
  assumes "registry_ok (fs_candidates s)" and "candidate_named s h = Some c" and "cd_state c \<in> {C_ADMITTED, C_JOINING}"
    and "cd_formation c = Some F" and "acts_for v = Some G" and "F \<noteq> G"
  shows "candidate_named (perform env (now, v) s) h = Some c"
proof -
  have here: "holds h c s" using assms(1,2) by (simp add: holds_def registry_ok_def)
  note commit = foreign_commit [OF here assms(3,4)]
  have "holds h c (perform env (now, v) s)"
  proof (cases v)
    case (V_create run payload forged lead)
    have registered: "holds h c (register_formation formation run s') \<longleftrightarrow> holds h c s'" for formation s'
      by (rule holds_cong) simp
    have same: "F \<noteq> mf_id f" if "check_manifest (payload\<lparr>mf_orchestrator := run, mf_members := ms\<rparr>) = Inr f" for f ms
      using checked_id [OF that] assms(5,6) V_create by simp
    show ?thesis
      using here V_create
      by (auto simp: create_formation_def snd_bindA Let_def registered commit dest!: same split: sum.splits)
  next
    case (V_add_orchestrator formation caller member pin)
    then show ?thesis using here holds_cong [of "perform env (now, v) s" s h c] by simp
  qed (use here assms(5,6) commit in \<open>auto simp: revise_def add_slots_def remove_slot_def Let_def split: sum.splits\<close>)
  then show ?thesis by (simp add: holds_def)
qed

section \<open>What a handle is good for\<close>

text \<open>C26: A copied handle is useless. However the formations have changed since a candidate was announced, a closed slot that admits it
  can only be joined from the session that announced it.\<close>

theorem copied_handle_useless:
  assumes "registry_ok (fs_candidates s)" and "candidate_named s h = Some c" and "\<not> list_ex (\<lambda>v. issues (snd v) h) history"
    and "opened (performs env history s) formation = Inr (path, f)" and "member_of f member = Inr m"
    and "\<not> fm_open_join m" and "fm_candidate m = Some h" and "truthy_run m = None" and "pin \<noteq> Some (cd_pin c)"
  shows "\<exists>reason. join_formation env now formation member run pin handle (performs env history s) =
    (Inl (AdmissionRefused reason), performs env history s)"
proof -
  have "\<exists>reason. require_join_admitted (fe_resolve env) (performs env history s) now m handle run pin = Inl (AdmissionRefused reason)"
  proof (cases "candidate_named (performs env history s) h")
    case None
    then show ?thesis using assms(6,7) by (auto simp: require_join_admitted_def)
  next
    case (Some c')
    then have "cd_pin c' = cd_pin c" by (rule handle_belongs [OF assms(1-3)])
    then show ?thesis using assms(6,7,9) Some by (auto simp: require_join_admitted_def)
  qed
  then show ?thesis using assms(4,5,8) by (auto simp: join_formation_def)
qed

end
