(* ===== verification/Formation_Manifests.thy ===== *)
theory Formation_Manifests
  imports Formation_Registry
begin

text \<open>
  What the verbs do to manifests and to the runs of their callers: every write counts the revision up by one and comes from the
  orchestrator or touches nothing but the caller's own binding; a pick-up ends in membership or in a run that binds nowhere.
\<close>

section \<open>Reading a rewritten store\<close>

lemma map_of_find: "map_of rows k = map_option snd (find_row fst k rows)"
  by (induction rows) auto

lemma map_of_put_row [simp]: "map_of (put_row fst (k, x) rows) k' = (if k' = k then Some x else map_of rows k')"
  by (simp add: map_of_find row_laws)

lemma write_manifest_at [simp]: "fs_manifests (write_manifest path f s) = put_row fst (path, f) (fs_manifests s)"
  by (simp add: write_manifest_def)

lemma manifests_untouched [simp]:
  "fs_manifests (write_candidates rs s) = fs_manifests s"
  "fs_manifests (snd (announce resolve token now ttl pin run worktree client s)) = fs_manifests s"
  "fs_manifests (snd (set_candidate_state h state formation_change s)) = fs_manifests s"
  "fs_manifests (snd (set_states ts s)) = fs_manifests s"
  "fs_manifests (release_worktree_member resolve formation w s) = fs_manifests s"
  "fs_manifests (snd (record_worktree_member resolve w formation member revision run s)) = fs_manifests s"
  "fs_manifests (revoke_run_stamp run s) = fs_manifests s"
  "fs_manifests (snd (stamp_run_record run formation member s)) = fs_manifests s"
  "fs_manifests (snd (restore_missing_stamp run formation m pin_key s)) = fs_manifests s"
  "fs_manifests (register_formation formation run s) = fs_manifests s"
  by (auto simp: write_candidates_def announce_def set_candidate_state_def set_states_def release_worktree_member_def record_worktree_member_def
      revoke_run_stamp_def stamp_run_record_def restore_missing_stamp_def register_formation_def write_stamp_def Let_def
      split: option.splits sum.splits if_splits)

lemma releases_keep_manifests [simp]:
  "fs_manifests (fold (release_worktree_member resolve formation) ws s) = fs_manifests s"
  by (induction ws arbitrary: s) simp_all

lemma records_keep_manifests [simp]:
  "fs_manifests (snd (record_admitted resolve formation run names named written s)) = fs_manifests s"
proof (induction named arbitrary: written s)
  case (Cons a named)
  obtain m c where a: "a = (m, c)" by (cases a)
  have kept: "fs_manifests (snd (record_worktree_member resolve w formation member revision run s)) = fs_manifests s" for w member revision
    by simp
  show ?case
    using a Cons.IH kept [unfolded surjective_pairing]
    by (auto simp: snd_bindA split: option.splits sum.splits prod.splits) (metis kept snd_conv)+
qed simp

lemma admissions_keep_manifests [simp]:
  "fs_manifests (snd (commit_admissions resolve formation run named released s)) = fs_manifests s"
  by (simp add: commit_admissions_def snd_bindA Let_def split: sum.split)

lemma read_same: "fs_manifests s = fs_manifests s' \<Longrightarrow> read_manifest s path = read_manifest s' path"
  by (simp add: read_manifest_def)

section \<open>Rewrites\<close>

definition rewritten :: "(FormationManifest \<Rightarrow> FormationManifest \<Rightarrow> bool) \<Rightarrow> formation_store \<Rightarrow> formation_store \<Rightarrow> bool" where
  "rewritten R s s' \<longleftrightarrow> fs_manifests s' = fs_manifests s \<or>
     (\<exists>path f f'. read_manifest s path = Inr f \<and> fs_manifests s' = put_row fst (path, f') (fs_manifests s) \<and> R f f')"

lemma rewritten_refl [simp]: "rewritten R s s"
  by (simp add: rewritten_def)

lemma rewritten_same: "fs_manifests s' = fs_manifests s \<Longrightarrow> rewritten R s s'"
  by (simp add: rewritten_def)

lemma rewritten_write: "read_manifest s path = Inr f \<Longrightarrow> R f f' \<Longrightarrow> rewritten R s (write_manifest path f' s)"
  by (auto simp: rewritten_def)

lemma rewritten_cong:
  "rewritten R s s' \<Longrightarrow> fs_manifests t = fs_manifests s \<Longrightarrow> fs_manifests t' = fs_manifests s' \<Longrightarrow> rewritten R t t'"
  unfolding rewritten_def by (metis read_same)

definition next_revision :: "FormationManifest \<Rightarrow> FormationManifest \<Rightarrow> bool" where
  "next_revision f f' \<longleftrightarrow> mf_revision f' = mf_revision f + 1 \<and> mf_id f' = mf_id f \<and> mf_orchestrator f' = mf_orchestrator f"

definition same_charter :: "FormationMember \<Rightarrow> FormationMember \<Rightarrow> bool" where
  "same_charter m m' \<longleftrightarrow> m' = m\<lparr>fm_run := fm_run m', fm_pin := fm_pin m', fm_status := fm_status m', fm_joined := fm_joined m'\<rparr>"

definition own_change :: "FormationManifest \<Rightarrow> FormationManifest \<Rightarrow> bool" where
  "own_change f f' \<longleftrightarrow> next_revision f f' \<and>
     (\<exists>member. list_all2 (\<lambda>m m'. if fm_id m = member then same_charter m m' else m' = m) (mf_members f) (mf_members f'))"

fun caller_of :: "formation_verb \<Rightarrow> string option" where
  "caller_of (V_revise formation caller updates) = caller"
| "caller_of (V_add_slots formation caller slots) = caller"
| "caller_of (V_remove_slot formation caller member) = caller"
| "caller_of (V_add_orchestrator formation caller member pin) = caller"
| "caller_of _ = None"

definition orchestrator_change :: "formation_env \<Rightarrow> formation_verb \<Rightarrow> FormationManifest \<Rightarrow> FormationManifest \<Rightarrow> bool" where
  "orchestrator_change env v f f' \<longleftrightarrow> next_revision f f' \<and>
     map_option (fe_resolve env) (caller_of v) = Some (fe_resolve env (mf_orchestrator f))"

lemma revised_next [simp]: "next_revision f (revised env now f members)"
  by (simp add: next_revision_def revised_def)

lemma revised_members [simp]: "mf_members (revised env now f members) = members" "mf_id (revised env now f members) = mf_id f"
  "mf_orchestrator (revised env now f members) = mf_orchestrator f" "mf_revision (revised env now f members) = mf_revision f + 1"
  by (simp_all add: revised_def)

lemma own_revised: "(\<And>m. same_charter m (g m)) \<Longrightarrow> own_change f (revised env now f (on_member member g (mf_members f)))"
  by (auto simp: own_change_def on_member_def list_all2_conv_all_nth intro!: exI [of _ member])

lemma checked_next: "check_manifest f = Inr f' \<Longrightarrow> mf_revision f' = mf_revision f \<and> mf_id f' = mf_id f \<and> mf_orchestrator f' = mf_orchestrator f"
  by (auto simp: check_manifest_def split: if_splits option.splits)

lemma opened_read: "opened s formation = Inr (path, f) \<Longrightarrow> read_manifest s path = Inr f"
  by (auto simp: opened_def)

lemma required [simp]: "require_orchestrator env f caller = Inr u \<longleftrightarrow> map_option (fe_resolve env) caller = Some (fe_resolve env (mf_orchestrator f))"
  by (auto simp: require_orchestrator_def)

lemma commit_rewritten:
  "read_manifest s path = Inr f \<Longrightarrow> R f f' \<Longrightarrow> rewritten R s (snd (commit_members env formation path f' named released s))"
  by (auto simp: commit_members_def snd_bindA rewritten_def split: sum.split)

lemma snd_bindA_last: "snd (bindA m (\<lambda>x s'. (r x, s')) s) = snd (m s)"
  by (simp add: snd_bindA split: sum.split)

lemma join_rewritten: "rewritten own_change s (snd (join_formation env now formation member run pin handle s))"
proof -
  have charter: "same_charter m (joined_member env now run pin' m)" "same_charter m (m\<lparr>fm_pin := pin'\<rparr>)" for m pin'
    by (simp_all add: same_charter_def joined_member_def)
  show ?thesis
  proof (cases "bindE (opened s formation) (\<lambda>(path, f). bindE (member_of f member) (\<lambda>m. Inr (path, f, m)))")
    case (Inl e)
    then show ?thesis by (simp add: join_formation_def)
  next
    case (Inr r)
    then obtain path f m where r: "r = (path, f, m)" and read: "read_manifest s path = Inr f"
      by (auto dest: opened_read)
    have changes: "rewritten own_change s (write_manifest path (revised env now f (on_member member g (mf_members f))) s)"
      if "\<And>m. same_charter m (g m)" for g
      using rewritten_write [where R = own_change, OF read] own_revised that by blast
    have stamped: "rewritten own_change s (snd (stamp_run_record run formation member s'))" if "rewritten own_change s s'" for s'
      using that by (rule rewritten_cong) simp_all
    show ?thesis
      unfolding join_formation_def Inr r
      by (simp add: snd_bindA_last Let_def rewritten_same changes stamped charter split: option.split sum.split)
  qed
qed

lemma delivered_rewritten: "rewritten own_change s (snd (mark_member_delivered env now formation member run s))"
proof -
  have charter: "same_charter m (m\<lparr>fm_status := Delivered\<rparr>)" for m by (simp add: same_charter_def)
  show ?thesis
    by (auto simp: mark_member_delivered_def Let_def split: sum.splits dest!: opened_read intro!: rewritten_write [where R = own_change] own_revised charter)
qed

lemma orchestrated:
  assumes "read_manifest s path = Inr f" and "next_revision f f'"
    and "map_option (fe_resolve env) (caller_of v) = Some (fe_resolve env (mf_orchestrator f))"
  shows "rewritten (orchestrator_change env v) s (snd (commit_members env formation path f' named released s))"
    "rewritten (orchestrator_change env v) s (write_manifest path f' s)"
  using commit_rewritten [where R = "orchestrator_change env v", OF assms(1)]
    rewritten_write [where R = "orchestrator_change env v", OF assms(1)] assms(2,3)
  by (simp_all add: orchestrator_change_def)

lemma orchestrator_rewritten:
  "rewritten (orchestrator_change env (V_revise formation caller updates)) s (snd (revise env now formation caller updates s))"
  "rewritten (orchestrator_change env (V_add_slots formation caller slots)) s (snd (add_slots env now formation caller slots s))"
  "rewritten (orchestrator_change env (V_remove_slot formation caller member)) s (snd (remove_slot env now formation caller member s))"
  "rewritten (orchestrator_change env (V_add_orchestrator formation caller member pin)) s
     (snd (add_orchestrator env now formation caller member pin s))"
proof -
  have next_checked: "next_revision f f'" if "check_manifest (revised env now f ms) = Inr f'" for f f' ms
    using checked_next [OF that] by (simp add: next_revision_def)
  have stamped: "next_revision f (f'\<lparr>mf_members := ms\<rparr>)" if "check_manifest (revised env now f ms') = Inr f'" for f f' ms ms'
    using next_checked [OF that] by (simp add: next_revision_def)
  show "rewritten (orchestrator_change env (V_revise formation caller updates)) s (snd (revise env now formation caller updates s))"
    by (auto simp: revise_def Let_def split: sum.splits dest!: opened_read intro!: orchestrated(1))
  show "rewritten (orchestrator_change env (V_add_slots formation caller slots)) s (snd (add_slots env now formation caller slots s))"
    by (auto simp: add_slots_def Let_def split: sum.splits if_splits dest!: opened_read intro!: orchestrated(1) stamped)
  show "rewritten (orchestrator_change env (V_remove_slot formation caller member)) s (snd (remove_slot env now formation caller member s))"
    by (auto simp: remove_slot_def Let_def split: sum.splits if_splits dest!: opened_read intro!: orchestrated(1) next_checked)
  show "rewritten (orchestrator_change env (V_add_orchestrator formation caller member pin)) s
     (snd (add_orchestrator env now formation caller member pin s))"
    by (auto simp: add_orchestrator_def Let_def split: sum.splits if_splits dest!: opened_read intro!: orchestrated(2) next_checked)
qed

lemma pickup_manifests [simp]:
  "fs_manifests (snd (revoke_pickup c run s)) = fs_manifests s"
  "fs_manifests (snd (retry_or_revoke w c run s)) = fs_manifests s"
  "fs_manifests (complete_pickup c s) = fs_manifests s"
proof -
  have kept: "fs_manifests (snd (set_candidate_state h state fo t)) = fs_manifests t" for h state fo t by simp
  show revoked: "fs_manifests (snd (revoke_pickup c run s)) = fs_manifests s"
    using kept [of "cd_id c" C_REVOKED None "revoke_run_stamp run s"]
    by (cases "set_candidate_state (cd_id c) C_REVOKED None (revoke_run_stamp run s)") (simp add: revoke_pickup_def split: sum.splits)
  show "fs_manifests (snd (retry_or_revoke w c run s)) = fs_manifests s"
    by (simp add: retry_or_revoke_def revoked split: sum.split)
  show "fs_manifests (complete_pickup c s) = fs_manifests s" by (simp add: complete_pickup_def)
qed

lemma stages_rewritten: "rewritten own_change s (snd (pickup_stages env now session (alone w) c run slot s))"
proof -
  have joined: "rewritten own_change s (snd (join_formation env now formation member run pin handle (snd (set_candidate_state h C_JOINING None s))))"
    for formation member pin handle h
    by (rule rewritten_cong [OF join_rewritten]) simp_all
  show ?thesis
    by (auto simp: pickup_stages_def alone_def snd_bindA joined join_rewritten rewritten_same split: sum.split)
qed

lemma advance_rewritten: "rewritten own_change s (snd (advance env now session pinned (alone w) s))"
proof -
  have staged: "rewritten own_change s t" if "pickup_stages env now session (alone w) c run slot s = (r, s')" "fs_manifests t = fs_manifests s'"
    for c run slot r s' t
    using rewritten_cong [OF stages_rewritten, of s s t env now session w c run slot] that by simp
  show ?thesis
    by (auto simp: advance_def rewritten_same split: option.splits sum.splits prod.splits formation_error.splits elim!: staged)
qed

text \<open>C23: Authority is structural. Whatever a verb does to an existing manifest, it leaves it as it was, or counts its revision up by one
  and keeps its identity and its orchestrator; and unless the call comes from the orchestrator's own run, it changes at most one
  member, and of that member only the run, the session, the status and the time of joining.\<close>

theorem authority_is_structural:
  assumes "map_of (fs_manifests s) path = Some f0"
  shows "map_of (fs_manifests (perform env (now, v) s)) path = Some f0 \<or>
    (\<exists>f f'. read_manifest s path = Inr f \<and> map_of (fs_manifests (perform env (now, v) s)) path = Some f' \<and>
       (orchestrator_change env v f f' \<or> own_change f f'))"
proof -
  have at: ?thesis if "rewritten R s (perform env (now, v) s)" "R = orchestrator_change env v \<or> R = own_change" for R
    using that assms unfolding rewritten_def by (cases "R = own_change") (auto split: if_splits)
  show ?thesis
  proof (cases v)
    case (V_create run payload forged lead)
    have "fs_manifests (snd (commit_members env formation run f named released s)) \<in>
        {fs_manifests s, put_row fst (run, f) (fs_manifests s)}" for formation f named released
      by (simp add: commit_members_def snd_bindA split: sum.split)
    then have "map_of (fs_manifests (perform env (now, v) s)) path = Some f0"
      using V_create assms
      by (auto simp: create_formation_def snd_bindA Let_def split: sum.splits) (metis map_of_put_row option.distinct(1) insertE singletonD)+
    then show ?thesis by simp
  next
    case (V_announce token ttl session pinned worktree client)
    have kept: "fs_manifests s' = fs_manifests s" if "announce resolve token now ttl pin run worktree client s = (r, s')" for resolve ttl pin run r s'
      using arg_cong [OF that, of "fs_manifests \<circ> snd"] by simp
    have "fs_manifests (perform env (now, v) s) = fs_manifests s"
      using V_announce
      by (auto simp: bootstrap_announce_def split: option.splits prod.splits sum.splits formation_error.splits dest: kept)
    then show ?thesis using assms by simp
  next
    case (V_withdraw session pinned)
    have kept: "fs_manifests s' = fs_manifests s" if "set_candidate_state h C_WITHDRAWN None s = (r, s')" for h r s'
      using arg_cong [OF that, of "fs_manifests \<circ> snd"] by simp
    have "fs_manifests (perform env (now, v) s) = fs_manifests s"
      using V_withdraw by (auto simp: bootstrap_withdraw_def split: option.splits prod.splits sum.splits dest: kept)
    then show ?thesis using assms by simp
  next
    case (V_report_delivered run)
    have "rewritten own_change s (perform env (now, v) s)"
      using V_report_delivered by (auto simp: report_delivered_def snd_bindA_last delivered_rewritten split: sum.split option.split)
    then show ?thesis by (rule at) simp
  next
    case (V_revise formation caller updates)
    then show ?thesis by (intro at [of "orchestrator_change env v"]) (simp_all add: orchestrator_rewritten)
  next
    case (V_add_slots formation caller slots)
    then show ?thesis by (intro at [of "orchestrator_change env v"]) (simp_all add: orchestrator_rewritten)
  next
    case (V_remove_slot formation caller member)
    then show ?thesis by (intro at [of "orchestrator_change env v"]) (simp_all add: orchestrator_rewritten)
  next
    case (V_add_orchestrator formation caller member pin)
    then show ?thesis by (intro at [of "orchestrator_change env v"]) (simp_all add: orchestrator_rewritten)
  qed (rule at [of own_change]; simp add: join_rewritten delivered_rewritten advance_rewritten rewritten_same)+
qed

end
