(* ===== verification/Comms_Pickup_Laws.thy ===== *)
theory Comms_Pickup_Laws
  imports Formation_Manifests
begin

text \<open>
  How a pick-up ends: an admitted candidate that meets no trouble is a bound member after one call; a revoked one binds nowhere, also
  where it was bound before; and \<open>ready\<close> means that the slot names the candidate after the join.
\<close>

section \<open>Revocation\<close>

lemma revoked_stamp: "stamped_ids (revoke_run_stamp run s) run = None"
  by (auto simp: stamped_ids_def revoke_run_stamp_def write_stamp_def stamp_of_def nonempty_def split: option.splits)

lemma set_state_runs:
  "set_candidate_state h state formation s = (r, s') \<Longrightarrow> fs_runs s' = fs_runs s \<and> fs_manifests s' = fs_manifests s \<and> fs_index s' = fs_index s"
  by (auto simp: set_candidate_state_def write_candidates_def split: option.splits sum.splits)

lemma revoked_pickup: "revoke_pickup c run s = (r, s') \<Longrightarrow> stamped_ids s' run = None"
  using revoked_stamp [of run s] set_state_runs [of "cd_id c" C_REVOKED None "revoke_run_stamp run s"]
  by (auto simp: revoke_pickup_def stamped_ids_def stamp_of_def split: prod.splits sum.splits)

lemma revoked_again: "retry_or_revoke w c run s = (Pickup_revoked, s') \<Longrightarrow> stamped_ids s' run = None"
  by (auto simp: retry_or_revoke_def revoked_pickup split: sum.splits if_splits)

lemma unstamped_unbound:
  "stamped_ids s run = None \<Longrightarrow> map_of (fs_manifests s) run = None \<Longrightarrow> resolve_snapshot env root session (Some run) s = unbound ''no_formation''"
  by (simp add: resolve_snapshot_def resolve_active_def)

text \<open>C27: A revoked pick-up binds nowhere. Whatever the stores did during the stages, a call that answers that the admission was revoked
  leaves a run that no later call can bind as a member, unless the run orchestrates a formation of its own.\<close>

theorem revoked_pickup_binds_nowhere:
  assumes "advance env now session (Some run) w s = (Pickup_revoked, s')" and "map_of (fs_manifests s') run = None"
  shows "resolve_snapshot comms root session' (Some run) s' = unbound ''no_formation''"
proof (rule unstamped_unbound)
  show "stamped_ids s' run = None"
    using assms(1)
    by (auto simp: advance_def dest: revoked_pickup revoked_again split: option.splits sum.splits prod.splits formation_error.splits if_splits)
qed (rule assms(2))

section \<open>Readiness\<close>

lemma retry_not_ready: "retry_or_revoke w c run s \<noteq> (Pickup_ready, s')" "revoke_pickup c run s \<noteq> (Pickup_ready, s')"
  by (auto simp: retry_or_revoke_def revoke_pickup_def split: sum.splits if_splits prod.splits option.splits)

lemma stages_read:
  "pickup_stages env now session w c run slot s = (Inr after, s') \<Longrightarrow> admitted_slot c s' = Inr after"
  by (auto simp: pickup_stages_def bindA_def unless_fault_def split: prod.splits sum.splits if_splits)

text \<open>Nobody is enrolled past a revision. When a pick-up says it is ready, the manifest of the formation that admitted the candidate
  names it in the slot it joined, as the stores are then, whatever others wrote between the stages.\<close>

theorem ready_means_still_named:
  assumes "advance env now session (Some run) w s = (Pickup_ready, s')" and "candidate_for (fe_resolve env) s session run = Some c"
  shows "\<exists>formation m m'. admitted_slot c s = Inr (Some (formation, m)) \<and> admitted_slot c s' = Inr (Some (formation, m')) \<and> fm_id m' = fm_id m"
proof -
  have named: "admitted_slot c t = Inr (Some (formation, m)) \<Longrightarrow> cd_formation c = Some formation" for t formation m
    by (cases "cd_formation c") (auto simp: admitted_slot_def split: option.splits)
  show ?thesis
    using assms retry_not_ready
    by (auto simp: advance_def dest: named dest!: stages_read split: option.splits sum.splits prod.splits formation_error.splits if_splits)
      (metis named option.inject)+
qed

section \<open>Liveness\<close>

lemma newest_mem: "newest cs = Some c \<Longrightarrow> c \<in> set cs"
proof -
  have "fold (\<lambda>c best. case best of None \<Rightarrow> Some c | Some b \<Rightarrow> if cd_announced b < cd_announced c then Some c else best) cs best = Some c \<Longrightarrow>
      c \<in> set cs \<or> best = Some c" for best
    by (induction cs arbitrary: best) (auto split: option.splits if_splits)
  from this [of None] show "newest cs = Some c \<Longrightarrow> c \<in> set cs" by (simp add: newest_def)
qed

lemma caller_record:
  assumes "candidate_for resolve s session run = Some c" and "registry_ok (fs_candidates s)"
  shows "candidate_named s (cd_id c) = Some c" "same_caller resolve session run c"
proof -
  have "c \<in> set (filter (same_caller resolve session run) (fs_candidates s))"
    using assms(1) newest_mem unfolding candidate_for_def by blast
  then show "candidate_named s (cd_id c) = Some c" "same_caller resolve session run c"
    using assms(2) find_row_mem [of cd_id "fs_candidates s" c] by (simp_all add: candidate_named_def registry_ok_def)
qed

lemma checked_fixpoint: "check_members ms = Inr ms \<longleftrightarrow> (\<forall>m \<in> set ms. check_member m = Inr m)"
  by (induction ms) auto

lemma joined_checked: "check_member m = Inr m \<Longrightarrow> check_member (joined_member env now run pin m) = Inr (joined_member env now run pin m)"
  by (cases m) (auto simp: check_member_def joined_member_def split: if_splits)

lemma joined_same [simp]:
  "fm_id (joined_member env now run pin m) = fm_id m" "fm_owned (joined_member env now run pin m) = fm_owned m"
  "fm_test_owned (joined_member env now run pin m) = fm_test_owned m" "fm_prds (joined_member env now run pin m) = fm_prds m"
  "fm_candidate (joined_member env now run pin m) = fm_candidate m" "fm_run (joined_member env now run pin m) = Some run"
  "fm_pin (joined_member env now run pin m) = pin" "fm_status (joined_member env now run pin m) = Joined"
  by (simp_all add: joined_member_def)

lemma map_on_member: "(\<And>m. q (g m) = q m) \<Longrightarrow> map q (on_member member g ms) = map q ms"
  by (simp add: on_member_def)

lemma find_on_member:
  assumes "\<And>m. q (g m) = q m" and "find q ms = Some m"
  shows "find q (on_member (fm_id m) g ms) = Some (g m)"
  using assms(2) by (induction ms) (auto simp: on_member_def assms(1) split: if_splits)

lemma joined_manifest_checked:
  assumes "check_manifest f = Inr f"
  shows "check_manifest (revised env now f (on_member member (joined_member env now run pin) (mf_members f))) =
    Inr (revised env now f (on_member member (joined_member env now run pin) (mf_members f)))"
proof -
  let ?ms = "on_member member (joined_member env now run pin) (mf_members f)"
  have members: "check_members (mf_members f) = Inr (mf_members f)" and head: "valid_id (mf_id f)"
      "\<not> (case mf_schema f of None \<Rightarrow> False | Some v \<Rightarrow> v < 1)" "\<not> mf_revision f < 1"
    and rules: "(if strip is_str_space (mf_rules f) = [] then Inr [] else normalise_glob (mf_rules f)) = Inr (mf_rules f)"
    and unique: "distinct (map fm_id (mf_members f))" "distinct (concat (map fm_owned (mf_members f)))"
      "distinct (concat (map fm_test_owned (mf_members f)))" "distinct (concat (map fm_prds (mf_members f)))"
    using assms by (cases f; auto simp: check_manifest_def split: if_splits)+
  have "check_members ?ms = Inr ?ms"
    using members by (auto simp: checked_fixpoint on_member_def joined_checked)
  then show ?thesis
    using head rules unique by (auto simp: check_manifest_def revised_def map_on_member)
qed

lemma admitted_slotD:
  assumes "admitted_slot c s = Inr (Some (formation, m))"
  obtains path f where "cd_formation c = Some formation" and "map_of (fs_index s) formation = Some path" and "read_manifest s path = Inr f"
    and "find (\<lambda>m. fm_candidate m = Some (cd_id c)) (mf_members f) = Some m"
  using assms by (cases "cd_formation c") (auto simp: admitted_slot_def split: option.splits)

lemma find_mem: "find q xs = Some x \<Longrightarrow> x \<in> set xs \<and> q x"
  by (induction xs) (auto split: if_splits)

lemma filter_one: "distinct xs \<Longrightarrow> x \<in> set xs \<Longrightarrow> (\<And>y. y \<in> set xs \<Longrightarrow> q y \<longleftrightarrow> y = x) \<Longrightarrow> filter q xs = [x]"
proof (induction xs)
  case (Cons y ys)
  show ?case
  proof (cases "y = x")
    case True
    then have "filter q ys = []" using Cons.prems by (auto simp: filter_empty_conv)
    then show ?thesis using Cons.prems(3) [of y] True by simp
  qed (use Cons in auto)
qed simp

lemma joining_move: "cd_state c = C_ADMITTED \<Longrightarrow> apply_transition c C_JOINING None = Inr (c\<lparr>cd_state := C_JOINING\<rparr>)"
  by (cases c) (simp add: apply_transition_def)

lemma valid_nonempty: "valid_id x \<Longrightarrow> x \<noteq> []"
  by (auto simp: valid_id_def)

text \<open>The stores after the stages of a pick-up nothing disturbs.\<close>

lemma undisturbed_pickup:
  assumes candidate: "candidate_for (fe_resolve env) s session run = Some c" "cd_state c = C_ADMITTED" "live now c"
      "registry_ok (fs_candidates s)"
    and slot: "admitted_slot c s = Inr (Some (formation, m))" "fm_run m = None"
    and manifest: "map_of (fs_index s) formation = Some path" "read_manifest s path = Inr f" "check_manifest f = Inr f"
    and stamp: "stamp_of s run = Some r"
  obtains s' where "advance env now session (Some run) fair s = (Pickup_ready, s')" and "fs_index s' = fs_index s"
    and "map_of (fs_manifests s') = (map_of (fs_manifests s))
      (path \<mapsto> revised env now f (on_member (fm_id m) (joined_member env now run (Some session)) (mf_members f)))"
    and "stamp_of s' run = Some (r\<lparr>rn_formation := Some formation, rn_member := Some (fm_id m)\<rparr>)"
proof -
  let ?f = "revised env now f (on_member (fm_id m) (joined_member env now run (Some session)) (mf_members f))"
  let ?c = "c\<lparr>cd_state := C_JOINING\<rparr>"
  let ?s1 = "write_candidates (put_row cd_id ?c (fs_candidates s)) s"
  let ?s2 = "write_stamp run (r\<lparr>rn_formation := Some formation, rn_member := Some (fm_id m)\<rparr>) (write_manifest path ?f ?s1)"
  note mine = caller_record [OF candidate(1,4)]
  obtain here: "cd_formation c = Some formation" and found: "find (\<lambda>m. fm_candidate m = Some (cd_id c)) (mf_members f) = Some m"
    using slot(1) manifest(1,2) by (elim admitted_slotD) simp
  have member: "m \<in> set (mf_members f)" "fm_candidate m = Some (cd_id c)" using find_mem [OF found] by simp_all
  have starts: "set_candidate_state (cd_id c) C_JOINING None s = (Inr (Some ?c), ?s1)"
    using mine(1) by (simp add: set_candidate_state_def candidate_named_def [symmetric] joining_move [OF candidate(2)])
  have named: "candidate_named ?s1 (cd_id c) = Some ?c"
    using candidate(4) by (simp add: candidate_named_def write_candidates_def registry_ok_def unique_put_row row_laws)
  have gate: "require_join_admitted (fe_resolve env) ?s1 now m (Some (cd_id c)) run (Some session) = Inr ()"
    using member(2) named mine(2) candidate(3) by (simp add: require_join_admitted_def same_caller_def live_def LIVE_STATES_def)
  have "member_of f (fm_id m) = Inr m"
    using find_row_mem [of fm_id "mf_members f" m] read_members(1) [OF manifest(2)] member(1) by (simp add: member_of_def unique_key_def)
  moreover have "opened ?s1 formation = Inr (path, f)"
    using manifest(1,2) read_same [of ?s1 s path] by (simp add: opened_def resolve_manifest_path_def write_candidates_def)
  ultimately have joins: "join_formation env now formation (fm_id m) run (Some session) (Some (cd_id c)) ?s1 = (Inr ?f, ?s2)"
    using slot(2) gate stamp
    by (simp add: join_formation_def truthy_run_def nonempty_def bindA_def stamp_run_record_def stamp_of_def write_manifest_def write_candidates_def Let_def)
  have "read_manifest ?s2 path = Inr ?f"
    using joined_manifest_checked [OF manifest(3)] by (simp add: read_manifest_def write_stamp_def)
  then have again: "admitted_slot c ?s2 = Inr (Some (formation, joined_member env now run (Some session) m))"
    using here manifest(1) find_on_member [OF _ found, of "joined_member env now run (Some session)"]
    by (simp add: admitted_slot_def write_stamp_def write_manifest_def write_candidates_def)
  have "pickup_stages env now session fair c run (formation, m) s = (Inr (Some (formation, joined_member env now run (Some session) m)), ?s2)"
    using starts joins again by (simp add: pickup_stages_def bindA_def unless_fault_def fair_def)
  then have "advance env now session (Some run) fair s = (Pickup_ready, ?s2)"
    using candidate slot(1) by (simp add: advance_def fair_def LIVE_STATES_def)
  then show ?thesis
    by (rule that) (auto simp: write_stamp_def write_manifest_def write_candidates_def stamp_of_def)
qed

text \<open>The new member is the only one its run and session match.\<close>

lemma joined_matches:
  assumes "distinct (map fm_id (mf_members f))" and "m \<in> set (mf_members f)"
    and "list_all (\<lambda>x. map_option (ce_resolve comms) (fm_run x) \<noteq> Some (ce_resolve comms run)) (mf_members f)"
  shows "matching_members comms (revised env now f (on_member (fm_id m) (joined_member env now run (Some session)) (mf_members f))) run session =
    [joined_member env now run (Some session) m]"
proof -
  have own: "fm_id x = fm_id m \<longleftrightarrow> x = m" if "x \<in> set (mf_members f)" for x
    using that assms(2) same_member [OF assms(1)] by auto
  have other: "map_option (ce_resolve comms) (fm_run x) \<noteq> Some (ce_resolve comms run)" if "x \<in> set (mf_members f)" for x
    using that assms(3) by (simp add: list_all_iff)
  define g where "g = joined_member env now run (Some session)"
  have "filter (\<lambda>x. map_option (ce_resolve comms) (fm_run (if fm_id x = fm_id m then g x else x)) = Some (ce_resolve comms run) \<and>
      fm_pin (if fm_id x = fm_id m then g x else x) = Some session) (mf_members f) = [m]"
    by (rule filter_one [OF _ assms(2)]) (use own other assms(1) in \<open>auto simp: g_def distinct_map\<close>)
  then show ?thesis unfolding g_def [symmetric] by (simp add: matching_members_def on_member_def filter_map comp_def)
qed

text \<open>C22: An admitted candidate becomes a member. One undisturbed call of the candidate its slot names, announced, admitted and not expired,
  makes it ready; in the resulting store its run and session bind at the formation's manifest as exactly the member that admitted it, provided no
  other slot records the same run.\<close>

theorem admitted_candidate_becomes_member:
  assumes "candidate_for (fe_resolve env) s session run = Some c" and "cd_state c = C_ADMITTED" and "live now c"
    and "registry_ok (fs_candidates s)" and "admitted_slot c s = Inr (Some (formation, m))" and "fm_run m = None"
    and "map_of (fs_index s) formation = Some path" and "read_manifest s path = Inr f" and "check_manifest f = Inr f"
    and "mf_id f = formation" and "mf_orchestrator f = path" and "stamp_of s run \<noteq> None" and "map_of (fs_manifests s) run = None"
    and "list_all (\<lambda>x. map_option (ce_resolve comms) (fm_run x) \<noteq> Some (ce_resolve comms run)) (mf_members f)"
  shows "\<exists>s' snap. advance env now session (Some run) fair s = (Pickup_ready, s') \<and>
    resolve_snapshot comms root session (Some run) s' = Inr snap \<and>
    cb_member (cs_binding snap) = fm_id m \<and> cb_formation (cs_binding snap) = formation \<and> cs_status snap = ''joined''"
proof -
  obtain r where "stamp_of s run = Some r" using assms(12) by auto
  from undisturbed_pickup [OF assms(1-9) this] obtain s' where s': "advance env now session (Some run) fair s = (Pickup_ready, s')"
      "fs_index s' = fs_index s" and manifests: "map_of (fs_manifests s') = (map_of (fs_manifests s))
      (path \<mapsto> revised env now f (on_member (fm_id m) (joined_member env now run (Some session)) (mf_members f)))"
    and stamp: "stamp_of s' run = Some (r\<lparr>rn_formation := Some formation, rn_member := Some (fm_id m)\<rparr>)" by blast
  define g where "g = joined_member env now run (Some session)"
  define f' where "f' = revised env now f (on_member (fm_id m) g (mf_members f))"
  have member: "m \<in> set (mf_members f)" using assms(5,7,8) find_mem by (elim admitted_slotD) fastforce
  have elsewhere: "run \<noteq> path" using assms(8,13) by (auto simp: read_manifest_def)
  have read: "read_manifest s' path = Inr f'"
    using manifests joined_manifest_checked [OF assms(9)] by (simp add: read_manifest_def f'_def g_def)
  have names: "formation \<noteq> []" "fm_id m \<noteq> []"
    using read_members(2,3) [OF assms(8)] member assms(10) valid_nonempty by blast+
  have stamped: "stamped_ids s' run = Some (formation, Some (fm_id m))"
    using stamp names by (simp add: stamped_ids_def nonempty_def)
  define cx where "cx = \<lparr>cx_manifest = f', cx_path = path, cx_member = Some (fm_id m), cx_orchestrator = False\<rparr>"
  have active: "resolve_active (ce_resolve comms) s' (Some run) = Inr (Some cx)"
    using elsewhere manifests assms(7,13) stamped read s'(2) by (simp add: resolve_active_def resolve_manifest_path_def cx_def)
  have trusted: "assert_trusted_formation comms s' run cx = Inr ()"
    using stamped assms(7,10,11) s'(2) by (simp add: assert_trusted_formation_def resolve_manifest_path_def cx_def f'_def Let_def)
  have only: "matching_members comms f' run session = [g m]"
    unfolding f'_def g_def using joined_matches [OF read_members(1) [OF assms(8)] member assms(14)] by simp
  have "resolve_snapshot comms root session (Some run) s' = Inr (snapshot_of comms root session run cx (g m))"
    using active trusted only stamped by (simp add: bound_caller) (simp add: cx_def g_def)
  then show ?thesis
    using s'(1) assms(10) by (auto simp: cx_def f'_def g_def snapshot_of_def Let_def)
qed

section \<open>What the stages do not check\<close>

text \<open>C29: A lapsed candidacy costs a membership. A member of one formation whose run also stands as a candidate that another formation
  admitted is bound nowhere after its next call, once that candidacy has expired: the compensation revokes whatever formation
  the run's stamp names, not the one whose pick-up it undoes.\<close>

theorem lapsed_candidacy_unbinds_member:
  assumes "resolve_snapshot comms root session (Some run) s = Inr snap" and "map_of (fs_manifests s) run = None"
    and "candidate_for (fe_resolve env) s session run = Some c" and "cd_state c = C_ADMITTED" and "\<not> live now c"
    and "registry_ok (fs_candidates s)" and "admitted_slot c s = Inr (Some slot)" and "fst slot \<noteq> cb_formation (cs_binding snap)"
  shows "\<exists>s'. advance env now session (Some run) fair s = (Pickup_revoked, s') \<and>
    resolve_snapshot comms root session (Some run) s' = unbound ''no_formation''"
proof -
  have "candidate_named (revoke_run_stamp run s) (cd_id c) = Some c"
    using caller_record(1) [OF assms(3,6)] by (simp add: candidate_named_def)
  moreover have "apply_transition c C_REVOKED None = Inr (c\<lparr>cd_state := C_REVOKED\<rparr>)"
    using assms(4) by (cases c) (simp add: apply_transition_def)
  ultimately obtain s' where revoked: "revoke_pickup c run s = (Pickup_revoked, s')"
    by (simp add: revoke_pickup_def set_candidate_state_def candidate_named_def)
  then have "map_of (fs_manifests s') run = None" using pickup_manifests(1) [of c run s] assms(2) by simp
  then have "resolve_snapshot comms root session (Some run) s' = unbound ''no_formation''"
    by (rule unstamped_unbound [OF revoked_pickup [OF revoked]])
  moreover have "advance env now session (Some run) fair s = (Pickup_revoked, s')"
    using assms(3-5,7) revoked by (simp add: advance_def fair_def LIVE_STATES_def)
  ultimately show ?thesis by blast
qed

text \<open>C33: A retired slot can be joined. A member the orchestrator has abandoned or reassigned before anyone joined it, and that was left
  open, becomes joined by the next run that asks: joining looks at the recorded run, never at the status.\<close>

theorem retired_slot_is_joined:
  assumes "opened s formation = Inr (path, f)" and "member_of f member = Inr m" and "fm_status m \<in> {Abandoned, Reassigned}"
    and "fm_open_join m" and "fm_run m = None" and "stamp_of s run \<noteq> None"
  shows "\<exists>f' m'. fst (join_formation env now formation member run pin handle s) = Inr f' \<and> find_row fm_id member (mf_members f') = Some m' \<and>
    fm_status m' = Joined \<and> fm_run m' = Some run"
proof -
  have found: "find_row fm_id member (mf_members f) = Some m" using assms(2) by (simp add: member_of_def split: option.splits)
  have "find_row fm_id member (on_member member (joined_member env now run pin) (mf_members f)) = Some (joined_member env now run pin m)"
    using find_update_rows [of fm_id "joined_member env now run pin" member member "mf_members f"] found
    by (simp add: on_member_def update_rows_def)
  moreover have "fst (join_formation env now formation member run pin handle s) =
      Inr (revised env now f (on_member member (joined_member env now run pin) (mf_members f)))"
    using assms(1,2,4,5,6)
    by (auto simp: join_formation_def truthy_run_def nonempty_def require_join_admitted_def bindA_def stamp_run_record_def stamp_of_def
        write_manifest_def Let_def)
  ultimately show ?thesis by simp
qed

end
