(* ===== verification/Formation_Departures.thy ===== *)
theory Formation_Departures
  imports Comms_Pickup_Laws
begin

text \<open>
  Where the registry and the manifest of a formation part: the two are written one after the other, so a revision that fails
  half-way has released a candidate its manifest still names; a slot that names a candidate another formation has admitted since is
  cleared by no verb of its orchestrator; and one revision can give one candidate to two slots.
\<close>

section \<open>Transitions of one formation\<close>








section \<open>A slot that cannot be cleared\<close>

lemma foreign_release_fails:
  assumes "holds h c s" and "cd_state c = C_ADMITTED" and "cd_formation c = Some G" and "G \<noteq> F" and "h \<in> set released"
  shows "\<exists>e. commit_members env F path f named released s = (Inl e, s)"
proof -
  let ?ours = "map (admission_op F) (map (\<lambda>(m, c). cd_id c) named)"
  obtain before after where released: "released = before @ h # after" using assms(5) by (meson split_list)
  have "\<exists>e. foldE transition_step (?ours @ map (release_op F) released) (fs_candidates s, []) = Inl e"
  proof (cases "foldE transition_step (?ours @ map (release_op F) before) (fs_candidates s, [])")
    case (Inl e)
    then have "foldE transition_step ((?ours @ map (release_op F) before) @ map (release_op F) (h # after)) (fs_candidates s, []) = Inl e"
      unfolding foldE_append [of _ "?ours @ map (release_op F) before"] by simp
    then show ?thesis by (auto simp: released)
  next
    case (Inr r)
    have "unique_key cd_id (fst r) \<and> find_row cd_id h (fst r) = Some c"
    proof (rule foldE_invariant [OF Inr, where I = "\<lambda>r. unique_key cd_id (fst r) \<and> find_row cd_id h (fst r) = Some c"])
      show "unique_key cd_id (fst (fs_candidates s, [])) \<and> find_row cd_id h (fst (fs_candidates s, [])) = Some c"
        using assms(1) by (simp add: holds_def candidate_named_def)
    next
      fix t r r' assume "t \<in> set (?ours @ map (release_op F) before)" and "unique_key cd_id (fst r) \<and> find_row cd_id h (fst r) = Some c"
        "transition_step t r = Inr r'"
      then show "unique_key cd_id (fst r') \<and> find_row cd_id h (fst r') = Some c"
        using foreign_transition [of t "fst r" "snd r" "fst r'" "snd r'" F _ h c G] assms(2-4) by auto
    qed
    then have "transition_step (release_op F h) r = failed ''not the owning formation''"
      using assms(2-4) by (cases r) (auto simp: transition_step_def release_op_def)
    then have "foldE transition_step ((?ours @ map (release_op F) before) @ map (release_op F) (h # after)) (fs_candidates s, []) =
        failed ''not the owning formation''"
      unfolding foldE_append [of _ "?ours @ map (release_op F) before"] Inr by simp
    then show ?thesis by (auto simp: released)
  qed
  then have "\<exists>e. set_states (?ours @ map (release_op F) released) s = (Inl e, s)" by (auto simp: set_states_def)
  then show ?thesis by (auto simp: commit_members_def commit_admissions_def bindA_def Let_def)
qed

text \<open>What the members of a manifest name, and that neither validation nor the stamping of admissions changes it.\<close>

abbreviation names :: "FormationMember list \<Rightarrow> string option list" where
  "names ms \<equiv> map fm_candidate ms"

lemma handles_names: "h \<in> set (handles ms) \<longleftrightarrow> Some h \<in> set (names ms)"
  by (force simp: handles_def split: option.splits)

lemma checked_names:
  "check_members ms = Inr ns \<Longrightarrow> names ns = names ms"
  "check_manifest f = Inr f' \<Longrightarrow> names (mf_members f') = names (mf_members f)"
proof -
  have one: "check_member m = Inr n \<Longrightarrow> fm_candidate n = fm_candidate m" for m n by (auto simp: check_member_def split: if_splits)
  show all: "check_members ms = Inr ns \<Longrightarrow> names ns = names ms" for ms ns
    by (induction ms arbitrary: ns) (auto dest: one)
  show "check_manifest f = Inr f' \<Longrightarrow> names (mf_members f') = names (mf_members f)"
    by (auto simp: check_manifest_def dest: all split: if_splits)
qed

lemma stamped_names:
  "foldE (admit_member s now before F revision forged) ms (marked, named) = Inr (marked', named') \<Longrightarrow>
   names marked' = names marked @ names ms"
proof (induction ms arbitrary: marked named)
  case (Cons m ms)
  then obtain marked1 named1 where turn: "admit_member s now before F revision forged m (marked, named) = Inr (marked1, named1)"
    and rest: "foldE (admit_member s now before F revision forged) ms (marked1, named1) = Inr (marked', named')" by auto
  from turn have "names marked1 = names marked @ [fm_candidate m]"
    by (auto simp: admit_member_def Let_def split: if_splits option.splits)
  with Cons.IH [OF rest] show ?case by simp
qed simp

lemma admitted_names:
  "admitted_members s now before ms F revision forged = Inr (marked, named, released) \<Longrightarrow>
   names marked = names ms \<and> released = released_handles before ms"
  by (auto simp: admitted_members_def dest!: stamped_names)

lemma released_pending:
  assumes "m \<in> set before" "fm_run m = None" "fm_candidate m = Some h" "Some h \<notin> set (names ms)"
  shows "h \<in> set (released_handles before ms)"
proof -
  have "handles [m] = [h]" using assms(3) by (simp add: handles_def)
  then have "m \<in> set (filter (\<lambda>m. fm_run m = None \<and> set (handles [m]) \<inter> set (handles ms) = {}) before)"
    using assms by (simp add: handles_names)
  then show ?thesis unfolding released_handles_def handles_names using assms(3) by force
qed

lemma same_candidates:
  "check_manifest f = Inr f' \<Longrightarrow> fm_candidate ` set (mf_members f') = fm_candidate ` set (mf_members f)"
  "admitted_members s now before ms F revision forged = Inr (marked, fresh, released) \<Longrightarrow> fm_candidate ` set marked = fm_candidate ` set ms"
proof -
  have sets: "names ms = names ns \<Longrightarrow> fm_candidate ` set ms = fm_candidate ` set ns" for ms ns by (metis list.set_map)
  show "check_manifest f = Inr f' \<Longrightarrow> fm_candidate ` set (mf_members f') = fm_candidate ` set (mf_members f)"
    by (rule sets [OF checked_names(2)])
  show "admitted_members s now before ms F revision forged = Inr (marked, fresh, released) \<Longrightarrow> fm_candidate ` set marked = fm_candidate ` set ms"
    by (rule sets [OF conjunct1 [OF admitted_names]])
qed

text \<open>A manifest that names a candidate, and a pending slot of it whose candidate is held by another formation.\<close>

definition still_named :: "string \<Rightarrow> string \<Rightarrow> formation_store \<Rightarrow> bool" where
  "still_named path h t \<longleftrightarrow> (\<exists>f. map_of (fs_manifests t) path = Some f \<and> Some h \<in> fm_candidate ` set (mf_members f))"

definition stranded :: "formation_store \<Rightarrow> string \<Rightarrow> string \<Rightarrow> FormationManifest \<Rightarrow> FormationMember \<Rightarrow> string \<Rightarrow> bool" where
  "stranded s F path f m h \<longleftrightarrow> (\<exists>c G. holds h c s \<and> cd_state c = C_ADMITTED \<and> cd_formation c = Some G \<and> G \<noteq> F) \<and>
     opened s F = Inr (path, f) \<and> m \<in> set (mf_members f) \<and> fm_run m = None \<and> fm_candidate m = Some h \<and> h \<noteq> []"

lemma strandedD:
  assumes "stranded s F path f m h"
  shows "opened s F = Inr (path, f)" "m \<in> set (mf_members f)" "fm_run m = None" "fm_candidate m = Some h" "h \<noteq> []"
    "Some h \<in> fm_candidate ` set (mf_members f)"
  using assms by (force simp: stranded_def)+

lemma stranded_now:
  assumes "stranded s F path f m h"
  shows "still_named path h s"
proof -
  obtain f0 where f0: "map_of (fs_manifests s) path = Some f0" "check_manifest f0 = Inr f"
    using opened_read [OF strandedD(1) [OF assms]] by (auto simp: read_manifest_def split: option.splits)
  then show ?thesis using strandedD(6) [OF assms] same_candidates(1) [OF f0(2)] by (simp add: still_named_def)
qed

lemma stranded_write:
  assumes "stranded s F path f m h" and "Some h \<in> fm_candidate ` set (mf_members f') \<or> h \<in> set released"
  shows "still_named path h (snd (commit_members env F path f' fresh released s))"
proof (cases "h \<in> set released")
  case True
  then obtain e where "commit_members env F path f' fresh released s = (Inl e, s)"
    using assms(1) foreign_release_fails unfolding stranded_def by blast
  then show ?thesis using stranded_now [OF assms(1)] by simp
next
  case False
  with assms stranded_now [OF assms(1)] show ?thesis
    by (auto simp: commit_members_def snd_bindA still_named_def split: sum.split)
qed

lemma stranded_create:
  assumes "stranded s F path f m h"
  shows "still_named path h (snd (create_formation env now run payload forged lead s))"
proof -
  have "fs_manifests (snd (commit_members env formation run f' fresh released s)) \<in>
      {fs_manifests s, put_row fst (run, f') (fs_manifests s)}" for formation f' fresh released
    by (simp add: commit_members_def snd_bindA split: sum.split)
  moreover obtain f0 where "map_of (fs_manifests s) path = Some f0" using stranded_now [OF assms] by (auto simp: still_named_def)
  ultimately have "map_of (fs_manifests (snd (create_formation env now run payload forged lead s))) path = map_of (fs_manifests s) path"
    by (auto simp: create_formation_def snd_bindA Let_def split: sum.splits) (metis map_of_put_row option.distinct(1) insertE singletonD)+
  then show ?thesis using stranded_now [OF assms] by (simp add: still_named_def)
qed

lemma stranded_revise:
  assumes "stranded s F path f m h"
  shows "still_named path h (snd (revise env now F caller updates s))"
proof -
  note slot = strandedD [OF assms] and now_named = stranded_now [OF assms]
  have kept_or_released: "Some h \<in> fm_candidate ` set marked \<or> h \<in> set released"
    if "admitted_members s now (mf_members f) ms F k forged = Inr (marked, fresh, released)" for ms k forged marked fresh released
    using admitted_names [OF that] same_candidates(2) [OF that] released_pending [OF slot(2-4), of ms] by auto
  show ?thesis
    using now_named
    by (auto simp: revise_def Let_def slot(1) split: sum.splits intro!: stranded_write [OF assms] dest!: kept_or_released)
qed

lemma stranded_add_slots:
  assumes "stranded s F path f m h"
  shows "still_named path h (snd (add_slots env now F caller slots s))"
proof -
  note slot = strandedD [OF assms] and now_named = stranded_now [OF assms]
  have "Some h \<in> fm_candidate ` set marked"
    if "check_manifest (revised env now f (mf_members f @ map sl_member slots)) = Inr f'"
      "admitted_members s now (mf_members f) (mf_members f') F k forged = Inr (marked, fresh, released)"
    for f' k forged marked fresh released
    using same_candidates(2) [OF that(2)] same_candidates(1) [OF that(1)] slot(6) by (simp add: image_Un)
  then show ?thesis
    using now_named
    by (auto simp: add_slots_def Let_def slot(1) split: sum.splits if_splits intro!: stranded_write [OF assms])
qed

lemma stranded_remove:
  assumes "stranded s F path f m h"
  shows "still_named path h (snd (remove_slot env now F caller member s))"
proof -
  note slot = strandedD [OF assms] and now_named = stranded_now [OF assms]
  have kept_or_released: "Some h \<in> fm_candidate ` set (mf_members f') \<or> Some h = nonempty (fm_candidate x)"
    if "member_of f member = Inr x" "check_manifest (revised env now f (filter (\<lambda>m. fm_id m \<noteq> member) (mf_members f))) = Inr f'" for f' x
  proof (cases "fm_id m = member")
    case True
    then have "x = m"
      using that(1) slot(2) read_members(1) [OF opened_read [OF slot(1)]] find_row_mem [of fm_id "mf_members f" m]
      by (auto simp: member_of_def unique_key_def split: option.splits)
    then show ?thesis using slot(4,5) by (simp add: nonempty_def)
  next
    case False
    then have "Some h \<in> fm_candidate ` set (filter (\<lambda>m. fm_id m \<noteq> member) (mf_members f))" using slot(2,4) by force
    then show ?thesis using same_candidates(1) [OF that(2)] by simp
  qed
  show ?thesis
    using now_named
    by (auto simp: remove_slot_def Let_def slot(1) split: sum.splits if_splits intro!: stranded_write [OF assms] dest: kept_or_released)
qed

lemma stranded_orchestrator:
  assumes "stranded s F path f m h"
  shows "still_named path h (snd (add_orchestrator env now F caller member pin s))"
proof -
  note slot = strandedD [OF assms] and now_named = stranded_now [OF assms]
  have "Some h \<in> fm_candidate ` set (mf_members f')"
    if "orchestrator_slot env now f member pin (find (bound_to_owner env f) (mf_members f)) = Inr (others, x)"
      "check_manifest (revised env now f (others @ [x])) = Inr f'" for others x f'
  proof -
    have "e \<noteq> m" if "find (bound_to_owner env f) (mf_members f) = Some e" for e
      using that slot(3) by (auto simp: find_Some_iff bound_to_owner_def truthy_run_def nonempty_def)
    then have "m \<in> set others"
      using that(1) slot(2) by (auto simp: orchestrator_slot_def Let_def in_set_remove1 split: option.splits if_splits)
    then have "Some h \<in> fm_candidate ` set (others @ [x])" using slot(4) by force
    then show ?thesis using same_candidates(1) [OF that(2)] by simp
  qed
  then show ?thesis
    using now_named
    by (auto simp: add_orchestrator_def Let_def slot(1) still_named_def split: sum.splits if_splits)
qed

text \<open>C31: A slot whose candidate another formation has admitted cannot be cleared. While a pending slot names a candidate that another
  formation has admitted since, no verb of the slot's formation, with whatever caller and arguments, makes the
  manifest stop naming it: a revision that drops the name and a removal of the slot release the candidate first, and the release
  is refused because the candidate is not the formation's any more.\<close>

theorem stranded_slot_stays:
  assumes "registry_ok (fs_candidates s)" and "candidate_named s h = Some c" and "cd_state c = C_ADMITTED" and "cd_formation c = Some G"
    and "opened s F = Inr (path, f)" and "G \<noteq> F" and "m \<in> set (mf_members f)" and "fm_run m = None" and "fm_candidate m = Some h"
    and "h \<noteq> []" and "acts_for v = Some F"
  shows "\<exists>f'. map_of (fs_manifests (perform env (now, v) s)) path = Some f' \<and> Some h \<in> fm_candidate ` set (mf_members f')"
proof -
  have stuck: "stranded s F path f m h"
    using assms(1-10) by (auto simp: stranded_def holds_def registry_ok_def candidate_named_def)
  have "still_named path h (perform env (now, v) s)"
    using assms(11) stranded_create [OF stuck] stranded_revise [OF stuck] stranded_add_slots [OF stuck] stranded_remove [OF stuck]
      stranded_orchestrator [OF stuck]
    by (cases v) auto
  then show ?thesis by (simp add: still_named_def)
qed

section \<open>One candidate, two slots\<close>

text \<open>An update that names a candidate for a slot, or none, and nothing else.\<close>

definition no_changes :: member_changes where
  "no_changes = \<lparr>ch_id = None, ch_client = None, ch_role = None, ch_run = None, ch_pin = None, ch_owned = None, ch_test_owned = None,
     ch_prds = None, ch_status = None, ch_joined = None, ch_note = None, ch_open_join = None, ch_candidate = None, ch_revision = None,
     ch_unknown = False\<rparr>"

definition naming :: "string \<Rightarrow> string option \<Rightarrow> string \<times> member_changes" where
  "naming member handle = (member, no_changes\<lparr>ch_candidate := Some handle\<rparr>)"

lemma renamed_checked: "check_member m = Inr m \<Longrightarrow> check_member (m\<lparr>fm_candidate := x\<rparr>) = Inr (m\<lparr>fm_candidate := x\<rparr>)"
  "check_member m = Inr m \<Longrightarrow> check_member (m\<lparr>fm_candidate_revision := r\<rparr>) = Inr (m\<lparr>fm_candidate_revision := r\<rparr>)"
  by (cases m; auto simp: check_member_def split: if_splits)+

lemma apply_naming: "check_member m = Inr m \<Longrightarrow> apply_changes m (snd (naming member x)) = Inr (m\<lparr>fm_candidate := x\<rparr>)"
  using renamed_checked(1) [of m x] by (cases m) (simp add: apply_changes_def naming_def no_changes_def or_keep_def)

lemma apply_to_naming:
  "\<forall>m \<in> set ms. check_member m = Inr m \<Longrightarrow>
   apply_to member (snd (naming member x)) ms = Inr (on_member member (fm_candidate_update (\<lambda>_. x)) ms)"
  by (induction ms) (auto simp: on_member_def apply_naming)

text \<open>What stamping the two slots gives, member by member.\<close>

definition seated :: "string \<Rightarrow> string \<Rightarrow> string \<Rightarrow> int \<Rightarrow> FormationMember \<Rightarrow> FormationMember" where
  "seated a b h revision m =
     (if fm_id m \<in> {a, b} then m\<lparr>fm_candidate := Some h, fm_candidate_revision := Some revision\<rparr>
      else if fm_candidate m = None then m\<lparr>fm_candidate_revision := None\<rparr> else m)"

lemma seated_same [simp]: "fm_id (seated a b h k m) = fm_id m" "fm_owned (seated a b h k m) = fm_owned m"
  "fm_test_owned (seated a b h k m) = fm_test_owned m" "fm_prds (seated a b h k m) = fm_prds m"
  by (simp_all add: seated_def)

lemma seated_checked: "check_member m = Inr m \<Longrightarrow> check_member (seated a b h k m) = Inr (seated a b h k m)"
  using renamed_checked(2) [OF renamed_checked(1)] renamed_checked(2) by (simp add: seated_def)

lemma seated_manifest:
  assumes "check_manifest f = Inr f"
  shows "check_manifest (revised env now f (map (seated a b h k) (mf_members f))) = Inr (revised env now f (map (seated a b h k) (mf_members f)))"
proof -
  have members: "check_members (mf_members f) = Inr (mf_members f)" and head: "valid_id (mf_id f)"
      "\<not> (case mf_schema f of None \<Rightarrow> False | Some v \<Rightarrow> v < 1)" "\<not> mf_revision f < 1"
    and rules: "(if strip is_str_space (mf_rules f) = [] then Inr [] else normalise_glob (mf_rules f)) = Inr (mf_rules f)"
    and unique: "distinct (map fm_id (mf_members f))" "distinct (concat (map fm_owned (mf_members f)))"
      "distinct (concat (map fm_test_owned (mf_members f)))" "distinct (concat (map fm_prds (mf_members f)))"
    using assms by (cases f; auto simp: check_manifest_def split: if_splits)+
  have "check_members (map (seated a b h k) (mf_members f)) = Inr (map (seated a b h k) (mf_members f))"
    using members by (auto simp: checked_fixpoint seated_checked)
  then show ?thesis
    using head rules unique by (auto simp: check_manifest_def revised_def comp_def)
qed

lemma seat_members:
  assumes "distinct (map fm_id before)" and "set ms \<subseteq> set before"
    and pending: "\<And>m. m \<in> set before \<Longrightarrow> fm_id m \<in> {a, b} \<Longrightarrow> fm_run m = None \<and> fm_candidate m = None"
    and free: "admissible s now F (handles before) h = Some c"
  shows "foldE (admit_member s now before F k []) (map (\<lambda>m. if fm_id m \<in> {a, b} then m\<lparr>fm_candidate := Some h\<rparr> else m) ms) (marked, fresh) =
    Inr (marked @ map (seated a b h k) ms, fresh @ map (\<lambda>m. (seated a b h k m, c)) (filter (\<lambda>m. fm_id m \<in> {a, b}) ms))"
  using assms(2)
proof (induction ms arbitrary: marked fresh)
  case (Cons m ms)
  have prior: "find_row fm_id (fm_id m) before = Some m"
    using Cons.prems assms(1) find_row_mem [of fm_id before m] by (simp add: unique_key_def)
  have "admit_member s now before F k [] (if fm_id m \<in> {a, b} then m\<lparr>fm_candidate := Some h\<rparr> else m) (marked, fresh) =
      Inr (marked @ [seated a b h k m], fresh @ (if fm_id m \<in> {a, b} then [(seated a b h k m, c)] else []))"
    using pending [of m] Cons.prems prior free
    by (cases "fm_candidate m") (auto simp: admit_member_def seated_def Let_def)
  with Cons show ?case by simp
qed simp

lemma handles_mem: "k \<in> set (handles ms) \<longleftrightarrow> (\<exists>m \<in> set ms. fm_candidate m = Some k)"
  by (force simp: handles_def split: option.splits)

lemma nothing_released:
  assumes pending: "\<And>m. m \<in> set before \<Longrightarrow> fm_id m \<in> {a, b} \<Longrightarrow> fm_candidate m = None"
  shows "released_handles before (map (\<lambda>m. if fm_id m \<in> {a, b} then m\<lparr>fm_candidate := Some h\<rparr> else m) before) = []"
proof -
  define later where "later = map (\<lambda>m. if fm_id m \<in> {a, b} then m\<lparr>fm_candidate := Some h\<rparr> else m) before"
  have "k \<notin> set (released_handles before later)" for k
  proof
    assume "k \<in> set (released_handles before later)"
    then obtain m where m: "m \<in> set before" "fm_candidate m = Some k" and gone: "k \<notin> set (handles later)"
      by (force simp: released_handles_def handles_mem)
    then have "fm_id m \<notin> {a, b}" using pending by force
    with m(1) have "m \<in> set later" by (force simp: later_def)
    with m(2) gone show False by (simp add: handles_mem)
  qed
  then show ?thesis unfolding later_def [symmetric] by (cases "released_handles before later") auto
qed

text \<open>The registry: the first admission moves the candidate, the next one is a retry.\<close>

lemma admit_again_and_again:
  assumes "unique_key cd_id rs" and "find_row cd_id h rs = Some d" and "d \<in> {c, c\<lparr>cd_state := C_ADMITTED, cd_formation := Some F\<rparr>}"
    and "cd_state c = C_ACTIVE" and "hs \<noteq> []" and "set hs = {h}"
  shows "\<exists>rs' xs'. foldE transition_step (map (admission_op F) hs) (rs, xs) = Inr (rs', xs') \<and> unique_key cd_id rs' \<and>
    length xs < length xs' \<and> find_row cd_id h rs' = Some (c\<lparr>cd_state := C_ADMITTED, cd_formation := Some F\<rparr>)"
  using assms(1-3,5,6)
proof (induction hs arbitrary: rs xs d)
  case (Cons x hs)
  let ?c = "c\<lparr>cd_state := C_ADMITTED, cd_formation := Some F\<rparr>"
  have x: "x = h" using Cons.prems(5) by auto
  have "transition_step (admission_op F h) (rs, xs) = Inr (put_row cd_id ?c rs, xs @ [?c])"
    using Cons.prems(2,3) assms(4) by (cases c) (auto simp: transition_step_def admission_op_def apply_transition_def Let_def)
  moreover have found: "find_row cd_id h (put_row cd_id ?c rs) = Some ?c"
    using find_row_Some_D [OF Cons.prems(2)] Cons.prems(3) by (auto simp: row_laws)
  moreover have "\<exists>rs' xs'. foldE transition_step (map (admission_op F) hs) (put_row cd_id ?c rs, xs @ [?c]) = Inr (rs', xs') \<and> unique_key cd_id rs' \<and>
      length xs < length xs' \<and> find_row cd_id h rs' = Some ?c"
  proof (cases "hs = []")
    case True
    then show ?thesis using found Cons.prems(1) by (simp add: unique_put_row)
  next
    case False
    moreover from this have "set hs = {h}" using Cons.prems(5) by (cases hs) auto
    ultimately obtain rs' xs' where "foldE transition_step (map (admission_op F) hs) (put_row cd_id ?c rs, xs @ [?c]) = Inr (rs', xs')"
      "unique_key cd_id rs'" "length (xs @ [?c]) < length xs'" "find_row cd_id h rs' = Some ?c"
      using Cons.IH [OF unique_put_row [OF Cons.prems(1)] found, of "xs @ [?c]"] by blast
    then show ?thesis by auto
  qed
  ultimately show ?case unfolding x by simp
qed simp

text \<open>The worktree records: none is refused where no other formation has one.\<close>

lemma records_own:
  assumes "\<And>m d w r. (m, d) \<in> set named \<Longrightarrow> cd_worktree d = Some w \<Longrightarrow> worktree_record resolve s w = Some r \<Longrightarrow> wr_formation r = F"
  shows "fst (record_admitted resolve F run hs named written s) = Inr () \<and>
    fs_candidates (snd (record_admitted resolve F run hs named written s)) = fs_candidates s"
  using assms
proof (induction named arbitrary: written s)
  case (Cons a named)
  obtain m d where a: "a = (m, d)" by (cases a)
  show ?case
  proof (cases "cd_worktree d")
    case None
    have "fst (record_admitted resolve F run hs named written s) = Inr () \<and>
        fs_candidates (snd (record_admitted resolve F run hs named written s)) = fs_candidates s"
      by (rule Cons.IH, rule Cons.prems) auto
    then show ?thesis using a None by simp
  next
    case (Some w)
    define k where "k = (case fm_candidate_revision m of None \<Rightarrow> 0 | Some r \<Rightarrow> r)"
    have own: "\<not> (case worktree_record resolve s w of None \<Rightarrow> False | Some r \<Rightarrow> wr_formation r \<noteq> F \<and> worktree_admitted_by resolve s w (wr_formation r))"
      using Cons.prems [of m d w] a Some by (auto split: option.splits)
    obtain row s1 where step: "record_worktree_member resolve w F (fm_id m) k run s = (Inr row, s1)"
        "s1 = s\<lparr>fs_worktrees := put_row wr_worktree row (fs_worktrees s)\<rparr>" "wr_formation row = F"
      using own by (simp add: record_worktree_member_def Let_def)
    have "wr_formation r = F" if "(m', d') \<in> set named" "cd_worktree d' = Some w'" "worktree_record resolve s1 w' = Some r" for m' d' w' r
      using Cons.prems [of m' d' w' r] that step(2,3) by (auto simp: worktree_record_def row_laws split: if_splits)
    from Cons.IH [of s1 "written @ [w]", OF this] show ?thesis using a Some step(1,2) by (simp add: k_def)
  qed
qed simp

text \<open>What a revision that names one free candidate for two pending slots computes before it commits.\<close>

lemma revise_both:
  assumes "opened s F = Inr (path, f)" and "check_manifest f = Inr f"
    and "map_option (fe_resolve env) caller = Some (fe_resolve env (mf_orchestrator f))"
    and "find_row fm_id a (mf_members f) = Some ma" and "fm_run ma = None" and "fm_candidate ma = None"
    and "find_row fm_id b (mf_members f) = Some mb" and "fm_run mb = None" and "fm_candidate mb = None"
    and "candidate_named s h = Some c" and "live now c" and "cd_state c = C_ACTIVE"
  shows "revise env now F caller [naming a (Some h), naming b (Some h)] s =
    commit_members env F path (revised env now f (map (seated a b h (mf_revision f + 1)) (mf_members f)))
      (map (\<lambda>m. (seated a b h (mf_revision f + 1) m, c)) (filter (\<lambda>m. fm_id m \<in> {a, b}) (mf_members f))) [] s"
proof -
  let ?ms = "mf_members f" and ?k = "mf_revision f + 1"
  have ids: "distinct (map fm_id ?ms)" using read_members(1) [OF opened_read [OF assms(1)]] .
  have members: "\<forall>m \<in> set ?ms. check_member m = Inr m"
    using assms(2) by (cases f) (auto simp: check_manifest_def checked_fixpoint [symmetric] split: if_splits)
  have pending: "fm_run m = None \<and> fm_candidate m = None" if "m \<in> set ?ms" "fm_id m \<in> {a, b}" for m
    using that assms(4-9) find_row_mem [of fm_id ?ms m] ids by (auto simp: unique_key_def)
  have both: "on_member b (fm_candidate_update (\<lambda>_. Some h)) (on_member a (fm_candidate_update (\<lambda>_. Some h)) ?ms) =
      map (\<lambda>m. if fm_id m \<in> {a, b} then m\<lparr>fm_candidate := Some h\<rparr> else m) ?ms"
    by (auto simp: on_member_def)
  have once: "\<forall>m \<in> set (on_member a (fm_candidate_update (\<lambda>_. Some h)) ?ms). check_member m = Inr m"
    using members renamed_checked(1) by (auto simp: on_member_def)
  have "foldE (apply_update f) [naming a (Some h), naming b (Some h)] ?ms =
      Inr (map (\<lambda>m. if fm_id m \<in> {a, b} then m\<lparr>fm_candidate := Some h\<rparr> else m) ?ms)"
    using apply_to_naming [OF members, of a "Some h"] apply_to_naming [OF once, of b "Some h"] both assms(4,7)
    by (simp add: apply_update_def member_of_def naming_def)
  moreover have "admissible s now F (handles ?ms) h = Some c" using assms(10-12) by (simp add: admissible_def)
  from seat_members [where k = ?k and marked = "[]" and fresh = "[]", OF ids subset_refl pending this]
  have "admitted_members s now ?ms (map (\<lambda>m. if fm_id m \<in> {a, b} then m\<lparr>fm_candidate := Some h\<rparr> else m) ?ms) F ?k [] =
      Inr (map (seated a b h ?k) ?ms, map (\<lambda>m. (seated a b h ?k m, c)) (filter (\<lambda>m. fm_id m \<in> {a, b}) ?ms), [])"
    using nothing_released [of ?ms a b h] pending by (simp add: admitted_members_def)
  moreover have "ch_revision (snd (naming m x)) = None" for m x by (simp add: naming_def no_changes_def)
  ultimately show ?thesis
    using assms(1) seated_manifest [OF assms(2), of env now a b h ?k] by (simp add: revise_def Let_def require_orchestrator_def assms(3) del: foldE.simps)
qed

text \<open>C32: One candidate can be admitted to two slots. A single revision by the orchestrator that names the same free candidate for two
  pending slots without a candidate succeeds, though an admitted candidate is to be named by exactly one slot: each slot is
  checked against the registry as it was before the revision, and the second transition counts as a retry of the first. (No
  other formation has a record of the candidate's worktree.)\<close>

theorem one_candidate_two_slots:
  assumes "registry_ok (fs_candidates s)" and "opened s F = Inr (path, f)" and "check_manifest f = Inr f"
    and "map_option (fe_resolve env) caller = Some (fe_resolve env (mf_orchestrator f))" and "a \<noteq> b"
    and "find_row fm_id a (mf_members f) = Some ma" and "fm_run ma = None" and "fm_candidate ma = None"
    and "find_row fm_id b (mf_members f) = Some mb" and "fm_run mb = None" and "fm_candidate mb = None"
    and "candidate_named s h = Some c" and "live now c" and "cd_state c = C_ACTIVE"
    and "\<And>w r. cd_worktree c = Some w \<Longrightarrow> worktree_record (fe_resolve env) s w = Some r \<Longrightarrow> wr_formation r = F"
  shows "\<exists>f' s'. revise env now F caller [naming a (Some h), naming b (Some h)] s = (Inr f', s') \<and>
    map_of (fs_manifests s') path = Some f' \<and> {a, b} \<subseteq> fm_id ` {m \<in> set (mf_members f'). fm_candidate m = Some h} \<and>
    candidate_named s' h = Some (c\<lparr>cd_state := C_ADMITTED, cd_formation := Some F\<rparr>)"
proof -
  let ?seat = "seated a b h (mf_revision f + 1)"
  define f' where "f' = revised env now f (map ?seat (mf_members f))"
  define named where "named = map (\<lambda>m. (?seat m, c)) (filter (\<lambda>m. fm_id m \<in> {a, b}) (mf_members f))"
  have slots: "ma \<in> set (mf_members f)" "fm_id ma = a" "mb \<in> set (mf_members f)" "fm_id mb = b"
    using find_row_Some_D [OF assms(6)] find_row_Some_D [OF assms(9)] by simp_all
  have id: "cd_id c = h" using assms(12) find_row_Some_D by (fastforce simp: candidate_named_def)
  define hs where "hs = map (\<lambda>(m, c). cd_id c) named"
  have hs: "hs \<noteq> []" "set hs = {h}"
    using slots id by (auto simp: hs_def named_def filter_empty_conv image_iff comp_def)
  obtain rs' xs' where moved: "foldE transition_step (map (admission_op F) hs) (fs_candidates s, []) = Inr (rs', xs')" "unique_key cd_id rs'"
      "xs' \<noteq> []" "find_row cd_id h rs' = Some (c\<lparr>cd_state := C_ADMITTED, cd_formation := Some F\<rparr>)"
    using admit_again_and_again [of "fs_candidates s" h c c F hs "[]"] assms(1,12,14) hs by (auto simp: registry_ok_def candidate_named_def)
  define s1 where "s1 = write_candidates rs' s"
  have batch: "set_states (map (admission_op F) hs) s = (Inr xs', s1)" using moved(1,3) by (simp add: set_states_def s1_def)
  have "fst (record_admitted (fe_resolve env) F (mf_orchestrator f) hs named [] s1) = Inr () \<and>
      fs_candidates (snd (record_admitted (fe_resolve env) F (mf_orchestrator f) hs named [] s1)) = fs_candidates s1"
    using assms(15) by (intro records_own) (auto simp: named_def s1_def write_candidates_def worktree_record_def)
  then obtain s2 where records: "record_admitted (fe_resolve env) F (mf_orchestrator f) hs named [] s1 = (Inr (), s2)"
      "fs_candidates s2 = fs_candidates s1" by (metis prod.collapse)
  have "revise env now F caller [naming a (Some h), naming b (Some h)] s = (Inr f', write_manifest path f' s2)"
    using revise_both [OF assms(2-4,6-14)] batch records(1)
    by (simp add: commit_members_def commit_admissions_def bindA_def Let_def f'_def named_def hs_def)
  moreover have "candidate_named (write_manifest path f' s2) h = Some (c\<lparr>cd_state := C_ADMITTED, cd_formation := Some F\<rparr>)"
    using moved(2,4) records(2) by (simp add: candidate_named_def write_manifest_def s1_def write_candidates_def)
  moreover have "{a, b} \<subseteq> fm_id ` {m \<in> set (mf_members f'). fm_candidate m = Some h}"
    using slots by (auto simp: f'_def image_iff seated_def intro: bexI [of _ ma] bexI [of _ mb])
  ultimately show ?thesis by auto
qed

end
