(* ===== verification/Formation_Examples.thy ===== *)
theory Formation_Examples
  imports Formation_Departures Comms_Examples
begin

text \<open>
  The laws of formations applied to small stores: two formations with candidates in several states, and what the verbs make of them.
\<close>

definition demo_formations :: formation_env where
  "demo_formations = \<lparr>fe_resolve = (\<lambda>p. p), fe_iso = (\<lambda>_. ''t''), fe_adopted = (\<lambda>_. None), fe_prd_taken = (\<lambda>_. False), fe_factory = False\<rparr>"

definition seat :: "string \<Rightarrow> string option \<Rightarrow> FormationMember" where
  "seat member candidate = \<lparr>fm_id = member, fm_client = ''claude'', fm_role = ''worker'', fm_run = None, fm_pin = None, fm_owned = [],
     fm_test_owned = [], fm_prds = [], fm_status = Pending, fm_joined = None, fm_note = [], fm_open_join = False, fm_candidate = candidate,
     fm_candidate_revision = None\<rparr>"

definition taken_seat :: "string \<Rightarrow> string \<Rightarrow> string \<Rightarrow> FormationMember" where
  "taken_seat member run session = (seat member None)\<lparr>fm_run := Some run, fm_pin := Some session, fm_status := Joined\<rparr>"

definition team :: "string \<Rightarrow> string \<Rightarrow> FormationMember list \<Rightarrow> FormationManifest" where
  "team formation run members = \<lparr>mf_id = formation, mf_schema = None, mf_revision = 1, mf_created = ''t'', mf_updated = ''t'',
     mf_orchestrator = run, mf_rules = [], mf_members = members\<rparr>"

definition card :: "string \<Rightarrow> string \<Rightarrow> string \<Rightarrow> string option \<Rightarrow> CandidateState \<Rightarrow> string option \<Rightarrow> Candidate" where
  "card handle session run worktree state formation = \<lparr>cd_id = handle, cd_pin = session, cd_run = run, cd_worktree = worktree,
     cd_client = ''claude'', cd_announced = 0, cd_expires = 100, cd_state = state, cd_formation = formation\<rparr>"

definition blank_stamp :: run_stamp where
  "blank_stamp = \<lparr>rn_formation = None, rn_member = None, rn_revoked = None\<rparr>"

definition demo_store :: formation_store where
  "demo_store = \<lparr>fs_candidates = [card ''h1'' ''s1'' ''/r1'' None C_ADMITTED (Some ''f1''), card ''h2'' ''s2'' ''/r2'' (Some ''/w'') C_ACTIVE None,
       card ''h3'' ''s3'' ''/r3'' (Some ''/w'') C_ADMITTED (Some ''f2''), card ''h4'' ''s4'' ''/r4'' None C_WITHDRAWN None],
     fs_worktrees = [\<lparr>wr_worktree = ''/w'', wr_formation = ''f2'', wr_member = ''c'', wr_manifest_revision = 1, wr_creating_run = ''/o2'', wr_revision = 1\<rparr>],
     fs_index = [(''f1'', ''/o1''), (''f2'', ''/o2'')],
     fs_manifests = [(''/o1'', team ''f1'' ''/o1'' [seat ''a'' (Some ''h1''), seat ''b'' None]),
       (''/o2'', team ''f2'' ''/o2'' [seat ''c'' (Some ''h3''), seat ''d'' None])],
     fs_runs = [(''/r1'', blank_stamp), (''/r2'', blank_stamp)]\<rparr>"

section \<open>Departures\<close>

text \<open>The revision gives up h1 and fails to admit h2, whose worktree the other formation holds.\<close>

definition torn_updates :: "(string \<times> member_changes) list" where
  "torn_updates = [naming ''a'' None, naming ''b'' (Some ''h2'')]"

definition torn_store :: formation_store where
  "torn_store = snd (revise demo_formations 10 ''f1'' (Some ''/o1'') torn_updates demo_store)"


text \<open>The other formation admits h1; the first one's slot is stuck with it.\<close>

definition stuck_store :: formation_store where
  "stuck_store = perform demo_formations (11, V_revise ''f2'' (Some ''/o2'') [naming ''d'' (Some ''h1'')]) torn_store"

theorem stranded_slot_stays_witness:
  "\<exists>f'. map_of (fs_manifests (perform demo_formations (12, V_remove_slot ''f1'' (Some ''/o1'') ''a'') stuck_store)) ''/o1'' = Some f' \<and>
     Some ''h1'' \<in> fm_candidate ` set (mf_members f')"
  by (rule stranded_slot_stays [where c = "card ''h1'' ''s1'' ''/r1'' None C_ADMITTED (Some ''f2'')" and G = "''f2''" and F = "''f1''"
        and f = "team ''f1'' ''/o1'' [seat ''a'' (Some ''h1''), seat ''b'' None]" and m = "seat ''a'' (Some ''h1'')"]) code_simp+

definition open_store :: formation_store where
  "open_store = demo_store\<lparr>fs_worktrees := [], fs_manifests := [(''/o1'', team ''f1'' ''/o1'' [seat ''a'' None, seat ''b'' None])]\<rparr>"

theorem one_candidate_two_slots_witness:
  "\<exists>f' s'. revise demo_formations 10 ''f1'' (Some ''/o1'') [naming ''a'' (Some ''h2''), naming ''b'' (Some ''h2'')] open_store = (Inr f', s') \<and>
     map_of (fs_manifests s') ''/o1'' = Some f' \<and> {''a'', ''b''} \<subseteq> fm_id ` {m \<in> set (mf_members f'). fm_candidate m = Some ''h2''} \<and>
     candidate_named s' ''h2'' =
       Some ((card ''h2'' ''s2'' ''/r2'' (Some ''/w'') C_ACTIVE None)\<lparr>cd_state := C_ADMITTED, cd_formation := Some ''f1''\<rparr>)"
proof (rule one_candidate_two_slots)
  show "opened open_store ''f1'' = Inr (''/o1'', team ''f1'' ''/o1'' [seat ''a'' None, seat ''b'' None])" by code_simp
  show "find_row fm_id ''a'' (mf_members (team ''f1'' ''/o1'' [seat ''a'' None, seat ''b'' None])) = Some (seat ''a'' None)"
    "find_row fm_id ''b'' (mf_members (team ''f1'' ''/o1'' [seat ''a'' None, seat ''b'' None])) = Some (seat ''b'' None)" by code_simp+
  show "wr_formation r = ''f1''" if "worktree_record (fe_resolve demo_formations) open_store w = Some r" for w r
    using that by (simp add: worktree_record_def open_store_def)
qed code_simp+

section \<open>The laws at work\<close>

theorem settled_candidates_stay_witness:
  "candidate_named (performs demo_formations [(10, V_withdraw ''s2'' (Some ''/r2''))] demo_store) ''h4'' \<in>
     {None, Some (card ''h4'' ''s4'' ''/r4'' None C_WITHDRAWN None)}"
  by (rule settled_candidates_stay) code_simp+

theorem admission_is_exclusive_witness:
  "candidate_named (perform demo_formations (10, V_revise ''f1'' (Some ''/o1'') [naming ''b'' (Some ''h3'')]) demo_store) ''h3'' =
     Some (card ''h3'' ''s3'' ''/r3'' (Some ''/w'') C_ADMITTED (Some ''f2''))"
  by (rule admission_is_exclusive [where F = "''f2''" and G = "''f1''"]) code_simp+

theorem copied_handle_useless_witness:
  "\<exists>reason. join_formation demo_formations 20 ''f1'' ''a'' ''/r2'' (Some ''s2'') (Some ''h1'')
       (performs demo_formations [(10, V_withdraw ''s2'' (Some ''/r2''))] demo_store) =
     (Inl (AdmissionRefused reason), performs demo_formations [(10, V_withdraw ''s2'' (Some ''/r2''))] demo_store)"
  by (rule copied_handle_useless [where h = "''h1''" and c = "card ''h1'' ''s1'' ''/r1'' None C_ADMITTED (Some ''f1'')" and path = "''/o1''"
        and f = "team ''f1'' ''/o1'' [seat ''a'' (Some ''h1''), seat ''b'' None]" and m = "seat ''a'' (Some ''h1'')"]) code_simp+

theorem authority_is_structural_witness:
  "map_of (fs_manifests (perform demo_formations (10, V_join ''f1'' ''a'' ''/r1'' (Some ''s1'') (Some ''h1'')) demo_store)) ''/o1'' =
       Some (team ''f1'' ''/o1'' [seat ''a'' (Some ''h1''), seat ''b'' None]) \<or>
     (\<exists>f f'. read_manifest demo_store ''/o1'' = Inr f \<and>
       map_of (fs_manifests (perform demo_formations (10, V_join ''f1'' ''a'' ''/r1'' (Some ''s1'') (Some ''h1'')) demo_store)) ''/o1'' = Some f' \<and>
       (orchestrator_change demo_formations (V_join ''f1'' ''a'' ''/r1'' (Some ''s1'') (Some ''h1'')) f f' \<or> own_change f f'))"
  by (rule authority_is_structural) code_simp

theorem revoked_pickup_binds_nowhere_witness:
  "resolve_snapshot demo_env ''/root'' ''s1'' (Some ''/r1'') (snd (advance demo_formations 200 ''s1'' (Some ''/r1'') fair demo_store)) =
     unbound ''no_formation''"
proof (rule revoked_pickup_binds_nowhere)
  show "advance demo_formations 200 ''s1'' (Some ''/r1'') fair demo_store =
      (Pickup_revoked, snd (advance demo_formations 200 ''s1'' (Some ''/r1'') fair demo_store))"
    by (rule prod_eqI) (code_simp, simp)
qed code_simp

theorem ready_means_still_named_witness:
  "\<exists>formation m m'. admitted_slot (card ''h1'' ''s1'' ''/r1'' None C_ADMITTED (Some ''f1'')) demo_store = Inr (Some (formation, m)) \<and>
     admitted_slot (card ''h1'' ''s1'' ''/r1'' None C_ADMITTED (Some ''f1''))
       (snd (advance demo_formations 10 ''s1'' (Some ''/r1'') fair demo_store)) = Inr (Some (formation, m')) \<and> fm_id m' = fm_id m"
proof (rule ready_means_still_named)
  show "advance demo_formations 10 ''s1'' (Some ''/r1'') fair demo_store =
      (Pickup_ready, snd (advance demo_formations 10 ''s1'' (Some ''/r1'') fair demo_store))"
    by (rule prod_eqI) (code_simp, simp)
qed code_simp

theorem admitted_candidate_becomes_member_witness:
  "\<exists>s' snap. advance demo_formations 10 ''s1'' (Some ''/r1'') fair demo_store = (Pickup_ready, s') \<and>
     resolve_snapshot demo_env ''/root'' ''s1'' (Some ''/r1'') s' = Inr snap \<and>
     cb_member (cs_binding snap) = fm_id (seat ''a'' (Some ''h1'')) \<and> cb_formation (cs_binding snap) = ''f1'' \<and> cs_status snap = ''joined''"
  by (rule admitted_candidate_becomes_member [where c = "card ''h1'' ''s1'' ''/r1'' None C_ADMITTED (Some ''f1'')" and path = "''/o1''"
        and f = "team ''f1'' ''/o1'' [seat ''a'' (Some ''h1''), seat ''b'' None]"]) code_simp+

definition joined_store :: formation_store where
  "joined_store = demo_store\<lparr>
     fs_candidates := [card ''h9'' ''s1'' ''/r1'' None C_ADMITTED (Some ''f2'')],
     fs_manifests := [(''/o1'', team ''f1'' ''/o1'' [taken_seat ''a'' ''/r1'' ''s1'', (seat ''b'' None)\<lparr>fm_status := Abandoned, fm_open_join := True\<rparr>]),
       (''/o2'', team ''f2'' ''/o2'' [seat ''c'' None, seat ''d'' (Some ''h9'')])],
     fs_runs := [(''/r1'', \<lparr>rn_formation = Some ''f1'', rn_member = Some ''a'', rn_revoked = None\<rparr>), (''/r2'', blank_stamp)]\<rparr>"

definition joined_context :: FormationContext where
  "joined_context = \<lparr>cx_manifest = team ''f1'' ''/o1'' [taken_seat ''a'' ''/r1'' ''s1'', (seat ''b'' None)\<lparr>fm_status := Abandoned, fm_open_join := True\<rparr>],
     cx_path = ''/o1'', cx_member = Some ''a'', cx_orchestrator = False\<rparr>"

definition joined_caller :: CallerSnapshot where
  "joined_caller = snapshot_of demo_env ''/root'' ''s1'' ''/r1'' joined_context (taken_seat ''a'' ''/r1'' ''s1'')"

lemma joined_bound: "resolve_snapshot demo_env ''/root'' ''s1'' (Some ''/r1'') joined_store = Inr joined_caller"
proof -
  have "resolve_active (ce_resolve demo_env) joined_store (Some ''/r1'') = Inr (Some joined_context)"
    "assert_trusted_formation demo_env joined_store ''/r1'' joined_context = Inr ()"
    "matching_members demo_env (cx_manifest joined_context) ''/r1'' ''s1'' = [taken_seat ''a'' ''/r1'' ''s1'']"
    "cx_member joined_context \<in> {None, Some (fm_id (taken_seat ''a'' ''/r1'' ''s1''))}"
    "Option.bind (stamped_ids joined_store ''/r1'') snd \<in> {None, Some (fm_id (taken_seat ''a'' ''/r1'' ''s1''))}"
    by code_simp+
  then show ?thesis unfolding bound_caller joined_caller_def by blast
qed

text \<open>Two members of one manifest, each bound from its own run and session.\<close>

definition pair_team :: FormationManifest where
  "pair_team = team ''f1'' ''/o1'' [taken_seat ''a'' ''/r1'' ''s1'', taken_seat ''b'' ''/r2'' ''s2'']"

definition pair_store :: formation_store where
  "pair_store = demo_store\<lparr>fs_candidates := [], fs_manifests := [(''/o1'', pair_team)],
     fs_runs := [(''/r1'', \<lparr>rn_formation = Some ''f1'', rn_member = Some ''a'', rn_revoked = None\<rparr>),
       (''/r2'', \<lparr>rn_formation = Some ''f1'', rn_member = Some ''b'', rn_revoked = None\<rparr>)]\<rparr>"

definition pair_caller :: "string \<Rightarrow> string \<Rightarrow> string \<Rightarrow> CallerSnapshot" where
  "pair_caller member run session = snapshot_of demo_env ''/root'' session run
     \<lparr>cx_manifest = pair_team, cx_path = ''/o1'', cx_member = Some member, cx_orchestrator = False\<rparr> (taken_seat member run session)"

lemma pair_bound:
  "resolve_snapshot demo_env ''/root'' ''s1'' (Some ''/r1'') pair_store = Inr (pair_caller ''a'' ''/r1'' ''s1'')"
  "resolve_snapshot demo_env ''/root'' ''s2'' (Some ''/r2'') pair_store = Inr (pair_caller ''b'' ''/r2'' ''s2'')"
proof -
  define cx where "cx member = \<lparr>cx_manifest = pair_team, cx_path = ''/o1'', cx_member = Some member, cx_orchestrator = False\<rparr>"
    for member :: string
  have "resolve_active (ce_resolve demo_env) pair_store (Some ''/r1'') = Inr (Some (cx ''a''))"
    "assert_trusted_formation demo_env pair_store ''/r1'' (cx ''a'') = Inr ()"
    "matching_members demo_env (cx_manifest (cx ''a'')) ''/r1'' ''s1'' = [taken_seat ''a'' ''/r1'' ''s1'']"
    "cx_member (cx ''a'') \<in> {None, Some (fm_id (taken_seat ''a'' ''/r1'' ''s1''))}"
    "Option.bind (stamped_ids pair_store ''/r1'') snd \<in> {None, Some (fm_id (taken_seat ''a'' ''/r1'' ''s1''))}"
    "resolve_active (ce_resolve demo_env) pair_store (Some ''/r2'') = Inr (Some (cx ''b''))"
    "assert_trusted_formation demo_env pair_store ''/r2'' (cx ''b'') = Inr ()"
    "matching_members demo_env (cx_manifest (cx ''b'')) ''/r2'' ''s2'' = [taken_seat ''b'' ''/r2'' ''s2'']"
    "cx_member (cx ''b'') \<in> {None, Some (fm_id (taken_seat ''b'' ''/r2'' ''s2''))}"
    "Option.bind (stamped_ids pair_store ''/r2'') snd \<in> {None, Some (fm_id (taken_seat ''b'' ''/r2'' ''s2''))}"
    unfolding cx_def by code_simp+
  then show "resolve_snapshot demo_env ''/root'' ''s1'' (Some ''/r1'') pair_store = Inr (pair_caller ''a'' ''/r1'' ''s1'')"
    "resolve_snapshot demo_env ''/root'' ''s2'' (Some ''/r2'') pair_store = Inr (pair_caller ''b'' ''/r2'' ''s2'')"
    unfolding bound_caller pair_caller_def cx_def by blast+
qed

theorem member_has_one_caller_witness:
  "resolve_snapshot demo_env ''/root'' ''s1'' (Some ''/r1'') pair_store = Inr (pair_caller ''a'' ''/r1'' ''s1'') \<and>
   resolve_snapshot demo_env ''/root'' ''s2'' (Some ''/r2'') pair_store = Inr (pair_caller ''b'' ''/r2'' ''s2'') \<and>
   cb_manifest (cs_binding (pair_caller ''a'' ''/r1'' ''s1'')) = cb_manifest (cs_binding (pair_caller ''b'' ''/r2'' ''s2'')) \<and>
   cb_member (cs_binding (pair_caller ''a'' ''/r1'' ''s1'')) \<noteq> cb_member (cs_binding (pair_caller ''b'' ''/r2'' ''s2''))"
proof -
  have manifest: "cb_manifest (cs_binding (pair_caller ''a'' ''/r1'' ''s1'')) = cb_manifest (cs_binding (pair_caller ''b'' ''/r2'' ''s2''))"
    by (simp add: pair_caller_def)
  have "cb_session (cs_binding (pair_caller ''a'' ''/r1'' ''s1'')) \<noteq> cb_session (cs_binding (pair_caller ''b'' ''/r2'' ''s2''))"
    by (simp add: pair_caller_def)
  with member_has_one_caller [OF pair_bound manifest] pair_bound manifest show ?thesis by blast
qed

theorem lapsed_candidacy_unbinds_member_witness:
  "\<exists>s'. advance demo_formations 200 ''s1'' (Some ''/r1'') fair joined_store = (Pickup_revoked, s') \<and>
     resolve_snapshot demo_env ''/root'' ''s1'' (Some ''/r1'') s' = unbound ''no_formation''"
  by (rule lapsed_candidacy_unbinds_member [where c = "card ''h9'' ''s1'' ''/r1'' None C_ADMITTED (Some ''f2'')"
        and slot = "(''f2'', seat ''d'' (Some ''h9''))", OF joined_bound]) code_simp+

theorem retired_slot_is_joined_witness:
  "\<exists>f' m'. fst (join_formation demo_formations 10 ''f1'' ''b'' ''/r2'' (Some ''s2'') None joined_store) = Inr f' \<and>
     find_row fm_id ''b'' (mf_members f') = Some m' \<and> fm_status m' = Joined \<and> fm_run m' = Some ''/r2''"
  by (rule retired_slot_is_joined [where path = "''/o1''" and f = "cx_manifest joined_context"
        and m = "(seat ''b'' None)\<lparr>fm_status := Abandoned, fm_open_join := True\<rparr>"]) code_simp+

end
